(* ===== verification/Prelude.thy ===== *)
theory Prelude
  imports Main "HOL-Library.Word" "HOL-Library.Multiset" "HOL-Library.Sublist"
begin

text \<open>
  The prelude: machine integers, results, and the parts of the Rust standard library that
  the indexer calls (saturating and checked arithmetic, radix parsing, decimal printing,
  ASCII string functions, slice chunking, the stable \<open>sort_by\<close>), with the facts about them
  that every component uses.
\<close>

unbundle bit_operations_syntax

named_theorems std_simps \<open>facts about the modelled standard library\<close>
named_theorems json_simps \<open>unfolding of the JSON accessors\<close>
named_theorems db_simps \<open>facts about the modelled SQL statements\<close>

subsection \<open>Machine integers\<close>

type_synonym u32 = "32 word"
type_synonym u64 = "64 word"
type_synonym u128 = "128 word"
type_synonym i32 = "32 word"
type_synonym i64 = "64 word"

text \<open>\<open>saturating_add\<close>, \<open>saturating_sub\<close>, \<open>saturating_mul\<close>, \<open>checked_add\<close> and
  \<open>checked_mul\<close> of the unsigned integer types.\<close>

definition saturating_add :: "'a::len word \<Rightarrow> 'a word \<Rightarrow> 'a word" where
  "saturating_add a b = (if a + b < a then - 1 else a + b)"

definition saturating_sub :: "'a::len word \<Rightarrow> 'a word \<Rightarrow> 'a word" where
  "saturating_sub a b = (if a < b then 0 else a - b)"

definition saturating_mul :: "'a::len word \<Rightarrow> 'a word \<Rightarrow> 'a word" where
  "saturating_mul a b = (if uint a * uint b < 2 ^ LENGTH('a) then a * b else - 1)"

definition checked_add :: "'a::len word \<Rightarrow> 'a word \<Rightarrow> 'a word option" where
  "checked_add a b = (if uint a + uint b < 2 ^ LENGTH('a) then Some (a + b) else None)"

definition checked_mul :: "'a::len word \<Rightarrow> 'a word \<Rightarrow> 'a word option" where
  "checked_mul a b = (if uint a * uint b < 2 ^ LENGTH('a) then Some (a * b) else None)"

subsection \<open>Results: anyhow errors with their context chain, and panics\<close>

datatype fault = Error "string list" | Panic string

type_synonym 'a res = "fault + 'a"

text \<open>The \<open>?\<close> operator, \<open>anyhow!\<close>, \<open>.context(..)\<close> and \<open>.ok()\<close>.\<close>

fun and_then :: "'a res \<Rightarrow> ('a \<Rightarrow> 'b res) \<Rightarrow> 'b res" where
  "and_then (Inl e) f = Inl e"
| "and_then (Inr x) f = f x"

definition anyhow :: "string \<Rightarrow> fault" where
  "anyhow msg = Error [msg]"

fun with_context :: "string \<Rightarrow> 'a res \<Rightarrow> 'a res" where
  "with_context c (Inl (Error chain)) = Inl (Error (c # chain))"
| "with_context c r = r"

fun is_ok :: "'a res \<Rightarrow> bool" where
  "is_ok (Inr _) = True"
| "is_ok (Inl _) = False"

fun res_ok :: "'a res \<Rightarrow> 'a option" where
  "res_ok (Inr x) = Some x"
| "res_ok (Inl _) = None"

fun_cases and_then_InrE [elim!]: "and_then r f = Inr y"

fun unwrap_or :: "'a \<Rightarrow> 'a option \<Rightarrow> 'a" where
  "unwrap_or d None = d"
| "unwrap_or d (Some x) = x"

subsection \<open>Strings\<close>

definition digit_char :: "nat \<Rightarrow> char" where
  "digit_char d = ''0123456789'' ! d"

text \<open>\<open>to_string\<close> of an unsigned integer.\<close>

fun dec_string :: "nat \<Rightarrow> string" where
  "dec_string n =
     (if n < 10 then [digit_char n] else dec_string (n div 10) @ [digit_char (n mod 10)])"

declare dec_string.simps [simp del]

definition to_string :: "'a::len word \<Rightarrow> string" where
  "to_string w = dec_string (unat w)"

text \<open>\<open>char::to_digit\<close> and \<open>from_str_radix\<close> (with \<open>parse\<close> the radix 10 case): an optional
  leading \<open>+\<close>, at least one digit, no overflow.\<close>

definition to_digit :: "nat \<Rightarrow> char \<Rightarrow> nat option" where
  "to_digit r c =
     (let n = (of_char c :: nat);
          d = (if 48 \<le> n \<and> n \<le> 57 then Some (n - 48)
               else if 97 \<le> n \<and> n \<le> 122 then Some (n - 87)
               else if 65 \<le> n \<and> n \<le> 90 then Some (n - 55) else None)
      in case d of None \<Rightarrow> None | Some v \<Rightarrow> if v < r then Some v else None)"

fun parse_digits :: "nat \<Rightarrow> 'a::len word \<Rightarrow> string \<Rightarrow> 'a word option" where
  "parse_digits r acc [] = Some acc"
| "parse_digits r acc (c # cs) =
     (case to_digit r c of None \<Rightarrow> None
      | Some d \<Rightarrow> (case checked_mul acc (of_nat r) of None \<Rightarrow> None
        | Some m \<Rightarrow> (case checked_add m (of_nat d) of None \<Rightarrow> None
          | Some a \<Rightarrow> parse_digits r a cs)))"

definition strip_plus :: "string \<Rightarrow> string" where
  "strip_plus s = (case s of c # cs \<Rightarrow> if c = CHR ''+'' then cs else s | [] \<Rightarrow> [])"

definition from_str_radix :: "nat \<Rightarrow> string \<Rightarrow> 'a::len word option" where
  "from_str_radix r s =
     (if strip_plus s = [] then None else parse_digits r 0 (strip_plus s))"

text \<open>\<open>str::strip_prefix\<close>, \<open>str::contains\<close>, \<open>to_ascii_lowercase\<close> and
  \<open>eq_ignore_ascii_case\<close>.\<close>

definition strip_prefix :: "string \<Rightarrow> string \<Rightarrow> string option" where
  "strip_prefix p s = (if prefix p s then Some (drop (length p) s) else None)"

fun str_contains :: "string \<Rightarrow> string \<Rightarrow> bool" where
  "str_contains pat [] = (pat = [])"
| "str_contains pat (c # cs) = (prefix pat (c # cs) \<or> str_contains pat cs)"

definition lower_char :: "char \<Rightarrow> char" where
  "lower_char c =
     (case map_of (zip ''ABCDEFGHIJKLMNOPQRSTUVWXYZ'' ''abcdefghijklmnopqrstuvwxyz'') c of
        Some d \<Rightarrow> d | None \<Rightarrow> c)"

definition to_ascii_lowercase :: "string \<Rightarrow> string" where
  "to_ascii_lowercase s = map lower_char s"

definition eq_ignore_ascii_case :: "string \<Rightarrow> string \<Rightarrow> bool" where
  "eq_ignore_ascii_case a b \<longleftrightarrow> to_ascii_lowercase a = to_ascii_lowercase b"

subsection \<open>Slices: chunks and the stable sort\<close>

text \<open>\<open>slice::chunks(n)\<close>; the source only calls it with \<open>n > 0\<close> (it panics on 0).\<close>

fun chunks :: "nat \<Rightarrow> 'a list \<Rightarrow> 'a list list" where
  "chunks n xs = (if n = 0 \<or> xs = [] then [] else take n xs # chunks n (drop n xs))"

declare chunks.simps [simp del]

datatype ordering = Less | Equal | Greater

definition compare :: "'a::linorder \<Rightarrow> 'a \<Rightarrow> ordering" where
  "compare a b = (if a < b then Less else if a = b then Equal else Greater)"

fun insert_by :: "('a \<Rightarrow> 'a \<Rightarrow> ordering) \<Rightarrow> 'a \<Rightarrow> 'a list \<Rightarrow> 'a list" where
  "insert_by cmp x [] = [x]"
| "insert_by cmp x (y # ys) =
     (if cmp x y = Greater then y # insert_by cmp x ys else x # y # ys)"

text \<open>\<open>slice::sort_by\<close> is a stable sort.\<close>

definition sort_by :: "('a \<Rightarrow> 'a \<Rightarrow> ordering) \<Rightarrow> 'a list \<Rightarrow> 'a list" where
  "sort_by cmp xs = foldr (insert_by cmp) xs []"

subsection \<open>Facts about the integers\<close>

lemma uint_mult_less_iff:
  "uint a * uint b < 2 ^ n \<longleftrightarrow> unat (a :: 'a::len word) * unat (b :: 'a word) < 2 ^ n"
proof -
  have "int (unat a * unat b) < int (2 ^ n) \<longleftrightarrow> unat a * unat b < 2 ^ n"
    by (rule of_nat_less_iff)
  then show ?thesis by (simp only: uint_nat of_nat_mult of_nat_power of_nat_numeral)
qed

lemma uint_add_less_iff:
  "uint a + uint b < 2 ^ n \<longleftrightarrow> unat (a :: 'a::len word) + unat (b :: 'a word) < 2 ^ n"
proof -
  have "int (unat a + unat b) < int (2 ^ n) \<longleftrightarrow> unat a + unat b < 2 ^ n"
    by (rule of_nat_less_iff)
  then show ?thesis by (simp only: uint_nat of_nat_add of_nat_power of_nat_numeral)
qed

lemma unat_saturating_add [std_simps]:
  "unat (saturating_add a (b :: 'a::len word)) = min (2 ^ LENGTH('a) - 1) (unat a + unat b)"
proof (cases "unat a + unat b < 2 ^ LENGTH('a)")
  case True
  then have "unat (a + b) = unat a + unat b" by (simp add: unat_add_lem)
  with True show ?thesis by (auto simp: saturating_add_def word_less_nat_alt)
next
  case False
  then have "unat (a + b) = unat a + unat b - 2 ^ LENGTH('a)"
    by (simp add: unat_plus_if' [of a b])
  moreover have "unat b < 2 ^ LENGTH('a)" by (rule unsigned_less)
  ultimately have "unat (a + b) < unat a" using False by linarith
  then have "a + b < a" by (simp add: word_less_nat_alt)
  with False show ?thesis
    by (simp add: saturating_add_def unsigned_minus_1_eq_mask mask_eq_exp_minus_1)
qed

lemma unat_saturating_sub [std_simps]:
  "unat (saturating_sub a b) = unat a - unat b"
  by (simp add: saturating_sub_def word_less_nat_alt unat_sub word_le_nat_alt)

lemma unat_add_of_nat:
  assumes "unat (a :: u64) + n < 2 ^ 64"
  shows "unat (a + of_nat n) = unat a + n"
proof -
  have "unat (a + of_nat n) = (unat a + n mod 2 ^ 64) mod 2 ^ 64"
    by (simp add: unat_word_ariths unsigned_of_nat take_bit_eq_mod)
  then show ?thesis using assms by (simp only: mod_add_right_eq mod_less)
qed

lemma unat_u64: "unat (a :: u64) < 2 ^ 64"
  by (rule order_less_le_trans [OF unsigned_less]) simp

lemma unat_next:
  assumes "(a :: u64) < b"
  shows "unat (a + 1) = Suc (unat a)"
proof -
  have "unat a < unat b" using assms by (simp add: word_less_nat_alt)
  then show ?thesis using unat_add_of_nat [of a 1] unat_u64 [of b] by simp
qed

lemma saturating_sub_eq_0 [std_simps]: "saturating_sub a b = 0 \<longleftrightarrow> a \<le> b"
  by (auto simp: saturating_sub_def)

lemma saturating_sub_gt_0 [std_simps]: "0 < saturating_sub a b \<longleftrightarrow> b < a"
  using saturating_sub_eq_0 [of a b] by (auto simp: word_neq_0_conv [symmetric] not_le)

lemma unat_saturating_mul [std_simps]:
  "unat (saturating_mul a (b :: 'a::len word)) = min (2 ^ LENGTH('a) - 1) (unat a * unat b)"
proof (cases "unat a * unat b < 2 ^ LENGTH('a)")
  case True
  then have "unat (a * b) = unat a * unat b" by (simp add: unat_mult_lem)
  with True show ?thesis by (simp add: saturating_mul_def uint_mult_less_iff)
next
  case False
  then show ?thesis
    by (simp add: saturating_mul_def uint_mult_less_iff unsigned_minus_1_eq_mask mask_eq_exp_minus_1)
qed

lemma checked_add_eq [std_simps]:
  "checked_add a (b :: 'a::len word) =
     (if unat a + unat b < 2 ^ LENGTH('a) then Some (of_nat (unat a + unat b)) else None)"
  by (simp add: checked_add_def uint_add_less_iff)

lemma checked_mul_eq [std_simps]:
  "checked_mul a (b :: 'a::len word) =
     (if unat a * unat b < 2 ^ LENGTH('a) then Some (of_nat (unat a * unat b)) else None)"
  by (simp add: checked_mul_def uint_mult_less_iff)

subsection \<open>Facts about results\<close>

lemma and_then_Inr [simp]: "and_then r f = Inr y \<longleftrightarrow> (\<exists>x. r = Inr x \<and> f x = Inr y)"
  by (cases r) auto

lemma is_ok_iff: "is_ok r \<longleftrightarrow> (\<exists>x. r = Inr x)"
  by (cases r) auto

lemma with_context_Inr [simp]: "with_context c r = Inr x \<longleftrightarrow> r = Inr x"
  by (cases "(c, r)" rule: with_context.cases) auto

lemma res_ok_Some [simp]: "res_ok r = Some x \<longleftrightarrow> r = Inr x"
  by (cases r) auto

subsection \<open>Facts about radix parsing and decimal printing\<close>

text \<open>The mathematical value of a digit string, unbounded.\<close>

fun digits_value :: "nat \<Rightarrow> nat \<Rightarrow> string \<Rightarrow> nat option" where
  "digits_value r acc [] = Some acc"
| "digits_value r acc (c # cs) =
     (case to_digit r c of None \<Rightarrow> None | Some d \<Rightarrow> digits_value r (acc * r + d) cs)"

lemma digits_value_ge: "digits_value r acc s = Some v \<Longrightarrow> 0 < r \<Longrightarrow> acc \<le> v"
proof (induction r acc s rule: digits_value.induct)
  case (2 r acc c cs)
  then obtain d where d: "to_digit r c = Some d" "digits_value r (acc * r + d) cs = Some v"
    by (auto split: option.splits)
  have "acc * 1 \<le> acc * r" using 2(3) by (intro mult_le_mono) auto
  moreover have "acc * r + d \<le> v" by (rule 2(1) [OF d(1) d(2) 2(3)])
  ultimately show ?case by linarith
qed simp

lemma digits_value_append:
  "digits_value r acc (s @ t) = Option.bind (digits_value r acc s) (\<lambda>v. digits_value r v t)"
  by (induction r acc s rule: digits_value.induct) (auto split: option.splits)

lemma to_digit_less: "to_digit r c = Some d \<Longrightarrow> d < r"
  by (auto simp: to_digit_def Let_def split: option.splits if_splits)

theorem parse_digits_eq:
  fixes acc :: "'a::len word"
  assumes r: "0 < r" "r < 2 ^ LENGTH('a)"
  shows "parse_digits r acc s =
    (case digits_value r (unat acc) s of None \<Rightarrow> None
     | Some v \<Rightarrow> if v < 2 ^ LENGTH('a) then Some (of_nat v) else None)"
proof (induction s arbitrary: acc)
  case Nil
  have "unat acc < 2 ^ LENGTH('a)" by (rule unsigned_less)
  then show ?case by simp
next
  case (Cons c cs)
  show ?case
  proof (cases "to_digit r c")
    case None
    then show ?thesis by simp
  next
    case (Some d)
    have dr: "d < r" using Some by (rule to_digit_less)
    have dl: "d mod 2 ^ LENGTH('a) = d" using r dr by simp
    have ur: "unat (of_nat r :: 'a word) = r" using r by (simp add: unat_of_nat)
    have ud: "unat (of_nat d :: 'a word) = d" using r dr by (simp add: unat_of_nat)
    show ?thesis
    proof (cases "unat acc * r + d < 2 ^ LENGTH('a)")
      case True
      then have "unat acc * r < 2 ^ LENGTH('a)" by linarith
      with True Some show ?thesis
        by (simp add: std_simps ur ud r dl unat_of_nat Cons.IH del: of_nat_add of_nat_mult)
    next
      case False
      have "v \<ge> 2 ^ LENGTH('a)" if "digits_value r (unat acc * r + d) cs = Some v" for v
        using digits_value_ge [OF that r(1)] False by simp
      with False Some show ?thesis
        by (auto simp: std_simps ur ud r dl unat_of_nat simp del: of_nat_add of_nat_mult
            split: option.splits)
    qed
  qed
qed

definition decimal_digits :: "char set" where
  "decimal_digits = set ''0123456789''"

lemma digit_char_cases:
  assumes "d < 10"
  shows "digit_char d \<in> decimal_digits" and "to_digit 10 (digit_char d) = Some d"
    and "to_digit 16 (digit_char d) = Some d"
proof -
  have "d = 0 \<or> d = 1 \<or> d = 2 \<or> d = 3 \<or> d = 4 \<or> d = 5 \<or> d = 6 \<or> d = 7 \<or> d = 8 \<or> d = 9"
    using assms by arith
  then show "digit_char d \<in> decimal_digits" "to_digit 10 (digit_char d) = Some d"
    "to_digit 16 (digit_char d) = Some d"
    by (auto simp: digit_char_def to_digit_def decimal_digits_def)
qed

lemma dec_string_nonempty [simp]: "dec_string n \<noteq> []"
  by (subst dec_string.simps) simp

lemma set_dec_string: "set (dec_string n) \<subseteq> decimal_digits"
proof (induction n rule: dec_string.induct)
  case (1 n)
  then show ?case by (subst dec_string.simps) (auto simp: digit_char_cases)
qed

lemma digits_value_dec_string: "digits_value 10 0 (dec_string n) = Some n"
proof (induction n rule: dec_string.induct)
  case (1 n)
  show ?case
  proof (cases "n < 10")
    case True
    then show ?thesis by (subst dec_string.simps) (simp add: digit_char_cases)
  next
    case False
    then have "digits_value 10 0 (dec_string (n div 10)) = Some (n div 10)" by (rule 1)
    with False show ?thesis
      by (subst dec_string.simps) (simp add: digits_value_append digit_char_cases)
  qed
qed

lemma dec_string_inject [simp]: "dec_string m = dec_string n \<longleftrightarrow> m = n"
  using digits_value_dec_string by (metis option.inject)

lemma to_string_inject [simp]: "to_string v = to_string (w :: 'a::len word) \<longleftrightarrow> v = w"
  by (simp add: to_string_def word_unat_eq_iff)

lemma strip_plus_dec_string [simp]: "strip_plus (dec_string n) = dec_string n"
proof (cases "dec_string n")
  case (Cons c cs)
  then have "c \<in> decimal_digits" using set_dec_string [of n] by auto
  with Cons show ?thesis by (auto simp: strip_plus_def decimal_digits_def)
qed (simp add: strip_plus_def)

lemma from_str_radix_to_string:
  fixes w :: "'a::len word"
  assumes "4 \<le> LENGTH('a)"
  shows "from_str_radix 10 (to_string w) = Some w"
proof -
  have "(2::nat) ^ 4 \<le> 2 ^ LENGTH('a)" using assms by (intro power_increasing) auto
  then have "10 < (2::nat) ^ LENGTH('a)" by simp
  moreover have "unat w < 2 ^ LENGTH('a)" by (rule unsigned_less)
  ultimately show ?thesis
    by (simp add: from_str_radix_def to_string_def parse_digits_eq digits_value_dec_string)
qed

subsection \<open>Facts about chunks\<close>

lemma concat_chunks: "0 < n \<Longrightarrow> concat (chunks n xs) = xs"
  by (induction n xs rule: chunks.induct) (subst chunks.simps, auto)

lemma chunks_length: "c \<in> set (chunks n xs) \<Longrightarrow> length c \<le> n"
  by (induction n xs rule: chunks.induct) (subst (asm) (2) chunks.simps, auto split: if_splits)

lemma chunks_nonempty: "c \<in> set (chunks n xs) \<Longrightarrow> c \<noteq> []"
  by (induction n xs rule: chunks.induct) (subst (asm) (2) chunks.simps, auto split: if_splits)

lemma chunks_Nil [simp]: "chunks n [] = []"
  by (simp add: chunks.simps)

lemma find_SomeD: "find P xs = Some x \<Longrightarrow> x \<in> set xs \<and> P x"
  by (auto simp: find_Some_iff)

text \<open>Unfolding of the decimal form on literals only, for evaluation.\<close>

lemma dec_string_numeral:
  "dec_string 0 = ''0''" "dec_string 1 = ''1''" "dec_string (Suc 0) = ''1''"
  "dec_string (numeral k) =
     (if numeral k < (10 :: nat) then [digit_char (numeral k)]
      else dec_string (numeral k div 10) @ [digit_char (numeral k mod 10)])"
  by (subst dec_string.simps; simp add: digit_char_def)+

lemma saturating_sub_less: "b < a \<Longrightarrow> saturating_sub a b = a - b"
  by (auto simp: saturating_sub_def)

lemma word_pos_of_less: "a < b \<Longrightarrow> 0 < (b :: 'a::len word)"
  by (metis le_less_trans word_zero_le)

lemma saturating_sub_0: "saturating_sub a b = 0 \<longleftrightarrow> a \<le> b"
  and saturating_sub_pos: "0 < saturating_sub a b \<longleftrightarrow> b < a"
  by (auto simp: saturating_sub_def word_gt_0)

end
