(* ===== verification/Json.thy ===== *)
theory Json
  imports Prelude
begin

text \<open>
  The data every component exchanges: JSON values as \<open>serde_json::Value\<close> has them (an
  unsigned, a negative or a floating number; objects as key/value lists with unique keys), and
  the accessors the source uses (\<open>get\<close>, \<open>as_str\<close>, \<open>as_array\<close>, \<open>as_object\<close>, \<open>as_u64\<close>, \<open>as_i64\<close>,
  \<open>contains_key\<close>).  A chain \<open>v.get("a").and_then(|x| x.get("b"))\<close> is \<open>jpath [''a'', ''b''] v\<close>.
\<close>

datatype jnum = PosInt u64 | NegInt i64 | Float u64

datatype json =
    JNull
  | JBool bool
  | JNum jnum
  | JStr string
  | JArr "json list"
  | JObj "(string \<times> json) list"

fun as_object :: "json \<Rightarrow> (string \<times> json) list option" where
  "as_object (JObj kvs) = Some kvs"
| "as_object _ = None"

fun as_array :: "json \<Rightarrow> json list option" where
  "as_array (JArr xs) = Some xs"
| "as_array _ = None"

fun as_str :: "json \<Rightarrow> string option" where
  "as_str (JStr s) = Some s"
| "as_str _ = None"

fun as_u64 :: "json \<Rightarrow> u64 option" where
  "as_u64 (JNum (PosInt n)) = Some n"
| "as_u64 _ = None"

text \<open>A non-negative number is an \<open>i64\<close> when it is at most \<open>i64::MAX\<close>.\<close>

fun as_i64 :: "json \<Rightarrow> i64 option" where
  "as_i64 (JNum (PosInt n)) = (if n < 0x8000000000000000 then Some n else None)"
| "as_i64 (JNum (NegInt n)) = Some n"
| "as_i64 _ = None"

definition contains_key :: "(string \<times> json) list \<Rightarrow> string \<Rightarrow> bool" where
  "contains_key kvs k \<longleftrightarrow> k \<in> set (map fst kvs)"

fun jget :: "string \<Rightarrow> json \<Rightarrow> json option" where
  "jget k (JObj kvs) = map_of kvs k"
| "jget k _ = None"

fun jpath :: "string list \<Rightarrow> json \<Rightarrow> json option" where
  "jpath [] v = Some v"
| "jpath (k # ks) v = Option.bind (jget k v) (jpath ks)"

text \<open>The chains the source ends them with: \<open>.and_then(|v| v.as_str()).unwrap_or("")\<close> and
  \<open>.and_then(|a| a.as_array()).cloned().unwrap_or_default()\<close>.\<close>

definition jstr :: "string list \<Rightarrow> json \<Rightarrow> string option" where
  "jstr ks v = Option.bind (jpath ks v) as_str"

definition jstr_or_empty :: "string list \<Rightarrow> json \<Rightarrow> string" where
  "jstr_or_empty ks v = unwrap_or [] (jstr ks v)"

definition jarr_or_empty :: "string list \<Rightarrow> json \<Rightarrow> json list" where
  "jarr_or_empty ks v = unwrap_or [] (Option.bind (jpath ks v) as_array)"

definition ji64 :: "string list \<Rightarrow> json \<Rightarrow> i64 option" where
  "ji64 ks v = Option.bind (jpath ks v) as_i64"

text \<open>\<open>json!(n)\<close> of a signed 32-bit integer, as the trace events of the pipeline carry it.\<close>

definition json_of_i32 :: "i32 \<Rightarrow> json" where
  "json_of_i32 n = JNum (if 0 \<le> sint n then PosInt (scast n) else NegInt (scast n))"

lemmas json_access_defs = jstr_def jstr_or_empty_def jarr_or_empty_def ji64_def contains_key_def

lemma contains_key_map_of: "contains_key kvs k \<longleftrightarrow> (\<exists>v. map_of kvs k = Some v)"
proof -
  have "k \<in> fst ` set kvs \<longleftrightarrow> map_of kvs k \<noteq> None" by (simp add: map_of_eq_None_iff)
  then show ?thesis by (auto simp: contains_key_def)
qed

lemma jget_Some_object: "jget k v = Some x \<longleftrightarrow> (\<exists>kvs. v = JObj kvs \<and> map_of kvs k = Some x)"
  by (cases v) auto

text \<open>Reading back the \<open>vout\<close> that an event was built with.\<close>

lemma scast_i32_nonneg: "0 \<le> sint (n :: i32) \<Longrightarrow> (scast n :: i64) = ucast n"
proof (rule bit_word_eqI)
  fix i
  assume "0 \<le> sint n"
  then have top: "\<not> bit n 31" using bit_last_iff [of n] by simp
  show "bit (scast n :: i64) i = bit (ucast n :: i64) i" if "i < LENGTH(64)"
    using that top by (auto simp: bit_word_scast_iff bit_word_ucast_iff dest: bit_imp_le_length)
qed

lemma as_i64_json_of_i32 [json_simps]: "as_i64 (json_of_i32 n) = Some (scast n)"
proof (cases "0 \<le> sint n")
  case True
  have "uint n < 2 ^ 32" using uint_lt2p [of n] by simp
  moreover from this have "uint (ucast n :: i64) = uint n"
    by (simp add: unsigned_ucast_eq take_bit_int_eq_self_iff)
  ultimately have "(ucast n :: i64) < 0x8000000000000000" by (simp add: word_less_def)
  with True show ?thesis by (simp add: json_of_i32_def scast_i32_nonneg)
qed (simp add: json_of_i32_def)

lemma i32_of_i64_of_i32 [json_simps]: "(ucast (scast (n :: i32) :: i64) :: i32) = n"
  by (rule bit_word_eqI) (auto simp: bit_word_scast_iff bit_word_ucast_iff)

end
