(* ===== verification/Token_Amounts.thy ===== *)
theory Token_Amounts
  imports Json
begin

text \<open>
  The number helpers of \<open>helpers/poolswap.rs\<close>: reading a \<open>u128\<close> from the four shapes that trace
  JSON uses (a \<open>{hi, lo}\<close> pair, a hexadecimal string, a decimal string, a number), and the
  saturating total of one token over a list of alkanes.  The other indexers carry verbatim
  copies of these functions; \<open>helpers/subfrost.rs\<close> has one variant, modelled as
  \<open>subfrost_value_u128_from_json\<close> and shown equal.
\<close>

subsection \<open>Reading a u128\<close>

definition hex_digits :: "string \<Rightarrow> string" where
  "hex_digits s = unwrap_or s (strip_prefix ''0x'' s)"

text \<open>The text that the parse error adds to the message is not modelled.\<close>

definition hex_to_dec_u128_str :: "string \<Rightarrow> string res" where
  "hex_to_dec_u128_str hex_str =
     (case (from_str_radix 16 (hex_digits hex_str) :: u128 option) of
        Some val \<Rightarrow> Inr (to_string val)
      | None \<Rightarrow> Inl (anyhow (''invalid hex: '' @ hex_str)))"

definition hex_to_u128 :: "string \<Rightarrow> u128 option" where
  "hex_to_u128 hex_str = from_str_radix 16 (hex_digits hex_str)"

definition u128_from_json :: "json \<Rightarrow> u128 option" where
  "u128_from_json obj =
     (case (jget ''hi'' obj, jget ''lo'' obj) of
        (Some hi, Some lo) \<Rightarrow>
          (case as_u64 hi of None \<Rightarrow> None
           | Some h \<Rightarrow> (case as_u64 lo of None \<Rightarrow> None
             | Some l \<Rightarrow> Some (push_bit 64 (ucast h) OR ucast l)))
      | _ \<Rightarrow> None)"

definition is_hex_letter :: "char \<Rightarrow> bool" where
  "is_hex_letter c \<longleftrightarrow> c \<in> set ''abcdefABCDEF''"

definition value_u128_from_json :: "json \<Rightarrow> u128 option" where
  "value_u128_from_json v =
     (if (case as_object v of
            Some obj \<Rightarrow> contains_key obj ''hi'' \<and> contains_key obj ''lo''
          | None \<Rightarrow> False)
      then u128_from_json v
      else (case as_str v of
              Some s \<Rightarrow>
                if prefix ''0x'' s \<or> list_ex is_hex_letter s
                then hex_to_u128 s else from_str_radix 10 s
            | None \<Rightarrow> map_option ucast (as_u64 v)))"

text \<open>The copy in \<open>subfrost.rs\<close> inlines the pair and propagates with \<open>?\<close>.\<close>

definition subfrost_value_u128_from_json :: "json \<Rightarrow> u128 option" where
  "subfrost_value_u128_from_json v =
     (if (case as_object v of
            Some obj \<Rightarrow> contains_key obj ''hi'' \<and> contains_key obj ''lo''
          | None \<Rightarrow> False)
      then Option.bind (Option.bind (jget ''hi'' v) as_u64) (\<lambda>hi.
           Option.bind (Option.bind (jget ''lo'' v) as_u64) (\<lambda>lo.
           Some (push_bit 64 (ucast hi) OR ucast lo)))
      else (case as_str v of
              Some s \<Rightarrow>
                if prefix ''0x'' s \<or> list_ex is_hex_letter s
                then hex_to_u128 s else from_str_radix 10 s
            | None \<Rightarrow> map_option ucast (as_u64 v)))"

subsection \<open>Token identifiers and totals\<close>

text \<open>\<open>id.get(k).and_then(value_u128_from_json).unwrap_or(0).to_string()\<close> for \<open>block\<close> and \<open>tx\<close>.\<close>

definition id_part :: "string \<Rightarrow> json \<Rightarrow> string" where
  "id_part k i = to_string (unwrap_or 0 (Option.bind (jget k i) value_u128_from_json))"

definition alkane_id :: "json \<Rightarrow> string \<times> string" where
  "alkane_id i = (id_part ''block'' i, id_part ''tx'' i)"

definition add_alkane :: "string \<times> string \<Rightarrow> json \<Rightarrow> u128 \<Rightarrow> u128" where
  "add_alkane target a acc =
     (case jget ''id'' a of
        None \<Rightarrow> acc
      | Some i \<Rightarrow>
          if alkane_id i = target
          then (case Option.bind (jget ''value'' a) value_u128_from_json of
                  Some v \<Rightarrow> saturating_add acc v | None \<Rightarrow> acc)
          else acc)"

definition calculate_token_total :: "json list \<Rightarrow> string \<Rightarrow> string \<Rightarrow> u128" where
  "calculate_token_total alkanes target_block target_tx =
     fold (add_alkane (target_block, target_tx)) alkanes 0"

subsection \<open>Correctness of the readers\<close>

lemma from_str_radix_Some:
  fixes w :: "'a::len word"
  assumes "0 < r" "r < 2 ^ LENGTH('a)"
  shows "from_str_radix r s = Some w \<longleftrightarrow>
    strip_plus s \<noteq> [] \<and> digits_value r 0 (strip_plus s) = Some (unat w)"
proof -
  have "unat w < 2 ^ LENGTH('a)" by (rule unsigned_less)
  then have *: "v < 2 ^ LENGTH('a) \<and> of_nat v = w \<longleftrightarrow> v = unat w" for v
    by (auto simp: unat_of_nat)
  show ?thesis
    using assms * by (auto simp: from_str_radix_def parse_digits_eq split: option.splits if_splits)
qed

lemma no_hex_letter_dec_string: "\<not> list_ex is_hex_letter (dec_string n)"
proof -
  have "\<not> is_hex_letter c" if "c \<in> decimal_digits" for c
    using that by (auto simp: decimal_digits_def is_hex_letter_def)
  then show ?thesis using set_dec_string [of n] by (auto simp: list_ex_iff)
qed

lemma no_0x_dec_string: "\<not> prefix ''0x'' (dec_string n)"
proof
  assume "prefix ''0x'' (dec_string n)"
  then have "CHR ''x'' \<in> set (dec_string n)" by (auto simp: prefix_def)
  then show False using set_dec_string [of n] by (auto simp: decimal_digits_def)
qed

lemma value_of_dec_string: "value_u128_from_json (JStr (to_string (w :: u128))) = Some w"
  using from_str_radix_to_string [of w]
  by (simp add: value_u128_from_json_def no_hex_letter_dec_string no_0x_dec_string to_string_def)

lemma unat_hi_lo:
  "unat (push_bit 64 (ucast (h :: u64)) OR ucast (l :: u64) :: u128) = unat h * 2 ^ 64 + unat l"
proof -
  let ?H = "push_bit 64 (ucast h) :: u128" and ?L = "ucast l :: u128"
  have hb: "unat h < 2 ^ 64" "unat l < 2 ^ 64"
    using unsigned_less [of h] unsigned_less [of l] by auto
  have H: "unat ?H = unat h * 2 ^ 64"
    using hb by (simp add: push_bit_eq_mult unat_word_ariths unsigned_ucast_eq take_bit_nat_eq_self)
  have L: "unat ?L = unat l"
    using hb by (simp add: unsigned_ucast_eq take_bit_nat_eq_self)
  have "?H AND ?L = 0"
    by (rule bit_word_eqI) (auto simp: bit_and_iff bit_push_bit_iff bit_word_ucast_iff)
  then have "?H OR ?L = ?H + ?L" by (simp add: disjunctive_add_eq_or)
  moreover have "unat h * 2 ^ 64 + unat l < 2 ^ 128" using hb by simp
  ultimately show ?thesis using H L by (simp add: unat_add_lem [THEN iffD1])
qed

text \<open>The two copies of the reader agree.\<close>

lemma subfrost_value_eq: "subfrost_value_u128_from_json = value_u128_from_json"
  by (rule ext)
    (auto simp: subfrost_value_u128_from_json_def value_u128_from_json_def u128_from_json_def
      contains_key_map_of as_object.simps split: option.splits if_splits)

subsection \<open>Correctness of the total\<close>

text \<open>What one alkane contributes to the total of a token, as a natural number.\<close>

definition token_amount :: "string \<times> string \<Rightarrow> json \<Rightarrow> nat" where
  "token_amount target a =
     (case jget ''id'' a of
        None \<Rightarrow> 0
      | Some i \<Rightarrow>
          if alkane_id i = target
          then unat (unwrap_or 0 (Option.bind (jget ''value'' a) value_u128_from_json)) else 0)"

lemma unat_add_alkane:
  "unat (add_alkane target a acc) = min (2 ^ 128 - 1) (unat acc + token_amount target a)"
proof -
  have "unat acc < 2 ^ 128" using unsigned_less [of acc] by simp
  then show ?thesis
    by (auto simp: add_alkane_def token_amount_def unat_saturating_add split: option.splits)
qed

lemma unat_fold_add_alkane:
  "unat (fold (add_alkane target) as acc) = min (2 ^ 128 - 1) (unat acc + sum_list (map (token_amount target) as))"
proof (induction as arbitrary: acc)
  case Nil
  have "unat acc < 2 ^ 128" using unsigned_less [of acc] by simp
  then show ?case by simp
next
  case (Cons a as)
  then show ?case by (simp add: unat_add_alkane)
qed

theorem unat_calculate_token_total:
  "unat (calculate_token_total as b t) = min (2 ^ 128 - 1) (sum_list (map (token_amount (b, t)) as))"
  by (simp add: calculate_token_total_def unat_fold_add_alkane)

lemma calculate_token_total_Nil [simp]: "calculate_token_total [] b t = 0"
  by (simp add: calculate_token_total_def)

end
