(* ===== verification/Scan.thy ===== *)
theory Scan
  imports Prelude
begin

text \<open>
  The two loop shapes that the indexers share, as interfaces.

  \<open>key_comparator\<close>: a comparator handed to \<open>sort_by\<close> that in fact compares a key of a linear
  order; its clients get that the sort is the library's stable \<open>sort_key\<close>, hence a sorted
  permutation that keeps the relative order of equal keys.

  \<open>best_match\<close>: the loop of \<open>poolcreate.rs\<close>, \<open>poolmint.rs\<close> and \<open>poolburn.rs\<close> that walks the
  events after an invoke, skips the ones that are not eligible and keeps the best score seen,
  replacing it by a better one; its clients get that the loop finds an eligible event whenever
  there is one, that it has the least key, and that it is the latest one with that key.
\<close>

subsection \<open>Sorting by a key comparator\<close>

locale key_comparator =
  fixes cmp :: "'a \<Rightarrow> 'a \<Rightarrow> ordering" and key :: "'a \<Rightarrow> 'k::linorder"
  assumes cmp_key: "cmp a b = compare (key a) (key b)"
begin

lemma insert_by_key: "insert_by cmp x xs = insort_key key x xs"
  by (induction xs) (auto simp: cmp_key compare_def not_less split: if_splits)

lemma sort_by_key: "sort_by cmp xs = sort_key key xs"
proof -
  have "insert_by cmp = insort_key key" by (intro ext) (rule insert_by_key)
  then show ?thesis by (simp add: sort_by_def sort_key_def)
qed

lemma mset_sort_by: "mset (sort_by cmp xs) = mset xs"
  by (simp add: sort_by_key)

lemma sorted_sort_by: "sorted (map key (sort_by cmp xs))"
  by (simp add: sort_by_key)

lemma stable_sort_by: "filter (\<lambda>x. key x = k) (sort_by cmp xs) = filter (\<lambda>x. key x = k) xs"
  by (simp add: sort_by_key sort_key_stable)

end

subsection \<open>The best-candidate loop\<close>

text \<open>
  The loop state is the pair of the source: \<open>chosen_idx\<close> and \<open>best_score\<close>, whose last
  component is the index.  \<open>score\<close> is \<open>None\<close> where the source continues.
\<close>

definition select_step ::
  "('s \<times> nat \<Rightarrow> 's \<times> nat \<Rightarrow> bool) \<Rightarrow> ('e \<Rightarrow> 's option) \<Rightarrow> nat \<times> 'e
     \<Rightarrow> nat option \<times> ('s \<times> nat) \<Rightarrow> nat option \<times> ('s \<times> nat)" where
  "select_step better score jev st =
     (case jev of (j, ev) \<Rightarrow> case st of (chosen, best) \<Rightarrow>
       (case score ev of
          None \<Rightarrow> (chosen, best)
        | Some s \<Rightarrow>
            if (case chosen of None \<Rightarrow> True | Some _ \<Rightarrow> better (s, j) best)
            then (Some j, (s, j)) else (chosen, best)))"

definition select_best ::
  "('s \<times> nat \<Rightarrow> 's \<times> nat \<Rightarrow> bool) \<Rightarrow> ('e \<Rightarrow> 's option) \<Rightarrow> 's \<Rightarrow> nat \<Rightarrow> 'e list \<Rightarrow> nat option" where
  "select_best better score worst n evs =
     fst (fold (select_step better score) (enumerate n evs) (None, (worst, 0)))"

text \<open>The loop starts after the invoke: \<open>for j in (i+1)..events.len()\<close>.\<close>

definition select_later ::
  "('s \<times> nat \<Rightarrow> 's \<times> nat \<Rightarrow> bool) \<Rightarrow> ('e \<Rightarrow> 's option) \<Rightarrow> 's \<Rightarrow> nat \<Rightarrow> 'e list \<Rightarrow> nat option" where
  "select_later better score worst i evs = select_best better score worst (Suc i) (drop (Suc i) evs)"

text \<open>What the loop is to find: the latest of the eligible elements with the least key.\<close>

definition best_later :: "('e \<Rightarrow> bool) \<Rightarrow> ('e \<Rightarrow> 'k::linorder) \<Rightarrow> nat \<Rightarrow> 'e list \<Rightarrow> nat \<Rightarrow> bool" where
  "best_later P key i evs j \<longleftrightarrow>
     i < j \<and> j < length evs \<and> P (evs ! j) \<and>
     (\<forall>k. i < k \<and> k < length evs \<and> P (evs ! k) \<longrightarrow>
        key (evs ! j) \<le> key (evs ! k) \<and> (j < k \<longrightarrow> key (evs ! j) < key (evs ! k)))"

lemma best_later_unique: "best_later P key i evs j \<Longrightarrow> best_later P key i evs j' \<Longrightarrow> j = j'"
proof (rule ccontr)
  assume best: "best_later P key i evs j" "best_later P key i evs j'" and "j \<noteq> j'"
  have "key (evs ! k) < key (evs ! l)" if "best_later P key i evs k" "best_later P key i evs l" "k < l" for k l
    using that unfolding best_later_def by blast
  moreover have "key (evs ! l) \<le> key (evs ! k)" if "best_later P key i evs k" "best_later P key i evs l" for k l
    using that unfolding best_later_def by blast
  ultimately show False using best \<open>j \<noteq> j'\<close> by (meson linorder_neqE_nat not_less)
qed

locale best_match =
  fixes better :: "'s \<times> nat \<Rightarrow> 's \<times> nat \<Rightarrow> bool"
    and score :: "'e \<Rightarrow> 's option"
    and key :: "'s \<Rightarrow> 'k::linorder"
  assumes better_iff: "better (s, j) (t, k) \<longleftrightarrow> key s < key t \<or> key s = key t \<and> k < j"
begin

text \<open>What the loop state means after the events numbered from \<open>n\<close> have been seen.\<close>

definition seen :: "nat \<Rightarrow> 'e list \<Rightarrow> nat option \<times> ('s \<times> nat) \<Rightarrow> bool" where
  "seen n evs st \<longleftrightarrow>
     (case st of
        (None, _) \<Rightarrow> \<forall>e \<in> set evs. score e = None
      | (Some j, (s, j')) \<Rightarrow>
          j' = j \<and> n \<le> j \<and> j < n + length evs \<and> score (evs ! (j - n)) = Some s \<and>
          (\<forall>k t. k < length evs \<longrightarrow> score (evs ! k) = Some t \<longrightarrow>
             key s \<le> key t \<and> (j < n + k \<longrightarrow> key s < key t)))"

lemma seen_step:
  assumes "seen n evs st"
  shows "seen n (evs @ [e]) (select_step better score (n + length evs, e) st)"
proof (cases "score e")
  case None
  obtain c b where st: "st = (c, b)" by (rule prod.exhaust)
  show ?thesis
  proof (cases c)
    case None
    with assms st \<open>score e = None\<close> show ?thesis by (auto simp: seen_def select_step_def)
  next
    case (Some j)
    with assms st \<open>score e = None\<close> show ?thesis
      by (auto simp: seen_def select_step_def nth_append less_Suc_eq)
  qed
next
  case (Some s)
  obtain c t k where st: "st = (c, (t, k))" by (metis prod.exhaust)
  show ?thesis
  proof (cases c)
    case None
    with assms st Some show ?thesis
      by (auto simp: seen_def select_step_def nth_append less_Suc_eq)
  next
    case (Some j)
    have inv: "k = j" "n \<le> j" "j < n + length evs" "score (evs ! (j - n)) = Some t"
      "\<And>i u. i < length evs \<Longrightarrow> score (evs ! i) = Some u \<Longrightarrow>
         key t \<le> key u \<and> (j < n + i \<longrightarrow> key t < key u)"
      using assms st Some by (auto simp: seen_def)
    show ?thesis
    proof (cases "key s \<le> key t")
      case True
      then have "better (s, n + length evs) (t, k)"
        using inv(1,3) by (auto simp: better_iff)
      then have "select_step better score (n + length evs, e) st =
          (Some (n + length evs), (s, n + length evs))"
        using st Some \<open>score e = Some s\<close> by (simp add: select_step_def)
      moreover have "key s \<le> key u" if "i < length evs" "score (evs ! i) = Some u" for i u
        using True inv(5) [OF that] by (auto intro: order_trans)
      ultimately show ?thesis
        using \<open>score e = Some s\<close> by (auto simp: seen_def nth_append less_Suc_eq)
    next
      case False
      then have "\<not> better (s, n + length evs) (t, k)" by (auto simp: better_iff)
      then have "select_step better score (n + length evs, e) st = (Some j, (t, k))"
        using st Some \<open>score e = Some s\<close> by (simp add: select_step_def)
      with False inv \<open>score e = Some s\<close> show ?thesis
        by (auto simp: seen_def nth_append less_Suc_eq)
    qed
  qed
qed

lemma seen_fold: "seen n evs (fold (select_step better score) (enumerate n evs) (None, (worst, 0)))"
proof (induction evs rule: rev_induct)
  case Nil
  show ?case by (simp add: seen_def)
next
  case (snoc e evs)
  then show ?case using seen_step [OF snoc] by (simp add: enumerate_append_eq)
qed

lemma select_best_None:
  "select_best better score worst n evs = None \<longleftrightarrow> (\<forall>e \<in> set evs. score e = None)"
proof -
  obtain c s k where st: "fold (select_step better score) (enumerate n evs) (None, (worst, 0)) = (c, (s, k))"
    by (metis prod.exhaust)
  have "seen n evs (c, (s, k))" using seen_fold [of n evs worst] st by simp
  then show ?thesis
    by (cases c) (auto simp: select_best_def st seen_def intro!: bexI [OF _ nth_mem])
qed

lemma select_best_Some:
  assumes "select_best better score worst n evs = Some j"
  obtains s where "n \<le> j" "j < n + length evs" "score (evs ! (j - n)) = Some s"
    "\<And>k t. k < length evs \<Longrightarrow> score (evs ! k) = Some t \<Longrightarrow> key s \<le> key t"
    "\<And>k t. k < length evs \<Longrightarrow> j < n + k \<Longrightarrow> score (evs ! k) = Some t \<Longrightarrow> key s < key t"
proof -
  obtain c s k where st: "fold (select_step better score) (enumerate n evs) (None, (worst, 0)) = (c, (s, k))"
    by (metis prod.exhaust)
  then have c: "c = Some j" using assms by (simp add: select_best_def)
  have "seen n evs (Some j, (s, k))" using seen_fold [of n evs worst] st c by simp
  then show thesis by (intro that [of s]) (auto simp: seen_def)
qed

lemma later_nth:
  "(\<forall>k < length (drop (Suc i) evs). P (Suc i + k) (drop (Suc i) evs ! k)) \<longleftrightarrow>
     (\<forall>k. i < k \<and> k < length evs \<longrightarrow> P k (evs ! k))"
proof (intro iffI allI impI)
  fix k
  assume all: "\<forall>k < length (drop (Suc i) evs). P (Suc i + k) (drop (Suc i) evs ! k)"
    and k: "i < k \<and> k < length evs"
  have "P (Suc i + (k - Suc i)) (drop (Suc i) evs ! (k - Suc i))"
    by (rule all [rule_format]) (use k in \<open>auto simp: diff_less_mono\<close>)
  then show "P k (evs ! k)" using k by simp
qed simp

lemma select_later_None:
  "select_later better score worst i evs = None \<longleftrightarrow>
     (\<forall>k. i < k \<and> k < length evs \<longrightarrow> score (evs ! k) = None)"
  using later_nth [of i evs "\<lambda>_ e. score e = None"]
  by (simp add: select_later_def select_best_None all_set_conv_all_nth)

lemma select_later_Some:
  assumes "select_later better score worst i evs = Some j"
  obtains s where "i < j" "j < length evs" "score (evs ! j) = Some s"
    "\<forall>k t. i < k \<and> k < length evs \<and> score (evs ! k) = Some t \<longrightarrow>
       key s \<le> key t \<and> (j < k \<longrightarrow> key s < key t)"
proof -
  from assms obtain s where s: "Suc i \<le> j" "j < Suc i + length (drop (Suc i) evs)"
    "score (drop (Suc i) evs ! (j - Suc i)) = Some s"
    and best: "\<And>k t. k < length (drop (Suc i) evs) \<Longrightarrow> score (drop (Suc i) evs ! k) = Some t \<Longrightarrow> key s \<le> key t"
    "\<And>k t. k < length (drop (Suc i) evs) \<Longrightarrow> j < Suc i + k \<Longrightarrow> score (drop (Suc i) evs ! k) = Some t \<Longrightarrow> key s < key t"
    unfolding select_later_def by (rule select_best_Some) blast
  have "\<forall>k < length (drop (Suc i) evs). \<forall>t. score (drop (Suc i) evs ! k) = Some t \<longrightarrow>
      key s \<le> key t \<and> (j < Suc i + k \<longrightarrow> key s < key t)"
    using best by blast
  then have "\<forall>k. i < k \<and> k < length evs \<longrightarrow> (\<forall>t. score (evs ! k) = Some t \<longrightarrow>
      key s \<le> key t \<and> (j < k \<longrightarrow> key s < key t))"
    by (subst (asm) later_nth)
  with s show thesis by (intro that [of s]) auto
qed

lemma select_later_cases:
  assumes score: "\<And>e. score e = (if P e then Some (val e) else None)"
  shows "case select_later better score worst i evs of
      None \<Rightarrow> \<forall>k. i < k \<and> k < length evs \<longrightarrow> \<not> P (evs ! k)
    | Some j \<Rightarrow> best_later P (\<lambda>e. key (val e)) i evs j"
proof (cases "select_later better score worst i evs")
  case None
  then have "\<forall>k. i < k \<and> k < length evs \<longrightarrow> score (evs ! k) = None"
    by (simp only: select_later_None)
  with None show ?thesis by (auto simp: score)
next
  case (Some j)
  then obtain s where j: "i < j" "j < length evs" "score (evs ! j) = Some s"
    and least: "\<forall>k t. i < k \<and> k < length evs \<and> score (evs ! k) = Some t \<longrightarrow>
       key s \<le> key t \<and> (j < k \<longrightarrow> key s < key t)"
    by (rule select_later_Some)
  have s: "P (evs ! j)" "s = val (evs ! j)" using j(3) by (simp_all add: score split: if_splits)
  have "key s \<le> key (val (evs ! k)) \<and> (j < k \<longrightarrow> key s < key (val (evs ! k)))"
    if "i < k \<and> k < length evs \<and> P (evs ! k)" for k
    using least [rule_format, of k "val (evs ! k)"] that by (simp add: score)
  with Some j s show ?thesis by (simp add: best_later_def)
qed

lemma select_later_best:
  assumes "\<And>e. score e = (if P e then Some (val e) else None)"
    and "select_later better score worst i evs = Some j"
  shows "best_later P (\<lambda>e. key (val e)) i evs j"
  using select_later_cases [OF assms(1), where worst = worst and i = i and evs = evs] assms(2) by simp

lemma select_later_exists:
  assumes "\<And>e. score e = (if P e then Some (val e) else None)"
  shows "select_later better score worst i evs = None \<longleftrightarrow> \<not> (\<exists>k. i < k \<and> k < length evs \<and> P (evs ! k))"
  unfolding select_later_None assms by auto

end

end
