(* ===== verification/Trace_Events.thy ===== *)
theory Trace_Events
  imports Token_Amounts Scan "HOL-Library.Product_Lexorder"
begin

text \<open>
  The trace events that the pipeline hands to the indexers, and the code all of them share:
  reading an event (\<open>eventType\<close>, \<open>vout\<close>, the flattened alkane address, the incoming and the
  returned alkanes), recognising a delegatecall and its opcode, the deterministic order by
  \<open>vout\<close> with invokes before returns, the first later return on the same \<open>vout\<close>, and the
  address of the matched protostone.
\<close>

subsection \<open>Inputs of an indexer\<close>

type_synonym timestamp = int
type_synonym alkane_id = "string \<times> string"

text \<open>The tuple \<open>(transactionId, transactionIndex, timestamp, tx_json, trace_events_json)\<close>.\<close>

record block_tx =
  bt_txid :: string
  bt_index :: i32
  bt_time :: timestamp
  bt_json :: json
  bt_events :: "json list"

type_synonym decoded_map = "string \<rightharpoonup> (i32 \<rightharpoonup> (i32 \<times> json) list)"
type_synonym token_map = "alkane_id \<rightharpoonup> (alkane_id \<times> alkane_id)"

subsection \<open>Reading an event\<close>

definition is_event :: "string \<Rightarrow> json \<Rightarrow> bool" where
  "is_event ty ev \<longleftrightarrow> jstr [''eventType''] ev = Some ty"

definition event_vout :: "json \<Rightarrow> i64 option" where
  "event_vout ev = ji64 [''vout''] ev"

definition event_pool :: "json \<Rightarrow> alkane_id" where
  "event_pool ev =
     (jstr_or_empty [''alkaneAddressBlock''] ev, jstr_or_empty [''alkaneAddressTx''] ev)"

definition no_pool :: "alkane_id \<Rightarrow> bool" where
  "no_pool p \<longleftrightarrow> fst p = [] \<or> snd p = []"

definition incoming_alkanes :: "json \<Rightarrow> json list" where
  "incoming_alkanes ev = jarr_or_empty [''data'', ''context'', ''incomingAlkanes''] ev"

definition returned_alkanes :: "json \<Rightarrow> json list" where
  "returned_alkanes ev = jarr_or_empty [''data'', ''response'', ''alkanes''] ev"

definition is_return_on :: "i64 \<Rightarrow> json \<Rightarrow> bool" where
  "is_return_on v ev \<longleftrightarrow> is_event ''return'' ev \<and> event_vout ev = Some v"

abbreviation token_total :: "json list \<Rightarrow> alkane_id \<Rightarrow> u128" where
  "token_total as i \<equiv> calculate_token_total as (fst i) (snd i)"

subsection \<open>Delegatecalls\<close>

text \<open>
  The guard that \<open>is_delegate_invoke\<close> and its copies share: an invoke whose \<open>data\<close> is an object
  of type \<open>delegatecall\<close> with at least one input, whose first input is a string; the opcode.
\<close>

definition delegate_opcode :: "json \<Rightarrow> string option" where
  "delegate_opcode ev =
     (if \<not> is_event ''invoke'' ev then None
      else (case Option.bind (jget ''data'' ev) as_object of
              None \<Rightarrow> None
            | Some data \<Rightarrow>
                if jstr [''type''] (JObj data) \<noteq> Some ''delegatecall'' then None
                else (case jarr_or_empty [''context'', ''inputs''] (JObj data) of
                        [] \<Rightarrow> None
                      | op # _ \<Rightarrow> as_str op)))"

definition is_delegate_invoke :: "json \<Rightarrow> bool" where
  "is_delegate_invoke ev =
     (case delegate_opcode ev of
        Some opcode_hex \<Rightarrow> res_ok (hex_to_dec_u128_str opcode_hex) = Some ''3''
      | None \<Rightarrow> False)"

definition is_delegate_invoke_create :: "json \<Rightarrow> bool" where
  "is_delegate_invoke_create ev =
     (case delegate_opcode ev of
        Some opcode_hex \<Rightarrow> hex_to_u128 opcode_hex = Some 0 | None \<Rightarrow> False)"

definition is_delegate_invoke_mint :: "json \<Rightarrow> bool" where
  "is_delegate_invoke_mint ev =
     (case delegate_opcode ev of
        Some opcode_hex \<Rightarrow> hex_to_u128 opcode_hex = Some 1 | None \<Rightarrow> False)"

definition is_delegate_invoke_burn :: "json \<Rightarrow> bool" where
  "is_delegate_invoke_burn ev =
     (case delegate_opcode ev of
        Some opcode_hex \<Rightarrow> hex_to_u128 opcode_hex = Some 2 | None \<Rightarrow> False)"

subsection \<open>The deterministic event order\<close>

definition event_weight :: "json \<Rightarrow> nat" where
  "event_weight ev =
     (let e = jstr_or_empty [''eventType''] ev
      in if e = ''invoke'' then 0 else if e = ''return'' then 1 else 2)"

definition vout_or_min :: "json \<Rightarrow> i64" where
  "vout_or_min ev = unwrap_or 0x8000000000000000 (event_vout ev)"

definition event_cmp :: "json \<Rightarrow> json \<Rightarrow> ordering" where
  "event_cmp a b =
     (if vout_or_min a \<noteq> vout_or_min b
      then compare (sint (vout_or_min a)) (sint (vout_or_min b))
      else compare (event_weight a) (event_weight b))"

definition order_events :: "json list \<Rightarrow> json list" where
  "order_events events = sort_by event_cmp events"

subsection \<open>Finding returns\<close>

definition find_matching_return :: "nat \<Rightarrow> json list \<Rightarrow> i64 \<Rightarrow> json option" where
  "find_matching_return invoke_idx events invoke_vout =
     find (is_return_on invoke_vout) (drop (Suc invoke_idx) events)"

definition returns_token :: "alkane_id \<Rightarrow> u128 list \<Rightarrow> json \<Rightarrow> bool" where
  "returns_token expected allowed a =
     (case jget ''id'' a of
        None \<Rightarrow> False
      | Some i \<Rightarrow>
          alkane_id i = expected \<and>
          (allowed = [] \<or>
           (case Option.bind (jget ''value'' a) value_u128_from_json of
              Some v \<Rightarrow> list_ex (\<lambda>x. x = v) allowed | None \<Rightarrow> False)))"

definition find_matching_return_strict ::
  "nat \<Rightarrow> json list \<Rightarrow> i64 \<Rightarrow> alkane_id \<Rightarrow> u128 list \<Rightarrow> json option" where
  "find_matching_return_strict invoke_idx events invoke_vout expected allowed =
     find (\<lambda>ev. is_return_on invoke_vout ev \<and>
             list_ex (returns_token expected allowed) (returned_alkanes ev))
       (drop (Suc invoke_idx) events)"

subsection \<open>The address of the matched protostone\<close>

fun first_address :: "(i32 \<times> json) list \<Rightarrow> string option" where
  "first_address [] = None"
| "first_address ((idx, d) # items) =
     (case jstr [''pointer_destination'', ''address''] d of
        Some addr \<Rightarrow> Some addr | None \<Rightarrow> first_address items)"

definition pointer_address :: "decoded_map \<Rightarrow> string \<Rightarrow> i64 \<Rightarrow> string option" where
  "pointer_address decoded txid vout =
     Option.bind (decoded txid) (\<lambda>by_vout.
     Option.bind (by_vout (ucast vout)) first_address)"

lemmas event_defs = is_event_def event_vout_def event_pool_def no_pool_def incoming_alkanes_def
  returned_alkanes_def is_return_on_def json_access_defs

subsection \<open>Facts about the order\<close>

definition event_key :: "json \<Rightarrow> int \<times> nat" where
  "event_key ev = (sint (vout_or_min ev), event_weight ev)"

interpretation event_order: key_comparator event_cmp event_key
proof
  fix a b
  have "sint (vout_or_min a) = sint (vout_or_min b) \<longleftrightarrow> vout_or_min a = vout_or_min b"
    by (auto intro: signed_word_eqI)
  then show "event_cmp a b = compare (event_key a) (event_key b)"
    by (auto simp: event_cmp_def event_key_def compare_def less_prod_def')
qed

lemma mset_order_events: "mset (order_events evs) = mset evs"
  by (simp add: order_events_def event_order.mset_sort_by)

lemma set_order_events [simp]: "set (order_events evs) = set evs"
  by (metis mset_order_events set_mset_mset)

lemma length_order_events [simp]: "length (order_events evs) = length evs"
  by (metis mset_order_events size_mset)

subsection \<open>Facts about the searches\<close>

text \<open>What a search from an invoke returns: the first later event that satisfies the test.\<close>

lemma find_drop_Some:
  assumes "find P (drop n xs) = Some x"
  obtains k where "n \<le> k" "k < length xs" "x = xs ! k" "P x" "\<And>j. n \<le> j \<Longrightarrow> j < k \<Longrightarrow> \<not> P (xs ! j)"
proof -
  obtain i where i: "i < length (drop n xs)" "P (drop n xs ! i)" "x = drop n xs ! i"
    "\<forall>j<i. \<not> P (drop n xs ! j)"
    using assms by (auto simp: find_Some_iff)
  show thesis
  proof (rule that [of "n + i"])
    fix j
    assume "n \<le> j" "j < n + i"
    then have "j - n < i" "xs ! j = drop n xs ! (j - n)" using i(1) by auto
    with i(4) show "\<not> P (xs ! j)" by simp
  qed (use i in auto)
qed

lemma find_drop_None: "find P (drop n xs) = None \<longleftrightarrow> (\<forall>j. n \<le> j \<and> j < length xs \<longrightarrow> \<not> P (xs ! j))"
  by (auto simp: find_None_iff in_set_conv_nth)
    (metis add.commute diff_add_inverse less_diff_conv le_add_diff_inverse2 nth_drop)

lemma find_matching_return_None:
  "find_matching_return i events v = None \<longleftrightarrow>
     (\<forall>j. i < j \<and> j < length events \<longrightarrow> \<not> is_return_on v (events ! j))"
  by (auto simp: find_matching_return_def find_drop_None Suc_le_eq)

text \<open>Rows that a loop over numbered events pushes.\<close>

lemma length_map_filter: "length (List.map_filter f xs) = length (filter (\<lambda>x. f x \<noteq> None) xs)"
  by (induction xs) (auto simp: List.map_filter_simps split: option.split)

lemma set_map_filter: "y \<in> set (List.map_filter f xs) \<longleftrightarrow> (\<exists>x \<in> set xs. f x = Some y)"
  by (auto simp: List.map_filter_def) force

lemma length_filter_enumerate:
  "length (filter (\<lambda>ie. P (snd ie)) (enumerate n xs)) = length (filter P xs)"
  by (induction xs arbitrary: n) auto

subsection \<open>Building events\<close>

text \<open>Events with the fields that the indexers read, for concrete inputs, and what the readers
  return on them.\<close>

definition id_text :: "u128 \<times> u128 \<Rightarrow> alkane_id" where
  "id_text i = (to_string (fst i), to_string (snd i))"

definition id_json :: "u128 \<times> u128 \<Rightarrow> json" where
  "id_json i = JObj [(''block'', JStr (to_string (fst i))), (''tx'', JStr (to_string (snd i)))]"

definition alkane_json :: "u128 \<times> u128 \<Rightarrow> u128 \<Rightarrow> json" where
  "alkane_json i v = JObj [(''id'', id_json i), (''value'', JStr (to_string v))]"

definition delegate_json :: "i32 \<Rightarrow> u128 \<times> u128 \<Rightarrow> string list \<Rightarrow> json list \<Rightarrow> json" where
  "delegate_json vout pool inputs incoming =
     JObj [(''eventType'', JStr ''invoke''), (''vout'', json_of_i32 vout),
       (''alkaneAddressBlock'', JStr (to_string (fst pool))), (''alkaneAddressTx'', JStr (to_string (snd pool))),
       (''data'', JObj [(''type'', JStr ''delegatecall''),
         (''context'', JObj [(''inputs'', JArr (map JStr inputs)), (''incomingAlkanes'', JArr incoming)])])]"

definition return_json :: "i32 \<Rightarrow> string \<Rightarrow> json list \<Rightarrow> json" where
  "return_json vout status returned =
     JObj [(''eventType'', JStr ''return''), (''vout'', json_of_i32 vout),
       (''data'', JObj [(''status'', JStr status), (''response'', JObj [(''alkanes'', JArr returned)])])]"

definition tx_with :: "string \<Rightarrow> json list \<Rightarrow> block_tx" where
  "tx_with txid events = \<lparr>bt_txid = txid, bt_index = 0, bt_time = 0, bt_json = JNull, bt_events = events\<rparr>"

lemma tx_with_simps [json_simps]:
  "bt_txid (tx_with t evs) = t" "bt_index (tx_with t evs) = 0" "bt_time (tx_with t evs) = 0"
  "bt_events (tx_with t evs) = evs"
  by (simp_all add: tx_with_def)

lemma id_text_simps [json_simps]: "id_text i = id_text j \<longleftrightarrow> i = j" "no_pool (id_text i) = False"
  by (auto simp: id_text_def no_pool_def prod_eq_iff to_string_inject) (simp_all add: to_string_def)

lemma alkane_json_simps [json_simps]:
  "jget ''id'' (alkane_json i v) = Some (id_json i)"
  "jget ''value'' (alkane_json i v) = Some (JStr (to_string v))"
  "alkane_id (id_json i) = id_text i"
  by (simp_all add: alkane_json_def id_json_def alkane_id_def id_part_def id_text_def value_of_dec_string)

lemma token_total_json [json_simps]:
  "token_total [] t = 0"
  "token_total [alkane_json i v] (id_text j) = (if i = j then v else 0)"
  "token_total [alkane_json i v, alkane_json i' v'] (id_text j) =
     saturating_add (if i = j then v else 0) (if i' = j then v' else 0)"
  by (simp_all add: calculate_token_total_def add_alkane_def json_simps value_of_dec_string
      saturating_add_def flip: id_text_def prod_eq_iff)

lemma delegate_json_simps [json_simps]:
  "is_event ''invoke'' (delegate_json vout pool inputs incoming)"
  "\<not> is_event ''return'' (delegate_json vout pool inputs incoming)"
  "\<not> is_return_on w (delegate_json vout pool inputs incoming)"
  "event_vout (delegate_json vout pool inputs incoming) = Some (scast vout)"
  "event_pool (delegate_json vout pool inputs incoming) = id_text pool"
  "incoming_alkanes (delegate_json vout pool inputs incoming) = incoming"
  "delegate_opcode (delegate_json vout pool (op # inputs) incoming) = Some op"
  by (simp_all add: delegate_json_def event_defs id_text_def delegate_opcode_def as_i64_json_of_i32)

lemma return_json_simps [json_simps]:
  "is_event ''return'' (return_json vout status returned)"
  "\<not> is_event ''invoke'' (return_json vout status returned)"
  "event_vout (return_json vout status returned) = Some (scast vout)"
  "is_return_on w (return_json vout status returned) \<longleftrightarrow> w = scast vout"
  "returned_alkanes (return_json vout status returned) = returned"
  "delegate_opcode (return_json vout status returned) = None"
  by (auto simp: return_json_def event_defs delegate_opcode_def as_i64_json_of_i32)

lemma event_key_json [json_simps]:
  "event_weight (delegate_json vout pool inputs incoming) = 0"
  "event_weight (return_json vout status returned) = 1"
  "vout_or_min (delegate_json vout pool inputs incoming) = scast vout"
  "vout_or_min (return_json vout status returned) = scast vout"
  by (simp_all add: event_weight_def vout_or_min_def delegate_json_def return_json_def json_access_defs
      as_i64_json_of_i32 event_vout_def)

text \<open>The opcodes as the traces spell them.\<close>

lemmas hex_eval = hex_digits_def hex_to_u128_def hex_to_dec_u128_str_def from_str_radix_def strip_prefix_def
  strip_plus_def to_digit_def checked_mul_def checked_add_def to_string_def dec_string_numeral
  digit_char_def

lemma opcode_values [json_simps]:
  "hex_to_u128 ''0x0'' = Some 0" "hex_to_u128 ''0x1'' = Some 1" "hex_to_u128 ''0x2'' = Some 2"
  "hex_to_u128 ''0x3'' = Some 3"
  "hex_to_dec_u128_str ''0x3'' = Inr ''3''"
  by (simp_all add: hex_eval std_simps)

lemma delegate_kinds [json_simps]:
  "is_delegate_invoke_create (delegate_json vout pool (op # inputs) incoming) \<longleftrightarrow> hex_to_u128 op = Some 0"
  "is_delegate_invoke_mint (delegate_json vout pool (op # inputs) incoming) \<longleftrightarrow> hex_to_u128 op = Some 1"
  "is_delegate_invoke_burn (delegate_json vout pool (op # inputs) incoming) \<longleftrightarrow> hex_to_u128 op = Some 2"
  "is_delegate_invoke (delegate_json vout pool (op # inputs) incoming) \<longleftrightarrow>
     res_ok (hex_to_dec_u128_str op) = Some ''3''"
  by (simp_all add: is_delegate_invoke_create_def is_delegate_invoke_mint_def
      is_delegate_invoke_burn_def is_delegate_invoke_def json_simps)

end
