(* ===== verification/Tables.thy ===== *)
theory Tables
  imports Trace_Events
begin

text \<open>
  The Postgres database as the schema of \<open>src/schema.rs\<close> declares it: one row type per table
  (the generated columns \<open>createdAt\<close>, \<open>updatedAt\<close> and the ids nothing reads are left out), the
  state of the whole database, the constraints (primary keys, unique constraints and foreign
  keys) as the invariant \<open>schema_ok\<close>, and statements: a statement maps a database to a result
  and a new database or fails, and a statement that fails inside a transaction leaves nothing
  behind (\<open>exec\<close>, which also models a connection that is down).
\<close>

subsection \<open>Rows\<close>

record alkane_tx =
  at_txid :: string
  at_height :: i32
  at_index :: i32
  at_has_trace :: bool
  at_succeed :: bool
  at_data :: json

record trace_event =
  te_txid :: string
  te_height :: i32
  te_vout :: i32
  te_type :: string
  te_data :: json
  te_block :: string
  te_tx :: string

record protostone =
  dp_txid :: string
  dp_vout :: i32
  dp_index :: i32
  dp_height :: i32
  dp_decoded :: json

record clock_in =
  ci_txid :: string
  ci_height :: i32

record processed_block =
  pb_height :: i32
  pb_hash :: string
  pb_time :: timestamp
  pb_processing :: bool

record pool_row =
  pl_id :: string
  pl_factory :: alkane_id
  pl_pool :: alkane_id
  pl_token0 :: alkane_id
  pl_token1 :: alkane_id
  pl_name :: string

record pool_state =
  ps_pool :: string
  ps_height :: i32
  ps_amount0 :: string
  ps_amount1 :: string
  ps_supply :: string

record creation_row =
  cr_txid :: string
  cr_height :: i32
  cr_index :: i32
  cr_pool :: alkane_id
  cr_token0 :: alkane_id
  cr_token1 :: alkane_id
  cr_amount0 :: string
  cr_amount1 :: string
  cr_supply :: string
  cr_creator :: "string option"
  cr_time :: timestamp

text \<open>The double precision columns hold non-negative integers; they are given by their value.\<close>

type_synonym f64 = nat

record swap_row =
  sw_txid :: string
  sw_height :: i32
  sw_index :: i32
  sw_pool :: alkane_id
  sw_sold :: alkane_id
  sw_bought :: alkane_id
  sw_sold_amount :: f64
  sw_bought_amount :: f64
  sw_seller :: "string option"
  sw_time :: timestamp
  sw_successful :: bool

text \<open>\<open>PoolMint\<close> and \<open>PoolBurn\<close> have the same columns, and so have \<open>SubfrostWrap\<close> and
  \<open>SubfrostUnwrap\<close>.\<close>

record liquidity_row =
  lq_txid :: string
  lq_height :: i32
  lq_index :: i32
  lq_pool :: alkane_id
  lq_lp_amount :: string
  lq_token0 :: alkane_id
  lq_token1 :: alkane_id
  lq_amount0 :: string
  lq_amount1 :: string
  lq_address :: "string option"
  lq_time :: timestamp
  lq_successful :: bool

record frost_row =
  fr_txid :: string
  fr_height :: i32
  fr_index :: i32
  fr_address :: "string option"
  fr_amount :: string
  fr_successful :: bool
  fr_time :: timestamp

subsection \<open>The database\<close>

text \<open>\<open>uuid_of n\<close> is the \<open>n\<close>-th value that \<open>gen_random_uuid()\<close> of pgcrypto returns and
  \<open>uuid_next\<close> how many were drawn.\<close>

record db =
  alkane_txs :: "alkane_tx list"
  trace_events :: "trace_event list"
  protostones :: "protostone list"
  clock_ins :: "clock_in list"
  processed_blocks :: "processed_block list"
  clock_in_blocks :: "i32 list"
  pools :: "pool_row list"
  pool_states :: "pool_state list"
  pool_creations :: "creation_row list"
  pool_swaps :: "swap_row list"
  pool_burns :: "liquidity_row list"
  pool_mints :: "liquidity_row list"
  subfrost_wraps :: "frost_row list"
  subfrost_unwraps :: "frost_row list"
  kv_store :: "(string \<times> string) list"
  uuid_of :: "nat \<Rightarrow> string"
  uuid_next :: nat

text \<open>The database after \<open>push_schema\<close> on a fresh server, for concrete inputs.\<close>

definition empty_db :: db where
  "empty_db = \<lparr>alkane_txs = [], trace_events = [], protostones = [], clock_ins = [],
     processed_blocks = [], clock_in_blocks = [], pools = [], pool_states = [], pool_creations = [],
     pool_swaps = [], pool_burns = [], pool_mints = [], subfrost_wraps = [], subfrost_unwraps = [],
     kv_store = [], uuid_of = (\<lambda>n. replicate n CHR ''u''), uuid_next = 0\<rparr>"

subsection \<open>Constraints\<close>

definition alkane_tx_ok :: "db \<Rightarrow> bool" where
  "alkane_tx_ok d \<longleftrightarrow> distinct (map at_txid (alkane_txs d))"

definition trace_event_ok :: "db \<Rightarrow> bool" where
  "trace_event_ok d \<longleftrightarrow> list_all (\<lambda>r. te_txid r \<in> set (map at_txid (alkane_txs d))) (trace_events d)"

definition protostone_key :: "protostone \<Rightarrow> string \<times> i32 \<times> i32" where
  "protostone_key r = (dp_txid r, dp_vout r, dp_index r)"

definition protostone_ok :: "db \<Rightarrow> bool" where
  "protostone_ok d \<longleftrightarrow>
     distinct (map protostone_key (protostones d)) \<and>
     list_all (\<lambda>r. dp_txid r \<in> set (map at_txid (alkane_txs d))) (protostones d)"

definition clock_in_ok :: "db \<Rightarrow> bool" where
  "clock_in_ok d \<longleftrightarrow> list_all (\<lambda>r. ci_txid r \<in> set (map at_txid (alkane_txs d))) (clock_ins d)"

definition processed_block_ok :: "db \<Rightarrow> bool" where
  "processed_block_ok d \<longleftrightarrow>
     distinct (map pb_height (processed_blocks d)) \<and> distinct (map pb_hash (processed_blocks d))"

definition pool_ok :: "db \<Rightarrow> bool" where
  "pool_ok d \<longleftrightarrow> distinct (map pl_id (pools d)) \<and> distinct (map pl_pool (pools d))"

definition pool_state_ok :: "db \<Rightarrow> bool" where
  "pool_state_ok d \<longleftrightarrow>
     list_all (\<lambda>r. ps_pool r \<in> set (map pl_id (pools d))) (pool_states d) \<and>
     distinct (map (\<lambda>r. (ps_pool r, ps_height r)) (pool_states d))"

definition pool_creation_ok :: "db \<Rightarrow> bool" where
  "pool_creation_ok d \<longleftrightarrow>
     list_all (\<lambda>r. cr_pool r \<in> set (map pl_pool (pools d))) (pool_creations d) \<and>
     distinct (map cr_pool (pool_creations d))"

definition kv_store_ok :: "db \<Rightarrow> bool" where
  "kv_store_ok d \<longleftrightarrow> distinct (map fst (kv_store d))"

definition schema_ok :: "db \<Rightarrow> bool" where
  "schema_ok d \<longleftrightarrow>
     alkane_tx_ok d \<and> trace_event_ok d \<and> protostone_ok d \<and> clock_in_ok d \<and>
     processed_block_ok d \<and> pool_ok d \<and> pool_state_ok d \<and> pool_creation_ok d \<and> kv_store_ok d"

lemmas constraint_defs = alkane_tx_ok_def trace_event_ok_def protostone_ok_def clock_in_ok_def
  processed_block_ok_def pool_ok_def pool_state_ok_def pool_creation_ok_def kv_store_ok_def

subsection \<open>Statements and transactions\<close>

type_synonym 'a stm = "db \<Rightarrow> ('a \<times> db) res"

definition stm_return :: "'a \<Rightarrow> 'a stm" where
  "stm_return x d = Inr (x, d)"

definition stm_bind :: "'a stm \<Rightarrow> ('a \<Rightarrow> 'b stm) \<Rightarrow> 'b stm" where
  "stm_bind m f d = and_then (m d) (\<lambda>(x, d'). f x d')"

definition stm_seq :: "unit stm \<Rightarrow> 'b stm \<Rightarrow> 'b stm" where
  "stm_seq m n = stm_bind m (\<lambda>_. n)"

text \<open>A statement that only writes, and the check of a constraint at its end.\<close>

definition update :: "(db \<Rightarrow> db) \<Rightarrow> unit stm" where
  "update f d = Inr ((), f d)"

definition checked :: "string \<Rightarrow> (db \<Rightarrow> bool) \<Rightarrow> (db \<Rightarrow> db) \<Rightarrow> unit stm" where
  "checked violation ok f d = (if ok (f d) then Inr ((), f d) else Inl (anyhow violation))"

definition query :: "(db \<Rightarrow> 'a) \<Rightarrow> 'a stm" where
  "query f d = Inr (f d, d)"

text \<open>The wire protocol numbers bind parameters with 16 bits.\<close>

definition max_params :: nat where
  "max_params = 65535"

definition bind_params :: "nat \<Rightarrow> unit stm \<Rightarrow> unit stm" where
  "bind_params n m d = (if n \<le> max_params then m d else Inl (anyhow ''too many bind parameters''))"

fun for_each_stm :: "('c \<Rightarrow> unit stm) \<Rightarrow> 'c list \<Rightarrow> unit stm" where
  "for_each_stm f [] = stm_return ()"
| "for_each_stm f (c # cs) = stm_seq (f c) (for_each_stm f cs)"

subsection \<open>Actions on the world\<close>

text \<open>
  An action of the program: it changes the world and returns or fails; what it changed before
  it failed stays changed.  \<open>session\<close> is the part of the world that database code sees; the
  outage oracle says which of the successive accesses fail, and with what message.
\<close>

type_synonym ('a, 'w) act = "'w \<Rightarrow> 'a res \<times> 'w"

definition act_return :: "'a \<Rightarrow> ('a, 'w) act" where
  "act_return x w = (Inr x, w)"

definition act_fail :: "fault \<Rightarrow> ('a, 'w) act" where
  "act_fail e w = (Inl e, w)"

definition act_bind :: "('a, 'w) act \<Rightarrow> ('a \<Rightarrow> ('b, 'w) act) \<Rightarrow> ('b, 'w) act" where
  "act_bind m f w = (case m w of (Inl e, w') \<Rightarrow> (Inl e, w') | (Inr x, w') \<Rightarrow> f x w')"

definition act_when :: "bool \<Rightarrow> (unit, 'w) act \<Rightarrow> (unit, 'w) act" where
  "act_when b m = (if b then m else act_return ())"

record session =
  sdb :: db
  db_calls :: nat
  outage :: "nat \<Rightarrow> string option"

definition exec :: "'a stm \<Rightarrow> ('a, 'z session_scheme) act" where
  "exec m s =
     (let s' = s\<lparr>db_calls := Suc (db_calls s)\<rparr>
      in case outage s (db_calls s) of
           Some msg \<Rightarrow> (Inl (anyhow msg), s')
         | None \<Rightarrow> (case m (sdb s) of
             Inl e \<Rightarrow> (Inl e, s')
           | Inr (x, d) \<Rightarrow> (Inr x, s'\<lparr>sdb := d\<rparr>)))"

subsection \<open>Facts about statements and actions\<close>

lemma stm_seq_Inr [db_simps]: "stm_seq m n d = Inr r \<longleftrightarrow> (\<exists>d'. m d = Inr ((), d') \<and> n d' = Inr r)"
  by (auto simp: stm_seq_def stm_bind_def)

lemma stm_bind_Inr [db_simps]:
  "stm_bind m f d = Inr r \<longleftrightarrow> (\<exists>x d'. m d = Inr (x, d') \<and> f x d' = Inr r)"
  by (auto simp: stm_bind_def)

lemma update_Inr [db_simps]: "update f d = Inr r \<longleftrightarrow> r = ((), f d)"
  by (auto simp: update_def)

lemma checked_Inr [db_simps]: "checked v ok f d = Inr r \<longleftrightarrow> ok (f d) \<and> r = ((), f d)"
  by (auto simp: checked_def)

lemma query_Inr [db_simps]: "query f d = Inr r \<longleftrightarrow> r = (f d, d)"
  by (auto simp: query_def)

lemma stm_return_Inr [db_simps]: "stm_return x d = Inr r \<longleftrightarrow> r = (x, d)"
  by (auto simp: stm_return_def)

lemma bind_params_Inr [db_simps]: "bind_params n m d = Inr r \<longleftrightarrow> n \<le> max_params \<and> m d = Inr r"
  by (auto simp: bind_params_def)

text \<open>An invariant of the database is kept by an action when every statement keeps it.\<close>

definition keeps :: "(db \<Rightarrow> bool) \<Rightarrow> 'a stm \<Rightarrow> bool" where
  "keeps P m \<longleftrightarrow> (\<forall>d x d'. P d \<longrightarrow> m d = Inr (x, d') \<longrightarrow> P d')"

lemma keepsI: "(\<And>d x d'. P d \<Longrightarrow> m d = Inr (x, d') \<Longrightarrow> P d') \<Longrightarrow> keeps P m"
  by (auto simp: keeps_def)

lemma keepsD: "keeps P m \<Longrightarrow> P d \<Longrightarrow> m d = Inr (x, d') \<Longrightarrow> P d'"
  by (auto simp: keeps_def)

lemma keeps_bind:
  assumes m: "keeps P m" and f: "\<And>x. keeps P (f x)"
  shows "keeps P (stm_bind m f)"
proof (rule keepsI)
  fix d x d'
  assume P: "P d" and "stm_bind m f d = Inr (x, d')"
  then obtain y d1 where y: "m d = Inr (y, d1)" and x: "f y d1 = Inr (x, d')"
    by (auto simp: stm_bind_Inr)
  show "P d'" by (rule keepsD [OF f keepsD [OF m P y] x])
qed

lemma keeps_seq: "keeps P m \<Longrightarrow> keeps P n \<Longrightarrow> keeps P (stm_seq m n)"
  by (simp add: stm_seq_def keeps_bind)

lemma keeps_return: "keeps P (stm_return x)" and keeps_query: "keeps P (query f)"
  by (auto simp: keeps_def db_simps)

lemma keeps_bind_params: "keeps P m \<Longrightarrow> keeps P (bind_params n m)"
  by (auto simp: keeps_def db_simps)

lemma keeps_checked: "(\<And>d. P d \<Longrightarrow> ok (f d) \<Longrightarrow> P (f d)) \<Longrightarrow> keeps P (checked v ok f)"
  by (auto simp: keeps_def db_simps)

lemma keeps_update: "(\<And>d. P d \<Longrightarrow> P (f d)) \<Longrightarrow> keeps P (update f)"
  by (auto simp: keeps_def db_simps)

lemma keeps_for_each: "(\<And>c. c \<in> set cs \<Longrightarrow> keeps P (f c)) \<Longrightarrow> keeps P (for_each_stm f cs)"
  by (induction cs) (auto intro: keeps_return keeps_seq)

lemmas keeps_intros = keeps_seq keeps_bind keeps_return keeps_query keeps_bind_params

text \<open>The same for actions: an invariant of the world that holds before holds after, whether
  the action returns or fails.\<close>

definition preserves :: "('w \<Rightarrow> bool) \<Rightarrow> ('a, 'w) act \<Rightarrow> bool" where
  "preserves P m \<longleftrightarrow> (\<forall>w. P w \<longrightarrow> P (snd (m w)))"

lemma preservesD: "preserves P m \<Longrightarrow> P w \<Longrightarrow> m w = (r, w') \<Longrightarrow> P w'"
  by (auto simp: preserves_def)

lemma preserves_return [intro]: "preserves P (act_return x)"
  and preserves_fail [intro]: "preserves P (act_fail e)"
  by (auto simp: preserves_def act_return_def act_fail_def)

lemma preserves_bind [intro]:
  "preserves P m \<Longrightarrow> (\<And>x. preserves P (f x)) \<Longrightarrow> preserves P (act_bind m f)"
  by (auto simp: preserves_def act_bind_def split: prod.splits sum.splits)

lemma preserves_when [intro]: "preserves P m \<Longrightarrow> preserves P (act_when b m)"
  by (auto simp: act_when_def)

lemma preserves_exec: "keeps P m \<Longrightarrow> preserves (\<lambda>s. P (sdb s)) (exec m)"
  by (auto simp: preserves_def exec_def Let_def keeps_def split: option.splits sum.splits prod.splits)

lemma act_bind_Inr:
  "act_bind m f w = (Inr y, w'') \<longleftrightarrow> (\<exists>x w'. m w = (Inr x, w') \<and> f x w' = (Inr y, w''))"
  by (auto simp: act_bind_def split: prod.splits sum.splits)

lemma exec_Inr:
  "exec m s = (Inr x, s') \<longleftrightarrow>
     outage s (db_calls s) = None \<and>
     (\<exists>d. m (sdb s) = Inr (x, d) \<and> s' = s\<lparr>db_calls := Suc (db_calls s), sdb := d\<rparr>)"
  by (auto simp: exec_def Let_def split: option.splits sum.splits prod.splits)

lemma exec_Inl: "exec m s = (Inl e, s') \<Longrightarrow> sdb s' = sdb s"
  by (auto simp: exec_def Let_def split: option.splits sum.splits prod.splits)

text \<open>A query returns a function of the database and leaves it as it is.\<close>

definition read_only :: "'a stm \<Rightarrow> bool" where
  "read_only m \<longleftrightarrow> (\<forall>d x d'. m d = Inr (x, d') \<longrightarrow> d' = d)"

lemma read_only_query [intro]: "read_only (query f)" and read_only_return [intro]: "read_only (stm_return x)"
  by (auto simp: read_only_def db_simps)

lemma exec_read_only: "read_only m \<Longrightarrow> sdb (snd (exec m s)) = sdb s"
  by (auto simp: exec_def Let_def read_only_def split: option.splits sum.splits)

lemma exec_read_only_Inr:
  "read_only m \<Longrightarrow> exec m s = (Inr x, s') \<Longrightarrow>
     m (sdb s) = Inr (x, sdb s) \<and> sdb s' = sdb s"
  by (auto simp: exec_Inr read_only_def)

end
