(* ===== verification/Db_Transactions.thy ===== *)
theory Db_Transactions
  imports Tables "HOL-Library.List_Lexorder" "HOL-Library.Char_ord"
begin

text \<open>
  The batch statements of \<open>src/db/transactions.rs\<close>: the upsert of \<open>AlkaneTransaction\<close>, the
  delete-then-insert of the tables keyed by \<open>transactionId\<close> and the grouped read of the decoded
  protostones.  Inserts are chunked so that no statement binds more than 65535 parameters.
  \<open>row_store\<close> is the contract that the indexers rely on: after a replace the listed
  transactions have exactly the given rows and every other row is as before.
\<close>

subsection \<open>Chunked inserts\<close>

text \<open>\<open>(MAX_PARAMS / PER_ROW).saturating_sub(8).max(1)\<close>\<close>

definition max_rows :: "nat \<Rightarrow> nat" where
  "max_rows per_row = max (max_params div per_row - 8) 1"

definition insert_chunked :: "nat \<Rightarrow> nat \<Rightarrow> ('r list \<Rightarrow> unit stm) \<Rightarrow> 'r list \<Rightarrow> unit stm" where
  "insert_chunked per_row limit ins rows =
     (if rows = [] then stm_return ()
      else for_each_stm (\<lambda>chunk. bind_params (length chunk * per_row) (ins chunk))
             (chunks limit rows))"

definition delete_by_txid ::
  "(('r list \<Rightarrow> 'r list) \<Rightarrow> db \<Rightarrow> db) \<Rightarrow> ('r \<Rightarrow> string) \<Rightarrow> string list \<Rightarrow> unit stm" where
  "delete_by_txid upd txid_of txids =
     (if txids \<noteq> [] then update (upd (filter (\<lambda>r. txid_of r \<notin> set txids))) else stm_return ())"

text \<open>\<open>insert .. on conflict (key) do update\<close>: a command must not touch a row twice.\<close>

definition upsert_rows :: "('r \<Rightarrow> 'k) \<Rightarrow> ('r \<Rightarrow> 'r \<Rightarrow> 'r) \<Rightarrow> 'r list \<Rightarrow> 'r list \<Rightarrow> 'r list" where
  "upsert_rows key merge rows table =
     map (\<lambda>r. case find (\<lambda>x. key x = key r) rows of Some x \<Rightarrow> merge r x | None \<Rightarrow> r) table
     @ filter (\<lambda>x. key x \<notin> set (map key table)) rows"

definition on_conflict_update :: "('r \<Rightarrow> 'k) \<Rightarrow> 'r list \<Rightarrow> unit stm \<Rightarrow> unit stm" where
  "on_conflict_update key rows m d =
     (if distinct (map key rows) then m d
      else Inl (anyhow ''ON CONFLICT DO UPDATE command cannot affect row a second time''))"

subsection \<open>AlkaneTransaction, TraceEvent, DecodedProtostone\<close>

definition upsert_alkane_transactions :: "alkane_tx list \<Rightarrow> unit stm" where
  "upsert_alkane_transactions items =
     insert_chunked 6 (min (max_rows 6) 1500)
       (\<lambda>chunk. on_conflict_update at_txid chunk
          (update (alkane_txs_update (upsert_rows at_txid (\<lambda>_ x. x) chunk)))) items"

definition replace_trace_events :: "string list \<Rightarrow> trace_event list \<Rightarrow> unit stm" where
  "replace_trace_events txids events =
     stm_seq (delete_by_txid trace_events_update te_txid txids)
       (insert_chunked 7 (min (max_rows 7) 2000)
          (\<lambda>chunk. checked ''fk_TraceEvent_transaction'' trace_event_ok
             (trace_events_update (\<lambda>t. t @ chunk))) events)"

text \<open>On a conflict only \<open>decoded\<close> is updated.\<close>

definition replace_decoded_protostones :: "string list \<Rightarrow> protostone list \<Rightarrow> unit stm" where
  "replace_decoded_protostones txids items =
     stm_seq (delete_by_txid protostones_update dp_txid txids)
       (insert_chunked 5 (min (max_rows 5) 2000)
          (\<lambda>chunk. on_conflict_update protostone_key chunk
             (checked ''fk_DecodedProtostone_transaction'' protostone_ok
                (protostones_update (upsert_rows protostone_key
                   (\<lambda>r x. r\<lparr>dp_decoded := dp_decoded x\<rparr>) chunk)))) items)"

text \<open>
  \<open>out.entry(txid).or_default().entry(vout).or_default().push((idx, decoded))\<close> for every row
  of the listed transactions, in the order of \<open>transactionId\<close>, \<open>vout\<close>, \<open>protostoneIndex\<close>.
\<close>

definition push_decoded :: "protostone \<Rightarrow> decoded_map \<Rightarrow> decoded_map" where
  "push_decoded r out =
     (let by_vout = unwrap_or (\<lambda>_. None) (out (dp_txid r));
          items = unwrap_or [] (by_vout (dp_vout r))
      in out(dp_txid r \<mapsto> by_vout(dp_vout r \<mapsto> items @ [(dp_index r, dp_decoded r)])))"

definition protostone_order :: "protostone \<Rightarrow> string \<times> int \<times> int" where
  "protostone_order r = (dp_txid r, sint (dp_vout r), sint (dp_index r))"

definition get_decoded_protostones_by_txid_vout :: "string list \<Rightarrow> decoded_map stm" where
  "get_decoded_protostones_by_txid_vout txids =
     (if txids = [] then stm_return (\<lambda>_. None)
      else query (\<lambda>d. fold push_decoded
             (sort_key protostone_order (filter (\<lambda>r. dp_txid r \<in> set txids) (protostones d)))
             (\<lambda>_. None)))"

subsection \<open>The event tables\<close>

definition replace_pool_swaps :: "string list \<Rightarrow> swap_row list \<Rightarrow> unit stm" where
  "replace_pool_swaps txids swaps =
     stm_seq (delete_by_txid pool_swaps_update sw_txid txids)
       (insert_chunked 14 (max_rows 14)
          (\<lambda>chunk. update (pool_swaps_update (\<lambda>t. t @ chunk))) swaps)"

definition replace_pool_creations :: "string list \<Rightarrow> creation_row list \<Rightarrow> unit stm" where
  "replace_pool_creations txids creations =
     stm_seq (delete_by_txid pool_creations_update cr_txid txids)
       (insert_chunked 14 (max_rows 14)
          (\<lambda>chunk. checked ''PoolCreation constraint'' pool_creation_ok
             (pool_creations_update (\<lambda>t. t @ chunk))) creations)"

definition replace_pool_mints :: "string list \<Rightarrow> liquidity_row list \<Rightarrow> unit stm" where
  "replace_pool_mints txids mints =
     stm_seq (delete_by_txid pool_mints_update lq_txid txids)
       (insert_chunked 15 (max_rows 15)
          (\<lambda>chunk. update (pool_mints_update (\<lambda>t. t @ chunk))) mints)"

definition replace_pool_burns :: "string list \<Rightarrow> liquidity_row list \<Rightarrow> unit stm" where
  "replace_pool_burns txids burns =
     stm_seq (delete_by_txid pool_burns_update lq_txid txids)
       (insert_chunked 15 (max_rows 15)
          (\<lambda>chunk. update (pool_burns_update (\<lambda>t. t @ chunk))) burns)"

definition replace_subfrost_wraps :: "string list \<Rightarrow> frost_row list \<Rightarrow> unit stm" where
  "replace_subfrost_wraps txids wraps =
     stm_seq (delete_by_txid subfrost_wraps_update fr_txid txids)
       (insert_chunked 7 (max_rows 7)
          (\<lambda>chunk. update (subfrost_wraps_update (\<lambda>t. t @ chunk))) wraps)"

definition replace_subfrost_unwraps :: "string list \<Rightarrow> frost_row list \<Rightarrow> unit stm" where
  "replace_subfrost_unwraps txids unwraps =
     stm_seq (delete_by_txid subfrost_unwraps_update fr_txid txids)
       (insert_chunked 7 (max_rows 7)
          (\<lambda>chunk. update (subfrost_unwraps_update (\<lambda>t. t @ chunk))) unwraps)"

lemmas replace_defs = replace_trace_events_def replace_pool_swaps_def replace_pool_creations_def
  replace_pool_mints_def replace_pool_burns_def replace_subfrost_wraps_def
  replace_subfrost_unwraps_def

subsection \<open>The parameter limit\<close>

lemma max_rows_pos [simp]: "0 < max_rows p"
  by (simp add: max_rows_def)

lemma max_rows_params: "0 < p \<Longrightarrow> p \<le> max_params \<Longrightarrow> max_rows p * p \<le> max_params"
proof -
  assume p: "0 < p" "p \<le> max_params"
  have "(max_params div p - 8) * p \<le> max_params div p * p" by (intro mult_le_mono) auto
  also have "\<dots> \<le> max_params" by simp
  finally show ?thesis using p by (auto simp: max_rows_def max_def)
qed

lemma chunk_params:
  assumes "c \<in> set (chunks limit rows)" "limit \<le> max_rows p" "0 < p" "p \<le> max_params"
  shows "length c * p \<le> max_params"
proof -
  have "length c \<le> max_rows p" using chunks_length [OF assms(1)] assms(2) by simp
  then have "length c * p \<le> max_rows p * p" by simp
  also have "\<dots> \<le> max_params" using assms(3,4) by (rule max_rows_params)
  finally show ?thesis .
qed

text \<open>A chunked insert never runs into the limit: it is the sequence of its chunk inserts.\<close>

lemma for_each_stm_cong:
  "(\<And>c. c \<in> set cs \<Longrightarrow> f c = g c) \<Longrightarrow> for_each_stm f cs = for_each_stm g cs"
  by (induction cs) auto

lemma insert_chunked_eq:
  assumes "limit \<le> max_rows p" "0 < p" "p \<le> max_params"
  shows "insert_chunked p limit ins rows = for_each_stm ins (chunks limit rows)"
proof -
  have "bind_params (length c * p) (ins c) = ins c" if "c \<in> set (chunks limit rows)" for c
    using chunk_params [OF that assms] by (intro ext) (simp add: bind_params_def)
  then have "for_each_stm (\<lambda>c. bind_params (length c * p) (ins c)) (chunks limit rows)
      = for_each_stm ins (chunks limit rows)"
    by (intro for_each_stm_cong) auto
  then show ?thesis by (cases "rows = []") (simp_all add: insert_chunked_def)
qed

subsection \<open>Appending inserts\<close>

text \<open>The update function of a record field.\<close>

definition field_update :: "(('r \<Rightarrow> 'r) \<Rightarrow> db \<Rightarrow> db) \<Rightarrow> bool" where
  "field_update upd \<longleftrightarrow>
     (\<forall>f g d. upd f (upd g d) = upd (\<lambda>t. f (g t)) d) \<and> (\<forall>d. upd (\<lambda>t. t) d = d)"

lemma upd_upd: "field_update upd \<Longrightarrow> upd f (upd g d) = upd (\<lambda>t. f (g t)) d"
  and upd_id: "field_update upd \<Longrightarrow> upd (\<lambda>t. t) d = d"
  by (auto simp: field_update_def)

lemma upd_keep_all: "field_update upd \<Longrightarrow> upd (filter (\<lambda>r. True)) d = d"
proof -
  have *: "filter (\<lambda>r. True) = (\<lambda>t. t)" by (rule ext) simp
  show "field_update upd \<Longrightarrow> upd (filter (\<lambda>r. True)) d = d" by (subst *) (rule upd_id)
qed

lemma for_each_append:
  assumes upd: "field_update upd"
    and ins: "\<And>c d x d'. ins c d = Inr (x, d') \<Longrightarrow> d' = upd (\<lambda>t. t @ c) d"
    and run: "for_each_stm ins cs d = Inr (x, d')"
  shows "d' = upd (\<lambda>t. t @ concat cs) d"
  using run
proof (induction cs arbitrary: d)
  case Nil
  then show ?case by (simp add: db_simps upd_id [OF upd])
next
  case (Cons c cs)
  then obtain d1 where "ins c d = Inr ((), d1)" "for_each_stm ins cs d1 = Inr (x, d')"
    by (auto simp: db_simps)
  with Cons.IH [of d1] ins [of c d] show ?case by (simp add: upd_upd [OF upd])
qed

lemma for_each_append_total:
  assumes upd: "field_update upd"
  shows "for_each_stm (\<lambda>c. update (upd (\<lambda>t. t @ c))) cs d = Inr ((), upd (\<lambda>t. t @ concat cs) d)"
  by (induction cs arbitrary: d)
    (simp_all add: stm_return_def upd_id [OF upd] upd_upd [OF upd] stm_seq_def stm_bind_def update_def)

subsection \<open>The replace contract\<close>

text \<open>What storing rows does to a table when rows are only stored if there are some.\<close>

definition stored_rows :: "('r \<Rightarrow> string) \<Rightarrow> string list \<Rightarrow> 'r list \<Rightarrow> 'r list \<Rightarrow> 'r list" where
  "stored_rows txid_of txids rows t = (if rows = [] then t else filter (\<lambda>r. txid_of r \<notin> set txids) t @ rows)"

locale row_store =
  fixes get :: "db \<Rightarrow> 'r list"
    and upd :: "('r list \<Rightarrow> 'r list) \<Rightarrow> db \<Rightarrow> db"
    and txid_of :: "'r \<Rightarrow> string"
    and replace :: "string list \<Rightarrow> 'r list \<Rightarrow> unit stm"
  assumes get_upd: "get (upd f d) = f (get d)"
    and upd: "field_update upd"
    and replace_Inr: "replace txids rows d = Inr (x, d') \<Longrightarrow>
          d' = upd (\<lambda>t. filter (\<lambda>r. txid_of r \<notin> set txids) t @ rows) d"
begin

lemma rows_after: "replace txids rows d = Inr (x, d') \<Longrightarrow>
    get d' = filter (\<lambda>r. txid_of r \<notin> set txids) (get d) @ rows"
  by (drule replace_Inr) (simp add: get_upd)

lemma listed_rows:
  assumes "replace txids rows d = Inr (x, d')" "\<forall>r \<in> set rows. txid_of r \<in> set txids"
  shows "filter (\<lambda>r. txid_of r \<in> set txids) (get d') = rows"
proof -
  have "filter (\<lambda>r. txid_of r \<in> set txids) (filter (\<lambda>r. txid_of r \<notin> set txids) (get d)) = []"
    by (simp add: filter_empty_conv)
  with assms show ?thesis by (simp add: rows_after [OF assms(1)] filter_id_conv)
qed

lemma other_rows:
  assumes "replace txids rows d = Inr (x, d')" "\<forall>r \<in> set rows. txid_of r \<in> set txids"
  shows "filter (\<lambda>r. txid_of r \<notin> set txids) (get d') = filter (\<lambda>r. txid_of r \<notin> set txids) (get d)"
  using assms(2) by (simp add: rows_after [OF assms(1)] filter_empty_conv)

lemma store_if_any:
  assumes "act_when (rows \<noteq> []) (exec (replace txids rows)) s = (r, s')"
  shows "sdb s' = (if is_ok r then upd (stored_rows txid_of txids rows) (sdb s) else sdb s)"
proof (cases "rows = []")
  case True
  then have "stored_rows txid_of txids rows = (\<lambda>t. t)" by (simp add: fun_eq_iff stored_rows_def)
  then have "upd (stored_rows txid_of txids rows) (sdb s) = sdb s" using upd_id [OF upd] by simp
  with True assms show ?thesis by (simp add: act_when_def act_return_def)
next
  case False
  then have eq: "stored_rows txid_of txids rows = (\<lambda>t. filter (\<lambda>r. txid_of r \<notin> set txids) t @ rows)"
    by (simp add: fun_eq_iff stored_rows_def)
  have run: "exec (replace txids rows) s = (r, s')" using False assms by (simp add: act_when_def)
  show ?thesis
  proof (cases r)
    case (Inl e)
    with run show ?thesis by (simp add: exec_Inl)
  next
    case (Inr x)
    with run obtain d where "replace txids rows (sdb s) = Inr (x, d)" "sdb s' = d"
      by (auto simp: exec_Inr)
    with replace_Inr Inr eq show ?thesis by simp
  qed
qed

lemma replace_twice:
  assumes "replace txids rows d = Inr (x, d')" "replace txids rows d' = Inr (y, d'')"
    "\<forall>r \<in> set rows. txid_of r \<in> set txids"
  shows "d'' = d'"
proof -
  have none: "filter (\<lambda>r. txid_of r \<notin> set txids) rows = []"
    using assms(3) by (simp add: filter_empty_conv)
  show ?thesis
    using replace_Inr [OF assms(1)] replace_Inr [OF assms(2)]
    by (simp add: upd_upd [OF upd] none)
qed

end

locale free_row_store = row_store +
  assumes replace_total: "\<exists>d'. replace txids rows d = Inr ((), d')"
begin

lemma replace_eq:
  "replace txids rows d = Inr ((), upd (\<lambda>t. filter (\<lambda>r. txid_of r \<notin> set txids) t @ rows) d)"
  using replace_total replace_Inr by blast

end

text \<open>One proof for all the tables: a delete followed by an appending chunked insert.\<close>

lemma replace_rows_Inr:
  assumes upd: "field_update upd"
    and ins: "\<And>c d x d'. ins c d = Inr (x, d') \<Longrightarrow> d' = upd (\<lambda>t. t @ c) d"
    and limit: "0 < limit" "limit \<le> max_rows p" "0 < p" "p \<le> max_params"
    and run: "stm_seq (delete_by_txid upd txid_of txids) (insert_chunked p limit ins rows) d = Inr (x, d')"
  shows "d' = upd (\<lambda>t. filter (\<lambda>r. txid_of r \<notin> set txids) t @ rows) d"
proof -
  obtain d1 where "delete_by_txid upd txid_of txids d = Inr ((), d1)"
    and 2: "for_each_stm ins (chunks limit rows) d1 = Inr (x, d')"
    using run by (auto simp: stm_seq_Inr insert_chunked_eq [OF limit(2-4)])
  then have "d1 = upd (filter (\<lambda>r. txid_of r \<notin> set txids)) d"
    by (auto simp: delete_by_txid_def db_simps upd_keep_all [OF upd] split: if_splits)
  with for_each_append [OF upd ins 2] show ?thesis
    using limit(1) by (simp add: upd_upd [OF upd] concat_chunks)
qed

lemma replace_rows_total:
  assumes upd: "field_update upd"
    and limit: "limit \<le> max_rows p" "0 < p" "p \<le> max_params"
  shows "\<exists>d'. stm_seq (delete_by_txid upd txid_of txids)
      (insert_chunked p limit (\<lambda>c. update (upd (\<lambda>t. t @ c))) rows) d = Inr ((), d')"
  by (simp add: insert_chunked_eq [OF limit] stm_seq_def stm_bind_def delete_by_txid_def
      for_each_append_total [OF upd] update_def stm_return_def)

lemmas store_simps = max_params_def update_Inr checked_Inr field_update_def

interpretation swap_store: free_row_store pool_swaps pool_swaps_update sw_txid replace_pool_swaps
proof (unfold_locales, goal_cases)
  case (3 txids rows d x d')
  then show ?case unfolding replace_pool_swaps_def
    by (rule replace_rows_Inr [rotated -1]) (auto simp: store_simps)
next
  case (4 txids rows d)
  show ?case unfolding replace_pool_swaps_def by (rule replace_rows_total) (auto simp: store_simps)
qed (auto simp: store_simps)

text \<open>
  The statements of a replacement are atomic only as far as the isolation level makes them so: when
  two replacements of the same transactions overlap, each deleting before the other's rows are
  visible, both sets of rows are stored, since \<open>PoolSwap\<close> has no key that would prevent it.
\<close>

lemma overlapping_replacements:
  assumes "delete_by_txid pool_swaps_update sw_txid txids d = Inr ((), d1)"
    and "delete_by_txid pool_swaps_update sw_txid txids d1 = Inr ((), d2)"
    and "insert_chunked 14 (max_rows 14) (\<lambda>c. update (pool_swaps_update (\<lambda>t. t @ c))) swaps d2 = Inr ((), d3)"
    and "insert_chunked 14 (max_rows 14) (\<lambda>c. update (pool_swaps_update (\<lambda>t. t @ c))) swaps d3 = Inr ((), d')"
  shows "pool_swaps d' = filter (\<lambda>r. sw_txid r \<notin> set txids) (pool_swaps d) @ swaps @ swaps"
proof -
  have del: "pool_swaps b = filter (\<lambda>r. sw_txid r \<notin> set txids) (pool_swaps a)"
    if "delete_by_txid pool_swaps_update sw_txid txids a = Inr ((), b)" for a b
    using that by (auto simp: delete_by_txid_def db_simps split: if_splits)
  have limit: "0 < max_rows 14" by (simp add: max_rows_def)
  have ins: "pool_swaps b = pool_swaps a @ swaps"
    if "insert_chunked 14 (max_rows 14) (\<lambda>c. update (pool_swaps_update (\<lambda>t. t @ c))) swaps a = Inr ((), b)" for a b
  proof -
    have "for_each_stm (\<lambda>c. update (pool_swaps_update (\<lambda>t. t @ c))) (chunks (max_rows 14) swaps) a = Inr ((), b)"
      using that by (simp add: insert_chunked_eq max_params_def)
    then have "b = pool_swaps_update (\<lambda>t. t @ concat (chunks (max_rows 14) swaps)) a"
      by (rule for_each_append [rotated 2]) (auto simp: store_simps)
    then show ?thesis by (simp add: concat_chunks [OF limit])
  qed
  show ?thesis using del [OF assms(1)] del [OF assms(2)] ins [OF assms(3)] ins [OF assms(4)] by simp
qed

interpretation mint_store: free_row_store pool_mints pool_mints_update lq_txid replace_pool_mints
proof (unfold_locales, goal_cases)
  case (3 txids rows d x d')
  then show ?case unfolding replace_pool_mints_def
    by (rule replace_rows_Inr [rotated -1]) (auto simp: store_simps)
next
  case (4 txids rows d)
  show ?case unfolding replace_pool_mints_def by (rule replace_rows_total) (auto simp: store_simps)
qed (auto simp: store_simps)

interpretation burn_store: free_row_store pool_burns pool_burns_update lq_txid replace_pool_burns
proof (unfold_locales, goal_cases)
  case (3 txids rows d x d')
  then show ?case unfolding replace_pool_burns_def
    by (rule replace_rows_Inr [rotated -1]) (auto simp: store_simps)
next
  case (4 txids rows d)
  show ?case unfolding replace_pool_burns_def by (rule replace_rows_total) (auto simp: store_simps)
qed (auto simp: store_simps)

interpretation wrap_store: free_row_store subfrost_wraps subfrost_wraps_update fr_txid replace_subfrost_wraps
proof (unfold_locales, goal_cases)
  case (3 txids rows d x d')
  then show ?case unfolding replace_subfrost_wraps_def
    by (rule replace_rows_Inr [rotated -1]) (auto simp: store_simps)
next
  case (4 txids rows d)
  show ?case unfolding replace_subfrost_wraps_def by (rule replace_rows_total) (auto simp: store_simps)
qed (auto simp: store_simps)

interpretation unwrap_store: free_row_store subfrost_unwraps subfrost_unwraps_update fr_txid replace_subfrost_unwraps
proof (unfold_locales, goal_cases)
  case (3 txids rows d x d')
  then show ?case unfolding replace_subfrost_unwraps_def
    by (rule replace_rows_Inr [rotated -1]) (auto simp: store_simps)
next
  case (4 txids rows d)
  show ?case unfolding replace_subfrost_unwraps_def by (rule replace_rows_total) (auto simp: store_simps)
qed (auto simp: store_simps)

interpretation creation_store: row_store pool_creations pool_creations_update cr_txid replace_pool_creations
proof (unfold_locales, goal_cases)
  case (3 txids rows d x d')
  then show ?case unfolding replace_pool_creations_def
    by (rule replace_rows_Inr [rotated -1]) (auto simp: store_simps)
qed (auto simp: store_simps)

interpretation event_store: row_store trace_events trace_events_update te_txid replace_trace_events
proof (unfold_locales, goal_cases)
  case (3 txids rows d x d')
  then show ?case unfolding replace_trace_events_def
    by (rule replace_rows_Inr [rotated -1]) (auto simp: store_simps)
qed (auto simp: store_simps)

subsection \<open>When a checked replace succeeds\<close>

lemma for_each_checked:
  assumes upd: "field_update upd"
    and prefix: "\<And>a b d. ok (upd (\<lambda>t. t @ (a @ b)) d) \<Longrightarrow> ok (upd (\<lambda>t. t @ a) d)"
  shows "cs \<noteq> [] \<Longrightarrow> for_each_stm (\<lambda>c. checked v ok (upd (\<lambda>t. t @ c))) cs d =
    (if ok (upd (\<lambda>t. t @ concat cs) d) then Inr ((), upd (\<lambda>t. t @ concat cs) d) else Inl (anyhow v))"
proof (induction cs arbitrary: d)
  case (Cons c cs)
  have whole: "upd (\<lambda>t. t @ concat cs) (upd (\<lambda>t. t @ c) d) = upd (\<lambda>t. t @ concat (c # cs)) d"
    by (simp add: upd_upd [OF upd])
  have first: "ok (upd (\<lambda>t. t @ c) d)" if "ok (upd (\<lambda>t. t @ concat (c # cs)) d)"
    using prefix [of c "concat cs" d] that by simp
  show ?case
  proof (cases "cs = []")
    case True
    then show ?thesis by (simp add: stm_seq_def stm_bind_def checked_def stm_return_def)
  next
    case False
    note IH = Cons.IH [OF this, of "upd (\<lambda>t. t @ c) d", unfolded whole]
    show ?thesis using IH first by (auto simp: stm_seq_def stm_bind_def checked_def)
  qed
qed simp

definition with_rows :: "(('r list \<Rightarrow> 'r list) \<Rightarrow> db \<Rightarrow> db) \<Rightarrow> ('r \<Rightarrow> string) \<Rightarrow> string list \<Rightarrow> 'r list \<Rightarrow> db \<Rightarrow> db" where
  "with_rows upd txid_of txids rows d = upd (\<lambda>t. filter (\<lambda>r. txid_of r \<notin> set txids) t @ rows) d"

lemma replace_checked_eq:
  assumes upd: "field_update upd" and rows: "rows \<noteq> []"
    and prefix: "\<And>a b d. ok (upd (\<lambda>t. t @ (a @ b)) d) \<Longrightarrow> ok (upd (\<lambda>t. t @ a) d)"
    and limit: "0 < limit" "limit \<le> max_rows p" "0 < p" "p \<le> max_params"
  shows "stm_seq (delete_by_txid upd txid_of txids)
      (insert_chunked p limit (\<lambda>c. checked v ok (upd (\<lambda>t. t @ c))) rows) d =
    (if ok (with_rows upd txid_of txids rows d)
     then Inr ((), with_rows upd txid_of txids rows d) else Inl (anyhow v))"
proof -
  have "chunks limit rows \<noteq> []"
    using concat_chunks [OF limit(1), of rows] rows by auto
  note each = for_each_checked [where ok = ok, OF upd prefix this, where v = v]
  have del: "delete_by_txid upd txid_of txids d = Inr ((), upd (filter (\<lambda>r. txid_of r \<notin> set txids)) d)"
    by (simp add: delete_by_txid_def update_def stm_return_def upd_keep_all [OF upd])
  show ?thesis
    using each by (simp add: stm_seq_def stm_bind_def del insert_chunked_eq [OF limit(2-4)]
        concat_chunks [OF limit(1)] upd_upd [OF upd] with_rows_def)
qed

lemma replace_pool_creations_eq:
  assumes "rows \<noteq> []"
  shows "replace_pool_creations txids rows d =
    (if pool_creation_ok (with_rows pool_creations_update cr_txid txids rows d)
     then Inr ((), with_rows pool_creations_update cr_txid txids rows d)
     else Inl (anyhow ''PoolCreation constraint''))"
  unfolding replace_pool_creations_def
  by (rule replace_checked_eq)
    (use assms in \<open>auto simp: store_simps pool_creation_ok_def list_all_iff\<close>)

subsection \<open>Facts about the upsert\<close>

lemma find_key_Some: "find (\<lambda>x. key x = k) rows = Some x \<Longrightarrow> x \<in> set rows \<and> key x = k"
  by (auto simp: find_Some_iff)

lemma map_key_upsert_rows:
  assumes "\<And>r x. key x = key r \<Longrightarrow> key (merge r x) = key r"
  shows "map key (upsert_rows key merge rows table) =
     map key table @ map key (filter (\<lambda>x. key x \<notin> set (map key table)) rows)"
  using assms by (auto simp: upsert_rows_def split: option.splits dest!: find_key_Some)

lemma distinct_upsert_rows:
  assumes "\<And>r x. key x = key r \<Longrightarrow> key (merge r x) = key r"
    and "distinct (map key table)" "distinct (map key rows)"
  shows "distinct (map key (upsert_rows key merge rows table))"
proof -
  have "distinct (map key (filter P rows))" for P
    using assms(3) by (rule distinct_map_filter)
  moreover have "set (map key table) \<inter> set (map key (filter (\<lambda>x. key x \<notin> set (map key table)) rows)) = {}"
    by (auto simp: disjoint_iff) (metis image_eqI)
  ultimately show ?thesis
    using assms(2) by (simp only: map_key_upsert_rows [of key merge, OF assms(1)] distinct_append)
qed

lemma set_upsert_keys:
  assumes "\<And>r x. key x = key r \<Longrightarrow> key (merge r x) = key r"
  shows "set (map key (upsert_rows key merge rows table)) = set (map key table) \<union> set (map key rows)"
  by (auto simp: map_key_upsert_rows [of key merge, OF assms])

text \<open>The row of a key after an overwriting upsert: the new one if there is one, else the old.\<close>

definition row_of :: "('r \<Rightarrow> 'k) \<Rightarrow> 'r list \<Rightarrow> 'k \<Rightarrow> 'r option" where
  "row_of key table k = find (\<lambda>r. key r = k) table"

lemma find_append: "find P (xs @ ys) = (case find P xs of Some x \<Rightarrow> Some x | None \<Rightarrow> find P ys)"
  by (induction xs) auto

lemma find_filter_key:
  "find (\<lambda>r. key r = k) (filter (\<lambda>x. key x \<notin> K) rows) =
     (if k \<in> K then None else find (\<lambda>r. key r = k) rows)"
  by (induction rows) auto

lemma find_map_keyed:
  assumes "\<And>r. key (f r) = key r"
  shows "find (\<lambda>r. key r = k) (map f rows) = map_option f (find (\<lambda>r. key r = k) rows)"
  by (induction rows) (auto simp: assms)

lemma row_of_None: "row_of key rows k = None \<longleftrightarrow> k \<notin> key ` set rows"
  by (auto simp: row_of_def find_None_iff)

lemma row_of_key: "row_of key rows k = Some r \<Longrightarrow> key r = k"
  by (auto simp: row_of_def dest: find_key_Some)

lemma row_of_upsert:
  "row_of key (upsert_rows key (\<lambda>_ x. x) rows table) k =
     (case row_of key rows k of Some x \<Rightarrow> Some x | None \<Rightarrow> row_of key table k)"
proof -
  define f where "f = (\<lambda>r. case find (\<lambda>x. key x = key r) rows of Some x \<Rightarrow> x | None \<Rightarrow> r)"
  have f: "key (f r) = key r" for r
    by (auto simp: f_def split: option.split dest: find_key_Some)
  have split: "row_of key (upsert_rows key (\<lambda>_ x. x) rows table) k =
      (case map_option f (row_of key table k) of Some x \<Rightarrow> Some x
       | None \<Rightarrow> if k \<in> set (map key table) then None else row_of key rows k)"
    unfolding row_of_def upsert_rows_def find_append find_filter_key f_def [symmetric]
    by (simp add: find_map_keyed [of key f, OF f])
  show ?thesis
  proof (cases "row_of key table k")
    case None
    then have "k \<notin> key ` set table" by (simp add: row_of_None)
    with None show ?thesis by (simp add: split split: option.split)
  next
    case (Some r)
    then have "key r = k" by (rule row_of_key)
    with Some show ?thesis by (auto simp: split f_def row_of_def [of key rows] split: option.split)
  qed
qed

subsection \<open>Every batch statement keeps the constraints\<close>

lemma keeps_on_conflict: "(distinct (map key rows) \<Longrightarrow> keeps P m) \<Longrightarrow> keeps P (on_conflict_update key rows m)"
  by (auto simp: keeps_def on_conflict_update_def)

lemma keeps_insert_chunked:
  "(\<And>c. keeps P (ins c)) \<Longrightarrow> keeps P (insert_chunked p limit ins rows)"
  by (auto simp: insert_chunked_def intro: keeps_return keeps_for_each keeps_bind_params)

lemma keeps_delete_by_txid:
  "(\<And>d f. P d \<Longrightarrow> P (upd (filter f) d)) \<Longrightarrow> keeps P (delete_by_txid upd txid_of txids)"
  by (auto simp: delete_by_txid_def intro: keeps_return keeps_update)

theorem keeps_upsert_alkane_transactions: "keeps schema_ok (upsert_alkane_transactions items)"
  unfolding upsert_alkane_transactions_def
proof (intro keeps_insert_chunked keeps_on_conflict keeps_update)
  fix chunk :: "alkane_tx list" and d
  assume dist: "distinct (map at_txid chunk)" and ok: "schema_ok d"
  let ?t = "upsert_rows at_txid (\<lambda>_ x. x) chunk (alkane_txs d)"
  have keys: "set (map at_txid (alkane_txs d)) \<subseteq> set (map at_txid ?t)"
    by (subst set_upsert_keys) auto
  have "distinct (map at_txid ?t)"
    using dist ok by (intro distinct_upsert_rows) (auto simp: schema_ok_def alkane_tx_ok_def)
  then show "schema_ok (alkane_txs_update (upsert_rows at_txid (\<lambda>_ x. x) chunk) d)"
    using ok keys by (auto simp: schema_ok_def constraint_defs list_all_iff)
qed

lemma schema_ok_filter:
  "schema_ok d \<Longrightarrow> schema_ok (trace_events_update (filter P) d)"
  "schema_ok d \<Longrightarrow> schema_ok (protostones_update (filter Q) d)"
  "schema_ok d \<Longrightarrow> schema_ok (pool_creations_update (filter R) d)"
  by (auto simp: schema_ok_def constraint_defs list_all_iff intro: distinct_map_filter)

lemma schema_ok_unconstrained:
  "schema_ok d \<Longrightarrow> schema_ok (pool_swaps_update f1 d)"
  "schema_ok d \<Longrightarrow> schema_ok (pool_mints_update f2 d)"
  "schema_ok d \<Longrightarrow> schema_ok (pool_burns_update f3 d)"
  "schema_ok d \<Longrightarrow> schema_ok (subfrost_wraps_update f4 d)"
  "schema_ok d \<Longrightarrow> schema_ok (subfrost_unwraps_update f5 d)"
  by (simp_all add: schema_ok_def constraint_defs)

theorem keeps_replace_trace_events: "keeps schema_ok (replace_trace_events txids events)"
  unfolding replace_trace_events_def
  by (intro keeps_seq keeps_delete_by_txid keeps_insert_chunked keeps_checked schema_ok_filter)
    (auto simp: schema_ok_def constraint_defs)

theorem keeps_replace_decoded_protostones:
  "keeps schema_ok (replace_decoded_protostones txids items)"
  unfolding replace_decoded_protostones_def
  by (intro keeps_seq keeps_delete_by_txid keeps_insert_chunked keeps_on_conflict keeps_checked
      schema_ok_filter)
    (auto simp: schema_ok_def constraint_defs)

theorem keeps_replace_pool_creations: "keeps schema_ok (replace_pool_creations txids rows)"
  unfolding replace_pool_creations_def
  by (intro keeps_seq keeps_delete_by_txid keeps_insert_chunked keeps_checked schema_ok_filter)
    (auto simp: schema_ok_def constraint_defs)

theorem keeps_replace_events:
  "keeps schema_ok (replace_pool_swaps txids swaps)"
  "keeps schema_ok (replace_pool_mints txids mints)"
  "keeps schema_ok (replace_pool_burns txids burns)"
  "keeps schema_ok (replace_subfrost_wraps txids wraps)"
  "keeps schema_ok (replace_subfrost_unwraps txids unwraps)"
  unfolding replace_defs
  by (intro keeps_seq keeps_delete_by_txid keeps_insert_chunked keeps_update
      schema_ok_unconstrained; assumption)+

lemma keeps_get_decoded: "keeps P (get_decoded_protostones_by_txid_vout txids)"
  by (simp add: get_decoded_protostones_by_txid_vout_def keeps_return keeps_query)

subsection \<open>Reading back the decoded protostones\<close>

lemma push_decoded_lookup:
  "unwrap_or [] (Option.bind (push_decoded r out t) (\<lambda>m. m v)) =
     unwrap_or [] (Option.bind (out t) (\<lambda>m. m v)) @
       (if dp_txid r = t \<and> dp_vout r = v then [(dp_index r, dp_decoded r)] else [])"
proof (cases "out (dp_txid r)")
  case None
  then show ?thesis by (cases "out t") (auto simp: push_decoded_def Let_def)
next
  case (Some m)
  then show ?thesis
    by (cases "m (dp_vout r)"; cases "out t") (auto simp: push_decoded_def Let_def)
qed

lemma fold_push_decoded:
  "unwrap_or [] (Option.bind (fold push_decoded rs out t) (\<lambda>m. m v)) =
     unwrap_or [] (Option.bind (out t) (\<lambda>m. m v)) @
       map (\<lambda>r. (dp_index r, dp_decoded r)) (filter (\<lambda>r. dp_txid r = t \<and> dp_vout r = v) rs)"
  by (induction rs arbitrary: out) (simp_all add: push_decoded_lookup)

lemma read_only_get_decoded [intro]: "read_only (get_decoded_protostones_by_txid_vout txids)"
  by (auto simp: get_decoded_protostones_by_txid_vout_def)

subsection \<open>The stored transactions and protostones\<close>

lemma row_of_append: "row_of key (xs @ ys) k = (case row_of key xs k of Some r \<Rightarrow> Some r | None \<Rightarrow> row_of key ys k)"
  unfolding row_of_def find_append ..

lemma on_conflict_Inr:
  "on_conflict_update key rows m d = Inr r \<longleftrightarrow> distinct (map key rows) \<and> m d = Inr r"
  by (simp add: on_conflict_update_def)

lemma for_each_upsert_transactions:
  assumes "for_each_stm (\<lambda>c. on_conflict_update at_txid c
      (update (alkane_txs_update (upsert_rows at_txid (\<lambda>_ x. x) c)))) cs d = Inr (x, d')"
    and "distinct (map at_txid (concat cs))"
  shows "row_of at_txid (alkane_txs d') k =
    (case row_of at_txid (concat cs) k of Some r \<Rightarrow> Some r | None \<Rightarrow> row_of at_txid (alkane_txs d) k)"
  using assms
proof (induction cs arbitrary: d)
  case Nil
  then show ?case by (simp add: db_simps row_of_def)
next
  case (Cons c cs)
  let ?d1 = "alkane_txs_update (upsert_rows at_txid (\<lambda>_ x. x) c) d"
  have rest: "for_each_stm (\<lambda>c. on_conflict_update at_txid c
      (update (alkane_txs_update (upsert_rows at_txid (\<lambda>_ x. x) c)))) cs ?d1 = Inr (x, d')"
    using Cons.prems(1) by (auto simp: db_simps on_conflict_Inr)
  have "row_of at_txid c k = None \<or> row_of at_txid (concat cs) k = None"
    using Cons.prems(2) by (auto simp: row_of_None)
  then show ?case
    using Cons.IH [OF rest] Cons.prems(2) by (auto simp: row_of_append row_of_upsert split: option.split)
qed

lemma upsert_alkane_transactions_Inr:
  assumes "upsert_alkane_transactions items d = Inr (x, d')" "distinct (map at_txid items)"
  shows "row_of at_txid (alkane_txs d') k =
      (case row_of at_txid items k of Some r \<Rightarrow> Some r | None \<Rightarrow> row_of at_txid (alkane_txs d) k)"
    and "trace_events d' = trace_events d" "protostones d' = protostones d"
proof -
  let ?limit = "min (max_rows 6) 1500"
  have limit: "0 < ?limit" by (simp add: max_rows_def)
  have run: "for_each_stm (\<lambda>c. on_conflict_update at_txid c
      (update (alkane_txs_update (upsert_rows at_txid (\<lambda>_ x. x) c)))) (chunks ?limit items) d = Inr (x, d')"
    using assms(1) by (simp add: upsert_alkane_transactions_def insert_chunked_eq max_params_def)
  show "row_of at_txid (alkane_txs d') k =
      (case row_of at_txid items k of Some r \<Rightarrow> Some r | None \<Rightarrow> row_of at_txid (alkane_txs d) k)"
    using for_each_upsert_transactions [OF run, of k] assms(2) by (simp add: concat_chunks [OF limit])
  have "keeps (\<lambda>d. trace_events d = t \<and> protostones d = u) (upsert_alkane_transactions items)" for t u
    unfolding upsert_alkane_transactions_def
    by (intro keeps_insert_chunked keeps_on_conflict keeps_update) simp
  from keepsD [OF this _ assms(1)] show "trace_events d' = trace_events d" "protostones d' = protostones d"
    by blast+
qed

lemma upsert_fresh:
  "set (map key rows) \<inter> set (map key table) = {} \<Longrightarrow> upsert_rows key merge rows table = table @ rows"
proof -
  assume disjoint: "set (map key rows) \<inter> set (map key table) = {}"
  then have "find (\<lambda>x. key x = key r) rows = None" if "r \<in> set table" for r
    using that by (auto simp: find_None_iff)
  moreover from disjoint have "filter (\<lambda>x. key x \<notin> set (map key table)) rows = rows"
    by (auto intro: filter_True)
  ultimately show ?thesis by (simp add: upsert_rows_def cong: map_cong)
qed

lemma for_each_upsert_fresh:
  assumes "for_each_stm (\<lambda>c. on_conflict_update protostone_key c (checked v ok
      (protostones_update (upsert_rows protostone_key merge c)))) cs d = Inr (x, d')"
    and "distinct (map protostone_key (protostones d @ concat cs))"
  shows "d' = protostones_update (\<lambda>t. t @ concat cs) d"
  using assms
proof (induction cs arbitrary: d)
  case Nil
  then show ?case by (simp add: db_simps)
next
  case (Cons c cs)
  have "upsert_rows protostone_key merge c (protostones d) = protostones d @ c"
    using Cons.prems(2) by (intro upsert_fresh) auto
  then have same: "protostones_update (upsert_rows protostone_key merge c) d = protostones_update (\<lambda>t. t @ c) d"
    by (cases d) simp
  have rest: "for_each_stm (\<lambda>c. on_conflict_update protostone_key c (checked v ok
      (protostones_update (upsert_rows protostone_key merge c)))) cs (protostones_update (\<lambda>t. t @ c) d) = Inr (x, d')"
    using Cons.prems(1) by (auto simp: db_simps on_conflict_Inr same)
  then show ?case
    using Cons.IH [OF rest] Cons.prems(2) by (auto simp: comp_def)
qed

lemma replace_decoded_protostones_Inr:
  assumes run: "replace_decoded_protostones txids items d = Inr (x, d')"
    and "schema_ok d" "distinct (map protostone_key items)" "\<forall>r \<in> set items. dp_txid r \<in> set txids"
  shows "d' = protostones_update (\<lambda>t. filter (\<lambda>r. dp_txid r \<notin> set txids) t @ items) d"
proof -
  let ?limit = "min (max_rows 5) 2000"
  let ?d1 = "protostones_update (filter (\<lambda>r. dp_txid r \<notin> set txids)) d"
  have limit: "0 < ?limit" by (simp add: max_rows_def)
  have del: "delete_by_txid protostones_update dp_txid txids d = Inr ((), ?d1)"
    by (simp add: delete_by_txid_def update_def stm_return_def)
  have rest: "for_each_stm (\<lambda>c. on_conflict_update protostone_key c (checked ''fk_DecodedProtostone_transaction'' protostone_ok
      (protostones_update (upsert_rows protostone_key (\<lambda>r x. r\<lparr>dp_decoded := dp_decoded x\<rparr>) c)))) (chunks ?limit items) ?d1
      = Inr (x, d')"
    using run del by (simp add: replace_decoded_protostones_def stm_seq_Inr insert_chunked_eq max_params_def)
  have "distinct (map protostone_key (filter (\<lambda>r. dp_txid r \<notin> set txids) (protostones d)))"
    using assms(2) by (auto simp: schema_ok_def protostone_ok_def intro: distinct_map_filter)
  moreover have "set (map protostone_key (filter (\<lambda>r. dp_txid r \<notin> set txids) (protostones d))) \<inter>
      set (map protostone_key items) = {}"
    using assms(4) by (auto simp: protostone_key_def disjoint_iff)
  ultimately have "distinct (map protostone_key (protostones ?d1 @ concat (chunks ?limit items)))"
    using assms(3) by (simp only: concat_chunks [OF limit] map_append distinct_append) simp
  from for_each_upsert_fresh [OF rest this] show ?thesis by (simp add: concat_chunks [OF limit] comp_def)
qed

end
