(* ===== verification/Db_Pools.thy ===== *)
theory Db_Pools
  imports Tables "HOL-Library.AList"
begin

text \<open>
  The statements of \<open>src/db/pools.rs\<close>, \<open>src/db/pool_state.rs\<close>, \<open>src/db/blocks.rs\<close> and
  \<open>src/progress.rs\<close>: pools and their token pairs, snapshots of pool states, the marker of a
  processed block, and the progress key of the catch-up.
\<close>

subsection \<open>Pool\<close>

text \<open>\<open>(pool, token0, token1, name)\<close>\<close>

type_synonym new_pool = "alkane_id \<times> alkane_id \<times> alkane_id \<times> string"

definition pool_map :: "(pool_row \<Rightarrow> 'v) \<Rightarrow> pool_row list \<Rightarrow> (alkane_id \<rightharpoonup> 'v)" where
  "pool_map f rows = fold (\<lambda>r m. m(pl_pool r \<mapsto> f r)) rows (\<lambda>_. None)"

definition get_existing_pools_for_factory :: "alkane_id \<Rightarrow> (alkane_id \<rightharpoonup> string) stm" where
  "get_existing_pools_for_factory factory =
     query (\<lambda>d. pool_map pl_id (filter (\<lambda>r. pl_factory r = factory) (pools d)))"

text \<open>\<open>on conflict ("poolBlockId", "poolTxId") do nothing\<close>; the id is drawn for every row.\<close>

fun insert_pools :: "alkane_id \<Rightarrow> new_pool list \<Rightarrow> db \<Rightarrow> db" where
  "insert_pools factory [] d = d"
| "insert_pools factory ((pool, token0, token1, name) # ps) d =
     insert_pools factory ps
       (d\<lparr>pools := (if pool \<in> set (map pl_pool (pools d)) then pools d
                   else pools d @ [\<lparr>pl_id = uuid_of d (uuid_next d), pl_factory = factory,
                     pl_pool = pool, pl_token0 = token0, pl_token1 = token1, pl_name = name\<rparr>]),
          uuid_next := Suc (uuid_next d)\<rparr>)"

definition insert_new_pools :: "alkane_id \<Rightarrow> new_pool list \<Rightarrow> unit stm" where
  "insert_new_pools factory new_pools =
     (if new_pools = [] then stm_return ()
      else bind_params (length new_pools * 9)
             (checked ''Pool_pkey'' pool_ok (insert_pools factory new_pools)))"

definition get_pool_ids_for_pairs ::
  "alkane_id \<Rightarrow> alkane_id list \<Rightarrow> (alkane_id \<rightharpoonup> string) stm" where
  "get_pool_ids_for_pairs factory pairs =
     (if pairs = [] then stm_return (\<lambda>_. None)
      else query (\<lambda>d. pool_map pl_id
             (filter (\<lambda>r. pl_factory r = factory \<and> pl_pool r \<in> set pairs) (pools d))))"

definition get_pool_tokens_for_pairs :: "alkane_id list \<Rightarrow> token_map stm" where
  "get_pool_tokens_for_pairs pairs =
     (if pairs = [] then stm_return (\<lambda>_. None)
      else query (\<lambda>d. pool_map (\<lambda>r. (pl_token0 r, pl_token1 r))
             (filter (\<lambda>r. pl_pool r \<in> set pairs) (pools d))))"

subsection \<open>PoolState\<close>

text \<open>\<open>distinct on ("poolId") .. order by "poolId", "blockHeight" desc\<close>\<close>

fun latest_state :: "pool_state list \<Rightarrow> pool_state option" where
  "latest_state [] = None"
| "latest_state (r # rs) =
     (case latest_state rs of
        None \<Rightarrow> Some r
      | Some s \<Rightarrow> if sint (ps_height s) \<le> sint (ps_height r) then Some r else Some s)"

definition state_values :: "pool_state \<Rightarrow> string \<times> string \<times> string" where
  "state_values r = (ps_amount0 r, ps_amount1 r, ps_supply r)"

definition get_latest_pool_states ::
  "string list \<Rightarrow> (string \<rightharpoonup> string \<times> string \<times> string) stm" where
  "get_latest_pool_states pool_ids =
     (if pool_ids = [] then stm_return (\<lambda>_. None)
      else query (\<lambda>d i. if i \<in> set pool_ids
             then map_option state_values (latest_state (filter (\<lambda>r. ps_pool r = i) (pool_states d)))
             else None))"

text \<open>\<open>on conflict ("poolId", "blockHeight") do nothing\<close>\<close>

fun insert_states :: "pool_state list \<Rightarrow> pool_state list \<Rightarrow> pool_state list" where
  "insert_states [] table = table"
| "insert_states (s # ss) table =
     insert_states ss
       (if (ps_pool s, ps_height s) \<in> set (map (\<lambda>r. (ps_pool r, ps_height r)) table)
        then table else table @ [s])"

definition insert_pool_state_snapshots :: "pool_state list \<Rightarrow> unit stm" where
  "insert_pool_state_snapshots snapshots =
     (if snapshots = [] then stm_return ()
      else bind_params (length snapshots * 5)
             (checked ''fk_PoolState_pool'' pool_state_ok
                (pool_states_update (insert_states snapshots))))"

subsection \<open>ProcessedBlocks\<close>

definition upsert_processed_block :: "i32 \<Rightarrow> string \<Rightarrow> timestamp \<Rightarrow> unit stm" where
  "upsert_processed_block height hash time =
     (let row = \<lparr>pb_height = height, pb_hash = hash, pb_time = time, pb_processing = False\<rparr>
      in checked ''ProcessedBlocks_blockHash_key'' processed_block_ok
           (processed_blocks_update (\<lambda>t.
              if height \<in> set (map pb_height t)
              then map (\<lambda>r. if pb_height r = height then row else r) t else t @ [row])))"

subsection \<open>The progress key\<close>

text \<open>Casts between \<open>bigint\<close> and \<open>text\<close>; only decimal texts with an optional minus sign are
  modelled, which is what the program stores.\<close>

definition bigint_text :: "i64 \<Rightarrow> string" where
  "bigint_text w =
     (if sint w < 0 then CHR ''-'' # dec_string (nat (- sint w)) else dec_string (nat (sint w)))"

definition text_bigint :: "string \<Rightarrow> i64 option" where
  "text_bigint s =
     (case s of
        c # cs \<Rightarrow>
          if c = CHR ''-'' then
            (if cs = [] then None
             else case digits_value 10 0 cs of
               Some v \<Rightarrow> if v \<le> 2 ^ 63 then Some (- of_nat v) else None | None \<Rightarrow> None)
          else (case digits_value 10 0 s of
               Some v \<Rightarrow> if v < 2 ^ 63 then Some (of_nat v) else None | None \<Rightarrow> None)
      | [] \<Rightarrow> None)"

definition progress_key :: string where
  "progress_key = ''last_processed_height''"

definition get_last_processed_height :: "u64 option stm" where
  "get_last_processed_height d =
     (case map_of (kv_store d) progress_key of
        None \<Rightarrow> Inr (None, d)
      | Some value \<Rightarrow> (case text_bigint value of
          None \<Rightarrow> Inl (anyhow ''invalid input syntax for type bigint'')
        | Some v \<Rightarrow> Inr (Some v, d)))"

definition set_last_processed_height :: "u64 \<Rightarrow> unit stm" where
  "set_last_processed_height height =
     update (kv_store_update (AList.update progress_key (bigint_text height)))"

subsection \<open>Pools found by their alkane id\<close>

lemma pool_map_Some:
  "pool_map f rows p = Some v \<Longrightarrow> \<exists>r \<in> set rows. pl_pool r = p \<and> v = f r"
  by (induction rows rule: rev_induct) (auto simp: pool_map_def split: if_splits)

lemma pool_map_None: "pool_map f rows p = None \<longleftrightarrow> p \<notin> set (map pl_pool rows)"
  by (induction rows rule: rev_induct) (auto simp: pool_map_def)

lemma pool_map_lookup:
  assumes "distinct (map pl_pool rows)" "r \<in> set rows"
  shows "pool_map f rows (pl_pool r) = Some (f r)"
proof -
  obtain v where v: "pool_map f rows (pl_pool r) = Some v"
    using assms(2) by (cases "pool_map f rows (pl_pool r)") (auto simp: pool_map_None)
  then obtain r' where "r' \<in> set rows" "pl_pool r' = pl_pool r" "v = f r'"
    using pool_map_Some [OF v] by auto
  with assms have "r' = r" by (auto simp: distinct_map dest: inj_onD)
  with v \<open>v = f r'\<close> show ?thesis by simp
qed

text \<open>The tokens query of the indexers only answers pools it was asked about, with the tokens
  their row has.\<close>

lemma pool_tokens_Some:
  assumes "get_pool_tokens_for_pairs pairs d = Inr (m, d')" "m p = Some (t0, t1)"
  shows "p \<in> set pairs \<and> (\<exists>r \<in> set (pools d). pl_pool r = p \<and> pl_token0 r = t0 \<and> pl_token1 r = t1)"
  using assms
  by (auto simp: get_pool_tokens_for_pairs_def db_simps split: if_splits dest!: pool_map_Some)

subsection \<open>Insertion that skips conflicts\<close>

lemma insert_pools_grows: "\<exists>new. pools (insert_pools factory ps d) = pools d @ new"
  by (induction factory ps d rule: insert_pools.induct) (auto split: if_splits)

lemma insert_pools_pairs:
  "set (map pl_pool (pools (insert_pools factory ps d))) = set (map pl_pool (pools d)) \<union> set (map fst ps)"
  by (induction factory ps d rule: insert_pools.induct) auto

lemma insert_pools_rest:
  "alkane_txs (insert_pools factory ps d) = alkane_txs d"
  "trace_events (insert_pools factory ps d) = trace_events d"
  "protostones (insert_pools factory ps d) = protostones d"
  "clock_ins (insert_pools factory ps d) = clock_ins d"
  "processed_blocks (insert_pools factory ps d) = processed_blocks d"
  "pool_states (insert_pools factory ps d) = pool_states d"
  "pool_creations (insert_pools factory ps d) = pool_creations d"
  "kv_store (insert_pools factory ps d) = kv_store d"
  by (induction factory ps d rule: insert_pools.induct) simp_all

abbreviation state_key :: "pool_state \<Rightarrow> string \<times> i32" where
  "state_key s \<equiv> (ps_pool s, ps_height s)"

lemma distinct_insert_states:
  "distinct (map state_key table) \<Longrightarrow> distinct (map state_key (insert_states ss table))"
  by (induction ss table rule: insert_states.induct) auto

lemma insert_states_grows: "\<exists>new. insert_states ss table = table @ new \<and> set new \<subseteq> set ss"
  by (induction ss table rule: insert_states.induct) force+

text \<open>Of the rows with a key that the table does not have, the first one is inserted.\<close>

lemma insert_states_first:
  "\<exists>new. insert_states ss table = table @ new \<and> set new \<subseteq> set ss \<and>
     (\<forall>k. filter (\<lambda>s. state_key s = k) new =
       (if k \<in> set (map state_key table) then [] else take 1 (filter (\<lambda>s. state_key s = k) ss)))"
proof (induction ss table rule: insert_states.induct)
  case (2 s ss table)
  show ?case
  proof (cases "state_key s \<in> set (map state_key table)")
    case True
    with 2 show ?thesis by fastforce
  next
    case False
    with 2 obtain new where new: "insert_states ss (table @ [s]) = (table @ [s]) @ new" "set new \<subseteq> set ss"
      "\<And>k. filter (\<lambda>s. state_key s = k) new =
         (if k \<in> set (map state_key (table @ [s])) then [] else take 1 (filter (\<lambda>s. state_key s = k) ss))"
      by auto
    show ?thesis
      by (rule exI [of _ "s # new"]) (use False new in auto)
  qed
qed simp

lemma insert_states_keys:
  "set (map state_key (insert_states ss table)) = set (map state_key table) \<union> set (map state_key ss)"
  by (induction ss table rule: insert_states.induct) auto

text \<open>When the new keys are fresh and distinct every snapshot is stored.\<close>

lemma insert_states_fresh:
  assumes "distinct (map state_key ss)" "set (map state_key ss) \<inter> set (map state_key table) = {}"
  shows "insert_states ss table = table @ ss"
  using assms by (induction ss table rule: insert_states.induct) auto

subsection \<open>The latest state\<close>

lemma latest_state_None: "latest_state rs = None \<longleftrightarrow> rs = []"
  by (cases rs) (auto split: option.splits)

lemma latest_state_Some:
  "latest_state rs = Some s \<Longrightarrow> s \<in> set rs \<and> (\<forall>r \<in> set rs. sint (ps_height r) \<le> sint (ps_height s))"
proof (induction rs arbitrary: s)
  case (Cons r rs)
  show ?case
  proof (cases "latest_state rs")
    case None
    then show ?thesis using Cons.prems by (simp add: latest_state_None)
  next
    case (Some t)
    then show ?thesis using Cons.prems Cons.IH [OF Some] by (auto split: if_splits)
  qed
qed simp

lemma latest_state_snoc:
  assumes "\<And>r. r \<in> set rs \<Longrightarrow> sint (ps_height r) < sint (ps_height s)"
  shows "latest_state (rs @ [s]) = Some s"
  using assms
proof (induction rs)
  case (Cons r rs)
  then have "latest_state (rs @ [s]) = Some s" by simp
  then show ?case using Cons.prems [of r] by simp
qed simp

subsection \<open>The statements keep the constraints\<close>

theorem keeps_insert_new_pools: "keeps schema_ok (insert_new_pools factory ps)"
proof -
  have "schema_ok (insert_pools factory ps d)" if "schema_ok d" "pool_ok (insert_pools factory ps d)" for d
  proof -
    obtain new where new: "pools (insert_pools factory ps d) = pools d @ new"
      using insert_pools_grows by blast
    show ?thesis
      using that by (auto simp: schema_ok_def constraint_defs insert_pools_rest new list_all_iff)
  qed
  then show ?thesis
    by (auto simp: insert_new_pools_def intro!: keeps_intros keeps_checked)
qed

theorem keeps_insert_pool_state_snapshots: "keeps schema_ok (insert_pool_state_snapshots ss)"
  by (auto simp: insert_pool_state_snapshots_def schema_ok_def constraint_defs
      intro!: keeps_intros keeps_checked)

theorem keeps_upsert_processed_block: "keeps schema_ok (upsert_processed_block height hash time)"
  unfolding upsert_processed_block_def Let_def
  by (rule keeps_checked) (auto simp: schema_ok_def constraint_defs)

theorem keeps_set_last_processed_height: "keeps schema_ok (set_last_processed_height height)"
  unfolding set_last_processed_height_def
  by (rule keeps_update) (auto simp: schema_ok_def constraint_defs distinct_update)

lemma keeps_pool_queries:
  "keeps P (get_existing_pools_for_factory factory)"
  "keeps P (get_pool_ids_for_pairs factory pairs)"
  "keeps P (get_pool_tokens_for_pairs pairs)"
  "keeps P (get_latest_pool_states ids)"
  by (simp_all add: get_existing_pools_for_factory_def get_pool_ids_for_pairs_def
      get_pool_tokens_for_pairs_def get_latest_pool_states_def keeps_return keeps_query)

lemma keeps_get_last_processed_height: "keeps P get_last_processed_height"
  by (auto simp: keeps_def get_last_processed_height_def split: option.splits)

subsection \<open>The progress key round trip\<close>

lemma dec_string_no_sign: "dec_string n = c # cs \<Longrightarrow> c \<noteq> CHR ''-''"
  using set_dec_string [of n] by (auto simp: decimal_digits_def)

lemma sint_i64_bounds: "- (2 ^ 63) \<le> sint (w::i64)" "sint (w::i64) < 2 ^ 63"
  using sint_greater_eq [of w] sint_lt [of w] by simp_all

lemma text_bigint_bigint_text: "text_bigint (bigint_text w) = Some w"
proof (cases "sint w < 0")
  case True
  have "nat (- sint w) \<le> 2 ^ 63" using sint_i64_bounds(1) [of w] by simp
  moreover have "- of_nat (nat (- sint w)) = w"
  proof -
    have "- (of_nat (nat (- sint w)) :: i64) = word_of_int (- int (nat (- sint w)))" by simp
    also have "- int (nat (- sint w)) = sint w" using True by simp
    finally show ?thesis by simp
  qed
  ultimately show ?thesis
    using True by (simp add: bigint_text_def text_bigint_def digits_value_dec_string)
next
  case False
  obtain c cs where dec: "dec_string (nat (sint w)) = c # cs" by (cases "dec_string (nat (sint w))") auto
  have v: "digits_value 10 0 (c # cs) = Some (nat (sint w))"
    using digits_value_dec_string [of "nat (sint w)"] dec by simp
  have "nat (sint w) < 2 ^ 63" using sint_i64_bounds(2) [of w] by (simp add: nat_less_iff)
  moreover have "of_nat (nat (sint w)) = w" using False by (simp add: of_nat_nat)
  ultimately show ?thesis
    using False v dec_string_no_sign [OF dec]
    by (simp add: bigint_text_def text_bigint_def dec del: digits_value.simps)
qed

lemma get_set_last_processed_height:
  "set_last_processed_height h d = Inr ((), d') \<Longrightarrow> get_last_processed_height d' = Inr (Some h, d')"
  by (auto simp: set_last_processed_height_def db_simps get_last_processed_height_def
      update_conv text_bigint_bigint_text)

lemma read_only_pools [intro]:
  "read_only (get_existing_pools_for_factory factory)"
  "read_only (get_pool_ids_for_pairs factory pairs)"
  "read_only (get_pool_tokens_for_pairs pairs)"
  "read_only (get_latest_pool_states ids)"
  by (auto simp: get_existing_pools_for_factory_def get_pool_ids_for_pairs_def
      get_pool_tokens_for_pairs_def get_latest_pool_states_def)

end
