(* ===== verification/Pool_Events.thy ===== *)
theory Pool_Events
  imports Db_Transactions Db_Pools
begin

text \<open>
  What the pool indexers \<open>poolswap.rs\<close>, \<open>poolcreate.rs\<close>, \<open>poolmint.rs\<close> and \<open>poolburn.rs\<close> share:
  the pools that a block's invokes name and the query for their token pairs, the effect of an
  indexer that reads the decoded protostones and the tokens before it writes, and the score by
  which creations and mints choose among the returns.
\<close>

subsection \<open>Invokes\<close>

definition invoke_vout :: "json \<Rightarrow> i64" where
  "invoke_vout ev = unwrap_or (-1) (event_vout ev)"

text \<open>The iteration order of the hash set of pools has no influence on the query.\<close>

definition invoke_pools :: "(json \<Rightarrow> bool) \<Rightarrow> block_tx list \<Rightarrow> alkane_id list" where
  "invoke_pools is_invoke results =
     remdups (filter (\<lambda>p. \<not> no_pool p)
       (map event_pool (filter is_invoke (concat (map bt_events results)))))"

definition fetch_invoke_tokens ::
  "(json \<Rightarrow> bool) \<Rightarrow> block_tx list \<Rightarrow> (token_map, 'z session_scheme) act" where
  "fetch_invoke_tokens is_invoke results =
     (if invoke_pools is_invoke results \<noteq> []
      then exec (get_pool_tokens_for_pairs (invoke_pools is_invoke results))
      else act_return (\<lambda>_. None))"

text \<open>The preloads of an indexer and what it does with them.\<close>

definition with_block_data ::
  "(json \<Rightarrow> bool) \<Rightarrow> block_tx list \<Rightarrow> (decoded_map \<Rightarrow> token_map \<Rightarrow> (unit, 'z session_scheme) act)
     \<Rightarrow> (unit, 'z session_scheme) act" where
  "with_block_data is_invoke results body =
     act_bind (exec (get_decoded_protostones_by_txid_vout (map bt_txid results))) (\<lambda>decoded.
     act_bind (fetch_invoke_tokens is_invoke results) (\<lambda>tokens. body decoded tokens))"

definition block_data :: "(json \<Rightarrow> bool) \<Rightarrow> block_tx list \<Rightarrow> db \<Rightarrow> decoded_map \<Rightarrow> token_map \<Rightarrow> bool" where
  "block_data is_invoke results d decoded tokens \<longleftrightarrow>
     get_decoded_protostones_by_txid_vout (map bt_txid results) d = Inr (decoded, d) \<and>
     get_pool_tokens_for_pairs (invoke_pools is_invoke results) d = Inr (tokens, d)"

lemma fetch_invoke_tokens_cases:
  assumes "fetch_invoke_tokens is_invoke results s = (r, s')"
  shows "sdb s' = sdb s \<and>
    (\<forall>tokens. r = Inr tokens \<longrightarrow>
       get_pool_tokens_for_pairs (invoke_pools is_invoke results) (sdb s) = Inr (tokens, sdb s))"
proof (cases "invoke_pools is_invoke results = []")
  case True
  with assms show ?thesis
    by (auto simp: fetch_invoke_tokens_def act_return_def get_pool_tokens_for_pairs_def stm_return_def)
next
  case False
  then have run: "exec (get_pool_tokens_for_pairs (invoke_pools is_invoke results)) s = (r, s')"
    using assms by (simp add: fetch_invoke_tokens_def)
  have "sdb s' = sdb s"
    using exec_read_only [OF read_only_pools(3), of "invoke_pools is_invoke results" s] run by simp
  moreover have "get_pool_tokens_for_pairs (invoke_pools is_invoke results) (sdb s) = Inr (tokens, sdb s)"
    if "r = Inr tokens" for tokens
    using exec_read_only_Inr [OF read_only_pools(3) run [unfolded that]] by simp
  ultimately show ?thesis by blast
qed

text \<open>The preloads read two tables only.\<close>

lemma get_decoded_cong:
  "protostones d = protostones d' \<Longrightarrow>
     get_decoded_protostones_by_txid_vout txids d = Inr (m, d) \<longleftrightarrow>
     get_decoded_protostones_by_txid_vout txids d' = Inr (m, d')"
  by (auto simp: get_decoded_protostones_by_txid_vout_def stm_return_def query_def)

lemma get_tokens_cong:
  "pools d = pools d' \<Longrightarrow>
     get_pool_tokens_for_pairs pairs d = Inr (m, d) \<longleftrightarrow> get_pool_tokens_for_pairs pairs d' = Inr (m, d')"
  by (auto simp: get_pool_tokens_for_pairs_def stm_return_def query_def)

lemma block_data_cong:
  "protostones d = protostones d' \<Longrightarrow> pools d = pools d' \<Longrightarrow>
     block_data is_invoke results d m t \<longleftrightarrow> block_data is_invoke results d' m t"
  using get_decoded_cong [of d d'] get_tokens_cong [of d d'] by (simp add: block_data_def)

lemma with_block_data_cases:
  assumes "with_block_data is_invoke results body s = (r, s')"
  obtains (failed) e where "r = Inl e" "sdb s' = sdb s"
  | (body) decoded tokens s2 where "block_data is_invoke results (sdb s) decoded tokens"
      "sdb s2 = sdb s" "body decoded tokens s2 = (r, s')"
proof -
  obtain r1 s1 where 1: "exec (get_decoded_protostones_by_txid_vout (map bt_txid results)) s = (r1, s1)"
    by (rule prod.exhaust)
  have s1: "sdb s1 = sdb s"
    using exec_read_only [OF read_only_get_decoded, of "map bt_txid results" s] 1 by simp
  show thesis
  proof (cases r1)
    case (Inl e)
    with assms 1 s1 show thesis by (intro failed) (auto simp: with_block_data_def act_bind_def)
  next
    case (Inr decoded)
    then have d: "get_decoded_protostones_by_txid_vout (map bt_txid results) (sdb s) = Inr (decoded, sdb s)"
      using exec_read_only_Inr [OF read_only_get_decoded] 1 by blast
    obtain r2 s2 where 2: "fetch_invoke_tokens is_invoke results s1 = (r2, s2)" by (rule prod.exhaust)
    note t = fetch_invoke_tokens_cases [OF 2]
    show thesis
    proof (cases r2)
      case (Inl e)
      with assms 1 \<open>r1 = Inr decoded\<close> 2 s1 t show thesis
        by (intro failed) (auto simp: with_block_data_def act_bind_def)
    next
      case (Inr tokens)
      with assms 1 \<open>r1 = Inr decoded\<close> 2 s1 t d show thesis
        by (intro body [of decoded tokens s2]) (auto simp: with_block_data_def act_bind_def block_data_def)
    qed
  qed
qed

lemma preserves_with_block_data:
  assumes "\<And>decoded tokens. preserves (\<lambda>s. P (sdb s)) (body decoded tokens)"
  shows "preserves (\<lambda>s. P (sdb s)) (with_block_data is_invoke results body)"
  unfolding with_block_data_def fetch_invoke_tokens_def
  by (intro preserves_bind assms) (auto intro!: preserves_exec keeps_get_decoded keeps_pool_queries)

text \<open>The indexers that need no tokens.\<close>

definition with_decoded ::
  "block_tx list \<Rightarrow> (decoded_map \<Rightarrow> ('a, 'z session_scheme) act) \<Rightarrow> ('a, 'z session_scheme) act" where
  "with_decoded results body =
     act_bind (exec (get_decoded_protostones_by_txid_vout (map bt_txid results))) body"

lemma with_decoded_cases:
  assumes "with_decoded results body s = (r, s')"
  obtains (failed) e where "r = Inl e" "sdb s' = sdb s"
  | (body) decoded s2 where
      "get_decoded_protostones_by_txid_vout (map bt_txid results) (sdb s) = Inr (decoded, sdb s)"
      "sdb s2 = sdb s" "body decoded s2 = (r, s')"
proof -
  obtain r1 s1 where 1: "exec (get_decoded_protostones_by_txid_vout (map bt_txid results)) s = (r1, s1)"
    by (rule prod.exhaust)
  show thesis
  proof (cases r1)
    case (Inl e)
    with assms 1 show thesis by (intro failed) (auto simp: with_decoded_def act_bind_def dest: exec_Inl)
  next
    case (Inr decoded)
    with exec_read_only_Inr [OF read_only_get_decoded 1 [unfolded Inr]] assms 1 show thesis
      by (intro body [of decoded s1]) (auto simp: with_decoded_def act_bind_def)
  qed
qed

lemma preserves_with_decoded:
  assumes "\<And>decoded. preserves (\<lambda>s. P (sdb s)) (body decoded)"
  shows "preserves (\<lambda>s. P (sdb s)) (with_decoded results body)"
  unfolding with_decoded_def by (intro preserves_bind assms preserves_exec keeps_get_decoded)

subsection \<open>Scores\<close>

text \<open>\<open>(t0_out, t1_out, j)\<close>: the least token outs, the latest index on a tie.\<close>

definition pair_better :: "(u128 \<times> u128) \<times> nat \<Rightarrow> (u128 \<times> u128) \<times> nat \<Rightarrow> bool" where
  "pair_better score best =
     (case score of ((s0, s1), s2) \<Rightarrow> case best of ((b0, b1), b2) \<Rightarrow>
        s0 < b0 \<or> (s0 = b0 \<and> (s1 < b1 \<or> (s1 = b1 \<and> b2 < s2))))"

definition pair_outs :: "alkane_id \<Rightarrow> alkane_id \<Rightarrow> json \<Rightarrow> u128 \<times> u128" where
  "pair_outs token0 token1 ret =
     (token_total (returned_alkanes ret) token0, token_total (returned_alkanes ret) token1)"

interpretation pair_match: best_match pair_better score "\<lambda>s. s" for score :: "json \<Rightarrow> (u128 \<times> u128) option"
  by unfold_locales (auto simp: pair_better_def less_prod_def')

text \<open>\<open>(lp_out, j)\<close>: the least LP amount handed back, the latest index on a tie.\<close>

definition lp_better :: "u128 \<times> nat \<Rightarrow> u128 \<times> nat \<Rightarrow> bool" where
  "lp_better score best = (fst score < fst best \<or> (fst score = fst best \<and> snd best < snd score))"

interpretation lp_match: best_match lp_better score "\<lambda>s. s" for score :: "json \<Rightarrow> u128 option"
  by unfold_locales (auto simp: lp_better_def)

text \<open>A successful choice and its absence, for the indexers that record both.\<close>

definition chosen_alkanes :: "nat option \<Rightarrow> json list \<Rightarrow> json list" where
  "chosen_alkanes chosen events = (case chosen of Some j \<Rightarrow> returned_alkanes (events ! j) | None \<Rightarrow> [])"

lemma invoke_vout_json [json_simps]:
  "invoke_vout (delegate_json vout pool inputs incoming) = scast vout"
  by (simp add: invoke_vout_def json_simps)

definition example_tokens :: token_map where
  "example_tokens = [id_text (2, 10) \<mapsto> (id_text (2, 0), id_text (32, 0))]"

abbreviation example_invoke :: "block_tx \<Rightarrow> nat \<times> json" where
  "example_invoke tx \<equiv> (0, hd (bt_events tx))"

end
