(* ===== verification/Pool_Swap.thy ===== *)
theory Pool_Swap
  imports Pool_Events
begin

text \<open>
  \<open>src/helpers/poolswap.rs\<close>: every delegatecall invoke with opcode 3 on a known pool that
  brings one of the pool's tokens in gives one row; the return that decides it is the first one
  on the same \<open>vout\<close> that pays the expected token with a desired amount, else the first one.
  Amounts are stored as doubles; the conversion \<open>as f64\<close> is written out.
\<close>

subsection \<open>\<open>u128 as f64\<close>\<close>

fun bit_length :: "nat \<Rightarrow> nat" where
  "bit_length n = (if n = 0 then 0 else Suc (bit_length (n div 2)))"

declare bit_length.simps [simp del]

text \<open>To nearest, ties to even, 53 significant bits; every \<open>u128\<close> is in the range.\<close>

definition f64_of_nat :: "nat \<Rightarrow> f64" where
  "f64_of_nat n =
     (let u = 2 ^ (bit_length n - 53); q = n div u; r = n mod u
      in (if u < 2 * r \<or> (2 * r = u \<and> odd q) then Suc q else q) * u)"

definition f64_of_u128 :: "u128 \<Rightarrow> f64" where
  "f64_of_u128 w = f64_of_nat (unat w)"

subsection \<open>One invoke\<close>

definition invoke_inputs :: "json \<Rightarrow> string list" where
  "invoke_inputs ev = List.map_filter as_str (jarr_or_empty [''data'', ''context'', ''inputs''] ev)"

definition desired_amounts :: "json \<Rightarrow> u128 list" where
  "desired_amounts ev =
     List.map_filter hex_to_u128 (take 2 (drop 1 (invoke_inputs ev)))"

definition swap_return :: "json list \<Rightarrow> nat \<Rightarrow> json \<Rightarrow> alkane_id \<Rightarrow> json option" where
  "swap_return events i ev expected =
     (case find_matching_return_strict i events (invoke_vout ev) expected (desired_amounts ev) of
        Some r \<Rightarrow> Some r
      | None \<Rightarrow> find_matching_return i events (invoke_vout ev))"

text \<open>\<open>(sold, bought, sold amount, bought amount)\<close>\<close>

definition swap_sides ::
  "json list \<Rightarrow> json list \<Rightarrow> alkane_id \<Rightarrow> alkane_id \<Rightarrow> alkane_id \<times> alkane_id \<times> u128 \<times> u128" where
  "swap_sides incoming outgoing token0 token1 =
     (let t0_in = token_total incoming token0; t0_out = token_total outgoing token0;
          t1_in = token_total incoming token1; t1_out = token_total outgoing token1
      in if t0_out = 0 \<and> t1_in = 0 then (token0, token1, t0_in, t1_out)
         else (token1, token0, t1_in, t0_out))"

definition swap_row_at ::
  "decoded_map \<Rightarrow> token_map \<Rightarrow> i32 \<Rightarrow> block_tx \<Rightarrow> nat \<times> json \<Rightarrow> swap_row option" where
  "swap_row_at decoded tokens height tx iev =
     (case iev of (i, ev) \<Rightarrow>
      if \<not> is_delegate_invoke ev \<or> no_pool (event_pool ev) then None
      else (case tokens (event_pool ev) of
          None \<Rightarrow> None
        | Some (token0, token1) \<Rightarrow>
            let incoming = incoming_alkanes ev;
                has_t0 = 0 < token_total incoming token0;
                has_t1 = 0 < token_total incoming token1
            in if \<not> has_t0 \<and> \<not> has_t1 then None
               else
                 let ret = swap_return (bt_events tx) i ev (if has_t0 then token1 else token0);
                     outgoing = (case ret of Some r \<Rightarrow> returned_alkanes r | None \<Rightarrow> [])
                 in case swap_sides incoming outgoing token0 token1 of
                      (sold, bought, sold_amount, bought_amount) \<Rightarrow>
                   let ok = ret \<noteq> None \<and> 0 < sold_amount \<and> 0 < bought_amount
                   in Some \<lparr>sw_txid = bt_txid tx, sw_height = height, sw_index = bt_index tx,
                        sw_pool = event_pool ev, sw_sold = sold, sw_bought = bought,
                        sw_sold_amount = (if ok then f64_of_u128 sold_amount else 0),
                        sw_bought_amount = (if ok then f64_of_u128 bought_amount else 0),
                        sw_seller = pointer_address decoded (bt_txid tx) (invoke_vout ev),
                        sw_time = bt_time tx, sw_successful = ok\<rparr>))"

definition swap_rows :: "decoded_map \<Rightarrow> token_map \<Rightarrow> i32 \<Rightarrow> block_tx list \<Rightarrow> swap_row list" where
  "swap_rows decoded tokens height results =
     concat (map (\<lambda>tx. List.map_filter (swap_row_at decoded tokens height tx)
                         (enumerate 0 (bt_events tx))) results)"

subsection \<open>One block\<close>

definition index_pool_swaps_for_block ::
  "i32 \<Rightarrow> block_tx list \<Rightarrow> (unit, 'z session_scheme) act" where
  "index_pool_swaps_for_block height results =
     with_block_data is_delegate_invoke results (\<lambda>decoded tokens.
       exec (replace_pool_swaps (map bt_txid results) (swap_rows decoded tokens height results)))"

subsection \<open>The conversion to double\<close>

lemma bit_length_bounds: "0 < n \<Longrightarrow> 2 ^ (bit_length n - 1) \<le> n \<and> n < 2 ^ bit_length n"
proof (induction n rule: bit_length.induct)
  case (1 n)
  show ?case
  proof (cases "n = 1")
    case True
    then show ?thesis by (simp add: bit_length.simps)
  next
    case False
    with 1 have half: "0 < n div 2" "2 ^ (bit_length (n div 2) - 1) \<le> n div 2" "n div 2 < 2 ^ bit_length (n div 2)"
      by auto
    then have "0 < bit_length (n div 2)" by (auto intro: Suc_leI gr0I)
    then have "(2::nat) ^ bit_length (n div 2) = 2 * 2 ^ (bit_length (n div 2) - 1)"
      by (simp flip: power_Suc)
    then have "2 ^ bit_length (n div 2) \<le> n" using half(2) by linarith
    moreover have "n < 2 * 2 ^ bit_length (n div 2)" using half(3) by linarith
    ultimately show ?thesis using 1(2) by (simp add: bit_length.simps [of n])
  qed
qed

lemma bit_length_numeral:
  "bit_length 0 = 0" "bit_length 1 = 1" "bit_length (Suc 0) = 1"
  "bit_length (numeral k) = Suc (bit_length (numeral k div 2))"
  by (subst bit_length.simps; simp)+

lemma f64_of_nat_exact: "n < 2 ^ 53 \<Longrightarrow> f64_of_nat n = n"
proof -
  assume n: "n < 2 ^ 53"
  have "bit_length n \<le> 53"
  proof (rule ccontr)
    assume "\<not> ?thesis"
    then have le: "(2::nat) ^ 53 \<le> 2 ^ (bit_length n - 1)" by (intro power_increasing) auto
    have "0 < n" using \<open>\<not> bit_length n \<le> 53\<close> by (cases n) (auto simp: bit_length.simps [of 0])
    then show False using bit_length_bounds [of n] le n by linarith
  qed
  then show ?thesis by (simp add: f64_of_nat_def)
qed

lemma round_nearest:
  fixes n u :: nat
  assumes "0 < u"
  defines "v \<equiv> (if u < 2 * (n mod u) \<or> (2 * (n mod u) = u \<and> odd (n div u)) then Suc (n div u) else n div u) * u"
  shows "2 * v \<le> 2 * n + u" and "2 * n \<le> 2 * v + u"
proof -
  have n: "n = (n div u) * u + n mod u" by (simp add: div_mult_mod_eq)
  define q r where "q = (n div u) * u" and "r = n mod u"
  have eq: "n = q + r" using n by (simp add: q_def r_def)
  have "r < u" using assms by (simp add: r_def)
  moreover have "v = (if u < 2 * r \<or> (2 * r = u \<and> odd (n div u)) then q + u else q)"
    by (simp add: v_def q_def r_def algebra_simps)
  ultimately show "2 * v \<le> 2 * n + u" "2 * n \<le> 2 * v + u" using eq by (auto split: if_splits)
qed

lemma f64_of_nat_error:
  "2 ^ 53 * f64_of_nat n \<le> (2 ^ 53 + 1) * n \<and> (2 ^ 53 - 1) * n \<le> 2 ^ 53 * f64_of_nat n"
proof (cases "n < 2 ^ 53")
  case True
  then show ?thesis by (simp add: f64_of_nat_exact)
next
  case False
  define u where "u = (2::nat) ^ (bit_length n - 53)"
  have n: "0 < n" "n < 2 ^ bit_length n" "2 ^ (bit_length n - 1) \<le> n"
    using False bit_length_bounds [of n] by auto
  have "53 < bit_length n"
  proof (rule ccontr)
    assume "\<not> ?thesis"
    then have "(2::nat) ^ bit_length n \<le> 2 ^ 53" by (intro power_increasing) auto
    with n(2) False show False by linarith
  qed
  then have "bit_length n - 1 = 52 + (bit_length n - 53)" by simp
  then have "(2::nat) ^ (bit_length n - 1) = 2 ^ 52 * u"
    unfolding u_def by (simp only: power_add)
  then have u: "2 ^ 52 * u \<le> n" using n(3) by simp
  have "0 < u" by (simp add: u_def)
  note r = round_nearest [OF this, of n]
  have v: "f64_of_nat n = (if u < 2 * (n mod u) \<or> (2 * (n mod u) = u \<and> odd (n div u)) then Suc (n div u) else n div u) * u"
    by (simp add: f64_of_nat_def Let_def u_def)
  have "2 * f64_of_nat n \<le> 2 * n + u" "2 * n \<le> 2 * f64_of_nat n + u" using r by (simp_all add: v)
  with u show ?thesis by simp
qed

lemma f64_of_nat_pos: "0 < f64_of_nat n \<longleftrightarrow> 0 < n"
  using f64_of_nat_error [of n] by (cases "n = 0") (auto simp: f64_of_nat_def)

subsection \<open>The return that decides a swap\<close>

definition pays_expected :: "json \<Rightarrow> alkane_id \<Rightarrow> json \<Rightarrow> bool" where
  "pays_expected ev expected r \<longleftrightarrow>
     list_ex (returns_token expected (desired_amounts ev)) (returned_alkanes r)"

lemma swap_return_eq:
  "swap_return events i ev expected =
     (case find (\<lambda>r. is_return_on (invoke_vout ev) r \<and> pays_expected ev expected r) (drop (Suc i) events) of
        Some r \<Rightarrow> Some r | None \<Rightarrow> find (is_return_on (invoke_vout ev)) (drop (Suc i) events))"
  unfolding swap_return_def find_matching_return_strict_def find_matching_return_def pays_expected_def ..

lemma swap_return_None:
  "swap_return events i ev expected = None \<longleftrightarrow>
     (\<forall>j. i < j \<and> j < length events \<longrightarrow> \<not> is_return_on (invoke_vout ev) (events ! j))"
proof -
  have "swap_return events i ev expected = None \<longleftrightarrow>
      find (is_return_on (invoke_vout ev)) (drop (Suc i) events) = None"
    by (auto simp: swap_return_eq find_None_iff split: option.split dest!: find_SomeD)
  then show ?thesis by (simp add: find_drop_None Suc_le_eq)
qed

lemma swap_return_later:
  assumes "swap_return events i ev expected = Some r"
  obtains k where "i < k" "k < length events" "r = events ! k" "is_return_on (invoke_vout ev) r"
    "\<forall>j. i < j \<and> j < length events \<longrightarrow> is_return_on (invoke_vout ev) (events ! j) \<longrightarrow>
       pays_expected ev expected (events ! j) \<longrightarrow> pays_expected ev expected r \<and> k \<le> j"
proof (cases "find (\<lambda>r. is_return_on (invoke_vout ev) r \<and> pays_expected ev expected r) (drop (Suc i) events)")
  case None
  then have "find (is_return_on (invoke_vout ev)) (drop (Suc i) events) = Some r"
    using assms by (simp add: swap_return_eq)
  then show thesis
    by (rule find_drop_Some) (use None that in \<open>auto simp: find_drop_None Suc_le_eq\<close>)
next
  case (Some r')
  then have "r' = r" using assms by (simp add: swap_return_eq)
  from Some show thesis
  proof (rule find_drop_Some)
    fix k
    assume "Suc i \<le> k" "k < length events" "r' = events ! k"
      and "is_return_on (invoke_vout ev) r' \<and> pays_expected ev expected r'"
      and first: "\<And>j. Suc i \<le> j \<Longrightarrow> j < k \<Longrightarrow> \<not> (is_return_on (invoke_vout ev) (events ! j) \<and> pays_expected ev expected (events ! j))"
    moreover have "k \<le> j" if "i < j" "is_return_on (invoke_vout ev) (events ! j)"
      "pays_expected ev expected (events ! j)" for j
      using first [of j] that by (force simp: Suc_le_eq not_less)
    ultimately show thesis using \<open>r' = r\<close> by (intro that [of k]) auto
  qed
qed

subsection \<open>The rows\<close>

text \<open>An invoke that gives a row: it runs opcode 3 on a pool the database knows and brings one
  of its tokens in.\<close>

definition swap_candidate :: "token_map \<Rightarrow> json \<Rightarrow> bool" where
  "swap_candidate tokens ev \<longleftrightarrow>
     is_delegate_invoke ev \<and> \<not> no_pool (event_pool ev) \<and>
     (case tokens (event_pool ev) of
        None \<Rightarrow> False
      | Some (token0, token1) \<Rightarrow>
          0 < token_total (incoming_alkanes ev) token0 \<or> 0 < token_total (incoming_alkanes ev) token1)"

lemma swap_row_at_None:
  "swap_row_at decoded tokens height tx iev = None \<longleftrightarrow> \<not> swap_candidate tokens (snd iev)"
  by (auto simp: swap_row_at_def swap_candidate_def Let_def split: option.splits prod.splits)

lemma swap_row_fixed:
  assumes "swap_row_at decoded tokens height tx iev = Some row"
  shows "sw_txid row = bt_txid tx \<and> sw_height row = height \<and> sw_index row = bt_index tx \<and>
    sw_time row = bt_time tx \<and> sw_pool row = event_pool (snd iev) \<and>
    sw_seller row = pointer_address decoded (bt_txid tx) (invoke_vout (snd iev))"
  using assms by (auto simp: swap_row_at_def Let_def split: option.splits prod.splits if_splits)

lemma swap_rows_txids: "r \<in> set (swap_rows decoded tokens height results) \<Longrightarrow> sw_txid r \<in> set (map bt_txid results)"
  by (auto simp: swap_rows_def set_map_filter dest!: swap_row_fixed)

lemma length_swap_rows:
  "length (swap_rows decoded tokens height results) =
     length (filter (swap_candidate tokens) (concat (map bt_events results)))"
proof (induction results)
  case (Cons tx results)
  have "length (List.map_filter (swap_row_at decoded tokens height tx) (enumerate 0 (bt_events tx))) =
      length (filter (\<lambda>ie. swap_candidate tokens (snd ie)) (enumerate 0 (bt_events tx)))"
    by (simp only: length_map_filter swap_row_at_None not_not)
  with Cons show ?case by (simp add: swap_rows_def length_filter_enumerate)
qed (simp add: swap_rows_def)

subsection \<open>What a row records\<close>

definition swap_amounts_ok :: "json \<Rightarrow> json \<Rightarrow> swap_row \<Rightarrow> bool" where
  "swap_amounts_ok ev ret row \<longleftrightarrow>
     (let sold = token_total (incoming_alkanes ev) (sw_sold row);
          bought = token_total (returned_alkanes ret) (sw_bought row)
      in 0 < sold \<and> 0 < bought \<and>
         sw_sold_amount row = f64_of_u128 sold \<and> sw_bought_amount row = f64_of_u128 bought)"

lemma f64_of_u128_pos: "0 < f64_of_u128 w \<longleftrightarrow> w \<noteq> 0"
  by (metis f64_of_nat_pos f64_of_u128_def neq0_conv unsigned_eq_0_iff)

lemma swap_row_cases:
  assumes "swap_row_at decoded tokens height tx (i, ev) = Some row"
  obtains (failed) "\<not> sw_successful row" "sw_sold_amount row = 0" "sw_bought_amount row = 0"
  | (success) token0 token1 ret where "sw_successful row" "tokens (event_pool ev) = Some (token0, token1)"
      "(sw_sold row, sw_bought row) \<in> {(token0, token1), (token1, token0)}"
      "swap_return (bt_events tx) i ev
         (if 0 < token_total (incoming_alkanes ev) token0 then token1 else token0) = Some ret"
      "swap_amounts_ok ev ret row"
proof -
  obtain token0 token1 where tokens: "tokens (event_pool ev) = Some (token0, token1)"
    using assms by (auto simp: swap_row_at_def split: if_splits option.splits)
  define ret where "ret = swap_return (bt_events tx) i ev
    (if 0 < token_total (incoming_alkanes ev) token0 then token1 else token0)"
  define outgoing where "outgoing = (case ret of Some r \<Rightarrow> returned_alkanes r | None \<Rightarrow> [])"
  obtain sold bought sa ba where
    sides: "swap_sides (incoming_alkanes ev) outgoing token0 token1 = (sold, bought, sa, ba)"
    by (metis prod.exhaust)
  have row: "sw_successful row \<longleftrightarrow> ret \<noteq> None \<and> 0 < sa \<and> 0 < ba"
    "sw_sold row = sold" "sw_bought row = bought"
    "sw_sold_amount row = (if sw_successful row then f64_of_u128 sa else 0)"
    "sw_bought_amount row = (if sw_successful row then f64_of_u128 ba else 0)"
    using assms tokens sides
    by (auto simp: swap_row_at_def Let_def ret_def [symmetric] outgoing_def [symmetric] split: if_splits)
  show thesis
  proof (cases "sw_successful row")
    case True
    then obtain r where r: "ret = Some r" using row(1) by auto
    have "(sold, bought) \<in> {(token0, token1), (token1, token0)}" "sa = token_total (incoming_alkanes ev) sold"
      "ba = token_total (returned_alkanes r) bought"
      using sides by (auto simp: swap_sides_def Let_def outgoing_def r split: if_splits)
    then show thesis
      using True tokens row r ret_def by (intro success [of token0 token1 r]) (auto simp: swap_amounts_ok_def Let_def)
  next
    case False
    with row show thesis by (intro failed) auto
  qed
qed

subsection \<open>The effect on the database\<close>

lemma preserves_index_pool_swaps:
  "preserves (\<lambda>s. schema_ok (sdb s)) (index_pool_swaps_for_block height results)"
  unfolding index_pool_swaps_for_block_def
  by (intro preserves_with_block_data preserves_exec keeps_replace_events)

subsection \<open>Properties\<close>

definition example_swap :: "json list \<Rightarrow> json list \<Rightarrow> block_tx" where
  "example_swap incoming outgoing =
     tx_with ''t'' [delegate_json 3 (2, 10) [''0x3''] incoming, return_json 3 ''success'' outgoing]"

lemma desired_amounts_json [json_simps]:
  "desired_amounts (delegate_json vout pool [op] incoming) = []"
  by (simp add: desired_amounts_def invoke_inputs_def delegate_json_def json_access_defs
      List.map_filter_simps)

lemma returns_token_json [json_simps]:
  "returns_token (id_text i) [] (alkane_json j v) \<longleftrightarrow> i = j"
  by (auto simp: returns_token_def json_simps)

lemmas swap_eval = swap_row_at_def swap_return_eq example_swap_def example_tokens_def json_simps Let_def
  pays_expected_def swap_sides_def saturating_add_def

text \<open>
  A block's swap rows are exactly as many as its swap invokes: one row for every
  delegatecall with opcode 3 on a pool with known tokens that brings one of them in, and none
  for any other event.
\<close>

theorem swap_rows_one_per_invoke:
  "length (swap_rows decoded tokens height results) =
     length (filter (swap_candidate tokens) (concat (map bt_events results)))"
  by (rule length_swap_rows)

text \<open>
  C11: a swap row is successful only when a later return on the invoke's \<open>vout\<close> pays one pool
  token for the other one that came in, both in positive amounts, and then it records these
  amounts (rounded to doubles); an unsuccessful row records zero amounts.
\<close>

theorem swap_row_correct:
  assumes "swap_row_at decoded tokens height tx (i, ev) = Some row"
  shows "if sw_successful row
     then \<exists>token0 token1 k. tokens (event_pool ev) = Some (token0, token1) \<and>
            (sw_sold row, sw_bought row) \<in> {(token0, token1), (token1, token0)} \<and>
            i < k \<and> k < length (bt_events tx) \<and> is_return_on (invoke_vout ev) (bt_events tx ! k) \<and>
            swap_amounts_ok ev (bt_events tx ! k) row
     else sw_sold_amount row = 0 \<and> sw_bought_amount row = 0"
  using assms
proof (cases rule: swap_row_cases)
  case (success token0 token1 ret)
  from success(4) obtain k where "i < k" "k < length (bt_events tx)" "ret = bt_events tx ! k"
    "is_return_on (invoke_vout ev) ret"
    by (rule swap_return_later)
  with success show ?thesis by auto
qed auto

lemma swap_row_correct_witness:
  "\<exists>row. swap_row_at (\<lambda>_. None) example_tokens 5 (example_swap [alkane_json (2, 0) 100] [alkane_json (32, 0) 7])
      (example_invoke (example_swap [alkane_json (2, 0) 100] [alkane_json (32, 0) 7])) = Some row \<and>
    sw_successful row \<and>
    (\<exists>k. 0 < k \<and> is_return_on 3 (bt_events (example_swap [alkane_json (2, 0) 100] [alkane_json (32, 0) 7]) ! k))"
proof -
  let ?tx = "example_swap [alkane_json (2, 0) 100] [alkane_json (32, 0) 7]"
  have ev: "bt_events ?tx = [delegate_json 3 (2, 10) [''0x3''] [alkane_json (2, 0) 100],
      return_json 3 ''success'' [alkane_json (32, 0) 7]]"
    by (simp add: example_swap_def json_simps)
  obtain row where row: "swap_row_at (\<lambda>_. None) example_tokens 5 ?tx (example_invoke ?tx) = Some row"
    and ok: "sw_successful row"
    by (simp add: swap_eval)
  from swap_row_correct [OF row] ok ev show ?thesis
    using row by (auto simp: json_simps invoke_vout_def)
qed

text \<open>
  The return that decides a swap is the first later one on the invoke's \<open>vout\<close> that pays
  the expected token with a desired amount; only when no later return on that \<open>vout\<close> does, it
  is the first later return on that \<open>vout\<close>; there is none exactly when no such return follows.
\<close>

theorem swap_return_choice:
  "case swap_return events i ev expected of
     None \<Rightarrow> \<not> (\<exists>j>i. j < length events \<and> is_return_on (invoke_vout ev) (events ! j))
   | Some r \<Rightarrow> \<exists>k>i. k < length events \<and> r = events ! k \<and> is_return_on (invoke_vout ev) r \<and>
       \<not> (\<exists>j>i. j < length events \<and> is_return_on (invoke_vout ev) (events ! j) \<and>
            pays_expected ev expected (events ! j) \<and> (j < k \<or> \<not> pays_expected ev expected r))"
proof (cases "swap_return events i ev expected")
  case None
  then have "\<forall>j. i < j \<and> j < length events \<longrightarrow> \<not> is_return_on (invoke_vout ev) (events ! j)"
    by (simp only: swap_return_None)
  with None show ?thesis by auto
next
  case (Some r)
  then obtain k where "i < k" "k < length events" "r = events ! k" "is_return_on (invoke_vout ev) r"
    "\<forall>j. i < j \<and> j < length events \<longrightarrow> is_return_on (invoke_vout ev) (events ! j) \<longrightarrow>
       pays_expected ev expected (events ! j) \<longrightarrow> pays_expected ev expected r \<and> k \<le> j"
    by (rule swap_return_later)
  with Some show ?thesis by (auto intro!: exI [of _ k])
qed

lemma swap_return_choice_witness:
  "let events = bt_events (example_swap [alkane_json (2, 0) 100] [alkane_json (32, 0) 7]) in
     \<exists>k>0. k < 2 \<and> swap_return events 0 (hd events) (id_text (32, 0)) = Some (events ! k)"
proof -
  let ?events = "bt_events (example_swap [alkane_json (2, 0) 100] [alkane_json (32, 0) 7])"
  have len: "length ?events = 2" by (simp add: example_swap_def json_simps)
  have "swap_return ?events 0 (hd ?events) (id_text (32, 0)) \<noteq> None"
    by (simp add: swap_eval invoke_vout_def)
  then obtain r where "swap_return ?events 0 (hd ?events) (id_text (32, 0)) = Some r" by blast
  with swap_return_choice [where events = ?events and i = 0 and ev = "hd ?events" and expected = "id_text (32, 0)"] len show ?thesis
    by (auto simp: Let_def)
qed

text \<open>
  A swap of the pool's first token for its second one is recorded with the amounts paid in
  and out, unless the return also hands back some of the first token: then the row is marked
  unsuccessful with zero amounts, although the opposite swap with such a refund succeeds.
\<close>

theorem swap_refund_asymmetry:
  assumes "is_delegate_invoke ev" "\<not> no_pool (event_pool ev)" "tokens (event_pool ev) = Some (token0, token1)"
    and "swap_return (bt_events tx) i ev token1 = Some ret" "swap_return (bt_events tx) i ev token0 = Some ret"
  shows "(0 < token_total (incoming_alkanes ev) token0 \<and> token_total (incoming_alkanes ev) token1 = 0 \<and>
         0 < token_total (returned_alkanes ret) token1 \<longrightarrow>
       map_option sw_successful (swap_row_at decoded tokens height tx (i, ev)) =
         Some (token_total (returned_alkanes ret) token0 = 0)) \<and>
     (0 < token_total (incoming_alkanes ev) token1 \<and> token_total (incoming_alkanes ev) token0 = 0 \<and>
         0 < token_total (returned_alkanes ret) token0 \<longrightarrow>
       map_option sw_successful (swap_row_at decoded tokens height tx (i, ev)) = Some True)"
  using assms by (auto simp: swap_row_at_def swap_sides_def Let_def word_gt_0)

lemma swap_refund_asymmetry_witness:
  "map_option sw_successful (swap_row_at (\<lambda>_. None) example_tokens 5
     (example_swap [alkane_json (2, 0) 100] [alkane_json (32, 0) 7, alkane_json (2, 0) 1])
     (example_invoke (example_swap [alkane_json (2, 0) 100] [alkane_json (32, 0) 7, alkane_json (2, 0) 1]))) = Some False \<and>
   map_option sw_successful (swap_row_at (\<lambda>_. None) example_tokens 5
     (example_swap [alkane_json (32, 0) 100] [alkane_json (2, 0) 7, alkane_json (32, 0) 1])
     (example_invoke (example_swap [alkane_json (32, 0) 100] [alkane_json (2, 0) 7, alkane_json (32, 0) 1]))) = Some True"
proof
  let ?tx = "example_swap [alkane_json (2, 0) 100] [alkane_json (32, 0) 7, alkane_json (2, 0) 1]"
  let ?ev = "delegate_json 3 (2, 10) [''0x3''] [alkane_json (2, 0) 100]"
  show "map_option sw_successful (swap_row_at (\<lambda>_. None) example_tokens 5 ?tx (example_invoke ?tx)) = Some False"
    using swap_refund_asymmetry [of ?ev example_tokens "id_text (2, 0)" "id_text (32, 0)" ?tx 0
        "return_json 3 ''success'' [alkane_json (32, 0) 7, alkane_json (2, 0) 1]" "\<lambda>_. None" 5]
    by (simp add: swap_eval)
  let ?tx = "example_swap [alkane_json (32, 0) 100] [alkane_json (2, 0) 7, alkane_json (32, 0) 1]"
  let ?ev = "delegate_json 3 (2, 10) [''0x3''] [alkane_json (32, 0) 100]"
  show "map_option sw_successful (swap_row_at (\<lambda>_. None) example_tokens 5 ?tx (example_invoke ?tx)) = Some True"
    using swap_refund_asymmetry [of ?ev example_tokens "id_text (2, 0)" "id_text (32, 0)" ?tx 0
        "return_json 3 ''success'' [alkane_json (2, 0) 7, alkane_json (32, 0) 1]" "\<lambda>_. None" 5]
    by (simp add: swap_eval)
qed

text \<open>
  The amounts of a swap row are the exact token totals below \<open>2^53\<close>, and above that they
  differ from them by at most one part in \<open>2^53\<close>.
\<close>

theorem f64_of_u128_error:
  "(unat w < 2 ^ 53 \<longrightarrow> f64_of_u128 w = unat w) \<and>
   2 ^ 53 * f64_of_u128 w \<le> (2 ^ 53 + 1) * unat w \<and> (2 ^ 53 - 1) * unat w \<le> 2 ^ 53 * f64_of_u128 w"
  using f64_of_nat_exact [of "unat w"] f64_of_nat_error [of "unat w"] by (simp add: f64_of_u128_def)

lemma f64_of_u128_error_witness:
  "f64_of_u128 (2 ^ 53 - 1) = 2 ^ 53 - 1 \<and> f64_of_u128 (2 ^ 53 + 1) = 2 ^ 53"
  using f64_of_u128_error [of "2 ^ 53 - 1"] by (simp add: f64_of_u128_def f64_of_nat_def bit_length_numeral Let_def)

lemma index_pool_swaps_result:
  "case index_pool_swaps_for_block height results s of
     (Inl e, s') \<Rightarrow> sdb s' = sdb s
   | (Inr u, s') \<Rightarrow> \<exists>decoded tokens. block_data is_delegate_invoke results (sdb s) decoded tokens \<and>
       sdb s' = pool_swaps_update (\<lambda>t. filter (\<lambda>r. sw_txid r \<notin> set (map bt_txid results)) t
         @ swap_rows decoded tokens height results) (sdb s)"
proof -
  obtain r s' where run: "index_pool_swaps_for_block height results s = (r, s')" by (rule prod.exhaust)
  from run [unfolded index_pool_swaps_for_block_def] show ?thesis
  proof (cases rule: with_block_data_cases)
    case (failed e)
    with run show ?thesis by simp
  next
    case (body decoded tokens s2)
    with run show ?thesis
      by (cases r) (auto simp: exec_Inr intro!: exI [of _ decoded] exI [of _ tokens] dest!: exec_Inl swap_store.replace_Inr)
  qed
qed

text \<open>
  Indexing the swaps of a block replaces the swap rows of its transactions by the rows of
  their traces and touches nothing else; when it fails the database is as before.
\<close>

theorem index_pool_swaps_effect:
  "case index_pool_swaps_for_block height results s of
     (Inl e, s') \<Rightarrow> sdb s' = sdb s
   | (Inr u, s') \<Rightarrow> \<exists>decoded tokens. block_data is_delegate_invoke results (sdb s) decoded tokens \<and>
       sdb s' = pool_swaps_update (\<lambda>t. filter (\<lambda>r. sw_txid r \<notin> set (map bt_txid results)) t
         @ swap_rows decoded tokens height results) (sdb s)"
  by (rule index_pool_swaps_result)

end
