(* ===== verification/Pool_Create.thy ===== *)
theory Pool_Create
  imports Pool_Events
begin

text \<open>
  \<open>src/helpers/poolcreate.rs\<close>: a delegatecall invoke with opcode 0 that brings at least two
  tokens in creates a pool when a later return on the same \<open>vout\<close> hands out LP tokens; among
  these returns the one with the least token outs is taken, the latest one on a tie.
\<close>

subsection \<open>Definitions\<close>

text \<open>Dead code of the file that the indexer does not call.\<close>

definition find_last_success_return_with_lp ::
  "nat \<Rightarrow> json list \<Rightarrow> i64 \<Rightarrow> alkane_id \<Rightarrow> u128 \<Rightarrow> json option" where
  "find_last_success_return_with_lp invoke_idx events vout lp incoming_lp =
     fold (\<lambda>ev candidate.
         if is_return_on vout ev \<and> incoming_lp < token_total (returned_alkanes ev) lp
         then Some ev else candidate)
       (drop (Suc invoke_idx) events) None"

record decoded_creation =
  dc_pool :: alkane_id
  dc_token0 :: alkane_id
  dc_token1 :: alkane_id
  dc_amount0 :: string
  dc_amount1 :: string
  dc_supply :: string
  dc_creator :: "string option"

text \<open>The ids among the incoming alkanes, without the pool's own and without duplicates.\<close>

fun push_non_lp_ids :: "alkane_id \<Rightarrow> json list \<Rightarrow> alkane_id list \<Rightarrow> alkane_id list" where
  "push_non_lp_ids pool [] ids = ids"
| "push_non_lp_ids pool (a # as) ids =
     push_non_lp_ids pool as
       (case jget ''id'' a of
          None \<Rightarrow> ids
        | Some i \<Rightarrow> if alkane_id i \<noteq> pool \<and> alkane_id i \<notin> set ids then ids @ [alkane_id i] else ids)"

definition creation_score ::
  "i64 \<Rightarrow> alkane_id \<Rightarrow> alkane_id \<Rightarrow> alkane_id \<Rightarrow> u128 \<Rightarrow> json \<Rightarrow> (u128 \<times> u128) option" where
  "creation_score vout pool token0 token1 incoming_lp ev =
     (if \<not> is_return_on vout ev then None
      else let outgoing = returned_alkanes ev
           in if token_total outgoing pool \<le> incoming_lp then None
              else Some (token_total outgoing token0, token_total outgoing token1))"

definition net_creation ::
  "alkane_id \<Rightarrow> alkane_id \<Rightarrow> alkane_id \<Rightarrow> json list \<Rightarrow> json list \<Rightarrow> decoded_creation option" where
  "net_creation pool token0 token1 incoming outgoing =
     (let amount0 = saturating_sub (token_total incoming token0) (token_total outgoing token0);
          amount1 = saturating_sub (token_total incoming token1) (token_total outgoing token1);
          supply = saturating_sub (token_total outgoing pool) (token_total incoming pool)
      in if amount0 = 0 \<or> amount1 = 0 \<or> supply = 0 then None
         else Some \<lparr>dc_pool = pool, dc_token0 = token0, dc_token1 = token1,
           dc_amount0 = to_string amount0, dc_amount1 = to_string amount1,
           dc_supply = to_string supply, dc_creator = None\<rparr>)"

definition detect_creation_at :: "json list \<Rightarrow> nat \<times> json \<Rightarrow> (decoded_creation \<times> i64) option" where
  "detect_creation_at ordered iev =
     (case iev of (i, ev) \<Rightarrow>
      if \<not> is_event ''invoke'' ev \<or> \<not> is_delegate_invoke_create ev \<or> no_pool (event_pool ev) then None
      else let pool = event_pool ev; incoming = incoming_alkanes ev in
        (case push_non_lp_ids pool incoming [] of
           token0 # token1 # _ \<Rightarrow>
             (case select_later pair_better
                 (creation_score (invoke_vout ev) pool token0 token1 (token_total incoming pool))
                 (-1, -1) i ordered of
                None \<Rightarrow> None
              | Some j \<Rightarrow> map_option (\<lambda>pc. (pc, invoke_vout ev))
                  (net_creation pool token0 token1 incoming (returned_alkanes (ordered ! j))))
         | _ \<Rightarrow> None))"

definition detect_pool_creations_for_tx :: "json list \<Rightarrow> (decoded_creation \<times> i64) list" where
  "detect_pool_creations_for_tx events =
     (let ordered = order_events events
      in List.map_filter (detect_creation_at ordered) (enumerate 0 ordered))"

definition creation_row_of ::
  "decoded_map \<Rightarrow> i32 \<Rightarrow> block_tx \<Rightarrow> decoded_creation \<times> i64 \<Rightarrow> creation_row" where
  "creation_row_of decoded height tx pcv =
     (case pcv of (pc, vout) \<Rightarrow>
        \<lparr>cr_txid = bt_txid tx, cr_height = height, cr_index = bt_index tx, cr_pool = dc_pool pc,
         cr_token0 = dc_token0 pc, cr_token1 = dc_token1 pc, cr_amount0 = dc_amount0 pc,
         cr_amount1 = dc_amount1 pc, cr_supply = dc_supply pc,
         cr_creator = (case pointer_address decoded (bt_txid tx) vout of
             Some addr \<Rightarrow> Some addr | None \<Rightarrow> dc_creator pc),
         cr_time = bt_time tx\<rparr>)"

definition creation_rows :: "decoded_map \<Rightarrow> i32 \<Rightarrow> block_tx list \<Rightarrow> creation_row list" where
  "creation_rows decoded height results =
     concat (map (\<lambda>tx. map (creation_row_of decoded height tx)
                         (detect_pool_creations_for_tx (bt_events tx))) results)"

text \<open>The rows are returned; \<open>pipeline.rs\<close> stores them.\<close>

definition index_pool_creations_for_block ::
  "i32 \<Rightarrow> block_tx list \<Rightarrow> (creation_row list, 'z session_scheme) act" where
  "index_pool_creations_for_block height results =
     with_decoded results (\<lambda>decoded. act_return (creation_rows decoded height results))"

subsection \<open>The tokens of a creation\<close>

lemma push_non_lp_ids_spec:
  assumes "distinct ids" "pool \<notin> set ids"
  shows "distinct (push_non_lp_ids pool as ids) \<and>
    set (push_non_lp_ids pool as ids) =
      set ids \<union> {alkane_id i | i a. a \<in> set as \<and> jget ''id'' a = Some i \<and> alkane_id i \<noteq> pool}"
  using assms
proof (induction pool as ids rule: push_non_lp_ids.induct)
  case (2 pool a as ids)
  then show ?case
  proof (cases "jget ''id'' a")
    case (Some i)
    have "distinct (if alkane_id i \<noteq> pool \<and> alkane_id i \<notin> set ids then ids @ [alkane_id i] else ids)"
      "pool \<notin> set (if alkane_id i \<noteq> pool \<and> alkane_id i \<notin> set ids then ids @ [alkane_id i] else ids)"
      using 2(2,3) by auto
    note IH = 2(1) [unfolded Some option.case, OF this]
    show ?thesis using IH Some by (auto split: if_splits)
  qed auto
qed simp

lemma push_non_lp_ids_distinct:
  assumes "push_non_lp_ids pool as [] = token0 # token1 # rest"
  shows "token0 \<noteq> token1 \<and> token0 \<noteq> pool \<and> token1 \<noteq> pool"
  using push_non_lp_ids_spec [of "[]" pool as] assms by auto

text \<open>The ids of the alkanes that are not the pool's, in their order, duplicates included; the two
  tokens are the first two different ones among them.\<close>

definition non_lp_ids :: "alkane_id \<Rightarrow> json list \<Rightarrow> alkane_id list" where
  "non_lp_ids pool as = filter (\<lambda>i. i \<noteq> pool) (List.map_filter (\<lambda>a. map_option alkane_id (jget ''id'' a)) as)"

lemma non_lp_ids_simps [simp]:
  "non_lp_ids pool [] = []"
  "non_lp_ids pool (a # as) =
     (case jget ''id'' a of
        None \<Rightarrow> non_lp_ids pool as
      | Some i \<Rightarrow> if alkane_id i = pool then non_lp_ids pool as else alkane_id i # non_lp_ids pool as)"
  by (simp_all add: non_lp_ids_def List.map_filter_simps split: option.split)

lemma push_non_lp_ids_extends: "\<exists>more. push_non_lp_ids pool as ids = ids @ more"
  by (induction pool as ids rule: push_non_lp_ids.induct) (auto split: option.splits if_splits)

lemma push_non_lp_ids_second:
  "push_non_lp_ids pool as [token0] = token0 # token1 # rest \<Longrightarrow>
     \<exists>ys zs. non_lp_ids pool as = ys @ token1 # zs \<and> set ys \<subseteq> {token0}"
proof (induction as)
  case (Cons a as)
  show ?case
  proof (cases "\<exists>i. jget ''id'' a = Some i \<and> alkane_id i \<noteq> pool \<and> alkane_id i \<noteq> token0")
    case True
    then obtain i where i: "jget ''id'' a = Some i" "alkane_id i \<noteq> pool" "alkane_id i \<noteq> token0" by blast
    with Cons.prems push_non_lp_ids_extends [of pool as "[token0, alkane_id i]"] have "token1 = alkane_id i" by auto
    with i show ?thesis by (intro exI [of _ "[]"] exI [of _ "non_lp_ids pool as"]) auto
  next
    case False
    with Cons.prems have "push_non_lp_ids pool as [token0] = token0 # token1 # rest"
      by (auto split: option.splits if_splits)
    then obtain ys zs where "non_lp_ids pool as = ys @ token1 # zs" "set ys \<subseteq> {token0}" using Cons.IH by blast
    with False show ?thesis
      by (intro exI [of _ "non_lp_ids pool [a] @ ys"] exI [of _ zs]) (auto split: option.splits)
  qed
qed simp

lemma push_non_lp_ids_first_two:
  "push_non_lp_ids pool as [] = token0 # token1 # rest \<Longrightarrow>
     \<exists>ys zs. non_lp_ids pool as = token0 # ys @ token1 # zs \<and> set ys \<subseteq> {token0}"
proof (induction as)
  case (Cons a as)
  show ?case
  proof (cases "\<exists>i. jget ''id'' a = Some i \<and> alkane_id i \<noteq> pool")
    case True
    then obtain i where i: "jget ''id'' a = Some i" "alkane_id i \<noteq> pool" by blast
    with Cons.prems push_non_lp_ids_extends [of pool as "[alkane_id i]"] have "token0 = alkane_id i" by auto
    with i Cons.prems push_non_lp_ids_second [of pool as token0 token1 rest] show ?thesis by auto
  next
    case False
    with Cons show ?thesis by (auto split: option.splits if_splits)
  qed
qed simp

lemma find_last_success_return:
  "find_last_success_return_with_lp i events vout lp incoming_lp =
     find (\<lambda>ev. is_return_on vout ev \<and> incoming_lp < token_total (returned_alkanes ev) lp)
       (rev (drop (Suc i) events))"
proof -
  have "fold (\<lambda>ev c. if P ev then Some ev else c) evs c =
      (case find P (rev evs) of Some x \<Rightarrow> Some x | None \<Rightarrow> c)" for P c and evs :: "json list"
    by (induction evs arbitrary: c) (auto simp: find_append split: option.split)
  then show ?thesis by (simp add: find_last_success_return_with_lp_def split: option.split)
qed

lemma disjoint_maps: "f ` A \<inter> g ` B = {} \<longleftrightarrow> (\<forall>b \<in> B. \<forall>a \<in> A. g b \<noteq> f a)"
  by (auto simp: disjoint_iff image_iff) metis

subsection \<open>What is detected\<close>

text \<open>A return that pays out LP tokens, and the order among them: least token outs, then latest.\<close>

definition mints_lp :: "json \<Rightarrow> json \<Rightarrow> bool" where
  "mints_lp ev ret \<longleftrightarrow>
     is_return_on (invoke_vout ev) ret \<and>
     token_total (incoming_alkanes ev) (event_pool ev) < token_total (returned_alkanes ret) (event_pool ev)"

lemma creation_score_eq:
  "creation_score (invoke_vout ev) (event_pool ev) token0 token1
      (token_total (incoming_alkanes ev) (event_pool ev)) ret =
     (if mints_lp ev ret then Some (pair_outs token0 token1 ret) else None)"
  by (auto simp: creation_score_def mints_lp_def pair_outs_def Let_def not_le)

lemma detect_creation_cases:
  assumes "detect_creation_at evs (i, ev) = Some (pc, v)"
  obtains rest j where "is_delegate_invoke_create ev" "\<not> no_pool (event_pool ev)" "v = invoke_vout ev"
    "push_non_lp_ids (event_pool ev) (incoming_alkanes ev) [] = dc_token0 pc # dc_token1 pc # rest"
    "best_later (mints_lp ev) (pair_outs (dc_token0 pc) (dc_token1 pc)) i evs j"
    "net_creation (event_pool ev) (dc_token0 pc) (dc_token1 pc) (incoming_alkanes ev) (returned_alkanes (evs ! j)) = Some pc"
proof -
  from assms obtain token0 token1 rest j where 1: "is_delegate_invoke_create ev" "\<not> no_pool (event_pool ev)"
    "v = invoke_vout ev"
    "push_non_lp_ids (event_pool ev) (incoming_alkanes ev) [] = token0 # token1 # rest"
    and sel: "select_later pair_better (creation_score (invoke_vout ev) (event_pool ev) token0 token1
                (token_total (incoming_alkanes ev) (event_pool ev))) (-1, -1) i evs = Some j"
    and net: "net_creation (event_pool ev) token0 token1 (incoming_alkanes ev) (returned_alkanes (evs ! j)) = Some pc"
    by (auto simp: detect_creation_at_def Let_def split: if_splits list.splits option.splits)
  from net have tokens: "dc_token0 pc = token0" "dc_token1 pc = token1"
    by (auto simp: net_creation_def Let_def split: if_splits)
  from pair_match.select_later_best [OF creation_score_eq sel] 1 net tokens show thesis
    by (intro that [of rest j]) simp_all
qed

text \<open>The amounts are the exact differences.\<close>

lemma net_creation_Some:
  "net_creation pool token0 token1 incoming outgoing = Some pc \<longleftrightarrow>
     token_total outgoing token0 < token_total incoming token0 \<and>
     token_total outgoing token1 < token_total incoming token1 \<and>
     token_total incoming pool < token_total outgoing pool \<and>
     pc = \<lparr>dc_pool = pool, dc_token0 = token0, dc_token1 = token1,
       dc_amount0 = to_string (token_total incoming token0 - token_total outgoing token0),
       dc_amount1 = to_string (token_total incoming token1 - token_total outgoing token1),
       dc_supply = to_string (token_total outgoing pool - token_total incoming pool), dc_creator = None\<rparr>"
  by (auto simp: net_creation_def Let_def saturating_sub_0 saturating_sub_def not_le less_imp_le)

lemma net_creation_fields:
  assumes "net_creation pool token0 token1 incoming outgoing = Some pc"
  shows "dc_pool pc = pool" "dc_token0 pc = token0" "dc_token1 pc = token1"
    "token_total outgoing token0 < token_total incoming token0"
    "token_total outgoing token1 < token_total incoming token1"
    "token_total incoming pool < token_total outgoing pool"
    "dc_amount0 pc = to_string (token_total incoming token0 - token_total outgoing token0)"
    "dc_amount1 pc = to_string (token_total incoming token1 - token_total outgoing token1)"
    "dc_supply pc = to_string (token_total outgoing pool - token_total incoming pool)"
  using assms by (simp_all add: net_creation_Some)

text \<open>The converse: which invokes are creations.\<close>

lemma detect_creation_complete:
  assumes "is_event ''invoke'' ev" "is_delegate_invoke_create ev" "\<not> no_pool (event_pool ev)"
    and ids: "push_non_lp_ids (event_pool ev) (incoming_alkanes ev) [] = token0 # token1 # rest"
    and best: "\<forall>j. best_later (mints_lp ev) (pair_outs token0 token1) i evs j \<longrightarrow>
         token_total (returned_alkanes (evs ! j)) token0 < token_total (incoming_alkanes ev) token0 \<and>
         token_total (returned_alkanes (evs ! j)) token1 < token_total (incoming_alkanes ev) token1"
    and ret: "i < k" "k < length evs" "mints_lp ev (evs ! k)"
  shows "detect_creation_at evs (i, ev) \<noteq> None"
proof -
  let ?score = "creation_score (invoke_vout ev) (event_pool ev) token0 token1
    (token_total (incoming_alkanes ev) (event_pool ev))"
  have "select_later pair_better ?score (-1, -1) i evs \<noteq> None"
    using ret by (subst pair_match.select_later_exists [OF creation_score_eq]) blast
  then obtain j where j: "select_later pair_better ?score (-1, -1) i evs = Some j" by blast
  then have b: "best_later (mints_lp ev) (pair_outs token0 token1) i evs j"
    by (rule pair_match.select_later_best [OF creation_score_eq])
  then have "mints_lp ev (evs ! j)" by (simp add: best_later_def)
  with best b have "net_creation (event_pool ev) token0 token1 (incoming_alkanes ev) (returned_alkanes (evs ! j)) \<noteq> None"
    by (auto simp: net_creation_def saturating_sub_0 mints_lp_def Let_def)
  with assms j show ?thesis by (auto simp: detect_creation_at_def Let_def)
qed

lemma creation_rows_in:
  assumes "r \<in> set (creation_rows decoded height results)"
  obtains tx i ev pc v where "tx \<in> set results" "(i, ev) \<in> set (enumerate 0 (order_events (bt_events tx)))"
    "detect_creation_at (order_events (bt_events tx)) (i, ev) = Some (pc, v)"
    "r = creation_row_of decoded height tx (pc, v)"
  using assms
  by (fastforce simp: creation_rows_def detect_pool_creations_for_tx_def Let_def set_map_filter)

lemma creation_rows_txids:
  "r \<in> set (creation_rows decoded height results) \<Longrightarrow> cr_txid r \<in> set (map bt_txid results)"
  by (erule creation_rows_in) (simp add: creation_row_of_def)

lemma index_pool_creations_cases:
  assumes "index_pool_creations_for_block height results s = (r, s')"
  shows "sdb s' = sdb s \<and> (\<forall>rows. r = Inr rows \<longrightarrow> (\<exists>decoded.
    get_decoded_protostones_by_txid_vout (map bt_txid results) (sdb s) = Inr (decoded, sdb s) \<and>
    rows = creation_rows decoded height results))"
  using assms unfolding index_pool_creations_for_block_def
  by (cases rule: with_decoded_cases) (auto simp: act_return_def)

lemma preserves_index_pool_creations:
  "preserves (\<lambda>s. schema_ok (sdb s)) (index_pool_creations_for_block height results)"
  unfolding index_pool_creations_for_block_def
  by (intro preserves_with_decoded preserves_return)

subsection \<open>Properties\<close>

definition example_create :: "json list" where
  "example_create =
     [return_json 3 ''success'' [alkane_json (2, 10) 50, alkane_json (2, 0) 1],
      return_json 3 ''success'' [alkane_json (2, 10) 60],
      delegate_json 3 (2, 10) [''0x0''] [alkane_json (2, 0) 100, alkane_json (32, 0) 7]]"

lemma order_example_create:
  "order_events example_create =
     [delegate_json 3 (2, 10) [''0x0''] [alkane_json (2, 0) 100, alkane_json (32, 0) 7],
      return_json 3 ''success'' [alkane_json (2, 10) 50, alkane_json (2, 0) 1],
      return_json 3 ''success'' [alkane_json (2, 10) 60]]"
  by (simp add: order_events_def example_create_def sort_by_def event_cmp_def vout_or_min_def
      event_weight_def delegate_json_def return_json_def event_defs compare_def as_i64_json_of_i32)

lemmas create_eval = detect_pool_creations_for_tx_def order_example_create detect_creation_at_def
  json_simps Let_def List.map_filter_simps select_later_def select_best_def select_step_def
  creation_score_def net_creation_def saturating_sub_def pair_better_def saturating_add_def

text \<open>
  C12: every detected pool creation belongs to a create invoke and to the best later return that
  mints LP on its \<open>vout\<close> (least token outs, latest on a tie); its tokens are, in this order, the
  first two different ones that the invoke brings in besides the pool's own, and its amounts are
  the positive differences between what went in and out.
\<close>

theorem detected_creation_correct:
  assumes "(pc, v) \<in> set (detect_pool_creations_for_tx events)"
  shows "\<exists>i ev j. i < length (order_events events) \<and> ev = order_events events ! i \<and>
    is_delegate_invoke_create ev \<and> v = invoke_vout ev \<and>
    dc_pool pc = event_pool ev \<and> dc_token0 pc \<noteq> dc_token1 pc \<and>
    dc_token0 pc \<noteq> dc_pool pc \<and> dc_token1 pc \<noteq> dc_pool pc \<and>
    (\<exists>ys zs. non_lp_ids (dc_pool pc) (incoming_alkanes ev) = dc_token0 pc # ys @ dc_token1 pc # zs \<and>
       set ys \<subseteq> {dc_token0 pc}) \<and>
    best_later (mints_lp ev) (pair_outs (dc_token0 pc) (dc_token1 pc)) i (order_events events) j \<and>
    (let t0_in = token_total (incoming_alkanes ev) (dc_token0 pc);
         t1_in = token_total (incoming_alkanes ev) (dc_token1 pc);
         lp_in = token_total (incoming_alkanes ev) (dc_pool pc);
         out = returned_alkanes (order_events events ! j);
         t0_out = token_total out (dc_token0 pc); t1_out = token_total out (dc_token1 pc);
         lp_out = token_total out (dc_pool pc)
     in t0_out < t0_in \<and> t1_out < t1_in \<and> lp_in < lp_out \<and>
        dc_amount0 pc = to_string (t0_in - t0_out) \<and> dc_amount1 pc = to_string (t1_in - t1_out) \<and>
        dc_supply pc = to_string (lp_out - lp_in))"
proof -
  from assms obtain i ev where i: "(i, ev) \<in> set (enumerate 0 (order_events events))"
    and det: "detect_creation_at (order_events events) (i, ev) = Some (pc, v)"
    by (auto simp: detect_pool_creations_for_tx_def Let_def set_map_filter)
  from i have ev: "i < length (order_events events)" "ev = order_events events ! i"
    by (auto simp: in_set_enumerate_eq)
  from det show ?thesis
  proof (rule detect_creation_cases)
    fix rest j
    assume "is_delegate_invoke_create ev" "v = invoke_vout ev"
      and ids: "push_non_lp_ids (event_pool ev) (incoming_alkanes ev) [] = dc_token0 pc # dc_token1 pc # rest"
      and "best_later (mints_lp ev) (pair_outs (dc_token0 pc) (dc_token1 pc)) i (order_events events) j"
      and net: "net_creation (event_pool ev) (dc_token0 pc) (dc_token1 pc) (incoming_alkanes ev)
             (returned_alkanes (order_events events ! j)) = Some pc"
    with ev(1) push_non_lp_ids_distinct [OF ids] push_non_lp_ids_first_two [OF ids] net_creation_fields(1,4-) [OF net]
    show ?thesis
      by (intro exI [of _ i] exI [of _ ev] exI [of _ j]) (simp add: Let_def ev(2) [symmetric])
  qed
qed

lemma detected_creation_correct_witness:
  "\<exists>pc. (pc, 3) \<in> set (detect_pool_creations_for_tx example_create) \<and>
     dc_supply pc = to_string (60 :: u128) \<and> dc_token0 pc \<noteq> dc_token1 pc"
proof -
  obtain pc where pc: "detect_pool_creations_for_tx example_create = [(pc, 3)]"
    and "dc_supply pc = to_string (60 :: u128)"
    by (simp add: create_eval)
  moreover have "(pc, 3) \<in> set (detect_pool_creations_for_tx example_create)" by (simp add: pc)
  from detected_creation_correct [OF this] have "dc_token0 pc \<noteq> dc_token1 pc" by blast
  ultimately show ?thesis by auto
qed

text \<open>
  An invoke is recorded as a pool creation exactly when it is a create delegatecall of a
  named pool, brings at least two tokens other than the pool's LP token in, is followed by a
  return on its \<open>vout\<close> that mints LP, and the best such return keeps some of both tokens.
\<close>

theorem detect_creation_iff:
  "detect_creation_at evs (i, ev) \<noteq> None \<longleftrightarrow>
     is_event ''invoke'' ev \<and> is_delegate_invoke_create ev \<and> \<not> no_pool (event_pool ev) \<and>
     (\<exists>token0 token1 rest j.
        push_non_lp_ids (event_pool ev) (incoming_alkanes ev) [] = token0 # token1 # rest \<and>
        best_later (mints_lp ev) (pair_outs token0 token1) i evs j \<and>
        token_total (returned_alkanes (evs ! j)) token0 < token_total (incoming_alkanes ev) token0 \<and>
        token_total (returned_alkanes (evs ! j)) token1 < token_total (incoming_alkanes ev) token1)"
    (is "?lhs \<longleftrightarrow> ?rhs")
proof
  assume ?lhs
  then obtain pc v where det: "detect_creation_at evs (i, ev) = Some (pc, v)" by auto
  then have "is_event ''invoke'' ev" by (auto simp: detect_creation_at_def split: if_splits)
  from det this show ?rhs
    by (elim detect_creation_cases) (auto simp: net_creation_Some)
next
  assume rhs: ?rhs
  then obtain token0 token1 rest j where
    ids: "push_non_lp_ids (event_pool ev) (incoming_alkanes ev) [] = token0 # token1 # rest"
    and best: "best_later (mints_lp ev) (pair_outs token0 token1) i evs j"
    and net: "token_total (returned_alkanes (evs ! j)) token0 < token_total (incoming_alkanes ev) token0"
      "token_total (returned_alkanes (evs ! j)) token1 < token_total (incoming_alkanes ev) token1"
    by blast
  have j: "i < j" "j < length evs" "mints_lp ev (evs ! j)" using best by (simp_all add: best_later_def)
  show ?lhs
  proof (rule detect_creation_complete [OF _ _ _ ids _ j])
    show "\<forall>j. best_later (mints_lp ev) (pair_outs token0 token1) i evs j \<longrightarrow>
      token_total (returned_alkanes (evs ! j)) token0 < token_total (incoming_alkanes ev) token0 \<and>
      token_total (returned_alkanes (evs ! j)) token1 < token_total (incoming_alkanes ev) token1"
      using net best_later_unique [OF best] by auto
  qed (use rhs in auto)
qed

text \<open>
  Storing the creations of a block succeeds exactly when the constraints of \<open>PoolCreation\<close>
  hold for the resulting table: every created pool is in \<open>Pool\<close> and no pool is created twice,
  also not in a transaction outside the block; otherwise nothing is stored.
\<close>

theorem replace_pool_creations_constraint:
  assumes "pool_creation_ok d" "rows \<noteq> []" "\<forall>r \<in> set rows. cr_txid r \<in> set txids"
  shows "replace_pool_creations txids rows d =
    (if (\<forall>r \<in> set rows. cr_pool r \<in> set (map pl_pool (pools d))) \<and> distinct (map cr_pool rows) \<and>
        (\<forall>r \<in> set rows. \<forall>r' \<in> set (pool_creations d). cr_txid r' \<notin> set txids \<longrightarrow> cr_pool r \<noteq> cr_pool r')
     then Inr ((), pool_creations_update (\<lambda>t. filter (\<lambda>r. cr_txid r \<notin> set txids) t @ rows) d)
     else Inl (anyhow ''PoolCreation constraint''))"
proof -
  have "distinct (map cr_pool (filter P (pool_creations d)))" for P
    using assms(1) by (auto simp: pool_creation_ok_def intro: distinct_map_filter)
  then have "pool_creation_ok (with_rows pool_creations_update cr_txid txids rows d) \<longleftrightarrow>
      (\<forall>r \<in> set rows. cr_pool r \<in> set (map pl_pool (pools d))) \<and> distinct (map cr_pool rows) \<and>
      (\<forall>r \<in> set rows. \<forall>r' \<in> set (pool_creations d). cr_txid r' \<notin> set txids \<longrightarrow> cr_pool r \<noteq> cr_pool r')"
    using assms(1) by (simp add: pool_creation_ok_def with_rows_def list_all_iff Int_emptyI disjoint_maps) blast
  with replace_pool_creations_eq [OF assms(2), of txids d] show ?thesis
    by (simp only: with_rows_def)
qed

definition example_creation :: creation_row where
  "example_creation = \<lparr>cr_txid = ''t'', cr_height = 5, cr_index = 0, cr_pool = id_text (2, 10),
     cr_token0 = id_text (2, 0), cr_token1 = id_text (32, 0), cr_amount0 = ''1'', cr_amount1 = ''1'',
     cr_supply = ''1'', cr_creator = None, cr_time = 0\<rparr>"

lemma replace_pool_creations_constraint_witness:
  "replace_pool_creations [''t''] [example_creation] empty_db = Inl (anyhow ''PoolCreation constraint'')"
  using replace_pool_creations_constraint [of empty_db "[example_creation]" "[''t'']"]
  by (simp add: pool_creation_ok_def example_creation_def empty_db_def)

lemma index_pool_creations_result:
  "case index_pool_creations_for_block height results s of
     (Inl e, s') \<Rightarrow> sdb s' = sdb s
   | (Inr rows, s') \<Rightarrow> sdb s' = sdb s \<and>
       (\<exists>decoded. get_decoded_protostones_by_txid_vout (map bt_txid results) (sdb s) = Inr (decoded, sdb s) \<and>
          rows = creation_rows decoded height results)"
proof -
  obtain r s' where run: "index_pool_creations_for_block height results s = (r, s')" by (rule prod.exhaust)
  from run [unfolded index_pool_creations_for_block_def] show ?thesis
    by (cases rule: with_decoded_cases) (use run in \<open>auto simp: act_return_def\<close>)
qed

end
