(* ===== verification/Pool_Mint.thy ===== *)
theory Pool_Mint
  imports Pool_Events
begin

text \<open>
  \<open>src/helpers/poolmint.rs\<close>: every delegatecall invoke with opcode 1 on a known pool gives one
  row; it is successful when a later return on its \<open>vout\<close> mints LP and keeps some of both
  tokens, and then it records the net amounts of the best such return.
\<close>

subsection \<open>Definitions\<close>

definition mint_score ::
  "i64 \<Rightarrow> alkane_id \<Rightarrow> alkane_id \<Rightarrow> alkane_id \<Rightarrow> json list \<Rightarrow> json \<Rightarrow> (u128 \<times> u128) option" where
  "mint_score vout pool token0 token1 incoming ev =
     (if \<not> is_return_on vout ev then None
      else let outgoing = returned_alkanes ev
        in if token_total outgoing pool \<le> token_total incoming pool then None
           else let t0_out = token_total outgoing token0; t1_out = token_total outgoing token1;
                    t0_net = saturating_sub (token_total incoming token0) t0_out;
                    t1_net = saturating_sub (token_total incoming token1) t1_out
             in if t0_net = 0 \<or> t1_net = 0 then None else Some (t0_out, t1_out))"

definition mint_row_at ::
  "decoded_map \<Rightarrow> token_map \<Rightarrow> i32 \<Rightarrow> block_tx \<Rightarrow> json list \<Rightarrow> nat \<times> json \<Rightarrow> liquidity_row option" where
  "mint_row_at decoded tokens height tx ordered iev =
     (case iev of (i, ev) \<Rightarrow>
      if \<not> is_event ''invoke'' ev \<or> \<not> is_delegate_invoke_mint ev \<or> no_pool (event_pool ev) then None
      else (case tokens (event_pool ev) of
          None \<Rightarrow> None
        | Some (token0, token1) \<Rightarrow>
            let pool = event_pool ev; vout = invoke_vout ev; incoming = incoming_alkanes ev;
                chosen = select_later pair_better (mint_score vout pool token0 token1 incoming)
                           (-1, -1) i ordered;
                outgoing = chosen_alkanes chosen ordered;
                amount0 = saturating_sub (token_total incoming token0) (token_total outgoing token0);
                amount1 = saturating_sub (token_total incoming token1) (token_total outgoing token1);
                lp = saturating_sub (token_total outgoing pool) (token_total incoming pool);
                ok = chosen \<noteq> None \<and> 0 < amount0 \<and> 0 < amount1 \<and> 0 < lp
            in Some \<lparr>lq_txid = bt_txid tx, lq_height = height, lq_index = bt_index tx, lq_pool = pool,
                 lq_lp_amount = (if ok then to_string lp else ''0''),
                 lq_token0 = token0, lq_token1 = token1,
                 lq_amount0 = (if ok then to_string amount0 else ''0''),
                 lq_amount1 = (if ok then to_string amount1 else ''0''),
                 lq_address = pointer_address decoded (bt_txid tx) vout,
                 lq_time = bt_time tx, lq_successful = ok\<rparr>))"

definition mint_rows :: "decoded_map \<Rightarrow> token_map \<Rightarrow> i32 \<Rightarrow> block_tx list \<Rightarrow> liquidity_row list" where
  "mint_rows decoded tokens height results =
     concat (map (\<lambda>tx. let ordered = order_events (bt_events tx)
        in List.map_filter (mint_row_at decoded tokens height tx ordered) (enumerate 0 ordered)) results)"

text \<open>Nothing is written, and nothing deleted, when the block has no mint row.\<close>

definition index_pool_mints_for_block ::
  "i32 \<Rightarrow> block_tx list \<Rightarrow> (unit, 'z session_scheme) act" where
  "index_pool_mints_for_block height results =
     with_block_data is_delegate_invoke_mint results (\<lambda>decoded tokens.
       let rows = mint_rows decoded tokens height results
       in act_when (rows \<noteq> []) (exec (replace_pool_mints (map bt_txid results) rows)))"

subsection \<open>Which returns count\<close>

definition mint_pays :: "json \<Rightarrow> alkane_id \<Rightarrow> alkane_id \<Rightarrow> json \<Rightarrow> bool" where
  "mint_pays ev token0 token1 ret \<longleftrightarrow>
     is_return_on (invoke_vout ev) ret \<and>
     token_total (incoming_alkanes ev) (event_pool ev) < token_total (returned_alkanes ret) (event_pool ev) \<and>
     token_total (returned_alkanes ret) token0 < token_total (incoming_alkanes ev) token0 \<and>
     token_total (returned_alkanes ret) token1 < token_total (incoming_alkanes ev) token1"

lemma mint_score_eq:
  "mint_score (invoke_vout ev) (event_pool ev) token0 token1 (incoming_alkanes ev) ret =
     (if mint_pays ev token0 token1 ret then Some (pair_outs token0 token1 ret) else None)"
  by (auto simp: mint_score_def mint_pays_def pair_outs_def Let_def saturating_sub_0 not_le)

lemma mint_rows_txids: "r \<in> set (mint_rows decoded tokens height results) \<Longrightarrow> lq_txid r \<in> set (map bt_txid results)"
  by (auto simp: mint_rows_def Let_def set_map_filter mint_row_at_def split: if_splits option.splits)

lemma preserves_index_pool_mints:
  "preserves (\<lambda>s. schema_ok (sdb s)) (index_pool_mints_for_block height results)"
  unfolding index_pool_mints_for_block_def Let_def
  by (intro preserves_with_block_data preserves_when preserves_exec keeps_replace_events)

subsection \<open>Properties\<close>

definition mint_candidate :: "token_map \<Rightarrow> json \<Rightarrow> bool" where
  "mint_candidate tokens ev \<longleftrightarrow>
     is_event ''invoke'' ev \<and> is_delegate_invoke_mint ev \<and> \<not> no_pool (event_pool ev) \<and> tokens (event_pool ev) \<noteq> None"

text \<open>
  C13: a mint invoke of a known pool always gives a row; the row is successful exactly when a later
  return on its \<open>vout\<close> pays LP out and keeps some of both tokens, and then it records the
  exact net amounts of the best such return (least token outs, latest on a tie); otherwise it
  records zeros.
\<close>

theorem mint_row_correct:
  assumes "mint_row_at decoded tokens height tx ordered (i, ev) = Some row"
  shows "tokens (event_pool ev) = Some (lq_token0 row, lq_token1 row) \<and> lq_pool row = event_pool ev \<and>
    lq_successful row = (\<exists>k. i < k \<and> k < length ordered \<and> mint_pays ev (lq_token0 row) (lq_token1 row) (ordered ! k)) \<and>
    (if lq_successful row
     then \<exists>j. best_later (mint_pays ev (lq_token0 row) (lq_token1 row)) (pair_outs (lq_token0 row) (lq_token1 row)) i ordered j \<and>
       (let incoming = incoming_alkanes ev; outgoing = returned_alkanes (ordered ! j) in
        lq_amount0 row = to_string (token_total incoming (lq_token0 row) - token_total outgoing (lq_token0 row)) \<and>
        lq_amount1 row = to_string (token_total incoming (lq_token1 row) - token_total outgoing (lq_token1 row)) \<and>
        lq_lp_amount row = to_string (token_total outgoing (event_pool ev) - token_total incoming (event_pool ev)))
     else lq_amount0 row = ''0'' \<and> lq_amount1 row = ''0'' \<and> lq_lp_amount row = ''0'')"
proof -
  from assms obtain token0 token1 where tokens: "tokens (event_pool ev) = Some (token0, token1)"
    by (auto simp: mint_row_at_def split: if_splits option.splits)
  define chosen where "chosen = select_later pair_better
    (mint_score (invoke_vout ev) (event_pool ev) token0 token1 (incoming_alkanes ev)) (-1, -1) i ordered"
  have sel: "case chosen of None \<Rightarrow> \<forall>k. i < k \<and> k < length ordered \<longrightarrow> \<not> mint_pays ev token0 token1 (ordered ! k)
     | Some j \<Rightarrow> best_later (mint_pays ev token0 token1) (pair_outs token0 token1) i ordered j"
    unfolding chosen_def by (rule pair_match.select_later_cases) (rule mint_score_eq)
  show ?thesis
  proof (cases chosen)
    case None
    with assms tokens sel show ?thesis
      by (auto simp: mint_row_at_def Let_def chosen_def [symmetric] split: if_splits)
  next
    case (Some j)
    then have best: "best_later (mint_pays ev token0 token1) (pair_outs token0 token1) i ordered j"
      using sel by simp
    then have j: "i < j" "j < length ordered" "mint_pays ev token0 token1 (ordered ! j)"
      by (simp_all add: best_later_def)
    with assms tokens Some have row: "lq_successful row" "lq_token0 row = token0" "lq_token1 row = token1"
      "lq_pool row = event_pool ev"
      "lq_amount0 row = to_string (saturating_sub (token_total (incoming_alkanes ev) token0) (token_total (returned_alkanes (ordered ! j)) token0))"
      "lq_amount1 row = to_string (saturating_sub (token_total (incoming_alkanes ev) token1) (token_total (returned_alkanes (ordered ! j)) token1))"
      "lq_lp_amount row = to_string (saturating_sub (token_total (returned_alkanes (ordered ! j)) (event_pool ev)) (token_total (incoming_alkanes ev) (event_pool ev)))"
      by (auto simp: mint_row_at_def Let_def chosen_def [symmetric] chosen_alkanes_def saturating_sub_pos
          mint_pays_def split: if_splits)
    show ?thesis using j best tokens by (auto simp: row Let_def mint_pays_def saturating_sub_less)
  qed
qed

definition example_mint :: "block_tx" where
  "example_mint = tx_with ''t''
     [delegate_json 3 (2, 10) [''0x1''] [alkane_json (2, 0) 100, alkane_json (32, 0) 7],
      return_json 3 ''success'' [alkane_json (2, 10) 50, alkane_json (2, 0) 1]]"

lemmas mint_eval = mint_row_at_def example_mint_def example_tokens_def json_simps Let_def select_later_def
  select_best_def select_step_def mint_score_def saturating_sub_def saturating_add_def chosen_alkanes_def

lemma mint_row_correct_witness:
  "\<exists>row. mint_row_at (\<lambda>_. None) example_tokens 5 example_mint (bt_events example_mint) (example_invoke example_mint) = Some row \<and>
     lq_successful row \<and> lq_amount0 row = to_string (99 :: u128) \<and> lq_pool row = id_text (2, 10)"
proof -
  obtain row where row: "mint_row_at (\<lambda>_. None) example_tokens 5 example_mint (bt_events example_mint) (example_invoke example_mint) = Some row"
    and "lq_successful row \<and> lq_amount0 row = to_string (99 :: u128)"
    by (simp add: mint_eval)
  moreover have "lq_pool row = id_text (2, 10)"
    using mint_row_correct [OF row] by (simp add: example_mint_def json_simps)
  ultimately show ?thesis by blast
qed

text \<open>
  The mint rows of a block are as many as its mint invokes on pools with known tokens,
  whether the mints succeed or fail.
\<close>

theorem mint_rows_one_per_invoke:
  "length (mint_rows decoded tokens height results) =
     length (filter (mint_candidate tokens) (concat (map (\<lambda>tx. order_events (bt_events tx)) results)))"
proof (induction results)
  case (Cons tx results)
  have "mint_row_at decoded tokens height tx evs iev \<noteq> None \<longleftrightarrow> mint_candidate tokens (snd iev)" for evs iev
    by (auto simp: mint_row_at_def mint_candidate_def Let_def split: prod.split option.split)
  then have "length (List.map_filter (mint_row_at decoded tokens height tx evs) (enumerate 0 evs)) =
      length (filter (mint_candidate tokens) evs)" for evs
    by (simp only: length_map_filter length_filter_enumerate)
  with Cons show ?case by (simp add: mint_rows_def Let_def)
qed (simp add: mint_rows_def)

lemma index_pool_mints_result:
  "case index_pool_mints_for_block height results s of
     (Inl e, s') \<Rightarrow> sdb s' = sdb s
   | (Inr u, s') \<Rightarrow> \<exists>decoded tokens. block_data is_delegate_invoke_mint results (sdb s) decoded tokens \<and>
       sdb s' = pool_mints_update (stored_rows lq_txid (map bt_txid results)
         (mint_rows decoded tokens height results)) (sdb s)"
proof -
  obtain r s' where run: "index_pool_mints_for_block height results s = (r, s')" by (rule prod.exhaust)
  from run [unfolded index_pool_mints_for_block_def] show ?thesis
  proof (cases rule: with_block_data_cases)
    case (failed e)
    with run show ?thesis by simp
  next
    case (body decoded tokens s2)
    from mint_store.store_if_any [OF body(3) [unfolded Let_def]] body(1,2) run show ?thesis
      by (cases r) auto
  qed
qed

text \<open>
  Indexing the mints of a block replaces the mint rows of its transactions when the block has
  some, but leaves the old rows of these transactions in place when it has none; nothing else
  changes, and a failure changes nothing.
\<close>

theorem index_pool_mints_effect:
  "case index_pool_mints_for_block height results s of
     (Inl e, s') \<Rightarrow> sdb s' = sdb s
   | (Inr u, s') \<Rightarrow> \<exists>decoded tokens. block_data is_delegate_invoke_mint results (sdb s) decoded tokens \<and>
       sdb s' = pool_mints_update (stored_rows lq_txid (map bt_txid results)
         (mint_rows decoded tokens height results)) (sdb s)"
  by (rule index_pool_mints_result)

end
