(* ===== verification/Pool_Burn.thy ===== *)
theory Pool_Burn
  imports Pool_Events
begin

text \<open>
  \<open>src/helpers/poolburn.rs\<close>: every delegatecall invoke with opcode 2 on a known pool gives one
  row; it is successful when it brings LP in and a later return on its \<open>vout\<close> pays a net amount
  of both tokens and keeps some of the LP; it records the net amounts of the best such return,
  the one that hands the least LP back.
\<close>

subsection \<open>Definitions\<close>

definition burn_score ::
  "i64 \<Rightarrow> alkane_id \<Rightarrow> alkane_id \<Rightarrow> alkane_id \<Rightarrow> json list \<Rightarrow> json \<Rightarrow> u128 option" where
  "burn_score vout pool token0 token1 incoming ev =
     (if \<not> is_return_on vout ev then None
      else let outgoing = returned_alkanes ev; incoming_lp = token_total incoming pool;
               lp_out = token_total outgoing pool;
               t0_net_out = saturating_sub (token_total outgoing token0) (token_total incoming token0);
               t1_net_out = saturating_sub (token_total outgoing token1) (token_total incoming token1)
        in if t0_net_out = 0 \<or> t1_net_out = 0 then None
           else if 0 < incoming_lp \<and> incoming_lp \<le> lp_out then None
           else Some lp_out)"

definition burn_row_at ::
  "decoded_map \<Rightarrow> token_map \<Rightarrow> i32 \<Rightarrow> block_tx \<Rightarrow> json list \<Rightarrow> nat \<times> json \<Rightarrow> liquidity_row option" where
  "burn_row_at decoded tokens height tx ordered iev =
     (case iev of (i, ev) \<Rightarrow>
      if \<not> is_event ''invoke'' ev \<or> \<not> is_delegate_invoke_burn ev \<or> no_pool (event_pool ev) then None
      else (case tokens (event_pool ev) of
          None \<Rightarrow> None
        | Some (token0, token1) \<Rightarrow>
            let pool = event_pool ev; vout = invoke_vout ev; incoming = incoming_alkanes ev;
                chosen = select_later lp_better (burn_score vout pool token0 token1 incoming) (-1) i ordered;
                outgoing = chosen_alkanes chosen ordered;
                amount0 = saturating_sub (token_total outgoing token0) (token_total incoming token0);
                amount1 = saturating_sub (token_total outgoing token1) (token_total incoming token1);
                lp = saturating_sub (token_total incoming pool) (token_total outgoing pool);
                ok = chosen \<noteq> None \<and> 0 < amount0 \<and> 0 < amount1 \<and> 0 < lp
            in Some \<lparr>lq_txid = bt_txid tx, lq_height = height, lq_index = bt_index tx, lq_pool = pool,
                 lq_lp_amount = (if ok then to_string lp else ''0''),
                 lq_token0 = token0, lq_token1 = token1,
                 lq_amount0 = (if ok then to_string amount0 else ''0''),
                 lq_amount1 = (if ok then to_string amount1 else ''0''),
                 lq_address = pointer_address decoded (bt_txid tx) vout,
                 lq_time = bt_time tx, lq_successful = ok\<rparr>))"

definition burn_rows :: "decoded_map \<Rightarrow> token_map \<Rightarrow> i32 \<Rightarrow> block_tx list \<Rightarrow> liquidity_row list" where
  "burn_rows decoded tokens height results =
     concat (map (\<lambda>tx. let ordered = order_events (bt_events tx)
        in List.map_filter (burn_row_at decoded tokens height tx ordered) (enumerate 0 ordered)) results)"

text \<open>Nothing is written, and nothing deleted, when the block has no burn row.\<close>

definition index_pool_burns_for_block ::
  "i32 \<Rightarrow> block_tx list \<Rightarrow> (unit, 'z session_scheme) act" where
  "index_pool_burns_for_block height results =
     with_block_data is_delegate_invoke_burn results (\<lambda>decoded tokens.
       let rows = burn_rows decoded tokens height results
       in act_when (rows \<noteq> []) (exec (replace_pool_burns (map bt_txid results) rows)))"

subsection \<open>Which returns count\<close>

definition burn_pays :: "json \<Rightarrow> alkane_id \<Rightarrow> alkane_id \<Rightarrow> json \<Rightarrow> bool" where
  "burn_pays ev token0 token1 ret \<longleftrightarrow>
     is_return_on (invoke_vout ev) ret \<and>
     token_total (incoming_alkanes ev) token0 < token_total (returned_alkanes ret) token0 \<and>
     token_total (incoming_alkanes ev) token1 < token_total (returned_alkanes ret) token1 \<and>
     (token_total (incoming_alkanes ev) (event_pool ev) = 0 \<or>
      token_total (returned_alkanes ret) (event_pool ev) < token_total (incoming_alkanes ev) (event_pool ev))"

definition lp_out :: "alkane_id \<Rightarrow> json \<Rightarrow> u128" where
  "lp_out pool ret = token_total (returned_alkanes ret) pool"

lemma burn_score_eq:
  "burn_score (invoke_vout ev) (event_pool ev) token0 token1 (incoming_alkanes ev) ret =
     (if burn_pays ev token0 token1 ret then Some (lp_out (event_pool ev) ret) else None)"
  by (auto simp: burn_score_def burn_pays_def lp_out_def Let_def saturating_sub_0 not_le word_gt_0)

lemma burn_rows_txids: "r \<in> set (burn_rows decoded tokens height results) \<Longrightarrow> lq_txid r \<in> set (map bt_txid results)"
  by (auto simp: burn_rows_def Let_def set_map_filter burn_row_at_def split: if_splits option.splits)

lemma preserves_index_pool_burns:
  "preserves (\<lambda>s. schema_ok (sdb s)) (index_pool_burns_for_block height results)"
  unfolding index_pool_burns_for_block_def Let_def
  by (intro preserves_with_block_data preserves_when preserves_exec keeps_replace_events)

subsection \<open>Properties\<close>

text \<open>
  The row of a burn invoke is successful exactly when the invoke brings LP in and a later return
  on its \<open>vout\<close> pays a net amount of both tokens and less LP than came in; then it records
  the exact net amounts of the return that hands the least LP back (the latest on a tie);
  otherwise it records zeros.
\<close>

theorem burn_row_correct:
  assumes "burn_row_at decoded tokens height tx ordered (i, ev) = Some row"
  shows "tokens (event_pool ev) = Some (lq_token0 row, lq_token1 row) \<and> lq_pool row = event_pool ev \<and>
    lq_successful row = (0 < token_total (incoming_alkanes ev) (event_pool ev) \<and>
      (\<exists>k. i < k \<and> k < length ordered \<and> burn_pays ev (lq_token0 row) (lq_token1 row) (ordered ! k))) \<and>
    (if lq_successful row
     then \<exists>j. best_later (burn_pays ev (lq_token0 row) (lq_token1 row)) (lp_out (event_pool ev)) i ordered j \<and>
       (let incoming = incoming_alkanes ev; outgoing = returned_alkanes (ordered ! j) in
        lq_amount0 row = to_string (token_total outgoing (lq_token0 row) - token_total incoming (lq_token0 row)) \<and>
        lq_amount1 row = to_string (token_total outgoing (lq_token1 row) - token_total incoming (lq_token1 row)) \<and>
        lq_lp_amount row = to_string (token_total incoming (event_pool ev) - token_total outgoing (event_pool ev)))
     else lq_amount0 row = ''0'' \<and> lq_amount1 row = ''0'' \<and> lq_lp_amount row = ''0'')"
proof -
  from assms obtain token0 token1 where tokens: "tokens (event_pool ev) = Some (token0, token1)"
    by (auto simp: burn_row_at_def split: if_splits option.splits)
  define chosen where "chosen = select_later lp_better
    (burn_score (invoke_vout ev) (event_pool ev) token0 token1 (incoming_alkanes ev)) (-1) i ordered"
  have sel: "case chosen of None \<Rightarrow> \<forall>k. i < k \<and> k < length ordered \<longrightarrow> \<not> burn_pays ev token0 token1 (ordered ! k)
     | Some j \<Rightarrow> best_later (burn_pays ev token0 token1) (lp_out (event_pool ev)) i ordered j"
    unfolding chosen_def by (rule lp_match.select_later_cases) (rule burn_score_eq)
  show ?thesis
  proof (cases chosen)
    case None
    with assms tokens sel show ?thesis
      by (auto simp: burn_row_at_def Let_def chosen_def [symmetric] split: if_splits)
  next
    case (Some j)
    then have best: "best_later (burn_pays ev token0 token1) (lp_out (event_pool ev)) i ordered j"
      using sel by simp
    then have j: "i < j" "j < length ordered" "burn_pays ev token0 token1 (ordered ! j)"
      by (simp_all add: best_later_def)
    with assms tokens Some have row: "lq_token0 row = token0" "lq_token1 row = token1" "lq_pool row = event_pool ev"
      "lq_successful row \<longleftrightarrow> 0 < token_total (incoming_alkanes ev) (event_pool ev)"
      "lq_amount0 row = (if lq_successful row
         then to_string (saturating_sub (token_total (returned_alkanes (ordered ! j)) token0) (token_total (incoming_alkanes ev) token0)) else ''0'')"
      "lq_amount1 row = (if lq_successful row
         then to_string (saturating_sub (token_total (returned_alkanes (ordered ! j)) token1) (token_total (incoming_alkanes ev) token1)) else ''0'')"
      "lq_lp_amount row = (if lq_successful row
         then to_string (saturating_sub (token_total (incoming_alkanes ev) (event_pool ev)) (token_total (returned_alkanes (ordered ! j)) (event_pool ev))) else ''0'')"
      by (auto simp: burn_row_at_def Let_def chosen_def [symmetric] chosen_alkanes_def saturating_sub_pos
          burn_pays_def intro: word_pos_of_less split: if_splits)
    show ?thesis using j best tokens by (auto simp: row Let_def burn_pays_def saturating_sub_less)
  qed
qed

definition example_burn :: "block_tx" where
  "example_burn = tx_with ''t''
     [delegate_json 3 (2, 10) [''0x2''] [alkane_json (2, 10) 50],
      return_json 3 ''success'' [alkane_json (2, 0) 100, alkane_json (32, 0) 7]]"

lemmas burn_eval = burn_row_at_def example_burn_def example_tokens_def json_simps Let_def select_later_def
  select_best_def select_step_def burn_score_def saturating_sub_def saturating_add_def chosen_alkanes_def

lemma burn_row_correct_witness:
  "\<exists>row. burn_row_at (\<lambda>_. None) example_tokens 5 example_burn (bt_events example_burn) (example_invoke example_burn) = Some row \<and>
     lq_successful row \<and> lq_lp_amount row = to_string (50 :: u128) \<and> lq_pool row = id_text (2, 10)"
proof -
  obtain row where row: "burn_row_at (\<lambda>_. None) example_tokens 5 example_burn (bt_events example_burn) (example_invoke example_burn) = Some row"
    and "lq_successful row \<and> lq_lp_amount row = to_string (50 :: u128)"
    by (simp add: burn_eval)
  moreover have "lq_pool row = id_text (2, 10)"
    using burn_row_correct [OF row] by (simp add: example_burn_def json_simps)
  ultimately show ?thesis by blast
qed

lemma index_pool_burns_result:
  "case index_pool_burns_for_block height results s of
     (Inl e, s') \<Rightarrow> sdb s' = sdb s
   | (Inr u, s') \<Rightarrow> \<exists>decoded tokens. block_data is_delegate_invoke_burn results (sdb s) decoded tokens \<and>
       sdb s' = pool_burns_update (stored_rows lq_txid (map bt_txid results)
         (burn_rows decoded tokens height results)) (sdb s)"
proof -
  obtain r s' where run: "index_pool_burns_for_block height results s = (r, s')" by (rule prod.exhaust)
  from run [unfolded index_pool_burns_for_block_def] show ?thesis
  proof (cases rule: with_block_data_cases)
    case (failed e)
    with run show ?thesis by simp
  next
    case (body decoded tokens s2)
    from burn_store.store_if_any [OF body(3) [unfolded Let_def]] body(1,2) run show ?thesis
      by (cases r) auto
  qed
qed

text \<open>
  Indexing the burns of a block replaces the burn rows of its transactions when the block has
  some, but leaves the old rows of these transactions in place when it has none; nothing else
  changes, and a failure changes nothing.
\<close>

theorem index_pool_burns_effect:
  "case index_pool_burns_for_block height results s of
     (Inl e, s') \<Rightarrow> sdb s' = sdb s
   | (Inr u, s') \<Rightarrow> \<exists>decoded tokens. block_data is_delegate_invoke_burn results (sdb s) decoded tokens \<and>
       sdb s' = pool_burns_update (stored_rows lq_txid (map bt_txid results)
         (burn_rows decoded tokens height results)) (sdb s)"
  by (rule index_pool_burns_result)

end
