(* ===== verification/Subfrost.thy ===== *)
theory Subfrost
  imports Pool_Events
begin

text \<open>
  \<open>src/helpers/subfrost.rs\<close>: calls of the Subfrost contract 32:0 with opcode 77 (wrap) and 78
  (unwrap).  A wrap takes its amount from the first successful later return on its \<open>vout\<close> that
  pays the Subfrost token out, an unwrap subtracts what the first successful later return hands
  back from what came in.
\<close>

subsection \<open>Definitions\<close>

definition first_input :: "json \<Rightarrow> string option" where
  "first_input ev =
     (case jarr_or_empty [''data'', ''context'', ''inputs''] ev of [] \<Rightarrow> None | op # _ \<Rightarrow> as_str op)"

definition is_subfrost_wrap_invoke :: "json \<Rightarrow> bool" where
  "is_subfrost_wrap_invoke ev \<longleftrightarrow>
     is_event ''invoke'' ev \<and>
     (case first_input ev of Some s \<Rightarrow> hex_to_u128 s = Some 77 | None \<Rightarrow> False) \<and>
     event_pool ev = (''32'', ''0'')"

definition is_subfrost_unwrap_invoke :: "json \<Rightarrow> bool" where
  "is_subfrost_unwrap_invoke ev \<longleftrightarrow>
     is_event ''invoke'' ev \<and>
     (case first_input ev of Some s \<Rightarrow> hex_to_u128 s = Some 78 | None \<Rightarrow> False) \<and>
     event_pool ev = (''32'', ''0'')"

definition status_ok :: "json \<Rightarrow> bool" where
  "status_ok ev =
     (case jstr [''data'', ''status''] ev of
        Some s \<Rightarrow> eq_ignore_ascii_case s ''success'' \<or> eq_ignore_ascii_case s ''ok''
      | None \<Rightarrow> False)"

text \<open>The ids are read as hexadecimal strings only, unlike in the pool indexers.\<close>

definition is_frost_id :: "json \<Rightarrow> bool" where
  "is_frost_id i \<longleftrightarrow>
     hex_to_u128 (jstr_or_empty [''block''] i) = Some 0x20 \<and> hex_to_u128 (jstr_or_empty [''tx''] i) = Some 0"

definition add_frost :: "json \<Rightarrow> u128 \<times> bool \<Rightarrow> u128 \<times> bool" where
  "add_frost a st =
     (case st of (amount, found) \<Rightarrow>
      case jget ''id'' a of
        None \<Rightarrow> (amount, found)
      | Some i \<Rightarrow>
          if is_frost_id i
          then (case Option.bind (jget ''value'' a) subfrost_value_u128_from_json of
                  Some v \<Rightarrow> (saturating_add amount v, True)
                | None \<Rightarrow> (amount, found))
          else (amount, found))"

text \<open>\<open>(amount, success)\<close> after the loop over the events that follow the invoke.\<close>

fun wrap_scan :: "i64 \<Rightarrow> u128 \<Rightarrow> json list \<Rightarrow> u128 \<times> bool" where
  "wrap_scan vout amount [] = (amount, False)"
| "wrap_scan vout amount (ev # evs) =
     (if \<not> is_return_on vout ev \<or> \<not> status_ok ev then wrap_scan vout amount evs
      else case fold add_frost (returned_alkanes ev) (amount, False) of
             (amount', success) \<Rightarrow> if success then (amount', True) else wrap_scan vout amount' evs)"

definition frost_row_of ::
  "decoded_map \<Rightarrow> i32 \<Rightarrow> block_tx \<Rightarrow> json \<Rightarrow> u128 \<Rightarrow> bool \<Rightarrow> frost_row" where
  "frost_row_of decoded height tx ev amount success =
     \<lparr>fr_txid = bt_txid tx, fr_height = height, fr_index = bt_index tx,
      fr_address = pointer_address decoded (bt_txid tx) (invoke_vout ev),
      fr_amount = (if success then to_string amount else ''0''), fr_successful = success,
      fr_time = bt_time tx\<rparr>"

definition wrap_row_at ::
  "decoded_map \<Rightarrow> i32 \<Rightarrow> block_tx \<Rightarrow> json list \<Rightarrow> nat \<times> json \<Rightarrow> frost_row option" where
  "wrap_row_at decoded height tx ordered iev =
     (case iev of (i, ev) \<Rightarrow>
      if \<not> is_subfrost_wrap_invoke ev then None
      else (case wrap_scan (invoke_vout ev) 0 (drop (Suc i) ordered) of
              (amount, success) \<Rightarrow> Some (frost_row_of decoded height tx ev amount success)))"

definition unwrap_row_at ::
  "decoded_map \<Rightarrow> i32 \<Rightarrow> block_tx \<Rightarrow> json list \<Rightarrow> nat \<times> json \<Rightarrow> frost_row option" where
  "unwrap_row_at decoded height tx ordered iev =
     (case iev of (i, ev) \<Rightarrow>
      if \<not> is_subfrost_unwrap_invoke ev then None
      else let incoming = fst (fold add_frost (incoming_alkanes ev) (0, False))
        in case find (\<lambda>r. is_return_on (invoke_vout ev) r \<and> status_ok r) (drop (Suc i) ordered) of
             Some r \<Rightarrow>
               let outgoing = fst (fold add_frost (returned_alkanes r) (0, False))
               in Some (frost_row_of decoded height tx ev (saturating_sub incoming outgoing) True)
           | None \<Rightarrow> Some (frost_row_of decoded height tx ev 0 False))"

definition frost_rows ::
  "(block_tx \<Rightarrow> json list \<Rightarrow> nat \<times> json \<Rightarrow> frost_row option) \<Rightarrow> block_tx list \<Rightarrow> frost_row list" where
  "frost_rows row_at results =
     concat (map (\<lambda>tx. let ordered = order_events (bt_events tx)
        in List.map_filter (row_at tx ordered) (enumerate 0 ordered)) results)"

definition index_subfrost_wraps_for_block ::
  "i32 \<Rightarrow> block_tx list \<Rightarrow> (unit, 'z session_scheme) act" where
  "index_subfrost_wraps_for_block height results =
     with_decoded results (\<lambda>decoded.
       let rows = frost_rows (wrap_row_at decoded height) results
       in act_when (rows \<noteq> []) (exec (replace_subfrost_wraps (map bt_txid results) rows)))"

definition index_subfrost_unwraps_for_block ::
  "i32 \<Rightarrow> block_tx list \<Rightarrow> (unit, 'z session_scheme) act" where
  "index_subfrost_unwraps_for_block height results =
     with_decoded results (\<lambda>decoded.
       let rows = frost_rows (unwrap_row_at decoded height) results
       in act_when (rows \<noteq> []) (exec (replace_subfrost_unwraps (map bt_txid results) rows)))"

subsection \<open>The Subfrost amount of a list of alkanes\<close>

definition frost_value :: "json \<Rightarrow> u128 option" where
  "frost_value a =
     (case jget ''id'' a of
        Some i \<Rightarrow> if is_frost_id i then Option.bind (jget ''value'' a) value_u128_from_json else None
      | None \<Rightarrow> None)"

definition frost_total :: "json list \<Rightarrow> u128" where
  "frost_total as = fold (\<lambda>v acc. saturating_add acc v) (List.map_filter frost_value as) 0"

lemma add_frost_eq:
  "add_frost a (amount, found) =
     (case frost_value a of Some v \<Rightarrow> (saturating_add amount v, True) | None \<Rightarrow> (amount, found))"
  by (auto simp: add_frost_def frost_value_def subfrost_value_eq split: option.split)

lemma fold_add_frost:
  "fold add_frost as (amount, found) =
     (fold (\<lambda>v acc. saturating_add acc v) (List.map_filter frost_value as) amount,
      found \<or> list_ex (\<lambda>a. frost_value a \<noteq> None) as)"
  by (induction as arbitrary: amount found)
    (auto simp: add_frost_eq List.map_filter_simps split: option.split)

lemma unat_frost_total:
  "unat (frost_total as) = min (2 ^ 128 - 1) (sum_list (map unat (List.map_filter frost_value as)))"
proof -
  have "unat (fold (\<lambda>v acc. saturating_add acc v) vs a) = min (2 ^ 128 - 1) (unat a + sum_list (map unat vs))"
    for a :: u128 and vs
  proof (induction vs arbitrary: a)
    case Nil
    have "unat a < 2 ^ 128" using unsigned_less [of a] by simp
    then show ?case by simp
  qed (simp add: unat_saturating_add)
  from this [of "List.map_filter frost_value as" 0] show ?thesis by (simp add: frost_total_def)
qed

definition wrap_pays :: "json \<Rightarrow> json \<Rightarrow> bool" where
  "wrap_pays ev ret \<longleftrightarrow>
     is_return_on (invoke_vout ev) ret \<and> status_ok ret \<and>
     list_ex (\<lambda>a. frost_value a \<noteq> None) (returned_alkanes ret)"

lemma wrap_scan_eq:
  "wrap_scan (invoke_vout ev) 0 evs =
     (case find (wrap_pays ev) evs of
        Some r \<Rightarrow> (frost_total (returned_alkanes r), True) | None \<Rightarrow> (0, False))"
proof (induction evs)
  case (Cons r evs)
  have "List.map_filter frost_value (returned_alkanes r) = []" if "\<not> list_ex (\<lambda>a. frost_value a \<noteq> None) (returned_alkanes r)"
    using that by (auto simp: List.map_filter_def list_ex_iff filter_empty_conv)
  then have "fold add_frost (returned_alkanes r) (0, False) =
      (if list_ex (\<lambda>a. frost_value a \<noteq> None) (returned_alkanes r)
       then (frost_total (returned_alkanes r), True) else (0, False))"
    by (simp add: fold_add_frost frost_total_def)
  with Cons show ?case by (simp add: wrap_pays_def)
qed simp

lemma frost_rows_txids:
  assumes "\<And>tx ordered iev r. row_at tx ordered iev = Some r \<Longrightarrow> fr_txid r = bt_txid tx"
  shows "r \<in> set (frost_rows row_at results) \<Longrightarrow> fr_txid r \<in> set (map bt_txid results)"
  using assms by (auto simp: frost_rows_def Let_def set_map_filter)

lemma preserves_index_subfrost:
  "preserves (\<lambda>s. schema_ok (sdb s)) (index_subfrost_wraps_for_block height results)"
  "preserves (\<lambda>s. schema_ok (sdb s)) (index_subfrost_unwraps_for_block height results)"
  unfolding index_subfrost_wraps_for_block_def index_subfrost_unwraps_for_block_def Let_def
  by (intro preserves_with_decoded preserves_when preserves_exec keeps_replace_events)+

subsection \<open>Properties\<close>

definition first_later :: "(json \<Rightarrow> bool) \<Rightarrow> nat \<Rightarrow> json list \<Rightarrow> nat \<Rightarrow> bool" where
  "first_later P i evs j \<longleftrightarrow>
     i < j \<and> j < length evs \<and> P (evs ! j) \<and> (\<forall>k. i < k \<and> k < j \<longrightarrow> \<not> P (evs ! k))"

lemma find_first_later:
  "case find P (drop (Suc i) evs) of
     None \<Rightarrow> \<not> (\<exists>j. first_later P i evs j)
   | Some r \<Rightarrow> \<exists>j. first_later P i evs j \<and> r = evs ! j"
proof (cases "find P (drop (Suc i) evs)")
  case None
  then have "\<forall>j. i < j \<and> j < length evs \<longrightarrow> \<not> P (evs ! j)" by (simp add: find_drop_None Suc_le_eq)
  with None show ?thesis by (auto simp: first_later_def)
next
  case (Some r)
  then obtain j where "Suc i \<le> j" "j < length evs" "r = evs ! j" "P r"
    "\<And>k. Suc i \<le> k \<Longrightarrow> k < j \<Longrightarrow> \<not> P (evs ! k)" by (rule find_drop_Some) blast
  with Some show ?thesis by (auto simp: first_later_def Suc_le_eq)
qed

lemma first_later_unique: "first_later P i evs j \<Longrightarrow> first_later P i evs k \<Longrightarrow> j = k"
  unfolding first_later_def by (metis linorder_neqE_nat)

text \<open>The shape of both correctness proofs: a row read off the first later return.\<close>

lemma first_later_row:
  assumes "case find P (drop (Suc i) evs) of
      None \<Rightarrow> \<not> fr_successful row \<and> fr_amount row = ''0''
    | Some r \<Rightarrow> fr_successful row \<and> fr_amount row = amount r"
  shows "fr_successful row = (\<exists>j. first_later P i evs j) \<and>
    (\<forall>j. first_later P i evs j \<longrightarrow> fr_amount row = amount (evs ! j)) \<and>
    (\<not> fr_successful row \<longrightarrow> fr_amount row = ''0'')"
proof (cases "find P (drop (Suc i) evs)")
  case None
  have "\<not> (\<exists>j. first_later P i evs j)" using find_first_later [of P i evs] None by simp
  with None assms show ?thesis by simp
next
  case (Some r)
  obtain j where j: "first_later P i evs j" "r = evs ! j"
    using find_first_later [of P i evs] Some by auto
  have "fr_amount row = amount (evs ! k)" if "first_later P i evs k" for k
    using first_later_unique [OF j(1) that] j(2) Some assms by simp
  with Some assms j(1) show ?thesis by auto
qed

definition frost_json :: "u128 \<Rightarrow> json" where
  "frost_json v = JObj [(''id'', JObj [(''block'', JStr ''0x20''), (''tx'', JStr ''0x0'')]), (''value'', JStr (to_string v))]"

lemma frost_value_json [json_simps]: "frost_value (frost_json v) = Some v"
  by (simp add: frost_value_def frost_json_def is_frost_id_def json_access_defs hex_eval std_simps
      value_of_dec_string [unfolded to_string_def])

lemma frost_total_json [json_simps]:
  "frost_total [] = 0" "frost_total [frost_json v] = v"
  by (simp_all add: frost_total_def json_simps List.map_filter_simps saturating_add_def)

lemma first_input_json [json_simps]:
  "first_input (delegate_json vout pool (op # inputs) incoming) = Some op"
  "status_ok (return_json vout ''success'' returned)"
  "\<not> status_ok (return_json vout ''failure'' returned)"
  "hex_to_u128 ''0x4d'' = Some 77" "hex_to_u128 ''0x4e'' = Some 78"
  "id_text (32, 0) = (''32'', ''0'')"
  by (simp_all add: first_input_def delegate_json_def status_ok_def return_json_def json_access_defs
      eq_ignore_ascii_case_def to_ascii_lowercase_def lower_char_def hex_eval std_simps id_text_def)

text \<open>
  C14: a wrap row is successful exactly when a later return on the invoke's \<open>vout\<close> has status
  \<open>success\<close> or \<open>ok\<close> and pays the Subfrost token out with a readable value, and then its amount is
  the saturating total that the first such return pays; otherwise its amount is zero.
\<close>

theorem wrap_row_correct:
  assumes "wrap_row_at decoded height tx ordered (i, ev) = Some row"
  shows "is_subfrost_wrap_invoke ev \<and>
    fr_successful row = (\<exists>j. first_later (wrap_pays ev) i ordered j) \<and>
    (\<forall>j. first_later (wrap_pays ev) i ordered j \<longrightarrow>
       fr_amount row = to_string (frost_total (returned_alkanes (ordered ! j)))) \<and>
    (\<not> fr_successful row \<longrightarrow> fr_amount row = ''0'')"
proof -
  from assms have inv: "is_subfrost_wrap_invoke ev" by (auto simp: wrap_row_at_def split: if_splits)
  have "case find (wrap_pays ev) (drop (Suc i) ordered) of
      None \<Rightarrow> \<not> fr_successful row \<and> fr_amount row = ''0''
    | Some r \<Rightarrow> fr_successful row \<and> fr_amount row = to_string (frost_total (returned_alkanes r))"
    using assms inv by (auto simp: wrap_row_at_def wrap_scan_eq frost_row_of_def split: option.splits)
  from inv first_later_row [OF this] show ?thesis by blast
qed

definition example_wrap :: "block_tx" where
  "example_wrap = tx_with ''t''
     [delegate_json 3 (32, 0) [''0x4d''] [], return_json 3 ''failure'' [frost_json 5],
      return_json 3 ''success'' [frost_json 9]]"

lemma wrap_row_correct_witness:
  "\<exists>row. wrap_row_at (\<lambda>_. None) 5 example_wrap (bt_events example_wrap) (example_invoke example_wrap) = Some row \<and>
     fr_successful row \<and> fr_amount row = to_string (9 :: u128)"
proof -
  obtain row where row: "wrap_row_at (\<lambda>_. None) 5 example_wrap (bt_events example_wrap) (example_invoke example_wrap) = Some row"
    by (cases "wrap_scan 3 0 (drop 1 (bt_events example_wrap))")
      (simp add: wrap_row_at_def example_wrap_def is_subfrost_wrap_invoke_def json_simps add_frost_eq)
  have "first_later (wrap_pays (hd (bt_events example_wrap))) 0 (bt_events example_wrap) 2"
    by (auto simp: first_later_def example_wrap_def wrap_pays_def json_simps less_Suc_eq numeral_2_eq_2)
  then show ?thesis
    using wrap_row_correct [OF row] row by (auto simp: example_wrap_def json_simps)
qed

text \<open>
  An unwrap row is successful exactly when a later return on the invoke's \<open>vout\<close> has status
  \<open>success\<close> or \<open>ok\<close>, and then its amount is what the invoke brought in less what the first such
  return hands back (zero when more comes back than went in).
\<close>

theorem unwrap_row_correct:
  assumes "unwrap_row_at decoded height tx ordered (i, ev) = Some row"
  shows "is_subfrost_unwrap_invoke ev \<and>
    fr_successful row = (\<exists>j. first_later (\<lambda>r. is_return_on (invoke_vout ev) r \<and> status_ok r) i ordered j) \<and>
    (\<forall>j. first_later (\<lambda>r. is_return_on (invoke_vout ev) r \<and> status_ok r) i ordered j \<longrightarrow>
       fr_amount row = to_string (saturating_sub (frost_total (incoming_alkanes ev))
                                     (frost_total (returned_alkanes (ordered ! j))))) \<and>
    (\<not> fr_successful row \<longrightarrow> fr_amount row = ''0'')"
proof -
  have total: "fst (fold add_frost as (0, False)) = frost_total as" for as
    by (simp add: fold_add_frost frost_total_def)
  from assms have inv: "is_subfrost_unwrap_invoke ev" by (auto simp: unwrap_row_at_def split: if_splits)
  have "case find (\<lambda>r. is_return_on (invoke_vout ev) r \<and> status_ok r) (drop (Suc i) ordered) of
      None \<Rightarrow> \<not> fr_successful row \<and> fr_amount row = ''0''
    | Some r \<Rightarrow> fr_successful row \<and> fr_amount row =
        to_string (saturating_sub (frost_total (incoming_alkanes ev)) (frost_total (returned_alkanes r)))"
    using assms inv
    by (auto simp: unwrap_row_at_def frost_row_of_def Let_def total split: option.splits)
  from inv first_later_row [OF this] show ?thesis by blast
qed

definition example_unwrap :: "block_tx" where
  "example_unwrap = tx_with ''t''
     [delegate_json 3 (32, 0) [''0x4e''] [frost_json 9], return_json 3 ''success'' [frost_json 2]]"

lemma unwrap_row_correct_witness:
  "\<exists>row. unwrap_row_at (\<lambda>_. None) 5 example_unwrap (bt_events example_unwrap) (example_invoke example_unwrap) = Some row \<and>
     fr_successful row \<and> fr_amount row = to_string (7 :: u128)"
proof -
  obtain row where row: "unwrap_row_at (\<lambda>_. None) 5 example_unwrap (bt_events example_unwrap) (example_invoke example_unwrap) = Some row"
    by (simp add: unwrap_row_at_def example_unwrap_def is_subfrost_unwrap_invoke_def json_simps)
  have "first_later (\<lambda>r. is_return_on 3 r \<and> status_ok r) 0 (bt_events example_unwrap) 1"
    by (simp add: first_later_def example_unwrap_def json_simps)
  then show ?thesis
    using unwrap_row_correct [OF row] row
    by (auto simp: example_unwrap_def json_simps saturating_sub_def)
qed

subsection \<open>The effect of indexing\<close>

lemma index_subfrost_wraps_result:
  "case index_subfrost_wraps_for_block height results s of
     (Inl e, s') \<Rightarrow> sdb s' = sdb s
   | (Inr u, s') \<Rightarrow> \<exists>decoded.
       get_decoded_protostones_by_txid_vout (map bt_txid results) (sdb s) = Inr (decoded, sdb s) \<and>
       sdb s' = subfrost_wraps_update (stored_rows fr_txid (map bt_txid results)
         (frost_rows (wrap_row_at decoded height) results)) (sdb s)"
proof -
  obtain r s' where run: "index_subfrost_wraps_for_block height results s = (r, s')" by (rule prod.exhaust)
  from run [unfolded index_subfrost_wraps_for_block_def] show ?thesis
  proof (cases rule: with_decoded_cases)
    case (failed e)
    with run show ?thesis by simp
  next
    case (body decoded s2)
    from wrap_store.store_if_any [OF body(3) [unfolded Let_def]] body(1,2) run show ?thesis
      by (cases r) auto
  qed
qed

lemma index_subfrost_unwraps_result:
  "case index_subfrost_unwraps_for_block height results s of
     (Inl e, s') \<Rightarrow> sdb s' = sdb s
   | (Inr u, s') \<Rightarrow> \<exists>decoded.
       get_decoded_protostones_by_txid_vout (map bt_txid results) (sdb s) = Inr (decoded, sdb s) \<and>
       sdb s' = subfrost_unwraps_update (stored_rows fr_txid (map bt_txid results)
         (frost_rows (unwrap_row_at decoded height) results)) (sdb s)"
proof -
  obtain r s' where run: "index_subfrost_unwraps_for_block height results s = (r, s')" by (rule prod.exhaust)
  from run [unfolded index_subfrost_unwraps_for_block_def] show ?thesis
  proof (cases rule: with_decoded_cases)
    case (failed e)
    with run show ?thesis by simp
  next
    case (body decoded s2)
    from unwrap_store.store_if_any [OF body(3) [unfolded Let_def]] body(1,2) run show ?thesis
      by (cases r) auto
  qed
qed

end
