(* ===== verification/World.thy ===== *)
theory World
  imports Tables
begin

text \<open>
  The world outside the database: the process environment, the clock, the circuit breaker, the
  redis server and the third-party code (the providers, the bitcoin and hex crates, the
  runestone formatter) as oracles that the environment answers with.  Successive accesses are
  numbered, so that the same request may be answered differently each time.  Actions that the
  program runs concurrently are run one after the other in the order in which the environment
  lets them complete (\<open>completed\<close>), any order being possible.
\<close>

subsection \<open>Combinators\<close>

text \<open>\<open>match action.await { Ok(x) => .., Err(e) => .. }\<close>: a panic is not caught.\<close>

definition act_try :: "('a, 'w) act \<Rightarrow> (string list + 'a, 'w) act" where
  "act_try m w =
     (case m w of
        (Inl (Error chain), w') \<Rightarrow> (Inr (Inl chain), w')
      | (Inl (Panic msg), w') \<Rightarrow> (Inl (Panic msg), w')
      | (Inr x, w') \<Rightarrow> (Inr (Inr x), w'))"

fun act_map :: "('b \<Rightarrow> ('a, 'w) act) \<Rightarrow> 'b list \<Rightarrow> ('a list, 'w) act" where
  "act_map f [] = act_return []"
| "act_map f (x # xs) =
     act_bind (f x) (\<lambda>y. act_bind (act_map f xs) (\<lambda>ys. act_return (y # ys)))"

definition lift_res :: "'a res \<Rightarrow> ('a, 'w) act" where
  "lift_res r w = (r, w)"

definition act_get :: "('w \<Rightarrow> 'a) \<Rightarrow> ('a, 'w) act" where
  "act_get f w = (Inr (f w), w)"

definition act_modify :: "('w \<Rightarrow> 'w) \<Rightarrow> (unit, 'w) act" where
  "act_modify f w = (Inr (), f w)"

definition act_context :: "string \<Rightarrow> ('a, 'w) act \<Rightarrow> ('a, 'w) act" where
  "act_context c m w = (case m w of (r, w') \<Rightarrow> (with_context c r, w'))"

text \<open>\<open>e.to_string()\<close> shows the outermost message.\<close>

definition error_text :: "string list \<Rightarrow> string" where
  "error_text chain = (case chain of [] \<Rightarrow> [] | m # _ \<Rightarrow> m)"

subsection \<open>Third-party code\<close>

text \<open>How a call under \<open>tokio::time::timeout\<close> ends.\<close>

datatype 'a attempt = Answered 'a | Failed string | Timed_out

text \<open>\<open>PoolDetailsResult\<close> of \<open>helpers/pools.rs\<close>.\<close>

record pool_details =
  pd_token0 :: alkane_id
  pd_token1 :: alkane_id
  pd_amount0 :: u128
  pd_amount1 :: u128
  pd_supply :: u128
  pd_name :: string

record provider =
  rpc_answer :: "nat \<Rightarrow> string \<Rightarrow> string \<Rightarrow> json \<Rightarrow> json attempt"
  height_answer :: "nat \<Rightarrow> u64 attempt"
  hash_answer :: "nat \<Rightarrow> u64 \<Rightarrow> string + string"
  tx_hex_answer :: "nat \<Rightarrow> string \<Rightarrow> string attempt"
  transaction_hex_answer :: "nat \<Rightarrow> string \<Rightarrow> string attempt"
  amm_pools_answer :: "nat \<Rightarrow> string \<Rightarrow> alkane_id \<Rightarrow> alkane_id list res"
  amm_details_answer :: "nat \<Rightarrow> string \<Rightarrow> alkane_id \<Rightarrow> string + pool_details"
  bitcoin_rpc_url :: "string option"

text \<open>What the program reads of a \<open>bitcoin::Transaction\<close>, and how
  \<open>format_runestone_with_decoded_messages\<close> under \<open>catch_unwind\<close> ends.\<close>

record transaction =
  tx_outputs :: nat
  tx_computed_id :: string
  tx_raw :: "8 word list"

datatype formatted = Formatted json | Format_error string | Format_panic

record libs =
  hex_decode :: "string \<Rightarrow> 8 word list option"
  hex_encode :: "8 word list \<Rightarrow> string"
  deserialize_tx :: "8 word list \<Rightarrow> transaction option"
  format_runestone :: "transaction \<Rightarrow> formatted"
  trace_exits :: "json \<Rightarrow> string list option"
  utc_timestamp :: "i64 \<Rightarrow> timestamp option"

subsection \<open>The world\<close>

record world = session +
  env_var :: "string \<Rightarrow> string option"
  clock_ms :: u64
  utc_now :: timestamp
  cb_open :: bool
  cb_last_open_ms :: u64
  prov :: provider
  lib :: libs
  calls :: nat
  took_ms :: "nat \<Rightarrow> u64"
  draws :: nat
  random :: "nat \<Rightarrow> u64"
  joins :: nat
  rank :: "nat \<Rightarrow> nat \<Rightarrow> nat"
  redis_calls :: nat
  redis_up :: "nat \<Rightarrow> bool"
  redis_values :: "(string \<times> string) list"
  published :: "(string \<times> string) list"

type_synonym 'a wact = "('a, world) act"

text \<open>A call of the provider takes some time.\<close>

definition provider_call :: "(provider \<Rightarrow> nat \<Rightarrow> 'a) \<Rightarrow> 'a wact" where
  "provider_call ask w =
     (Inr (ask (prov w) (calls w)),
      w\<lparr>calls := Suc (calls w), clock_ms := clock_ms w + took_ms w (calls w)\<rparr>)"

definition sleep_ms :: "u64 \<Rightarrow> unit wact" where
  "sleep_ms d = act_modify (\<lambda>w. w\<lparr>clock_ms := clock_ms w + d\<rparr>)"

text \<open>\<open>fastrand::u64(0..n)\<close> panics on the empty range.\<close>

definition fastrand :: "u64 \<Rightarrow> u64 wact" where
  "fastrand n w =
     (if n = 0 then (Inl (Panic ''empty range: 0..0''), w)
      else (Inr (random w (draws w) mod n), w\<lparr>draws := Suc (draws w)\<rparr>))"

text \<open>\<open>env::var(name).ok().and_then(|s| s.parse().ok()).unwrap_or(default)\<close>\<close>

definition env_num :: "string \<Rightarrow> 'a::len word \<Rightarrow> world \<Rightarrow> 'a word" where
  "env_num name d w = unwrap_or d (Option.bind (env_var w name) (from_str_radix 10))"

text \<open>The order in which concurrent tasks complete: a permutation of the tasks.\<close>

definition completed :: "'a list \<Rightarrow> 'a list wact" where
  "completed xs w =
     (Inr (map snd (sort_key (\<lambda>ix. rank w (joins w) (fst ix)) (enumerate 0 xs))),
      w\<lparr>joins := Suc (joins w)\<rparr>)"

lemma mset_completed: "completed xs w = (r, w') \<Longrightarrow> \<exists>ys. r = Inr ys \<and> mset ys = mset xs"
proof -
  have "mset (map snd (sort_key (\<lambda>ix. rank w (joins w) (fst ix)) (enumerate 0 xs))) =
      mset (map snd (enumerate 0 xs))"
    unfolding mset_map by simp
  then have "mset (map snd (sort_key (\<lambda>ix. rank w (joins w) (fst ix)) (enumerate 0 xs))) = mset xs"
    by (simp only: map_snd_enumerate)
  then show "completed xs w = (r, w') \<Longrightarrow> ?thesis"
    by (auto simp: completed_def simp del: mset_map)
qed

subsection \<open>What an action leaves alone\<close>

definition leaves :: "('w \<Rightarrow> 'x) \<Rightarrow> ('a, 'w) act \<Rightarrow> bool" where
  "leaves g m \<longleftrightarrow> (\<forall>w. g (snd (m w)) = g w)"

lemma leavesD: "leaves g m \<Longrightarrow> m w = (r, w') \<Longrightarrow> g w' = g w"
  unfolding leaves_def by (metis snd_conv)

lemma leaves_return [intro]: "leaves g (act_return x)"
  and leaves_fail [intro]: "leaves g (act_fail e)"
  and leaves_get [intro]: "leaves g (act_get f)"
  by (auto simp: leaves_def act_return_def act_fail_def act_get_def)

lemma leaves_bind [intro]:
  assumes "leaves g m" "\<And>x. leaves g (f x)"
  shows "leaves g (act_bind m f)"
  using assms by (auto simp: leaves_def act_bind_def split: prod.splits sum.splits) (metis snd_conv)+

lemma leaves_try [intro]: "leaves g m \<Longrightarrow> leaves g (act_try m)"
  by (auto simp: leaves_def act_try_def split: prod.splits sum.splits fault.splits) (metis snd_conv)+

lemma leaves_when [intro]: "leaves g m \<Longrightarrow> leaves g (act_when b m)"
  by (auto simp: act_when_def)

lemma leaves_context [intro]: "leaves g m \<Longrightarrow> leaves g (act_context c m)"
  by (simp add: leaves_def act_context_def split_beta)

lemma leaves_map [intro]: "(\<And>x. leaves g (f x)) \<Longrightarrow> leaves g (act_map f xs)"
  by (induction xs) auto

lemma leaves_if: "leaves g m \<Longrightarrow> leaves g n \<Longrightarrow> leaves g (if b then m else n)"
  by simp

lemma preserves_leaves: "leaves g m \<Longrightarrow> preserves (\<lambda>w. P (g w)) m"
  by (simp add: leaves_def preserves_def)

lemma preserves_try [intro]: "preserves P m \<Longrightarrow> preserves P (act_try m)"
  by (auto simp: preserves_def act_try_def split: prod.splits sum.splits fault.splits)

lemma preserves_map [intro]: "(\<And>x. preserves P (f x)) \<Longrightarrow> preserves P (act_map f xs)"
  by (induction xs) auto

lemma leaves_exec_read_only: "read_only m \<Longrightarrow> leaves sdb (exec m)"
  by (simp add: leaves_def exec_read_only)

lemma leaves_published_exec: "leaves published (exec m)"
  and leaves_redis_exec: "leaves redis_values (exec m)"
  by (auto simp: leaves_def exec_def Let_def split: option.splits sum.splits prod.splits)

lemma leaves_outside [intro]:
  "leaves sdb (provider_call ask)" "leaves sdb (sleep_ms d)" "leaves sdb (fastrand n)"
  "leaves sdb (completed xs)"
  "leaves published (provider_call ask)" "leaves published (sleep_ms d)" "leaves published (fastrand n)"
  "leaves published (completed xs)"
  "leaves prov (provider_call ask)" "leaves prov (sleep_ms d)" "leaves prov (fastrand n)"
  "leaves prov (completed xs)"
  "leaves lib (provider_call ask)" "leaves lib (sleep_ms d)" "leaves lib (fastrand n)"
  "leaves lib (completed xs)"
  by (auto simp: leaves_def provider_call_def sleep_ms_def act_modify_def fastrand_def completed_def)

lemma act_map_Inr_length: "act_map f xs w = (Inr ys, w') \<Longrightarrow> length ys = length xs"
  by (induction xs arbitrary: w ys) (auto simp: act_return_def act_bind_Inr)

lemma leaves_lift [intro]: "leaves g (lift_res r)"
  by (simp add: leaves_def lift_res_def)

lemma leaves_case_sum: "(\<And>e. leaves g (f e)) \<Longrightarrow> (\<And>x. leaves g (h x)) \<Longrightarrow> leaves g (case r of Inl e \<Rightarrow> f e | Inr x \<Rightarrow> h x)"
  and leaves_case_option: "leaves g m \<Longrightarrow> (\<And>x. leaves g (h x)) \<Longrightarrow> leaves g (case z of None \<Rightarrow> m | Some x \<Rightarrow> h x)"
  by (auto split: sum.split option.split)

lemma act_try_Inr:
  "act_try m w = (Inr (Inr x), w') \<longleftrightarrow> m w = (Inr x, w')"
  "act_try m w = (Inr (Inl c), w') \<longleftrightarrow> m w = (Inl (Error c), w')"
  by (auto simp: act_try_def split: prod.splits sum.splits fault.splits)

lemma act_bind_try_Inr:
  "act_bind (act_try m) f w = (Inr y, w'') \<longleftrightarrow>
     (\<exists>x w'. m w = (Inr x, w') \<and> f (Inr x) w' = (Inr y, w'')) \<or>
     (\<exists>c w'. m w = (Inl (Error c), w') \<and> f (Inl c) w' = (Inr y, w''))"
  by (auto simp: act_bind_def act_try_def split: prod.splits sum.splits fault.splits)

lemma act_bind_get: "act_bind (act_get f) h w = h (f w) w"
  by (simp add: act_bind_def act_get_def)

end
