(* ===== verification/Rpc.thy ===== *)
theory Rpc
  imports World
begin

text \<open>
  \<open>src/helpers/rpc.rs\<close>: the circuit breaker (closed, open, half-open after a cool-down) and the
  retry loop with exponential backoff and jitter that the three resilient calls share.  A call
  is one step of the world: the retries of one call are not interleaved with other calls.
\<close>

subsection \<open>The circuit breaker\<close>

text \<open>\<open>.filter(|&n| n >= 1 && n <= 1024).unwrap_or(64)\<close>\<close>

definition global_permits :: "world \<Rightarrow> u64" where
  "global_permits w =
     (case Option.bind (env_var w ''RPC_MAX_CONCURRENCY'') (from_str_radix 10) of
        Some n \<Rightarrow> if 1 \<le> n \<and> n \<le> 1024 then n else 64
      | None \<Rightarrow> 64)"

definition circuit_open :: "bool wact" where
  "circuit_open w =
     (if \<not> cb_open w then (Inr False, w)
      else let cool_ms = env_num ''RPC_CIRCUIT_COOLDOWN_MS'' 5000 w;
               age = saturating_sub (clock_ms w) (cb_last_open_ms w)
           in if cool_ms \<le> age then (Inr False, w\<lparr>cb_open := False\<rparr>) else (Inr True, w))"

definition trip_circuit :: "unit wact" where
  "trip_circuit = act_modify (\<lambda>w. w\<lparr>cb_open := True, cb_last_open_ms := clock_ms w\<rparr>)"

subsection \<open>The retry loop\<close>

record retry_config =
  max_attempts :: u32
  base_delay_ms :: u64
  max_delay_ms :: u64

definition retry_config_of :: "world \<Rightarrow> retry_config" where
  "retry_config_of w =
     \<lparr>max_attempts = env_num ''RPC_MAX_RETRIES'' 5 w,
      base_delay_ms = env_num ''RPC_BASE_BACKOFF_MS'' 200 w,
      max_delay_ms = env_num ''RPC_MAX_BACKOFF_MS'' 5000 w\<rparr>"

text \<open>In a release build the shift amount is taken modulo 128 and the product wraps.\<close>

definition backoff_delay :: "retry_config \<Rightarrow> nat \<Rightarrow> u64 \<Rightarrow> u64" where
  "backoff_delay cfg attempt jitter =
     ucast (min (ucast (base_delay_ms cfg) * push_bit ((attempt - 1) mod 128) 1 + ucast jitter)
                (ucast (max_delay_ms cfg)) :: u128)"

definition is_non_retriable :: "string \<Rightarrow> string \<Rightarrow> bool" where
  "is_non_retriable rpc_method raw_msg =
     (let lc = to_ascii_lowercase raw_msg
      in rpc_method = ''alkanes_trace'' \<and>
         str_contains ''non-standard error object received'' lc \<and>
         str_contains ''cannot read properties of undefined'' lc)"

text \<open>
  The loop: \<open>attempt\<close> attempts were made so far.  \<open>fatal\<close> says which errors end it at once and
  \<open>final\<close> what the error after the last attempt says, given the last error.
\<close>

function retry_loop ::
  "retry_config \<Rightarrow> (string \<Rightarrow> bool) \<Rightarrow> (string option \<Rightarrow> string) \<Rightarrow> 'a attempt wact
     \<Rightarrow> nat \<Rightarrow> string option \<Rightarrow> 'a wact" where
  "retry_loop cfg fatal final op attempt last_error w =
     (let attempt' = Suc attempt;
          retry = (\<lambda>last w.
            if unat (max_attempts cfg) \<le> attempt'
            then act_bind trip_circuit (\<lambda>_. act_fail (anyhow (final last))) w
            else (case fastrand (base_delay_ms cfg) w of
                    (Inl e, w') \<Rightarrow> (Inl e, w')
                  | (Inr jitter, w') \<Rightarrow>
                      retry_loop cfg fatal final op attempt' last
                        (snd (sleep_ms (backoff_delay cfg attempt' jitter) w'))))
      in case op w of
           (Inl e, w') \<Rightarrow> (Inl e, w')
         | (Inr (Answered v), w') \<Rightarrow> (Inr v, w')
         | (Inr (Failed msg), w') \<Rightarrow>
             if fatal msg then (Inl (anyhow msg), w') else retry (Some msg) w'
         | (Inr Timed_out, w') \<Rightarrow> retry (Some ''timeout'') w')"
  by pat_completeness auto
termination
  by (relation "measure (\<lambda>(cfg, fatal, final, op, attempt, last_error, w). unat (max_attempts cfg) - attempt)")
    auto

declare retry_loop.simps [simp del]

definition resilient ::
  "(string \<Rightarrow> bool) \<Rightarrow> (string option \<Rightarrow> string) \<Rightarrow> 'a attempt wact \<Rightarrow> 'a wact" where
  "resilient fatal final op =
     act_bind circuit_open (\<lambda>is_open.
       if is_open then act_fail (anyhow ''rpc_circuit_open'')
       else act_bind (act_get retry_config_of) (\<lambda>cfg. retry_loop cfg fatal final op 0 None))"

definition resilient_call :: "string \<Rightarrow> string \<Rightarrow> json \<Rightarrow> json wact" where
  "resilient_call url rpc_method params =
     resilient (is_non_retriable rpc_method) (\<lambda>_. ''rpc_failed_after_retries'')
       (provider_call (\<lambda>p n. rpc_answer p n url rpc_method params))"

definition resilient_call_with_last_error :: "string \<Rightarrow> string \<Rightarrow> json \<Rightarrow> json wact" where
  "resilient_call_with_last_error url rpc_method params =
     resilient (is_non_retriable rpc_method)
       (\<lambda>last. ''rpc_failed_after_retries: last_error='' @ unwrap_or [] last)
       (provider_call (\<lambda>p n. rpc_answer p n url rpc_method params))"

definition resilient_provider_call :: "(provider \<Rightarrow> nat \<Rightarrow> 'a attempt) \<Rightarrow> 'a wact" where
  "resilient_provider_call ask =
     resilient (\<lambda>_. False) (\<lambda>_. ''provider_failed_after_retries'') (provider_call ask)"

subsection \<open>One round of the loop\<close>

fun stops :: "(string \<Rightarrow> bool) \<Rightarrow> 'a attempt \<Rightarrow> bool" where
  "stops fatal (Answered v) = True"
| "stops fatal (Failed msg) = fatal msg"
| "stops fatal Timed_out = False"

fun stop_result :: "'a attempt \<Rightarrow> 'a res" where
  "stop_result (Answered v) = Inr v"
| "stop_result (Failed msg) = Inl (anyhow msg)"
| "stop_result Timed_out = Inl (anyhow ''timeout'')"

fun attempt_error :: "'a attempt \<Rightarrow> string option" where
  "attempt_error (Answered v) = None"
| "attempt_error (Failed msg) = Some msg"
| "attempt_error Timed_out = Some ''timeout''"

definition rounds :: "retry_config \<Rightarrow> nat" where
  "rounds cfg = max 1 (unat (max_attempts cfg))"

lemma retry_loop_stops:
  assumes "op w = (Inr a, w1)" "stops fatal a"
  shows "retry_loop cfg fatal final op attempt prev w = (stop_result a, w1)"
  using assms by (subst retry_loop.simps) (cases a; simp add: Let_def)

lemma retry_loop_gives_up:
  assumes "op w = (Inr a, w1)" "\<not> stops fatal a" "unat (max_attempts cfg) \<le> Suc attempt"
  shows "retry_loop cfg fatal final op attempt prev w =
    (Inl (anyhow (final (attempt_error a))), snd (trip_circuit w1))"
  using assms
  by (subst retry_loop.simps) (cases a; simp add: Let_def act_bind_def trip_circuit_def act_modify_def act_fail_def)

lemma retry_loop_again:
  assumes "op w = (Inr a, w1)" "\<not> stops fatal a" "\<not> unat (max_attempts cfg) \<le> Suc attempt"
    and "base_delay_ms cfg \<noteq> 0"
  obtains w2 where
    "retry_loop cfg fatal final op attempt prev w = retry_loop cfg fatal final op (Suc attempt) (attempt_error a) w2"
    "\<exists>c n. w2 = w1\<lparr>draws := n, clock_ms := c\<rparr>"
proof -
  obtain jitter w' where j: "fastrand (base_delay_ms cfg) w1 = (Inr jitter, w')" "\<exists>n. w' = w1\<lparr>draws := n\<rparr>"
    using assms(4) by (auto simp: fastrand_def)
  let ?w2 = "snd (sleep_ms (backoff_delay cfg (Suc attempt) jitter) w')"
  have "retry_loop cfg fatal final op attempt prev w = retry_loop cfg fatal final op (Suc attempt) (attempt_error a) ?w2"
    using assms j(1) by (subst retry_loop.simps) (cases a; simp add: Let_def)
  moreover have "\<exists>c n. ?w2 = w1\<lparr>draws := n, clock_ms := c\<rparr>"
    using j(2) by (auto simp: sleep_ms_def act_modify_def)
  ultimately show thesis by (rule that)
qed

lemma retry_loop_panics:
  assumes "op w = (Inr a, w1)" "\<not> stops fatal a" "\<not> unat (max_attempts cfg) \<le> Suc attempt"
    and "base_delay_ms cfg = 0"
  shows "\<exists>msg. retry_loop cfg fatal final op attempt prev w = (Inl (Panic msg), w1)"
  using assms by (subst retry_loop.simps) (cases a; simp add: Let_def fastrand_def)

subsection \<open>The whole loop\<close>

text \<open>The answer that the \<open>k\<close>-th attempt from now will get.\<close>

definition answer_at :: "(provider \<Rightarrow> nat \<Rightarrow> 'a) \<Rightarrow> world \<Rightarrow> nat \<Rightarrow> 'a" where
  "answer_at ask w k = ask (prov w) (calls w + k)"

lemma provider_call_step:
  "\<exists>w1. provider_call ask w = (Inr (answer_at ask w 0), w1) \<and>
     prov w1 = prov w \<and> calls w1 = Suc (calls w) \<and> cb_open w1 = cb_open w"
  by (simp add: provider_call_def answer_at_def)

lemma retry_loop_runs:
  fixes ask :: "provider \<Rightarrow> nat \<Rightarrow> 'a attempt"
  assumes "base_delay_ms cfg \<noteq> 0" "attempt < rounds cfg"
  shows "\<exists>w'. (\<forall>k. attempt + k < rounds cfg \<and> stops fatal (answer_at ask w k) \<and>
        (\<forall>j<k. \<not> stops fatal (answer_at ask w j)) \<longrightarrow>
      retry_loop cfg fatal final (provider_call ask) attempt prev w = (stop_result (answer_at ask w k), w') \<and>
      calls w' = calls w + Suc k \<and> cb_open w' = cb_open w) \<and>
    ((\<forall>k. attempt + k < rounds cfg \<longrightarrow> \<not> stops fatal (answer_at ask w k)) \<longrightarrow>
      retry_loop cfg fatal final (provider_call ask) attempt prev w =
        (Inl (anyhow (final (attempt_error (answer_at ask w (rounds cfg - Suc attempt))))), w') \<and>
      calls w' = calls w + (rounds cfg - attempt) \<and> cb_open w')"
  using assms(2)
proof (induction "rounds cfg - attempt" arbitrary: attempt prev w)
  case 0
  then show ?case by simp
next
  case (Suc n)
  obtain w1 where w1: "provider_call ask w = (Inr (answer_at ask w 0), w1)"
    and w1_eq: "prov w1 = prov w" "calls w1 = Suc (calls w)" "cb_open w1 = cb_open w"
    using provider_call_step by metis
  show ?case
  proof (cases "stops fatal (answer_at ask w 0)")
    case True
    then have "k = 0" if "\<forall>j<k. \<not> stops fatal (answer_at ask w j)" for k
      using that by (cases k) auto
    with True w1_eq retry_loop_stops [where op = "provider_call ask", OF w1 True] Suc.prems show ?thesis
      by (intro exI [of _ w1]) force
  next
    case go_on: False
    show ?thesis
    proof (cases "unat (max_attempts cfg) \<le> Suc attempt")
      case True
      then have final_round: "rounds cfg = Suc attempt" using Suc.prems by (auto simp: rounds_def)
      with go_on w1_eq retry_loop_gives_up [where op = "provider_call ask", OF w1 go_on True] show ?thesis
        by (intro exI [of _ "snd (trip_circuit w1)"]) (auto simp: trip_circuit_def act_modify_def)
    next
      case False
      obtain w2 where
        again: "retry_loop cfg fatal final (provider_call ask) attempt prev w =
          retry_loop cfg fatal final (provider_call ask) (Suc attempt) (attempt_error (answer_at ask w 0)) w2"
        and "\<exists>c n. w2 = w1\<lparr>draws := n, clock_ms := c\<rparr>"
        by (rule retry_loop_again [where op = "provider_call ask", OF w1 go_on False assms(1)])
      then have w2: "prov w2 = prov w" "calls w2 = Suc (calls w)" "cb_open w2 = cb_open w"
        using w1_eq by auto
      have shift: "answer_at ask w2 k = answer_at ask w (Suc k)" for k by (simp add: answer_at_def w2)
      have more: "n = rounds cfg - Suc attempt" "Suc attempt < rounds cfg"
        using Suc.hyps(2) False by (auto simp: rounds_def)
      obtain w' where
        stop: "\<And>k. Suc attempt + k < rounds cfg \<Longrightarrow> stops fatal (answer_at ask w (Suc k)) \<Longrightarrow>
            (\<forall>j<k. \<not> stops fatal (answer_at ask w (Suc j))) \<Longrightarrow>
            retry_loop cfg fatal final (provider_call ask) attempt prev w = (stop_result (answer_at ask w (Suc k)), w') \<and>
            calls w' = calls w2 + Suc k \<and> cb_open w' = cb_open w2"
        and fail: "(\<And>k. Suc attempt + k < rounds cfg \<Longrightarrow> \<not> stops fatal (answer_at ask w (Suc k))) \<Longrightarrow>
            retry_loop cfg fatal final (provider_call ask) attempt prev w =
              (Inl (anyhow (final (attempt_error (answer_at ask w (Suc (rounds cfg - Suc (Suc attempt))))))), w') \<and>
            calls w' = calls w2 + (rounds cfg - Suc attempt) \<and> cb_open w'"
        using Suc.hyps(1) [OF more, of w2 "attempt_error (answer_at ask w 0)"] unfolding again shift by blast
      show ?thesis
      proof (intro exI [of _ w'] conjI impI allI)
        fix k
        assume k: "attempt + k < rounds cfg \<and> stops fatal (answer_at ask w k) \<and> (\<forall>j<k. \<not> stops fatal (answer_at ask w j))"
        then obtain k' where k': "k = Suc k'" using go_on by (cases k) auto
        with k stop [of k'] w2 show
          "retry_loop cfg fatal final (provider_call ask) attempt prev w = (stop_result (answer_at ask w k), w')"
          "calls w' = calls w + Suc k" "cb_open w' = cb_open w"
          by auto
      next
        assume none: "\<forall>k. attempt + k < rounds cfg \<longrightarrow> \<not> stops fatal (answer_at ask w k)"
        then have "\<And>k. Suc attempt + k < rounds cfg \<Longrightarrow> \<not> stops fatal (answer_at ask w (Suc k))" by simp
        note fail [OF this]
        moreover have "Suc (rounds cfg - Suc (Suc attempt)) = rounds cfg - Suc attempt" using more by simp
        ultimately show
          "retry_loop cfg fatal final (provider_call ask) attempt prev w =
            (Inl (anyhow (final (attempt_error (answer_at ask w (rounds cfg - Suc attempt))))), w')"
          "calls w' = calls w + (rounds cfg - attempt)" "cb_open w'"
          using w2 more by auto
      qed
    qed
  qed
qed

subsection \<open>What a resilient call leaves alone\<close>

lemma retry_loop_leaves:
  assumes op: "leaves g op"
    and g: "\<And>w b c. g (w\<lparr>cb_open := b, cb_last_open_ms := c\<rparr>) = g w"
      "\<And>w c n. g (w\<lparr>draws := n, clock_ms := c\<rparr>) = g w"
  shows "g (snd (retry_loop cfg fatal final op attempt prev w)) = g w"
proof (induction "unat (max_attempts cfg) - attempt" arbitrary: attempt prev w rule: less_induct)
  case less
  obtain r w1 where run: "op w = (r, w1)" by (rule prod.exhaust)
  have w1: "g w1 = g w" by (rule leavesD [OF op run])
  show ?case
  proof (cases r)
    case (Inl e)
    with run w1 show ?thesis by (subst retry_loop.simps) simp
  next
    case (Inr a)
    note run = run [unfolded Inr]
    consider (stop) "stops fatal a"
      | (up) "\<not> stops fatal a" "unat (max_attempts cfg) \<le> Suc attempt"
      | (panic) "\<not> stops fatal a" "\<not> unat (max_attempts cfg) \<le> Suc attempt" "base_delay_ms cfg = 0"
      | (again) "\<not> stops fatal a" "\<not> unat (max_attempts cfg) \<le> Suc attempt" "base_delay_ms cfg \<noteq> 0"
      by blast
    then show ?thesis
    proof cases
      case stop
      then show ?thesis by (simp add: retry_loop_stops [where op = op, OF run] w1)
    next
      case up
      then show ?thesis
        by (simp add: retry_loop_gives_up [where op = op, OF run] w1 trip_circuit_def act_modify_def g)
    next
      case panic
      from retry_loop_panics [where op = op, OF run panic, of final prev] show ?thesis by (auto simp: w1)
    next
      case again
      obtain w2 where next_round: "retry_loop cfg fatal final op attempt prev w =
          retry_loop cfg fatal final op (Suc attempt) (attempt_error a) w2"
        and "\<exists>c n. w2 = w1\<lparr>draws := n, clock_ms := c\<rparr>"
        by (rule retry_loop_again [where op = op, OF run again])
      then have "g w2 = g w" using w1 g(2) by auto
      with less [of "Suc attempt" "attempt_error a" w2] again(2) show ?thesis
        by (simp add: next_round)
    qed
  qed
qed

lemma leaves_resilient:
  assumes "leaves g op"
    and "\<And>w b. g (w\<lparr>cb_open := b\<rparr>) = g w"
      "\<And>w b c. g (w\<lparr>cb_open := b, cb_last_open_ms := c\<rparr>) = g w"
      "\<And>w c n. g (w\<lparr>draws := n, clock_ms := c\<rparr>) = g w"
  shows "leaves g (resilient fatal final op)"
proof -
  have "leaves g circuit_open"
    using assms(2) by (simp add: leaves_def circuit_open_def Let_def)
  moreover have "leaves g (retry_loop cfg fatal final op 0 None)" for cfg
    using retry_loop_leaves [where g = g, OF assms(1,3,4)] by (simp add: leaves_def)
  ultimately show ?thesis
    unfolding resilient_def by (intro leaves_bind leaves_if leaves_fail leaves_get)
qed

lemma leaves_resilient_calls [intro]:
  "leaves sdb (resilient_call url rpc_method params)"
  "leaves sdb (resilient_call_with_last_error url rpc_method params)"
  "leaves sdb (resilient_provider_call ask)"
  "leaves published (resilient_call url rpc_method params)"
  "leaves published (resilient_call_with_last_error url rpc_method params)"
  "leaves published (resilient_provider_call ask)"
  "leaves prov (resilient_call url rpc_method params)"
  "leaves prov (resilient_call_with_last_error url rpc_method params)"
  "leaves prov (resilient_provider_call ask)"
  "leaves lib (resilient_call url rpc_method params)"
  "leaves lib (resilient_call_with_last_error url rpc_method params)"
  "leaves lib (resilient_provider_call ask)"
  unfolding resilient_call_def resilient_call_with_last_error_def resilient_provider_call_def
  by (auto intro!: leaves_resilient)

text \<open>A value that a resilient call returns is an answer of the provider.\<close>

lemma retry_loop_Inr:
  assumes "retry_loop cfg fatal final (provider_call ask) attempt prev w = (Inr v, w')"
  shows "\<exists>n. ask (prov w) n = Answered v"
  using assms
proof (induction "unat (max_attempts cfg) - attempt" arbitrary: attempt prev w rule: less_induct)
  case less
  obtain w1 where run: "provider_call ask w = (Inr (answer_at ask w 0), w1)" and w1: "prov w1 = prov w"
    using provider_call_step by metis
  let ?a = "answer_at ask w 0"
  consider (stop) "stops fatal ?a"
    | (up) "\<not> stops fatal ?a" "unat (max_attempts cfg) \<le> Suc attempt"
    | (panic) "\<not> stops fatal ?a" "\<not> unat (max_attempts cfg) \<le> Suc attempt" "base_delay_ms cfg = 0"
    | (again) "\<not> stops fatal ?a" "\<not> unat (max_attempts cfg) \<le> Suc attempt" "base_delay_ms cfg \<noteq> 0"
    by blast
  then show ?case
  proof cases
    case stop
    with less.prems have "stop_result ?a = Inr v"
      by (simp add: retry_loop_stops [where op = "provider_call ask", OF run])
    then have "?a = Answered v" by (cases ?a) auto
    then show ?thesis by (auto simp: answer_at_def)
  next
    case up
    with less.prems show ?thesis
      by (simp add: retry_loop_gives_up [where op = "provider_call ask", OF run])
  next
    case panic
    from retry_loop_panics [where op = "provider_call ask", OF run panic, of final prev] less.prems show ?thesis by auto
  next
    case again
    obtain w2 where "retry_loop cfg fatal final (provider_call ask) attempt prev w =
        retry_loop cfg fatal final (provider_call ask) (Suc attempt) (attempt_error ?a) w2"
      and "\<exists>c n. w2 = w1\<lparr>draws := n, clock_ms := c\<rparr>"
      by (rule retry_loop_again [where op = "provider_call ask", OF run again])
    with less.prems less.hyps [of "Suc attempt" "attempt_error ?a" w2] again(2) w1 show ?thesis
      by auto
  qed
qed

lemma resilient_Inr:
  assumes "resilient fatal final (provider_call ask) w = (Inr v, w')"
  shows "\<exists>n. ask (prov w) n = Answered v"
proof -
  obtain w1 cfg where "retry_loop cfg fatal final (provider_call ask) 0 None w1 = (Inr v, w')" "prov w1 = prov w"
    using assms
    by (auto simp: resilient_def act_bind_Inr act_get_def act_fail_def circuit_open_def Let_def split: if_splits)
  with retry_loop_Inr [of cfg fatal final ask 0 None w1] show ?thesis by simp
qed

text \<open>An error of a resilient call comes from the open breaker, from a non-retriable answer or
  from the last of the failed attempts.\<close>

lemma retry_loop_Error:
  assumes "retry_loop cfg fatal final (provider_call ask) attempt prev w = (Inl (Error chain), w')"
  shows "\<exists>n. (\<exists>msg. ask (prov w) n = Failed msg \<and> fatal msg \<and> chain = [msg]) \<or>
    \<not> stops fatal (ask (prov w) n) \<and> chain = [final (attempt_error (ask (prov w) n))]"
  using assms
proof (induction "unat (max_attempts cfg) - attempt" arbitrary: attempt prev w rule: less_induct)
  case less
  obtain w1 where run: "provider_call ask w = (Inr (answer_at ask w 0), w1)" and w1: "prov w1 = prov w"
    using provider_call_step by metis
  let ?a = "answer_at ask w 0"
  consider (stop) "stops fatal ?a"
    | (up) "\<not> stops fatal ?a" "unat (max_attempts cfg) \<le> Suc attempt"
    | (panic) "\<not> stops fatal ?a" "\<not> unat (max_attempts cfg) \<le> Suc attempt" "base_delay_ms cfg = 0"
    | (again) "\<not> stops fatal ?a" "\<not> unat (max_attempts cfg) \<le> Suc attempt" "base_delay_ms cfg \<noteq> 0"
    by blast
  then show ?case
  proof cases
    case stop
    with less.prems have "stop_result ?a = Inl (Error chain)"
      by (simp add: retry_loop_stops [where op = "provider_call ask", OF run])
    with stop show ?thesis by (cases ?a) (auto simp: answer_at_def anyhow_def)
  next
    case up
    with less.prems show ?thesis
      by (auto simp: retry_loop_gives_up [where op = "provider_call ask", OF run] answer_at_def anyhow_def)
  next
    case panic
    from retry_loop_panics [where op = "provider_call ask", OF run panic, of final prev] less.prems show ?thesis by auto
  next
    case again
    obtain w2 where "retry_loop cfg fatal final (provider_call ask) attempt prev w =
        retry_loop cfg fatal final (provider_call ask) (Suc attempt) (attempt_error ?a) w2"
      and "\<exists>c n. w2 = w1\<lparr>draws := n, clock_ms := c\<rparr>"
      by (rule retry_loop_again [where op = "provider_call ask", OF run again])
    with less.prems less.hyps [of "Suc attempt" "attempt_error ?a" w2] again(2) w1 show ?thesis
      by auto
  qed
qed

lemma resilient_Error:
  assumes "resilient fatal final (provider_call ask) w = (Inl (Error chain), w')"
  shows "chain = [''rpc_circuit_open''] \<or>
    (\<exists>n. (\<exists>msg. ask (prov w) n = Failed msg \<and> fatal msg \<and> chain = [msg]) \<or>
      \<not> stops fatal (ask (prov w) n) \<and> chain = [final (attempt_error (ask (prov w) n))])"
proof -
  have "\<exists>b w1. circuit_open w = (Inr b, w1) \<and> prov w1 = prov w"
    by (auto simp: circuit_open_def Let_def)
  then obtain b w1 where breaker: "circuit_open w = (Inr b, w1)" "prov w1 = prov w" by blast
  with assms have "(if b then act_fail (anyhow ''rpc_circuit_open'')
      else act_bind (act_get retry_config_of) (\<lambda>cfg. retry_loop cfg fatal final (provider_call ask) 0 None)) w1 = (Inl (Error chain), w')"
    by (simp add: resilient_def act_bind_def)
  then show ?thesis
    using breaker(2) retry_loop_Error [of _ fatal final ask 0 None w1 chain w']
    by (cases b) (auto simp: act_fail_def anyhow_def act_bind_get)
qed

subsection \<open>Properties\<close>

text \<open>
  While the breaker is open and its cool-down has not passed, a resilient call fails at once
  without reaching the provider and changes nothing; after the cool-down it behaves as if the
  breaker were closed.
\<close>

theorem resilient_breaker:
  fixes op :: "'a attempt wact"
  assumes "cb_open w"
  shows "resilient fatal final op w =
    (if saturating_sub (clock_ms w) (cb_last_open_ms w) < env_num ''RPC_CIRCUIT_COOLDOWN_MS'' 5000 w
     then (Inl (anyhow ''rpc_circuit_open''), w)
     else resilient fatal final op (w\<lparr>cb_open := False\<rparr>))"
  using assms
  by (auto simp: resilient_def act_bind_def circuit_open_def Let_def act_get_def act_fail_def not_less)

text \<open>How a call ends that is let through: decided by an attempt, given up, or a panic in the
  jitter when the base delay is zero and there is an attempt left.\<close>

definition call_outcome ::
  "(string \<Rightarrow> bool) \<Rightarrow> (string option \<Rightarrow> string) \<Rightarrow> (provider \<Rightarrow> nat \<Rightarrow> 'a attempt) \<Rightarrow> world \<Rightarrow> 'a res \<times> world \<Rightarrow> bool" where
  "call_outcome fatal final ask w run \<longleftrightarrow>
     (let n = rounds (retry_config_of w); no_delay = (base_delay_ms (retry_config_of w) = 0)
      in (\<forall>k < n. stops fatal (answer_at ask w k) \<and> (\<forall>j<k. \<not> stops fatal (answer_at ask w j)) \<and> (no_delay \<longrightarrow> k = 0) \<longrightarrow>
            fst run = stop_result (answer_at ask w k) \<and> calls (snd run) = calls w + Suc k \<and> \<not> cb_open (snd run)) \<and>
         ((\<forall>k < n. \<not> stops fatal (answer_at ask w k)) \<and> (no_delay \<longrightarrow> n = 1) \<longrightarrow>
            fst run = Inl (anyhow (final (attempt_error (answer_at ask w (n - 1))))) \<and>
            calls (snd run) = calls w + n \<and> cb_open (snd run)) \<and>
         (no_delay \<and> 1 < n \<and> \<not> stops fatal (answer_at ask w 0) \<longrightarrow>
            (\<exists>msg. fst run = Inl (Panic msg)) \<and> calls (snd run) = Suc (calls w)))"

lemma retry_loop_zero_delay:
  fixes ask :: "provider \<Rightarrow> nat \<Rightarrow> 'a attempt"
  assumes "base_delay_ms (retry_config_of w) = 0" "\<not> cb_open w"
  shows "call_outcome fatal final ask w (retry_loop (retry_config_of w) fatal final (provider_call ask) 0 None w)"
proof -
  obtain w1 where w1: "provider_call ask w = (Inr (answer_at ask w 0), w1)"
    and w1_eq: "calls w1 = Suc (calls w)" "cb_open w1 = cb_open w"
    using provider_call_step by metis
  note run = retry_loop_stops [where op = "provider_call ask", OF w1]
    retry_loop_gives_up [where op = "provider_call ask", OF w1]
    retry_loop_panics [where op = "provider_call ask", OF w1]
  consider (stop) "stops fatal (answer_at ask w 0)"
    | (up) "\<not> stops fatal (answer_at ask w 0)" "unat (max_attempts (retry_config_of w)) \<le> Suc 0"
    | (panic) "\<not> stops fatal (answer_at ask w 0)" "\<not> unat (max_attempts (retry_config_of w)) \<le> Suc 0"
    by blast
  then show ?thesis
  proof cases
    case stop
    moreover have "0 < rounds (retry_config_of w)" by (simp add: rounds_def)
    ultimately show ?thesis
      using run(1) [OF stop] w1_eq assms by (auto simp: call_outcome_def Let_def)
  next
    case up
    then have "rounds (retry_config_of w) = 1" by (auto simp: rounds_def)
    then show ?thesis
      using run(2) [OF up] w1_eq assms up(1)
      by (auto simp: call_outcome_def Let_def trip_circuit_def act_modify_def)
  next
    case panic
    then have "1 < rounds (retry_config_of w)" by (auto simp: rounds_def)
    then show ?thesis
      using run(3) [OF panic assms(1), of final None] w1_eq assms panic(1)
      by (auto simp: call_outcome_def Let_def)
  qed
qed

lemma resilient_closed:
  fixes ask :: "provider \<Rightarrow> nat \<Rightarrow> 'a attempt"
  assumes "\<not> cb_open w"
  shows "call_outcome fatal final ask w (resilient fatal final (provider_call ask) w)"
proof -
  have run: "resilient fatal final (provider_call ask) w =
      retry_loop (retry_config_of w) fatal final (provider_call ask) 0 None w"
    using assms by (simp add: resilient_def act_bind_def circuit_open_def act_get_def)
  show ?thesis
  proof (cases "base_delay_ms (retry_config_of w) = 0")
    case True
    then show ?thesis unfolding run using assms by (rule retry_loop_zero_delay)
  next
    case False
    have "0 < rounds (retry_config_of w)" by (simp add: rounds_def)
    from retry_loop_runs [OF False this, of fatal ask w final None] False assms show ?thesis
      unfolding run call_outcome_def Let_def by (auto simp: imp_conjL)
  qed
qed

text \<open>
  C18: a resilient call is total.  While the breaker is open and its cool-down has not passed it
  fails at once without reaching the provider and changes nothing.  Otherwise it makes at most
  \<open>max(1, RPC_MAX_RETRIES)\<close> attempts: the first attempt that is answered, or fails with a
  non-retriable error, decides the result and leaves the breaker closed; when every attempt
  fails the call fails after exactly that many attempts, reports the last error and trips the
  breaker; and with \<open>RPC_BASE_BACKOFF_MS\<close> set to zero the first retry panics instead.
\<close>

theorem resilient_outcome:
  fixes ask :: "provider \<Rightarrow> nat \<Rightarrow> 'a attempt"
  shows "if cb_open w \<and> saturating_sub (clock_ms w) (cb_last_open_ms w) < env_num ''RPC_CIRCUIT_COOLDOWN_MS'' 5000 w
    then resilient fatal final (provider_call ask) w = (Inl (anyhow ''rpc_circuit_open''), w)
    else call_outcome fatal final ask w (resilient fatal final (provider_call ask) w)"
proof (cases "cb_open w")
  case True
  have same: "retry_config_of (w\<lparr>cb_open := False\<rparr>) = retry_config_of w"
    "answer_at ask (w\<lparr>cb_open := False\<rparr>) = answer_at ask w"
    by (auto simp: retry_config_of_def env_num_def answer_at_def)
  have "call_outcome fatal final ask w (resilient fatal final (provider_call ask) (w\<lparr>cb_open := False\<rparr>))"
    using resilient_closed [of "w\<lparr>cb_open := False\<rparr>" fatal final ask] unfolding call_outcome_def same by simp
  then show ?thesis
    using True resilient_breaker [OF True, of fatal final "provider_call ask"] by simp
qed (simp add: resilient_closed)

text \<open>
  The pause before a retry never exceeds \<open>RPC_MAX_BACKOFF_MS\<close>, and for the first 64 attempts
  it is exactly the base delay doubled each time, plus the jitter, cut at that maximum.
\<close>

theorem backoff_delay_bounds:
  "unat (backoff_delay cfg attempt jitter) \<le> unat (max_delay_ms cfg) \<and>
   (1 \<le> attempt \<and> attempt \<le> 64 \<longrightarrow>
     unat (backoff_delay cfg attempt jitter) =
       min (unat (base_delay_ms cfg) * 2 ^ (attempt - 1) + unat jitter) (unat (max_delay_ms cfg)))"
proof -
  define full :: u128 where
    "full = ucast (base_delay_ms cfg) * push_bit ((attempt - 1) mod 128) 1 + ucast jitter"
  define cap :: u128 where "cap = ucast (max_delay_ms cfg)"
  have small: "unat (x :: u64) < 2 ^ 64" for x using unsigned_less [of x] by simp
  have cast: "unat (ucast (x :: u64) :: u128) = unat x" for x
    using small [of x] by (simp add: unsigned_ucast_eq take_bit_nat_eq_self)
  have cap: "unat cap = unat (max_delay_ms cfg)" by (simp add: cap_def cast)
  have "unat (min full cap) \<le> unat cap" by (simp add: min_def word_le_nat_alt)
  moreover from this have "unat (backoff_delay cfg attempt jitter) = unat (min full cap)"
    using small [of "max_delay_ms cfg"] cap
    unfolding backoff_delay_def full_def [symmetric] cap_def [symmetric]
    by (simp add: unsigned_ucast_eq take_bit_nat_eq_self)
  moreover have "unat full = unat (base_delay_ms cfg) * 2 ^ (attempt - 1) + unat jitter"
    if "1 \<le> attempt" "attempt \<le> 64"
  proof -
    have shift: "(attempt - 1) mod 128 = attempt - 1" using that by simp
    have "(2::nat) ^ (attempt - 1) < 2 ^ 128" using that by (intro power_strict_increasing) auto
    moreover have "attempt - 1 < 128" using that by simp
    moreover have "unat (push_bit (attempt - 1) 1 :: u128) = take_bit 128 (push_bit (attempt - 1) 1)"
      by (subst unsigned_push_bit_eq) simp
    ultimately have pow: "unat (push_bit (attempt - 1) 1 :: u128) = 2 ^ (attempt - 1)"
      by (simp only: push_bit_eq_mult mult_1 take_bit_nat_eq_self)
    have "unat (base_delay_ms cfg) * 2 ^ (attempt - 1) \<le> (2 ^ 64 - 1) * 2 ^ 63"
      using small [of "base_delay_ms cfg"] that by (intro mult_mono power_increasing) auto
    then have "unat (base_delay_ms cfg) * 2 ^ (attempt - 1) + unat jitter < 2 ^ 128"
      using small [of jitter] by simp
    then show ?thesis
      using pow unfolding full_def shift by (simp add: unat_word_ariths cast)
  qed
  moreover have "unat (min full cap) = min (unat full) (unat cap)"
    by (simp add: min_def word_le_nat_alt)
  ultimately show ?thesis by (simp add: cap)
qed

definition example_provider :: provider where
  "example_provider = \<lparr>rpc_answer = (\<lambda>n url m ps. if n = 0 then Failed ''503'' else Answered (JArr [])),
     height_answer = (\<lambda>n. Answered 7), hash_answer = (\<lambda>n h. Inr ''hash''),
     tx_hex_answer = (\<lambda>n t. Timed_out), transaction_hex_answer = (\<lambda>n t. Timed_out),
     amm_pools_answer = (\<lambda>n url f. Inr []), amm_details_answer = (\<lambda>n url p. Inl ''none''),
     bitcoin_rpc_url = None\<rparr>"

definition example_libs :: libs where
  "example_libs = \<lparr>hex_decode = (\<lambda>s. None), hex_encode = (\<lambda>bs. []), deserialize_tx = (\<lambda>bs. None),
     format_runestone = (\<lambda>t. Format_panic), trace_exits = (\<lambda>v. None), utc_timestamp = (\<lambda>s. Some (sint s))\<rparr>"

definition example_world :: world where
  "example_world = \<lparr>sdb = empty_db, db_calls = 0, outage = (\<lambda>_. None), env_var = (\<lambda>_. None), clock_ms = 0,
     utc_now = 0, cb_open = False, cb_last_open_ms = 0, prov = example_provider, lib = example_libs, calls = 0,
     took_ms = (\<lambda>_. 1), draws = 0, random = (\<lambda>_. 0), joins = 0, rank = (\<lambda>_ i. i), redis_calls = 0,
     redis_up = (\<lambda>_. True), redis_values = [], published = []\<rparr>"

lemmas example_world_simps = example_world_def example_provider_def example_libs_def

lemma resilient_outcome_witness:
  "\<exists>w'. resilient_call ''url'' ''esplora_tx'' JNull example_world = (Inr (JArr []), w') \<and> calls w' = 2"
proof -
  have cfg: "retry_config_of example_world = \<lparr>max_attempts = 5, base_delay_ms = 200, max_delay_ms = 5000\<rparr>"
    by (simp add: retry_config_of_def env_num_def example_world_simps)
  let ?ask = "\<lambda>p n. rpc_answer p n ''url'' ''esplora_tx'' JNull"
  have base: "base_delay_ms (retry_config_of example_world) \<noteq> 0"
    and two: "1 < rounds (retry_config_of example_world)"
    by (simp_all add: cfg rounds_def)
  have answers: "answer_at ?ask example_world 0 = Failed ''503''" "answer_at ?ask example_world (Suc 0) = Answered (JArr [])"
    and closed: "\<not> cb_open example_world" "calls example_world = 0"
    by (simp_all add: answer_at_def example_world_simps)
  let ?run = "resilient (is_non_retriable ''esplora_tx'') (\<lambda>_. ''rpc_failed_after_retries'') (provider_call ?ask) example_world"
  have "\<not> is_non_retriable ''esplora_tx'' ''503''" by (simp add: is_non_retriable_def)
  then have stop: "stops (is_non_retriable ''esplora_tx'') (answer_at ?ask example_world 1) \<and>
      (\<forall>j<1. \<not> stops (is_non_retriable ''esplora_tx'') (answer_at ?ask example_world j))"
    by (simp add: answers)
  from resilient_outcome [of example_world "is_non_retriable ''esplora_tx''" "\<lambda>_. ''rpc_failed_after_retries''" ?ask]
  have "call_outcome (is_non_retriable ''esplora_tx'') (\<lambda>_. ''rpc_failed_after_retries'') ?ask example_world ?run"
    using closed by simp
  then have "fst ?run = stop_result (answer_at ?ask example_world 1) \<and> calls (snd ?run) = calls example_world + Suc 1"
    using two stop base unfolding call_outcome_def Let_def by blast
  then show ?thesis
    using closed by (intro exI [of _ "snd ?run"]) (simp add: resilient_call_def answers prod_eq_iff)
qed

lemma resilient_breaker_witness:
  "resilient_call ''url'' ''esplora_tx'' JNull (example_world\<lparr>cb_open := True\<rparr>) =
     (Inl (anyhow ''rpc_circuit_open''), example_world\<lparr>cb_open := True\<rparr>)"
  unfolding resilient_call_def
  by (subst resilient_breaker) (simp_all add: env_num_def saturating_sub_def example_world_simps)

lemma backoff_delay_bounds_witness:
  "unat (backoff_delay \<lparr>max_attempts = 5, base_delay_ms = 200, max_delay_ms = 5000\<rparr> 3 17) = 817"
  using backoff_delay_bounds [of "\<lparr>max_attempts = 5, base_delay_ms = 200, max_delay_ms = 5000\<rparr>" 3 17] by simp

text \<open>
  With \<open>RPC_BASE_BACKOFF_MS\<close> set to zero the first retry panics, on the empty range the jitter
  is drawn from, instead of retrying.
\<close>

theorem zero_backoff_panics:
  fixes ask :: "provider \<Rightarrow> nat \<Rightarrow> 'a attempt"
  assumes "\<not> cb_open w" "base_delay_ms (retry_config_of w) = 0" "1 < unat (max_attempts (retry_config_of w))"
    and "\<not> stops fatal (answer_at ask w 0)"
  shows "\<exists>msg w'. resilient fatal final (provider_call ask) w = (Inl (Panic msg), w') \<and> calls w' = Suc (calls w)"
proof -
  obtain w1 where w1: "provider_call ask w = (Inr (answer_at ask w 0), w1)" "calls w1 = Suc (calls w)"
    using provider_call_step by metis
  have "\<not> unat (max_attempts (retry_config_of w)) \<le> Suc 0" using assms(3) by simp
  from retry_loop_panics [where op = "provider_call ask", OF w1(1) assms(4) this assms(2), of final None] w1(2) assms(1)
  show ?thesis by (auto simp: resilient_def act_bind_def circuit_open_def act_get_def)
qed

lemma zero_backoff_panics_witness:
  "\<exists>msg w'. resilient_call ''url'' ''esplora_tx'' JNull
     (example_world\<lparr>env_var := (\<lambda>n. if n = ''RPC_BASE_BACKOFF_MS'' then Some ''0'' else None)\<rparr>) = (Inl (Panic msg), w') \<and> calls w' = 1"
proof -
  let ?w = "example_world\<lparr>env_var := (\<lambda>n. if n = ''RPC_BASE_BACKOFF_MS'' then Some ''0'' else None)\<rparr>"
  have zero: "(from_str_radix 10 ''0'' :: u64 option) = Some 0"
    by (simp add: hex_eval std_simps)
  have cfg: "retry_config_of ?w = \<lparr>max_attempts = 5, base_delay_ms = 0, max_delay_ms = 5000\<rparr>"
    by (simp add: retry_config_of_def env_num_def zero)
  have "calls ?w = 0" "\<not> cb_open ?w" "prov ?w = example_provider"
    by (simp_all add: example_world_def)
  then show ?thesis
    using zero_backoff_panics [of ?w "is_non_retriable ''esplora_tx''" "\<lambda>p n. rpc_answer p n ''url'' ''esplora_tx'' JNull"
        "\<lambda>_. ''rpc_failed_after_retries''"]
    unfolding resilient_call_def
    by (simp add: cfg answer_at_def example_provider_def is_non_retriable_def)
qed

end
