(* ===== verification/Block.thy ===== *)
theory Block
  imports Rpc
begin

text \<open>
  \<open>src/helpers/block.rs\<close>: the hash and the txids of a block, the transactions fetched
  concurrently, the test for \<open>OP_RETURN\<close> outputs and the height of the chain tip.
\<close>

subsection \<open>Definitions\<close>

definition resolve_sandshrew_url :: "world \<Rightarrow> string" where
  "resolve_sandshrew_url w =
     (case env_var w ''SANDSHREW_RPC_URL'' of
        Some url \<Rightarrow> url
      | None \<Rightarrow> unwrap_or ''http://localhost:18888'' (bitcoin_rpc_url (prov w)))"

definition get_block_hash :: "u64 \<Rightarrow> string wact" where
  "get_block_hash height =
     act_bind (provider_call (\<lambda>p n. hash_answer p n height))
       (\<lambda>r. case r of Inl e \<Rightarrow> act_fail (anyhow e) | Inr hash \<Rightarrow> act_return hash)"

definition get_block_txids :: "string \<Rightarrow> string list wact" where
  "get_block_txids block_hash =
     act_bind (act_get resolve_sandshrew_url) (\<lambda>url.
     act_bind (resilient_call url ''esplora_block::txids'' (JArr [JStr block_hash])) (\<lambda>txids_val.
     act_return (List.map_filter as_str (unwrap_or [] (as_array txids_val)))))"

fun join :: "string \<Rightarrow> string list \<Rightarrow> string" where
  "join sep [] = []"
| "join sep [s] = s"
| "join sep (s # ss) = s @ sep @ join sep ss"

text \<open>
  \<open>buffer_unordered\<close> yields the results in the order of completion; the size of the window only
  limits which orders are possible.
\<close>

definition fetch_tx :: "string \<Rightarrow> string \<Rightarrow> (string \<times> json option) wact" where
  "fetch_tx url txid =
     act_bind (act_try (resilient_call url ''esplora_tx'' (JArr [JStr txid]))) (\<lambda>res.
     act_return (txid, case res of Inr v \<Rightarrow> Some v | Inl _ \<Rightarrow> None))"

definition get_transactions_info :: "string list \<Rightarrow> json list wact" where
  "get_transactions_info txids =
     act_bind (act_get resolve_sandshrew_url) (\<lambda>url.
     act_bind (completed txids) (\<lambda>order.
     act_bind (act_map (fetch_tx url) order) (\<lambda>results.
       let failed = map fst (filter (\<lambda>r. snd r = None) results);
           ok_vals = List.map_filter snd results
       in if failed \<noteq> []
          then act_fail (anyhow (''esplora_tx failed for '' @ dec_string (length failed) @
                 '' txids (sample: '' @ join '', '' (take 5 failed) @ '')''))
          else act_return ok_vals)))"

definition output_has_op_return :: "json \<Rightarrow> bool" where
  "output_has_op_return output \<longleftrightarrow>
     (case jstr [''scriptpubkey_type''] output of
        Some t \<Rightarrow> eq_ignore_ascii_case t ''op_return'' | None \<Rightarrow> False) \<or>
     (case jstr [''scriptpubkey_asm''] output of
        Some asm \<Rightarrow> prefix ''OP_RETURN'' asm | None \<Rightarrow> False) \<or>
     (case jstr [''scriptpubkey''] output of
        Some spk \<Rightarrow> prefix ''6a'' spk | None \<Rightarrow> False)"

definition tx_has_op_return :: "json \<Rightarrow> bool" where
  "tx_has_op_return tx_json = list_ex output_has_op_return (jarr_or_empty [''vout''] tx_json)"

definition canonical_tip_height :: "u64 wact" where
  "canonical_tip_height =
     act_bind (resilient_provider_call height_answer) (\<lambda>h.
       if h = 0 then act_fail (anyhow ''unexpected metashrew height 0'') else act_return h)"

subsection \<open>Facts\<close>

lemma leaves_block [intro]:
  assumes "leaves g (completed txids)" "\<And>url m ps. leaves g (resilient_call url m ps)"
    "\<And>ask. leaves g (resilient_provider_call ask :: u64 wact)"
    "leaves g (provider_call (\<lambda>p n. hash_answer p n height))"
  shows "leaves g (get_block_hash height)" "leaves g (get_block_txids hash)"
    "leaves g (get_transactions_info txids)" "leaves g canonical_tip_height"
  unfolding get_block_hash_def get_block_txids_def get_transactions_info_def canonical_tip_height_def
    fetch_tx_def Let_def
  by (intro leaves_bind leaves_get leaves_return leaves_map leaves_try leaves_if leaves_fail assms;
      simp add: leaves_return leaves_fail split: sum.split)+

text \<open>What a fetched transaction is: an answer to the request for its txid.\<close>

definition esplora_answer :: "world \<Rightarrow> string \<Rightarrow> json \<Rightarrow> bool" where
  "esplora_answer w txid v \<longleftrightarrow>
     (\<exists>n. rpc_answer (prov w) n (resolve_sandshrew_url w) ''esplora_tx'' (JArr [JStr txid]) = Answered v)"

lemma fetch_tx_cases:
  assumes "fetch_tx url txid w = (Inr (t, r), w')"
  shows "t = txid \<and> prov w' = prov w \<and>
    (\<forall>v. r = Some v \<longrightarrow> (\<exists>n. rpc_answer (prov w) n url ''esplora_tx'' (JArr [JStr txid]) = Answered v))"
proof -
  have "prov w' = prov w"
    using assms unfolding fetch_tx_def by (rule leavesD [rotated]) auto
  moreover obtain x where x: "act_try (resilient_call url ''esplora_tx'' (JArr [JStr txid])) w = (Inr x, w')"
    and tr: "t = txid" "r = (case x of Inr v \<Rightarrow> Some v | Inl _ \<Rightarrow> None)"
    using assms by (auto simp: fetch_tx_def act_bind_Inr act_return_def)
  moreover have "resilient_call url ''esplora_tx'' (JArr [JStr txid]) w = (Inr v, w')" if "r = Some v" for v
    using x tr(2) that by (cases x) (auto simp: act_try_Inr)
  ultimately show ?thesis
    using resilient_Inr [of _ _ "\<lambda>p n. rpc_answer p n url ''esplora_tx'' (JArr [JStr txid])" w _ w']
    unfolding resilient_call_def by blast
qed

lemma fetch_all:
  assumes "act_map (fetch_tx url) order w = (Inr results, w')"
  shows "map fst results = order \<and>
    list_all (\<lambda>(t, r). \<forall>v. r = Some v \<longrightarrow>
      (\<exists>n. rpc_answer (prov w) n url ''esplora_tx'' (JArr [JStr t]) = Answered v)) results"
  using assms
proof (induction order arbitrary: w results)
  case (Cons txid order)
  then obtain t r w1 rest where 1: "fetch_tx url txid w = (Inr (t, r), w1)"
    and 2: "act_map (fetch_tx url) order w1 = (Inr rest, w')" and "results = (t, r) # rest"
    by (auto simp: act_bind_Inr act_return_def)
  with fetch_tx_cases [OF 1] Cons.IH [OF 2] show ?case by auto
qed (simp add: act_return_def)

lemma all_Some_map_filter:
  "filter (\<lambda>r. snd r = None) results = [] \<Longrightarrow> map Some (List.map_filter snd results) = map snd results"
  by (induction results) (auto simp: List.map_filter_simps split: option.splits if_splits)

lemma list_all2_results:
  "map Some vals = map snd results \<Longrightarrow> list_all (\<lambda>(t, r). \<forall>v. r = Some v \<longrightarrow> R t v) results \<Longrightarrow>
     list_all2 R (map fst results) vals"
  by (induction results arbitrary: vals) (auto simp: Cons_eq_map_conv map_eq_Cons_conv)

subsection \<open>Properties\<close>

text \<open>
  Fetching the transactions of a block either fails or returns one value for every txid, in
  some order, each of them an answer of the provider to the request for that txid: no
  transaction is dropped and none is made up.
\<close>

theorem get_transactions_info_complete:
  assumes "get_transactions_info txids w = (Inr vals, w')"
  shows "\<exists>order. mset order = mset txids \<and> list_all2 (esplora_answer w) order vals"
proof -
  obtain order w1 results where order: "completed txids w = (Inr order, w1)"
    and run: "act_map (fetch_tx (resolve_sandshrew_url w)) order w1 = (Inr results, w')"
    and ok: "filter (\<lambda>r. snd r = None) results = []" "vals = List.map_filter snd results"
    using assms
    by (auto simp: get_transactions_info_def act_bind_Inr act_get_def act_return_def act_fail_def Let_def
        split: if_splits)
  have "mset order = mset txids" using mset_completed [OF order] by auto
  moreover have "prov w1 = prov w" using order by (rule leavesD [rotated]) auto
  moreover have "list_all2 (esplora_answer w) (map fst results) vals"
  proof (rule list_all2_results)
    show "map Some vals = map snd results" using all_Some_map_filter [OF ok(1)] ok(2) by simp
    show "list_all (\<lambda>(t, r). \<forall>v. r = Some v \<longrightarrow> esplora_answer w t v) results"
      using fetch_all [OF run] \<open>prov w1 = prov w\<close> by (simp add: esplora_answer_def)
  qed
  ultimately show ?thesis using fetch_all [OF run] by auto
qed

lemma get_transactions_info_complete_witness:
  "\<exists>order. mset order = mset [''a''] \<and> list_all2 (esplora_answer (example_world\<lparr>calls := 1\<rparr>)) order [JArr []]"
proof -
  let ?w = "example_world\<lparr>calls := 1\<rparr>"
  have "retry_config_of ?w = \<lparr>max_attempts = 5, base_delay_ms = 200, max_delay_ms = 5000\<rparr>"
    by (simp add: retry_config_of_def env_num_def example_world_simps)
  then have "\<exists>w'. get_transactions_info [''a''] ?w = (Inr [JArr []], w')"
    by (simp add: get_transactions_info_def act_bind_def act_get_def completed_def fetch_tx_def act_try_def
        resilient_call_def resilient_def circuit_open_def retry_loop.simps provider_call_def
        act_return_def List.map_filter_simps example_world_simps)
  then show ?thesis using get_transactions_info_complete by blast
qed

text \<open>
  The tip height that the poller and the catch-up use is the height that Metashrew reports,
  unchanged and never zero.
\<close>

theorem canonical_tip_height_reported:
  assumes "canonical_tip_height w = (Inr h, w')"
  shows "h \<noteq> 0 \<and> (\<exists>n. height_answer (prov w) n = Answered h)"
  using assms resilient_Inr [of _ _ height_answer w h]
  by (auto simp: canonical_tip_height_def act_bind_Inr act_return_def act_fail_def resilient_provider_call_def
      split: if_splits)

lemma canonical_tip_height_reported_witness:
  "\<exists>w'. canonical_tip_height example_world = (Inr 7, w') \<and> (\<exists>n. height_answer (prov example_world) n = Answered 7)"
proof -
  have "\<exists>w'. canonical_tip_height example_world = (Inr 7, w')"
    by (simp add: canonical_tip_height_def resilient_provider_call_def resilient_def circuit_open_def
        act_bind_def act_get_def retry_loop.simps provider_call_def act_return_def example_world_simps)
  then show ?thesis using canonical_tip_height_reported by blast
qed

end
