(* ===== verification/Bytes.thy ===== *)
theory Bytes
  imports World
begin

text \<open>
  Byte strings: little-endian integers, slices of strings (whose characters are the bytes of their
  UTF-8 form), lossy decoding of UTF-8 as the standard library does it, and what the hex crate
  documents about its two functions.
\<close>

subsection \<open>Integers\<close>

type_synonym byte = "8 word"

definition le_value :: "byte list \<Rightarrow> nat" where
  "le_value bs = horner_sum unat 256 bs"

definition from_le_bytes :: "byte list \<Rightarrow> 'a::len word" where
  "from_le_bytes bs = of_nat (le_value bs)"

definition from_be_bytes :: "byte list \<Rightarrow> 'a::len word" where
  "from_be_bytes bs = from_le_bytes (rev bs)"

fun le_bytes :: "nat \<Rightarrow> nat \<Rightarrow> byte list" where
  "le_bytes 0 v = []"
| "le_bytes (Suc n) v = of_nat (v mod 256) # le_bytes n (v div 256)"

definition u128_to_le_bytes :: "u128 \<Rightarrow> byte list" where
  "u128_to_le_bytes w = le_bytes 16 (unat w)"

lemma le_value_simps [simp]: "le_value [] = 0" "le_value (b # bs) = unat b + 256 * le_value bs"
  by (simp_all add: le_value_def)

lemma le_value_append: "le_value (as @ bs) = le_value as + 256 ^ length as * le_value bs"
  by (induction as) (simp_all add: algebra_simps)

lemma length_le_bytes [simp]: "length (le_bytes n v) = n"
  by (induction n v rule: le_bytes.induct) auto

lemma le_value_le_bytes: "le_value (le_bytes n v) = v mod 256 ^ n"
proof (induction n v rule: le_bytes.induct)
  case (2 n v)
  have "unat (of_nat (v mod 256) :: byte) = v mod 256" by (simp add: unat_of_nat)
  then show ?case using 2 by (simp add: mod_mult2_eq)
qed simp

lemma le_bytes_append: "le_bytes (m + n) v = le_bytes m v @ le_bytes n (v div 256 ^ m)"
  by (induction m v rule: le_bytes.induct) (simp_all add: div_mult2_eq)

lemma le_value_less: "le_value bs < 256 ^ length bs"
proof (induction bs)
  case (Cons b bs)
  have "unat b < 256" using unsigned_less [of b] by simp
  with Cons show ?case by simp
qed simp

lemma le_bytes_le_value: "le_bytes (length bs) (le_value bs) = bs"
proof (induction bs)
  case (Cons b bs)
  have "unat b < 256" using unsigned_less [of b] by simp
  then have "(unat b + 256 * le_value bs) mod 256 = unat b" "(unat b + 256 * le_value bs) div 256 = le_value bs"
    by auto
  with Cons show ?case by simp
qed simp

lemma unat_less_256: "unat (w :: u128) < 256 ^ 16"
  using unsigned_less [of w] by simp

lemma length_u128_to_le_bytes [simp]: "length (u128_to_le_bytes w) = 16"
  by (simp add: u128_to_le_bytes_def)

lemma le_value_u128 [simp]: "le_value (u128_to_le_bytes w) = unat w"
  using unat_less_256 [of w] by (simp add: u128_to_le_bytes_def le_value_le_bytes del: power_numeral)

lemma from_le_bytes_u128 [simp]: "from_le_bytes (u128_to_le_bytes w) = w"
  by (simp add: from_le_bytes_def)

text \<open>The first eight of the sixteen bytes are the low half.\<close>

lemma from_le_bytes_low_half: "(from_le_bytes (take 8 (u128_to_le_bytes w)) :: u64) = ucast w"
proof -
  have "take 8 (u128_to_le_bytes w) = le_bytes 8 (unat w)"
    using le_bytes_append [of 8 8 "unat w"] by (simp add: u128_to_le_bytes_def)
  then have "(from_le_bytes (take 8 (u128_to_le_bytes w)) :: u64) = of_nat (unat w mod 2 ^ 64)"
    by (simp add: from_le_bytes_def le_value_le_bytes)
  moreover have "unat (of_nat (unat w mod 2 ^ 64) :: u64) = unat (ucast w :: u64)"
    by (simp add: unsigned_ucast_eq unat_of_nat take_bit_eq_mod)
  ultimately show ?thesis by (simp add: word_unat_eq_iff)
qed

subsection \<open>Slices of strings\<close>

text \<open>\<open>&s[i..j]\<close> panics out of range and within a character.\<close>

definition is_char_boundary :: "string \<Rightarrow> nat \<Rightarrow> bool" where
  "is_char_boundary s i \<longleftrightarrow>
     i = 0 \<or> i = length s \<or>
     (i < length s \<and> (let n = of_char (s ! i) :: nat in n < 128 \<or> 192 \<le> n))"

definition str_slice :: "string \<Rightarrow> nat \<Rightarrow> nat \<Rightarrow> string res" where
  "str_slice s i j =
     (if i \<le> j \<and> j \<le> length s \<and> is_char_boundary s i \<and> is_char_boundary s j
      then Inr (take (j - i) (drop i s))
      else Inl (Panic ''byte index is not a char boundary''))"

definition ascii :: "string \<Rightarrow> bool" where
  "ascii s \<longleftrightarrow> (\<forall>c \<in> set s. (of_char c :: nat) < 128)"

lemma ascii_append [simp]: "ascii (s @ t) \<longleftrightarrow> ascii s \<and> ascii t"
  by (auto simp: ascii_def)

lemma ascii_take: "ascii s \<Longrightarrow> ascii (take n s)"
  and ascii_drop: "ascii s \<Longrightarrow> ascii (drop n s)"
  by (auto simp: ascii_def dest: in_set_takeD in_set_dropD)

lemma ascii_boundary: "ascii s \<Longrightarrow> i \<le> length s \<Longrightarrow> is_char_boundary s i"
  by (auto simp: ascii_def is_char_boundary_def Let_def)

lemma ascii_slice: "ascii s \<Longrightarrow> i \<le> j \<Longrightarrow> j \<le> length s \<Longrightarrow> str_slice s i j = Inr (take (j - i) (drop i s))"
  by (simp add: str_slice_def ascii_boundary)

subsection \<open>Lossy decoding of UTF-8\<close>

text \<open>
  \<open>String::from_utf8_lossy\<close> replaces each maximal prefix of a well-formed sequence that is not
  completed, and each byte that starts none, by U+FFFD (the bytes EF BF BD).
\<close>

definition replacement :: string where
  "replacement = [char_of (0xEF :: nat), char_of (0xBF :: nat), char_of (0xBD :: nat)]"

definition byte_char :: "byte \<Rightarrow> char" where
  "byte_char b = char_of (unat b)"

definition between :: "byte \<Rightarrow> byte \<Rightarrow> byte \<Rightarrow> bool" where
  "between lo hi b \<longleftrightarrow> lo \<le> b \<and> b \<le> hi"

text \<open>The ranges of the bytes that must follow a first byte; \<open>None\<close> when it starts no sequence.\<close>

definition utf8_tail :: "byte \<Rightarrow> (byte \<times> byte) list option" where
  "utf8_tail b =
     (let c = (0x80, 0xBF)
      in if b < 0x80 then Some []
         else if between 0xC2 0xDF b then Some [c]
         else if b = 0xE0 then Some [(0xA0, 0xBF), c]
         else if between 0xE1 0xEC b \<or> between 0xEE 0xEF b then Some [c, c]
         else if b = 0xED then Some [(0x80, 0x9F), c]
         else if b = 0xF0 then Some [(0x90, 0xBF), c, c]
         else if between 0xF1 0xF3 b then Some [c, c, c]
         else if b = 0xF4 then Some [(0x80, 0x8F), c, c]
         else None)"

text \<open>How many of the required bytes are there.\<close>

fun matching :: "(byte \<times> byte) list \<Rightarrow> byte list \<Rightarrow> nat" where
  "matching ((lo, hi) # rs) (b # bs) = (if between lo hi b then Suc (matching rs bs) else 0)"
| "matching _ _ = 0"

function utf8_lossy :: "byte list \<Rightarrow> string" where
  "utf8_lossy [] = []"
| "utf8_lossy (b # bs) =
     (case utf8_tail b of
        None \<Rightarrow> replacement @ utf8_lossy bs
      | Some rs \<Rightarrow>
          if matching rs bs = length rs
          then map byte_char (b # take (length rs) bs) @ utf8_lossy (drop (length rs) bs)
          else replacement @ utf8_lossy (drop (matching rs bs) bs))"
  by pat_completeness auto
termination by (relation "measure length") auto

declare utf8_lossy.simps(2) [simp del]

lemma utf8_lossy_ascii_append: "\<forall>b \<in> set bs. b < 0x80 \<Longrightarrow> utf8_lossy (bs @ cs) = map byte_char bs @ utf8_lossy cs"
  by (induction bs) (simp_all add: utf8_lossy.simps(2) utf8_tail_def Let_def)

lemma utf8_lossy_ascii: "\<forall>b \<in> set bs. b < 0x80 \<Longrightarrow> utf8_lossy bs = map byte_char bs"
  using utf8_lossy_ascii_append [of bs "[]"] by simp

subsection \<open>The hex crate\<close>

text \<open>
  Documented: \<open>encode\<close> gives two lowercase digits per byte, and \<open>decode\<close> accepts an even number of
  digits of either case and gives the bytes back.
\<close>

definition hex_digit :: "nat \<Rightarrow> char" where
  "hex_digit d = ''0123456789abcdef'' ! d"

definition hex_text :: "byte list \<Rightarrow> string" where
  "hex_text bs = concat (map (\<lambda>b. [hex_digit (unat b div 16), hex_digit (unat b mod 16)]) bs)"

fun hex_bytes :: "string \<Rightarrow> byte list option" where
  "hex_bytes [] = Some []"
| "hex_bytes [c] = None"
| "hex_bytes (c # d # cs) =
     (case (to_digit 16 c, to_digit 16 d, hex_bytes cs) of
        (Some x, Some y, Some bs) \<Rightarrow> Some (of_nat (16 * x + y) # bs) | _ \<Rightarrow> None)"

definition hex_documented :: "libs \<Rightarrow> bool" where
  "hex_documented l \<longleftrightarrow> (\<forall>bs. hex_encode l bs = hex_text bs \<and> hex_decode l (hex_text bs) = Some bs)"

lemma hex_documentedD:
  assumes "hex_documented l"
  shows "hex_encode l bs = hex_text bs" "hex_decode l (hex_text bs) = Some bs"
  using assms by (auto simp: hex_documented_def)

lemma hex_text_append [simp]: "hex_text (as @ bs) = hex_text as @ hex_text bs"
  by (simp add: hex_text_def)

lemma length_hex_text [simp]: "length (hex_text bs) = 2 * length bs"
  by (induction bs) (simp_all add: hex_text_def)

lemma take_hex_text: "take (2 * n) (hex_text bs) = hex_text (take n bs)"
  by (induction n arbitrary: bs) (auto simp: hex_text_def take_Cons' numeral_2_eq_2 split: list.splits, case_tac bs, auto)

lemma drop_hex_text: "drop (2 * n) (hex_text bs) = hex_text (drop n bs)"
proof -
  have "hex_text (take n bs) @ drop (2 * n) (hex_text bs) = hex_text bs"
    unfolding take_hex_text [symmetric] by simp
  also have "\<dots> = hex_text (take n bs) @ hex_text (drop n bs)"
    by (simp only: append_take_drop_id flip: hex_text_append)
  finally show ?thesis by simp
qed

lemma hex_digit_cases:
  assumes "d < 16"
  shows "(of_char (hex_digit d) :: nat) < 128" "to_digit 16 (hex_digit d) = Some d" "hex_digit d \<noteq> CHR ''+''"
proof -
  have "d \<in> set [0..<16]" using assms by simp
  then show "(of_char (hex_digit d) :: nat) < 128" "to_digit 16 (hex_digit d) = Some d" "hex_digit d \<noteq> CHR ''+''"
    by (auto simp: hex_digit_def to_digit_def upt_rec)
qed

lemma byte_nibbles: "unat (b :: byte) div 16 < 16" "unat b mod 16 < 16"
proof -
  have "unat b < 256" using unsigned_less [of b] by simp
  then show "unat b div 16 < 16" "unat b mod 16 < 16" by auto
qed

lemma hex_bytes_hex_text [simp]: "hex_bytes (hex_text bs) = Some bs"
  by (induction bs) (simp_all add: hex_text_def hex_digit_cases byte_nibbles)

lemma ascii_hex_text: "ascii (hex_text bs)"
  by (induction bs) (auto simp: hex_text_def ascii_def hex_digit_cases byte_nibbles)

text \<open>Read as a number in base 16, the text of the reversed bytes is their little-endian value.\<close>

lemma digits_value_hex_text: "digits_value 16 acc (hex_text bs) = Some (acc * 256 ^ length bs + le_value (rev bs))"
proof (induction bs arbitrary: acc)
  case (Cons b bs)
  have b: "acc * 256 + (unat b div 16) * 16 + unat b mod 16 = acc * 256 + unat b" by simp
  have "digits_value 16 acc (hex_text (b # bs)) = digits_value 16 (acc * 256 + unat b) (hex_text bs)"
    by (simp add: hex_text_def hex_digit_cases byte_nibbles algebra_simps flip: b)
  then show ?case using Cons [of "acc * 256 + unat b"] by (simp add: le_value_append algebra_simps)
qed (simp add: hex_text_def)

lemma strip_plus_hex_text: "strip_plus (hex_text bs) = hex_text bs"
proof (cases bs)
  case (Cons b cs)
  then show ?thesis by (simp add: hex_text_def strip_plus_def hex_digit_cases byte_nibbles)
qed (simp add: hex_text_def strip_plus_def)

lemma from_str_radix_hex_text:
  assumes "bs \<noteq> []" "length bs \<le> 16"
  shows "from_str_radix 16 (hex_text bs) = Some (from_be_bytes bs :: u128)"
proof -
  have "hex_text bs \<noteq> []" using assms by (cases bs) (simp_all add: hex_text_def)
  moreover have "le_value (rev bs) < 2 ^ 128"
  proof -
    have "le_value (rev bs) < 256 ^ length bs" using le_value_less [of "rev bs"] by simp
    also have "\<dots> \<le> 256 ^ 16" using assms by (intro power_increasing) auto
    finally show ?thesis by simp
  qed
  ultimately show ?thesis
    by (simp add: from_str_radix_def strip_plus_hex_text parse_digits_eq digits_value_hex_text
        from_be_bytes_def from_le_bytes_def)
qed

end
