(* ===== verification/Protostone.thy ===== *)
theory Protostone
  imports Block Bytes
begin

text \<open>
  \<open>src/helpers/protostone.rs\<close>: the \<open>OP_RETURN\<close> transactions that are not on the ignore list are
  split into at most ten batches that run concurrently; each transaction is materialised from
  its hex, its runestone is formatted, and every protostone is traced at its shadow \<open>vout\<close>.  An
  error that is not the known upstream one fails the whole block.
\<close>

subsection \<open>Materialising a transaction\<close>

definition ignored_trace_txids :: "string list" where
  "ignored_trace_txids =
     [''a807e8d4e91a6fa957c3f9929d267f6795971e41e6da61c44886deaa45797830'',
      ''33c5a9f2d415b2b826a2ea1230d1849be0a74dc73857460c9c7674fe76147830'',
      ''79c202e94c425320c91d6176108b93c033fb5a627fc2750453e97c6c434e7830'',
      ''12a6c6f41a722e75d48caf57ed7a22feb56686c2ba51e226e6b6033ef3357830'',
      ''6ee9eda5df0814af442f75db1d553f951f04699b854b9e0cff6d1395c2bdf075'',
      ''c4c00e467ec76aa228a737156488b74dc27a998cf3056655612dbd3eeb5e6fb0'',
      ''9d258d9e805ca9252101d5839aee46d63fbda8786e3f80988f5b10ce35aa060e'',
      ''83d0deb1d223c932e0ff4306c0f408d17dbd520bd1dfb9e8d5823b711be77830'',
      ''b19dd4c02942b0c2f19c5f11e9e4b1211051a779ff4bb8e84b02f37a2f415f6d'']"

definition to_little_endian_hex :: "libs \<Rightarrow> string \<Rightarrow> string" where
  "to_little_endian_hex l txid_be_hex =
     (case hex_decode l txid_be_hex of
        Some b \<Rightarrow> hex_encode l (rev b) | None \<Rightarrow> txid_be_hex)"

definition decode_tx :: "libs \<Rightarrow> string \<Rightarrow> transaction res" where
  "decode_tx l hex_str =
     (case hex_decode l hex_str of
        None \<Rightarrow> Inl (Error [''failed to decode tx hex'', ''invalid hex''])
      | Some raw \<Rightarrow> (case deserialize_tx l raw of
          None \<Rightarrow> Inl (Error [''failed to deserialize tx'', ''invalid transaction''])
        | Some tx \<Rightarrow> Inr tx))"

text \<open>\<open>get_tx_hex\<close>: two attempts, 200 ms between them, the empty string when both fail.\<close>

fun fetch_hex_esplora :: "string \<Rightarrow> nat \<Rightarrow> u64 \<Rightarrow> string wact" where
  "fetch_hex_esplora txid 0 attempt = act_return []"
| "fetch_hex_esplora txid (Suc k) attempt =
     act_bind (provider_call (\<lambda>p n. tx_hex_answer p n txid)) (\<lambda>r.
       case r of
         Answered h \<Rightarrow> act_return h
       | _ \<Rightarrow> if k = 0 then act_return []
              else act_bind (sleep_ms (200 * attempt)) (\<lambda>_. fetch_hex_esplora txid k (attempt + 1)))"

text \<open>\<open>get_transaction_hex\<close>: three attempts, then the last error.\<close>

fun fetch_hex_bitcoind :: "string \<Rightarrow> nat \<Rightarrow> u64 \<Rightarrow> string wact" where
  "fetch_hex_bitcoind txid 0 attempt =
     act_fail (Error [''get_transaction_hex call failed'', ''get_transaction_hex failed''])"
| "fetch_hex_bitcoind txid (Suc k) attempt =
     act_bind (provider_call (\<lambda>p n. transaction_hex_answer p n txid)) (\<lambda>r.
       case r of
         Answered h \<Rightarrow> act_return h
       | _ \<Rightarrow> if k = 0
              then act_fail (Error [''get_transaction_hex call failed'',
                     (case r of Failed e \<Rightarrow> e | _ \<Rightarrow> ''timeout'')])
              else act_bind (sleep_ms (200 * attempt)) (\<lambda>_. fetch_hex_bitcoind txid k (attempt + 1)))"

definition tx_from_json_or_fetch_hex :: "json \<Rightarrow> transaction wact" where
  "tx_from_json_or_fetch_hex tx_json =
     act_bind (act_get lib) (\<lambda>l.
     case jstr [''hex''] tx_json of
       Some hex_str \<Rightarrow> lift_res (decode_tx l hex_str)
     | None \<Rightarrow> (case jstr [''txid''] tx_json of
         None \<Rightarrow> act_fail (anyhow ''txid missing in tx json'')
       | Some txid \<Rightarrow>
           act_bind (fetch_hex_esplora txid 2 1) (\<lambda>h.
           act_bind (if h \<noteq> [] then act_return h else fetch_hex_bitcoind txid 3 1) (\<lambda>hex_str.
           lift_res (decode_tx l hex_str)))))"

subsection \<open>Results\<close>

record decoded_item =
  di_vout :: i32
  di_index :: i32
  di_decoded :: json

record trace_item =
  ti_vout :: i32
  ti_type :: string
  ti_data :: json
  ti_block :: string
  ti_tx :: string

record tx_trace =
  tt_txid :: string
  tt_json :: json
  tt_protostones :: "decoded_item list"
  tt_events :: "trace_item list"
  tt_has_trace :: bool
  tt_succeed :: bool

subsection \<open>One trace\<close>

definition trace_call :: "string \<Rightarrow> string \<Rightarrow> u32 \<Rightarrow> json wact" where
  "trace_call url txid_le vout =
     act_context ''alkanes_trace call failed''
       (resilient_call_with_last_error url ''alkanes_trace''
          (JArr [JObj [(''txid'', JStr txid_le), (''vout'', JNum (PosInt (ucast vout)))]]))"

definition ok_status_text :: "string \<Rightarrow> bool" where
  "ok_status_text status =
     (let s = to_ascii_lowercase status in str_contains ''ok'' s \<or> str_contains ''success'' s)"

text \<open>From the structured trace when the result parses as one, else from the raw events.\<close>

definition trace_ok_status :: "libs \<Rightarrow> json \<Rightarrow> bool" where
  "trace_ok_status l res =
     (case trace_exits l res of
        Some statuses \<Rightarrow> list_ex ok_status_text statuses
      | None \<Rightarrow> (case as_array res of
          Some arr \<Rightarrow> list_ex (\<lambda>ev. jstr_or_empty [''event''] ev = ''return'' \<and>
                        ok_status_text (jstr_or_empty [''data'', ''status''] ev)) arr
        | None \<Rightarrow> False))"

definition flat_id :: "string \<Rightarrow> string" where
  "flat_id hex = (if hex = [] then [] else
     (case hex_to_dec_u128_str hex of Inr d \<Rightarrow> d | Inl _ \<Rightarrow> hex))"

definition flatten_event :: "u32 \<Rightarrow> json \<Rightarrow> trace_item" where
  "flatten_event vout ev =
     (let event_type = unwrap_or ''unknown'' (jstr [''event''] ev);
          data = unwrap_or (JObj []) (jget ''data'' ev);
          myself = (\<lambda>k. jstr_or_empty [''context'', ''myself'', k] data)
      in \<lparr>ti_vout = vout, ti_type = event_type, ti_data = data,
          ti_block = (if event_type = ''invoke'' then flat_id (myself ''block'') else []),
          ti_tx = (if event_type = ''invoke'' then flat_id (myself ''tx'') else [])\<rparr>)"

definition flatten_trace :: "u32 \<Rightarrow> json \<Rightarrow> trace_item list" where
  "flatten_trace vout res =
     (case as_array res of
        Some arr \<Rightarrow> map (flatten_event vout) arr
      | None \<Rightarrow> [\<lparr>ti_vout = vout, ti_type = ''trace'', ti_data = res, ti_block = [], ti_tx = []\<rparr>])"

text \<open>The error chain as one string, and the upstream error that only skips a protostone.\<close>

definition combined_error :: "string list \<Rightarrow> string" where
  "combined_error chain = join '' | '' chain"

definition is_known_upstream_typeerror :: "string list \<Rightarrow> bool" where
  "is_known_upstream_typeerror chain =
     (let lc = to_ascii_lowercase (combined_error chain)
      in str_contains ''non-standard error object received'' lc \<and>
         str_contains ''cannot read properties of undefined'' lc)"

subsection \<open>One transaction\<close>

text \<open>How the work on a transaction ends: with a result, skipped, or with a fatal error.\<close>

datatype tx_outcome = Traced tx_trace | Skipped | Fatal string

fun trace_protostones ::
  "string \<Rightarrow> string \<Rightarrow> string \<Rightarrow> u32 \<Rightarrow> nat \<Rightarrow> json list \<Rightarrow> tx_trace \<Rightarrow> tx_outcome wact" where
  "trace_protostones url txid_be txid_le start i [] acc = act_return (Traced acc)"
| "trace_protostones url txid_be txid_le start i (p # ps) acc =
     (let vout = start + of_nat i;
          acc1 = acc\<lparr>tt_protostones := tt_protostones acc @
                   [\<lparr>di_vout = vout, di_index = of_nat i, di_decoded = p\<rparr>]\<rparr>
      in act_bind (act_get lib) (\<lambda>l.
         act_bind (act_try (trace_call url txid_le vout)) (\<lambda>r.
           case r of
             Inr res \<Rightarrow>
               trace_protostones url txid_be txid_le start (Suc i) ps
                 (acc1\<lparr>tt_has_trace := True,
                       tt_succeed := (tt_succeed acc \<or> trace_ok_status l res),
                       tt_events := tt_events acc @ flatten_trace vout res\<rparr>)
           | Inl chain \<Rightarrow>
               if is_known_upstream_typeerror chain
               then trace_protostones url txid_be txid_le start (Suc i) ps acc1
               else act_return (Fatal (''trace failed for '' @ txid_be @ '' vout '' @ to_string vout @
                      '': '' @ combined_error chain)))))"

definition decode_and_trace_tx :: "string \<Rightarrow> json \<Rightarrow> tx_outcome wact" where
  "decode_and_trace_tx url tx_json =
     (let txid_str = unwrap_or ''<no-txid>'' (jstr [''txid''] tx_json)
      in act_bind (act_get lib) (\<lambda>l.
         act_bind (act_try (tx_from_json_or_fetch_hex tx_json)) (\<lambda>r.
           case r of
             Inl chain \<Rightarrow> act_return (Fatal (''materialize_tx failed for '' @ txid_str @ '': '' @ error_text chain))
           | Inr tx \<Rightarrow> (case format_runestone l tx of
               Formatted formatted \<Rightarrow>
                 let txid_be = unwrap_or (tx_computed_id tx) (jstr [''transaction_id''] formatted);
                     start = of_nat (tx_outputs tx) + 1;
                     protos = jarr_or_empty [''protostones''] formatted
                 in trace_protostones url txid_be (to_little_endian_hex l txid_be) start 0 protos
                      \<lparr>tt_txid = txid_be, tt_json = tx_json, tt_protostones = [], tt_events = [],
                       tt_has_trace = False, tt_succeed = False\<rparr>
             | _ \<Rightarrow> act_return Skipped))))"

subsection \<open>The batches\<close>

definition make_batches :: "json list \<Rightarrow> json list list" where
  "make_batches op_return_txs =
     (let n = length op_return_txs;
          num_batches = min 10 n;
          batch_size = (n + num_batches - 1) div num_batches
      in chunks batch_size op_return_txs)"

text \<open>
  The concurrent tasks take turns, a transaction at a time; which task that still has work is
  next is the environment's choice.  A task that sees the fatal error stops.
\<close>

definition next_task :: "'a list list \<Rightarrow> (nat \<times> 'a list list) option wact" where
  "next_task tasks w =
     (let live = filter (\<lambda>t. t \<noteq> []) tasks
      in if live = [] then (Inr None, w)
         else (Inr (Some (rank w (joins w) (length live) mod length live, live)), w\<lparr>joins := Suc (joins w)\<rparr>))"

fun run_batches ::
  "nat \<Rightarrow> string \<Rightarrow> json list list \<Rightarrow> tx_trace list \<Rightarrow> (string option \<times> tx_trace list) wact" where
  "run_batches 0 url tasks results = act_return (None, results)"
| "run_batches (Suc fuel) url tasks results =
     act_bind (next_task tasks) (\<lambda>next. case next of
       None \<Rightarrow> act_return (None, results)
     | Some (i, live) \<Rightarrow>
         act_bind (decode_and_trace_tx url (hd (live ! i))) (\<lambda>outcome.
           let tasks' = live[i := tl (live ! i)]
           in case outcome of
                Fatal msg \<Rightarrow> act_return (Some msg, results)
              | Traced r \<Rightarrow> run_batches fuel url tasks' (results @ [r])
              | Skipped \<Rightarrow> run_batches fuel url tasks' results))"

definition traceable_txs :: "json list \<Rightarrow> json list" where
  "traceable_txs txs =
     filter (\<lambda>t. jstr_or_empty [''txid''] t \<notin> set ignored_trace_txids) (filter tx_has_op_return txs)"

definition decode_and_trace_for_block :: "json list \<Rightarrow> tx_trace list wact" where
  "decode_and_trace_for_block txs =
     act_bind (act_get resolve_sandshrew_url) (\<lambda>url.
       let op_return_txs = traceable_txs txs
       in if op_return_txs = [] then act_return []
          else act_bind (run_batches (Suc (length op_return_txs)) url (make_batches op_return_txs) [])
                 (\<lambda>(fatal_err, results). case fatal_err of
                    Some err \<Rightarrow> act_fail (anyhow err) | None \<Rightarrow> act_return results))"

subsection \<open>What the tracing leaves alone\<close>

lemma leaves_fetch_hex:
  assumes "\<And>ask. leaves g (provider_call ask :: string attempt wact)" "\<And>d. leaves g (sleep_ms d)"
  shows "leaves g (fetch_hex_esplora txid n a)" "leaves g (fetch_hex_bitcoind txid n a)"
proof -
  show "leaves g (fetch_hex_esplora txid n a)"
    by (induction n arbitrary: a) (auto intro!: leaves_bind assms leaves_return leaves_if split: attempt.split)
  show "leaves g (fetch_hex_bitcoind txid n a)"
    by (induction n arbitrary: a)
      (auto intro!: leaves_bind assms leaves_return leaves_fail leaves_if split: attempt.split)
qed

lemma leaves_trace:
  assumes "\<And>ask. leaves g (provider_call ask :: string attempt wact)" "\<And>d. leaves g (sleep_ms d)"
    "\<And>url m ps. leaves g (resilient_call_with_last_error url m ps)"
  shows "leaves g (tx_from_json_or_fetch_hex tx_json)"
    and "leaves g (trace_protostones url txid_be txid_le start i ps acc)"
    and "leaves g (decode_and_trace_tx url tx_json)"
proof -
  show 1: "leaves g (tx_from_json_or_fetch_hex tx_json)" for tx_json
    unfolding tx_from_json_or_fetch_hex_def
    by (intro leaves_bind leaves_case_option leaves_if leaves_get leaves_lift leaves_fail leaves_return
        leaves_fetch_hex assms)
  show 2: "leaves g (trace_protostones url txid_be txid_le start i ps acc)" for txid_be txid_le start i ps acc
    by (induction ps arbitrary: i acc)
      (auto simp: Let_def trace_call_def intro!: leaves_bind leaves_case_sum leaves_if leaves_get leaves_try
        leaves_context leaves_return assms)
  show "leaves g (decode_and_trace_tx url tx_json)"
    unfolding decode_and_trace_tx_def Let_def
    by (intro leaves_bind leaves_case_sum leaves_get leaves_try 1 leaves_return)
      (auto intro!: 2 leaves_return split: formatted.split)
qed

lemma leaves_next_task [intro]: "(\<And>w n. g (w\<lparr>joins := n\<rparr>) = g w) \<Longrightarrow> leaves g (next_task tasks)"
  by (simp add: leaves_def next_task_def Let_def)

lemma leaves_run_batches:
  assumes "\<And>ask. leaves g (provider_call ask :: string attempt wact)" "\<And>d. leaves g (sleep_ms d)"
    "\<And>url m ps. leaves g (resilient_call_with_last_error url m ps)" "\<And>w n. g (w\<lparr>joins := n\<rparr>) = g w"
  shows "leaves g (run_batches fuel url tasks results)"
  by (induction fuel arbitrary: tasks results)
    (auto simp: Let_def intro!: leaves_bind leaves_case_option leaves_next_task assms leaves_return
      leaves_trace(3) split: prod.split tx_outcome.split)

lemma leaves_decode_and_trace [intro]:
  "leaves sdb (decode_and_trace_for_block txs)" "leaves published (decode_and_trace_for_block txs)"
  unfolding decode_and_trace_for_block_def Let_def
  by (intro leaves_bind leaves_get leaves_if leaves_return leaves_run_batches;
      auto intro!: leaves_return leaves_fail split: option.split)+

subsection \<open>The batches partition the work\<close>

lemma length_chunks_le: "0 < k \<Longrightarrow> length xs \<le> m * k \<Longrightarrow> length (chunks k xs) \<le> m"
proof (induction k xs arbitrary: m rule: chunks.induct)
  case (1 k xs)
  show ?case
  proof (cases "xs = []")
    case False
    then obtain m' where m: "m = Suc m'" using 1(3) by (cases m) auto
    then have "length (drop k xs) \<le> m' * k" using 1(3) by simp
    then have "length (chunks k (drop k xs)) \<le> m'" using 1(1) [of m'] 1(2) False by simp
    then show ?thesis using 1(2) False m by (subst chunks.simps) simp
  qed simp
qed

lemma make_batches_size:
  assumes "txs \<noteq> []"
  defines "n \<equiv> length txs" and "b \<equiv> (length txs + min 10 (length txs) - 1) div min 10 (length txs)"
  shows "0 < b" and "n \<le> min 10 n * b"
proof -
  define nb where "nb = min 10 n"
  have nb: "0 < nb" "nb \<le> n" using assms(1) by (auto simp: nb_def n_def)
  have b: "b = (n + nb - 1) div nb" by (simp add: b_def nb_def n_def)
  have "nb \<le> n + nb - 1" using nb by simp
  then show "0 < b" unfolding b using nb(1) by (simp add: div_greater_zero_iff)
  have "n + nb - 1 < nb * Suc b" unfolding b
    using dividend_less_times_div [OF nb(1), of "n + nb - 1"] by simp
  then show "n \<le> min 10 n * b" using nb by (simp add: nb_def)
qed

lemma make_batches_partition:
  "concat (make_batches txs) = txs" "length (make_batches txs) \<le> 10"
proof -
  show "concat (make_batches txs) = txs"
    using make_batches_size(1) [of txs] by (cases "txs = []") (auto simp: make_batches_def Let_def concat_chunks)
  show "length (make_batches txs) \<le> 10"
  proof (cases "txs = []")
    case False
    have "length txs \<le> 10 * ((length txs + min 10 (length txs) - 1) div min 10 (length txs))"
      by (rule order_trans [OF make_batches_size(2) [OF False]]) simp
    with length_chunks_le [OF make_batches_size(1) [OF False]] show ?thesis
      by (simp add: make_batches_def Let_def)
  qed (simp add: make_batches_def)
qed

subsection \<open>What a traced transaction holds\<close>

definition shadow_items :: "u32 \<Rightarrow> nat \<Rightarrow> json list \<Rightarrow> decoded_item list" where
  "shadow_items start i ps =
     map (\<lambda>(k, p). \<lparr>di_vout = start + of_nat k, di_index = of_nat k, di_decoded = p\<rparr>) (enumerate i ps)"

text \<open>What was learnt about one protostone: the result of the provider for its \<open>vout\<close>, or nothing
  when the provider reported the upstream error that skips a protostone.\<close>

definition trace_params :: "string \<Rightarrow> u32 \<Rightarrow> json" where
  "trace_params txid_le vout = JArr [JObj [(''txid'', JStr txid_le), (''vout'', JNum (PosInt (ucast vout)))]]"

fun trace_answer :: "provider \<Rightarrow> string \<Rightarrow> string \<Rightarrow> u32 \<Rightarrow> json option \<Rightarrow> bool" where
  "trace_answer pr url txid_le vout (Some res) \<longleftrightarrow>
     (\<exists>n. rpc_answer pr n url ''alkanes_trace'' (trace_params txid_le vout) = Answered res)"
| "trace_answer pr url txid_le vout None \<longleftrightarrow>
     (\<exists>n msg. rpc_answer pr n url ''alkanes_trace'' (trace_params txid_le vout) = Failed msg \<and>
        is_non_retriable ''alkanes_trace'' msg)"

definition answer_events :: "u32 \<Rightarrow> nat \<Rightarrow> json option list \<Rightarrow> trace_item list" where
  "answer_events start i answers =
     concat (map (\<lambda>(k, a). case a of None \<Rightarrow> [] | Some res \<Rightarrow> flatten_trace (start + of_nat k) res) (enumerate i answers))"

lemma str_contains_across:
  assumes "str_contains pat (a @ c # b)" "c \<notin> set pat" "pat \<noteq> []"
  shows "str_contains pat a \<or> str_contains pat b"
  using assms(1)
proof (induction a)
  case Nil
  with assms(2,3) show ?case by (cases pat) auto
next
  case (Cons x a)
  show ?case
  proof (cases "prefix pat (x # a)")
    case True
    then show ?thesis by simp
  next
    case False
    have "\<not> prefix pat (x # a @ c # b)"
    proof
      assume "prefix pat (x # a @ c # b)"
      then have "prefix pat ((x # a) @ c # b)" by simp
      then have "prefix pat (x # a) \<or> (\<exists>ys. pat = (x # a) @ ys \<and> prefix ys (c # b))" by (simp only: prefix_append)
      with False obtain ys where "pat = (x # a) @ ys" "ys \<noteq> []" "prefix ys (c # b)" by auto
      with assms(2) show False by (cases ys) auto
    qed
    with Cons show ?thesis by auto
  qed
qed

lemma known_error_is_reported:
  assumes "trace_call url txid_le vout w = (Inl (Error chain), w')" "is_known_upstream_typeerror chain"
  shows "trace_answer (prov w) url txid_le vout None"
proof -
  let ?final = "\<lambda>last. ''rpc_failed_after_retries: last_error='' @ unwrap_or [] last"
  let ?ask = "\<lambda>p n. rpc_answer p n url ''alkanes_trace'' (trace_params txid_le vout)"
  let ?fatal = "is_non_retriable ''alkanes_trace''"
  obtain inner where chain: "chain = ''alkanes_trace call failed'' # inner"
    and "resilient ?fatal ?final (provider_call ?ask) w = (Inl (Error inner), w')"
    using assms(1)
    by (auto simp: trace_call_def act_context_def resilient_call_with_last_error_def trace_params_def
        split: prod.splits elim!: with_context.elims)
  from resilient_Error [OF this(2)] consider
      (breaker) "inner = [''rpc_circuit_open'']"
    | (fatal) n msg where "?ask (prov w) n = Failed msg" "?fatal msg"
    | (last) n where "\<not> stops ?fatal (?ask (prov w) n)" "inner = [?final (attempt_error (?ask (prov w) n))]"
    by blast
  then show ?thesis
  proof cases
    case breaker
    with assms(2) chain show ?thesis
      by (simp add: is_known_upstream_typeerror_def combined_error_def to_ascii_lowercase_def lower_char_def)
  next
    case fatal
    then show ?thesis by auto
  next
    case last
    from last(1) show ?thesis
    proof (cases "?ask (prov w) n")
      case (Failed msg)
      let ?pre = "to_ascii_lowercase ''alkanes_trace call failed | rpc_failed_after_retries: last_error''"
      have "to_ascii_lowercase (combined_error chain) = ?pre @ CHR ''='' # to_ascii_lowercase msg"
        by (simp add: chain last(2) Failed combined_error_def to_ascii_lowercase_def lower_char_def)
      then have "str_contains pat (to_ascii_lowercase msg)"
        if "str_contains pat (to_ascii_lowercase (combined_error chain))" "CHR ''='' \<notin> set pat" "pat \<noteq> []"
          "\<not> str_contains pat ?pre" for pat
        using str_contains_across [of pat ?pre "CHR ''=''"] that by auto
      note in_msg = this
      have "str_contains ''non-standard error object received'' (to_ascii_lowercase msg)"
        by (rule in_msg) (use assms(2) in \<open>simp_all add: is_known_upstream_typeerror_def Let_def\<close>,
          simp_all add: to_ascii_lowercase_def lower_char_def)
      moreover have "str_contains ''cannot read properties of undefined'' (to_ascii_lowercase msg)"
        by (rule in_msg) (use assms(2) in \<open>simp_all add: is_known_upstream_typeerror_def Let_def\<close>,
          simp_all add: to_ascii_lowercase_def lower_char_def)
      ultimately have "?fatal msg" by (simp add: is_non_retriable_def)
      with last(1) Failed show ?thesis by simp
    next
      case Timed_out
      with last(2) chain assms(2) show ?thesis
        by (simp add: is_known_upstream_typeerror_def combined_error_def to_ascii_lowercase_def lower_char_def)
    qed simp
  qed
qed

text \<open>How the transaction is obtained: from the hex of its JSON, otherwise from the hex that the
  provider answers for its txid.\<close>

definition materialised :: "provider \<Rightarrow> libs \<Rightarrow> json \<Rightarrow> transaction \<Rightarrow> bool" where
  "materialised pr l t tx \<longleftrightarrow>
     (case jstr [''hex''] t of
        Some hex \<Rightarrow> decode_tx l hex = Inr tx
      | None \<Rightarrow> \<exists>txid hex n. jstr [''txid''] t = Some txid \<and> decode_tx l hex = Inr tx \<and>
          (hex \<noteq> [] \<and> tx_hex_answer pr n txid = Answered hex \<or> transaction_hex_answer pr n txid = Answered hex))"

lemma fetch_hex_answers:
  "fetch_hex_esplora txid k attempt w = (Inr hex, w') \<Longrightarrow> prov w' = prov w \<and>
     (hex \<noteq> [] \<longrightarrow> (\<exists>n. tx_hex_answer (prov w) n txid = Answered hex))"
  "fetch_hex_bitcoind txid k attempt w = (Inr hex, w') \<Longrightarrow> \<exists>n. transaction_hex_answer (prov w) n txid = Answered hex"
proof -
  have leaves: "leaves prov (fetch_hex_esplora txid k attempt)" by (intro leaves_fetch_hex) auto
  assume run: "fetch_hex_esplora txid k attempt w = (Inr hex, w')"
  have "hex \<noteq> [] \<longrightarrow> (\<exists>n. tx_hex_answer (prov w) n txid = Answered hex)"
    using run
    by (induction k arbitrary: attempt w)
      (fastforce simp: act_bind_Inr act_return_def provider_call_def sleep_ms_def act_modify_def
        split: attempt.splits if_splits)+
  with leavesD [OF leaves run] show "prov w' = prov w \<and> (hex \<noteq> [] \<longrightarrow> (\<exists>n. tx_hex_answer (prov w) n txid = Answered hex))"
    by simp
next
  show "fetch_hex_bitcoind txid k attempt w = (Inr hex, w') \<Longrightarrow> \<exists>n. transaction_hex_answer (prov w) n txid = Answered hex"
    by (induction k arbitrary: attempt w)
      (fastforce simp: act_bind_Inr act_return_def act_fail_def provider_call_def sleep_ms_def act_modify_def
        split: attempt.splits if_splits)+
qed

lemma tx_from_json_Inr:
  assumes "tx_from_json_or_fetch_hex t w = (Inr tx, w')"
  shows "materialised (prov w) (lib w) t tx"
proof (cases "jstr [''hex''] t")
  case (Some hex)
  with assms show ?thesis
    by (auto simp: tx_from_json_or_fetch_hex_def act_bind_get lift_res_def materialised_def)
next
  case None
  with assms obtain txid where txid: "jstr [''txid''] t = Some txid"
    by (auto simp: tx_from_json_or_fetch_hex_def act_bind_get act_fail_def split: option.splits)
  from assms None txid obtain h w1 hex w2 where
    1: "fetch_hex_esplora txid 2 1 w = (Inr h, w1)"
    and 2: "(if h \<noteq> [] then act_return h else fetch_hex_bitcoind txid 3 1) w1 = (Inr hex, w2)"
    and 3: "decode_tx (lib w) hex = Inr tx"
    by (auto simp: tx_from_json_or_fetch_hex_def act_bind_get act_bind_Inr lift_res_def)
  from fetch_hex_answers(1) [OF 1] fetch_hex_answers(2) [of txid 3 1 w1 hex w2] 2
  have "\<exists>n. hex \<noteq> [] \<and> tx_hex_answer (prov w) n txid = Answered hex \<or> transaction_hex_answer (prov w) n txid = Answered hex"
    by (cases "h = []") (auto simp: act_return_def)
  with None txid 3 show ?thesis by (auto simp: materialised_def)
qed

lemma trace_protostones_round:
  assumes "trace_protostones url txid_be txid_le start i (p # ps) acc w = (Inr (Traced r), w')"
  obtains a acc' w1 where
    "trace_protostones url txid_be txid_le start (Suc i) ps acc' w1 = (Inr (Traced r), w')"
    "prov w1 = prov w" "lib w1 = lib w" "trace_answer (prov w) url txid_le (start + of_nat i) a"
    "acc' = acc\<lparr>tt_protostones := tt_protostones acc @
        [\<lparr>di_vout = start + of_nat i, di_index = of_nat i, di_decoded = p\<rparr>],
      tt_has_trace := (tt_has_trace acc \<or> a \<noteq> None),
      tt_succeed := (tt_succeed acc \<or> (\<exists>res. a = Some res \<and> trace_ok_status (lib w) res)),
      tt_events := tt_events acc @ (case a of None \<Rightarrow> [] | Some res \<Rightarrow> flatten_trace (start + of_nat i) res)\<rparr>"
proof -
  let ?vout = "start + of_nat i"
  let ?acc1 = "acc\<lparr>tt_protostones := tt_protostones acc @ [\<lparr>di_vout = ?vout, di_index = of_nat i, di_decoded = p\<rparr>]\<rparr>"
  have stays: "prov w1 = prov w \<and> lib w1 = lib w" if "trace_call url txid_le ?vout w = (res, w1)" for res w1
  proof -
    have "leaves prov (trace_call url txid_le ?vout)" "leaves lib (trace_call url txid_le ?vout)"
      unfolding trace_call_def by auto
    from leavesD [OF this(1) that] leavesD [OF this(2) that] show ?thesis by simp
  qed
  from assms consider
      (answer) res w1 where "trace_call url txid_le ?vout w = (Inr res, w1)"
        "trace_protostones url txid_be txid_le start (Suc i) ps
          (?acc1\<lparr>tt_has_trace := True, tt_succeed := (tt_succeed acc \<or> trace_ok_status (lib w) res),
             tt_events := tt_events acc @ flatten_trace ?vout res\<rparr>) w1 = (Inr (Traced r), w')"
    | (skip) chain w1 where "trace_call url txid_le ?vout w = (Inl (Error chain), w1)" "is_known_upstream_typeerror chain"
        "trace_protostones url txid_be txid_le start (Suc i) ps ?acc1 w1 = (Inr (Traced r), w')"
    by (auto simp: Let_def act_bind_try_Inr act_bind_get act_return_def split: if_splits)
  then show thesis
  proof cases
    case answer
    have "\<exists>n. rpc_answer (prov w) n url ''alkanes_trace'' (trace_params txid_le ?vout) = Answered res"
      using answer(1) resilient_Inr [where ask = "\<lambda>p n. rpc_answer p n url ''alkanes_trace'' (trace_params txid_le ?vout)"]
      by (auto simp: trace_call_def act_context_def resilient_call_with_last_error_def trace_params_def split: prod.splits)
    with answer stays [OF answer(1)] show thesis by (intro that [of _ w1 "Some res"]) auto
  next
    case skip
    with known_error_is_reported [OF skip(1,2)] stays [OF skip(1)] show thesis
      by (intro that [of _ w1 None]) (cases acc, auto)
  qed
qed

lemma trace_protostones_Traced:
  assumes "trace_protostones url txid_be txid_le start i ps acc w = (Inr (Traced r), w')"
  shows "tt_txid r = tt_txid acc \<and> tt_json r = tt_json acc \<and>
    tt_protostones r = tt_protostones acc @ shadow_items start i ps \<and>
    (\<exists>answers. length answers = length ps \<and>
      list_all (\<lambda>(k, a). trace_answer (prov w) url txid_le (start + of_nat k) a) (enumerate i answers) \<and>
      tt_events r = tt_events acc @ answer_events start i answers \<and>
      (tt_has_trace r \<longleftrightarrow> tt_has_trace acc \<or> (\<exists>res. Some res \<in> set answers)) \<and>
      (tt_succeed r \<longleftrightarrow> tt_succeed acc \<or> (\<exists>res. Some res \<in> set answers \<and> trace_ok_status (lib w) res)))"
  using assms
proof (induction ps arbitrary: i acc w)
  case (Cons p ps)
  let ?vout = "start + of_nat i"
  let ?item = "\<lparr>di_vout = ?vout, di_index = of_nat i, di_decoded = p\<rparr>"
  obtain a acc' w1 where
    next_round: "trace_protostones url txid_be txid_le start (Suc i) ps acc' w1 = (Inr (Traced r), w')"
    and world: "prov w1 = prov w" "lib w1 = lib w" and a: "trace_answer (prov w) url txid_le ?vout a"
    and acc': "acc' = acc\<lparr>tt_protostones := tt_protostones acc @ [?item],
      tt_has_trace := (tt_has_trace acc \<or> a \<noteq> None),
      tt_succeed := (tt_succeed acc \<or> (\<exists>res. a = Some res \<and> trace_ok_status (lib w) res)),
      tt_events := tt_events acc @ (case a of None \<Rightarrow> [] | Some res \<Rightarrow> flatten_trace ?vout res)\<rparr>"
    by (rule trace_protostones_round [OF Cons.prems])
  from Cons.IH [OF next_round] obtain answers where "length answers = length ps"
    "list_all (\<lambda>(k, a). trace_answer (prov w) url txid_le (start + of_nat k) a) (enumerate (Suc i) answers)"
    "tt_events r = tt_events acc' @ answer_events start (Suc i) answers"
    "tt_has_trace r \<longleftrightarrow> tt_has_trace acc' \<or> (\<exists>res. Some res \<in> set answers)"
    "tt_succeed r \<longleftrightarrow> tt_succeed acc' \<or> (\<exists>res. Some res \<in> set answers \<and> trace_ok_status (lib w) res)"
    "tt_txid r = tt_txid acc'" "tt_json r = tt_json acc'"
    "tt_protostones r = tt_protostones acc' @ shadow_items start (Suc i) ps"
    unfolding world by blast
  with a acc' show ?case
    by (intro conjI exI [of _ "a # answers"]) (auto simp: shadow_items_def answer_events_def)
qed (simp add: act_return_def shadow_items_def answer_events_def)

text \<open>What the block's work is to give for the transaction \<open>t\<close>: nothing when its runestone cannot
  be formatted; otherwise its trace, with one item per protostone at consecutive shadow \<open>vout\<close>s
  after the outputs, and the events that the provider answered for those \<open>vout\<close>s, in order.\<close>

definition decided_trace :: "provider \<Rightarrow> libs \<Rightarrow> string \<Rightarrow> json \<Rightarrow> transaction \<Rightarrow> tx_trace \<Rightarrow> bool" where
  "decided_trace pr l url t tx r \<longleftrightarrow>
     (let start = of_nat (tx_outputs tx) + 1 in
      \<exists>f answers. format_runestone l tx = Formatted f \<and> tt_json r = t \<and>
        tt_txid r = unwrap_or (tx_computed_id tx) (jstr [''transaction_id''] f) \<and>
        tt_protostones r = shadow_items start 0 (jarr_or_empty [''protostones''] f) \<and>
        length answers = length (tt_protostones r) \<and>
        list_all (\<lambda>(k, a). trace_answer pr url (to_little_endian_hex l (tt_txid r)) (start + of_nat k) a)
          (enumerate 0 answers) \<and>
        tt_events r = answer_events start 0 answers \<and>
        (tt_has_trace r \<longleftrightarrow> (\<exists>res. Some res \<in> set answers)) \<and>
        (tt_succeed r \<longleftrightarrow> (\<exists>res. Some res \<in> set answers \<and> trace_ok_status l res)))"

definition decided :: "provider \<Rightarrow> libs \<Rightarrow> string \<Rightarrow> json \<Rightarrow> tx_trace option \<Rightarrow> bool" where
  "decided pr l url t out \<longleftrightarrow>
     (\<exists>tx. materialised pr l t tx \<and>
       (case out of
          None \<Rightarrow> \<not> (\<exists>f. format_runestone l tx = Formatted f)
        | Some r \<Rightarrow> decided_trace pr l url t tx r))"

lemma decode_and_trace_tx_decided:
  assumes "decode_and_trace_tx url t w = (Inr outcome, w')"
  shows "(\<exists>r. outcome = Traced r \<and> decided (prov w) (lib w) url t (Some r)) \<or>
    (outcome = Skipped \<and> decided (prov w) (lib w) url t None) \<or> (\<exists>msg. outcome = Fatal msg)"
proof -
  obtain r w1 where 1: "act_try (tx_from_json_or_fetch_hex t) w = (Inr r, w1)"
    using assms by (auto simp: decode_and_trace_tx_def act_bind_Inr act_get_def)
  show ?thesis
  proof (cases r)
    case (Inl chain)
    with assms 1 show ?thesis
      by (auto simp: decode_and_trace_tx_def act_bind_def act_get_def act_return_def)
  next
    case (Inr tx)
    then have m: "materialised (prov w) (lib w) t tx" using 1 by (auto simp: act_try_Inr intro: tx_from_json_Inr)
    have w1: "prov w1 = prov w" "lib w1 = lib w"
      using leavesD [OF leaves_try [OF leaves_trace(1)] 1, of prov] leavesD [OF leaves_try [OF leaves_trace(1)] 1, of lib] by auto
    show ?thesis
    proof (cases "format_runestone (lib w) tx")
      case (Formatted f)
      let ?acc = "\<lparr>tt_txid = unwrap_or (tx_computed_id tx) (jstr [''transaction_id''] f), tt_json = t,
        tt_protostones = [], tt_events = [], tt_has_trace = False, tt_succeed = False\<rparr>"
      have "trace_protostones url (tt_txid ?acc) (to_little_endian_hex (lib w) (tt_txid ?acc))
          (of_nat (tx_outputs tx) + 1) 0 (jarr_or_empty [''protostones''] f) ?acc w1 = (Inr outcome, w')"
        using assms 1 Inr Formatted
        by (simp add: decode_and_trace_tx_def act_bind_def act_get_def Let_def)
      note run = this
      show ?thesis
      proof (cases outcome)
        case (Traced r)
        let ?ps = "jarr_or_empty [''protostones''] f" and ?start = "of_nat (tx_outputs tx) + 1 :: u32"
        from trace_protostones_Traced [OF run [unfolded Traced]] obtain answers where
          kept: "tt_txid r = tt_txid ?acc" "tt_json r = t" "tt_protostones r = shadow_items ?start 0 ?ps"
          and answers: "length answers = length ?ps"
            "list_all (\<lambda>(k, a). trace_answer (prov w) url (to_little_endian_hex (lib w) (tt_txid ?acc)) (?start + of_nat k) a)
               (enumerate 0 answers)"
            "tt_events r = answer_events ?start 0 answers"
            "tt_has_trace r \<longleftrightarrow> (\<exists>res. Some res \<in> set answers)"
            "tt_succeed r \<longleftrightarrow> (\<exists>res. Some res \<in> set answers \<and> trace_ok_status (lib w) res)"
          unfolding w1 by auto
        have "length answers = length (tt_protostones r)" by (simp add: kept(3) answers(1) shadow_items_def)
        with kept answers Formatted have "decided_trace (prov w) (lib w) url t tx r"
          unfolding decided_trace_def Let_def by (intro exI [of _ f] exI [of _ answers]) simp
        with m have "decided (prov w) (lib w) url t (Some r)"
          unfolding decided_def by auto
        with Traced show ?thesis by blast
      next
        case Skipped
        have "outcome \<noteq> Skipped"
          if "trace_protostones url be le start i ps acc w1 = (Inr outcome, w')" for be le start i ps acc w1
          using that
          by (induction ps arbitrary: i acc w1)
            (auto simp: Let_def act_bind_try_Inr act_bind_get act_return_def split: if_splits)
        with run Skipped show ?thesis by blast
      qed auto
    next
      case (Format_error e)
      with assms 1 Inr m show ?thesis
        by (auto simp: decode_and_trace_tx_def act_bind_def act_get_def act_return_def decided_def)
    next
      case Format_panic
      with assms 1 Inr m show ?thesis
        by (auto simp: decode_and_trace_tx_def act_bind_def act_get_def act_return_def decided_def)
    qed
  qed
qed

subsection \<open>The concurrent batches\<close>

lemma mset_concat_take_one:
  assumes "i < length ts" "ts ! i \<noteq> []"
  shows "mset (concat ts) = {#hd (ts ! i)#} + mset (concat (ts[i := tl (ts ! i)]))"
proof -
  have ts: "ts = take i ts @ ts ! i # drop (Suc i) ts" by (rule id_take_nth_drop [OF assms(1)])
  have "mset (concat ts) = mset (concat (take i ts)) + mset (ts ! i) + mset (concat (drop (Suc i) ts))"
    by (subst ts) simp
  also have "mset (ts ! i) = {#hd (ts ! i)#} + mset (tl (ts ! i))"
    using assms(2) by (cases "ts ! i") auto
  finally show ?thesis using assms(1) by (simp add: upd_conv_take_nth_drop)
qed

lemma concat_filter_nonempty: "concat (filter (\<lambda>t. t \<noteq> []) ts) = concat ts"
  by (induction ts) auto

lemma next_task_cases:
  assumes "next_task tasks w = (Inr r, w')"
  obtains (idle) "r = None" "concat tasks = []"
  | (task) i live where "r = Some (i, live)" "i < length live" "live ! i \<noteq> []" "concat live = concat tasks"
proof (cases "filter (\<lambda>t. t \<noteq> []) tasks = []")
  case True
  with assms have "r = None" by (simp add: next_task_def)
  moreover have "concat tasks = []" using True by (auto simp: filter_empty_conv)
  ultimately show thesis by (rule idle)
next
  case False
  let ?live = "filter (\<lambda>t. t \<noteq> []) tasks"
  obtain i where i: "r = Some (i, ?live)" "i < length ?live"
    using assms False by (auto simp: next_task_def Let_def)
  then have "?live ! i \<in> set ?live" by (rule_tac nth_mem)
  then have "?live ! i \<noteq> []" by simp
  with i show thesis by (intro task [of i ?live]) (simp_all add: concat_filter_nonempty)
qed

lemma run_batches_decided:
  assumes "run_batches fuel url tasks results w = (Inr (None, results'), w')" "length (concat tasks) < fuel"
  shows "\<exists>order outs. mset order = mset (concat tasks) \<and> list_all2 (decided (prov w) (lib w) url) order outs \<and>
    results' = results @ List.map_filter (\<lambda>out. out) outs"
  using assms
proof (induction fuel arbitrary: tasks results w)
  case (Suc fuel)
  from Suc.prems(1) obtain r w1 where nt: "next_task tasks w = (Inr r, w1)"
    by (auto simp: act_bind_Inr)
  have lib1: "lib w1 = lib w" "prov w1 = prov w"
    by (rule leavesD [OF leaves_next_task nt], simp)+
  from nt show ?case
  proof (cases rule: next_task_cases)
    case idle
    with Suc.prems(1) nt have "results' = results" by (simp add: act_bind_def act_return_def)
    with idle(2) show ?thesis
      by (intro exI [of _ "[]"]) (auto simp: List.map_filter_simps)
  next
    case (task i live)
    let ?t = "hd (live ! i)" and ?tasks = "live[i := tl (live ! i)]"
    obtain outcome w2 where dt: "decode_and_trace_tx url ?t w1 = (Inr outcome, w2)"
      and rest: "(case outcome of Fatal msg \<Rightarrow> act_return (Some msg, results)
          | Traced r \<Rightarrow> run_batches fuel url ?tasks (results @ [r])
          | Skipped \<Rightarrow> run_batches fuel url ?tasks results) w2 = (Inr (None, results'), w')"
      using Suc.prems(1) nt task(1) by (auto simp: act_bind_def Let_def split: prod.splits sum.splits)
    have lib2: "lib w2 = lib w" "prov w2 = prov w"
      using leavesD [OF leaves_trace(3) dt, of lib] leavesD [OF leaves_trace(3) dt, of prov] lib1 by auto
    have split: "mset (concat tasks) = {#?t#} + mset (concat ?tasks)"
      using mset_concat_take_one [OF task(2,3)] task(4) by simp
    then have "length (concat tasks) = Suc (length (concat ?tasks))"
      by (metis size_mset size_union size_single plus_1_eq_Suc)
    with Suc.prems(2) have shorter: "length (concat ?tasks) < fuel" by simp
    show ?thesis
    proof (cases outcome)
      case (Traced r)
      with decode_and_trace_tx_decided [OF dt] lib1 have d: "decided (prov w) (lib w) url ?t (Some r)" by simp
      from Suc.IH [OF _ shorter, of "results @ [r]" w2] rest Traced lib2
      obtain order outs where "mset order = mset (concat ?tasks)" "list_all2 (decided (prov w) (lib w) url) order outs"
        "results' = (results @ [r]) @ List.map_filter (\<lambda>out. out) outs" by auto
      with d split show ?thesis
        by (intro exI [of _ "?t # order"] exI [of _ "Some r # outs"]) (simp add: List.map_filter_simps)
    next
      case Skipped
      with decode_and_trace_tx_decided [OF dt] lib1 have d: "decided (prov w) (lib w) url ?t None" by simp
      from Suc.IH [OF _ shorter, of results w2] rest Skipped lib2
      obtain order outs where "mset order = mset (concat ?tasks)" "list_all2 (decided (prov w) (lib w) url) order outs"
        "results' = results @ List.map_filter (\<lambda>out. out) outs" by auto
      with d split show ?thesis
        by (intro exI [of _ "?t # order"] exI [of _ "None # outs"]) (simp add: List.map_filter_simps)
    next
      case (Fatal msg)
      with rest show ?thesis by (simp add: act_return_def)
    qed
  qed
qed simp

subsection \<open>Error texts\<close>

lemma str_contains_append: "str_contains pat s \<Longrightarrow> str_contains pat (a @ s)"
  by (induction a) auto

lemma to_ascii_lowercase_append: "to_ascii_lowercase (a @ b) = to_ascii_lowercase a @ to_ascii_lowercase b"
  by (simp add: to_ascii_lowercase_def)

subsection \<open>Properties\<close>

text \<open>
  C9: tracing the transactions of a block either fails or accounts for every \<open>OP_RETURN\<close>
  transaction that is not on the ignore list exactly once, in the order in which the
  concurrent batches finish them.  Each was built from its own hex, or from the hex the provider
  answers for its txid; either its runestone cannot be formatted, or the results hold its trace:
  its protostones at the shadow \<open>vout\<close>s, the flattened events of what the provider answered for
  that txid at each of them (a protostone answered with the known upstream error gives none), and
  the two flags.  The results hold nothing else.
\<close>

theorem decode_and_trace_complete:
  assumes "decode_and_trace_for_block txs w = (Inr results, w')"
  shows "\<exists>order outs. mset order = mset (traceable_txs txs) \<and> 
      list_all2 (decided (prov w) (lib w) (resolve_sandshrew_url w)) order outs \<and>
    results = List.map_filter (\<lambda>out. out) outs"
proof (cases "traceable_txs txs = []")
  case True
  with assms show ?thesis
    by (intro exI [of _ "[]"])
      (auto simp: decode_and_trace_for_block_def act_bind_get act_return_def List.map_filter_simps)
next
  case False
  with assms have run: "run_batches (Suc (length (traceable_txs txs))) (resolve_sandshrew_url w)
      (make_batches (traceable_txs txs)) [] w = (Inr (None, results), w')"
    by (auto simp: decode_and_trace_for_block_def act_bind_get act_bind_Inr act_return_def act_fail_def Let_def
        simp del: run_batches.simps split: option.splits)
  have "length (concat (make_batches (traceable_txs txs))) < Suc (length (traceable_txs txs))"
    by (simp add: make_batches_partition)
  from run_batches_decided [OF run this] show ?thesis by (simp add: make_batches_partition)
qed

definition op_return_tx :: "string \<Rightarrow> json" where
  "op_return_tx txid = JObj [(''txid'', JStr txid), (''hex'', JStr ''00''),
     (''vout'', JArr [JObj [(''scriptpubkey_type'', JStr ''op_return'')]])]"

definition tracing_world :: world where
  "tracing_world = example_world\<lparr>calls := 1,
     lib := \<lparr>hex_decode = (\<lambda>s. Some []), hex_encode = (\<lambda>bs. ''ab''),
       deserialize_tx = (\<lambda>bs. Some \<lparr>tx_outputs = 3, tx_computed_id = ''t'', tx_raw = []\<rparr>),
       format_runestone = (\<lambda>t. Formatted (JObj [(''protostones'', JArr [JNull])])),
       trace_exits = (\<lambda>v. None), utc_timestamp = (\<lambda>s. Some (sint s))\<rparr>\<rparr>"

lemma op_return_tx_simps:
  "tx_has_op_return (op_return_tx t)" "jstr [''hex''] (op_return_tx t) = Some ''00''"
  "jstr [''txid''] (op_return_tx t) = Some t" "jstr_or_empty [''txid''] (op_return_tx t) = t"
  by (simp_all add: op_return_tx_def tx_has_op_return_def output_has_op_return_def json_access_defs
      eq_ignore_ascii_case_def)

lemma traceable_op_return_tx: "traceable_txs [op_return_tx ''t''] = [op_return_tx ''t'']"
  by (simp add: traceable_txs_def op_return_tx_simps ignored_trace_txids_def)

lemma tracing_world_simps:
  "prov tracing_world = example_provider" "calls tracing_world = 1" "\<not> cb_open tracing_world"
  "hex_decode (lib tracing_world) h = Some []"
  "deserialize_tx (lib tracing_world) b = Some \<lparr>tx_outputs = 3, tx_computed_id = ''t'', tx_raw = []\<rparr>"
  "format_runestone (lib tracing_world) tx = Formatted (JObj [(''protostones'', JArr [JNull])])"
  "retry_config_of (tracing_world\<lparr>joins := n\<rparr>) = \<lparr>max_attempts = 5, base_delay_ms = 200, max_delay_ms = 5000\<rparr>"
  by (simp_all add: tracing_world_def retry_config_of_def env_num_def) (simp_all add: example_world_def)

lemma tracing_run:
  "\<exists>r w'. decode_and_trace_tx url (op_return_tx ''t'') (tracing_world\<lparr>joins := n\<rparr>) = (Inr (Traced r), w')"
proof -
  let ?tx = "\<lparr>tx_outputs = 3, tx_computed_id = ''t'', tx_raw = []\<rparr>"
  have tx: "tx_from_json_or_fetch_hex (op_return_tx ''t'') (tracing_world\<lparr>joins := n\<rparr>) = (Inr ?tx, tracing_world\<lparr>joins := n\<rparr>)"
    by (simp add: tx_from_json_or_fetch_hex_def act_bind_get lift_res_def decode_tx_def op_return_tx_simps
        tracing_world_simps)
  have f: "jstr [''transaction_id''] (JObj [(''protostones'', JArr [JNull])]) = None"
    "jarr_or_empty [''protostones''] (JObj [(''protostones'', JArr [JNull])]) = [JNull]"
    by (simp_all add: json_access_defs)
  have "\<exists>res w'. trace_call url txid 4 (tracing_world\<lparr>joins := n\<rparr>) = (Inr res, w')" for txid
    by (simp add: trace_call_def act_context_def resilient_call_with_last_error_def resilient_def
        circuit_open_def act_bind_def act_get_def retry_loop.simps provider_call_def tracing_world_simps
        example_provider_def)
  then obtain res w1 where "trace_call url (to_little_endian_hex (lib tracing_world) ''t'') 4 (tracing_world\<lparr>joins := n\<rparr>) = (Inr res, w1)"
    by blast
  then show ?thesis
    by (simp add: decode_and_trace_tx_def act_bind_get act_bind_def [of "act_try m" for m] act_try_def tx f
        tracing_world_simps act_return_def Let_def)
qed

lemma decode_and_trace_complete_witness:
  "\<exists>r. decided (prov tracing_world) (lib tracing_world) (resolve_sandshrew_url tracing_world) (op_return_tx ''t'') (Some r) \<and>
     (\<exists>w'. decode_and_trace_for_block [op_return_tx ''t''] tracing_world = (Inr [r], w'))"
proof -
  obtain r w1 where r: "decode_and_trace_tx (resolve_sandshrew_url tracing_world) (op_return_tx ''t'') (tracing_world\<lparr>joins := Suc (joins tracing_world)\<rparr>) = (Inr (Traced r), w1)"
    using tracing_run by blast
  have batches: "make_batches [op_return_tx ''t''] = [[op_return_tx ''t'']]"
    by (simp add: make_batches_def chunks.simps)
  have run: "decode_and_trace_for_block [op_return_tx ''t''] tracing_world = (Inr [r], w1)"
    using r by (simp add: decode_and_trace_for_block_def act_get_def traceable_op_return_tx batches next_task_def
        act_bind_def act_return_def Let_def)
  from decode_and_trace_complete [OF this] obtain order outs where
    "mset order = {#op_return_tx ''t''#}" "list_all2 (decided (prov tracing_world) (lib tracing_world) (resolve_sandshrew_url tracing_world)) order outs"
    "[r] = List.map_filter (\<lambda>out. out) outs"
    by (auto simp: traceable_op_return_tx)
  then have "decided (prov tracing_world) (lib tracing_world) (resolve_sandshrew_url tracing_world) (op_return_tx ''t'') (Some r)"
    by (cases outs) (auto simp: List.map_filter_simps list_all2_Cons2 split: option.splits)
  with run show ?thesis by blast
qed

text \<open>
  The work of a block is split into at most ten batches, none of them empty, that together
  hold every transaction exactly once and in order.
\<close>

theorem batches_partition:
  "concat (make_batches txs) = txs \<and> length (make_batches txs) \<le> 10 \<and> [] \<notin> set (make_batches txs)"
  using make_batches_partition [of txs] chunks_nonempty by (auto simp: make_batches_def Let_def)

text \<open>
  The protostones of a traced transaction are stored one by one at consecutive shadow
  \<open>vout\<close>s that start right after the transaction's outputs (the output count plus one), each
  with its index.
\<close>

theorem shadow_vouts:
  assumes "trace_protostones url txid_be txid_le start 0 protos
      \<lparr>tt_txid = txid_be, tt_json = tx_json, tt_protostones = [], tt_events = [],
       tt_has_trace = False, tt_succeed = False\<rparr> w = (Inr (Traced r), w')"
    and "k < length protos"
  shows "length (tt_protostones r) = length protos \<and>
    tt_protostones r ! k = \<lparr>di_vout = start + of_nat k, di_index = of_nat k, di_decoded = protos ! k\<rparr>"
  using trace_protostones_Traced [OF assms(1)] assms(2) by (simp add: shadow_items_def nth_enumerate_eq)

lemma shadow_vouts_witness:
  "\<exists>r w'. trace_protostones ''url'' ''t'' ''t'' 4 0 [JNull] \<lparr>tt_txid = ''t'', tt_json = JNull, tt_protostones = [],
      tt_events = [], tt_has_trace = False, tt_succeed = False\<rparr> (example_world\<lparr>calls := 1\<rparr>) = (Inr (Traced r), w') \<and>
    tt_protostones r ! 0 = \<lparr>di_vout = 4, di_index = 0, di_decoded = JNull\<rparr>"
proof -
  let ?w = "example_world\<lparr>calls := 1\<rparr>"
  have "retry_config_of ?w = \<lparr>max_attempts = 5, base_delay_ms = 200, max_delay_ms = 5000\<rparr>"
    by (simp add: retry_config_of_def env_num_def example_world_simps)
  then have "\<exists>r w'. trace_protostones ''url'' ''t'' ''t'' 4 0 [JNull] \<lparr>tt_txid = ''t'', tt_json = JNull, tt_protostones = [],
      tt_events = [], tt_has_trace = False, tt_succeed = False\<rparr> ?w = (Inr (Traced r), w')"
    by (simp add: Let_def act_bind_get act_bind_def act_try_def trace_call_def act_context_def
        resilient_call_with_last_error_def resilient_def circuit_open_def act_get_def retry_loop.simps
        provider_call_def act_return_def example_world_simps)
  then obtain r w' where run: "trace_protostones ''url'' ''t'' ''t'' 4 0 [JNull] \<lparr>tt_txid = ''t'', tt_json = JNull, tt_protostones = [],
      tt_events = [], tt_has_trace = False, tt_succeed = False\<rparr> ?w = (Inr (Traced r), w')" by blast
  with shadow_vouts [OF run, of 0] show ?thesis by simp
qed

text \<open>
  An error that the retry loop returns at once as non-retriable for \<open>alkanes_trace\<close> is always
  one that the tracing skips the protostone for; it never fails the block.
\<close>

theorem non_retriable_is_skipped:
  assumes "is_non_retriable ''alkanes_trace'' msg"
    and "resilient_call_with_last_error url ''alkanes_trace'' params w = (Inl (anyhow msg), w')"
  shows "\<exists>chain. act_try (act_context ''alkanes_trace call failed''
           (resilient_call_with_last_error url ''alkanes_trace'' params)) w = (Inr (Inl chain), w') \<and>
         is_known_upstream_typeerror chain"
proof -
  have "is_known_upstream_typeerror [''alkanes_trace call failed'', msg]"
    using assms(1)
    by (simp add: is_known_upstream_typeerror_def is_non_retriable_def Let_def combined_error_def
        to_ascii_lowercase_append str_contains_append del: append.simps)
  with assms(2) show ?thesis by (auto simp: act_try_def act_context_def anyhow_def)
qed

lemma non_retriable_is_skipped_witness:
  "\<exists>chain w'. act_try (act_context ''alkanes_trace call failed''
        (resilient_call_with_last_error ''url'' ''alkanes_trace'' JNull))
      (example_world\<lparr>prov := example_provider\<lparr>rpc_answer := (\<lambda>n url m ps. Failed
         ''Non-standard error object received: Cannot read properties of undefined'')\<rparr>\<rparr>) = (Inr (Inl chain), w') \<and>
     is_known_upstream_typeerror chain"
proof -
  let ?m = "''Non-standard error object received: Cannot read properties of undefined''"
  let ?w = "example_world\<lparr>prov := example_provider\<lparr>rpc_answer := (\<lambda>n url m ps. Failed ?m)\<rparr>\<rparr>"
  have fatal: "is_non_retriable ''alkanes_trace'' ?m"
    by (simp add: is_non_retriable_def to_ascii_lowercase_def lower_char_def)
  have "\<exists>w'. resilient_call_with_last_error ''url'' ''alkanes_trace'' JNull ?w = (Inl (anyhow ?m), w')"
    using fatal
    by (simp add: resilient_call_with_last_error_def resilient_def circuit_open_def act_bind_def act_get_def
        retry_loop.simps provider_call_def example_world_def)
  then obtain w' where "resilient_call_with_last_error ''url'' ''alkanes_trace'' JNull ?w = (Inl (anyhow ?m), w')"
    by blast
  from non_retriable_is_skipped [OF fatal this] show ?thesis by blast
qed

text \<open>
  The little-endian form of a txid is its bytes reversed, so that converting twice gives the
  txid back, given that the hex codec decodes what it encodes.
\<close>

theorem little_endian_involution:
  assumes "\<forall>b. hex_decode l (hex_encode l b) = Some b"
  shows "hex_decode l (to_little_endian_hex l (hex_encode l b)) = Some (rev b) \<and>
    to_little_endian_hex l (to_little_endian_hex l (hex_encode l b)) = hex_encode l b"
  using assms by (simp add: to_little_endian_hex_def)

lemma little_endian_involution_witness:
  "let l = example_libs\<lparr>hex_decode := hex_bytes, hex_encode := hex_text\<rparr>
   in to_little_endian_hex l (to_little_endian_hex l ''0a1f'') = ''0a1f''"
proof -
  let ?l = "example_libs\<lparr>hex_decode := hex_bytes, hex_encode := hex_text\<rparr>"
  have "hex_encode ?l [0x0a, 0x1f] = ''0a1f''"
    by (simp add: hex_text_def hex_digit_def)
  with little_endian_involution [of ?l "[0x0a, 0x1f]"] hex_bytes_hex_text show ?thesis by simp
qed

end
