(* ===== verification/Pools.thy ===== *)
theory Pools
  imports Db_Pools World
begin

text \<open>
  \<open>src/helpers/pools.rs\<close>: the pools of the factory and their details as the AMM reports them, and
  the database transaction that stores new pools and a snapshot of every pool whose reserves or
  supply changed since its last snapshot.
\<close>

subsection \<open>Definitions\<close>

type_synonym fetched_pool = "alkane_id \<times> pool_details"

definition fetch_details :: "string \<Rightarrow> alkane_id \<Rightarrow> fetched_pool option wact" where
  "fetch_details url p =
     act_bind (provider_call (\<lambda>pr n. amm_details_answer pr n url p)) (\<lambda>res.
     act_return (case res of Inr details \<Rightarrow> Some (p, details) | Inl _ \<Rightarrow> None))"

definition fetch_all_pools_with_details :: "alkane_id \<Rightarrow> fetched_pool list wact" where
  "fetch_all_pools_with_details factory =
     act_bind (act_get (\<lambda>w. unwrap_or ''http://localhost:18888'' (env_var w ''SANDSHREW_RPC_URL''))) (\<lambda>url.
     act_bind (provider_call (\<lambda>p n. amm_pools_answer p n url factory)) (\<lambda>all.
       case all of
         Inl e \<Rightarrow> act_fail e
       | Inr ids \<Rightarrow>
           if ids = [] then act_return []
           else act_bind (completed ids) (\<lambda>order.
                act_bind (act_map (fetch_details url) order) (\<lambda>out.
                act_return (List.map_filter (\<lambda>x. x) out)))))"

definition detail_values :: "pool_details \<Rightarrow> string \<times> string \<times> string" where
  "detail_values d = (to_string (pd_amount0 d), to_string (pd_amount1 d), to_string (pd_supply d))"

definition new_pools_of :: "(alkane_id \<rightharpoonup> string) \<Rightarrow> fetched_pool list \<Rightarrow> new_pool list" where
  "new_pools_of existing fetched =
     map (\<lambda>(p, d). (p, pd_token0 d, pd_token1 d, pd_name d)) (filter (\<lambda>(p, d). existing p = None) fetched)"

definition snapshot_of ::
  "(alkane_id \<rightharpoonup> string) \<Rightarrow> (string \<rightharpoonup> string \<times> string \<times> string) \<Rightarrow> i32 \<Rightarrow> fetched_pool \<Rightarrow> pool_state option" where
  "snapshot_of id_map last_state height item =
     (case item of (p, d) \<Rightarrow>
      case id_map p of
        None \<Rightarrow> None
      | Some pool_id \<Rightarrow>
          if last_state pool_id = Some (detail_values d) then None
          else Some \<lparr>ps_pool = pool_id, ps_height = height, ps_amount0 = to_string (pd_amount0 d),
                 ps_amount1 = to_string (pd_amount1 d), ps_supply = to_string (pd_supply d)\<rparr>)"

text \<open>The statements of the one database transaction.\<close>

definition upsert_pools_stm :: "alkane_id \<Rightarrow> fetched_pool list \<Rightarrow> u64 \<Rightarrow> unit stm" where
  "upsert_pools_stm factory fetched tip_height =
     stm_bind (get_existing_pools_for_factory factory) (\<lambda>existing.
     let new_pools = new_pools_of existing fetched; pairs = map fst fetched
     in stm_bind (if new_pools \<noteq> [] then insert_new_pools factory new_pools else stm_return ()) (\<lambda>_.
        stm_bind (get_pool_ids_for_pairs factory pairs) (\<lambda>id_map.
        stm_bind (get_latest_pool_states (List.map_filter id_map (remdups pairs))) (\<lambda>last_state.
          let snapshots = List.map_filter (snapshot_of id_map last_state (ucast tip_height)) fetched
          in if snapshots \<noteq> [] then insert_pool_state_snapshots snapshots else stm_return ()))))"

definition fetch_and_upsert_pools_for_tip :: "alkane_id \<Rightarrow> u64 \<Rightarrow> unit wact" where
  "fetch_and_upsert_pools_for_tip factory tip_height =
     act_bind (fetch_all_pools_with_details factory) (\<lambda>fetched.
       if fetched = [] then act_return ()
       else exec (upsert_pools_stm factory fetched tip_height))"

subsection \<open>Facts\<close>

lemma leaves_fetch_pools [intro]:
  "leaves sdb (fetch_all_pools_with_details factory)" "leaves published (fetch_all_pools_with_details factory)"
  unfolding fetch_all_pools_with_details_def fetch_details_def
  by (intro leaves_bind leaves_get leaves_case_sum leaves_fail leaves_if leaves_return leaves_map leaves_outside)+

lemma keeps_if: "keeps P m \<Longrightarrow> keeps P n \<Longrightarrow> keeps P (if b then m else n)"
  by simp

lemma keeps_upsert_pools: "keeps schema_ok (upsert_pools_stm factory fetched tip)"
  unfolding upsert_pools_stm_def Let_def
  by (intro keeps_bind keeps_if keeps_return keeps_pool_queries keeps_insert_new_pools
      keeps_insert_pool_state_snapshots)

lemma preserves_fetch_and_upsert_pools:
  "preserves (\<lambda>w. schema_ok (sdb w)) (fetch_and_upsert_pools_for_tip factory tip)"
proof -
  have 1: "preserves (\<lambda>w. schema_ok (sdb w)) (fetch_all_pools_with_details factory)"
    by (intro preserves_leaves leaves_fetch_pools)
  have 2: "preserves (\<lambda>w. schema_ok (sdb w))
      (if fetched = [] then act_return () else exec (upsert_pools_stm factory fetched tip) :: unit wact)" for fetched
    by (simp only: split: if_splits)
      (intro conjI impI preserves_return preserves_exec keeps_upsert_pools)
  show ?thesis unfolding fetch_and_upsert_pools_for_tip_def by (intro preserves_bind 1 2)
qed

text \<open>The refresh only writes the two pool tables.\<close>

lemma keeps_pool_tables:
  assumes "\<And>f d. P (pools_update f d) = P d" "\<And>f d. P (pool_states_update f d) = P d"
    "\<And>f d. P (uuid_next_update f d) = P d"
  shows "keeps P (upsert_pools_stm factory fetched tip)"
proof -
  have ins: "P (insert_pools factory ps d) = P d" for ps d
    by (induction factory ps d rule: insert_pools.induct) (auto simp: assms)
  have "keeps P (insert_new_pools factory ps)" for ps
    unfolding insert_new_pools_def by (simp add: keeps_return keeps_bind_params keeps_checked ins)
  moreover have "keeps P (insert_pool_state_snapshots ss)" for ss
    unfolding insert_pool_state_snapshots_def
    by (simp add: keeps_return keeps_bind_params keeps_checked assms)
  ultimately show ?thesis
    unfolding upsert_pools_stm_def Let_def
    by (intro keeps_bind keeps_if keeps_return keeps_pool_queries)
qed

lemma preserves_pool_tables:
  assumes "\<And>f d. P (pools_update f d) = P d" "\<And>f d. P (pool_states_update f d) = P d"
    "\<And>f d. P (uuid_next_update f d) = P d"
  shows "preserves (\<lambda>w. P (sdb w)) (fetch_and_upsert_pools_for_tip factory tip)"
proof -
  have "preserves (\<lambda>w. P (sdb w)) (fetch_all_pools_with_details factory)"
    by (intro preserves_leaves leaves_fetch_pools)
  moreover have "preserves (\<lambda>w. P (sdb w)) (if fetched = [] then act_return () else exec (upsert_pools_stm factory fetched tip) :: unit wact)"
    for fetched
    by (simp only: split: if_splits)
      (intro conjI impI preserves_return preserves_exec keeps_pool_tables assms)
  ultimately show ?thesis unfolding fetch_and_upsert_pools_for_tip_def by (intro preserves_bind)
qed

text \<open>What the database says about a pool's last snapshot.\<close>

definition state_of :: "db \<Rightarrow> string \<Rightarrow> (string \<times> string \<times> string) option" where
  "state_of d i = map_option state_values (latest_state (filter (\<lambda>r. ps_pool r = i) (pool_states d)))"

text \<open>The transaction with its intermediate values.\<close>

lemma map_filter_cong: "(\<And>x. x \<in> set xs \<Longrightarrow> f x = g x) \<Longrightarrow> List.map_filter f xs = List.map_filter g xs"
  by (induction xs) (auto simp: List.map_filter_simps split: option.split)

lemma get_pool_ids_eq:
  "get_pool_ids_for_pairs factory pairs d =
     Inr (pool_map pl_id (filter (\<lambda>r. pl_factory r = factory \<and> pl_pool r \<in> set pairs) (pools d)), d)"
  by (auto simp: get_pool_ids_for_pairs_def stm_return_def query_def pool_map_def)

lemma get_latest_eq:
  "get_latest_pool_states ids d = Inr (\<lambda>i. if i \<in> set ids then state_of d i else None, d)"
  by (auto simp: get_latest_pool_states_def stm_return_def query_def state_of_def)

lemma insert_new_pools_Inr:
  "(if ps \<noteq> [] then insert_new_pools factory ps else stm_return ()) d = Inr ((), d1) \<Longrightarrow> d1 = insert_pools factory ps d"
  by (auto simp: insert_new_pools_def db_simps split: if_splits)

lemma insert_snapshots_Inr:
  "(if ss \<noteq> [] then insert_pool_state_snapshots ss else stm_return ()) d = Inr ((), d1) \<Longrightarrow>
     pools d1 = pools d \<and> pool_states d1 = insert_states ss (pool_states d)"
  by (auto simp: insert_pool_state_snapshots_def db_simps split: if_splits)

lemma upsert_pools_Inr:
  assumes "upsert_pools_stm factory fetched tip d = Inr ((), d')"
  obtains d1 id_map where
    "d1 = insert_pools factory (new_pools_of (pool_map pl_id (filter (\<lambda>r. pl_factory r = factory) (pools d))) fetched) d"
    "id_map = pool_map pl_id (filter (\<lambda>r. pl_factory r = factory \<and> pl_pool r \<in> set (map fst fetched)) (pools d1))"
    "pools d' = pools d1"
    "pool_states d' = insert_states
       (List.map_filter (snapshot_of id_map (state_of d) (ucast tip)) fetched) (pool_states d)"
proof -
  define new where "new = new_pools_of (pool_map pl_id (filter (\<lambda>r. pl_factory r = factory) (pools d))) fetched"
  define d1 where "d1 = insert_pools factory new d"
  define id_map where "id_map = pool_map pl_id (filter (\<lambda>r. pl_factory r = factory \<and> pl_pool r \<in> set (map fst fetched)) (pools d1))"
  define ids where "ids = List.map_filter id_map (remdups (map fst fetched))"
  define last_state where "last_state = (\<lambda>i. if i \<in> set ids then state_of d1 i else None)"
  define snaps where "snaps = List.map_filter (snapshot_of id_map last_state (ucast tip)) fetched"
  define rest where "rest = stm_bind (get_pool_ids_for_pairs factory (map fst fetched)) (\<lambda>id_map.
        stm_bind (get_latest_pool_states (List.map_filter id_map (remdups (map fst fetched)))) (\<lambda>last_state.
          let snapshots = List.map_filter (snapshot_of id_map last_state (ucast tip)) fetched
          in if snapshots \<noteq> [] then insert_pool_state_snapshots snapshots else stm_return ()))"
  have "upsert_pools_stm factory fetched tip d =
      stm_bind (if new \<noteq> [] then insert_new_pools factory new else stm_return ()) (\<lambda>_. rest) d"
    unfolding upsert_pools_stm_def get_existing_pools_for_factory_def stm_bind_def [of "query f" for f]
      query_def and_then.simps prod.case Let_def new_def rest_def ..
  with assms have "\<exists>x dx. (if new \<noteq> [] then insert_new_pools factory new else stm_return ()) d = Inr (x, dx) \<and>
      rest dx = Inr ((), d')"
    by (simp only: stm_bind_Inr)
  then obtain dx where
    ins: "(if new \<noteq> [] then insert_new_pools factory new else stm_return ()) d = Inr ((), dx)"
    and rest: "rest dx = Inr ((), d')"
    by auto
  have "dx = d1" using insert_new_pools_Inr [OF ins] by (simp add: d1_def)
  moreover have "rest d1 = (if snaps \<noteq> [] then insert_pool_state_snapshots snaps else stm_return ()) d1"
    unfolding rest_def stm_bind_def get_pool_ids_eq get_latest_eq and_then.simps prod.case Let_def
      id_map_def [symmetric] ids_def [symmetric] last_state_def [symmetric] snaps_def [symmetric] ..
  ultimately have "(if snaps \<noteq> [] then insert_pool_state_snapshots snaps else stm_return ()) d1 = Inr ((), d')"
    using rest by simp
  then have d': "pools d' = pools d1" "pool_states d' = insert_states snaps (pool_states d1)"
    using insert_snapshots_Inr by blast+
  have states: "pool_states d1 = pool_states d" by (simp add: d1_def insert_pools_rest)
  then have "state_of d1 = state_of d" by (intro ext) (simp add: state_of_def)
  then have "last_state i = state_of d i" if "p \<in> set (map fst fetched)" "id_map p = Some i" for p i
    using that by (auto simp: last_state_def ids_def set_map_filter)
  then have "snaps = List.map_filter (snapshot_of id_map (state_of d) (ucast tip)) fetched"
    unfolding snaps_def by (intro map_filter_cong) (force simp: snapshot_of_def split: option.split)
  with d' states show thesis
    by (intro that [of d1 id_map]) (simp_all add: d1_def new_def id_map_def)
qed

subsection \<open>Properties\<close>

lemma new_pools_of_pairs:
  "p \<in> set (map fst fetched) \<Longrightarrow> existing p = None \<Longrightarrow> p \<in> set (map fst (new_pools_of existing fetched))"
  by (force simp: new_pools_of_def)

lemma insert_pools_new:
  "r \<in> set (pools (insert_pools factory ps d)) \<Longrightarrow>
     r \<in> set (pools d) \<or> pl_pool r \<notin> set (map pl_pool (pools d)) \<and> pl_factory r = factory \<and>
       (pl_pool r, pl_token0 r, pl_token1 r, pl_name r) \<in> set ps"
  by (induction factory ps d rule: insert_pools.induct) (fastforce split: if_splits)+

text \<open>The snapshots a refresh owes a row of the \<open>Pool\<close> table: none for a pool of another factory
  or one that already has a snapshot of that height, otherwise the first reported values that
  differ from those of its last snapshot.\<close>

definition owed_snapshots :: "db \<Rightarrow> alkane_id \<Rightarrow> i32 \<Rightarrow> fetched_pool list \<Rightarrow> pool_row \<Rightarrow> pool_state list" where
  "owed_snapshots d factory height fetched r =
     (if pl_factory r = factory \<and> (pl_id r, height) \<notin> set (map state_key (pool_states d))
      then take 1 (map (\<lambda>(p, det). \<lparr>ps_pool = pl_id r, ps_height = height, ps_amount0 = to_string (pd_amount0 det),
                     ps_amount1 = to_string (pd_amount1 det), ps_supply = to_string (pd_supply det)\<rparr>)
             (filter (\<lambda>(p, det). p = pl_pool r \<and> state_of d (pl_id r) \<noteq> Some (detail_values det)) fetched))
      else [])"

lemma snapshots_of_row:
  assumes "\<And>p i. id_map p = Some i \<longleftrightarrow> (\<exists>r \<in> set rows. p = pl_pool r \<and> i = pl_id r \<and> P r)"
    and "distinct (map pl_id rows)" "r \<in> set rows"
  shows "filter (\<lambda>s. ps_pool s = pl_id r) (List.map_filter (snapshot_of id_map prev h) fetched) =
    (if P r then map (\<lambda>(p, det). \<lparr>ps_pool = pl_id r, ps_height = h, ps_amount0 = to_string (pd_amount0 det),
                     ps_amount1 = to_string (pd_amount1 det), ps_supply = to_string (pd_supply det)\<rparr>)
       (filter (\<lambda>(p, det). p = pl_pool r \<and> prev (pl_id r) \<noteq> Some (detail_values det)) fetched) else [])"
proof (induction fetched)
  case (Cons x xs)
  obtain p det where x: "x = (p, det)" by (cases x)
  have same: "id_map p = Some (pl_id r) \<longleftrightarrow> p = pl_pool r \<and> P r"
    using assms by (fastforce simp: distinct_map dest: inj_onD)
  show ?case
  proof (cases "id_map p = Some (pl_id r)")
    case True
    with same Cons.IH show ?thesis
      by (simp add: x List.map_filter_simps snapshot_of_def)
  next
    case False
    with same Cons.IH show ?thesis
      by (auto simp: x List.map_filter_simps snapshot_of_def split: option.splits)
  qed
qed (simp add: List.map_filter_simps)

text \<open>
  C8: the transaction of a pool refresh keeps every old row of the two tables and adds, for every
  reported pool, the row it lacks, with the reported tokens and name.  It adds a snapshot with the
  reported values and the height of the tip exactly for the pools of the factory whose reported
  values differ from those of their last snapshot, unless the pool already has a snapshot of that
  height (\<open>on conflict do nothing\<close>); a pool reported twice gets the first that differs, and pools
  that were not reported or belong to another factory get none.
\<close>

theorem pool_snapshots_only_on_change:
  assumes "schema_ok d" "upsert_pools_stm factory fetched tip d = Inr ((), d')"
  shows "(\<exists>new. pool_states d' = pool_states d @ new \<and>
      (\<forall>r \<in> set (pools d'). filter (\<lambda>s. ps_pool s = pl_id r) new = owed_snapshots d factory (ucast tip) fetched r) \<and>
      (\<forall>s \<in> set new. ps_pool s \<in> set (map pl_id (pools d')))) \<and>
    (\<exists>new_rows. pools d' = pools d @ new_rows \<and>
      (\<forall>r \<in> set new_rows. pl_factory r = factory \<and>
         (\<exists>(p, det) \<in> set fetched. pl_pool r = p \<and> pl_token0 r = pd_token0 det \<and> pl_token1 r = pd_token1 det \<and>
            pl_name r = pd_name det))) \<and>
    distinct (map pl_pool (pools d')) \<and> set (map fst fetched) \<subseteq> set (map pl_pool (pools d'))"
proof -
  from assms(2) obtain d1 id_map where
    d1: "d1 = insert_pools factory (new_pools_of (pool_map pl_id (filter (\<lambda>r. pl_factory r = factory) (pools d))) fetched) d"
    and id_map: "id_map = pool_map pl_id (filter (\<lambda>r. pl_factory r = factory \<and> pl_pool r \<in> set (map fst fetched)) (pools d1))"
    and pools': "pools d' = pools d1"
    and states': "pool_states d' = insert_states
       (List.map_filter (snapshot_of id_map (state_of d) (ucast tip)) fetched) (pool_states d)"
    by (rule upsert_pools_Inr)
  let ?snaps = "List.map_filter (snapshot_of id_map (state_of d) (ucast tip)) fetched"
  have "schema_ok d'" using keepsD [OF keeps_upsert_pools assms] .
  then have distinct: "distinct (map pl_pool (pools d'))" "distinct (map pl_id (pools d'))"
    and refs: "list_all (\<lambda>r. ps_pool r \<in> set (map pl_id (pools d'))) (pool_states d')"
    by (simp_all add: schema_ok_def pool_ok_def pool_state_ok_def)
  have found: "id_map p = Some i \<longleftrightarrow> (\<exists>r \<in> set (pools d'). p = pl_pool r \<and> i = pl_id r \<and>
      (pl_factory r = factory \<and> pl_pool r \<in> set (map fst fetched)))" for p i
  proof
    assume "id_map p = Some i"
    from pool_map_Some [OF this [unfolded id_map]] pools' show
      "\<exists>r \<in> set (pools d'). p = pl_pool r \<and> i = pl_id r \<and> (pl_factory r = factory \<and> pl_pool r \<in> set (map fst fetched))"
      by auto
  next
    assume "\<exists>r \<in> set (pools d'). p = pl_pool r \<and> i = pl_id r \<and> (pl_factory r = factory \<and> pl_pool r \<in> set (map fst fetched))"
    then show "id_map p = Some i"
      unfolding id_map using pools' distinct(1)
      by (auto intro!: pool_map_lookup distinct_map_filter simp del: set_map)
  qed
  obtain new where new: "pool_states d' = pool_states d @ new" "set new \<subseteq> set ?snaps"
    "\<And>k. filter (\<lambda>s. state_key s = k) new =
       (if k \<in> set (map state_key (pool_states d)) then [] else take 1 (filter (\<lambda>s. state_key s = k) ?snaps))"
    using insert_states_first [of ?snaps "pool_states d"] states' by auto
  have height: "ps_height s = ucast tip" if "s \<in> set ?snaps" for s
    using that by (auto simp: set_map_filter snapshot_of_def split: option.splits if_splits)
  have by_pool: "filter (\<lambda>s. state_key s = (i, ucast tip)) xs = filter (\<lambda>s. ps_pool s = i) xs"
    if "set xs \<subseteq> set ?snaps" for xs i
    using that height by (intro filter_cong) auto
  have owed: "filter (\<lambda>s. ps_pool s = pl_id r) new = owed_snapshots d factory (ucast tip) fetched r"
    if r: "r \<in> set (pools d')" for r
  proof (cases "pl_pool r \<in> set (map fst fetched)")
    case True
    have "filter (\<lambda>s. ps_pool s = pl_id r) new =
        (if (pl_id r, ucast tip) \<in> set (map state_key (pool_states d)) then []
         else take 1 (filter (\<lambda>s. ps_pool s = pl_id r) ?snaps))"
      using new(3) [of "(pl_id r, ucast tip)"] unfolding by_pool [OF new(2)] by_pool [OF order_refl] .
    with True show ?thesis
      unfolding snapshots_of_row [OF found distinct(2) r] owed_snapshots_def by auto
  next
    case False
    then have "filter (\<lambda>(p, det). p = pl_pool r \<and> state_of d (pl_id r) \<noteq> Some (detail_values det)) fetched = []"
      by (force simp: filter_empty_conv)
    moreover have "filter (\<lambda>s. ps_pool s = pl_id r) ?snaps = []"
      using snapshots_of_row [OF found distinct(2) r] False by simp
    ultimately show ?thesis using new(2) by (auto simp: owed_snapshots_def filter_empty_conv)
  qed
  obtain rows where rows: "pools d1 = pools d @ rows"
    unfolding d1 using insert_pools_grows by blast
  have added: "pl_factory r = factory \<and> (\<exists>(p, det) \<in> set fetched. pl_pool r = p \<and> pl_token0 r = pd_token0 det \<and>
      pl_token1 r = pd_token1 det \<and> pl_name r = pd_name det)" if "r \<in> set rows" for r
  proof -
    have "r \<notin> set (pools d)" using distinct(1) that pools' rows by (auto simp: distinct_map)
    moreover have "r \<in> set (pools d1)" using that rows by simp
    ultimately have "pl_factory r = factory"
      and row: "(pl_pool r, pl_token0 r, pl_token1 r, pl_name r) \<in>
        set (new_pools_of (pool_map pl_id (filter (\<lambda>r. pl_factory r = factory) (pools d))) fetched)"
      using insert_pools_new [of r factory _ d] unfolding d1 by blast+
    moreover from row obtain p det where "(p, det) \<in> set fetched"
      "(pl_pool r, pl_token0 r, pl_token1 r, pl_name r) = (p, pd_token0 det, pd_token1 det, pd_name det)"
      unfolding new_pools_of_def by auto
    ultimately show ?thesis by (auto intro!: bexI [of _ "(p, det)"])
  qed
  have "p \<in> set (map pl_pool (pools d'))" if "p \<in> set (map fst fetched)" for p
  proof (cases "pool_map pl_id (filter (\<lambda>r. pl_factory r = factory) (pools d)) p")
    case None
    with new_pools_of_pairs [OF that, of "pool_map pl_id (filter (\<lambda>r. pl_factory r = factory) (pools d))"]
    show ?thesis unfolding pools' d1 insert_pools_pairs by blast
  next
    case (Some i)
    then have "p \<in> set (map pl_pool (pools d))" by (auto dest!: pool_map_Some)
    then show ?thesis unfolding pools' d1 insert_pools_pairs by blast
  qed
  then have all: "set (map fst fetched) \<subseteq> set (map pl_pool (pools d'))" by blast
  show ?thesis
    using new(1) owed refs rows pools' added distinct(1) all
    by (intro conjI exI [of _ new] exI [of _ rows]) (simp_all add: list_all_iff)
qed

definition example_details :: pool_details where
  "example_details = \<lparr>pd_token0 = id_text (2, 0), pd_token1 = id_text (32, 0), pd_amount0 = 5, pd_amount1 = 6,
     pd_supply = 7, pd_name = ''LP''\<rparr>"

lemma pool_snapshots_only_on_change_witness:
  "\<exists>d'. upsert_pools_stm (id_text (4, 1)) [(id_text (2, 10), example_details)] 9 empty_db = Inr ((), d') \<and>
     id_text (2, 10) \<in> set (map pl_pool (pools d'))"
proof -
  have ok: "schema_ok empty_db" by (simp add: schema_ok_def constraint_defs empty_db_def)
  have "\<exists>d'. upsert_pools_stm (id_text (4, 1)) [(id_text (2, 10), example_details)] 9 empty_db = Inr ((), d')"
    by (simp add: upsert_pools_stm_def get_existing_pools_for_factory_def stm_bind_def query_def empty_db_def
        new_pools_of_def pool_map_def insert_new_pools_def bind_params_def max_params_def checked_def pool_ok_def
        get_pool_ids_eq get_latest_eq List.map_filter_simps snapshot_of_def state_of_def
        insert_pool_state_snapshots_def pool_state_ok_def Let_def)
  then obtain d' where run: "upsert_pools_stm (id_text (4, 1)) [(id_text (2, 10), example_details)] 9 empty_db = Inr ((), d')"
    by blast
  with pool_snapshots_only_on_change [OF ok run] show ?thesis by auto
qed

end
