(* ===== verification/Notify.thy ===== *)
theory Notify
  imports World "HOL-Library.AList"
begin

text \<open>
  \<open>src/helpers/notify.rs\<close>: the best-effort notifications over redis.  Whether the server is
  reachable is the environment's choice; a failure is logged and ignored.
\<close>

definition network_env :: "world \<Rightarrow> string" where
  "network_env w = unwrap_or ''mainnet'' (env_var w ''NETWORK_ENV'')"

definition pools_lastblock_key :: "world \<Rightarrow> string" where
  "pools_lastblock_key w = ''indexer-'' @ network_env w @ ''-pools-lastblock''"

definition processed_blocks_channel :: "world \<Rightarrow> string" where
  "processed_blocks_channel w = ''indexer-'' @ network_env w @ ''-processed-blocks''"

definition redis_command :: "(world \<Rightarrow> world) \<Rightarrow> unit wact" where
  "redis_command f w =
     (let w' = w\<lparr>redis_calls := Suc (redis_calls w)\<rparr>
      in (Inr (), if redis_up w (redis_calls w) then f w' else w'))"

definition notify_pools_processed :: "u64 \<Rightarrow> unit wact" where
  "notify_pools_processed height =
     redis_command (\<lambda>w. w\<lparr>redis_values := AList.update (pools_lastblock_key w) (to_string height) (redis_values w)\<rparr>)"

definition publish_block_processed :: "u64 \<Rightarrow> unit wact" where
  "publish_block_processed height =
     redis_command (\<lambda>w. w\<lparr>published := published w @ [(processed_blocks_channel w, to_string height)]\<rparr>)"

lemma leaves_notify [intro]:
  "leaves sdb (notify_pools_processed h)" "leaves published (notify_pools_processed h)"
  "leaves sdb (publish_block_processed h)"
  by (auto simp: leaves_def notify_pools_processed_def publish_block_processed_def redis_command_def Let_def)

lemma publish_block_processed_result:
  "fst (publish_block_processed h w) = Inr ()"
  "published (snd (publish_block_processed h w)) =
     published w @ (if redis_up w (redis_calls w) then [(processed_blocks_channel w, to_string h)] else [])"
  by (simp_all add: publish_block_processed_def redis_command_def Let_def processed_blocks_channel_def network_env_def)

lemma publish_when_result:
  assumes "act_when emit (publish_block_processed h) w = (r, w')"
  shows "r = Inr () \<and> published w' = published w @
    (if emit \<and> redis_up w' (redis_calls w' - 1) then [(processed_blocks_channel w', to_string h)] else [])"
  using assms
  by (cases emit; cases "redis_up w (redis_calls w)")
    (auto simp: act_when_def act_return_def publish_block_processed_def redis_command_def Let_def
      processed_blocks_channel_def network_env_def)

end
