(* ===== verification/Pipeline.thy ===== *)
theory Pipeline
  imports Pool_Swap Pool_Create Pool_Mint Pool_Burn Subfrost Protostone Pools Notify
begin

text \<open>
  \<open>src/pipeline.rs\<close>: what is done for one block: fetch it, trace its \<open>OP_RETURN\<close> transactions,
  store the traces in one database transaction, run the six indexers on them, record the block
  as processed and publish it.  Every step that fails ends the block.
\<close>

subsection \<open>The rows of a block\<close>

definition tx_rows :: "i32 \<Rightarrow> tx_trace list \<Rightarrow> alkane_tx list" where
  "tx_rows height results =
     map (\<lambda>(i, r). \<lparr>at_txid = tt_txid r, at_height = height, at_index = of_nat i,
            at_has_trace = tt_has_trace r, at_succeed = tt_succeed r, at_data = tt_json r\<rparr>)
       (enumerate 0 results)"

definition protostone_rows :: "i32 \<Rightarrow> tx_trace list \<Rightarrow> protostone list" where
  "protostone_rows height results =
     concat (map (\<lambda>r. map (\<lambda>d. \<lparr>dp_txid = tt_txid r, dp_vout = di_vout d, dp_index = di_index d,
            dp_height = height, dp_decoded = di_decoded d\<rparr>) (tt_protostones r)) results)"

definition event_rows :: "i32 \<Rightarrow> tx_trace list \<Rightarrow> trace_event list" where
  "event_rows height results =
     concat (map (\<lambda>r. map (\<lambda>e. \<lparr>te_txid = tt_txid r, te_height = height, te_vout = ti_vout e,
            te_type = ti_type e, te_data = ti_data e, te_block = ti_block e, te_tx = ti_tx e\<rparr>)
          (tt_events r)) results)"

definition store_block_stm :: "i32 \<Rightarrow> tx_trace list \<Rightarrow> unit stm" where
  "store_block_stm height results =
     (let all_txids = map tt_txid results
      in stm_seq (upsert_alkane_transactions (tx_rows height results))
        (stm_seq (replace_decoded_protostones all_txids (protostone_rows height results))
           (replace_trace_events all_txids (event_rows height results))))"

subsection \<open>The inputs of the indexers\<close>

definition trace_item_json :: "trace_item \<Rightarrow> json" where
  "trace_item_json e =
     JObj [(''vout'', json_of_i32 (ti_vout e)), (''eventType'', JStr (ti_type e)), (''data'', ti_data e),
           (''alkaneAddressBlock'', JStr (ti_block e)), (''alkaneAddressTx'', JStr (ti_tx e))]"

definition block_time :: "json \<Rightarrow> i64 option" where
  "block_time tx_json = ji64 [''status'', ''block_time''] tx_json"

definition tx_timestamp :: "libs \<Rightarrow> json \<Rightarrow> timestamp" where
  "tx_timestamp l tx_json =
     (case Option.bind (block_time tx_json) (utc_timestamp l) of
        Some ts \<Rightarrow> ts | None \<Rightarrow> unwrap_or 0 (utc_timestamp l 0))"

definition indexer_inputs :: "libs \<Rightarrow> tx_trace list \<Rightarrow> block_tx list" where
  "indexer_inputs l results =
     map (\<lambda>(i, r). \<lparr>bt_txid = tt_txid r, bt_index = of_nat i, bt_time = tx_timestamp l (tt_json r),
            bt_json = tt_json r, bt_events = map trace_item_json (tt_events r)\<rparr>)
       (enumerate 0 results)"

definition index_block :: "i32 \<Rightarrow> string list \<Rightarrow> block_tx list \<Rightarrow> unit wact" where
  "index_block height all_txids inputs =
     act_bind (index_pool_swaps_for_block height inputs) (\<lambda>_.
     act_bind (index_pool_creations_for_block height inputs) (\<lambda>creations.
     act_bind (act_when (creations \<noteq> []) (exec (replace_pool_creations all_txids creations))) (\<lambda>_.
     act_bind (index_pool_mints_for_block height inputs) (\<lambda>_.
     act_bind (index_pool_burns_for_block height inputs) (\<lambda>_.
     act_bind (index_subfrost_wraps_for_block height inputs) (\<lambda>_.
     index_subfrost_unwraps_for_block height inputs))))))"

definition trace_and_index :: "u64 \<Rightarrow> json list \<Rightarrow> unit wact" where
  "trace_and_index height op_return_txs =
     act_bind (decode_and_trace_for_block op_return_txs) (\<lambda>results.
     act_bind (exec (store_block_stm (ucast height) results)) (\<lambda>_.
     act_bind (act_get lib) (\<lambda>l.
     index_block (ucast height) (map tt_txid results) (indexer_inputs l results))))"

subsection \<open>One block\<close>

text \<open>\<open>txs.iter().filter_map(block_time).next().and_then(..).unwrap_or_else(Utc::now)\<close>\<close>

definition block_timestamp :: "json list \<Rightarrow> world \<Rightarrow> timestamp" where
  "block_timestamp txs w =
     (case List.map_filter block_time txs of
        [] \<Rightarrow> utc_now w
      | secs # _ \<Rightarrow> unwrap_or (utc_now w) (utc_timestamp (lib w) secs))"

definition process_block_sequential :: "u64 \<Rightarrow> bool \<Rightarrow> unit wact" where
  "process_block_sequential height emit_publish =
     act_bind (get_block_hash height) (\<lambda>block_hash.
     act_bind (get_block_txids block_hash) (\<lambda>txids.
     act_bind (get_transactions_info txids) (\<lambda>txs.
     let op_return_txs = filter tx_has_op_return txs
     in act_bind (act_when (op_return_txs \<noteq> []) (trace_and_index height op_return_txs)) (\<lambda>_.
        act_bind (act_get (block_timestamp txs)) (\<lambda>block_ts.
        act_bind (exec (upsert_processed_block (ucast height) block_hash block_ts)) (\<lambda>_.
        act_when emit_publish (publish_block_processed height)))))))"

definition fetch_pools_for_tip :: "alkane_id \<Rightarrow> u64 \<Rightarrow> unit wact" where
  "fetch_pools_for_tip factory tip_height =
     act_bind (fetch_and_upsert_pools_for_tip factory tip_height) (\<lambda>_. notify_pools_processed tip_height)"

subsection \<open>The constraints of the schema are kept\<close>

lemma keeps_store_block: "keeps schema_ok (store_block_stm height results)"
  unfolding store_block_stm_def Let_def
  by (intro keeps_seq keeps_upsert_alkane_transactions keeps_replace_decoded_protostones keeps_replace_trace_events)

lemma leaves_fetch_block [intro]:
  "leaves sdb (get_block_hash h)" "leaves sdb (get_block_txids b)" "leaves sdb (get_transactions_info txids)"
  "leaves sdb canonical_tip_height"
  "leaves published (get_block_hash h)" "leaves published (get_block_txids b)"
  "leaves published (get_transactions_info txids)" "leaves published canonical_tip_height"
  by (intro leaves_block leaves_outside leaves_resilient_calls)+

lemma preserves_index_block: "preserves (\<lambda>w. schema_ok (sdb w)) (index_block height all_txids inputs)"
  unfolding index_block_def
  by (intro preserves_bind preserves_when preserves_exec preserves_index_pool_swaps
      preserves_index_pool_creations keeps_replace_pool_creations preserves_index_pool_mints
      preserves_index_pool_burns preserves_index_subfrost)

lemma preserves_process_block: "preserves (\<lambda>w. schema_ok (sdb w)) (process_block_sequential height emit)"
proof -
  have fetch: "preserves (\<lambda>w. schema_ok (sdb w)) m" if "leaves sdb m" for m :: "'a wact"
    using that by (rule preserves_leaves)
  have trace: "preserves (\<lambda>w. schema_ok (sdb w)) (trace_and_index height txs)" for txs
    unfolding trace_and_index_def
    by (intro preserves_bind preserves_exec keeps_store_block preserves_index_block fetch
        leaves_decode_and_trace leaves_get)
  note fetches = leaves_fetch_block(1-3) [THEN fetch] leaves_get [THEN fetch] leaves_notify(1,3) [THEN fetch]
  show ?thesis
    unfolding process_block_sequential_def Let_def
    by (intro preserves_bind preserves_when preserves_exec keeps_upsert_processed_block trace)
      (rule fetches)+
qed

lemma preserves_fetch_pools: "preserves (\<lambda>w. schema_ok (sdb w)) (fetch_pools_for_tip factory tip)"
proof -
  have "preserves (\<lambda>w. schema_ok (sdb w)) (notify_pools_processed tip)"
    by (intro preserves_leaves leaves_notify)
  then show ?thesis
    unfolding fetch_pools_for_tip_def by (intro preserves_bind preserves_fetch_and_upsert_pools)
qed

subsection \<open>What only the last step writes\<close>

text \<open>The markers of processed blocks, the progress key and the pools, which the tracing and the
  indexers leave alone.\<close>

definition block_marks :: "db \<Rightarrow> processed_block list \<times> (string \<times> string) list \<times> pool_row list" where
  "block_marks d = (processed_blocks d, kv_store d, pools d)"

lemma block_marks_updates [simp]:
  "block_marks (alkane_txs_update f1 d) = block_marks d"
  "block_marks (trace_events_update f2 d) = block_marks d"
  "block_marks (protostones_update f3 d) = block_marks d"
  "block_marks (pool_swaps_update f4 d) = block_marks d"
  "block_marks (pool_creations_update f5 d) = block_marks d"
  "block_marks (pool_mints_update f6 d) = block_marks d"
  "block_marks (pool_burns_update f7 d) = block_marks d"
  "block_marks (subfrost_wraps_update f8 d) = block_marks d"
  "block_marks (subfrost_unwraps_update f9 d) = block_marks d"
  by (simp_all add: block_marks_def)

lemma keeps_marks:
  "keeps (\<lambda>d. block_marks d = m) (store_block_stm height results)"
  "keeps (\<lambda>d. block_marks d = m) (replace_pool_swaps txids swaps)"
  "keeps (\<lambda>d. block_marks d = m) (replace_pool_creations txids creations)"
  "keeps (\<lambda>d. block_marks d = m) (replace_pool_mints txids mints)"
  "keeps (\<lambda>d. block_marks d = m) (replace_pool_burns txids burns)"
  "keeps (\<lambda>d. block_marks d = m) (replace_subfrost_wraps txids wraps)"
  "keeps (\<lambda>d. block_marks d = m) (replace_subfrost_unwraps txids unwraps)"
  unfolding store_block_stm_def Let_def upsert_alkane_transactions_def replace_decoded_protostones_def replace_defs
  by (intro keeps_seq keeps_delete_by_txid keeps_insert_chunked keeps_on_conflict keeps_checked keeps_update;
      simp)+

lemma preserves_marks_index_block:
  "preserves (\<lambda>w. block_marks (sdb w) = m) (index_block height all_txids inputs)"
  unfolding index_block_def index_pool_swaps_for_block_def index_pool_creations_for_block_def
    index_pool_mints_for_block_def index_pool_burns_for_block_def index_subfrost_wraps_for_block_def
    index_subfrost_unwraps_for_block_def Let_def
  by (intro preserves_bind preserves_when preserves_exec preserves_with_block_data preserves_with_decoded
      preserves_return keeps_marks)

lemma preserves_marks_trace_and_index:
  "preserves (\<lambda>w. block_marks (sdb w) = m) (trace_and_index height txs)"
proof -
  have "preserves (\<lambda>w. block_marks (sdb w) = m) (decode_and_trace_for_block txs)"
    by (intro preserves_leaves leaves_decode_and_trace)
  moreover have "preserves (\<lambda>w. block_marks (sdb w) = m) (act_get lib)"
    by (intro preserves_leaves leaves_get)
  ultimately show ?thesis
    unfolding trace_and_index_def
    by (intro preserves_bind preserves_exec keeps_marks preserves_marks_index_block)
qed

lemma leaves_published_indexers:
  "leaves published (with_block_data is_invoke results body)" if "\<And>d t. leaves published (body d t)"
  for body :: "decoded_map \<Rightarrow> token_map \<Rightarrow> unit wact"
  unfolding with_block_data_def fetch_invoke_tokens_def
  by (intro leaves_bind leaves_if leaves_return leaves_published_exec that)

lemma leaves_published_decoded:
  "leaves published (with_decoded results body)" if "\<And>d. leaves published (body d)"
  for body :: "decoded_map \<Rightarrow> 'a wact"
  unfolding with_decoded_def by (intro leaves_bind leaves_published_exec that)

lemma leaves_published_trace_and_index: "leaves published (trace_and_index height txs)"
  unfolding trace_and_index_def index_block_def index_pool_swaps_for_block_def
    index_pool_creations_for_block_def index_pool_mints_for_block_def index_pool_burns_for_block_def
    index_subfrost_wraps_for_block_def index_subfrost_unwraps_for_block_def Let_def
  by (intro leaves_bind leaves_when leaves_published_exec leaves_published_indexers leaves_published_decoded
      leaves_return leaves_get leaves_decode_and_trace)

subsection \<open>The two parts of a block: everything up to the marker, and the marker\<close>

lemma act_bind_assoc: "act_bind (act_bind m f) g = act_bind m (\<lambda>x. act_bind (f x) g)"
  by (rule ext) (simp add: act_bind_def split: prod.split sum.split)

lemma act_bind_return: "act_bind (act_return x) f = f x"
  by (rule ext) (simp add: act_bind_def act_return_def)

definition process_until_marker :: "u64 \<Rightarrow> (string \<times> timestamp) wact" where
  "process_until_marker height =
     act_bind (get_block_hash height) (\<lambda>block_hash.
     act_bind (get_block_txids block_hash) (\<lambda>txids.
     act_bind (get_transactions_info txids) (\<lambda>txs.
     act_bind (act_when (filter tx_has_op_return txs \<noteq> []) (trace_and_index height (filter tx_has_op_return txs))) (\<lambda>_.
     act_bind (act_get (block_timestamp txs)) (\<lambda>block_ts. act_return (block_hash, block_ts))))))"

lemma process_block_split:
  "process_block_sequential height emit =
     act_bind (process_until_marker height) (\<lambda>(block_hash, block_ts).
     act_bind (exec (upsert_processed_block (ucast height) block_hash block_ts)) (\<lambda>_.
     act_when emit (publish_block_processed height)))"
  by (simp add: process_block_sequential_def process_until_marker_def act_bind_assoc act_bind_return Let_def)

lemma process_until_marker_leaves:
  "preserves (\<lambda>w. block_marks (sdb w) = m) (process_until_marker height)"
  "leaves published (process_until_marker height)"
proof -
  have fetch: "preserves (\<lambda>w. block_marks (sdb w) = m) a" if "leaves sdb a" for a :: "'a wact"
    using that by (rule preserves_leaves)
  note fetches = leaves_fetch_block(1-3) [THEN fetch] leaves_get [THEN fetch] leaves_return [THEN fetch]
  show "preserves (\<lambda>w. block_marks (sdb w) = m) (process_until_marker height)"
    unfolding process_until_marker_def
    by (intro preserves_bind preserves_when preserves_marks_trace_and_index) (rule fetches)+
  show "leaves published (process_until_marker height)"
    unfolding process_until_marker_def
    by (intro leaves_bind leaves_when leaves_published_trace_and_index leaves_return leaves_get leaves_fetch_block)
qed

lemma process_until_marker_hash:
  assumes "process_until_marker height w = (Inr (hash, ts), w1)"
  shows "hash_answer (prov w) (calls w) height = Inr hash"
  using assms
  by (auto simp: process_until_marker_def act_bind_Inr get_block_hash_def provider_call_def act_return_def
      act_fail_def split: sum.splits)

lemma process_block_cases:
  assumes "process_block_sequential height emit w = (r, w')"
  obtains (unmarked) e where "r = Inl e" "block_marks (sdb w') = block_marks (sdb w)" "published w' = published w"
  | (marked) hash ts w1 where "r = Inr ()" "process_until_marker height w = (Inr (hash, ts), w1)"
      "block_marks (sdb w1) = block_marks (sdb w)" "published w1 = published w"
      "upsert_processed_block (ucast height) hash ts (sdb w1) = Inr ((), sdb w')"
      "act_when emit (publish_block_processed height) (w1\<lparr>db_calls := Suc (db_calls w1), sdb := sdb w'\<rparr>) = (Inr (), w')"
proof -
  obtain r1 w1 where 1: "process_until_marker height w = (r1, w1)" by (rule prod.exhaust)
  have same: "block_marks (sdb w1) = block_marks (sdb w)" "published w1 = published w"
    using preservesD [OF process_until_marker_leaves(1) refl 1] leavesD [OF process_until_marker_leaves(2) 1] by simp_all
  show thesis
  proof (cases r1)
    case (Inl e)
    with assms 1 same show thesis by (intro unmarked) (auto simp: process_block_split act_bind_def)
  next
    case (Inr x)
    obtain hash ts where x: "x = (hash, ts)" by (rule prod.exhaust)
    obtain r2 w2 where 2: "exec (upsert_processed_block (ucast height) hash ts) w1 = (r2, w2)" by (rule prod.exhaust)
    have pub2: "published w2 = published w1" using leavesD [OF leaves_published_exec 2] .
    show thesis
    proof (cases r2)
      case (Inl e)
      with 2 have "sdb w2 = sdb w1" by (auto dest: exec_Inl)
      with assms 1 Inr x 2 Inl same pub2 show thesis
        by (intro unmarked) (auto simp: process_block_split act_bind_def)
    next
      case r2: (Inr y)
      then have w2: "w2 = w1\<lparr>db_calls := Suc (db_calls w1), sdb := sdb w2\<rparr>"
          "upsert_processed_block (ucast height) hash ts (sdb w1) = Inr ((), sdb w2)"
        using 2 by (auto simp: exec_Inr)
      have last: "act_when emit (publish_block_processed height) w2 = (r, w')"
        using assms 1 Inr x 2 r2 by (simp add: process_block_split act_bind_def)
      have "sdb w' = sdb w2"
        using leavesD [OF leaves_when [OF leaves_notify(3)] last] .
      moreover have "r = Inr ()"
        using last publish_block_processed_result(1) [of height w2]
        by (cases emit) (auto simp: act_when_def act_return_def)
      ultimately show thesis
        using 1 Inr x 2 r2 w2 last same by (intro marked [of hash ts w1]) auto
    qed
  qed
qed

lemma upsert_processed_block_Inr:
  assumes "upsert_processed_block height hash ts d = Inr (x, d')"
  shows "row_of pb_height (processed_blocks d') k =
      (if k = height then Some \<lparr>pb_height = height, pb_hash = hash, pb_time = ts, pb_processing = False\<rparr>
       else row_of pb_height (processed_blocks d) k)"
    and "kv_store d' = kv_store d" "pools d' = pools d"
proof -
  let ?row = "\<lparr>pb_height = height, pb_hash = hash, pb_time = ts, pb_processing = False\<rparr>"
  let ?f = "\<lambda>r. if pb_height r = height then ?row else r"
  have d': "d' = processed_blocks_update (\<lambda>t. if height \<in> set (map pb_height t) then map ?f t else t @ [?row]) d"
    using assms by (auto simp: upsert_processed_block_def db_simps Let_def)
  then show "kv_store d' = kv_store d" "pools d' = pools d" by simp_all
  show "row_of pb_height (processed_blocks d') k = (if k = height then Some ?row else row_of pb_height (processed_blocks d) k)"
  proof (cases "height \<in> set (map pb_height (processed_blocks d))")
    case True
    then obtain old where old: "row_of pb_height (processed_blocks d) height = Some old" "pb_height old = height"
      by (cases "row_of pb_height (processed_blocks d) height") (auto simp: row_of_None dest: row_of_key)
    have "row_of pb_height (processed_blocks d') k = map_option ?f (row_of pb_height (processed_blocks d) k)"
      using True unfolding d' row_of_def by (simp add: find_map_keyed [of pb_height ?f])
    with old show ?thesis
      by (cases "row_of pb_height (processed_blocks d) k")
        (auto dest: row_of_key)
  next
    case False
    then have "row_of pb_height (processed_blocks d) height = None" by (auto simp: row_of_None)
    with False show ?thesis by (auto simp: d' row_of_def find_append split: option.split)
  qed
qed

subsection \<open>All six indexers\<close>

text \<open>The successful steps of the indexing, from the database they start on.\<close>

lemma index_steps:
  "index_pool_swaps_for_block height inputs s = (Inr u, s') \<Longrightarrow>
     \<exists>decoded tokens. block_data is_delegate_invoke inputs (sdb s) decoded tokens \<and>
       sdb s' = pool_swaps_update (\<lambda>t. filter (\<lambda>r. sw_txid r \<notin> set (map bt_txid inputs)) t
         @ swap_rows decoded tokens height inputs) (sdb s)"
  "index_pool_mints_for_block height inputs s = (Inr u, s') \<Longrightarrow>
     \<exists>decoded tokens. block_data is_delegate_invoke_mint inputs (sdb s) decoded tokens \<and>
       sdb s' = pool_mints_update (stored_rows lq_txid (map bt_txid inputs) (mint_rows decoded tokens height inputs)) (sdb s)"
  "index_pool_burns_for_block height inputs s = (Inr u, s') \<Longrightarrow>
     \<exists>decoded tokens. block_data is_delegate_invoke_burn inputs (sdb s) decoded tokens \<and>
       sdb s' = pool_burns_update (stored_rows lq_txid (map bt_txid inputs) (burn_rows decoded tokens height inputs)) (sdb s)"
  "index_subfrost_wraps_for_block height inputs s = (Inr u, s') \<Longrightarrow>
     \<exists>decoded. get_decoded_protostones_by_txid_vout (map bt_txid inputs) (sdb s) = Inr (decoded, sdb s) \<and>
       sdb s' = subfrost_wraps_update (stored_rows fr_txid (map bt_txid inputs)
         (frost_rows (wrap_row_at decoded height) inputs)) (sdb s)"
  "index_subfrost_unwraps_for_block height inputs s = (Inr u, s') \<Longrightarrow>
     \<exists>decoded. get_decoded_protostones_by_txid_vout (map bt_txid inputs) (sdb s) = Inr (decoded, sdb s) \<and>
       sdb s' = subfrost_unwraps_update (stored_rows fr_txid (map bt_txid inputs)
         (frost_rows (unwrap_row_at decoded height) inputs)) (sdb s)"
  "index_pool_creations_for_block height inputs s = (Inr rows, s') \<Longrightarrow> sdb s' = sdb s \<and>
     (\<exists>decoded. get_decoded_protostones_by_txid_vout (map bt_txid inputs) (sdb s) = Inr (decoded, sdb s) \<and>
        rows = creation_rows decoded height inputs)"
  using index_pool_swaps_result [where height = height and results = inputs and s = s] index_pool_mints_result [where height = height and results = inputs and s = s]
    index_pool_burns_result [where height = height and results = inputs and s = s] index_subfrost_wraps_result [where height = height and results = inputs and s = s]
    index_subfrost_unwraps_result [where height = height and results = inputs and s = s] index_pool_creations_result [where height = height and results = inputs and s = s]
  by auto

text \<open>What the preloads read of the database: the decoded protostones and the tokens of the pools
  that the invokes of each kind address.\<close>

definition preloads :: "block_tx list \<Rightarrow> db \<Rightarrow> decoded_map \<Rightarrow> ((json \<Rightarrow> bool) \<Rightarrow> token_map) \<Rightarrow> bool" where
  "preloads inputs d decoded tokens \<longleftrightarrow>
     get_decoded_protostones_by_txid_vout (map bt_txid inputs) d = Inr (decoded, d) \<and>
     (\<forall>kind. get_pool_tokens_for_pairs (invoke_pools kind inputs) d = Inr (tokens kind, d))"

lemma preloads_exist: "\<exists>decoded tokens. preloads inputs d decoded tokens"
proof -
  have "\<exists>m. get_decoded_protostones_by_txid_vout ts d = Inr (m, d)" for ts
    by (simp add: get_decoded_protostones_by_txid_vout_def stm_return_def query_def)
  moreover have "\<exists>m. get_pool_tokens_for_pairs ps d = Inr (m, d)" for ps
    by (simp add: get_pool_tokens_for_pairs_def stm_return_def query_def)
  then have "\<exists>tokens. \<forall>kind. get_pool_tokens_for_pairs (invoke_pools kind inputs) d = Inr (tokens kind, d)"
    by (intro choice allI) 
  ultimately show ?thesis unfolding preloads_def by blast
qed

lemma preloads_unique:
  assumes "preloads inputs d decoded tokens" "protostones d' = protostones d" "pools d' = pools d"
  shows "get_decoded_protostones_by_txid_vout (map bt_txid inputs) d' = Inr (m, d') \<Longrightarrow> m = decoded"
    and "block_data kind inputs d' m t \<Longrightarrow> m = decoded \<and> t = tokens kind"
proof -
  have 1: "get_decoded_protostones_by_txid_vout (map bt_txid inputs) d' = Inr (decoded, d')"
    using assms get_decoded_cong [OF assms(2)] by (simp add: preloads_def)
  have 2: "get_pool_tokens_for_pairs (invoke_pools kind inputs) d' = Inr (tokens kind, d')"
    using assms get_tokens_cong [OF assms(3)] by (simp add: preloads_def)
  show "get_decoded_protostones_by_txid_vout (map bt_txid inputs) d' = Inr (m, d') \<Longrightarrow> m = decoded"
    using 1 by simp
  show "block_data kind inputs d' m t \<Longrightarrow> m = decoded \<and> t = tokens kind"
    using 1 2 by (simp add: block_data_def)
qed

lemma index_block_Inr:
  assumes run: "index_block height (map bt_txid inputs) inputs w = (Inr (), w')"
    and pre: "preloads inputs (sdb w) decoded tokens"
  defines "txids \<equiv> map bt_txid inputs"
  shows "sdb w' = subfrost_unwraps_update (stored_rows fr_txid txids (frost_rows (unwrap_row_at decoded height) inputs))
    (subfrost_wraps_update (stored_rows fr_txid txids (frost_rows (wrap_row_at decoded height) inputs))
    (pool_burns_update (stored_rows lq_txid txids (burn_rows decoded (tokens is_delegate_invoke_burn) height inputs))
    (pool_mints_update (stored_rows lq_txid txids (mint_rows decoded (tokens is_delegate_invoke_mint) height inputs))
    (pool_creations_update (stored_rows cr_txid txids (creation_rows decoded height inputs))
    (pool_swaps_update (\<lambda>t. filter (\<lambda>r. sw_txid r \<notin> set txids) t
       @ swap_rows decoded (tokens is_delegate_invoke) height inputs) (sdb w))))))"
proof -
  obtain w1 rows w2 w3 w4 w5 w6 where
    1: "index_pool_swaps_for_block height inputs w = (Inr (), w1)" and
    2: "index_pool_creations_for_block height inputs w1 = (Inr rows, w2)" and
    3: "act_when (rows \<noteq> []) (exec (replace_pool_creations txids rows)) w2 = (Inr (), w3)" and
    4: "index_pool_mints_for_block height inputs w3 = (Inr (), w4)" and
    5: "index_pool_burns_for_block height inputs w4 = (Inr (), w5)" and
    6: "index_subfrost_wraps_for_block height inputs w5 = (Inr (), w6)" and
    7: "index_subfrost_unwraps_for_block height inputs w6 = (Inr (), w')"
    using run by (auto simp: index_block_def act_bind_Inr txids_def)
  note unique = preloads_unique [OF pre]
  have s1: "sdb w1 = pool_swaps_update (\<lambda>t. filter (\<lambda>r. sw_txid r \<notin> set txids) t
       @ swap_rows decoded (tokens is_delegate_invoke) height inputs) (sdb w)"
    using index_steps(1) [OF 1] unique(2) [of "sdb w"] by (auto simp: txids_def)
  have r1: "protostones (sdb w1) = protostones (sdb w)" "pools (sdb w1) = pools (sdb w)" by (simp_all add: s1)
  have s2: "sdb w2 = sdb w1" "rows = creation_rows decoded height inputs"
    using index_steps(6) [OF 2] unique(1) [OF r1] by auto
  have s3: "sdb w3 = pool_creations_update (stored_rows cr_txid txids (creation_rows decoded height inputs)) (sdb w1)"
    using creation_store.store_if_any [OF 3] s2 by simp
  have r3: "protostones (sdb w3) = protostones (sdb w)" "pools (sdb w3) = pools (sdb w)" by (simp_all add: s3 r1)
  have s4: "sdb w4 = pool_mints_update (stored_rows lq_txid txids (mint_rows decoded (tokens is_delegate_invoke_mint) height inputs)) (sdb w3)"
    using index_steps(2) [OF 4] unique(2) [OF r3] by (auto simp: txids_def)
  have r4: "protostones (sdb w4) = protostones (sdb w)" "pools (sdb w4) = pools (sdb w)" by (simp_all add: s4 r3)
  have s5: "sdb w5 = pool_burns_update (stored_rows lq_txid txids (burn_rows decoded (tokens is_delegate_invoke_burn) height inputs)) (sdb w4)"
    using index_steps(3) [OF 5] unique(2) [OF r4] by (auto simp: txids_def)
  have r5: "protostones (sdb w5) = protostones (sdb w)" "pools (sdb w5) = pools (sdb w)" by (simp_all add: s5 r4)
  have s6: "sdb w6 = subfrost_wraps_update (stored_rows fr_txid txids (frost_rows (wrap_row_at decoded height) inputs)) (sdb w5)"
    using index_steps(4) [OF 6] unique(1) [OF r5] by (auto simp: txids_def)
  have r6: "protostones (sdb w6) = protostones (sdb w)" "pools (sdb w6) = pools (sdb w)" by (simp_all add: s6 r5)
  have "sdb w' = subfrost_unwraps_update (stored_rows fr_txid txids (frost_rows (unwrap_row_at decoded height) inputs)) (sdb w6)"
    using index_steps(5) [OF 7] unique(1) [OF r6] by (auto simp: txids_def)
  then show ?thesis by (simp only: s6 s5 s4 s3 s1)
qed

text \<open>With the database reachable, only the constraints of \<open>PoolCreation\<close> can stop the indexing.\<close>

abbreviation reachable :: "world \<Rightarrow> bool" where
  "reachable w \<equiv> outage w = (\<lambda>_. None)"

lemma exec_reachable:
  "reachable w \<Longrightarrow> m (sdb w) = Inr (x, d) \<Longrightarrow> \<exists>w'. exec m w = (Inr x, w') \<and> reachable w' \<and> sdb w' = d"
  by (simp add: exec_def Let_def)

lemma with_decoded_reachable:
  assumes "reachable w"
  obtains decoded w2 where "with_decoded inputs body w = body decoded w2" "reachable w2"
proof -
  obtain m where "get_decoded_protostones_by_txid_vout (map bt_txid inputs) (sdb w) = Inr (m, sdb w)"
    using preloads_exist [of inputs "sdb w"] by (auto simp: preloads_def)
  from exec_reachable [where m = "get_decoded_protostones_by_txid_vout (map bt_txid inputs)", OF assms this] show thesis
    by (auto simp: with_decoded_def act_bind_def intro: that)
qed

lemma with_block_data_reachable:
  assumes "reachable w"
  obtains decoded tokens w2 where "with_block_data kind inputs body w = body decoded tokens w2" "reachable w2"
proof -
  have "with_block_data kind inputs body =
      with_decoded inputs (\<lambda>decoded. act_bind (fetch_invoke_tokens kind inputs) (body decoded))"
    by (simp add: with_block_data_def with_decoded_def)
  then obtain decoded w1 where 1: "with_block_data kind inputs body w = act_bind (fetch_invoke_tokens kind inputs) (body decoded) w1"
    "reachable w1"
    using with_decoded_reachable [OF assms] by metis
  obtain m where "get_pool_tokens_for_pairs (invoke_pools kind inputs) (sdb w1) = Inr (m, sdb w1)"
    using preloads_exist [of inputs "sdb w1"] by (auto simp: preloads_def)
  from exec_reachable [where m = "get_pool_tokens_for_pairs (invoke_pools kind inputs)", OF 1(2) this] obtain tokens w2
    where 2: "fetch_invoke_tokens kind inputs w1 = (Inr tokens, w2)" "reachable w2"
    using 1(2) by (cases "invoke_pools kind inputs = []") (auto simp: fetch_invoke_tokens_def act_return_def)
  with 1 show thesis by (intro that [of decoded tokens w2]) (simp_all add: act_bind_def)
qed

lemma store_reachable:
  assumes "reachable w" "rows \<noteq> [] \<Longrightarrow> \<exists>d. replace txids rows (sdb w) = Inr ((), d)"
  shows "\<exists>w'. act_when (rows \<noteq> []) (exec (replace txids rows)) w = (Inr (), w') \<and> reachable w'"
  using assms exec_reachable [OF assms(1), of "replace txids rows"] by (auto simp: act_when_def act_return_def)

lemma indexers_reachable:
  assumes up: "reachable w"
  shows "\<exists>w'. index_pool_swaps_for_block height inputs w = (Inr (), w') \<and> reachable w'"
    "\<exists>w'. index_pool_mints_for_block height inputs w = (Inr (), w') \<and> reachable w'"
    "\<exists>w'. index_pool_burns_for_block height inputs w = (Inr (), w') \<and> reachable w'"
    "\<exists>w'. index_subfrost_wraps_for_block height inputs w = (Inr (), w') \<and> reachable w'"
    "\<exists>w'. index_subfrost_unwraps_for_block height inputs w = (Inr (), w') \<and> reachable w'"
    "\<exists>rows w'. index_pool_creations_for_block height inputs w = (Inr rows, w') \<and> reachable w'"
proof -
  let ?ok = "\<lambda>m. \<exists>w'. m = (Inr (), w') \<and> reachable w'"
  show "?ok (index_pool_swaps_for_block height inputs w)"
  proof -
    obtain decoded tokens w2 where run: "index_pool_swaps_for_block height inputs w =
        exec (replace_pool_swaps (map bt_txid inputs) (swap_rows decoded tokens height inputs)) w2" "reachable w2"
      unfolding index_pool_swaps_for_block_def by (rule with_block_data_reachable [OF up])
    obtain d where "replace_pool_swaps (map bt_txid inputs) (swap_rows decoded tokens height inputs) (sdb w2) = Inr ((), d)"
      using swap_store.replace_total by blast
    from exec_reachable [where m = "replace_pool_swaps (map bt_txid inputs) (swap_rows decoded tokens height inputs)",
        OF run(2) this] run(1) show ?thesis by auto
  qed
  show "?ok (index_pool_mints_for_block height inputs w)"
    unfolding index_pool_mints_for_block_def Let_def
    by (rule with_block_data_reachable [OF up], erule ssubst)
      (rule store_reachable, assumption, rule mint_store.replace_total)
  show "?ok (index_pool_burns_for_block height inputs w)"
    unfolding index_pool_burns_for_block_def Let_def
    by (rule with_block_data_reachable [OF up], erule ssubst)
      (rule store_reachable, assumption, rule burn_store.replace_total)
  show "?ok (index_subfrost_wraps_for_block height inputs w)"
    unfolding index_subfrost_wraps_for_block_def Let_def
    by (rule with_decoded_reachable [OF up], erule ssubst)
      (rule store_reachable, assumption, rule wrap_store.replace_total)
  show "?ok (index_subfrost_unwraps_for_block height inputs w)"
    unfolding index_subfrost_unwraps_for_block_def Let_def
    by (rule with_decoded_reachable [OF up], erule ssubst)
      (rule store_reachable, assumption, rule unwrap_store.replace_total)
  show "\<exists>rows w'. index_pool_creations_for_block height inputs w = (Inr rows, w') \<and> reachable w'"
    unfolding index_pool_creations_for_block_def
    by (rule with_decoded_reachable [OF up, of inputs "\<lambda>decoded. act_return (creation_rows decoded height inputs)"])
      (auto simp: act_return_def)
qed

lemma index_block_runs:
  assumes "reachable w" "preloads inputs (sdb w) decoded tokens"
    and "creation_rows decoded height inputs = [] \<or>
      pool_creation_ok (pool_creations_update
        (stored_rows cr_txid (map bt_txid inputs) (creation_rows decoded height inputs)) (sdb w))"
  shows "\<exists>w'. index_block height (map bt_txid inputs) inputs w = (Inr (), w')"
proof -
  let ?txids = "map bt_txid inputs" and ?rows = "creation_rows decoded height inputs"
  obtain w1 where 1: "index_pool_swaps_for_block height inputs w = (Inr (), w1)" "reachable w1"
    using indexers_reachable(1) [OF assms(1)] by blast
  obtain swaps where s1: "sdb w1 = pool_swaps_update swaps (sdb w)"
    using index_steps(1) [OF 1(1)] by blast
  obtain rows w2 where 2: "index_pool_creations_for_block height inputs w1 = (Inr rows, w2)" "reachable w2"
    using indexers_reachable(6) [OF 1(2)] by blast
  have s2: "sdb w2 = sdb w1" "rows = ?rows"
    using index_steps(6) [OF 2(1)] preloads_unique(1) [OF assms(2), of "sdb w1"] s1 by auto
  have "\<exists>d. replace_pool_creations ?txids rows (sdb w2) = Inr ((), d)" if "rows \<noteq> []"
  proof -
    have "stored_rows cr_txid ?txids ?rows = (\<lambda>t. filter (\<lambda>r. cr_txid r \<notin> set ?txids) t @ ?rows)"
      using that s2 by (simp add: fun_eq_iff stored_rows_def)
    with assms(3) that s2 s1 have "pool_creation_ok (with_rows pool_creations_update cr_txid ?txids rows (sdb w2))"
      by (simp add: with_rows_def pool_creation_ok_def)
    with replace_pool_creations_eq [OF that, of ?txids "sdb w2"] show ?thesis by simp
  qed
  then obtain w3 where 3: "act_when (rows \<noteq> []) (exec (replace_pool_creations ?txids rows)) w2 = (Inr (), w3)" "reachable w3"
    using store_reachable [OF 2(2), of rows replace_pool_creations] by blast
  obtain w4 where 4: "index_pool_mints_for_block height inputs w3 = (Inr (), w4)" "reachable w4"
    using indexers_reachable(2) [OF 3(2)] by blast
  obtain w5 where 5: "index_pool_burns_for_block height inputs w4 = (Inr (), w5)" "reachable w5"
    using indexers_reachable(3) [OF 4(2)] by blast
  obtain w6 where 6: "index_subfrost_wraps_for_block height inputs w5 = (Inr (), w6)" "reachable w6"
    using indexers_reachable(4) [OF 5(2)] by blast
  obtain w7 where 7: "index_subfrost_unwraps_for_block height inputs w6 = (Inr (), w7)" "reachable w7"
    using indexers_reachable(5) [OF 6(2)] by blast
  show ?thesis using 1 2 3 4 5 6 7 by (auto simp: index_block_def act_bind_def)
qed

lemma example_wrap_order: "order_events (bt_events example_wrap) = bt_events example_wrap"
  by (simp add: order_events_def sort_by_def event_cmp_def example_wrap_def compare_def json_simps)

lemma example_wrap_creations: "creation_rows decoded height [example_wrap] = []"
  by (simp add: creation_rows_def detect_pool_creations_for_tx_def example_wrap_order List.map_filter_simps Let_def)
    (simp add: example_wrap_def detect_creation_at_def json_simps List.map_filter_simps)

lemma example_wrap_run: "\<exists>w'. index_block 5 [''t''] [example_wrap] example_world = (Inr (), w')"
proof -
  obtain decoded tokens where "preloads [example_wrap] (sdb example_world) decoded tokens"
    using preloads_exist by blast
  from index_block_runs [OF _ this, of 5] show ?thesis
    by (simp add: example_wrap_creations) (simp add: example_world_def example_wrap_def json_simps)
qed

subsection \<open>Storing and reading back the traces of a block\<close>

lemma row_txids:
  "map at_txid (tx_rows height results) = map tt_txid results"
  "e \<in> set (event_rows height results) \<Longrightarrow> te_txid e \<in> set (map tt_txid results)"
  "p \<in> set (protostone_rows height results) \<Longrightarrow> dp_txid p \<in> set (map tt_txid results)"
proof -
  have "map at_txid (map (\<lambda>(i, r). \<lparr>at_txid = tt_txid r, at_height = height, at_index = of_nat i,
      at_has_trace = tt_has_trace r, at_succeed = tt_succeed r, at_data = tt_json r\<rparr>) (enumerate n results)) =
      map tt_txid results" for n
    by (induction results arbitrary: n) auto
  then show "map at_txid (tx_rows height results) = map tt_txid results" unfolding tx_rows_def .
qed (auto simp: event_rows_def protostone_rows_def)

lemma store_block_Inr:
  assumes run: "store_block_stm height results d = Inr ((), d')"
    and "schema_ok d" "distinct (map tt_txid results)" "distinct (map protostone_key (protostone_rows height results))"
  defines "txids \<equiv> map tt_txid results"
  shows "trace_events d' = filter (\<lambda>r. te_txid r \<notin> set txids) (trace_events d) @ event_rows height results"
    and "protostones d' = filter (\<lambda>r. dp_txid r \<notin> set txids) (protostones d) @ protostone_rows height results"
    and "row_of at_txid (alkane_txs d') k =
      (case row_of at_txid (tx_rows height results) k of Some r \<Rightarrow> Some r | None \<Rightarrow> row_of at_txid (alkane_txs d) k)"
proof -
  obtain d1 d2 where
    1: "upsert_alkane_transactions (tx_rows height results) d = Inr ((), d1)" and
    2: "replace_decoded_protostones txids (protostone_rows height results) d1 = Inr ((), d2)" and
    3: "replace_trace_events txids (event_rows height results) d2 = Inr ((), d')"
    using run by (auto simp: store_block_stm_def Let_def stm_seq_Inr txids_def)
  have dist: "distinct (map at_txid (tx_rows height results))" using assms(3) by (simp add: row_txids)
  note s1 = upsert_alkane_transactions_Inr [OF 1 dist]
  have ok1: "schema_ok d1" using keepsD [OF keeps_upsert_alkane_transactions assms(2) 1] .
  have "\<forall>r \<in> set (protostone_rows height results). dp_txid r \<in> set txids"
    using row_txids(3) by (auto simp: txids_def)
  from replace_decoded_protostones_Inr [OF 2 ok1 assms(4) this]
  have s2: "d2 = protostones_update (\<lambda>t. filter (\<lambda>r. dp_txid r \<notin> set txids) t @ protostone_rows height results) d1" .
  have s3: "d' = trace_events_update (\<lambda>t. filter (\<lambda>r. te_txid r \<notin> set txids) t @ event_rows height results) d2"
    using event_store.replace_Inr [OF 3] .
  show "trace_events d' = filter (\<lambda>r. te_txid r \<notin> set txids) (trace_events d) @ event_rows height results"
    "protostones d' = filter (\<lambda>r. dp_txid r \<notin> set txids) (protostones d) @ protostone_rows height results"
    "row_of at_txid (alkane_txs d') k =
      (case row_of at_txid (tx_rows height results) k of Some r \<Rightarrow> Some r | None \<Rightarrow> row_of at_txid (alkane_txs d) k)"
    by (simp_all add: s3 s2 s1)
qed

text \<open>The decoded protostones of one transaction among the rows of the block.\<close>

lemma rows_of_tx:
  assumes "distinct (map txid results)" "r \<in> set results" "\<And>x p. p \<in> set (f x) \<Longrightarrow> key p = txid x"
  shows "filter (\<lambda>p. key p = txid r) (concat (map f results)) = f r"
  using assms(1,2)
proof (induction results)
  case (Cons r' results)
  have own: "filter (\<lambda>p. key p = txid r) (f r) = f r"
    using assms(3) by (auto intro: filter_True)
  have none: "filter (\<lambda>p. key p = txid r) (f x) = []" if "txid x \<noteq> txid r" for x
    using that assms(3) by (auto simp: filter_empty_conv)
  show ?case
  proof (cases "r = r'")
    case True
    then have "\<forall>x \<in> set results. txid x \<noteq> txid r" using Cons.prems(1) by (simp add: image_iff) metis
    then have "filter (\<lambda>p. key p = txid r) (concat (map f results)) = []"
      using assms(3) by (auto simp: filter_empty_conv)
    with True own show ?thesis by simp
  next
    case False
    then have "r \<in> set results" "txid r' \<noteq> txid r" using Cons.prems by auto
    with Cons none show ?thesis by simp
  qed
qed simp

lemma protostone_rows_of:
  assumes "distinct (map tt_txid results)" "r \<in> set results"
  shows "filter (\<lambda>p. dp_txid p = tt_txid r \<and> Q p) (protostone_rows height results) =
    filter Q (map (\<lambda>i. \<lparr>dp_txid = tt_txid r, dp_vout = di_vout i, dp_index = di_index i,
      dp_height = height, dp_decoded = di_decoded i\<rparr>) (tt_protostones r))"
proof -
  let ?f = "\<lambda>r. map (\<lambda>i. \<lparr>dp_txid = tt_txid r, dp_vout = di_vout i, dp_index = di_index i,
      dp_height = height, dp_decoded = di_decoded i\<rparr>) (tt_protostones r)"
  have "filter (\<lambda>p. dp_txid p = tt_txid r) (protostone_rows height results) = ?f r"
    unfolding protostone_rows_def by (rule rows_of_tx [where txid = tt_txid, OF assms]) auto
  then show ?thesis by (simp only: filter_filter [symmetric])
qed

lemma event_rows_of:
  assumes "distinct (map tt_txid results)" "r \<in> set results"
  shows "filter (\<lambda>e. te_txid e = tt_txid r) (event_rows height results) =
    map (\<lambda>e. \<lparr>te_txid = tt_txid r, te_height = height, te_vout = ti_vout e, te_type = ti_type e,
      te_data = ti_data e, te_block = ti_block e, te_tx = ti_tx e\<rparr>) (tt_events r)"
  unfolding event_rows_def by (rule rows_of_tx [where txid = tt_txid, OF assms]) auto


subsection \<open>Properties\<close>

text \<open>
  C4: a block whose processing fails, at whatever step, is not marked as processed, and neither
  is anything published for it: the markers, the progress key, the pools and the published
  messages are as before.
\<close>

theorem failed_block_is_not_marked:
  assumes "process_block_sequential height emit w = (Inl e, w')"
  shows "processed_blocks (sdb w') = processed_blocks (sdb w) \<and> kv_store (sdb w') = kv_store (sdb w) \<and>
    pools (sdb w') = pools (sdb w) \<and> published w' = published w"
  using assms by (cases rule: process_block_cases) (auto simp: block_marks_def)

lemma failed_block_is_not_marked_witness:
  "\<exists>e w'. process_block_sequential 5 True (example_world\<lparr>outage := (\<lambda>_. Some ''down''), calls := 1\<rparr>) = (Inl e, w') \<and>
     processed_blocks (sdb w') = [] \<and> published w' = []"
proof -
  let ?w = "example_world\<lparr>outage := (\<lambda>_. Some ''down''), calls := 1\<rparr>"
  have "retry_config_of (?w\<lparr>calls := n, clock_ms := c\<rparr>) = \<lparr>max_attempts = 5, base_delay_ms = 200, max_delay_ms = 5000\<rparr>" for n c
    by (simp add: retry_config_of_def env_num_def example_world_simps)
  then have "\<exists>e w'. process_block_sequential 5 True ?w = (Inl e, w')"
    by (simp add: process_block_sequential_def get_block_hash_def get_block_txids_def get_transactions_info_def
        act_bind_def act_get_def completed_def resilient_call_def resilient_def circuit_open_def
        retry_loop.simps provider_call_def act_return_def act_when_def exec_def List.map_filter_simps
        block_timestamp_def example_world_simps Let_def)
  then obtain e w' where "process_block_sequential 5 True ?w = (Inl e, w')" by blast
  with failed_block_is_not_marked [OF this] show ?thesis
    by (simp add: example_world_def empty_db_def)
qed

text \<open>
  A block whose processing succeeds has one marker row, with the hash the provider gave for
  its height and not in progress; the markers of the other heights, the progress key and the
  pools are as before; and one message is published for it if and only if that was asked for and
  the redis server was reachable.
\<close>

theorem finished_block_is_marked:
  assumes "process_block_sequential height emit w = (Inr (), w')"
  shows "(\<exists>hash ts. hash_answer (prov w) (calls w) height = Inr hash \<and>
      (\<forall>k. row_of pb_height (processed_blocks (sdb w')) k =
         (if k = ucast height
          then Some \<lparr>pb_height = ucast height, pb_hash = hash, pb_time = ts, pb_processing = False\<rparr>
          else row_of pb_height (processed_blocks (sdb w)) k))) \<and>
    kv_store (sdb w') = kv_store (sdb w) \<and> pools (sdb w') = pools (sdb w) \<and>
    published w' = published w @
      (if emit \<and> redis_up w' (redis_calls w' - 1) then [(processed_blocks_channel w', to_string height)] else [])"
  using assms
proof (cases rule: process_block_cases)
  case (marked hash ts w1)
  let ?w2 = "w1\<lparr>db_calls := Suc (db_calls w1), sdb := sdb w'\<rparr>"
  note up = marked(5)
  have old: "processed_blocks (sdb w1) = processed_blocks (sdb w)" "kv_store (sdb w1) = kv_store (sdb w)"
    "pools (sdb w1) = pools (sdb w)"
    using marked(3) by (simp_all add: block_marks_def)
  have "published w' = published w @
      (if emit \<and> redis_up w' (redis_calls w' - 1) then [(processed_blocks_channel w', to_string height)] else [])"
    using publish_when_result [OF marked(6)] marked(4) by simp
  then show ?thesis
    using process_until_marker_hash [OF marked(2)] upsert_processed_block_Inr [OF up] old by auto
qed simp

lemma finished_block_is_marked_witness:
  "\<exists>w'. process_block_sequential 5 True (example_world\<lparr>calls := 1\<rparr>) = (Inr (), w') \<and>
     published w' = [(processed_blocks_channel w', ''5'')]"
proof -
  let ?w = "example_world\<lparr>calls := 1\<rparr>"
  have "retry_config_of (?w\<lparr>calls := n, clock_ms := c\<rparr>) = \<lparr>max_attempts = 5, base_delay_ms = 200, max_delay_ms = 5000\<rparr>" for n c
    by (simp add: retry_config_of_def env_num_def example_world_simps)
  then have "\<exists>w'. process_block_sequential 5 True ?w = (Inr (), w') \<and> redis_up w' (redis_calls w' - 1)"
    by (simp add: process_block_sequential_def get_block_hash_def get_block_txids_def get_transactions_info_def
        act_bind_def act_get_def completed_def resilient_call_def resilient_def circuit_open_def
        retry_loop.simps provider_call_def act_return_def act_when_def exec_def List.map_filter_simps
        block_timestamp_def upsert_processed_block_def checked_def processed_block_ok_def empty_db_def
        publish_block_processed_def redis_command_def example_world_simps Let_def)
  then obtain w' where run: "process_block_sequential 5 True ?w = (Inr (), w')" "redis_up w' (redis_calls w' - 1)"
    by blast
  have "to_string (5 :: u64) = ''5''" by (simp add: to_string_def dec_string.simps digit_char_def)
  with finished_block_is_marked [OF run(1)] run show ?thesis by (auto simp: example_world_def)
qed

text \<open>
  C1: after the indexing of a block succeeded, \<open>PoolSwap\<close> holds, for the transactions of the block,
  exactly the swap rows that the traces give.  Each of the other five event tables does the same when
  the traces of the block give a row of its kind; when they give none, the table is left as it was,
  with the rows that an earlier indexing of these transactions stored.  The rows of other
  transactions, the transactions, protostones and trace events, the pools, markers and progress are
  as before.  All six see the same decoded protostones and, per kind of invoke, the tokens of its pools.
\<close>

theorem index_block_effect:
  assumes "index_block height (map bt_txid inputs) inputs w = (Inr (), w')"
  shows "\<exists>decoded tokens. preloads inputs (sdb w) decoded tokens \<and>
    (let txids = map bt_txid inputs; d = sdb w; d' = sdb w';
         creations = creation_rows decoded height inputs;
         mints = mint_rows decoded (tokens is_delegate_invoke_mint) height inputs;
         burns = burn_rows decoded (tokens is_delegate_invoke_burn) height inputs;
         wraps = frost_rows (wrap_row_at decoded height) inputs;
         unwraps = frost_rows (unwrap_row_at decoded height) inputs in
       pool_swaps d' = filter (\<lambda>r. sw_txid r \<notin> set txids) (pool_swaps d)
         @ swap_rows decoded (tokens is_delegate_invoke) height inputs \<and>
       pool_creations d' = (if creations = [] then pool_creations d
         else filter (\<lambda>r. cr_txid r \<notin> set txids) (pool_creations d) @ creations) \<and>
       pool_mints d' = (if mints = [] then pool_mints d
         else filter (\<lambda>r. lq_txid r \<notin> set txids) (pool_mints d) @ mints) \<and>
       pool_burns d' = (if burns = [] then pool_burns d
         else filter (\<lambda>r. lq_txid r \<notin> set txids) (pool_burns d) @ burns) \<and>
       subfrost_wraps d' = (if wraps = [] then subfrost_wraps d
         else filter (\<lambda>r. fr_txid r \<notin> set txids) (subfrost_wraps d) @ wraps) \<and>
       subfrost_unwraps d' = (if unwraps = [] then subfrost_unwraps d
         else filter (\<lambda>r. fr_txid r \<notin> set txids) (subfrost_unwraps d) @ unwraps) \<and>
       alkane_txs d' = alkane_txs d \<and> trace_events d' = trace_events d \<and> protostones d' = protostones d \<and>
       pools d' = pools d \<and> pool_states d' = pool_states d \<and> kv_store d' = kv_store d \<and>
       processed_blocks d' = processed_blocks d)"
proof -
  obtain decoded tokens where pre: "preloads inputs (sdb w) decoded tokens"
    using preloads_exist by blast
  then show ?thesis
    using index_block_Inr [OF assms pre]
    by (intro exI [of _ decoded] exI [of _ tokens]) (simp add: Let_def stored_rows_def)
qed

lemma index_block_effect_witness:
  "\<exists>w'. index_block 5 [''t''] [example_wrap] example_world = (Inr (), w') \<and>
     map fr_txid (subfrost_wraps (sdb w')) = [''t'']"
proof -
  obtain w' where run: "index_block 5 [''t''] [example_wrap] example_world = (Inr (), w')"
    using example_wrap_run by blast
  have "map bt_txid [example_wrap] = [''t'']" by (simp add: example_wrap_def json_simps)
  with index_block_effect [of 5 "[example_wrap]" example_world w'] run
  have "\<exists>decoded. subfrost_wraps (sdb w') = (if frost_rows (wrap_row_at decoded 5) [example_wrap] = []
      then subfrost_wraps (sdb example_world)
      else filter (\<lambda>r. fr_txid r \<notin> set (map bt_txid [example_wrap])) (subfrost_wraps (sdb example_world))
        @ frost_rows (wrap_row_at decoded 5) [example_wrap])"
    by (metis (no_types, lifting))
  then obtain decoded where "subfrost_wraps (sdb w') = (if frost_rows (wrap_row_at decoded 5) [example_wrap] = []
      then subfrost_wraps (sdb example_world)
      else filter (\<lambda>r. fr_txid r \<notin> set (map bt_txid [example_wrap])) (subfrost_wraps (sdb example_world))
        @ frost_rows (wrap_row_at decoded 5) [example_wrap])"
    by blast
  moreover have "\<exists>row. frost_rows (wrap_row_at decoded 5) [example_wrap] = [row] \<and> fr_txid row = ''t''"
    by (simp add: frost_rows_def example_wrap_order Let_def)
      (simp add: example_wrap_def wrap_row_at_def is_subfrost_wrap_invoke_def json_simps add_frost_eq
        List.map_filter_simps frost_row_of_def split: prod.split)
  ultimately show ?thesis
    using run by (auto simp: example_world_def empty_db_def)
qed

text \<open>
  C17: while the database answers, the indexing of a block can only fail on the constraints of
  \<open>PoolCreation\<close>: it succeeds whenever the block has no pool creation or the resulting table
  satisfies them.
\<close>

theorem index_block_succeeds:
  assumes "reachable w" "preloads inputs (sdb w) decoded tokens"
    and "creation_rows decoded height inputs = [] \<or>
      pool_creation_ok (pool_creations_update
        (stored_rows cr_txid (map bt_txid inputs) (creation_rows decoded height inputs)) (sdb w))"
  shows "\<exists>w'. index_block height (map bt_txid inputs) inputs w = (Inr (), w')"
  using assms by (rule index_block_runs)

lemma index_block_succeeds_witness:
  "\<exists>w'. index_block 5 [''t''] [example_wrap] example_world = (Inr (), w')"
proof -
  obtain decoded tokens where "preloads [example_wrap] (sdb example_world) decoded tokens"
    using preloads_exist by blast
  from index_block_succeeds [OF _ this, of 5] show ?thesis
    by (simp add: example_wrap_creations) (simp add: example_world_def example_wrap_def json_simps)
qed

text \<open>
  Storing the traces of a block in its one database transaction gives exactly the trace
  events and decoded protostones of the block's transactions, whatever was stored for them
  before, keeps those of other transactions, and updates or inserts one row per transaction.
\<close>

theorem store_block_effect:
  assumes "store_block_stm height results d = Inr ((), d')" "schema_ok d"
    and "distinct (map tt_txid results)" "distinct (map protostone_key (protostone_rows height results))"
  shows "trace_events d' = filter (\<lambda>r. te_txid r \<notin> set (map tt_txid results)) (trace_events d) @ event_rows height results \<and>
    protostones d' = filter (\<lambda>r. dp_txid r \<notin> set (map tt_txid results)) (protostones d) @ protostone_rows height results \<and>
    (\<forall>k. row_of at_txid (alkane_txs d') k =
      (case row_of at_txid (tx_rows height results) k of Some r \<Rightarrow> Some r | None \<Rightarrow> row_of at_txid (alkane_txs d) k))"
  using store_block_Inr [OF assms] by blast

definition example_trace :: tx_trace where
  "example_trace = \<lparr>tt_txid = ''t'', tt_json = JNull,
     tt_protostones = [\<lparr>di_vout = 4, di_index = 0, di_decoded = JNull\<rparr>],
     tt_events = [\<lparr>ti_vout = 4, ti_type = ''invoke'', ti_data = JNull, ti_block = ''2'', ti_tx = ''0''\<rparr>],
     tt_has_trace = True, tt_succeed = True\<rparr>"

lemma example_trace_rows:
  "distinct (map tt_txid [example_trace])" "distinct (map protostone_key (protostone_rows 5 [example_trace]))"
  by (simp_all add: example_trace_def protostone_rows_def)

lemma example_store: "\<exists>d'. store_block_stm 5 [example_trace] empty_db = Inr ((), d')"
  by (simp add: store_block_stm_def example_trace_def tx_rows_def protostone_rows_def event_rows_def empty_db_def
      upsert_alkane_transactions_def replace_decoded_protostones_def replace_trace_events_def
      insert_chunked_def delete_by_txid_def chunks.simps max_rows_def max_params_def bind_params_def
      on_conflict_update_def checked_def update_def stm_seq_def stm_bind_def stm_return_def
      upsert_rows_def protostone_ok_def trace_event_ok_def list_all_iff Let_def)

lemma store_block_effect_witness:
  "\<exists>d'. store_block_stm 5 [example_trace] empty_db = Inr ((), d') \<and> map te_type (trace_events d') = [''invoke'']"
proof -
  have ok: "schema_ok empty_db" by (simp add: schema_ok_def constraint_defs empty_db_def)
  obtain d' where run: "store_block_stm 5 [example_trace] empty_db = Inr ((), d')" using example_store by blast
  from store_block_effect [OF run ok example_trace_rows] run show ?thesis
    by (simp add: example_trace_def event_rows_def empty_db_def)
qed

text \<open>
  What the indexers later read as the decoded protostones of a transaction at a \<open>vout\<close> are
  exactly those that were traced for it, each once.
\<close>

theorem stored_protostones_read_back:
  assumes "store_block_stm height results d = Inr ((), d')" "schema_ok d"
    and "distinct (map tt_txid results)" "distinct (map protostone_key (protostone_rows height results))"
    and "get_decoded_protostones_by_txid_vout (map tt_txid results) d' = Inr (decoded, d'')" "r \<in> set results"
  shows "mset (unwrap_or [] (Option.bind (decoded (tt_txid r)) (\<lambda>by_vout. by_vout v))) =
    mset (map (\<lambda>i. (di_index i, di_decoded i)) (filter (\<lambda>i. di_vout i = v) (tt_protostones r)))"
proof -
  let ?txids = "map tt_txid results" and ?rows = "protostone_rows height results"
  let ?P = "\<lambda>p. dp_txid p = tt_txid r \<and> dp_vout p = v"
  have stored: "filter (\<lambda>p. dp_txid p \<in> set ?txids) (protostones d') = ?rows"
  proof -
    have "filter (\<lambda>p. dp_txid p \<in> set ?txids) ?rows = ?rows"
      using row_txids(3) [of _ height results] by (auto intro: filter_True)
    then show ?thesis by (simp add: store_block_Inr(2) [OF assms(1-4)])
  qed
  have "results \<noteq> []" using assms(6) by auto
  then have "decoded = fold push_decoded (sort_key protostone_order ?rows) (\<lambda>_. None)"
    using assms(5) stored by (auto simp: get_decoded_protostones_by_txid_vout_def query_def)
  then have "unwrap_or [] (Option.bind (decoded (tt_txid r)) (\<lambda>by_vout. by_vout v)) =
      map (\<lambda>p. (dp_index p, dp_decoded p)) (filter ?P (sort_key protostone_order ?rows))"
    by (simp add: fold_push_decoded)
  also have "mset \<dots> = mset (map (\<lambda>p. (dp_index p, dp_decoded p)) (filter ?P ?rows))"
    by simp
  also have "filter ?P ?rows = filter (\<lambda>p. dp_vout p = v) (map (\<lambda>i. \<lparr>dp_txid = tt_txid r, dp_vout = di_vout i,
      dp_index = di_index i, dp_height = height, dp_decoded = di_decoded i\<rparr>) (tt_protostones r))"
    by (rule protostone_rows_of [OF assms(3,6)])
  finally show ?thesis by (simp add: filter_map comp_def)
qed

lemma stored_protostones_read_back_witness:
  "\<exists>d' decoded. store_block_stm 5 [example_trace] empty_db = Inr ((), d') \<and>
     get_decoded_protostones_by_txid_vout [''t''] d' = Inr (decoded, d') \<and>
     unwrap_or [] (Option.bind (decoded ''t'') (\<lambda>by_vout. by_vout 4)) = [(0, JNull)]"
proof -
  have ok: "schema_ok empty_db" by (simp add: schema_ok_def constraint_defs empty_db_def)
  obtain d' where run: "store_block_stm 5 [example_trace] empty_db = Inr ((), d')" using example_store by blast
  obtain decoded where get: "get_decoded_protostones_by_txid_vout (map tt_txid [example_trace]) d' = Inr (decoded, d')"
    by (simp add: get_decoded_protostones_by_txid_vout_def query_def)
  have t: "tt_txid example_trace = ''t''" by (simp add: example_trace_def)
  from stored_protostones_read_back [OF run ok example_trace_rows get, of example_trace 4]
  have "mset (unwrap_or [] (Option.bind (decoded ''t'') (\<lambda>by_vout. by_vout 4))) = {#(0, JNull)#}"
    by (simp add: example_trace_def)
  with run get show ?thesis by (auto simp: t)
qed

text \<open>
  The event object that the indexers get for a stored trace event gives back its \<open>vout\<close> (sign
  extended, and the same again as \<open>i32\<close>), its kind, the alkane it addresses and its data.
\<close>

theorem trace_item_read_back:
  "event_vout (trace_item_json e) = Some (scast (ti_vout e)) \<and>
   (ucast (invoke_vout (trace_item_json e)) :: i32) = ti_vout e \<and>
   is_event kind (trace_item_json e) = (ti_type e = kind) \<and>
   event_pool (trace_item_json e) = (ti_block e, ti_tx e) \<and>
   jpath (''data'' # path) (trace_item_json e) = jpath path (ti_data e)"
proof -
  have "(ucast (scast n :: i64) :: i32) = n" for n :: i32
    by (rule bit_word_eqI) (simp add: bit_ucast_iff bit_signed_iff)
  then show ?thesis
    by (simp add: trace_item_json_def event_defs invoke_vout_def json_access_defs as_i64_json_of_i32)
qed

end
