(* ===== verification/Block_Loop.thy ===== *)
theory Block_Loop
  imports Pipeline
begin

text \<open>
  What the tip poller and the catch-up rely on: the contract of the processing of one block, and
  the loop that both run over it, block by block up to the first that fails.
\<close>

subsection \<open>Marked heights\<close>

text \<open>The \<open>ProcessedBlocks\<close> table has a row for the height (as the \<open>integer\<close> that is stored).\<close>

definition marked :: "db \<Rightarrow> u64 \<Rightarrow> bool" where
  "marked d h \<longleftrightarrow> (ucast h :: i32) \<in> set (map pb_height (processed_blocks d))"

lemma marked_row_of: "marked d h \<longleftrightarrow> row_of pb_height (processed_blocks d) (ucast h) \<noteq> None"
  by (auto simp: marked_def row_of_None)

lemma process_block_marked:
  assumes "process_block_sequential height emit w = (r, w')"
  shows "marked (sdb w') k \<longleftrightarrow> marked (sdb w) k \<or> (is_ok r \<and> (ucast k :: i32) = ucast height)"
    and "kv_store (sdb w') = kv_store (sdb w)"
proof -
  have "(marked (sdb w') k \<longleftrightarrow> marked (sdb w) k \<or> (is_ok r \<and> (ucast k :: i32) = ucast height)) \<and>
      kv_store (sdb w') = kv_store (sdb w)"
    using assms
  proof (cases rule: process_block_cases)
    case (unmarked e)
    then show ?thesis by (simp add: marked_def block_marks_def)
  next
    case (marked hash ts w1)
    note up = upsert_processed_block_Inr [OF marked(5)]
    have "processed_blocks (sdb w1) = processed_blocks (sdb w)" "kv_store (sdb w1) = kv_store (sdb w)"
      using marked(3) by (simp_all add: block_marks_def)
    with up(1) [of "ucast k"] up(2) marked(1) show ?thesis by (auto simp: marked_row_of)
  qed
  then show "marked (sdb w') k \<longleftrightarrow> marked (sdb w) k \<or> (is_ok r \<and> (ucast k :: i32) = ucast height)"
    "kv_store (sdb w') = kv_store (sdb w)" by blast+
qed

subsection \<open>The loop\<close>

text \<open>The blocks \<open>hs\<close> in order up to the first that fails; after each one that is processed \<open>keep\<close>
  records how far the loop has come.\<close>

fun until_failure :: "(u64 \<Rightarrow> unit wact) \<Rightarrow> (u64 \<Rightarrow> 'a wact) \<Rightarrow> u64 list \<Rightarrow> 'a \<Rightarrow> 'a wact" where
  "until_failure process keep [] x = act_return x"
| "until_failure process keep (h # hs) x =
     act_bind (act_try (process h)) (\<lambda>r. case r of
         Inl _ \<Rightarrow> act_return x
       | Inr _ \<Rightarrow> act_bind (keep h) (until_failure process keep hs))"

text \<open>The contract: a block that is processed is marked, no mark is ever lost, and how far the loop
  has come is what was kept last.\<close>

locale block_loop =
  fixes process :: "u64 \<Rightarrow> unit wact"
    and keep :: "u64 \<Rightarrow> 'a wact"
    and marks :: "db \<Rightarrow> u64 \<Rightarrow> bool"
    and reached :: "'a \<Rightarrow> db \<Rightarrow> 'p"
    and height_mark :: "u64 \<Rightarrow> 'p"
  assumes process_marks: "process h w = (Inr (), w') \<Longrightarrow> marks (sdb w') h"
    and process_keeps: "process h w = (r, w') \<Longrightarrow> marks (sdb w) k \<Longrightarrow> marks (sdb w') k"
    and process_reached: "process h w = (r, w') \<Longrightarrow> reached x (sdb w') = reached x (sdb w)"
    and keep_keeps: "keep h w = (Inr x, w') \<Longrightarrow> marks (sdb w) k \<Longrightarrow> marks (sdb w') k"
    and keep_reached: "keep h w = (Inr x, w') \<Longrightarrow> reached x (sdb w') = height_mark h"
begin

lemma stops_at_failure:
  assumes "until_failure process keep hs x w = (Inr y, w')"
  obtains ok rest where "hs = ok @ rest" "\<forall>h\<in>set ok. marks (sdb w') h"
    "\<forall>k. marks (sdb w) k \<longrightarrow> marks (sdb w') k"
    "reached y (sdb w') = (if ok = [] then reached x (sdb w) else height_mark (last ok))"
    "rest \<noteq> [] \<longrightarrow> (\<exists>e w1. process (hd rest) w1 = (Inl e, w'))"
  using assms
proof (induction hs arbitrary: x w thesis)
  case Nil
  then show ?case by (auto simp: act_return_def)
next
  case (Cons h hs)
  from Cons.prems(2) consider
    (ok) w1 z w2 where "process h w = (Inr (), w1)" "keep h w1 = (Inr z, w2)"
      "until_failure process keep hs z w2 = (Inr y, w')"
    | (failed) c where "process h w = (Inl (Error c), w')" "y = x"
    unfolding until_failure.simps act_bind_try_Inr by (auto simp: act_bind_Inr act_return_def)
  then show ?case
  proof cases
    case ok
    obtain ok1 rest where rest: "hs = ok1 @ rest" "\<forall>h\<in>set ok1. marks (sdb w') h"
      "\<forall>k. marks (sdb w2) k \<longrightarrow> marks (sdb w') k"
      "reached y (sdb w') = (if ok1 = [] then reached z (sdb w2) else height_mark (last ok1))"
      "rest \<noteq> [] \<longrightarrow> (\<exists>e w1. process (hd rest) w1 = (Inl e, w'))"
      by (rule Cons.IH [OF _ ok(3)])
    have "marks (sdb w') k" if "marks (sdb w) k \<or> k = h" for k
      using that rest(3) process_marks [OF ok(1)] process_keeps [OF ok(1)] keep_keeps [OF ok(2)] by blast
    then show ?thesis
      using rest keep_reached [OF ok(2)] by (intro Cons.prems(1) [of "h # ok1" rest]) auto
  next
    case failed
    then show ?thesis
      using process_keeps [OF failed(1)] process_reached [OF failed(1)]
      by (intro Cons.prems(1) [of "[]" "h # hs"]) auto
  qed
qed

end

end
