(* ===== verification/Config.thy ===== *)
theory Config
  imports World
begin

text \<open>
  \<open>src/config.rs\<close>: the configuration read from the process environment.
\<close>

record app_config =
  database_url :: string
  sandshrew_rpc_url :: string
  bitcoin_rpc_endpoint :: "string option"
  esplora_url :: "string option"
  network_provider :: string
  poll_interval_ms :: u64
  start_height :: "u64 option"
  factory_block_id :: string
  factory_tx_id :: string

definition from_env :: "(string \<Rightarrow> string option) \<Rightarrow> app_config res" where
  "from_env var =
     (case var ''DATABASE_URL'' of
        None \<Rightarrow> Inl (anyhow ''environment variable not found'')
      | Some url \<Rightarrow> Inr
          \<lparr>database_url = url,
           sandshrew_rpc_url = unwrap_or ''http://localhost:18888'' (var ''SANDSHREW_RPC_URL''),
           bitcoin_rpc_endpoint = var ''BITCOIN_RPC_URL'',
           esplora_url = var ''ESPLORA_URL'',
           network_provider = unwrap_or ''regtest'' (var ''NETWORK''),
           poll_interval_ms = unwrap_or 2000 (Option.bind (var ''POLL_INTERVAL_MS'') (from_str_radix 10)),
           start_height = Option.bind (var ''START_HEIGHT'') (from_str_radix 10),
           factory_block_id = unwrap_or ''0'' (var ''FACTORY_BLOCK_ID''),
           factory_tx_id = unwrap_or ''0'' (var ''FACTORY_TX_ID'')\<rparr>)"

definition factory_of :: "app_config \<Rightarrow> alkane_id" where
  "factory_of cfg = (factory_block_id cfg, factory_tx_id cfg)"

text \<open>The only variable that must be set is \<open>DATABASE_URL\<close>; an unreadable number counts as unset.\<close>

lemma from_env_error: "(\<exists>e. from_env var = Inl e) \<longleftrightarrow> var ''DATABASE_URL'' = None"
  by (auto simp: from_env_def split: option.splits)

lemma from_env_start_height:
  "from_env var = Inr cfg \<Longrightarrow>
     start_height cfg = Some h \<longleftrightarrow> (\<exists>s. var ''START_HEIGHT'' = Some s \<and> from_str_radix 10 s = Some h)"
  by (auto simp: from_env_def bind_eq_Some_conv split: option.splits)

end
