(* ===== verification/Poller.thy ===== *)
theory Poller
  imports Block_Loop Config
begin

text \<open>
  \<open>src/poller.rs\<close>: the loop that follows the chain tip.  One iteration asks for the tip, handles
  what it finds and sleeps; the loop runs iterations one after the other for ever, so its
  properties are those of an iteration from any state of the loop.
\<close>

subsection \<open>Definitions\<close>

text \<open>The loop's variables; the oneshot sender is there until the initialisation is signalled.\<close>

record poller_state =
  last_height :: "u64 option"
  backoff_ms :: u64
  init_signal :: bool

definition initial_poller :: "app_config \<Rightarrow> poller_state" where
  "initial_poller cfg =
     \<lparr>last_height = None, backoff_ms = max (poll_interval_ms cfg) 250, init_signal = (start_height cfg \<noteq> None)\<rparr>"

text \<open>\<open>from..=to\<close>\<close>

definition heights :: "u64 \<Rightarrow> u64 \<Rightarrow> u64 list" where
  "heights from to = map of_nat [unat from..<Suc (unat to)]"

text \<open>\<open>if let Err(e) = action.await { error!(..) }\<close>\<close>

definition act_log_error :: "'a wact \<Rightarrow> unit wact" where
  "act_log_error m = act_bind (act_try m) (\<lambda>_. act_return ())"

fun process_new_blocks :: "u64 list \<Rightarrow> u64 option \<Rightarrow> u64 option wact" where
  "process_new_blocks [] latest = act_return latest"
| "process_new_blocks (h # hs) latest =
     act_bind (act_try (process_block_sequential h True)) (\<lambda>r.
       case r of Inl _ \<Rightarrow> act_return latest | Inr _ \<Rightarrow> process_new_blocks hs (Some h))"

definition observe_tip :: "app_config \<Rightarrow> poller_state \<Rightarrow> u64 \<Rightarrow> poller_state wact" where
  "observe_tip cfg st height =
     (case last_height st of
        None \<Rightarrow>
          act_bind (act_log_error (fetch_pools_for_tip (factory_of cfg) height)) (\<lambda>_.
          act_bind (act_when (start_height cfg = None) (act_log_error (process_block_sequential height True))) (\<lambda>_.
          act_return (st\<lparr>last_height := Some height, init_signal := False\<rparr>)))
      | Some prev \<Rightarrow>
          if prev < height then
            act_bind (act_log_error (fetch_pools_for_tip (factory_of cfg) height)) (\<lambda>_.
            act_bind (process_new_blocks (heights (prev + 1) height) (Some prev)) (\<lambda>latest.
            act_return (st\<lparr>last_height := latest\<rparr>)))
          else if height < prev then act_return (st\<lparr>last_height := Some height\<rparr>)
          else act_return st)"

definition poller_tick :: "app_config \<Rightarrow> poller_state \<Rightarrow> poller_state wact" where
  "poller_tick cfg st =
     act_bind (act_get clock_ms) (\<lambda>tick_start.
     act_bind (act_try canonical_tip_height) (\<lambda>tip.
     act_bind (case tip of
         Inr height \<Rightarrow> observe_tip cfg (st\<lparr>backoff_ms := poll_interval_ms cfg\<rparr>) height
       | Inl _ \<Rightarrow> act_return (st\<lparr>backoff_ms := min (saturating_mul (backoff_ms st) 2) 30000\<rparr>)) (\<lambda>st'.
     act_bind (act_get clock_ms) (\<lambda>now.
     act_bind (sleep_ms (max (saturating_sub
         (if backoff_ms st' = poll_interval_ms cfg then poll_interval_ms cfg else backoff_ms st')
         (now - tick_start)) 50)) (\<lambda>_.
     act_return st')))))"

subsection \<open>The refresh of the pools\<close>

lemma fetch_pools_for_tip_marks:
  assumes "fetch_pools_for_tip factory tip w = (r, w')"
  shows "processed_blocks (sdb w') = processed_blocks (sdb w)" "kv_store (sdb w') = kv_store (sdb w)"
proof -
  let ?P = "\<lambda>d. processed_blocks d = processed_blocks (sdb w) \<and> kv_store d = kv_store (sdb w)"
  have "preserves (\<lambda>w. ?P (sdb w)) (fetch_and_upsert_pools_for_tip factory tip)"
    by (rule preserves_pool_tables) simp_all
  moreover have "preserves (\<lambda>w. ?P (sdb w)) (notify_pools_processed tip)"
    using leaves_notify(1) by (rule preserves_leaves)
  ultimately have "preserves (\<lambda>w. ?P (sdb w)) (fetch_pools_for_tip factory tip)"
    unfolding fetch_pools_for_tip_def by (intro preserves_bind)
  from preservesD [OF this _ assms] show "processed_blocks (sdb w') = processed_blocks (sdb w)"
    "kv_store (sdb w') = kv_store (sdb w)" by blast+
qed

lemma leaves_published_fetch_pools_for_tip: "leaves published (fetch_pools_for_tip factory tip)"
  unfolding fetch_pools_for_tip_def fetch_and_upsert_pools_for_tip_def
  by (intro leaves_bind leaves_if leaves_return leaves_published_exec leaves_fetch_pools leaves_notify)

lemma act_log_error_Inr:
  "act_log_error m w = (Inr u, w') \<Longrightarrow> (\<exists>x. m w = (Inr x, w')) \<or> (\<exists>c. m w = (Inl (Error c), w'))"
  by (auto simp: act_log_error_def act_bind_try_Inr act_return_def)

subsection \<open>The loop over the new blocks\<close>

lemma heights_simps:
  "length (heights from to) = Suc (unat to) - unat from"
  "i < Suc (unat to) - unat from \<Longrightarrow> heights from to ! i = from + of_nat i"
  "set (heights from to) = {h. from \<le> h \<and> h \<le> to}"
proof -
  show "length (heights from to) = Suc (unat to) - unat from" by (simp add: heights_def del: upt_Suc)
  show "i < Suc (unat to) - unat from \<Longrightarrow> heights from to ! i = from + of_nat i"
    by (simp add: heights_def del: upt_Suc)
  have "h \<in> set (heights from to) \<longleftrightarrow> from \<le> h \<and> h \<le> to" for h
  proof
    assume "h \<in> set (heights from to)"
    then obtain n where n: "unat from \<le> n" "n \<le> unat to" "h = of_nat n"
      by (auto simp: heights_def)
    moreover have "unat to < 2 ^ 64" by (rule unat_u64)
    with n have "unat h = n" by (simp add: unsigned_of_nat take_bit_nat_eq_self)
    ultimately show "from \<le> h \<and> h \<le> to" by (simp add: word_le_nat_alt)
  next
    assume "from \<le> h \<and> h \<le> to"
    then have "unat h \<in> set [unat from..<Suc (unat to)]" by (auto simp: word_le_nat_alt)
    then show "h \<in> set (heights from to)"
      unfolding heights_def set_map by (rule image_eqI [rotated]) simp
  qed
  then show "set (heights from to) = {h. from \<le> h \<and> h \<le> to}" by blast
qed

text \<open>The loop over the new blocks is the common loop, which carries the last processed height.\<close>

lemma process_new_blocks_loop:
  "process_new_blocks hs latest =
     until_failure (\<lambda>h. process_block_sequential h True) (\<lambda>h. act_return (Some h)) hs latest"
  by (induction hs arbitrary: latest) (simp_all add: act_bind_return cong: sum.case_cong)

interpretation new_blocks: block_loop "\<lambda>h. process_block_sequential h True" "\<lambda>h. act_return (Some h)" marked
    "\<lambda>latest d. latest" Some
  by unfold_locales (auto simp: process_block_marked act_return_def)

lemma process_new_blocks_Inr:
  assumes "process_new_blocks hs latest w = (Inr l, w')"
  shows "\<exists>n \<le> length hs. l = (if n = 0 then latest else Some (hs ! (n - 1))) \<and>
    (\<forall>k. marked (sdb w) k \<longrightarrow> marked (sdb w') k) \<and> (\<forall>i<n. marked (sdb w') (hs ! i)) \<and>
    (n < length hs \<longrightarrow> (\<exists>e w1. process_block_sequential (hs ! n) True w1 = (Inl e, w')))"
proof -
  obtain ok rest where loop: "hs = ok @ rest" "\<forall>h\<in>set ok. marked (sdb w') h"
    "\<forall>k. marked (sdb w) k \<longrightarrow> marked (sdb w') k" "l = (if ok = [] then latest else Some (last ok))"
    "rest \<noteq> [] \<longrightarrow> (\<exists>e w1. process_block_sequential (hd rest) True w1 = (Inl e, w'))"
    using new_blocks.stops_at_failure [OF assms [unfolded process_new_blocks_loop]] .
  then show ?thesis
    by (intro exI [of _ "length ok"]) (auto simp: nth_append last_conv_nth hd_conv_nth)
qed

subsection \<open>Properties\<close>

text \<open>The block after the last one that was processed.\<close>

lemma heights_nth:
  assumes "prev < to" "i < unat to - unat prev"
  shows "heights (prev + 1) to ! i = prev + of_nat (Suc i)"
    and "unat (prev + of_nat (Suc i)) = unat prev + Suc i"
proof -
  have "unat prev + Suc i < 2 ^ 64" using unat_u64 [of to] assms(2) by simp
  then show "unat (prev + of_nat (Suc i)) = unat prev + Suc i" by (rule unat_add_of_nat)
  show "heights (prev + 1) to ! i = prev + of_nat (Suc i)"
    using heights_simps(2) [of i to "prev + 1"] assms by (simp add: unat_next add.assoc)
qed

lemma length_heights_next: "prev < to \<Longrightarrow> length (heights (prev + 1) to) = unat to - unat prev"
  by (simp add: heights_simps(1) unat_next)

lemma observe_new_tip:
  assumes "observe_tip cfg st height w = (Inr st', w')" "last_height st = Some prev" "prev < height"
  obtains w1 latest where "process_new_blocks (heights (prev + 1) height) (Some prev) w1 = (Inr latest, w')"
    "st' = st\<lparr>last_height := latest\<rparr>"
    "processed_blocks (sdb w1) = processed_blocks (sdb w)"
proof -
  obtain w1 latest where 1: "act_log_error (fetch_pools_for_tip (factory_of cfg) height) w = (Inr (), w1)"
    and 2: "process_new_blocks (heights (prev + 1) height) (Some prev) w1 = (Inr latest, w')"
      "st' = st\<lparr>last_height := latest\<rparr>"
    using assms by (auto simp: observe_tip_def act_bind_Inr act_return_def)
  from act_log_error_Inr [OF 1] have "processed_blocks (sdb w1) = processed_blocks (sdb w)"
    by (auto dest: fetch_pools_for_tip_marks(1))
  with 2 show thesis by (rule that)
qed

text \<open>
  C5: when the poller sees a tip above the height it has reached, it gets to some height between
  the two; every block up to there is marked as processed, no marker is lost, and if it is not
  the tip then the block right above is the one whose processing failed last, which the next tick
  starts with again.
\<close>

theorem poller_follows_tip:
  assumes "observe_tip cfg st height w = (Inr st', w')" "last_height st = Some prev" "prev < height"
  shows "\<exists>l. st' = st\<lparr>last_height := Some l\<rparr> \<and> prev \<le> l \<and> l \<le> height \<and>
    (\<forall>h. marked (sdb w) h \<or> prev < h \<and> h \<le> l \<longrightarrow> marked (sdb w') h) \<and>
    (l < height \<longrightarrow> (\<exists>e w1. process_block_sequential (l + 1) True w1 = (Inl e, w')))"
proof -
  obtain w1 latest where run: "process_new_blocks (heights (prev + 1) height) (Some prev) w1 = (Inr latest, w')"
    and st': "st' = st\<lparr>last_height := latest\<rparr>" and w1: "processed_blocks (sdb w1) = processed_blocks (sdb w)"
    using observe_new_tip [OF assms] .
  note len = length_heights_next [OF assms(3)]
  from process_new_blocks_Inr [OF run] obtain n where n: "n \<le> unat height - unat prev"
    "latest = (if n = 0 then Some prev else Some (heights (prev + 1) height ! (n - 1)))"
    "\<forall>k. marked (sdb w1) k \<longrightarrow> marked (sdb w') k" "\<forall>i<n. marked (sdb w') (heights (prev + 1) height ! i)"
    "n < unat height - unat prev \<longrightarrow>
       (\<exists>e w1. process_block_sequential (heights (prev + 1) height ! n) True w1 = (Inl e, w'))"
    by (auto simp: len)
  define l where "l = prev + of_nat n"
  have latest: "latest = Some l"
    using n(1,2) heights_nth(1) [OF assms(3), of "n - 1"] by (auto simp: l_def)
  have unat_l: "unat l = unat prev + n"
  proof (cases n)
    case (Suc i)
    then show ?thesis using heights_nth(2) [OF assms(3), of i] n(1) by (simp add: l_def)
  qed (simp add: l_def)
  have "marked (sdb w') h" if "prev < h" "h \<le> l" for h
  proof -
    define i where "i = unat h - unat prev - 1"
    have i: "unat h = unat prev + Suc i" "i < n"
      using that unat_l by (auto simp: i_def word_less_nat_alt word_le_nat_alt)
    have "heights (prev + 1) height ! i = h"
      using heights_nth [OF assms(3), of i] i n(1) by (simp add: word_unat_eq_iff)
    with n(4) i(2) show ?thesis by auto
  qed
  moreover have "\<exists>e w1. process_block_sequential (l + 1) True w1 = (Inl e, w')" if "l < height"
    using n(5) that unat_l heights_nth(1) [OF assms(3), of n]
    by (simp add: word_less_nat_alt l_def ac_simps)
  ultimately show ?thesis
    using st' latest unat_l n(1,3) w1 assms(3)
    by (intro exI [of _ l]) (auto simp: marked_def word_le_nat_alt word_less_nat_alt)
qed

definition example_config :: app_config where
  "example_config = \<lparr>database_url = ''postgres://'', sandshrew_rpc_url = ''http://localhost:18888'',
     bitcoin_rpc_endpoint = None, esplora_url = None, network_provider = ''regtest'', poll_interval_ms = 2000,
     start_height = None, factory_block_id = ''4'', factory_tx_id = ''1''\<rparr>"

definition example_tip_world :: world where
  "example_tip_world = example_world\<lparr>prov := example_provider\<lparr>rpc_answer := (\<lambda>n url m ps. Answered (JArr [])),
     hash_answer := (\<lambda>n h. if h \<le> 5 then Inr ''hash'' else Inl ''no block'')\<rparr>\<rparr>"

lemmas example_tip_simps = example_config_def example_tip_world_def example_world_simps

lemma poller_follows_tip_witness:
  "\<exists>st' w'. observe_tip example_config \<lparr>last_height = Some 4, backoff_ms = 2000, init_signal = False\<rparr> 6
       example_tip_world = (Inr st', w') \<and> marked (sdb w') 5"
proof -
  have cfg: "retry_config_of (example_tip_world\<lparr>calls := n, clock_ms := c, db_calls := k, sdb := d, redis_calls := r, redis_values := v, joins := j\<rparr>)
     = \<lparr>max_attempts = 5, base_delay_ms = 200, max_delay_ms = 5000\<rparr>" for n c k d r v j
    by (simp add: retry_config_of_def env_num_def example_tip_simps)
  have "heights 5 6 = [5, 6]" by (simp add: heights_def upt_rec)
  then have "\<exists>st' w'. observe_tip example_config \<lparr>last_height = Some 4, backoff_ms = 2000, init_signal = False\<rparr> 6
       example_tip_world = (Inr st', w') \<and> last_height st' = Some 5"
    using cfg
    by (simp add: observe_tip_def act_log_error_def fetch_pools_for_tip_def fetch_and_upsert_pools_for_tip_def
        fetch_all_pools_with_details_def notify_pools_processed_def redis_command_def
        process_block_sequential_def get_block_hash_def get_block_txids_def get_transactions_info_def
        act_bind_def act_try_def act_fail_def act_get_def completed_def resilient_call_def resilient_def circuit_open_def
        retry_loop.simps provider_call_def act_return_def act_when_def exec_def List.map_filter_simps
        block_timestamp_def upsert_processed_block_def checked_def processed_block_ok_def empty_db_def
        publish_block_processed_def anyhow_def example_tip_simps Let_def)
  then obtain st' w' where run: "observe_tip example_config \<lparr>last_height = Some 4, backoff_ms = 2000, init_signal = False\<rparr> 6
       example_tip_world = (Inr st', w')" "last_height st' = Some 5" by blast
  then have "marked (sdb w') 5" using poller_follows_tip [OF run(1), of 4] by auto
  with run(1) show ?thesis by blast
qed

text \<open>
  The first tip that the poller sees becomes its height whether or not the block there was
  processed: without a start height the block is attempted once, and if that fails it is not
  marked by this tick and no later tick with the same tip does anything, so the block is skipped.
\<close>

theorem first_tip_not_retried:
  assumes "observe_tip cfg st height w = (Inr st', w')" "last_height st = None"
  shows "last_height st' = Some height \<and> \<not> init_signal st' \<and>
    (\<forall>w2. observe_tip cfg st' height w2 = (Inr st', w2)) \<and>
    (start_height cfg = None \<longrightarrow> marked (sdb w') height \<or>
       (\<forall>k. marked (sdb w') k \<longleftrightarrow> marked (sdb w) k) \<and> published w' = published w \<and>
       (\<exists>e w1. process_block_sequential height True w1 = (Inl e, w')))"
proof -
  obtain w1 where 1: "act_log_error (fetch_pools_for_tip (factory_of cfg) height) w = (Inr (), w1)"
    and 2: "act_when (start_height cfg = None) (act_log_error (process_block_sequential height True)) w1 = (Inr (), w')"
    and st': "st' = st\<lparr>last_height := Some height, init_signal := False\<rparr>"
    using assms by (auto simp: observe_tip_def act_bind_Inr act_return_def)
  have same: "processed_blocks (sdb w1) = processed_blocks (sdb w)" "published w1 = published w"
    using act_log_error_Inr [OF 1]
    by (auto dest: fetch_pools_for_tip_marks(1) leavesD [OF leaves_published_fetch_pools_for_tip])
  have "marked (sdb w') height \<or> (\<forall>k. marked (sdb w') k \<longleftrightarrow> marked (sdb w) k) \<and> published w' = published w \<and>
       (\<exists>e w1. process_block_sequential height True w1 = (Inl e, w'))" if "start_height cfg = None"
  proof -
    have "act_log_error (process_block_sequential height True) w1 = (Inr (), w')"
      using 2 that by (simp add: act_when_def)
    from act_log_error_Inr [OF this] show ?thesis
    proof (elim disjE exE)
      fix x assume "process_block_sequential height True w1 = (Inr x, w')"
      from process_block_marked(1) [OF this, of height] show ?thesis by simp
    next
      fix c assume failed: "process_block_sequential height True w1 = (Inl (Error c), w')"
      have "published w' = published w1"
        using failed by (cases rule: process_block_cases) auto
      with process_block_marked(1) [OF failed] failed same show ?thesis by (auto simp: marked_def)
    qed
  qed
  then show ?thesis using st' by (simp add: observe_tip_def act_return_def)
qed

lemma first_tip_not_retried_witness:
  "\<exists>st' w'. observe_tip example_config (initial_poller example_config) 6 example_tip_world = (Inr st', w') \<and>
     last_height st' = Some 6 \<and> observe_tip example_config st' 6 w' = (Inr st', w')"
proof -
  have cfg: "retry_config_of (example_tip_world\<lparr>calls := n, clock_ms := c, db_calls := k, sdb := d, redis_calls := r, redis_values := v, joins := j\<rparr>)
     = \<lparr>max_attempts = 5, base_delay_ms = 200, max_delay_ms = 5000\<rparr>" for n c k d r v j
    by (simp add: retry_config_of_def env_num_def example_tip_simps)
  then have "\<exists>st' w'. observe_tip example_config (initial_poller example_config) 6 example_tip_world = (Inr st', w')"
    by (simp add: observe_tip_def act_log_error_def fetch_pools_for_tip_def fetch_and_upsert_pools_for_tip_def
        fetch_all_pools_with_details_def notify_pools_processed_def redis_command_def initial_poller_def
        process_block_sequential_def get_block_hash_def act_bind_def act_try_def act_fail_def act_get_def
        provider_call_def act_return_def act_when_def anyhow_def example_tip_simps Let_def)
  then obtain st' w' where "observe_tip example_config (initial_poller example_config) 6 example_tip_world = (Inr st', w')"
    by blast
  with first_tip_not_retried [OF this] show ?thesis by (auto simp: initial_poller_def)
qed

lemma poller_tick_cases:
  assumes "poller_tick cfg st w = (Inr st', w')"
  obtains (tip) h w1 w2 d where "canonical_tip_height w = (Inr h, w1)"
      "observe_tip cfg (st\<lparr>backoff_ms := poll_interval_ms cfg\<rparr>) h w1 = (Inr st', w2)" "sleep_ms d w2 = (Inr (), w')"
  | (none) c w1 d where "canonical_tip_height w = (Inl (Error c), w1)"
      "st' = st\<lparr>backoff_ms := min (saturating_mul (backoff_ms st) 2) 30000\<rparr>" "sleep_ms d w1 = (Inr (), w')"
proof -
  obtain x w1 w2 d where x: "act_try canonical_tip_height w = (Inr x, w1)"
    and m: "(case x of Inr h \<Rightarrow> observe_tip cfg (st\<lparr>backoff_ms := poll_interval_ms cfg\<rparr>) h
      | Inl _ \<Rightarrow> act_return (st\<lparr>backoff_ms := min (saturating_mul (backoff_ms st) 2) 30000\<rparr>)) w1 = (Inr st', w2)"
    and z: "sleep_ms d w2 = (Inr (), w')"
    using assms unfolding poller_tick_def by (auto simp: act_bind_Inr act_get_def act_return_def)
  show thesis
    using x m z by (cases x) (auto simp: act_try_Inr act_return_def intro: tip none)
qed

text \<open>
  One tick of the poller: when the tip cannot be read nothing changes except that the backoff
  doubles up to half a minute, without overflow; when it can be read the backoff is the poll
  interval again.
\<close>

theorem poller_backoff:
  assumes "poller_tick cfg st w = (Inr st', w')"
  shows "(\<exists>h w1. canonical_tip_height w = (Inr h, w1)) \<and> backoff_ms st' = poll_interval_ms cfg \<or>
    (\<exists>c w1. canonical_tip_height w = (Inl (Error c), w1)) \<and> last_height st' = last_height st \<and>
      init_signal st' = init_signal st \<and> sdb w' = sdb w \<and> published w' = published w \<and>
      unat (backoff_ms st') = min (2 * unat (backoff_ms st)) 30000"
proof -
  let ?failed = "st\<lparr>backoff_ms := min (saturating_mul (backoff_ms st) 2) 30000\<rparr>"
  show ?thesis using assms
  proof (cases rule: poller_tick_cases)
    case (tip h w1 w2 d)
    then show ?thesis
      by (auto simp: observe_tip_def act_bind_Inr act_return_def split: option.splits if_splits)
  next
    case (none c w1 d)
    have "sdb w1 = sdb w" "published w1 = published w"
      using leavesD [OF leaves_fetch_block(4) none(1)] leavesD [OF leaves_fetch_block(8) none(1)] by simp_all
    moreover have "sdb w' = sdb w1" "published w' = published w1"
      using none(3) by (auto simp: sleep_ms_def act_modify_def)
    moreover have "unat (backoff_ms ?failed) = min (2 * unat (backoff_ms st)) 30000"
      by (simp add: min_def word_le_nat_alt unat_saturating_mul)
    ultimately show ?thesis using none(1,2) by simp
  qed
qed

lemma poller_backoff_witness:
  "\<exists>st' w'. poller_tick example_config (initial_poller example_config) (example_tip_world\<lparr>cb_open := True\<rparr>) = (Inr st', w') \<and>
     backoff_ms st' = 4000"
proof -
  let ?w = "example_tip_world\<lparr>cb_open := True\<rparr>"
  obtain w1 where tip: "canonical_tip_height ?w = (Inl (anyhow ''rpc_circuit_open''), w1)"
    by (simp add: canonical_tip_height_def resilient_provider_call_def resilient_def circuit_open_def act_bind_def
        act_get_def act_fail_def env_num_def act_return_def saturating_sub_def example_tip_simps)
  then obtain st' w' where run: "poller_tick example_config (initial_poller example_config) ?w = (Inr st', w')"
    by (simp add: poller_tick_def act_bind_def act_get_def act_try_def anyhow_def act_return_def sleep_ms_def act_modify_def)
  have "unat (backoff_ms st') = unat (4000 :: u64)"
    using poller_backoff [OF run] tip by (simp add: initial_poller_def example_config_def)
  then have "backoff_ms st' = 4000" by (simp only: unsigned_word_eqI)
  with run show ?thesis by blast
qed

end
