(* ===== verification/Coordinator.thy ===== *)
theory Coordinator
  imports Poller
begin

text \<open>
  \<open>src/coordinator.rs\<close>: the catch-up from the start height, one pass at a time, and the progress
  key that makes it resume (\<open>src/progress.rs\<close>, the statements are in \<open>Db_Pools\<close>).
\<close>

subsection \<open>Definitions\<close>

fun catch_up :: "u64 list \<Rightarrow> unit wact" where
  "catch_up [] = act_return ()"
| "catch_up (h # hs) =
     act_bind (act_try (process_block_sequential h False)) (\<lambda>r. case r of
         Inl _ \<Rightarrow> act_return ()
       | Inr _ \<Rightarrow> act_bind (exec (set_last_processed_height h)) (\<lambda>_. catch_up hs))"

definition next_height :: "u64 option \<Rightarrow> u64 option \<Rightarrow> u64 option" where
  "next_height prev start =
     (case (prev, start) of
        (Some l, _) \<Rightarrow> Some (saturating_add l 1)
      | (None, Some s) \<Rightarrow> Some s
      | (None, None) \<Rightarrow> None)"

definition run_once :: "u64 option \<Rightarrow> unit wact" where
  "run_once start =
     (if start = None then act_return ()
      else act_bind canonical_tip_height (\<lambda>tip.
           act_bind (exec get_last_processed_height) (\<lambda>prev.
           case next_height prev start of
             None \<Rightarrow> act_return ()
           | Some nxt \<Rightarrow> if tip < nxt then act_return () else catch_up (heights nxt tip))))"

subsection \<open>The constraints are kept\<close>

lemma preserves_catch_up: "preserves (\<lambda>w. schema_ok (sdb w)) (catch_up hs)"
proof (induction hs)
  case (Cons h hs)
  have rest: "preserves (\<lambda>w. schema_ok (sdb w)) (act_bind (exec (set_last_processed_height h)) (\<lambda>_. catch_up hs))"
    by (intro preserves_bind preserves_exec keeps_set_last_processed_height Cons)
  show ?case
    unfolding catch_up.simps
    by (intro preserves_bind preserves_try preserves_process_block) (auto intro: rest split: sum.split)
qed (auto intro: preserves_return)

lemma preserves_run_once: "preserves (\<lambda>w. schema_ok (sdb w)) (run_once start)"
proof -
  have "preserves (\<lambda>w. schema_ok (sdb w)) (case next_height prev start of None \<Rightarrow> act_return ()
      | Some nxt \<Rightarrow> if tip < nxt then act_return () else catch_up (heights nxt tip))" for prev tip
    by (auto intro: preserves_catch_up split: option.split)
  moreover have "preserves (\<lambda>w. schema_ok (sdb w)) canonical_tip_height"
    by (rule preserves_leaves) (rule leaves_fetch_block)
  ultimately show ?thesis
    unfolding run_once_def by (auto intro!: preserves_bind preserves_exec keeps_get_last_processed_height)
qed

subsection \<open>The progress key\<close>

text \<open>What the progress key says; \<open>None\<close> within \<open>Some\<close> when it is not there, \<open>None\<close> when it is
  unreadable.\<close>

definition progress :: "db \<Rightarrow> u64 option option" where
  "progress d = (case get_last_processed_height d of Inl _ \<Rightarrow> None | Inr (p, _) \<Rightarrow> Some p)"

lemma get_last_processed_height_Inr:
  "get_last_processed_height d = Inr (p, d') \<longleftrightarrow> progress d = Some p \<and> d' = d"
  by (auto simp: progress_def get_last_processed_height_def split: option.splits)

lemma progress_cong: "kv_store d' = kv_store d \<Longrightarrow> progress d' = progress d"
  by (simp add: progress_def get_last_processed_height_def split: option.split)

lemma exec_set_progress:
  assumes "exec (set_last_processed_height h) w = (Inr u, w')"
  shows "progress (sdb w') = Some (Some h)" "processed_blocks (sdb w') = processed_blocks (sdb w)"
proof -
  obtain d where d: "set_last_processed_height h (sdb w) = Inr ((), d)" "sdb w' = d"
    using assms by (auto simp: exec_Inr)
  from get_set_last_processed_height [OF d(1)] show "progress (sdb w') = Some (Some h)"
    by (simp add: get_last_processed_height_Inr d(2))
  from d show "processed_blocks (sdb w') = processed_blocks (sdb w)"
    by (auto simp: set_last_processed_height_def db_simps)
qed

subsection \<open>No gap\<close>

text \<open>Every height from \<open>base\<close> up to the recorded progress is marked as processed.  Before the
  first progress is recorded, the catch-up is going to start at or below \<open>base\<close>.\<close>

definition no_gap :: "u64 option \<Rightarrow> u64 \<Rightarrow> db \<Rightarrow> bool" where
  "no_gap start base d \<longleftrightarrow>
     (case progress d of
        None \<Rightarrow> True
      | Some None \<Rightarrow> (\<forall>s. start = Some s \<longrightarrow> s \<le> base)
      | Some (Some p) \<Rightarrow> (\<forall>h. base \<le> h \<and> h \<le> p \<longrightarrow> marked d h))"

text \<open>The height that a catch-up step may record next: everything from \<open>base\<close> below it is marked.\<close>

definition ready :: "u64 \<Rightarrow> u64 \<Rightarrow> db \<Rightarrow> bool" where
  "ready base h d \<longleftrightarrow> (\<forall>k. base \<le> k \<and> k < h \<longrightarrow> marked d k)"

lemma marked_more:
  assumes "\<And>h. marked d h \<Longrightarrow> marked d' h"
  shows "ready base h d \<Longrightarrow> ready base h d'"
    and "progress d' = progress d \<Longrightarrow> no_gap start base d \<Longrightarrow> no_gap start base d'"
  using assms by (auto simp: ready_def no_gap_def split: option.splits)

lemma ready_next:
  assumes "no_gap start base d" "progress d = Some prev" "next_height prev start = Some nxt"
  shows "ready base nxt d"
proof (cases prev)
  case None
  then have "nxt \<le> base" using assms by (cases start) (auto simp: no_gap_def next_height_def)
  then show ?thesis by (auto simp: ready_def)
next
  case (Some p)
  have nxt: "nxt = saturating_add p 1" using assms(3) Some by (simp add: next_height_def)
  have "k \<le> p" if "k < nxt" for k
    using that unat_saturating_add [of p 1] by (simp add: nxt word_less_nat_alt word_le_nat_alt)
  then show ?thesis using assms(1,2) Some by (auto simp: ready_def no_gap_def)
qed

lemma ready_process:
  assumes "process_block_sequential h emit w = (Inr (), w')" "ready base h (sdb w)"
  shows "\<And>k. base \<le> k \<Longrightarrow> k \<le> h \<Longrightarrow> marked (sdb w') k"
proof -
  fix k assume k: "base \<le> k" "k \<le> h"
  show "marked (sdb w') k"
    using process_block_marked(1) [OF assms(1), of k] k assms(2)
    by (cases "k = h") (auto simp: ready_def)
qed

lemma process_block_keeps_no_gap:
  assumes "process_block_sequential h emit w = (r, w')"
  shows "no_gap start base (sdb w) \<Longrightarrow> no_gap start base (sdb w')"
    and "ready base k (sdb w) \<Longrightarrow> ready base k (sdb w')"
    and "progress (sdb w') = progress (sdb w)"
proof -
  show p: "progress (sdb w') = progress (sdb w)"
    by (rule progress_cong) (rule process_block_marked(2) [OF assms])
  have m: "marked (sdb w) k \<Longrightarrow> marked (sdb w') k" for k
    using process_block_marked(1) [OF assms] by blast
  show "no_gap start base (sdb w) \<Longrightarrow> no_gap start base (sdb w')"
    by (rule marked_more(2) [OF m p])
  show "ready base k (sdb w) \<Longrightarrow> ready base k (sdb w')"
    by (rule marked_more(1) [OF m])
qed

subsection \<open>A pass\<close>

lemma leaves_published_process_block: "leaves published (process_block_sequential h False)"
  unfolding leaves_def
proof
  fix w
  obtain r w' where run: "process_block_sequential h False w = (r, w')" by (rule prod.exhaust)
  then have "published w' = published w"
  proof (cases rule: process_block_cases)
    case (marked hash ts w1)
    from publish_when_result [OF marked(6)] marked(4) show ?thesis by simp
  qed
  with run show "published (snd (process_block_sequential h False w)) = published w" by simp
qed

text \<open>The catch-up is the common loop, which records the progress.\<close>

lemma catch_up_loop:
  "catch_up hs = until_failure (\<lambda>h. process_block_sequential h False) (\<lambda>h. exec (set_last_processed_height h)) hs ()"
  by (induction hs) (simp_all cong: sum.case_cong)

lemma exec_set_marked: "exec (set_last_processed_height h) w = (Inr u, w') \<Longrightarrow> marked (sdb w') k = marked (sdb w) k"
  by (simp add: marked_def exec_set_progress(2))

interpretation catching: block_loop "\<lambda>h. process_block_sequential h False" "\<lambda>h. exec (set_last_processed_height h)"
    marked "\<lambda>_ d. progress d" "\<lambda>h. Some (Some h)"
  by unfold_locales
    (auto simp: process_block_marked process_block_keeps_no_gap(3) exec_set_progress(1) exec_set_marked)

lemma leaves_published_catch_up: "leaves published (catch_up hs)"
proof (induction hs)
  case (Cons h hs)
  have rest: "leaves published (act_bind (exec (set_last_processed_height h)) (\<lambda>_. catch_up hs))"
    by (intro leaves_bind leaves_published_exec Cons)
  show ?case
    unfolding catch_up.simps
    by (intro leaves_bind leaves_try leaves_published_process_block) (auto intro: rest leaves_return split: sum.split)
qed (simp add: leaves_return)

lemma catch_up_Inr:
  assumes "catch_up hs w = (Inr (), w')"
  shows "published w' = published w \<and> (\<forall>k. marked (sdb w) k \<longrightarrow> marked (sdb w') k) \<and>
    (\<exists>ok rest. hs = ok @ rest \<and> (\<forall>h\<in>set ok. marked (sdb w') h) \<and>
      progress (sdb w') = (if ok = [] then progress (sdb w) else Some (Some (last ok))) \<and>
      (rest \<noteq> [] \<longrightarrow> (\<exists>e w1. process_block_sequential (hd rest) False w1 = (Inl e, w'))))"
proof -
  note loop = catching.stops_at_failure [OF assms [unfolded catch_up_loop]]
  show ?thesis
    by (rule loop, intro conjI leavesD [OF leaves_published_catch_up assms], assumption, intro exI conjI) assumption+
qed

lemma catch_up_from:
  assumes "run_once (Some s) w = (Inr (), w')" "canonical_tip_height w = (Inr tip, w1)"
    and "progress (sdb w) = Some prev" "next_height prev (Some s) = Some nxt"
  shows "published w' = published w \<and>
    (\<exists>ok rest. heights nxt tip = ok @ rest \<and> (\<forall>h\<in>set ok. marked (sdb w') h) \<and>
      progress (sdb w') = Some (if ok = [] then prev else Some (last ok)) \<and>
      (rest \<noteq> [] \<longrightarrow> (\<exists>e w2. process_block_sequential (hd rest) False w2 = (Inl e, w'))))"
proof -
  have tip: "sdb w1 = sdb w" "published w1 = published w"
    using leavesD [OF leaves_fetch_block(4) assms(2)] leavesD [OF leaves_fetch_block(8) assms(2)] by simp_all
  obtain p w2 where p: "exec get_last_processed_height w1 = (Inr p, w2)"
    and case_run: "(case next_height p (Some s) of None \<Rightarrow> act_return ()
      | Some nxt \<Rightarrow> if tip < nxt then act_return () else catch_up (heights nxt tip)) w2 = (Inr (), w')"
    using assms(1,2) unfolding run_once_def by (simp only: option.distinct if_False) (auto simp: act_bind_Inr)
  have "p = prev"
    using p assms(3) by (auto simp: exec_Inr get_last_processed_height_Inr tip)
  then have w2: "exec get_last_processed_height w1 = (Inr prev, w2)"
    and run: "(if tip < nxt then act_return () else catch_up (heights nxt tip)) w2 = (Inr (), w')"
    using p case_run assms(4) by simp_all
  have same: "sdb w2 = sdb w" "published w2 = published w"
    using w2 tip leavesD [OF leaves_published_exec w2] by (auto simp: exec_Inr get_last_processed_height_Inr)
  show ?thesis
  proof (cases "tip < nxt")
    case True
    then have "heights nxt tip = []" by (simp add: heights_def word_less_nat_alt)
    with True run same assms(3) show ?thesis by (auto simp: act_return_def)
  next
    case False
    with run have "catch_up (heights nxt tip) w2 = (Inr (), w')" by simp
    from catch_up_Inr [OF this] obtain ok rest where "heights nxt tip = ok @ rest"
      "\<forall>h\<in>set ok. marked (sdb w') h"
      "progress (sdb w') = (if ok = [] then progress (sdb w2) else Some (Some (last ok)))"
      "rest \<noteq> [] \<longrightarrow> (\<exists>e w2. process_block_sequential (hd rest) False w2 = (Inl e, w'))"
      and "published w' = published w2" by blast
    then show ?thesis
      unfolding same assms(3) by (intro conjI exI [of _ ok] exI [of _ rest]) simp_all
  qed
qed

text \<open>
  C6: a pass of the catch-up.  When the height \<open>l\<close> is recorded as the progress, the first height of the
  pass is \<open>l + 1\<close>, whatever the start height, also one above it (the greatest height follows itself);
  when none is recorded it is the start height.  The pass processes the heights from there up to the
  tip in order, without publishing them, up to the first that fails, marks those it processed and
  records the last of them; when there is none, the progress stays as it was.
\<close>

theorem catch_up_pass:
  assumes "run_once (Some s) w = (Inr (), w')" "canonical_tip_height w = (Inr tip, w1)"
    and "progress (sdb w) = Some prev"
  shows "\<exists>(first :: u64) ok rest.
    unat first = (case prev of Some l \<Rightarrow> min (unat l + 1) (2 ^ 64 - 1) | None \<Rightarrow> unat s) \<and>
    map of_nat [unat first ..< Suc (unat tip)] = ok @ rest \<and>
    (\<forall>h \<in> set ok. marked (sdb w') h) \<and>
    progress (sdb w') = Some (if ok = [] then prev else Some (last ok)) \<and>
    (rest \<noteq> [] \<longrightarrow> (\<exists>e w2. process_block_sequential (hd rest) False w2 = (Inl e, w'))) \<and>
    published w' = published w"
proof -
  obtain nxt where nxt: "next_height prev (Some s) = Some nxt"
    and first: "unat nxt = (case prev of Some l \<Rightarrow> min (unat l + 1) (2 ^ 64 - 1) | None \<Rightarrow> unat s)"
    by (cases prev) (simp_all add: next_height_def unat_saturating_add)
  from catch_up_from [OF assms nxt] obtain ok rest where
    "heights nxt tip = ok @ rest" "\<forall>h\<in>set ok. marked (sdb w') h"
    "progress (sdb w') = Some (if ok = [] then prev else Some (last ok))"
    "rest \<noteq> [] \<longrightarrow> (\<exists>e w2. process_block_sequential (hd rest) False w2 = (Inl e, w'))"
    "published w' = published w"
    by metis
  with first show ?thesis unfolding heights_def by blast
qed

lemma example_catch_up: "\<exists>w'. run_once (Some 5) example_tip_world = (Inr (), w') \<and> marked (sdb w') 5"
proof -
  have "heights 5 7 = [5, 6, 7]" by (simp add: heights_def upt_rec)
  moreover have "retry_config_of (example_tip_world\<lparr>calls := n, clock_ms := c, db_calls := k, sdb := d, joins := j\<rparr>)
     = \<lparr>max_attempts = 5, base_delay_ms = 200, max_delay_ms = 5000\<rparr>" for n c k d j
    by (simp add: retry_config_of_def env_num_def example_tip_simps)
  ultimately show ?thesis
    by (simp add: run_once_def next_height_def canonical_tip_height_def resilient_provider_call_def
        get_last_processed_height_def set_last_processed_height_def update_def
        process_block_sequential_def get_block_hash_def get_block_txids_def get_transactions_info_def
        act_bind_def act_try_def act_fail_def act_get_def completed_def resilient_call_def resilient_def circuit_open_def
        retry_loop.simps provider_call_def act_return_def act_when_def exec_def List.map_filter_simps
        block_timestamp_def upsert_processed_block_def checked_def processed_block_ok_def empty_db_def
        anyhow_def marked_def example_tip_simps Let_def)
qed

lemma example_tip: "\<exists>w1. canonical_tip_height example_tip_world = (Inr 7, w1)"
proof -
  have "retry_config_of (example_tip_world\<lparr>calls := n, clock_ms := c\<rparr>)
     = \<lparr>max_attempts = 5, base_delay_ms = 200, max_delay_ms = 5000\<rparr>" for n c
    by (simp add: retry_config_of_def env_num_def example_tip_simps)
  then show ?thesis
    by (simp add: canonical_tip_height_def resilient_provider_call_def resilient_def circuit_open_def
        act_bind_def act_get_def retry_loop.simps provider_call_def act_return_def example_tip_simps)
qed

lemma example_progress: "progress (sdb example_tip_world) = Some None"
  by (simp add: progress_def get_last_processed_height_def empty_db_def example_tip_simps)

lemma catch_up_pass_witness:
  "\<exists>w' ok rest. run_once (Some 5) example_tip_world = (Inr (), w') \<and> [5, 6, 7] = ok @ rest \<and>
     progress (sdb w') = Some (if ok = [] then None else Some (last ok)) \<and> published w' = []"
proof -
  obtain w' w1 where run: "run_once (Some 5) example_tip_world = (Inr (), w')"
    and tip: "canonical_tip_height example_tip_world = (Inr 7, w1)"
    using example_catch_up example_tip by blast
  from catch_up_pass [OF run tip example_progress] obtain first :: u64 and ok rest where pass:
    "unat first = unat (5 :: u64)" "map of_nat [unat first ..< Suc (unat (7 :: u64))] = ok @ rest"
    "progress (sdb w') = Some (if ok = [] then None else Some (last ok))" "published w' = published example_tip_world"
    unfolding option.case by blast
  have "[5, 6, 7] = ok @ rest" using pass(2) unfolding pass(1) by (simp add: upt_rec)
  moreover have "published example_tip_world = []" by (simp add: example_tip_simps)
  ultimately show ?thesis using run pass(3,4) by auto
qed

text \<open>
  Once progress is recorded the start height no longer matters: passes with different start
  heights do the same.  In particular a start height above the recorded progress is ignored.
\<close>

theorem start_height_ignored_after_progress:
  assumes "progress (sdb w) = Some (Some p)"
  shows "run_once (Some s) w = run_once (Some s') w"
proof -
  have "act_bind canonical_tip_height (\<lambda>tip. act_bind (exec get_last_processed_height) (\<lambda>prev.
           case next_height prev (Some s) of None \<Rightarrow> act_return ()
           | Some nxt \<Rightarrow> if tip < nxt then act_return () else catch_up (heights nxt tip))) w =
        act_bind canonical_tip_height (\<lambda>tip. act_bind (exec get_last_processed_height) (\<lambda>prev.
           case next_height prev (Some s') of None \<Rightarrow> act_return ()
           | Some nxt \<Rightarrow> if tip < nxt then act_return () else catch_up (heights nxt tip))) w"
  proof -
    obtain r w1 where tip: "canonical_tip_height w = (r, w1)" by (rule prod.exhaust)
    have "sdb w1 = sdb w" using leavesD [OF leaves_fetch_block(4) tip] .
    then have "progress (sdb w1) = Some (Some p)" using assms by simp
    then have "exec get_last_processed_height w1 = (Inr q, w2) \<Longrightarrow> q = Some p" for q w2
      by (auto simp: exec_Inr get_last_processed_height_Inr)
    then show ?thesis
      unfolding act_bind_def tip
      by (cases r; cases "exec get_last_processed_height w1")
        (auto simp: next_height_def split: sum.split)
  qed
  then show ?thesis by (simp add: run_once_def)
qed

lemma start_height_ignored_after_progress_witness:
  "\<exists>w. progress (sdb w) = Some (Some 9) \<and> run_once (Some 1) w = run_once (Some 20) w"
proof -
  let ?w = "example_tip_world\<lparr>sdb := kv_store_update (AList.update progress_key (bigint_text 9)) empty_db\<rparr>"
  have "progress (sdb ?w) = Some (Some 9)"
    by (simp add: progress_def get_last_processed_height_def text_bigint_bigint_text empty_db_def)
  with start_height_ignored_after_progress [OF this] show ?thesis by blast
qed

end
