(* ===== verification/Block_Steps.thy ===== *)
theory Block_Steps
  imports Coordinator
begin

text \<open>
  The processing of a block and the refresh of the pools call by call: what another task can see
  between two awaits.  A resumption is either finished or waits to make its next call; run without
  interruption, the resumptions are exactly the actions of \<open>Pipeline\<close>.
\<close>

subsection \<open>Resumptions\<close>

datatype prog = Done "unit res" | Step "world \<Rightarrow> prog \<times> world"

definition atomic :: "'a wact \<Rightarrow> ('a \<Rightarrow> prog) \<Rightarrow> prog" where
  "atomic m k = Step (\<lambda>w. case m w of (Inl e, w') \<Rightarrow> (Done (Inl e), w') | (Inr x, w') \<Rightarrow> (k x, w'))"

primrec run_prog :: "prog \<Rightarrow> unit wact" where
  "run_prog (Done r) = (\<lambda>w. (r, w))"
| "run_prog (Step f) = (\<lambda>w. case map_prod run_prog (\<lambda>w. w) (f w) of (g, w') \<Rightarrow> g w')"

lemma run_Step: "f w = (p, w') \<Longrightarrow> run_prog (Step f) w = run_prog p w'"
  by simp

lemma run_atomic: "run_prog (atomic m k) = act_bind m (\<lambda>x. run_prog (k x))"
  by (rule ext) (simp add: atomic_def act_bind_def split: prod.split sum.split)

lemma run_if: "run_prog (if b then p else q) = (if b then run_prog p else run_prog q)"
  by simp

lemma run_Done: "run_prog (Done (Inr ())) = act_return ()"
  by (rule ext) (simp add: act_return_def)

subsection \<open>The processing of a block\<close>

text \<open>The calls of one indexer: the decoded protostones, the tokens of the pools, the statement.\<close>

definition block_data_steps ::
  "(json \<Rightarrow> bool) \<Rightarrow> block_tx list \<Rightarrow> (decoded_map \<Rightarrow> token_map \<Rightarrow> prog) \<Rightarrow> prog" where
  "block_data_steps is_invoke inputs k =
     atomic (exec (get_decoded_protostones_by_txid_vout (map bt_txid inputs))) (\<lambda>decoded.
     atomic (fetch_invoke_tokens is_invoke inputs) (\<lambda>tokens. k decoded tokens))"

definition store_steps :: "bool \<Rightarrow> unit stm \<Rightarrow> prog \<Rightarrow> prog" where
  "store_steps b m p = (if b then atomic (exec m) (\<lambda>_. p) else p)"

definition decoded_steps :: "block_tx list \<Rightarrow> (decoded_map \<Rightarrow> prog) \<Rightarrow> prog" where
  "decoded_steps inputs k = atomic (exec (get_decoded_protostones_by_txid_vout (map bt_txid inputs))) k"

definition index_steps :: "i32 \<Rightarrow> string list \<Rightarrow> block_tx list \<Rightarrow> prog \<Rightarrow> prog" where
  "index_steps height all_txids inputs p =
     (let txids = map bt_txid inputs in
      block_data_steps is_delegate_invoke inputs (\<lambda>decoded tokens.
      atomic (exec (replace_pool_swaps txids (swap_rows decoded tokens height inputs))) (\<lambda>_.
      decoded_steps inputs (\<lambda>decoded. let creations = creation_rows decoded height inputs in
      store_steps (creations \<noteq> []) (replace_pool_creations all_txids creations) (
      block_data_steps is_delegate_invoke_mint inputs (\<lambda>decoded tokens.
      let mints = mint_rows decoded tokens height inputs in
      store_steps (mints \<noteq> []) (replace_pool_mints txids mints) (
      block_data_steps is_delegate_invoke_burn inputs (\<lambda>decoded tokens.
      let burns = burn_rows decoded tokens height inputs in
      store_steps (burns \<noteq> []) (replace_pool_burns txids burns) (
      decoded_steps inputs (\<lambda>decoded. let wraps = frost_rows (wrap_row_at decoded height) inputs in
      store_steps (wraps \<noteq> []) (replace_subfrost_wraps txids wraps) (
      decoded_steps inputs (\<lambda>decoded. let unwraps = frost_rows (unwrap_row_at decoded height) inputs in
      store_steps (unwraps \<noteq> []) (replace_subfrost_unwraps txids unwraps) p))))))))))))"

definition mark_steps :: "u64 \<Rightarrow> bool \<Rightarrow> string \<Rightarrow> json list \<Rightarrow> prog" where
  "mark_steps height emit_publish block_hash txs =
     atomic (act_get (block_timestamp txs)) (\<lambda>block_ts.
     atomic (exec (upsert_processed_block (ucast height) block_hash block_ts)) (\<lambda>_.
     if emit_publish then atomic (publish_block_processed height) (\<lambda>_. Done (Inr ())) else Done (Inr ())))"

definition process_steps :: "u64 \<Rightarrow> bool \<Rightarrow> prog" where
  "process_steps height emit_publish =
     atomic (get_block_hash height) (\<lambda>block_hash.
     atomic (get_block_txids block_hash) (\<lambda>txids.
     atomic (get_transactions_info txids) (\<lambda>txs.
     let op_return_txs = filter tx_has_op_return txs; mark = mark_steps height emit_publish block_hash txs
     in if op_return_txs = [] then mark
        else atomic (decode_and_trace_for_block op_return_txs) (\<lambda>results.
             atomic (exec (store_block_stm (ucast height) results)) (\<lambda>_.
             atomic (act_get lib) (\<lambda>l.
             index_steps (ucast height) (map tt_txid results) (indexer_inputs l results) mark))))))"

definition refresh_steps :: "alkane_id \<Rightarrow> u64 \<Rightarrow> prog" where
  "refresh_steps factory tip_height =
     atomic (fetch_all_pools_with_details factory) (\<lambda>fetched.
     let notify = atomic (notify_pools_processed tip_height) (\<lambda>_. Done (Inr ()))
     in if fetched = [] then notify
        else atomic (exec (upsert_pools_stm factory fetched tip_height)) (\<lambda>_. notify))"

subsection \<open>Uninterrupted they are the actions\<close>

lemma act_bind_return_right: "act_bind m act_return = m"
  by (rule ext) (auto simp: act_bind_def act_return_def split: prod.split sum.split)

lemma act_bind_if: "act_bind (if b then m else n) f = (if b then act_bind m f else act_bind n f)"
  by simp

lemma run_store_steps: "run_prog (store_steps b m p) = act_bind (act_when b (exec m)) (\<lambda>_. run_prog p)"
  by (simp add: store_steps_def run_atomic act_when_def act_bind_return)

lemma run_block_data_steps:
  "run_prog (block_data_steps is_invoke inputs k) = with_block_data is_invoke inputs (\<lambda>d t. run_prog (k d t))"
  by (simp add: block_data_steps_def with_block_data_def run_atomic)

lemma run_decoded_steps: "run_prog (decoded_steps inputs k) = with_decoded inputs (\<lambda>d. run_prog (k d))"
  by (simp add: decoded_steps_def with_decoded_def run_atomic)

lemma bind_with_block_data:
  "act_bind (with_block_data is_invoke inputs body) f = with_block_data is_invoke inputs (\<lambda>d t. act_bind (body d t) f)"
  and bind_with_decoded: "act_bind (with_decoded inputs body') g = with_decoded inputs (\<lambda>d. act_bind (body' d) g)"
  by (simp_all add: with_block_data_def with_decoded_def act_bind_assoc)

lemma run_index_steps:
  "run_prog (index_steps height all_txids inputs p) = act_bind (index_block height all_txids inputs) (\<lambda>_. run_prog p)"
  unfolding index_steps_def index_block_def index_pool_swaps_for_block_def index_pool_creations_for_block_def
    index_pool_mints_for_block_def index_pool_burns_for_block_def
    index_subfrost_wraps_for_block_def index_subfrost_unwraps_for_block_def Let_def
  by (simp only: run_block_data_steps run_decoded_steps run_store_steps run_atomic act_bind_assoc
      bind_with_block_data bind_with_decoded act_bind_return)

lemma run_process_steps: "run_prog (process_steps height emit_publish) = process_block_sequential height emit_publish"
proof -
  have mark: "run_prog (mark_steps height emit_publish hash txs) =
      act_bind (act_get (block_timestamp txs)) (\<lambda>ts.
      act_bind (exec (upsert_processed_block (ucast height) hash ts)) (\<lambda>_.
      act_when emit_publish (publish_block_processed height)))" for hash txs
    by (simp add: mark_steps_def run_atomic run_if run_Done act_when_def act_bind_return_right del: run_prog.simps)
  have traced: "run_prog (if txs = [] then p else atomic (decode_and_trace_for_block txs) (\<lambda>results.
        atomic (exec (store_block_stm (ucast height) results)) (\<lambda>_.
        atomic (act_get lib) (\<lambda>l.
        index_steps (ucast height) (map tt_txid results) (indexer_inputs l results) p)))) =
      act_bind (act_when (txs \<noteq> []) (trace_and_index height txs)) (\<lambda>_. run_prog p)" for txs p
    by (simp add: run_atomic run_index_steps trace_and_index_def act_when_def act_bind_return act_bind_assoc)
  show ?thesis
    by (simp add: process_steps_def process_block_sequential_def Let_def run_atomic traced mark)
qed

lemma run_refresh_steps: "run_prog (refresh_steps factory tip) = fetch_pools_for_tip factory tip"
  by (simp add: refresh_steps_def fetch_pools_for_tip_def fetch_and_upsert_pools_for_tip_def Let_def
      run_atomic run_if run_Done act_bind_assoc act_bind_if act_bind_return act_bind_return_right del: run_prog.simps cong: if_cong)

subsection \<open>What every call leaves behind\<close>

text \<open>Constraints that held still hold, no marker is lost and the progress key is left alone.\<close>

definition advances :: "db \<Rightarrow> db \<Rightarrow> bool" where
  "advances d d' \<longleftrightarrow>
     (schema_ok d \<longrightarrow> schema_ok d') \<and> (\<forall>h. marked d h \<longrightarrow> marked d' h) \<and> progress d' = progress d"

definition only_advances :: "'a wact \<Rightarrow> bool" where
  "only_advances m \<longleftrightarrow> (\<forall>w r w'. m w = (r, w') \<longrightarrow> advances (sdb w) (sdb w'))"

lemma advances_same: "d' = d \<Longrightarrow> advances d d'"
  by (simp add: advances_def)

lemma only_advancesD: "only_advances m \<Longrightarrow> m w = (r, w') \<Longrightarrow> advances (sdb w) (sdb w')"
  by (simp add: only_advances_def)

lemma only_advances_leaves: "leaves sdb m \<Longrightarrow> only_advances m"
  unfolding only_advances_def by (auto dest: leavesD intro: advances_same)

lemma only_advances_marks:
  assumes "preserves (\<lambda>w. schema_ok (sdb w)) m"
    and "\<And>x. preserves (\<lambda>w. (processed_blocks (sdb w), kv_store (sdb w)) = x) m"
  shows "only_advances m"
  unfolding only_advances_def
proof (intro allI impI)
  fix w r w'
  assume run: "m w = (r, w')"
  have "processed_blocks (sdb w') = processed_blocks (sdb w)" "kv_store (sdb w') = kv_store (sdb w)"
    using preservesD [OF assms(2) refl run] by simp_all
  with preservesD [OF assms(1) _ run] show "advances (sdb w) (sdb w')"
    by (auto simp: advances_def marked_def intro: progress_cong)
qed

lemma only_advances_exec:
  assumes "keeps schema_ok m" "\<And>x. keeps (\<lambda>d. block_marks d = x) m"
  shows "only_advances (exec m)"
proof (rule only_advances_marks)
  show "preserves (\<lambda>w. schema_ok (sdb w)) (exec m)" by (rule preserves_exec [OF assms(1)])
  fix x
  have "keeps (\<lambda>d. (processed_blocks d, kv_store d) = x) m"
    using assms(2) unfolding keeps_def block_marks_def by fastforce
  then show "preserves (\<lambda>w. (processed_blocks (sdb w), kv_store (sdb w)) = x) (exec m)" by (rule preserves_exec)
qed

lemma only_advances_calls:
  "only_advances (get_block_hash h)" "only_advances (get_block_txids b)" "only_advances (get_transactions_info txids)"
  "only_advances (decode_and_trace_for_block txs)" "only_advances (act_get g)" "only_advances (publish_block_processed h)"
  "only_advances (fetch_all_pools_with_details factory)" "only_advances (notify_pools_processed tip)"
  "only_advances canonical_tip_height"
  by (intro only_advances_leaves leaves_fetch_block leaves_decode_and_trace leaves_get leaves_notify leaves_fetch_pools)+

lemma only_advances_statements:
  "only_advances (exec (get_decoded_protostones_by_txid_vout txids))"
  "only_advances (exec (store_block_stm height results))"
  "only_advances (exec (replace_pool_swaps txids swaps))"
  "only_advances (exec (replace_pool_creations txids creations))"
  "only_advances (exec (replace_pool_mints txids mints))"
  "only_advances (exec (replace_pool_burns txids burns))"
  "only_advances (exec (replace_subfrost_wraps txids wraps))"
  "only_advances (exec (replace_subfrost_unwraps txids unwraps))"
  by (intro only_advances_exec keeps_get_decoded keeps_store_block keeps_replace_events
      keeps_replace_pool_creations keeps_marks)+

lemma only_advances_tokens: "only_advances (fetch_invoke_tokens is_invoke (inputs :: block_tx list))"
  unfolding only_advances_def using fetch_invoke_tokens_cases by (blast intro: advances_same)

lemma only_advances_pools: "only_advances (exec (upsert_pools_stm factory fetched tip))"
proof (rule only_advances_marks)
  show "preserves (\<lambda>w. schema_ok (sdb w)) (exec (upsert_pools_stm factory fetched tip))"
    by (intro preserves_exec keeps_upsert_pools)
  show "preserves (\<lambda>w. (processed_blocks (sdb w), kv_store (sdb w)) = x) (exec (upsert_pools_stm factory fetched tip))" for x
    by (rule preserves_exec) (rule keeps_pool_tables; simp)
qed

lemma exec_marker:
  assumes "exec (upsert_processed_block (ucast h) hash ts) w = (r, w')"
  shows "advances (sdb w) (sdb w')" "is_ok r \<Longrightarrow> marked (sdb w') h"
proof -
  have "advances (sdb w) (sdb w') \<and> (is_ok r \<longrightarrow> marked (sdb w') h)"
  proof (cases r)
    case (Inl e)
    then show ?thesis using assms by (auto simp: is_ok_iff intro: advances_same dest: exec_Inl)
  next
    case (Inr u)
    then have up: "upsert_processed_block (ucast h) hash ts (sdb w) = Inr ((), sdb w')"
      using assms by (auto simp: exec_Inr)
    note rows = upsert_processed_block_Inr [OF up]
    have "schema_ok (sdb w) \<longrightarrow> schema_ok (sdb w')" using keepsD [OF keeps_upsert_processed_block _ up] by blast
    moreover have "marked (sdb w) k \<longrightarrow> marked (sdb w') k" "marked (sdb w') h" for k
      using rows(1) by (auto simp: marked_row_of)
    ultimately show ?thesis using rows(2) by (auto simp: advances_def intro: progress_cong)
  qed
  then show "advances (sdb w) (sdb w')" "is_ok r \<Longrightarrow> marked (sdb w') h" by blast+
qed

subsection \<open>What every resumption keeps, whatever runs in between\<close>

text \<open>Every call of the resumption only advances the database; and if it finishes without an error
  then \<open>Q\<close> holds.  The flag says that \<open>Q\<close> has been established; what other tasks do in between
  keeps it.\<close>

inductive harmless :: "(db \<Rightarrow> bool) \<Rightarrow> bool \<Rightarrow> prog \<Rightarrow> bool" for Q where
  done_harmless: "(r = Inr () \<Longrightarrow> m) \<Longrightarrow> harmless Q m (Done r)"
| step_harmless: "(\<And>w p w'. f w = (p, w') \<Longrightarrow> (m \<longrightarrow> Q (sdb w)) \<Longrightarrow>
      advances (sdb w) (sdb w') \<and> (\<exists>m'. (m' \<longrightarrow> Q (sdb w')) \<and> harmless Q m' p)) \<Longrightarrow>
    harmless Q m (Step f)"

inductive_simps harmless_Done [simp]: "harmless Q m (Done r)"
inductive_cases harmless_StepE: "harmless Q m (Step f)"

lemma harmless_step:
  assumes "harmless Q m (Step f)" "f w = (p, w')" "m \<longrightarrow> Q (sdb w)"
  obtains m' where "advances (sdb w) (sdb w')" "m' \<longrightarrow> Q (sdb w')" "harmless Q m' p"
  using assms(1)
proof (rule harmless_StepE)
  assume "\<And>w p w'. f w = (p, w') \<Longrightarrow> (m \<longrightarrow> Q (sdb w)) \<Longrightarrow>
      advances (sdb w) (sdb w') \<and> (\<exists>m'. (m' \<longrightarrow> Q (sdb w')) \<and> harmless Q m' p)"
  from this [OF assms(2,3)] show thesis by (auto intro: that)
qed

definition kept_by_marks :: "(db \<Rightarrow> bool) \<Rightarrow> bool" where
  "kept_by_marks Q \<longleftrightarrow> (\<forall>d d'. Q d \<longrightarrow> (\<forall>h. marked d h \<longrightarrow> marked d' h) \<longrightarrow> Q d')"

lemma kept_by_marks [intro]: "kept_by_marks (\<lambda>d. marked d h)" "kept_by_marks (\<lambda>d. True)"
  by (auto simp: kept_by_marks_def)

lemma harmless_atomic:
  assumes "only_advances m" "kept_by_marks Q" "\<And>x. harmless Q b (k x)"
  shows "harmless Q b (atomic m k)"
  unfolding atomic_def
proof (rule step_harmless)
  fix w p w'
  assume run: "(case m w of (Inl e, w') \<Rightarrow> (Done (Inl e), w') | (Inr x, w') \<Rightarrow> (k x, w')) = (p, w')"
    and b: "b \<longrightarrow> Q (sdb w)"
  obtain r w1 where m: "m w = (r, w1)" by (rule prod.exhaust)
  with run have w1: "w1 = w'" by (auto split: sum.splits)
  have adv: "advances (sdb w) (sdb w')" using only_advancesD [OF assms(1) m] by (simp add: w1)
  with b assms(2) have Q: "b \<longrightarrow> Q (sdb w')" unfolding kept_by_marks_def advances_def by blast
  show "advances (sdb w) (sdb w') \<and> (\<exists>m'. (m' \<longrightarrow> Q (sdb w')) \<and> harmless Q m' p)"
  proof (cases r)
    case (Inl e)
    with run m have "p = Done (Inl e)" by simp
    with adv show ?thesis by (intro conjI exI [of _ False]) auto
  next
    case (Inr x)
    with run m have "p = k x" by simp
    with adv Q assms(3) show ?thesis by (intro conjI exI [of _ b]) auto
  qed
qed

lemma harmless_marker:
  assumes "\<And>x. harmless (\<lambda>d. marked d h) True (k x)"
  shows "harmless (\<lambda>d. marked d h) False (atomic (exec (upsert_processed_block (ucast h) hash ts)) k)"
  unfolding atomic_def
proof (rule step_harmless)
  let ?m = "exec (upsert_processed_block (ucast h) hash ts) :: unit wact"
  fix w p w'
  assume run: "(case ?m w of (Inl e, w') \<Rightarrow> (Done (Inl e), w') | (Inr x, w') \<Rightarrow> (k x, w')) = (p, w')"
  obtain r w1 where m: "?m w = (r, w1)" by (rule prod.exhaust)
  with run have w1: "w1 = w'" by (auto split: sum.splits)
  note mark = exec_marker [OF m [unfolded w1]]
  show "advances (sdb w) (sdb w') \<and> (\<exists>m'. (m' \<longrightarrow> marked (sdb w') h) \<and> harmless (\<lambda>d. marked d h) m' p)"
  proof (cases r)
    case (Inl e)
    with run m have "p = Done (Inl e)" by simp
    with mark(1) show ?thesis by (intro conjI exI [of _ False]) auto
  next
    case (Inr u)
    with run m have "p = k u" by simp
    with mark assms Inr show ?thesis by (intro conjI exI [of _ True]) (auto simp: is_ok_iff)
  qed
qed

lemma harmless_index_steps:
  assumes "kept_by_marks Q" "harmless Q b p"
  shows "harmless Q b (index_steps height all_txids inputs p)"
proof -
  have store: "harmless Q b (store_steps c m q)" if "only_advances (exec m)" "harmless Q b q" for c m q
    using that assms(1) by (simp add: store_steps_def harmless_atomic)
  show ?thesis
    unfolding index_steps_def Let_def block_data_steps_def decoded_steps_def
    by (intro harmless_atomic store only_advances_statements only_advances_tokens assms)
qed

lemma harmless_process_steps: "harmless (\<lambda>d. marked d h) False (process_steps h emit_publish)"
proof -
  have finish: "harmless (\<lambda>d. marked d h) True
      (if emit_publish then atomic (publish_block_processed h) (\<lambda>_. Done (Inr ())) else Done (Inr ()))"
    by (auto intro!: harmless_atomic only_advances_calls)
  have mark: "harmless (\<lambda>d. marked d h) False (mark_steps h emit_publish hash txs)" for hash txs
    unfolding mark_steps_def
    by (intro harmless_atomic harmless_marker finish only_advances_calls kept_by_marks)
  have "harmless (\<lambda>d. marked d h) False (if txs = [] then mark_steps h emit_publish hash all_txs
      else atomic (decode_and_trace_for_block txs) (\<lambda>results.
        atomic (exec (store_block_stm (ucast h) results)) (\<lambda>_.
        atomic (act_get lib) (\<lambda>l.
        index_steps (ucast h) (map tt_txid results) (indexer_inputs l results) (mark_steps h emit_publish hash all_txs)))))"
    for txs all_txs hash
    by (simp add: mark) (intro impI harmless_atomic harmless_index_steps mark only_advances_calls
        only_advances_statements kept_by_marks)
  then show ?thesis
    unfolding process_steps_def Let_def
    by (intro harmless_atomic only_advances_calls kept_by_marks) simp
qed

lemma harmless_refresh_steps: "harmless (\<lambda>d. True) True (refresh_steps factory tip)"
proof -
  have "harmless (\<lambda>d. True) True (if fetched = [] then atomic (notify_pools_processed tip) (\<lambda>_. Done (Inr ()))
      else atomic (exec (upsert_pools_stm factory fetched tip)) (\<lambda>_. atomic (notify_pools_processed tip) (\<lambda>_. Done (Inr ()))))" for fetched
    by (cases "fetched = []")
      (auto intro!: harmless_atomic only_advances_calls only_advances_pools)
  then show ?thesis
    unfolding refresh_steps_def Let_def by (intro harmless_atomic only_advances_calls kept_by_marks)
qed

subsection \<open>Resumptions between their calls\<close>

definition safe_prog :: "(db \<Rightarrow> bool) \<Rightarrow> prog \<Rightarrow> db \<Rightarrow> bool" where
  "safe_prog Q p d \<longleftrightarrow> kept_by_marks Q \<and> (\<exists>m. (m \<longrightarrow> Q d) \<and> harmless Q m p)"

lemma safe_process_steps: "safe_prog (\<lambda>d. marked d h) (process_steps h emit_publish) d"
  unfolding safe_prog_def using harmless_process_steps [of h emit_publish] kept_by_marks(1)
  by (intro conjI exI [of _ False]) auto

lemma safe_refresh_steps: "safe_prog (\<lambda>d. True) (refresh_steps factory tip) d"
  unfolding safe_prog_def using harmless_refresh_steps [of factory tip] kept_by_marks(2)
  by (intro conjI exI [of _ True]) auto

lemma safe_done: "safe_prog Q (Done (Inr ())) d \<Longrightarrow> Q d"
  by (auto simp: safe_prog_def)

lemma safe_marks:
  assumes "safe_prog Q p d" "\<And>h. marked d h \<Longrightarrow> marked d' h"
  shows "safe_prog Q p d'"
proof -
  obtain m where m: "kept_by_marks Q" "m \<longrightarrow> Q d" "harmless Q m p"
    using assms(1) by (auto simp: safe_prog_def)
  then have "m \<longrightarrow> Q d'" using assms(2) by (auto simp: kept_by_marks_def)
  with m show ?thesis by (auto simp: safe_prog_def)
qed

lemma safe_step:
  assumes "safe_prog Q (Step f) (sdb w)" "f w = (p, w')"
  shows "advances (sdb w) (sdb w')" "safe_prog Q p (sdb w')"
proof -
  obtain m where Q: "kept_by_marks Q" and m: "m \<longrightarrow> Q (sdb w)" "harmless Q m (Step f)"
    using assms(1) by (auto simp: safe_prog_def)
  obtain m' where m': "advances (sdb w) (sdb w')" "m' \<longrightarrow> Q (sdb w')" "harmless Q m' p"
    by (rule harmless_step [OF m(2) assms(2) m(1)])
  show "advances (sdb w) (sdb w')" by (rule m')
  show "safe_prog Q p (sdb w')" unfolding safe_prog_def using Q m'(2,3) by (intro conjI exI [of _ m'])
qed

end
