(* ===== verification/Service.thy ===== *)
theory Service
  imports Block_Steps
begin

text \<open>
  \<open>src/main.rs\<close>: the poller and the catch-up run concurrently on one database until one of them
  ends or the process is stopped.  The service is a step relation on the two tasks' positions and
  the world: a step is one call of a task (a request, a statement or transaction, a redis
  command), in any interleaving, also within the processing of a block; between the calls the
  world outside the database may change in any way and the process may be stopped and started
  again at any point, when only the database remains.
\<close>

subsection \<open>Definitions\<close>

definition no_panic :: "'a res \<Rightarrow> bool" where
  "no_panic r \<longleftrightarrow> (case r of Inl (Panic m) \<Rightarrow> False | _ \<Rightarrow> True)"

text \<open>What the poller goes on with after the refresh for the first tip, the block there, the refresh
  for a later tip and each of the blocks up to it; and its positions: asking for the tip, or
  within one of these.\<close>

datatype poll_cont =
    After_first_refresh poller_state u64
  | After_first_block poller_state u64
  | After_refresh poller_state u64 u64
  | After_block poller_state u64 "u64 list"

datatype poll_pc = Polling poller_state | Calling poll_cont prog

fun cont_state :: "poll_cont \<Rightarrow> poller_state" where
  "cont_state (After_first_refresh st h) = st"
| "cont_state (After_first_block st h) = st"
| "cont_state (After_refresh st prev h) = st"
| "cont_state (After_block st h hs) = st"

fun poll_state :: "poll_pc \<Rightarrow> poller_state" where
  "poll_state (Polling st) = st"
| "poll_state (Calling k p) = cont_state k"

text \<open>The positions of the catch-up: waiting for the poller's signal, between passes, after the tip,
  within a block with the heights that are to follow it, and a processed one that is to be
  recorded.\<close>

datatype coord_pc =
    Waiting
  | Idle
  | Reading u64
  | Catching u64 "u64 list" prog
  | Recording u64 "u64 list"

definition initial_coord :: "app_config \<Rightarrow> coord_pc" where
  "initial_coord cfg = (if start_height cfg = None then Idle else Waiting)"

definition backed_off :: "poller_state \<Rightarrow> poller_state" where
  "backed_off st = st\<lparr>backoff_ms := min (saturating_mul (backoff_ms st) 2) 30000\<rparr>"

fun start_blocks :: "poller_state \<Rightarrow> u64 list \<Rightarrow> poll_pc" where
  "start_blocks st [] = Polling st"
| "start_blocks st (h # hs) = Calling (After_block st h hs) (process_steps h True)"

text \<open>What the poller does with a tip it has read, and when what it called returns.\<close>

definition on_tip :: "app_config \<Rightarrow> poller_state \<Rightarrow> u64 \<Rightarrow> poll_pc" where
  "on_tip cfg st h =
     (let refresh = refresh_steps (factory_of cfg) h in
      case last_height st of
        None \<Rightarrow> Calling (After_first_refresh st h) refresh
      | Some prev \<Rightarrow>
          if prev < h then Calling (After_refresh st prev h) refresh
          else if h < prev then Polling (st\<lparr>last_height := Some h\<rparr>)
          else Polling st)"

fun on_return :: "app_config \<Rightarrow> poll_cont \<Rightarrow> unit res \<Rightarrow> poll_pc" where
  "on_return cfg (After_first_refresh st h) r =
     Calling (After_first_block st h) (if start_height cfg = None then process_steps h True else Done (Inr ()))"
| "on_return cfg (After_first_block st h) r = Polling (st\<lparr>last_height := Some h, init_signal := False\<rparr>)"
| "on_return cfg (After_refresh st prev h) r = start_blocks st (heights (prev + 1) h)"
| "on_return cfg (After_block st h hs) r =
     (if is_ok r then start_blocks (st\<lparr>last_height := Some h\<rparr>) hs else Polling st)"

inductive poller_step :: "app_config \<Rightarrow> poll_pc \<times> world \<Rightarrow> poll_pc \<times> world \<Rightarrow> bool" for cfg where
  tip_failed: "canonical_tip_height w = (Inl (Error c), w') \<Longrightarrow>
    poller_step cfg (Polling st, w) (Polling (backed_off st), w')"
| tip_read: "canonical_tip_height w = (Inr h, w') \<Longrightarrow>
    poller_step cfg (Polling st, w) (on_tip cfg (st\<lparr>backoff_ms := poll_interval_ms cfg\<rparr>) h, w')"
| poll_call: "f w = (p, w') \<Longrightarrow> poller_step cfg (Calling k (Step f), w) (Calling k p, w')"
| poll_return: "no_panic r \<Longrightarrow> poller_step cfg (Calling k (Done r), w) (on_return cfg k r, w)"

fun start_catching :: "u64 list \<Rightarrow> coord_pc" where
  "start_catching [] = Idle"
| "start_catching (h # hs) = Catching h hs (process_steps h False)"

inductive coord_step :: "u64 option \<Rightarrow> coord_pc \<times> world \<Rightarrow> coord_pc \<times> world \<Rightarrow> bool" for start where
  no_start: "start = None \<Longrightarrow> coord_step start (Idle, w) (Idle, w)"
| pass_tip: "start \<noteq> None \<Longrightarrow> canonical_tip_height w = (Inr tip, w') \<Longrightarrow>
    coord_step start (Idle, w) (Reading tip, w')"
| pass_tip_failed: "start \<noteq> None \<Longrightarrow> canonical_tip_height w = (Inl (Error c), w') \<Longrightarrow>
    coord_step start (Idle, w) (Idle, w')"
| read_done: "exec get_last_processed_height w = (Inr prev, w') \<Longrightarrow> next_height prev start = Some nxt \<Longrightarrow>
    coord_step start (Reading tip, w) (if tip < nxt then Idle else start_catching (heights nxt tip), w')"
| read_none: "exec get_last_processed_height w = (Inr prev, w') \<Longrightarrow> next_height prev start = None \<Longrightarrow>
    coord_step start (Reading tip, w) (Idle, w')"
| read_failed: "exec get_last_processed_height w = (Inl (Error c), w') \<Longrightarrow>
    coord_step start (Reading tip, w) (Idle, w')"
| catch_call: "f w = (p, w') \<Longrightarrow> coord_step start (Catching h hs (Step f), w) (Catching h hs p, w')"
| caught: "coord_step start (Catching h hs (Done (Inr ())), w) (Recording h hs, w)"
| catch_failed: "coord_step start (Catching h hs (Done (Inl (Error c))), w) (Idle, w)"
| recorded: "exec (set_last_processed_height h) w = (Inr (), w') \<Longrightarrow>
    coord_step start (Recording h hs, w) (start_catching hs, w')"
| record_failed: "exec (set_last_processed_height h) w = (Inl (Error c), w') \<Longrightarrow>
    coord_step start (Recording h hs, w) (Idle, w')"

type_synonym service = "poll_pc \<times> coord_pc \<times> world"

definition start_service :: "app_config \<Rightarrow> world \<Rightarrow> service" where
  "start_service cfg w = (Polling (initial_poller cfg), initial_coord cfg, w)"

inductive service_step :: "app_config \<Rightarrow> service \<Rightarrow> service \<Rightarrow> bool" for cfg where
  poll: "poller_step cfg (p, w) (p', w') \<Longrightarrow> service_step cfg (p, c, w) (p', c, w')"
| catch: "coord_step (start_height cfg) (c, w) (c', w') \<Longrightarrow> service_step cfg (p, c, w) (p, c', w')"
| signalled: "\<not> init_signal (poll_state p) \<Longrightarrow> service_step cfg (p, Waiting, w) (p, Idle, w)"
| outside: "sdb w' = sdb w \<Longrightarrow> service_step cfg (p, c, w) (p, c, w')"
| restarted: "service_step cfg (p, c, w) (start_service cfg w)"

inductive service_run :: "app_config \<Rightarrow> service \<Rightarrow> service \<Rightarrow> bool" for cfg where
  stop: "service_run cfg s s"
| more_steps: "service_step cfg s s' \<Longrightarrow> service_run cfg s' s'' \<Longrightarrow> service_run cfg s s''"

subsection \<open>The invariant of the service\<close>

fun consecutive :: "u64 list \<Rightarrow> bool" where
  "consecutive (h # h' # hs) \<longleftrightarrow> h' = h + 1 \<and> consecutive (h' # hs)"
| "consecutive _ \<longleftrightarrow> True"

text \<open>What a task knows of the database at each of its positions, whatever the other one does.\<close>

fun poll_ok :: "poll_pc \<Rightarrow> db \<Rightarrow> bool" where
  "poll_ok (Calling k p) d \<longleftrightarrow> (\<exists>Q. safe_prog Q p d)"
| "poll_ok (Polling st) d \<longleftrightarrow> True"

fun coord_safe :: "coord_pc \<Rightarrow> db \<Rightarrow> bool" where
  "coord_safe (Catching h hs p) d \<longleftrightarrow> safe_prog (\<lambda>d. marked d h) p d"
| "coord_safe _ d \<longleftrightarrow> True"

text \<open>The catch-up also knows that everything from \<open>base\<close> up to its height is marked.\<close>

fun coord_ok :: "u64 \<Rightarrow> coord_pc \<Rightarrow> db \<Rightarrow> bool" where
  "coord_ok base (Catching h hs p) d \<longleftrightarrow>
     ready base h d \<and> consecutive (h # hs)"
| "coord_ok base (Recording h hs) d \<longleftrightarrow> (\<forall>k. base \<le> k \<and> k \<le> h \<longrightarrow> marked d k) \<and> consecutive (h # hs)"
| "coord_ok base _ d \<longleftrightarrow> True"

text \<open>With a start height the poller has seen a tip before it signals, and the catch-up has been
  signalled before it does anything.\<close>

definition signal_ok :: "app_config \<Rightarrow> poll_pc \<Rightarrow> coord_pc \<Rightarrow> bool" where
  "signal_ok cfg p c \<longleftrightarrow> start_height cfg = None \<or>
     (init_signal (poll_state p) \<or> last_height (poll_state p) \<noteq> None) \<and>
     (c = Waiting \<or> last_height (poll_state p) \<noteq> None)"

fun service_ok :: "app_config \<Rightarrow> u64 \<Rightarrow> service \<Rightarrow> bool" where
  "service_ok cfg base (p, c, w) \<longleftrightarrow>
     schema_ok (sdb w) \<and> no_gap (start_height cfg) base (sdb w) \<and> poll_ok p (sdb w) \<and>
     coord_safe c (sdb w) \<and> coord_ok base c (sdb w) \<and> signal_ok cfg p c"

text \<open>A task relies on no more than that no marker is lost.\<close>

lemma poll_ok_marks: "poll_ok p d \<Longrightarrow> (\<And>h. marked d h \<Longrightarrow> marked d' h) \<Longrightarrow> poll_ok p d'"
  by (cases p) (auto intro: safe_marks [where d = d])

lemma coord_ok_marks: "coord_ok base c d \<Longrightarrow> (\<And>h. marked d h \<Longrightarrow> marked d' h) \<Longrightarrow> coord_ok base c d'"
  by (cases "(base, c, d)" rule: coord_ok.cases) (auto simp: ready_def)

lemma coord_safe_marks: "coord_safe c d \<Longrightarrow> (\<And>h. marked d h \<Longrightarrow> marked d' h) \<Longrightarrow> coord_safe c d'"
  by (cases c) (auto intro: safe_marks [where d = d])

lemma no_gap_advances: "no_gap start base d \<Longrightarrow> advances d d' \<Longrightarrow> no_gap start base d'"
  using marked_more(2) [of d d'] by (simp add: advances_def)

lemma advances_tip: "canonical_tip_height w = (r, w') \<Longrightarrow> advances (sdb w) (sdb w')"
  by (rule only_advancesD [OF only_advances_calls(9)])

subsection \<open>A step of the poller\<close>

lemma start_blocks_ok: "poll_ok (start_blocks st hs) d"
  by (cases hs) (auto intro: safe_process_steps)

lemma on_tip_ok: "poll_ok (on_tip cfg st h) d"
  by (auto simp: on_tip_def Let_def intro: safe_refresh_steps split: option.split)

lemma on_return_ok: "poll_ok (on_return cfg k r) d"
proof -
  have "\<exists>Q. safe_prog Q (Done (Inr ())) d"
    by (intro exI [of _ "\<lambda>d. True"]) (auto simp: safe_prog_def)
  then show ?thesis
    by (cases "(cfg, k, r)" rule: on_return.cases) (auto intro: safe_process_steps start_blocks_ok)
qed

lemma poller_step_db:
  assumes "poller_step cfg (p, w) (p', w')" "poll_ok p (sdb w)"
  shows "advances (sdb w) (sdb w') \<and> poll_ok p' (sdb w')"
  using assms
proof cases
  case (poll_call f q k)
  then obtain Q where "safe_prog Q (Step f) (sdb w)" using assms(2) by auto
  from safe_step [OF this poll_call(3)] show ?thesis by (auto simp: poll_call)
qed (auto intro: advances_tip advances_same on_tip_ok on_return_ok)

lemma start_blocks_state: "poll_state (start_blocks st hs) = st"
  by (cases hs) auto

lemma on_tip_state: "last_height (poll_state (on_tip cfg st h)) = None \<longleftrightarrow> last_height st = None"
  "init_signal (poll_state (on_tip cfg st h)) = init_signal st"
  by (auto simp: on_tip_def Let_def split: option.splits)

lemma on_return_state: "last_height (poll_state (on_return cfg k r)) = None \<Longrightarrow> last_height (cont_state k) = None"
  "last_height (poll_state (on_return cfg k r)) = None \<Longrightarrow> init_signal (poll_state (on_return cfg k r)) = init_signal (cont_state k)"
  by (cases "(cfg, k, r)" rule: on_return.cases; simp add: start_blocks_state split: if_splits)+

lemma poller_step_signal:
  assumes "poller_step cfg (p, w) (p', w')" "signal_ok cfg p c"
  shows "signal_ok cfg p' c"
  using assms
proof cases
  case (poll_return r k)
  then show ?thesis
    using assms(2) on_return_state [of cfg k r] by (auto simp: signal_ok_def)
qed (auto simp: signal_ok_def on_tip_state backed_off_def)

subsection \<open>A step of the catch-up\<close>

lemma consecutive_upt: "consecutive (map of_nat [m..<n])"
proof (induction "n - m" arbitrary: m)
  case (Suc k)
  then have "m < n" by simp
  then have m: "[m..<n] = m # [Suc m..<n]" by (rule upt_conv_Cons)
  show ?case
  proof (cases "Suc m < n")
    case True
    then have "[Suc m..<n] = Suc m # [Suc (Suc m)..<n]" by (rule upt_conv_Cons)
    with Suc(1) [of "Suc m"] Suc(2) m show ?thesis by (simp add: add.commute)
  qed (simp add: m)
qed simp

lemma consecutive_heights: "consecutive (heights a b)"
  unfolding heights_def by (rule consecutive_upt)

lemma heights_first:
  assumes "\<not> b < a"
  obtains hs where "heights a b = a # hs"
proof -
  have "unat a < Suc (unat b)" using assms by (simp add: word_less_nat_alt)
  then have "heights a b = a # map of_nat [Suc (unat a)..<Suc (unat b)]"
    unfolding heights_def by (subst upt_conv_Cons) simp_all
  then show thesis by (rule that)
qed

lemma consecutive_tl: "consecutive (h # hs) \<Longrightarrow> consecutive hs"
  by (cases hs) auto

lemma start_catching_ok:
  "coord_ok base (start_catching hs) d" if "consecutive hs" "hs \<noteq> [] \<Longrightarrow> ready base (hd hs) d"
  using that by (cases hs) auto

lemma start_catching_safe: "coord_safe (start_catching hs) d"
  by (cases hs) (auto intro: safe_process_steps)

text \<open>A step of the catch-up advances the database or records a processed height.\<close>

lemma coord_step_cases:
  assumes "coord_step start (c, w) (c', w')" "coord_safe c (sdb w)"
  obtains (quiet) "advances (sdb w) (sdb w')"
  | (set) h hs where "c = Recording h hs" "c' = start_catching hs" "exec (set_last_processed_height h) w = (Inr (), w')"
  using assms(1)
proof cases
  case (catch_call f q h hs)
  then have "safe_prog (\<lambda>d. marked d h) (Step f) (sdb w)" using assms(2) by simp
  from safe_step(1) [OF this catch_call(3)] show thesis by (rule quiet)
next
  case (recorded h hs)
  then show thesis by (intro set)
qed (auto intro: quiet advances_tip advances_same simp: exec_Inr get_last_processed_height_Inr dest: exec_Inl)

lemma coord_step_marks:
  assumes "coord_step start (c, w) (c', w')" "coord_safe c (sdb w)" "marked (sdb w) h"
  shows "marked (sdb w') h"
  using assms(1,2)
proof (cases rule: coord_step_cases)
  case (set h' hs)
  from exec_set_marked [OF set(3)] assms(3) show ?thesis by simp
qed (use assms(3) in \<open>simp add: advances_def\<close>)

lemma coord_step_no_gap:
  assumes "coord_step start (c, w) (c', w')" "no_gap start base (sdb w)" "coord_safe c (sdb w)" "coord_ok base c (sdb w)"
  shows "no_gap start base (sdb w')"
  using assms(1,3)
proof (cases rule: coord_step_cases)
  case quiet
  with assms(2) show ?thesis by (rule no_gap_advances)
next
  case (set h hs)
  from exec_set_progress(1) [OF set(3)] exec_set_marked [OF set(3)] assms(4) set(1) show ?thesis
    by (auto simp: no_gap_def)
qed

lemma coord_step_schema:
  assumes "coord_step start (c, w) (c', w')" "coord_safe c (sdb w)" "schema_ok (sdb w)"
  shows "schema_ok (sdb w')"
  using assms(1,2)
proof (cases rule: coord_step_cases)
  case (set h hs)
  then show ?thesis
    using preservesD [OF preserves_exec [OF keeps_set_last_processed_height]] assms(3) by blast
qed (use assms(3) in \<open>simp add: advances_def\<close>)

lemma coord_step_ok:
  assumes "coord_step start (c, w) (c', w')" "coord_ok base c (sdb w)" "no_gap start base (sdb w)" "coord_safe c (sdb w)"
  shows "coord_ok base c' (sdb w')"
  using assms(1)
proof cases
  case (read_done prev nxt tip)
  then have d: "sdb w' = sdb w" "progress (sdb w) = Some prev"
    by (auto simp: exec_Inr get_last_processed_height_Inr)
  show ?thesis
  proof (cases "tip < nxt")
    case False
    then obtain hs where hs: "heights nxt tip = nxt # hs" by (rule heights_first)
    have "ready base nxt (sdb w)" by (rule ready_next [OF assms(3) d(2) read_done(4)])
    then have "coord_ok base (start_catching (heights nxt tip)) (sdb w)"
      by (intro start_catching_ok consecutive_heights) (simp add: hs)
    with False show ?thesis by (simp add: read_done d)
  qed (simp add: read_done)
next
  case (catch_call f q h hs)
  then have c: "ready base h (sdb w)" "consecutive (h # hs)" "safe_prog (\<lambda>d. marked d h) (Step f) (sdb w)"
    using assms(2,4) by auto
  note step = safe_step [OF c(3) catch_call(3)]
  from step(1) have "ready base h (sdb w')" using c(1) by (auto simp: advances_def ready_def)
  with c(2) step(2) show ?thesis by (simp add: catch_call)
next
  case (caught h hs)
  then have "marked (sdb w) h" "ready base h (sdb w)" "consecutive (h # hs)"
    using assms(2,4) by (auto dest: safe_done)
  then show ?thesis by (auto simp: caught ready_def order.order_iff_strict)
next
  case (recorded h hs)
  have same: "marked (sdb w') k = marked (sdb w) k" for k by (rule exec_set_marked [OF recorded(3)])
  have "k \<le> h" if "k < h + 1" for k
    using that unat_next [of h k] by (cases "h < k") (auto simp: word_less_nat_alt word_le_nat_alt not_less)
  then have "ready base (h + 1) (sdb w')" using assms(2) same by (auto simp: recorded ready_def)
  then show ?thesis
    unfolding recorded using assms(2) recorded(1)
    by (intro start_catching_ok) (cases hs; auto intro: consecutive_tl)+
qed (use assms(2) in simp_all)

lemma coord_step_safe:
  assumes "coord_step start (c, w) (c', w')" "coord_safe c (sdb w)"
  shows "coord_safe c' (sdb w')"
  using assms(1)
proof cases
  case (catch_call f q h hs)
  then have "safe_prog (\<lambda>d. marked d h) (Step f) (sdb w)" using assms(2) by auto
  from safe_step(2) [OF this catch_call(3)] show ?thesis by (simp add: catch_call)
qed (auto intro: start_catching_safe)

lemma coord_step_signal:
  assumes "coord_step (start_height cfg) (c, w) (c', w')" "signal_ok cfg p c"
  shows "signal_ok cfg p c'"
  using assms by cases (auto simp: signal_ok_def)

subsection \<open>A step of the service\<close>

lemma start_service_ok:
  assumes "schema_ok (sdb w)" "no_gap (start_height cfg) base (sdb w)"
  shows "service_ok cfg base (start_service cfg w)"
  using assms by (simp add: start_service_def initial_coord_def signal_ok_def initial_poller_def)

lemma service_step_ok:
  assumes "service_step cfg (p, c, w) s'" "service_ok cfg base (p, c, w)"
  shows "service_ok cfg base s'"
  using assms(1)
proof cases
  case (poll p' w')
  have "advances (sdb w) (sdb w')" "poll_ok p' (sdb w')"
    using poller_step_db [OF poll(2)] assms(2) by simp_all
  with assms(2) poller_step_signal [OF poll(2), of c] show ?thesis
    by (auto simp: poll(1) advances_def intro: coord_ok_marks [of base c "sdb w"] coord_safe_marks [of c "sdb w"]
        no_gap_advances [of _ _ "sdb w"])
next
  case (catch c' w')
  have ok: "schema_ok (sdb w)" "no_gap (start_height cfg) base (sdb w)" "poll_ok p (sdb w)"
    "coord_safe c (sdb w)" "coord_ok base c (sdb w)" "signal_ok cfg p c"
    using assms(2) by simp_all
  note step = catch(2)
  have "poll_ok p (sdb w')" using coord_step_marks [OF step ok(4)] by (rule poll_ok_marks [OF ok(3)])
  with coord_step_ok [OF step ok(5,2,4)] coord_step_no_gap [OF step ok(2,4,5)]
    coord_step_schema [OF step ok(4,1)] coord_step_safe [OF step ok(4)] coord_step_signal [OF step ok(6)]
  show ?thesis by (simp add: catch(1))
next
  case signalled
  with assms(2) show ?thesis by (auto simp: signal_ok_def)
next
  case (outside w')
  with assms(2) show ?thesis by simp
next
  case restarted
  with assms(2) show ?thesis using start_service_ok by simp
qed

lemma service_run_ok: "service_run cfg s s' \<Longrightarrow> service_ok cfg base s \<Longrightarrow> service_ok cfg base s'"
proof (induction rule: service_run.induct)
  case (more_steps s s' s'')
  then show ?case using service_step_ok by (metis prod_cases3)
qed

text \<open>Markers need no more than that each task is within its own work.\<close>

fun tasks_safe :: "service \<Rightarrow> bool" where
  "tasks_safe (p, c, w) \<longleftrightarrow> poll_ok p (sdb w) \<and> coord_safe c (sdb w)"

lemma start_service_safe: "tasks_safe (start_service cfg w)"
  by (simp add: start_service_def initial_coord_def)

lemma service_step_marks:
  assumes "service_step cfg (p, c, w) (p', c', w')" "tasks_safe (p, c, w)"
  shows "tasks_safe (p', c', w') \<and> (\<forall>h. marked (sdb w) h \<longrightarrow> marked (sdb w') h)"
  using assms(1)
proof cases
  case poll
  have db: "advances (sdb w) (sdb w')" "poll_ok p' (sdb w')"
    using poller_step_db [OF poll(2)] assms(2) by simp_all
  with assms(2) show ?thesis by (auto simp: poll(1) advances_def intro: coord_safe_marks [of c "sdb w"])
next
  case catch
  have c: "coord_safe c (sdb w)" using assms(2) by simp
  note marks = coord_step_marks [OF catch(2) c]
  from marks coord_step_safe [OF catch(2) c] assms(2) show ?thesis
    by (auto simp: catch(1) intro: poll_ok_marks [of p "sdb w"])
next
  case restarted
  with start_service_safe [of cfg w] show ?thesis by (simp add: start_service_def)
qed (use assms(2) in auto)

lemma service_run_marks:
  "service_run cfg s s' \<Longrightarrow> tasks_safe s \<Longrightarrow>
     tasks_safe s' \<and> (marked (sdb (snd (snd s))) h \<longrightarrow> marked (sdb (snd (snd s'))) h)"
proof (induction rule: service_run.induct)
  case (more_steps s s' s'')
  then show ?case using service_step_marks by (metis prod.collapse)
qed simp

end
