(* ===== verification/Service_Loops.thy ===== *)
theory Service_Loops
  imports Service
begin

text \<open>
  The loops of the poller and of the catch-up, as they are written, are runs of the service's
  steps; with the properties of the service and a run that shows them at work.
\<close>

subsection \<open>The code's loops are runs of the steps\<close>

lemma run_step: "service_step cfg s s' \<Longrightarrow> service_run cfg s s'"
  by (rule more_steps [OF _ stop])

lemma run_trans: "service_run cfg s s' \<Longrightarrow> service_run cfg s' s'' \<Longrightarrow> service_run cfg s s''"
  by (induction rule: service_run.induct) (auto intro: more_steps)

lemmas run_poll = run_step [OF poll] and run_catch = run_step [OF catch] and run_outside = run_step [OF outside]

text \<open>A resumption that no other task interrupts.\<close>

lemma run_calls:
  assumes "run_prog p w = (r, w')"
    and "\<And>f q v v'. f v = (q, v') \<Longrightarrow> service_run cfg (state (Step f) v) (state q v')"
  shows "service_run cfg (state p w) (state (Done r) w')"
  using assms(1)
proof (induction p arbitrary: w)
  case (Done r)
  then show ?case by (simp add: stop)
next
  case (Step f)
  obtain q v where q: "f w = (q, v)" by (rule prod.exhaust)
  then have "run_prog q v = (r, w')" using Step.prems by simp
  moreover have "q \<in> Basic_BNFs.fsts (f w)" using q by simp
  ultimately have "service_run cfg (state q v) (state (Done r) w')" by (intro Step.IH) auto
  with assms(2) [where f = f, OF q] show ?case by (rule run_trans)
qed

lemma calling_run: "run_prog q w = (r, w') \<Longrightarrow> service_run cfg (Calling k q, c, w) (Calling k (Done r), c, w')"
  by (rule run_calls [where state = "\<lambda>q w. (Calling k q, c, w)"]) (auto intro: run_poll poll_call)

lemma catching_run:
  "run_prog q w = (r, w') \<Longrightarrow> service_run cfg (p, Catching h hs q, w) (p, Catching h hs (Done r), w')"
  by (rule run_calls [where state = "\<lambda>q w. (p, Catching h hs q, w)"]) (auto intro: run_catch catch_call)

lemma returning_run:
  assumes "run_prog q w = (r, w')" "no_panic r"
  shows "service_run cfg (Calling k q, c, w) (on_return cfg k r, c, w')"
  by (rule run_trans [OF calling_run [OF assms(1)] run_poll [OF poll_return [OF assms(2)]]])

lemma no_panic_simps [simp]: "no_panic (Inr x)" "no_panic (Inl (Error c))"
  by (simp_all add: no_panic_def)

lemma set_same_height: "last_height st = l \<Longrightarrow> st\<lparr>last_height := l\<rparr> = st"
  by (cases st) simp

lemma new_blocks_run:
  assumes "process_new_blocks hs latest w = (Inr l, w')"
  shows "service_run cfg (start_blocks (st\<lparr>last_height := latest\<rparr>) hs, c, w) (Polling (st\<lparr>last_height := l\<rparr>), c, w')"
  using assms
proof (induction hs arbitrary: latest w)
  case Nil
  then have "l = latest" "w' = w" by (auto simp: act_return_def)
  then show ?case by (simp add: stop)
next
  case (Cons h hs)
  from Cons.prems consider
    (ok) w1 where "run_prog (process_steps h True) w = (Inr (), w1)" "process_new_blocks hs (Some h) w1 = (Inr l, w')"
    | (failed) e where "run_prog (process_steps h True) w = (Inl (Error e), w')" "l = latest"
    by (auto simp: run_process_steps act_bind_try_Inr act_return_def)
  then show ?case
  proof cases
    case ok
    from returning_run [OF ok(1), of cfg "After_block (st\<lparr>last_height := latest\<rparr>) h hs" c] Cons.IH [OF ok(2)]
    show ?thesis by (auto simp: is_ok_iff intro: run_trans)
  next
    case failed
    from returning_run [OF failed(1), of cfg "After_block (st\<lparr>last_height := latest\<rparr>) h hs" c]
    show ?thesis by (simp add: failed(2) is_ok_iff)
  qed
qed

lemma refresh_run:
  assumes "act_log_error (fetch_pools_for_tip factory h) w = (Inr (), w')"
  obtains r where "run_prog (refresh_steps factory h) w = (r, w')" "no_panic r"
  using act_log_error_Inr [OF assms] by (auto simp: run_refresh_steps)

lemma observe_run:
  assumes "observe_tip cfg st h w = (Inr st', w')"
  shows "service_run cfg (on_tip cfg st h, c, w) (Polling st', c, w')"
proof (cases "last_height st")
  case None
  let ?first = "if start_height cfg = None then process_steps h True else Done (Inr ())"
  obtain w1 where 1: "act_log_error (fetch_pools_for_tip (factory_of cfg) h) w = (Inr (), w1)"
    and 2: "act_when (start_height cfg = None) (act_log_error (process_block_sequential h True)) w1 = (Inr (), w')"
    and st': "st' = st\<lparr>last_height := Some h, init_signal := False\<rparr>"
    using assms None by (auto simp: observe_tip_def act_bind_Inr act_return_def)
  obtain r where r: "run_prog ?first w1 = (r, w')" "no_panic r"
  proof (cases "start_height cfg = None")
    case True
    then have "act_log_error (process_block_sequential h True) w1 = (Inr (), w')" using 2 by (simp add: act_when_def)
    from act_log_error_Inr [OF this] True show thesis by (auto intro: that simp: run_process_steps)
  next
    case False
    then show thesis using 2 by (intro that [of "Inr ()"]) (auto simp: act_when_def act_return_def)
  qed
  obtain r1 where r1: "run_prog (refresh_steps (factory_of cfg) h) w = (r1, w1)" "no_panic r1"
    using 1 by (rule refresh_run)
  have "service_run cfg (on_tip cfg st h, c, w) (Calling (After_first_block st h) ?first, c, w1)"
    using returning_run [OF r1, of cfg "After_first_refresh st h" c] None by (simp add: on_tip_def)
  moreover have "service_run cfg (Calling (After_first_block st h) ?first, c, w1) (Polling st', c, w')"
    using returning_run [OF r, of cfg "After_first_block st h" c] by (simp add: st')
  ultimately show ?thesis by (rule run_trans)
next
  case (Some prev)
  show ?thesis
  proof (cases "prev < h")
    case True
    obtain w1 latest where 1: "act_log_error (fetch_pools_for_tip (factory_of cfg) h) w = (Inr (), w1)"
      and 2: "process_new_blocks (heights (prev + 1) h) (Some prev) w1 = (Inr latest, w')"
      and st': "st' = st\<lparr>last_height := latest\<rparr>"
      using assms Some True by (auto simp: observe_tip_def act_bind_Inr act_return_def)
    obtain r where r: "run_prog (refresh_steps (factory_of cfg) h) w = (r, w1)" "no_panic r"
      using 1 by (rule refresh_run)
    have "service_run cfg (on_tip cfg st h, c, w) (start_blocks st (heights (prev + 1) h), c, w1)"
      using returning_run [OF r, of cfg "After_refresh st prev h" c] Some True by (simp add: on_tip_def)
    moreover have "service_run cfg (start_blocks st (heights (prev + 1) h), c, w1) (Polling st', c, w')"
      using new_blocks_run [OF 2, of cfg st c] by (simp add: st' set_same_height [OF Some])
    ultimately show ?thesis by (rule run_trans)
  next
    case False
    then show ?thesis
      using assms Some by (auto simp: on_tip_def observe_tip_def act_return_def intro: stop split: if_splits)
  qed
qed

lemma tick_run:
  assumes "poller_tick cfg st w = (Inr st', w')"
  shows "service_run cfg (Polling st, c, w) (Polling st', c, w')"
  using assms
proof (cases rule: poller_tick_cases)
  case (tip h w1 w2 d)
  have "service_run cfg (Polling st, c, w) (on_tip cfg (st\<lparr>backoff_ms := poll_interval_ms cfg\<rparr>) h, c, w1)"
    by (intro run_poll poller_step.intros tip)
  moreover note observe_run [OF tip(2), of c]
  moreover have "service_run cfg (Polling st', c, w2) (Polling st', c, w')"
    using tip(3) by (intro run_outside) (auto simp: sleep_ms_def act_modify_def)
  ultimately show ?thesis by (blast intro: run_trans)
next
  case (none e w1 d)
  have "service_run cfg (Polling st, c, w) (Polling st', c, w1)"
    unfolding none(2) backed_off_def [symmetric] by (rule run_poll [OF tip_failed [OF none(1)]])
  moreover have "service_run cfg (Polling st', c, w1) (Polling st', c, w')"
    using none(3) by (intro run_outside) (auto simp: sleep_ms_def act_modify_def)
  ultimately show ?thesis by (rule run_trans)
qed

lemma no_panic_cases:
  assumes "no_panic r"
  obtains (ok) x where "r = Inr x" | (error) c where "r = Inl (Error c)"
  using assms by (cases r) (auto simp: no_panic_def split: fault.splits)

lemma act_bind_no_panic:
  assumes "act_bind m f w = (r, w')" "no_panic r"
  obtains (ok) x w1 where "m w = (Inr x, w1)" "f x w1 = (r, w')" | (error) c where "m w = (Inl (Error c), w')" "r = Inl (Error c)"
  using assms by (auto simp: act_bind_def no_panic_def split: prod.splits sum.splits fault.splits)

lemma catch_up_run:
  assumes "catch_up hs w = (r, w')" "no_panic r"
  shows "service_run cfg (p, start_catching hs, w) (p, Idle, w')"
  using assms
proof (induction hs arbitrary: w)
  case Nil
  then show ?case by (simp add: act_return_def stop)
next
  case (Cons h hs)
  note catching = catching_run [of "process_steps h False" w _ _ cfg p h hs]
  show ?case
    using Cons.prems(1,2) unfolding catch_up.simps
  proof (cases rule: act_bind_no_panic)
    case (ok y w1)
    show ?thesis
    proof (cases y)
      case (Inl c)
      with ok have "run_prog (process_steps h False) w = (Inl (Error c), w')"
        by (simp add: act_return_def act_try_Inr run_process_steps)
      from run_trans [OF catching [OF this] run_catch [OF catch_failed]] show ?thesis by simp
    next
      case (Inr u)
      with ok have "run_prog (process_steps h False) w = (Inr (), w1)" by (simp add: act_try_Inr run_process_steps)
      note first = run_trans [OF catching [OF this] run_catch [OF caught]]
      have 2: "act_bind (exec (set_last_processed_height h)) (\<lambda>_. catch_up hs) w1 = (r, w')"
        using ok(2) Inr by simp
      from 2 Cons.prems(2) show ?thesis
      proof (cases rule: act_bind_no_panic)
        case (ok z w2)
        then have "service_run cfg (p, Recording h hs, w1) (p, start_catching hs, w2)"
          by (intro run_catch coord_step.intros) simp
        with first Cons.IH [OF ok(2) Cons.prems(2)] show ?thesis by (auto intro: run_trans)
      next
        case (error c)
        then have "service_run cfg (p, Recording h hs, w1) (p, Idle, w')"
          by (intro run_catch coord_step.intros)
        with first show ?thesis by (auto intro: run_trans)
      qed
    qed
  next
    case (error c)
    then show ?thesis by (auto simp: act_try_def split: prod.splits sum.splits fault.splits)
  qed
qed

lemma pass_run:
  assumes "run_once (start_height cfg) w = (r, w')" "no_panic r"
  shows "service_run cfg (p, Idle, w) (p, Idle, w')"
proof (cases "start_height cfg")
  case None
  then have "w' = w" using assms(1) by (simp add: run_once_def act_return_def)
  then show ?thesis by (simp add: stop)
next
  case (Some s)
  then have start: "start_height cfg \<noteq> None" by simp
  have "act_bind canonical_tip_height (\<lambda>tip.
      act_bind (exec get_last_processed_height) (\<lambda>prev.
        case next_height prev (start_height cfg) of None \<Rightarrow> act_return ()
        | Some nxt \<Rightarrow> if tip < nxt then act_return () else catch_up (heights nxt tip))) w = (r, w')"
    using assms(1) Some by (simp add: run_once_def)
  then show ?thesis using assms(2)
  proof (cases rule: act_bind_no_panic)
    case (error c)
    then show ?thesis using run_catch [OF pass_tip_failed [OF start]] by simp
  next
    case (ok tip w1)
    have tip: "service_run cfg (p, Idle, w) (p, Reading tip, w1)"
      by (rule run_catch [OF pass_tip [OF start ok(1)]])
    from ok(2) assms(2) show ?thesis
    proof (cases rule: act_bind_no_panic)
      case (error c)
      then show ?thesis using run_trans [OF tip run_catch [OF read_failed]] by simp
    next
      case read: (ok prev w2)
      obtain nxt where nxt: "next_height prev (start_height cfg) = Some nxt"
        using Some by (cases prev) (auto simp: next_height_def)
      note reading = run_trans [OF tip run_catch [OF read_done [OF read(1) nxt]]]
      show ?thesis
      proof (cases "tip < nxt")
        case True
        with read(2) nxt reading show ?thesis by (simp add: act_return_def)
      next
        case False
        with read(2) nxt have "catch_up (heights nxt tip) w2 = (r, w')" by simp
        from run_trans [OF _ catch_up_run [OF this assms(2)]] reading False show ?thesis by simp
      qed
    qed
  qed
qed

subsection \<open>A run\<close>

definition catch_up_config :: app_config where
  "catch_up_config = example_config\<lparr>start_height := Some 5\<rparr>"

lemma example_retry: "retry_config_of (example_tip_world\<lparr>calls := n, clock_ms := c\<rparr>)
     = \<lparr>max_attempts = 5, base_delay_ms = 200, max_delay_ms = 5000\<rparr>"
  by (simp add: retry_config_of_def env_num_def example_tip_simps)

lemma example_tick: "\<exists>st' w'. poller_tick catch_up_config (initial_poller catch_up_config) example_tip_world = (Inr st', w') \<and> \<not> init_signal st' \<and>
    sdb w' = sdb example_tip_world"
  using example_retry
  by (simp add: poller_tick_def observe_tip_def initial_poller_def catch_up_config_def canonical_tip_height_def
      resilient_provider_call_def resilient_def circuit_open_def retry_loop.simps
      act_log_error_def fetch_pools_for_tip_def fetch_and_upsert_pools_for_tip_def
      fetch_all_pools_with_details_def notify_pools_processed_def redis_command_def sleep_ms_def act_modify_def
      act_bind_def act_try_def act_get_def act_when_def provider_call_def act_return_def example_tip_simps Let_def)

lemma example_pass_run:
  "\<exists>w'. service_run catch_up_config (p, Idle, example_tip_world) (p, Idle, w') \<and> marked (sdb w') 5"
proof -
  obtain w' where "run_once (Some 5) example_tip_world = (Inr (), w')" "marked (sdb w') 5"
    using example_catch_up by blast
  with pass_run [of catch_up_config example_tip_world "Inr ()" w' p] show ?thesis
    by (auto simp: no_panic_def catch_up_config_def)
qed

lemma example_run:
  "\<exists>p w'. service_run catch_up_config (start_service catch_up_config example_tip_world) (p, Idle, w') \<and> marked (sdb w') 5"
proof -
  let ?cfg = catch_up_config and ?w = example_tip_world
  obtain st' w1 where tick: "poller_tick ?cfg (initial_poller ?cfg) ?w = (Inr st', w1)" "\<not> init_signal st'"
    and w1: "sdb w1 = sdb ?w"
    using example_tick by blast
  have "start_service ?cfg ?w = (Polling (initial_poller ?cfg), Waiting, ?w)"
    by (simp add: start_service_def initial_coord_def catch_up_config_def)
  then have "service_run ?cfg (start_service ?cfg ?w) (Polling st', Waiting, w1)"
    using tick_run [OF tick(1)] by simp
  moreover have "service_run ?cfg (Polling st', Waiting, w1) (Polling st', Idle, w1)"
    by (rule run_step [OF signalled]) (simp add: tick(2))
  moreover have "service_run ?cfg (Polling st', Idle, w1) (Polling st', Idle, ?w)"
    by (rule run_outside) (simp add: w1)
  ultimately have "service_run ?cfg (start_service ?cfg ?w) (Polling st', Idle, ?w)" by (blast intro: run_trans)
  with example_pass_run [of "Polling st'"] show ?thesis by (blast intro: run_trans)
qed

subsection \<open>Properties\<close>

text \<open>
  C3: however the calls of the poller and of the catch-up are interleaved, whatever happens outside
  the database, and however often the process is stopped and started: the constraints of the schema
  hold, every height from the base up to the recorded progress is marked as processed, and with a
  start height the catch-up only starts once the poller has seen a tip.
\<close>

theorem service_invariant:
  assumes "service_run cfg (start_service cfg w) (p, c, w')"
    and "schema_ok (sdb w)" "no_gap (start_height cfg) base (sdb w)"
  shows "schema_ok (sdb w') \<and> no_gap (start_height cfg) base (sdb w') \<and>
    (start_height cfg \<noteq> None \<and> c \<noteq> Waiting \<longrightarrow> last_height (poll_state p) \<noteq> None)"
  using service_run_ok [OF assms(1) start_service_ok [OF assms(2,3)]] by (auto simp: signal_ok_def)

lemma service_invariant_witness:
  "\<exists>p w'. service_run catch_up_config (start_service catch_up_config example_tip_world) (p, Idle, w') \<and>
     marked (sdb w') 5 \<and> no_gap (Some 5) 5 (sdb w') \<and> last_height (poll_state p) \<noteq> None"
proof -
  obtain p w' where run: "service_run catch_up_config (start_service catch_up_config example_tip_world) (p, Idle, w')"
    "marked (sdb w') 5"
    using example_run by blast
  have "schema_ok (sdb example_tip_world)" "no_gap (start_height catch_up_config) 5 (sdb example_tip_world)"
    using example_progress
    by (simp_all add: no_gap_def catch_up_config_def schema_ok_def constraint_defs empty_db_def example_tip_simps)
  from service_invariant [OF run(1) this] run show ?thesis by (auto simp: catch_up_config_def)
qed

text \<open>
  A block that is marked as processed at any point of a run of the service stays so: no call of
  a task removes a marker.
\<close>

theorem markers_survive:
  assumes "service_run cfg (start_service cfg w0) (p, c, w)" "service_run cfg (p, c, w) (p', c', w')"
    and "marked (sdb w) h"
  shows "marked (sdb w') h"
proof -
  have "tasks_safe (p, c, w)" using service_run_marks [OF assms(1) start_service_safe] by blast
  from service_run_marks [OF assms(2) this, of h] assms(3) show ?thesis by simp
qed

lemma markers_survive_witness:
  "\<exists>p w' w''. service_run catch_up_config (start_service catch_up_config example_tip_world) (p, Idle, w') \<and>
     service_run catch_up_config (p, Idle, w') (start_service catch_up_config w'') \<and>
     marked (sdb w') 5 \<and> marked (sdb w'') 5"
proof -
  obtain p w' where run: "service_run catch_up_config (start_service catch_up_config example_tip_world) (p, Idle, w')"
    "marked (sdb w') 5"
    using example_run by blast
  have again: "service_run catch_up_config (p, Idle, w') (start_service catch_up_config w')"
    by (rule run_step [OF restarted])
  with markers_survive [OF run(1) again [unfolded start_service_def] run(2)] run show ?thesis by blast
qed

text \<open>
  C7: the code as it is written is made of runs of the steps: the calls of a block's processing,
  made without interruption, are \<open>process_block_sequential\<close>; an iteration of the poller's loop,
  and a pass of the catch-up whether it returns or fails, take the service from the loop's head
  back to it, so what holds of every run holds of the loops.
\<close>

theorem loops_are_runs:
  "run_prog (process_steps h emit_publish) = process_block_sequential h emit_publish \<and>
   (\<forall>st' w'. poller_tick cfg st w = (Inr st', w') \<longrightarrow> service_run cfg (Polling st, c, w) (Polling st', c, w')) \<and>
   (\<forall>r w'. run_once (start_height cfg) w = (r, w') \<and> no_panic r \<longrightarrow> service_run cfg (p, Idle, w) (p, Idle, w'))"
  using tick_run pass_run run_process_steps by blast

lemma loops_are_runs_witness:
  "\<exists>st' w' w''. poller_tick catch_up_config (initial_poller catch_up_config) example_tip_world = (Inr st', w') \<and>
     service_run catch_up_config (start_service catch_up_config example_tip_world) (Polling st', Waiting, w') \<and>
     service_run catch_up_config (Polling st', Idle, example_tip_world) (Polling st', Idle, w'') \<and> marked (sdb w'') 5"
proof -
  obtain st' w' where tick: "poller_tick catch_up_config (initial_poller catch_up_config) example_tip_world = (Inr st', w')"
    using example_tick by blast
  obtain w'' where pass: "run_once (start_height catch_up_config) example_tip_world = (Inr (), w'')" "marked (sdb w'') 5"
    using example_catch_up by (auto simp: catch_up_config_def)
  with tick loops_are_runs [of 5 True catch_up_config "initial_poller catch_up_config" example_tip_world Waiting "Polling st'"]
  show ?thesis by (auto simp: start_service_def initial_coord_def catch_up_config_def)
qed

end
