(* ===== verification/Tools.thy ===== *)
theory Tools
  imports Coordinator
begin

text \<open>
  The command line tools of \<open>src/bin/\<close> that write the database: \<open>dbctl reset-progress\<close> and
  \<open>dbctl purge-block\<close> (\<open>dbctl.rs\<close>; the schema commands are in \<open>Schema\<close>), \<open>swaps\<close> and
  \<open>reprocess\<close>.  Reading the command line, the configuration and the connections are left out.
\<close>

subsection \<open>Definitions\<close>

text \<open>\<open>create table if not exists kv_store\<close> on a database that has the table.\<close>

definition ensure_kv_table :: "unit stm" where
  "ensure_kv_table = stm_return ()"

definition clear_progress :: "unit stm" where
  "clear_progress = update (kv_store_update (filter (\<lambda>(key, _). key \<noteq> progress_key)))"

definition reset_progress :: "u64 \<Rightarrow> unit wact" where
  "reset_progress height =
     act_bind (exec ensure_kv_table) (\<lambda>_.
       if height = 0 then exec clear_progress else exec (set_last_processed_height (height - 1)))"

text \<open>\<open>delete from .. where "blockHeight" = $1\<close>, without and with a foreign key onto the table.\<close>

definition delete_height :: "(('r list \<Rightarrow> 'r list) \<Rightarrow> db \<Rightarrow> db) \<Rightarrow> ('r \<Rightarrow> i32) \<Rightarrow> i32 \<Rightarrow> unit stm" where
  "delete_height upd height_of height = update (upd (filter (\<lambda>r. height_of r \<noteq> height)))"

definition delete_transactions :: "i32 \<Rightarrow> unit stm" where
  "delete_transactions height =
     checked ''violates foreign key constraint''
       (\<lambda>d. trace_event_ok d \<and> list_all (\<lambda>r. dp_txid r \<in> set (map at_txid (alkane_txs d))) (protostones d) \<and> clock_in_ok d)
       (alkane_txs_update (filter (\<lambda>r. at_height r \<noteq> height)))"

definition purge_block :: "i32 \<Rightarrow> unit stm" where
  "purge_block height =
     stm_seq (delete_height pool_swaps_update sw_height height)
    (stm_seq (delete_height pool_mints_update lq_height height)
    (stm_seq (delete_height pool_burns_update lq_height height)
    (stm_seq (delete_height pool_creations_update cr_height height)
    (stm_seq (delete_height subfrost_wraps_update fr_height height)
    (stm_seq (delete_height subfrost_unwraps_update fr_height height)
    (stm_seq (delete_height trace_events_update te_height height)
    (stm_seq (delete_height protostones_update dp_height height)
    (stm_seq (delete_height clock_ins_update ci_height height)
    (stm_seq (delete_transactions height)
    (stm_seq (delete_height processed_blocks_update pb_height height)
    (stm_seq (delete_height pool_states_update ps_height height)
             (delete_height clock_in_blocks_update id height))))))))))))"

definition swaps_tool :: "u64 \<Rightarrow> unit wact" where
  "swaps_tool height =
     act_bind (get_block_hash height) (\<lambda>block_hash.
     act_bind (get_block_txids block_hash) (\<lambda>txids.
     act_bind (get_transactions_info txids) (\<lambda>txs.
     let op_return_txs = filter tx_has_op_return txs
     in if op_return_txs = [] then act_return ()
        else act_bind (decode_and_trace_for_block op_return_txs) (\<lambda>results.
             act_bind (exec (store_block_stm (ucast height) results)) (\<lambda>_.
             act_bind (act_get lib) (\<lambda>l.
             index_pool_swaps_for_block (ucast height) (indexer_inputs l results)))))))"

definition reprocess :: "u64 \<Rightarrow> unit wact" where
  "reprocess height = process_block_sequential height False"

subsection \<open>Resetting the progress\<close>

lemma clear_progress_Inr: "clear_progress d = Inr ((), d') \<Longrightarrow> progress d' = Some None \<and> processed_blocks d' = processed_blocks d"
proof -
  have "map_of (filter (\<lambda>(key, _). key \<noteq> k) xs) k = None" for k :: string and xs :: "(string \<times> string) list"
    by (induction xs) auto
  then show "clear_progress d = Inr ((), d') \<Longrightarrow> ?thesis"
    by (auto simp: clear_progress_def db_simps progress_def get_last_processed_height_def)
qed

text \<open>
  After \<open>reset-progress --height H\<close> the next pass of the catch-up starts at \<open>H\<close> for every
  positive \<open>H\<close>, whatever the start height; with \<open>H = 0\<close> it starts at the start height.  In both
  cases a service without a start height does no catch-up at all, and the markers stay.
\<close>

theorem reset_progress_effect:
  assumes "reset_progress height w = (Inr (), w')"
  shows "(\<exists>prev. progress (sdb w') = Some prev \<and>
      (\<forall>s. next_height prev (Some s) = Some (if height = 0 then s else height))) \<and>
    processed_blocks (sdb w') = processed_blocks (sdb w) \<and> run_once None w' = (Inr (), w')"
proof -
  obtain w1 where "exec ensure_kv_table w = (Inr (), w1)"
    and run: "(if height = 0 then exec clear_progress else exec (set_last_processed_height (height - 1))) w1 = (Inr (), w')"
    using assms by (auto simp: reset_progress_def act_bind_Inr)
  then have 1: "sdb w1 = sdb w" by (auto simp: ensure_kv_table_def exec_Inr db_simps)
  have "saturating_add (height - 1) 1 = height" if "height \<noteq> 0"
    using that by (simp add: saturating_add_def word_less_nat_alt unat_minus_one) arith
  moreover have "progress (sdb w') = Some (if height = 0 then None else Some (height - 1)) \<and>
      processed_blocks (sdb w') = processed_blocks (sdb w1)"
    using run exec_set_progress [of "height - 1" w1 "()" w']
    by (cases "height = 0") (auto simp: exec_Inr dest: clear_progress_Inr)
  ultimately show ?thesis
    using 1 by (auto simp: next_height_def run_once_def act_return_def)
qed

lemma reset_progress_effect_witness:
  "\<exists>w'. reset_progress 917000 example_world = (Inr (), w') \<and> processed_blocks (sdb w') = [] \<and>
     (\<exists>prev. progress (sdb w') = Some prev \<and> next_height prev (Some 3) = Some 917000)"
proof -
  obtain w' where run: "reset_progress 917000 example_world = (Inr (), w')"
    by (simp add: reset_progress_def act_bind_def exec_def ensure_kv_table_def stm_return_def
        set_last_processed_height_def update_def example_world_def Let_def)
  from reset_progress_effect [OF this] run show ?thesis by (auto simp: example_world_def empty_db_def)
qed

subsection \<open>Purging a block\<close>

text \<open>The database without the rows of a height; pools, the progress key and the uuids stay.\<close>

definition without_height :: "i32 \<Rightarrow> db \<Rightarrow> db" where
  "without_height h d =
     d\<lparr>alkane_txs := filter (\<lambda>r. at_height r \<noteq> h) (alkane_txs d),
       trace_events := filter (\<lambda>r. te_height r \<noteq> h) (trace_events d),
       protostones := filter (\<lambda>r. dp_height r \<noteq> h) (protostones d),
       clock_ins := filter (\<lambda>r. ci_height r \<noteq> h) (clock_ins d),
       processed_blocks := filter (\<lambda>r. pb_height r \<noteq> h) (processed_blocks d),
       clock_in_blocks := filter (\<lambda>r. r \<noteq> h) (clock_in_blocks d),
       pool_states := filter (\<lambda>r. ps_height r \<noteq> h) (pool_states d),
       pool_creations := filter (\<lambda>r. cr_height r \<noteq> h) (pool_creations d),
       pool_swaps := filter (\<lambda>r. sw_height r \<noteq> h) (pool_swaps d),
       pool_burns := filter (\<lambda>r. lq_height r \<noteq> h) (pool_burns d),
       pool_mints := filter (\<lambda>r. lq_height r \<noteq> h) (pool_mints d),
       subfrost_wraps := filter (\<lambda>r. fr_height r \<noteq> h) (subfrost_wraps d),
       subfrost_unwraps := filter (\<lambda>r. fr_height r \<noteq> h) (subfrost_unwraps d)\<rparr>"

text \<open>No row of another height refers to a transaction of this height.\<close>

definition only_own_rows :: "i32 \<Rightarrow> db \<Rightarrow> bool" where
  "only_own_rows h d \<longleftrightarrow>
     (let own = map at_txid (filter (\<lambda>r. at_height r = h) (alkane_txs d))
      in list_all (\<lambda>r. te_txid r \<in> set own \<longrightarrow> te_height r = h) (trace_events d) \<and>
         list_all (\<lambda>r. dp_txid r \<in> set own \<longrightarrow> dp_height r = h) (protostones d) \<and>
         list_all (\<lambda>r. ci_txid r \<in> set own \<longrightarrow> ci_height r = h) (clock_ins d))"

lemma rest_of_keyed:
  assumes "distinct (map key rows)" "\<forall>c\<in>set children. f c \<in> set (map key rows)"
  shows "(\<forall>c\<in>set children. \<not> Q c \<longrightarrow> f c \<in> set (map key (filter (\<lambda>r. \<not> P r) rows))) \<longleftrightarrow>
    (\<forall>c\<in>set children. f c \<in> set (map key (filter P rows)) \<longrightarrow> Q c)"
proof -
  have "f c \<in> set (map key (filter (\<lambda>r. \<not> P r) rows)) \<longleftrightarrow> f c \<notin> set (map key (filter P rows))" if "c \<in> set children" for c
  proof -
    have "f c \<in> set (map key rows)" using assms(2) that by blast
    then obtain x where "x \<in> set rows" "f c = key x" by auto
    with assms(1) show ?thesis by (cases "P x") (auto simp: distinct_map inj_on_def)
  qed
  then show ?thesis by blast
qed

lemma purge_block_Inr:
  "purge_block h d = Inr ((), d') \<longleftrightarrow>
     list_all (\<lambda>r. te_height r \<noteq> h \<longrightarrow> te_txid r \<in> set (map at_txid (filter (\<lambda>r. at_height r \<noteq> h) (alkane_txs d)))) (trace_events d) \<and>
     list_all (\<lambda>r. dp_height r \<noteq> h \<longrightarrow> dp_txid r \<in> set (map at_txid (filter (\<lambda>r. at_height r \<noteq> h) (alkane_txs d)))) (protostones d) \<and>
     list_all (\<lambda>r. ci_height r \<noteq> h \<longrightarrow> ci_txid r \<in> set (map at_txid (filter (\<lambda>r. at_height r \<noteq> h) (alkane_txs d)))) (clock_ins d) \<and>
     d' = without_height h d"
  unfolding purge_block_def delete_height_def delete_transactions_def
  by (simp add: db_simps trace_event_ok_def clock_in_ok_def without_height_def list_all_iff)
    (auto simp: without_height_def)

lemma keeps_purge_block: "keeps schema_ok (purge_block h)"
proof (rule keepsI)
  fix d x d'
  assume ok: "schema_ok d" and "purge_block h d = Inr (x, d')"
  then have run: "purge_block h d = Inr ((), d')" by simp
  then have d': "d' = without_height h d" by (simp add: purge_block_Inr)
  from run ok show "schema_ok d'"
    unfolding purge_block_Inr
    by (simp add: d' without_height_def schema_ok_def constraint_defs list_all_iff distinct_map_filter)
qed

text \<open>
  C16: purging a height succeeds exactly when no trace event, protostone or clock-in of another
  height refers to a transaction of this height; then exactly the rows of the height are gone from
  the thirteen tables that have a height, in particular its marker, the pools and the progress key
  are untouched, and the constraints hold.
\<close>

theorem purge_block_effect:
  assumes "schema_ok d"
  shows "(purge_block h d = Inr ((), d') \<longleftrightarrow> only_own_rows h d \<and> d' = without_height h d) \<and>
    (purge_block h d = Inr ((), d') \<longrightarrow> schema_ok d')"
proof -
  have tx: "distinct (map at_txid (alkane_txs d))"
    and te: "\<forall>r\<in>set (trace_events d). te_txid r \<in> set (map at_txid (alkane_txs d))"
    and dp: "\<forall>r\<in>set (protostones d). dp_txid r \<in> set (map at_txid (alkane_txs d))"
    and ci: "\<forall>r\<in>set (clock_ins d). ci_txid r \<in> set (map at_txid (alkane_txs d))"
    using assms by (simp_all add: schema_ok_def constraint_defs list_all_iff)
  note rest = rest_of_keyed [OF tx, where P = "\<lambda>r. at_height r = h"]
  have iff: "purge_block h d = Inr ((), d') \<longleftrightarrow> only_own_rows h d \<and> d' = without_height h d"
    using rest [OF te, of "\<lambda>r. te_height r = h"] rest [OF dp, of "\<lambda>r. dp_height r = h"]
      rest [OF ci, of "\<lambda>r. ci_height r = h"]
    by (simp add: purge_block_Inr only_own_rows_def list_all_iff Let_def)
  with keepsD [OF keeps_purge_block assms] show ?thesis by blast
qed

definition example_indexed :: db where
  "example_indexed = empty_db
     \<lparr>alkane_txs := [\<lparr>at_txid = ''t'', at_height = 5, at_index = 0, at_has_trace = True, at_succeed = True, at_data = JNull\<rparr>],
      trace_events := [\<lparr>te_txid = ''t'', te_height = 5, te_vout = 4, te_type = ''invoke'', te_data = JNull,
        te_block = ''2'', te_tx = ''0''\<rparr>]\<rparr>"

lemma purge_block_effect_witness:
  "\<exists>d'. purge_block 5 example_indexed = Inr ((), d') \<and> trace_events d' = [] \<and> schema_ok d'"
proof -
  have "schema_ok example_indexed"
    by (simp add: schema_ok_def constraint_defs example_indexed_def empty_db_def)
  moreover have "only_own_rows 5 example_indexed"
    by (simp add: only_own_rows_def example_indexed_def empty_db_def Let_def)
  ultimately have "purge_block 5 example_indexed = Inr ((), without_height 5 example_indexed) \<and>
      schema_ok (without_height 5 example_indexed)"
    using purge_block_effect [of example_indexed 5 "without_height 5 example_indexed"] by blast
  then show ?thesis by (simp add: without_height_def example_indexed_def empty_db_def)
qed

subsection \<open>The swaps tool\<close>

text \<open>What is neither the stored traces nor the swaps.\<close>

definition other_tables :: "db \<Rightarrow>
    (processed_block list \<times> (string \<times> string) list \<times> pool_row list) \<times>
    creation_row list \<times> liquidity_row list \<times> liquidity_row list \<times> frost_row list \<times> frost_row list" where
  "other_tables d =
     (block_marks d, pool_creations d, pool_mints d, pool_burns d, subfrost_wraps d, subfrost_unwraps d)"

lemma keeps_other_tables:
  "keeps (\<lambda>d. other_tables d = m) (store_block_stm height results)"
  "keeps (\<lambda>d. other_tables d = m) (replace_pool_swaps txids swaps)"
  unfolding store_block_stm_def Let_def upsert_alkane_transactions_def replace_decoded_protostones_def replace_defs
  by (intro keeps_seq keeps_delete_by_txid keeps_insert_chunked keeps_on_conflict keeps_checked keeps_update;
      simp add: other_tables_def)+

lemma preserves_other_tables_swaps_tool: "preserves (\<lambda>w. other_tables (sdb w) = m) (swaps_tool height)"
proof -
  have fetch: "preserves (\<lambda>w. other_tables (sdb w) = m) a" if "leaves sdb a" for a :: "'a wact"
    using that by (rule preserves_leaves)
  note fetches = leaves_fetch_block(1-3) [THEN fetch] leaves_decode_and_trace(1) [THEN fetch]
    leaves_get [THEN fetch] leaves_return [THEN fetch]
  have swaps: "preserves (\<lambda>w. other_tables (sdb w) = m) (index_pool_swaps_for_block h inputs)" for h inputs
    unfolding index_pool_swaps_for_block_def Let_def
    by (intro preserves_bind preserves_when preserves_exec preserves_with_block_data keeps_other_tables)
  have rest: "preserves (\<lambda>w. other_tables (sdb w) = m) (if txs = [] then act_return () else
      act_bind (decode_and_trace_for_block txs) (\<lambda>results.
      act_bind (exec (store_block_stm (ucast height) results)) (\<lambda>_.
      act_bind (act_get lib) (\<lambda>l. index_pool_swaps_for_block (ucast height) (indexer_inputs l results)))))" for txs
    by (cases "txs = []") (auto intro!: preserves_bind preserves_exec keeps_other_tables swaps intro: fetches)
  show ?thesis
    unfolding swaps_tool_def Let_def by (intro preserves_bind rest) (rule fetches)+
qed

text \<open>
  The \<open>swaps\<close> tool only re-indexes the swaps of a block: it never writes creations, mints,
  burns, wraps or unwraps, marks no block, records no progress and publishes nothing, whether it
  succeeds or not.
\<close>

theorem swaps_tool_writes_swaps_only:
  "other_tables (sdb (snd (swaps_tool height w))) = other_tables (sdb w) \<and>
   published (snd (swaps_tool height w)) = published w"
proof
  show "other_tables (sdb (snd (swaps_tool height w))) = other_tables (sdb w)"
    using preserves_other_tables_swaps_tool [of "other_tables (sdb w)" height] by (auto simp: preserves_def)
  have "leaves published (swaps_tool height)"
    unfolding swaps_tool_def Let_def index_pool_swaps_for_block_def
    by (intro leaves_bind leaves_if leaves_return leaves_when leaves_get leaves_published_exec
        leaves_published_indexers leaves_fetch_block leaves_decode_and_trace)
  then show "published (snd (swaps_tool height w)) = published w" by (simp add: leaves_def)
qed

subsection \<open>The constraints\<close>

text \<open>The tools keep the keys and the references of the tables, whatever their outcome.\<close>

lemma tools_keep_schema:
  "preserves (\<lambda>w. schema_ok (sdb w)) (reset_progress height)"
  "preserves (\<lambda>w. schema_ok (sdb w)) (exec (purge_block h))"
  "preserves (\<lambda>w. schema_ok (sdb w)) (swaps_tool height)"
  "preserves (\<lambda>w. schema_ok (sdb w)) (reprocess height)"
proof -
  have "keeps schema_ok clear_progress"
    unfolding clear_progress_def
    by (rule keeps_update) (simp add: schema_ok_def constraint_defs distinct_map_filter)
  then show "preserves (\<lambda>w. schema_ok (sdb w)) (reset_progress height)"
    unfolding reset_progress_def ensure_kv_table_def
    by (auto intro!: preserves_bind preserves_exec keeps_return keeps_set_last_processed_height)
  show "preserves (\<lambda>w. schema_ok (sdb w)) (exec (purge_block h))"
    by (intro preserves_exec keeps_purge_block)
  show "preserves (\<lambda>w. schema_ok (sdb w)) (reprocess height)"
    unfolding reprocess_def by (rule preserves_process_block)
  note fetch = preserves_leaves [where g = sdb and P = schema_ok]
  note fetches = leaves_fetch_block(1-3) [THEN fetch] leaves_decode_and_trace(1) [THEN fetch]
    leaves_get [THEN fetch] leaves_return [THEN fetch]
  have "preserves (\<lambda>w. schema_ok (sdb w)) (if txs = [] then act_return () else
      act_bind (decode_and_trace_for_block txs) (\<lambda>results.
      act_bind (exec (store_block_stm (ucast height) results)) (\<lambda>_.
      act_bind (act_get lib) (\<lambda>l. index_pool_swaps_for_block (ucast height) (indexer_inputs l results)))))" for txs
    by (cases "txs = []")
      (auto intro!: preserves_bind preserves_exec keeps_store_block preserves_index_pool_swaps intro: fetches)
  then show "preserves (\<lambda>w. schema_ok (sdb w)) (swaps_tool height)"
    unfolding swaps_tool_def Let_def by (intro preserves_bind) (rule fetches)+
qed

end
