(* ===== verification/Schema.thy ===== *)
theory Schema
  imports Prelude "HOL-Library.AList"
begin

text \<open>
  \<open>src/schema.rs\<close>: the schema as the list of its statements, each with the table it is about, the
  columns it names and the columns it refers to, and the batches that \<open>dbctl push\<close>, \<open>dbctl drop\<close>
  and \<open>dbctl reset\<close> run.  The catalog of the database is the list of its tables with their
  columns.  Types, defaults, names of indexes and storage parameters are left out, and so is the
  data: a \<open>create unique index\<close> is taken not to find duplicates.  What the tables hold is the
  record \<open>db\<close> of the theory \<open>Tables\<close>.
\<close>

subsection \<open>Definitions\<close>

datatype ddl =
    Create_extension string
  | Create_table string "string list" "(string \<times> string list) list"
  | Create_index string "string list"
  | Alter_column string string
  | Set_options string
  | Add_column string string
  | Drop_table string

type_synonym catalog = "(string \<times> string list) list"

definition has_columns :: "catalog \<Rightarrow> string \<Rightarrow> string list \<Rightarrow> bool" where
  "has_columns c t ks = (case map_of c t of None \<Rightarrow> False | Some cols \<Rightarrow> list_all (\<lambda>k. k \<in> set cols) ks)"

definition with_column :: "string \<Rightarrow> string \<Rightarrow> catalog \<Rightarrow> catalog" where
  "with_column t k c = (if has_columns c t [k] then c else AList.update t (unwrap_or [] (map_of c t) @ [k]) c)"

definition ddl_check :: "bool \<Rightarrow> catalog \<Rightarrow> catalog res" where
  "ddl_check ok c = (if ok then Inr c else Inl (anyhow ''does not exist''))"

fun run_ddl :: "ddl \<Rightarrow> catalog \<Rightarrow> catalog res" where
  "run_ddl (Create_extension e) c = Inr c"
| "run_ddl (Create_table t cols refs) c =
     (if map_of c t \<noteq> None then Inr c
      else ddl_check (list_all (\<lambda>(r, ks). has_columns c r ks) refs) (AList.update t cols c))"
| "run_ddl (Create_index t ks) c = ddl_check (has_columns c t ks) c"
| "run_ddl (Alter_column t k) c = ddl_check (has_columns c t [k]) c"
| "run_ddl (Set_options t) c = ddl_check (has_columns c t []) c"
| "run_ddl (Add_column t k) c =
     ddl_check (has_columns c t []) (with_column t k c)"
| "run_ddl (Drop_table t) c = Inr (AList.delete t c)"

text \<open>The statements of a batch run one by one, without a transaction: the first that fails ends the
  batch, and what ran before it stays.\<close>

fun execute_batch :: "ddl list \<Rightarrow> catalog \<Rightarrow> unit res \<times> catalog" where
  "execute_batch [] c = (Inr (), c)"
| "execute_batch (s # ss) c =
     (case run_ddl s c of Inl e \<Rightarrow> (Inl e, c) | Inr c' \<Rightarrow> execute_batch ss c')"

definition ddl_transactions :: "ddl list" where
  "ddl_transactions =
    [Create_extension ''pgcrypto'',
     Create_table ''AlkaneTransaction''
      [''transactionId'', ''blockHeight'', ''transactionIndex'', ''hasTrace'', ''traceSucceed'',
       ''transactionData'', ''createdAt'', ''updatedAt'']
      [],
     Create_index ''AlkaneTransaction'' [''blockHeight'', ''transactionIndex''],
     Create_index ''AlkaneTransaction'' [''blockHeight''],
     Alter_column ''AlkaneTransaction'' ''transactionData'',
     Create_table ''TraceEvent''
      [''id'', ''transactionId'', ''vout'', ''blockHeight'', ''alkaneAddressBlock'', ''alkaneAddressTx'',
       ''eventType'', ''data'', ''createdAt'', ''updatedAt'']
      [(''AlkaneTransaction'', [''transactionId''])],
     Create_index ''TraceEvent'' [''transactionId''],
     Create_index ''TraceEvent'' [''eventType''],
     Create_index ''TraceEvent'' [''blockHeight''],
     Create_index ''TraceEvent'' [''blockHeight'', ''eventType''],
     Set_options ''TraceEvent'',
     Alter_column ''TraceEvent'' ''data'',
     Create_table ''DecodedProtostone''
      [''transactionId'', ''vout'', ''protostoneIndex'', ''blockHeight'', ''decoded'', ''createdAt'',
       ''updatedAt'']
      [(''AlkaneTransaction'', [''transactionId''])],
     Create_index ''DecodedProtostone'' [''blockHeight''],
     Set_options ''DecodedProtostone'',
     Alter_column ''DecodedProtostone'' ''decoded'']"

definition ddl_clock_ins :: "ddl list" where
  "ddl_clock_ins =
    [Create_table ''ClockIn''
      [''id'', ''transactionId'', ''blockHeight'', ''transactionIndex'', ''userAddress'', ''timestamp'',
       ''oylPayment'', ''paymentVout'', ''paymentAmount'', ''createdAt'', ''updatedAt'']
      [(''AlkaneTransaction'', [''transactionId''])],
     Create_index ''ClockIn'' [''transactionId''],
     Create_index ''ClockIn'' [''blockHeight''],
     Create_index ''ClockIn'' [''userAddress''],
     Create_index ''ClockIn'' [''blockHeight'', ''transactionIndex''],
     Create_table ''ProcessedBlocks''
      [''blockHeight'', ''blockHash'', ''timestamp'', ''isProcessing'', ''createdAt'']
      [],
     Create_index ''ProcessedBlocks'' [''blockHash''],
     Create_table ''ClockInBlockSummary''
      [''id'', ''blockHeight'', ''timestamp'', ''totalClockIns'', ''uniqueUsers'', ''isEligibleBlock'',
       ''createdAt'', ''updatedAt'']
      [],
     Create_index ''ClockInBlockSummary'' [''blockHeight''],
     Create_table ''ClockInSummary''
      [''userAddress'', ''currentStreak'', ''maxStreak'', ''totalCount'', ''lastClockInBlock'',
       ''lastClockInTimestamp'', ''firstClockInBlock'', ''firstClockInTimestamp'', ''empCount'',
       ''vstrCount'', ''empCurrentStreak'', ''vstrCurrentStreak'', ''empMaxStreak'', ''vstrMaxStreak'',
       ''empNumber'', ''vstrNumber'', ''updatedAt'']
      [],
     Create_index ''ClockInSummary'' [''totalCount''],
     Create_index ''ClockInSummary'' [''currentStreak''],
     Create_index ''ClockInSummary'' [''maxStreak''],
     Create_index ''ClockInSummary'' [''empCount''],
     Create_index ''ClockInSummary'' [''vstrCount''],
     Create_index ''ClockInSummary'' [''empCurrentStreak''],
     Create_index ''ClockInSummary'' [''vstrCurrentStreak''],
     Create_index ''ClockInSummary'' [''empNumber''],
     Create_index ''ClockInSummary'' [''vstrNumber''],
     Create_index ''ClockInSummary'' [''lastClockInTimestamp'']]"

definition ddl_pools :: "ddl list" where
  "ddl_pools =
    [Create_table ''CorpData''
      [''id'', ''empCount'', ''vstrCount'', ''createdAt'', ''updatedAt'']
      [],
     Create_table ''Profile''
      [''id'', ''createdAt'', ''updatedAt'', ''userAddress'', ''twitterAvatarUrl'', ''twitterUsername'']
      [],
     Create_index ''Profile'' [''userAddress''],
     Create_table ''Pool''
      [''id'', ''factoryBlockId'', ''factoryTxId'', ''poolBlockId'', ''poolTxId'', ''token0BlockId'',
       ''token0TxId'', ''token1BlockId'', ''token1TxId'', ''poolName'', ''createdAt'', ''updatedAt'']
      [],
     Create_index ''Pool'' [''factoryBlockId'', ''factoryTxId''],
     Create_index ''Pool'' [''token0BlockId'', ''token0TxId'', ''token1BlockId'', ''token1TxId''],
     Create_index ''Pool'' [''token1BlockId'', ''token1TxId'', ''token0BlockId'', ''token0TxId''],
     Create_table ''PoolState''
      [''id'', ''poolId'', ''blockHeight'', ''token0Amount'', ''token1Amount'', ''tokenSupply'',
       ''createdAt'']
      [(''Pool'', [''id''])],
     Create_index ''PoolState'' [''poolId''],
     Create_index ''PoolState'' [''blockHeight'']]"

definition ddl_creations :: "ddl list" where
  "ddl_creations =
    [Create_table ''PoolCreation''
      [''id'', ''transactionId'', ''blockHeight'', ''transactionIndex'', ''poolBlockId'', ''poolTxId'',
       ''token0BlockId'', ''token0TxId'', ''token1BlockId'', ''token1TxId'', ''token0Amount'',
       ''token1Amount'', ''tokenSupply'', ''creatorAddress'', ''successful'', ''timestamp'',
       ''createdAt'', ''updatedAt'']
      [(''Pool'', [''poolBlockId'', ''poolTxId''])],
     Create_index ''PoolCreation'' [''poolBlockId'', ''poolTxId''],
     Create_index ''PoolCreation'' [''transactionId''],
     Create_index ''PoolCreation'' [''blockHeight''],
     Create_index ''PoolCreation'' [''poolBlockId'', ''poolTxId''],
     Create_index ''PoolCreation'' [''blockHeight'', ''transactionIndex''],
     Create_index ''PoolCreation'' [''successful'', ''blockHeight'', ''transactionIndex''],
     Create_index ''PoolCreation'' [''poolBlockId'', ''poolTxId'', ''timestamp''],
     Create_index ''PoolCreation'' [''creatorAddress'', ''timestamp''],
     Create_index ''PoolCreation'' [''creatorAddress'', ''poolBlockId'', ''poolTxId'', ''timestamp''],
     Create_index ''PoolCreation'' [''timestamp'']]"

definition ddl_swaps :: "ddl list" where
  "ddl_swaps =
    [Create_table ''PoolSwap''
      [''id'', ''transactionId'', ''blockHeight'', ''transactionIndex'', ''poolBlockId'', ''poolTxId'',
       ''soldTokenBlockId'', ''soldTokenTxId'', ''boughtTokenBlockId'', ''boughtTokenTxId'',
       ''soldAmount'', ''boughtAmount'', ''sellerAddress'', ''successful'', ''timestamp'', ''createdAt'',
       ''updatedAt'']
      [],
     Create_index ''PoolSwap'' [''transactionId''],
     Create_index ''PoolSwap'' [''blockHeight''],
     Create_index ''PoolSwap'' [''poolBlockId'', ''poolTxId''],
     Create_index ''PoolSwap'' [''blockHeight'', ''transactionIndex''],
     Create_index ''PoolSwap'' [''successful'', ''blockHeight'', ''transactionIndex''],
     Create_index ''PoolSwap'' [''poolBlockId'', ''poolTxId'', ''timestamp''],
     Create_index ''PoolSwap'' [''soldTokenBlockId'', ''soldTokenTxId'', ''timestamp''],
     Create_index ''PoolSwap'' [''boughtTokenBlockId'', ''boughtTokenTxId'', ''timestamp''],
     Create_index ''PoolSwap'' [''sellerAddress'', ''timestamp''],
     Create_index ''PoolSwap'' [''sellerAddress'', ''poolBlockId'', ''poolTxId'', ''timestamp''],
     Create_index ''PoolSwap'' [''sellerAddress'', ''soldTokenBlockId'', ''soldTokenTxId'', ''timestamp''],
     Create_index ''PoolSwap'' [''sellerAddress'', ''boughtTokenBlockId'', ''boughtTokenTxId'',
      ''timestamp''],
     Create_index ''PoolSwap'' [''timestamp'']]"

definition ddl_burns :: "ddl list" where
  "ddl_burns =
    [Create_table ''PoolBurn''
      [''id'', ''transactionId'', ''blockHeight'', ''transactionIndex'', ''poolBlockId'', ''poolTxId'',
       ''lpTokenAmount'', ''token0BlockId'', ''token0TxId'', ''token1BlockId'', ''token1TxId'',
       ''token0Amount'', ''token1Amount'', ''burnerAddress'', ''successful'', ''timestamp'',
       ''createdAt'', ''updatedAt'']
      [],
     Create_index ''PoolBurn'' [''transactionId''],
     Create_index ''PoolBurn'' [''blockHeight''],
     Create_index ''PoolBurn'' [''poolBlockId'', ''poolTxId''],
     Create_index ''PoolBurn'' [''blockHeight'', ''transactionIndex''],
     Create_index ''PoolBurn'' [''successful'', ''blockHeight'', ''transactionIndex''],
     Create_index ''PoolBurn'' [''poolBlockId'', ''poolTxId'', ''timestamp''],
     Create_index ''PoolBurn'' [''burnerAddress'', ''timestamp''],
     Create_index ''PoolBurn'' [''burnerAddress'', ''poolBlockId'', ''poolTxId'', ''timestamp''],
     Create_index ''PoolBurn'' [''timestamp'']]"

definition ddl_mints :: "ddl list" where
  "ddl_mints =
    [Create_table ''PoolMint''
      [''id'', ''transactionId'', ''blockHeight'', ''transactionIndex'', ''poolBlockId'', ''poolTxId'',
       ''lpTokenAmount'', ''token0BlockId'', ''token0TxId'', ''token1BlockId'', ''token1TxId'',
       ''token0Amount'', ''token1Amount'', ''minterAddress'', ''successful'', ''timestamp'',
       ''createdAt'', ''updatedAt'']
      [],
     Create_index ''PoolMint'' [''transactionId''],
     Create_index ''PoolMint'' [''blockHeight''],
     Create_index ''PoolMint'' [''poolBlockId'', ''poolTxId''],
     Create_index ''PoolMint'' [''blockHeight'', ''transactionIndex''],
     Create_index ''PoolMint'' [''successful'', ''blockHeight'', ''transactionIndex''],
     Create_index ''PoolMint'' [''poolBlockId'', ''poolTxId'', ''timestamp''],
     Create_index ''PoolMint'' [''minterAddress'', ''timestamp''],
     Create_index ''PoolMint'' [''minterAddress'', ''poolBlockId'', ''poolTxId'', ''timestamp''],
     Create_index ''PoolMint'' [''timestamp'']]"

definition ddl_subfrost :: "ddl list" where
  "ddl_subfrost =
    [Create_table ''CuratedPools''
      [''id'', ''factoryId'', ''poolIds'', ''createdAt'', ''updatedAt'']
      [],
     Create_table ''SubfrostWrap''
      [''id'', ''transactionId'', ''blockHeight'', ''transactionIndex'', ''address'', ''amount'',
       ''successful'', ''timestamp'', ''createdAt'', ''updatedAt'']
      [],
     Create_index ''SubfrostWrap'' [''transactionId''],
     Create_index ''SubfrostWrap'' [''blockHeight''],
     Create_index ''SubfrostWrap'' [''address'', ''timestamp''],
     Create_index ''SubfrostWrap'' [''blockHeight'', ''transactionIndex''],
     Create_index ''SubfrostWrap'' [''successful'', ''blockHeight'', ''transactionIndex''],
     Create_index ''SubfrostWrap'' [''timestamp''],
     Create_table ''SubfrostUnwrap''
      [''id'', ''transactionId'', ''blockHeight'', ''transactionIndex'', ''address'', ''amount'',
       ''successful'', ''timestamp'', ''createdAt'', ''updatedAt'']
      [],
     Create_index ''SubfrostUnwrap'' [''transactionId''],
     Create_index ''SubfrostUnwrap'' [''blockHeight''],
     Create_index ''SubfrostUnwrap'' [''address'', ''timestamp''],
     Create_index ''SubfrostUnwrap'' [''blockHeight'', ''transactionIndex''],
     Create_index ''SubfrostUnwrap'' [''successful'', ''blockHeight'', ''transactionIndex''],
     Create_index ''SubfrostUnwrap'' [''timestamp'']]"

definition ddl_progress :: "ddl list" where
  "ddl_progress =
    [Create_table ''kv_store''
      [''key'', ''value'']
      []]"

definition ddl_backfill :: "ddl list" where
  "ddl_backfill =
    [Add_column ''PoolCreation'' ''successful'',
     Add_column ''PoolSwap'' ''successful'',
     Add_column ''PoolBurn'' ''successful'',
     Add_column ''PoolMint'' ''successful'']"

definition schema_ddl :: "ddl list" where
  "schema_ddl =
     ddl_transactions @ ddl_clock_ins @ ddl_pools @ ddl_creations @ ddl_swaps @ ddl_burns @ ddl_mints @
      ddl_subfrost @ ddl_progress @ ddl_backfill"

definition drop_all :: "ddl list" where
  "drop_all = map Drop_table
    [''PoolMint'', ''PoolBurn'', ''PoolSwap'', ''PoolCreation'', ''PoolState'',
     ''Pool'', ''Profile'', ''CorpData'', ''ClockInSummary'', ''ClockInBlockSummary'',
     ''ProcessedBlocks'', ''ClockIn'', ''TraceEvent'', ''DecodedProtostone'', ''AlkaneTransaction'',
     ''CuratedPools'', ''SubfrostUnwrap'', ''SubfrostWrap'', ''kv_store'']"

definition push_schema :: "catalog \<Rightarrow> unit res \<times> catalog" where
  "push_schema = execute_batch schema_ddl"

definition drop_all_tables :: "catalog \<Rightarrow> unit res \<times> catalog" where
  "drop_all_tables = execute_batch drop_all"

definition reset_schema :: "catalog \<Rightarrow> unit res \<times> catalog" where
  "reset_schema c = (case drop_all_tables c of (Inl e, c') \<Rightarrow> (Inl e, c') | (Inr _, c') \<Rightarrow> push_schema c')"

subsection \<open>The tables a batch declares\<close>

definition declared :: "ddl list \<Rightarrow> catalog" where
  "declared ss = List.map_filter (\<lambda>s. case s of Create_table t cols _ \<Rightarrow> Some (t, cols) | _ \<Rightarrow> None) ss"

lemma fresh_push: "push_schema [] = (Inr (), declared schema_ddl)"
  by code_simp

lemma declared_distinct: "distinct (map fst (declared schema_ddl))"
  by code_simp

lemma drop_all_declared: "set (map fst (declared schema_ddl)) = set (map (\<lambda>s. case s of Drop_table t \<Rightarrow> t | _ \<Rightarrow> []) drop_all)"
  by code_simp

subsection \<open>Batches\<close>

lemma execute_batch_append:
  "execute_batch (xs @ ys) c =
     (case execute_batch xs c of (Inl e, c') \<Rightarrow> (Inl e, c') | (Inr _, c') \<Rightarrow> execute_batch ys c')"
  by (induction xs arbitrary: c) (auto split: sum.split prod.split)

lemma ddl_check_Inr: "ddl_check ok c = Inr c' \<longleftrightarrow> ok \<and> c' = c"
  by (auto simp: ddl_check_def)

text \<open>The statements that leave a table that exists as it is.\<close>

fun spares :: "string \<Rightarrow> ddl \<Rightarrow> bool" where
  "spares t (Add_column t' k) \<longleftrightarrow> t' \<noteq> t"
| "spares t (Drop_table t') \<longleftrightarrow> t' \<noteq> t"
| "spares t _ \<longleftrightarrow> True"

lemma spared_step: "run_ddl s c = Inr c' \<Longrightarrow> spares t s \<Longrightarrow> map_of c t = Some cols \<Longrightarrow> map_of c' t = Some cols"
  by (cases s) (auto simp: ddl_check_Inr update_conv' delete_conv' with_column_def split: if_splits)

lemma spared:
  "execute_batch ss c = (r, c') \<Longrightarrow> list_all (spares t) ss \<Longrightarrow> map_of c t = Some cols \<Longrightarrow> map_of c' t = Some cols"
  by (induction ss arbitrary: c) (auto split: sum.splits dest: spared_step)

subsection \<open>Pushing onto an existing database\<close>

text \<open>The catalog has the tables of another one with at least their columns.\<close>

definition covers :: "catalog \<Rightarrow> catalog \<Rightarrow> bool" where
  "covers c decl \<longleftrightarrow> (\<forall>t cols. map_of decl t = Some cols \<longrightarrow> has_columns c t cols)"

text \<open>A table that a batch declares and that is already there has the declared columns.\<close>

definition compatible :: "catalog \<Rightarrow> ddl list \<Rightarrow> bool" where
  "compatible c ss \<longleftrightarrow> list_all (\<lambda>(t, cols). map_of c t = None \<or> has_columns c t cols) (declared ss)"

lemma covers_columns: "covers c decl \<Longrightarrow> has_columns decl t ks \<Longrightarrow> has_columns c t ks"
  by (fastforce simp: covers_def has_columns_def list_all_iff split: option.splits)

lemma has_columns_update:
  "has_columns (AList.update t cols c) t' ks \<longleftrightarrow> (if t' = t then set ks \<subseteq> set cols else has_columns c t' ks)"
  by (auto simp: has_columns_def update_conv' list_all_iff)

lemma declared_Cons: "declared (Create_table t cols refs # ss) = (t, cols) # declared ss"
  "(\<And>t cols refs. s \<noteq> Create_table t cols refs) \<Longrightarrow> declared (s # ss) = declared ss"
  by (auto simp: declared_def List.map_filter_simps split: ddl.split)

text \<open>Adding a column.\<close>

lemma has_columns_append: "has_columns c t (xs @ ys) \<longleftrightarrow> has_columns c t xs \<and> has_columns c t ys"
  by (auto simp: has_columns_def split: option.split)

lemma with_column_grows: "has_columns c t' ks \<Longrightarrow> has_columns (with_column t k c) t' ks"
  by (auto simp: with_column_def has_columns_update) (auto simp: has_columns_def list_all_iff split: option.splits)

lemma with_column_has: "has_columns (with_column t k c) t [k]"
  by (simp add: with_column_def has_columns_update)

lemma with_column_other: "t' \<noteq> t \<Longrightarrow> map_of (with_column t k c) t' = map_of c t'"
  by (simp add: with_column_def update_conv')

lemma covers_with_column:
  assumes "covers c decl" "has_columns decl t []"
  shows "covers (with_column t k c) (with_column t k decl)"
  unfolding covers_def
proof (intro allI impI)
  fix t' cols
  assume cols: "map_of (with_column t k decl) t' = Some cols"
  show "has_columns (with_column t k c) t' cols"
  proof (cases "map_of decl t' = Some cols")
    case True
    with assms(1) show ?thesis by (auto simp: covers_def intro: with_column_grows)
  next
    case False
    with cols obtain old where old: "t' = t" "map_of decl t = Some old" "cols = old @ [k]"
      using assms(2) by (auto simp: with_column_def update_conv' has_columns_def split: if_splits option.splits)
    from assms(1) old(2) have "has_columns (with_column t k c) t old"
      by (auto simp: covers_def intro: with_column_grows)
    with old with_column_has show ?thesis by (simp add: has_columns_append)
  qed
qed

text \<open>A batch that runs on a catalog runs on every compatible one that covers it.\<close>

lemma push_covers:
  assumes "execute_batch ss decl = (Inr (), decl')" "covers c decl" "compatible c ss"
    and "distinct (map fst (declared ss))" "list_all (\<lambda>s. case s of Drop_table t \<Rightarrow> False | _ \<Rightarrow> True) ss"
    and "\<forall>t\<in>set (map fst (declared ss)). map_of decl t = None"
  shows "\<exists>c'. execute_batch ss c = (Inr (), c') \<and> covers c' decl'"
  using assms
proof (induction ss arbitrary: c decl)
  case (Cons s ss)
  then obtain decl1 where run: "run_ddl s decl = Inr decl1" "execute_batch ss decl1 = (Inr (), decl')"
    by (auto split: sum.splits)
  have "\<exists>c1. run_ddl s c = Inr c1 \<and> covers c1 decl1 \<and> compatible c1 ss \<and>
      (\<forall>t\<in>set (map fst (declared ss)). map_of decl1 t = None)"
  proof (cases s)
    case (Create_table t cols refs)
    have fresh: "map_of decl t = None" "t \<notin> set (map fst (declared ss))"
      using Cons.prems(4,6) by (auto simp: Create_table declared_Cons)
    have refs: "list_all (\<lambda>(r, ks). has_columns c r ks) refs" and decl1: "decl1 = AList.update t cols decl"
      using run(1) fresh(1) covers_columns [OF Cons.prems(2)]
      by (auto simp: Create_table ddl_check_Inr list_all_iff)
    show ?thesis
    proof (cases "map_of c t")
      case None
      then have "run_ddl s c = Inr (AList.update t cols c)"
        using refs by (simp add: Create_table ddl_check_def)
      moreover have "covers (AList.update t cols c) decl1"
        using Cons.prems(2) by (auto simp: covers_def decl1 has_columns_update update_conv')
      moreover have "compatible (AList.update t cols c) ss"
        using Cons.prems(3) fresh(2)
        by (auto simp: Create_table compatible_def declared_Cons list_all_iff has_columns_update update_conv'
            split: prod.splits) (metis fst_conv image_eqI)+
      moreover have "\<forall>t\<in>set (map fst (declared ss)). map_of decl1 t = None"
        using Cons.prems(6) fresh(2) by (auto simp: decl1 Create_table declared_Cons update_conv')
      ultimately show ?thesis by blast
    next
      case (Some old)
      then have "run_ddl s c = Inr c" by (simp add: Create_table)
      moreover have "covers c decl1"
        using Cons.prems(2,3) Some by (auto simp: covers_def decl1 Create_table compatible_def declared_Cons update_conv')
      moreover have "compatible c ss"
        using Cons.prems(3) by (simp add: Create_table compatible_def declared_Cons)
      moreover have "\<forall>t\<in>set (map fst (declared ss)). map_of decl1 t = None"
        using Cons.prems(6) fresh(2) by (auto simp: decl1 Create_table declared_Cons update_conv')
      ultimately show ?thesis by blast
    qed
  next
    case (Add_column t k)
    from run(1) have t: "has_columns decl t []" and decl1: "decl1 = with_column t k decl"
      by (simp_all add: Add_column ddl_check_Inr)
    have "run_ddl s c = Inr (with_column t k c)"
      using covers_columns [OF Cons.prems(2) t] by (simp add: Add_column ddl_check_def)
    moreover have "covers (with_column t k c) decl1" unfolding decl1 by (rule covers_with_column [OF Cons.prems(2) t])
    moreover have other: "t' \<noteq> t" if "t' \<in> set (map fst (declared ss))" for t'
      using Cons.prems(6) t that by (auto simp: Add_column declared_Cons has_columns_def)
    then have "compatible (with_column t k c) ss"
      using Cons.prems(3)
      by (fastforce simp: Add_column declared_Cons compatible_def list_all_iff with_column_other has_columns_def)
    moreover have "\<forall>t\<in>set (map fst (declared ss)). map_of decl1 t = None"
      using Cons.prems(6) other by (auto simp: decl1 Add_column declared_Cons with_column_other)
    ultimately show ?thesis by blast
  qed (use Cons.prems run(1) covers_columns [OF Cons.prems(2)] in
      \<open>auto simp: ddl_check_def compatible_def declared_Cons split: if_splits\<close>)
  with Cons.IH [OF run(2)] Cons.prems(4,5) show ?case
    by (auto simp: declared_def List.map_filter_simps split: ddl.splits)
qed simp

lemma has_columns_Some: "has_columns c t ks \<Longrightarrow> \<exists>cols. map_of c t = Some cols"
  by (auto simp: has_columns_def split: option.splits)

lemma push_grows:
  assumes "execute_batch ss c = (r, c')" "list_all (\<lambda>s. case s of Drop_table t \<Rightarrow> False | _ \<Rightarrow> True) ss" "has_columns c t ks"
  shows "has_columns c' t ks"
  using assms
proof (induction ss arbitrary: c)
  case (Cons s ss)
  have "has_columns c1 t ks" if "run_ddl s c = Inr c1" for c1
    using that Cons.prems(2,3)
    by (cases s) (auto simp: ddl_check_Inr with_column_grows has_columns_update split: if_splits dest: has_columns_Some)
  with Cons show ?case by (auto split: sum.splits)
qed simp

lemma schema_ddl_drops_nothing: "list_all (\<lambda>s. case s of Drop_table t \<Rightarrow> False | _ \<Rightarrow> True) schema_ddl"
  by (simp add: schema_ddl_def ddl_transactions_def ddl_clock_ins_def ddl_pools_def ddl_creations_def
      ddl_swaps_def ddl_burns_def ddl_mints_def ddl_subfrost_def ddl_progress_def ddl_backfill_def)

text \<open>
  Pushing the schema onto any database whose tables, as far as they are declared in the schema
  and already there, have the declared columns, succeeds; afterwards every declared table is
  there with its columns, and nothing that was there is lost.
\<close>

theorem push_schema_complete:
  assumes "compatible c schema_ddl"
  shows "\<exists>c'. push_schema c = (Inr (), c') \<and> list_all (\<lambda>(t, cols). has_columns c' t cols) (declared schema_ddl) \<and>
    (\<forall>t ks. has_columns c t ks \<longrightarrow> has_columns c' t ks)"
proof -
  obtain c' where push: "push_schema c = (Inr (), c')" "covers c' (declared schema_ddl)"
    using push_covers [OF fresh_push [unfolded push_schema_def] _ assms declared_distinct schema_ddl_drops_nothing]
    by (auto simp: push_schema_def covers_def)
  have "list_all (\<lambda>(t, cols). has_columns c' t cols) (declared schema_ddl)"
    using push(2) declared_distinct by (auto simp: covers_def list_all_iff map_of_eq_Some_iff)
  then show ?thesis
    using push push_grows [OF push(1) [unfolded push_schema_def] schema_ddl_drops_nothing] by blast
qed

lemma push_schema_complete_witness:
  "\<exists>c'. push_schema [(''Other'', [''x''])] = (Inr (), c') \<and> has_columns c' ''Other'' [''x'']"
proof -
  have "list_all (\<lambda>(t, _). t \<noteq> ''Other'') (declared schema_ddl)" by code_simp
  then have "compatible [(''Other'', [''x''])] schema_ddl"
    by (auto simp: compatible_def list_all_iff)
  from push_schema_complete [OF this] show ?thesis by (auto simp: has_columns_def)
qed

text \<open>
  The statements that add the column \<open>successful\<close> to tables of older deployments come after
  the indexes on it: pushing onto a database whose \<open>PoolCreation\<close> has no such column fails at the
  index, before the column is added.
\<close>

theorem backfill_comes_too_late:
  assumes "map_of c ''PoolCreation'' = Some cols" "''successful'' \<notin> set cols"
  shows "\<exists>e c'. push_schema c = (Inl e, c') \<and> map_of c' ''PoolCreation'' = Some cols"
proof -
  let ?pre = "ddl_transactions @ ddl_clock_ins @ ddl_pools @ take 6 ddl_creations"
  let ?post = "drop 7 ddl_creations @ ddl_swaps @ ddl_burns @ ddl_mints @ ddl_subfrost @ ddl_progress @ ddl_backfill"
  have split: "schema_ddl = ?pre @ Create_index ''PoolCreation'' [''successful'', ''blockHeight'', ''transactionIndex''] # ?post"
    by (simp add: schema_ddl_def ddl_creations_def)
  have spares: "list_all (spares ''PoolCreation'') ?pre"
    by (simp add: ddl_transactions_def ddl_clock_ins_def ddl_pools_def ddl_creations_def)
  obtain r c1 where pre: "execute_batch ?pre c = (r, c1)" by (rule prod.exhaust)
  from spared [OF pre spares assms(1)] have c1: "map_of c1 ''PoolCreation'' = Some cols" .
  have "\<not> has_columns c1 ''PoolCreation'' [''successful'', ''blockHeight'', ''transactionIndex'']"
    using assms(2) c1 by (simp add: has_columns_def)
  moreover have "push_schema c = (case (r, c1) of (Inl e, c') \<Rightarrow> (Inl e, c')
      | (Inr _, c') \<Rightarrow> execute_batch (Create_index ''PoolCreation'' [''successful'', ''blockHeight'', ''transactionIndex''] # ?post) c')"
    unfolding push_schema_def split pre [symmetric] by (rule execute_batch_append)
  ultimately show ?thesis using c1 by (cases r) (simp_all add: ddl_check_def)
qed

lemma backfill_comes_too_late_witness:
  "\<exists>e c'. push_schema [(''PoolCreation'', [''id'', ''transactionId''])] = (Inl e, c')"
proof -
  have "map_of [(''PoolCreation'', [''id'', ''transactionId''])] ''PoolCreation'' = Some [''id'', ''transactionId'']"
    "''successful'' \<notin> set [''id'', ''transactionId'']" by simp_all
  from backfill_comes_too_late [OF this] show ?thesis by blast
qed

subsection \<open>Resetting the schema\<close>

fun tables_of :: "ddl \<Rightarrow> string list" where
  "tables_of (Create_extension e) = []"
| "tables_of (Create_table t cols refs) = t # map fst refs"
| "tables_of (Create_index t ks) = [t]"
| "tables_of (Alter_column t k) = [t]"
| "tables_of (Set_options t) = [t]"
| "tables_of (Add_column t k) = [t]"
| "tables_of (Drop_table t) = [t]"

text \<open>A batch depends on the tables it names and on no others.\<close>

lemma has_columns_cong: "map_of c t = map_of c' t \<Longrightarrow> has_columns c t ks = has_columns c' t ks"
  by (simp add: has_columns_def)

lemma run_ddl_agrees:
  assumes "run_ddl s d = Inr d1" "set (tables_of s) \<subseteq> T" "\<forall>t\<in>T. map_of c t = map_of d t"
  shows "\<exists>c1. run_ddl s c = Inr c1 \<and> (\<forall>t\<in>T. map_of c1 t = map_of d1 t) \<and> (\<forall>t. t \<notin> T \<longrightarrow> map_of c1 t = map_of c t)"
proof -
  have same: "has_columns c t ks = has_columns d t ks" if "t \<in> T" for t ks
    using assms(3) that by (intro has_columns_cong) blast
  show ?thesis
  proof (cases s)
    case (Create_table t cols refs)
    have refs: "list_all (\<lambda>(r, ks). has_columns c r ks) refs = list_all (\<lambda>(r, ks). has_columns d r ks) refs"
      using same assms(2) by (intro list.pred_cong) (auto simp: Create_table)
    show ?thesis
      using assms by (auto simp: Create_table ddl_check_def refs update_conv' split: if_splits)
  qed (use assms in \<open>auto simp: ddl_check_def same with_column_def update_conv' delete_conv' split: if_splits\<close>)
qed

lemma execute_batch_agrees:
  assumes "execute_batch ss d = (Inr (), d')" "list_all (\<lambda>s. set (tables_of s) \<subseteq> T) ss" "\<forall>t\<in>T. map_of c t = map_of d t"
  shows "\<exists>c'. execute_batch ss c = (Inr (), c') \<and> (\<forall>t\<in>T. map_of c' t = map_of d' t) \<and>
    (\<forall>t. t \<notin> T \<longrightarrow> map_of c' t = map_of c t)"
  using assms
proof (induction ss arbitrary: c d)
  case (Cons s ss)
  from Cons.prems(1) obtain d1 where d1: "run_ddl s d = Inr d1" "execute_batch ss d1 = (Inr (), d')"
    by (auto split: sum.splits)
  obtain c1 where c1: "run_ddl s c = Inr c1" "\<forall>t\<in>T. map_of c1 t = map_of d1 t" "\<forall>t. t \<notin> T \<longrightarrow> map_of c1 t = map_of c t"
    using run_ddl_agrees [OF d1(1) _ Cons.prems(3)] Cons.prems(2) by auto
  from Cons.IH [OF d1(2) _ c1(2)] Cons.prems(2) c1(1,3) show ?case by auto
qed auto

lemma drop_batch:
  "\<exists>c'. execute_batch (map Drop_table ts) c = (Inr (), c') \<and> (\<forall>t. map_of c' t = (if t \<in> set ts then None else map_of c t))"
proof (induction ts arbitrary: c)
  case (Cons t ts)
  from Cons.IH [of "AList.delete t c"] show ?case by (fastforce simp: delete_conv')
qed simp

lemma schema_tables: "list_all (\<lambda>s. set (tables_of s) \<subseteq> set (map fst (declared schema_ddl))) schema_ddl"
proof -
  have "list_all (\<lambda>s. list_all (\<lambda>t. t \<in> set (map fst (declared schema_ddl))) (tables_of s)) schema_ddl"
    by code_simp
  then show ?thesis by (auto simp: list_all_iff)
qed

text \<open>
  Resetting the schema succeeds on any database: afterwards the declared tables have exactly
  the declared columns, all of them anew, and every other table is as it was.
\<close>

theorem reset_schema_exact:
  "\<exists>c'. reset_schema c = (Inr (), c') \<and>
     (\<forall>t. map_of c' t = (case map_of (declared schema_ddl) t of Some cols \<Rightarrow> Some cols | None \<Rightarrow> map_of c t))"
proof -
  let ?T = "set (map fst (declared schema_ddl))"
  obtain ts where ts: "drop_all = map Drop_table ts" unfolding drop_all_def by blast
  have "?T = set ts" using drop_all_declared by (simp add: ts image_image)
  with drop_batch [of ts c] obtain c0 where c0: "drop_all_tables c = (Inr (), c0)"
    "\<forall>t. map_of c0 t = (if t \<in> ?T then None else map_of c t)"
    by (auto simp: drop_all_tables_def ts)
  obtain c' where c': "push_schema c0 = (Inr (), c')" "\<forall>t\<in>?T. map_of c' t = map_of (declared schema_ddl) t"
    "\<forall>t. t \<notin> ?T \<longrightarrow> map_of c' t = map_of c0 t"
    using execute_batch_agrees [OF fresh_push [unfolded push_schema_def] schema_tables, of c0] c0(2)
    by (auto simp: push_schema_def)
  have "map_of c' t = (case map_of (declared schema_ddl) t of Some cols \<Rightarrow> Some cols | None \<Rightarrow> map_of c t)" for t
  proof (cases "t \<in> ?T")
    case True
    then obtain cols where "map_of (declared schema_ddl) t = Some cols"
      by (metis map_of_eq_None_iff not_Some_eq list.set_map)
    with bspec [OF c'(2) True] show ?thesis by simp
  next
    case False
    then have "map_of (declared schema_ddl) t = None" by (simp add: map_of_eq_None_iff)
    with False c'(3) c0(2) show ?thesis by simp
  qed
  with c0(1) c'(1) show ?thesis by (auto simp: reset_schema_def)
qed

end
