(* ===== verification/Inspect.thy ===== *)
theory Inspect
  imports Pipeline
begin

text \<open>
  \<open>src/bin/inspect.rs\<close>: what the \<open>inspect\<close> tool reads of one transaction and how it decodes swaps
  and pool creations again, with its own copies of the indexers' helpers.  The model gives what is
  printed; the readers that are copied unchanged are those of \<open>Token_Amounts\<close>.  Rows of equal
  \<open>vout\<close> and kind are taken in the order in which they are stored.
\<close>

subsection \<open>The copies of the helpers\<close>

definition inspect_delegate :: "u128 \<Rightarrow> json \<Rightarrow> bool" where
  "inspect_delegate opcode ev =
     (case delegate_opcode ev of Some opcode_hex \<Rightarrow> hex_to_u128 opcode_hex = Some opcode | None \<Rightarrow> False)"

text \<open>The strict search reads the ids of the returned alkanes only in their \<open>hi\<close>/\<open>lo\<close> form.\<close>

definition hi_lo_part :: "string \<Rightarrow> json \<Rightarrow> string" where
  "hi_lo_part k i = to_string (unwrap_or 0 (Option.bind (jget k i) u128_from_json))"

definition hi_lo_id :: "json \<Rightarrow> alkane_id" where
  "hi_lo_id i = (hi_lo_part ''block'' i, hi_lo_part ''tx'' i)"

definition inspect_returns_token :: "alkane_id \<Rightarrow> u128 list \<Rightarrow> json \<Rightarrow> bool" where
  "inspect_returns_token expected allowed a =
     (case jget ''id'' a of
        None \<Rightarrow> False
      | Some i \<Rightarrow>
          hi_lo_id i = expected \<and>
          (allowed = [] \<or>
           (case Option.bind (jget ''value'' a) value_u128_from_json of
              Some v \<Rightarrow> list_ex (\<lambda>x. x = v) allowed | None \<Rightarrow> False)))"

definition inspect_find_strict ::
  "nat \<Rightarrow> json list \<Rightarrow> i64 \<Rightarrow> alkane_id \<Rightarrow> u128 list \<Rightarrow> json option" where
  "inspect_find_strict invoke_idx events vout expected allowed =
     find (\<lambda>ev. is_return_on vout ev \<and> list_ex (inspect_returns_token expected allowed) (returned_alkanes ev))
       (drop (Suc invoke_idx) events)"

definition fetch_pool_tokens :: "alkane_id \<Rightarrow> (alkane_id \<times> alkane_id) option stm" where
  "fetch_pool_tokens pool =
     query (\<lambda>d. map_option (\<lambda>r. (pl_token0 r, pl_token1 r)) (find (\<lambda>r. pl_pool r = pool) (pools d)))"

subsection \<open>Decoding swaps\<close>

text \<open>\<open>(pool, sold, bought, sold amount, bought amount)\<close> as it is printed.\<close>

type_synonym printed_swap = "alkane_id \<times> alkane_id \<times> alkane_id \<times> u128 \<times> u128"

definition inspect_swap_of :: "json list \<Rightarrow> nat \<Rightarrow> json \<Rightarrow> alkane_id \<Rightarrow> alkane_id \<Rightarrow> printed_swap option" where
  "inspect_swap_of events i ev token0 token1 =
     (let incoming = incoming_alkanes ev;
          has_t0 = 0 < token_total incoming token0;
          has_t1 = 0 < token_total incoming token1
      in if \<not> has_t0 \<and> \<not> has_t1 then None
         else case (case inspect_find_strict i events (invoke_vout ev) (if has_t0 then token1 else token0) (desired_amounts ev) of
               Some r \<Rightarrow> Some r | None \<Rightarrow> find_matching_return i events (invoke_vout ev)) of
             None \<Rightarrow> None
           | Some ret \<Rightarrow>
               (case swap_sides incoming (returned_alkanes ret) token0 token1 of
                  (sold, bought, sold_amt, bought_amt) \<Rightarrow>
                    if sold_amt = 0 \<or> bought_amt = 0 then None
                    else Some (event_pool ev, sold, bought, sold_amt, bought_amt)))"

definition simulate_swap_at :: "json list \<Rightarrow> nat \<times> json \<Rightarrow> printed_swap option wact" where
  "simulate_swap_at events iev =
     (case iev of (i, ev) \<Rightarrow>
      if \<not> inspect_delegate 3 ev \<or> no_pool (event_pool ev) then act_return None
      else act_bind (exec (fetch_pool_tokens (event_pool ev))) (\<lambda>tokens.
        act_return (case tokens of None \<Rightarrow> None | Some (token0, token1) \<Rightarrow> inspect_swap_of events i ev token0 token1)))"

definition simulate_pool_swaps :: "json list \<Rightarrow> printed_swap list wact" where
  "simulate_pool_swaps events =
     act_bind (act_map (simulate_swap_at events) (enumerate 0 events)) (\<lambda>found.
       act_return (List.map_filter id found))"

subsection \<open>Decoding pool creations\<close>

definition inspect_last_success_return :: "nat \<Rightarrow> json list \<Rightarrow> i64 \<Rightarrow> alkane_id \<Rightarrow> u128 \<Rightarrow> json option" where
  "inspect_last_success_return invoke_idx events vout lp incoming_lp =
     fold (\<lambda>ev candidate.
         if is_return_on vout ev \<and> jstr [''data'', ''status''] ev = Some ''success'' \<and>
            incoming_lp < token_total (returned_alkanes ev) lp
         then Some ev else candidate)
       (drop (Suc invoke_idx) events) None"

definition simulate_creation_at :: "json list \<Rightarrow> nat \<times> json \<Rightarrow> decoded_creation option" where
  "simulate_creation_at events iev =
     (case iev of (i, ev) \<Rightarrow>
      if \<not> is_event ''invoke'' ev \<or> \<not> inspect_delegate 0 ev \<or> no_pool (event_pool ev) then None
      else let pool = event_pool ev; incoming = incoming_alkanes ev in
        (case push_non_lp_ids pool incoming [] of
           token0 # token1 # _ \<Rightarrow>
             (case inspect_last_success_return i events (invoke_vout ev) pool (token_total incoming pool) of
                None \<Rightarrow> None
              | Some ret \<Rightarrow> net_creation pool token0 token1 incoming (returned_alkanes ret))
         | _ \<Rightarrow> None))"

definition simulate_pool_creations :: "json list \<Rightarrow> decoded_creation list" where
  "simulate_pool_creations events = List.map_filter (simulate_creation_at events) (enumerate 0 events)"

subsection \<open>One transaction\<close>

definition stored_event_json :: "trace_event \<Rightarrow> json" where
  "stored_event_json r =
     JObj [(''vout'', json_of_i32 (te_vout r)), (''eventType'', JStr (te_type r)), (''data'', te_data r),
           (''alkaneAddressBlock'', JStr (te_block r)), (''alkaneAddressTx'', JStr (te_tx r))]"

text \<open>\<open>order by "vout", case when "eventType" = 'invoke' then 0 when 'return' then 1 else 2 end\<close>\<close>

definition inspect_events :: "string \<Rightarrow> db \<Rightarrow> json list" where
  "inspect_events txid d =
     map stored_event_json
       (sort_key (\<lambda>r. (sint (te_vout r), if te_type r = ''invoke'' then 0 else if te_type r = ''return'' then 1 else (2::nat)))
         (filter (\<lambda>r. te_txid r = txid) (trace_events d)))"

record inspection =
  in_tx :: "alkane_tx option"
  in_protostones :: "protostone list"
  in_swaps :: "swap_row list"
  in_creations :: "creation_row list"
  in_decoded_swaps :: "printed_swap list"
  in_decoded_creations :: "decoded_creation list"

definition inspect_tx :: "string \<Rightarrow> inspection wact" where
  "inspect_tx txid =
     act_bind (exec (query (\<lambda>d. find (\<lambda>r. at_txid r = txid) (alkane_txs d)))) (\<lambda>tx.
     act_bind (exec (query (\<lambda>d. sort_key (\<lambda>r. (sint (dp_vout r), sint (dp_index r)))
        (filter (\<lambda>r. dp_txid r = txid) (protostones d))))) (\<lambda>protos.
     act_bind (exec (query (\<lambda>d. filter (\<lambda>r. sw_txid r = txid) (pool_swaps d)))) (\<lambda>swaps.
     act_bind (exec (query (\<lambda>d. filter (\<lambda>r. cr_txid r = txid) (pool_creations d)))) (\<lambda>creations.
     act_bind (exec (query (inspect_events txid))) (\<lambda>events.
     act_bind (simulate_pool_swaps events) (\<lambda>decoded.
     act_return \<lparr>in_tx = tx, in_protostones = protos, in_swaps = swaps, in_creations = creations,
       in_decoded_swaps = decoded, in_decoded_creations = simulate_pool_creations events\<rparr>))))))"

subsection \<open>The stored events\<close>

lemma sort_key_map: "sort_key k (map f xs) = map f (sort_key (\<lambda>x. k (f x)) xs)"
proof -
  have "insort_key k (f x) (map f ys) = map f (insort_key (\<lambda>x. k (f x)) x ys)" for x ys
    by (induction ys) auto
  then show ?thesis by (induction xs) simp_all
qed

lemma event_key_item: "event_key (trace_item_json e) =
    (sint (ti_vout e), if ti_type e = ''invoke'' then 0 else if ti_type e = ''return'' then 1 else (2::nat))"
proof -
  have "sint (scast (n :: i32) :: i64) = sint n" for n
    by (simp add: signed_scast_eq) (rule signed_take_bit_int_eq_self; use sint_greater_eq [of n] sint_lt [of n] in simp)
  then show ?thesis
    by (simp add: event_key_def event_weight_def vout_or_min_def event_vout_def trace_item_json_def
        json_access_defs as_i64_json_of_i32)
qed

text \<open>
  After the traces of a block are stored, the tool reads for each of its transactions exactly
  the events that the indexers were given, in the indexers' order by \<open>vout\<close> and kind.
\<close>

theorem inspect_events_of_stored:
  assumes "store_block_stm height results d = Inr ((), d')" "schema_ok d"
    and "distinct (map tt_txid results)" "distinct (map protostone_key (protostone_rows height results))"
    and "r \<in> set results"
  shows "inspect_events (tt_txid r) d' = order_events (map trace_item_json (tt_events r))"
proof -
  let ?row = "\<lambda>e. \<lparr>te_txid = tt_txid r, te_height = height, te_vout = ti_vout e, te_type = ti_type e,
      te_data = ti_data e, te_block = ti_block e, te_tx = ti_tx e\<rparr>"
  have stored: "filter (\<lambda>e. te_txid e = tt_txid r) (trace_events d') = map ?row (tt_events r)"
    using assms(5) event_rows_of [OF assms(3,5), of height]
    by (auto simp: store_block_Inr(1) [OF assms(1-4)] filter_empty_conv)
  have key: "(sint (te_vout (?row e)), if te_type (?row e) = ''invoke'' then 0 else if te_type (?row e) = ''return'' then 1 else (2::nat))
      = event_key (trace_item_json e)" for e
    by (simp add: event_key_item)
  have item: "stored_event_json (?row e) = trace_item_json e" for e
    by (simp add: stored_event_json_def trace_item_json_def)
  show ?thesis
    unfolding inspect_events_def stored sort_key_map key map_map comp_def item order_events_def event_order.sort_by_key ..
qed

lemma inspect_events_of_stored_witness:
  "\<exists>d'. store_block_stm 5 [example_trace] empty_db = Inr ((), d') \<and>
     inspect_events ''t'' d' = order_events (map trace_item_json (tt_events example_trace))"
proof -
  have ok: "schema_ok empty_db" by (simp add: schema_ok_def constraint_defs empty_db_def)
  obtain d' where run: "store_block_stm 5 [example_trace] empty_db = Inr ((), d')" using example_store by blast
  have "tt_txid example_trace = ''t''" by (simp add: example_trace_def)
  with inspect_events_of_stored [OF run ok example_trace_rows, of example_trace] run show ?thesis by auto
qed

subsection \<open>The tool against the indexer\<close>

lemma inspect_delegate_3: "inspect_delegate 3 = is_delegate_invoke"
proof
  fix ev
  have "to_string (3 :: u128) = ''3''" by (simp add: to_string_def dec_string.simps digit_char_def)
  then have "res_ok (hex_to_dec_u128_str h) = Some ''3'' \<longleftrightarrow> hex_to_u128 h = Some 3" for h
    using to_string_inject [of _ "3 :: u128"]
    by (auto simp: hex_to_dec_u128_str_def hex_to_u128_def simp del: to_string_inject split: option.split)
  then show "inspect_delegate 3 ev = is_delegate_invoke ev"
    by (simp add: inspect_delegate_def is_delegate_invoke_def split: option.split)
qed

text \<open>The alkanes that an event returns have their ids in \<open>hi\<close>/\<open>lo\<close> form, or at least in a form
  in which both readings agree.\<close>

definition ids_readable :: "json \<Rightarrow> bool" where
  "ids_readable ev \<longleftrightarrow>
     list_all (\<lambda>a. case jget ''id'' a of None \<Rightarrow> True | Some i \<Rightarrow> hi_lo_id i = alkane_id i) (returned_alkanes ev)"

lemma inspect_strict_readable:
  assumes "list_all ids_readable events"
  shows "inspect_find_strict i events vout expected allowed = find_matching_return_strict i events vout expected allowed"
proof -
  have "list_ex (inspect_returns_token expected allowed) (returned_alkanes ev) =
      list_ex (returns_token expected allowed) (returned_alkanes ev)" if "ids_readable ev" for ev
  proof -
    have "inspect_returns_token expected allowed a = returns_token expected allowed a" if "a \<in> set (returned_alkanes ev)" for a
      using that \<open>ids_readable ev\<close>
      by (auto simp: ids_readable_def list_all_iff inspect_returns_token_def returns_token_def split: option.splits)
    then show ?thesis by (auto simp: list_ex_iff)
  qed
  with assms show ?thesis
    unfolding inspect_find_strict_def find_matching_return_strict_def
    by (intro find_cong) (auto simp: list_all_iff dest: in_set_dropD)
qed

lemma pool_map_find:
  assumes "distinct (map pl_pool rows)" "Q p"
  shows "pool_map f (filter (\<lambda>r. Q (pl_pool r)) rows) p = map_option f (find (\<lambda>r. pl_pool r = p) rows)"
proof (cases "find (\<lambda>r. pl_pool r = p) rows")
  case None
  then have "p \<notin> set (map pl_pool (filter (\<lambda>r. Q (pl_pool r)) rows))"
    by (auto simp: find_None_iff)
  with None show ?thesis by (simp add: pool_map_None del: set_map)
next
  case (Some r)
  then have r: "r \<in> set rows" "pl_pool r = p" by (auto simp: find_Some_iff)
  have "distinct (map pl_pool (filter (\<lambda>r. Q (pl_pool r)) rows))"
    using assms(1) by (simp add: distinct_map_filter)
  from pool_map_lookup [OF this, of r f] r assms(2) Some show ?thesis by simp
qed

lemma preloaded_tokens:
  assumes "preloads inputs d decoded tokens" "schema_ok d" "tx \<in> set inputs" "ev \<in> set (bt_events tx)"
    and "kind ev" "\<not> no_pool (event_pool ev)"
  shows "fetch_pool_tokens (event_pool ev) d = Inr (tokens kind (event_pool ev), d)"
proof -
  let ?pairs = "invoke_pools kind inputs"
  have p: "event_pool ev \<in> set ?pairs" using assms(3-6) by (auto simp: invoke_pools_def)
  have "get_pool_tokens_for_pairs ?pairs d = Inr (tokens kind, d)" using assms(1) by (simp add: preloads_def)
  moreover have "?pairs \<noteq> []" using p by auto
  ultimately have "tokens kind =
      pool_map (\<lambda>r. (pl_token0 r, pl_token1 r)) (filter (\<lambda>r. pl_pool r \<in> set ?pairs) (pools d))"
    by (simp add: get_pool_tokens_for_pairs_def query_def)
  moreover have "distinct (map pl_pool (pools d))"
    using assms(2) by (simp add: schema_ok_def pool_ok_def)
  ultimately have "tokens kind (event_pool ev) =
      map_option (\<lambda>r. (pl_token0 r, pl_token1 r)) (find (\<lambda>r. pl_pool r = event_pool ev) (pools d))"
    by (simp only: pool_map_find [of _ "\<lambda>p. p \<in> set ?pairs", OF _ p])
  then show ?thesis by (simp only: fetch_pool_tokens_def query_def)
qed

text \<open>What is printed for a row.\<close>

definition prints_row :: "swap_row \<Rightarrow> printed_swap \<Rightarrow> bool" where
  "prints_row row p \<longleftrightarrow>
     (case p of (pool, sold, bought, x, y) \<Rightarrow>
        sw_pool row = pool \<and> sw_sold row = sold \<and> sw_bought row = bought \<and>
        sw_sold_amount row = f64_of_u128 x \<and> sw_bought_amount row = f64_of_u128 y)"

text \<open>
  C15: on the events of an indexed transaction whose returned alkanes have their ids in \<open>hi\<close>/\<open>lo\<close>
  form, the tool prints a swap for an invoke exactly when the indexer's row for it is successful,
  with the same pool and tokens and with the amounts that the row has in double precision.
\<close>

theorem inspect_agrees_with_indexer:
  assumes "simulate_swap_at (bt_events tx) (i, ev) w = (Inr printed, w')" "list_all ids_readable (bt_events tx)"
    and "preloads inputs (sdb w) decoded tokens" "schema_ok (sdb w)" "tx \<in> set inputs" "ev \<in> set (bt_events tx)"
  shows "(case swap_row_at decoded (tokens is_delegate_invoke) height tx (i, ev) of
      Some row \<Rightarrow> (if sw_successful row then \<exists>p. printed = Some p \<and> prints_row row p else printed = None)
    | None \<Rightarrow> printed = None)"
proof (cases "\<not> is_delegate_invoke ev \<or> no_pool (event_pool ev)")
  case True
  with assms(1) show ?thesis
    by (auto simp: simulate_swap_at_def inspect_delegate_3 act_return_def swap_row_at_def)
next
  case False
  let ?tokens = "tokens is_delegate_invoke (event_pool ev)"
  have fetch: "fetch_pool_tokens (event_pool ev) (sdb w) = Inr (?tokens, sdb w)"
    using preloaded_tokens [OF assms(3-6)] False by blast
  have printed: "printed = (case ?tokens of None \<Rightarrow> None
      | Some (token0, token1) \<Rightarrow> inspect_swap_of (bt_events tx) i ev token0 token1)"
    using assms(1) False fetch
    by (auto simp: simulate_swap_at_def inspect_delegate_3 act_bind_Inr exec_Inr act_return_def)
  show ?thesis
  proof (cases ?tokens)
    case None
    with False printed show ?thesis by (simp add: swap_row_at_def)
  next
    case (Some ts)
    obtain token0 token1 where ts: "ts = (token0, token1)" by (rule prod.exhaust)
    note strict = inspect_strict_readable [OF assms(2)]
    show ?thesis
      using False Some ts printed
      by (auto simp: swap_row_at_def inspect_swap_of_def strict swap_return_def prints_row_def Let_def word_gt_0
          split: option.splits prod.splits)
  qed
qed

subsection \<open>Two transactions\<close>

definition hi_lo_json :: "u64 \<Rightarrow> json" where
  "hi_lo_json lo = JObj [(''hi'', JNum (PosInt 0)), (''lo'', JNum (PosInt lo))]"

definition hi_lo_alkane :: "u64 \<times> u64 \<Rightarrow> u128 \<Rightarrow> json" where
  "hi_lo_alkane i v =
     JObj [(''id'', JObj [(''block'', hi_lo_json (fst i)), (''tx'', hi_lo_json (snd i))]), (''value'', JStr (to_string v))]"

lemma hi_lo_alkane_simps:
  "jget ''id'' (hi_lo_alkane i v) = Some (JObj [(''block'', hi_lo_json (fst i)), (''tx'', hi_lo_json (snd i))])"
  "jget ''value'' (hi_lo_alkane i v) = Some (JStr (to_string v))"
  "hi_lo_id (JObj [(''block'', hi_lo_json b), (''tx'', hi_lo_json t)]) = id_text (ucast b, ucast t)"
  "alkane_id (JObj [(''block'', hi_lo_json b), (''tx'', hi_lo_json t)]) = id_text (ucast b, ucast t)"
  by (simp_all add: hi_lo_alkane_def hi_lo_json_def hi_lo_id_def hi_lo_part_def alkane_id_def id_part_def id_text_def
      u128_from_json_def value_u128_from_json_def contains_key_def)

definition example_pools_world :: world where
  "example_pools_world = example_world\<lparr>sdb := empty_db\<lparr>pools :=
     [\<lparr>pl_id = ''u'', pl_factory = id_text (4, 1), pl_pool = id_text (2, 10), pl_token0 = id_text (2, 0),
       pl_token1 = id_text (32, 0), pl_name = ''P''\<rparr>]\<rparr>\<rparr>"

definition example_hi_lo_swap :: block_tx where
  "example_hi_lo_swap =
     tx_with ''t'' [delegate_json 3 (2, 10) [''0x3''] [alkane_json (2, 0) 100], return_json 3 ''success'' [hi_lo_alkane (32, 0) 7]]"

lemma hi_lo_total:
  "token_total [hi_lo_alkane i v] (id_text j) = (if (ucast (fst i), ucast (snd i)) = j then v else 0)"
  "token_total [] t = 0"
  by (simp_all add: calculate_token_total_def add_alkane_def hi_lo_alkane_simps value_of_dec_string
      saturating_add_def json_simps flip: id_text_def prod_eq_iff)

lemma example_simulation:
  "\<exists>w'. simulate_swap_at (bt_events example_hi_lo_swap) (example_invoke example_hi_lo_swap) example_pools_world =
     (Inr (Some (id_text (2, 10), id_text (2, 0), id_text (32, 0), 100, 7)), w')"
  by (simp add: simulate_swap_at_def example_hi_lo_swap_def inspect_delegate_3 act_bind_def exec_def act_return_def
      example_pools_world_def example_world_def fetch_pool_tokens_def query_def inspect_swap_of_def
      inspect_find_strict_def inspect_returns_token_def hi_lo_alkane_simps swap_sides_def hi_lo_total
      json_simps Let_def del: first_input_json(6))

lemma inspect_agrees_with_indexer_witness:
  "\<exists>decoded tokens row. preloads [example_hi_lo_swap] (sdb example_pools_world) decoded tokens \<and>
     swap_row_at decoded (tokens is_delegate_invoke) 5 example_hi_lo_swap (example_invoke example_hi_lo_swap) = Some row \<and>
     sw_successful row \<and> sw_pool row = id_text (2, 10) \<and> sw_bought_amount row = f64_of_u128 7"
proof -
  let ?tx = example_hi_lo_swap and ?d = "sdb example_pools_world"
  obtain w' where run: "simulate_swap_at (bt_events ?tx) (0, hd (bt_events ?tx)) example_pools_world =
      (Inr (Some (id_text (2, 10), id_text (2, 0), id_text (32, 0), 100, 7)), w')"
    using example_simulation by blast
  obtain decoded tokens where pre: "preloads [?tx] ?d decoded tokens" using preloads_exist by blast
  have ok: "schema_ok ?d"
    by (simp add: schema_ok_def constraint_defs example_pools_world_def empty_db_def)
  have readable: "list_all ids_readable (bt_events ?tx)"
    by (simp add: example_hi_lo_swap_def ids_readable_def hi_lo_alkane_simps json_simps)
      (simp add: returned_alkanes_def delegate_json_def json_access_defs)
  have "hd (bt_events ?tx) \<in> set (bt_events ?tx)" by (simp add: example_hi_lo_swap_def json_simps)
  from inspect_agrees_with_indexer [OF run readable pre ok _ this, of 5] pre show ?thesis
    by (auto simp: prints_row_def split: option.splits if_splits)
qed

text \<open>
  With ids given as decimal strings, which the indexer reads, the tool overlooks the return that
  pays: here it takes the first return, which pays nothing, and prints no swap.
\<close>

definition example_two_returns :: block_tx where
  "example_two_returns =
     tx_with ''t'' [delegate_json 3 (2, 10) [''0x3''] [alkane_json (2, 0) 100], return_json 3 ''success'' [],
       return_json 3 ''success'' [alkane_json (32, 0) 7]]"

lemma inspect_misses_string_ids:
  "map_option sw_successful (swap_row_at (\<lambda>_. None) example_tokens 5 example_two_returns (example_invoke example_two_returns)) = Some True"
  "\<exists>w'. simulate_swap_at (bt_events example_two_returns) (example_invoke example_two_returns) example_pools_world = (Inr None, w')"
proof -
  show "map_option sw_successful (swap_row_at (\<lambda>_. None) example_tokens 5 example_two_returns (example_invoke example_two_returns)) = Some True"
    by (simp add: swap_row_at_def example_two_returns_def example_tokens_def swap_return_def swap_sides_def
        find_matching_return_strict_def json_simps Let_def del: first_input_json(6))
  have "inspect_find_strict 0 (bt_events example_two_returns) 3 (id_text (32, 0)) [] = None"
    by (simp add: inspect_find_strict_def example_two_returns_def json_simps del: first_input_json(6))
      (simp add: inspect_returns_token_def alkane_json_simps hi_lo_id_def hi_lo_part_def id_json_def u128_from_json_def
        id_text_def)
  note none = this [unfolded example_two_returns_def tx_with_simps]
  show "\<exists>w'. simulate_swap_at (bt_events example_two_returns) (example_invoke example_two_returns) example_pools_world = (Inr None, w')"
    by (simp add: none simulate_swap_at_def inspect_delegate_3 act_bind_def exec_def act_return_def
        example_pools_world_def example_world_def fetch_pool_tokens_def query_def inspect_swap_of_def
        swap_sides_def find_matching_return_def example_two_returns_def json_simps Let_def del: first_input_json(6))
qed

end
