(* ===== verification/Ledger.thy ===== *)
theory Ledger
  imports Pipeline
begin

text \<open>
  What the event tables mean: a ledger that gives the events of each transaction.  The ledger is
  read off the six tables, and the indexing of a block refines one step on it, in which every
  transaction of the block gets the events that its own trace gives, except that a kind of event that
  the block does not have is not touched.
\<close>

subsection \<open>The abstract ledger\<close>

record tx_events =
  ev_swaps :: "swap_row list"
  ev_creations :: "creation_row list"
  ev_mints :: "liquidity_row list"
  ev_burns :: "liquidity_row list"
  ev_wraps :: "frost_row list"
  ev_unwraps :: "frost_row list"

type_synonym ledger = "string \<Rightarrow> tx_events"

text \<open>The events that the traces of some transactions give, and those of one transaction.\<close>

definition events_of_traces ::
  "decoded_map \<Rightarrow> ((json \<Rightarrow> bool) \<Rightarrow> token_map) \<Rightarrow> i32 \<Rightarrow> block_tx list \<Rightarrow> tx_events" where
  "events_of_traces decoded tokens height txs =
     \<lparr>ev_swaps = swap_rows decoded (tokens is_delegate_invoke) height txs,
      ev_creations = creation_rows decoded height txs,
      ev_mints = mint_rows decoded (tokens is_delegate_invoke_mint) height txs,
      ev_burns = burn_rows decoded (tokens is_delegate_invoke_burn) height txs,
      ev_wraps = frost_rows (wrap_row_at decoded height) txs,
      ev_unwraps = frost_rows (unwrap_row_at decoded height) txs\<rparr>"

definition events_of_trace ::
  "decoded_map \<Rightarrow> ((json \<Rightarrow> bool) \<Rightarrow> token_map) \<Rightarrow> i32 \<Rightarrow> block_tx \<Rightarrow> tx_events" where
  "events_of_trace decoded tokens height tx = events_of_traces decoded tokens height [tx]"

text \<open>
  One step of the ledger.  A transaction of the block gets the events of its own trace; of a kind, swaps
  apart, that no transaction of the block has, it keeps the events it had.
\<close>

definition record_block ::
  "decoded_map \<Rightarrow> ((json \<Rightarrow> bool) \<Rightarrow> token_map) \<Rightarrow> i32 \<Rightarrow> block_tx list \<Rightarrow> ledger \<Rightarrow> ledger" where
  "record_block decoded tokens height inputs led t =
     (let own = events_of_traces decoded tokens height (filter (\<lambda>tx. bt_txid tx = t) inputs);
          block = events_of_traces decoded tokens height inputs
      in if t \<notin> set (map bt_txid inputs) then led t
         else \<lparr>ev_swaps = ev_swaps own,
               ev_creations = (if ev_creations block = [] then ev_creations (led t) else ev_creations own),
               ev_mints = (if ev_mints block = [] then ev_mints (led t) else ev_mints own),
               ev_burns = (if ev_burns block = [] then ev_burns (led t) else ev_burns own),
               ev_wraps = (if ev_wraps block = [] then ev_wraps (led t) else ev_wraps own),
               ev_unwraps = (if ev_unwraps block = [] then ev_unwraps (led t) else ev_unwraps own)\<rparr>)"

subsection \<open>The ledger of a database\<close>

definition ledger_of :: "db \<Rightarrow> ledger" where
  "ledger_of d t =
     \<lparr>ev_swaps = filter (\<lambda>r. sw_txid r = t) (pool_swaps d),
      ev_creations = filter (\<lambda>r. cr_txid r = t) (pool_creations d),
      ev_mints = filter (\<lambda>r. lq_txid r = t) (pool_mints d),
      ev_burns = filter (\<lambda>r. lq_txid r = t) (pool_burns d),
      ev_wraps = filter (\<lambda>r. fr_txid r = t) (subfrost_wraps d),
      ev_unwraps = filter (\<lambda>r. fr_txid r = t) (subfrost_unwraps d)\<rparr>"

text \<open>Nothing but swaps is recorded for the transaction.\<close>

definition only_swaps :: "tx_events \<Rightarrow> bool" where
  "only_swaps e \<longleftrightarrow>
     ev_creations e = [] \<and> ev_mints e = [] \<and> ev_burns e = [] \<and> ev_wraps e = [] \<and> ev_unwraps e = []"

subsection \<open>One table\<close>

lemma other_rows_same:
  assumes "t \<notin> set (map bt_txid inputs)" "\<And>r. r \<in> set rows \<Longrightarrow> key r \<in> set (map bt_txid inputs)"
  shows "filter (\<lambda>r. key r = t) (filter (\<lambda>r. key r \<notin> set (map bt_txid inputs)) old @ rows) = filter (\<lambda>r. key r = t) old"
proof -
  have "filter (\<lambda>r. key r = t) rows = []" using assms by (auto simp: filter_empty_conv)
  moreover have "filter (\<lambda>r. key r = t) (filter (\<lambda>r. key r \<notin> set (map bt_txid inputs)) old) = filter (\<lambda>r. key r = t) old"
    using assms(1) by (auto simp: filter_filter intro: filter_cong)
  ultimately show ?thesis by simp
qed

lemma rows_of_txid:
  assumes "\<And>x r. r \<in> set (f x) \<Longrightarrow> key r = bt_txid x"
  shows "filter (\<lambda>r. key r = t) (concat (map f inputs)) = concat (map f (filter (\<lambda>x. bt_txid x = t) inputs))"
proof (induction inputs)
  case (Cons x inputs)
  have "filter (\<lambda>r. key r = t) (f x) = (if bt_txid x = t then f x else [])"
    using assms by (auto intro!: filter_True filter_False)
  then show ?case using Cons by simp
qed simp

lemma own_rows_replaced:
  assumes "t \<in> set (map bt_txid inputs)" "\<And>txs. rows txs = concat (map f txs)"
    and "\<And>x r. r \<in> set (f x) \<Longrightarrow> key r = bt_txid x"
  shows "filter (\<lambda>r. key r = t) (filter (\<lambda>r. key r \<notin> set (map bt_txid inputs)) old @ rows inputs)
    = rows (filter (\<lambda>x. bt_txid x = t) inputs)"
proof -
  have "filter (\<lambda>r. key r = t) (filter (\<lambda>r. key r \<notin> set (map bt_txid inputs)) old) = []"
    using assms(1) by (auto simp: filter_empty_conv)
  then show ?thesis using rows_of_txid [of f key, OF assms(3)] by (simp add: assms(2))
qed

lemma own_rows_stored:
  assumes "t \<in> set (map bt_txid inputs)" "\<And>txs. rows txs = concat (map f txs)"
    and "\<And>x r. r \<in> set (f x) \<Longrightarrow> key r = bt_txid x"
  shows "filter (\<lambda>r. key r = t) (stored_rows key (map bt_txid inputs) (rows inputs) old)
    = (if rows inputs = [] then filter (\<lambda>r. key r = t) old else rows (filter (\<lambda>x. bt_txid x = t) inputs))"
  using own_rows_replaced [where rows = rows and f = f and key = key, OF assms] by (simp add: stored_rows_def)

lemma other_rows_stored:
  assumes "t \<notin> set (map bt_txid inputs)" "\<And>r. r \<in> set rows \<Longrightarrow> key r \<in> set (map bt_txid inputs)"
  shows "filter (\<lambda>r. key r = t) (stored_rows key (map bt_txid inputs) rows old) = filter (\<lambda>r. key r = t) old"
  unfolding stored_rows_def
  using other_rows_same [where key = key and rows = rows and old = old, OF assms] by simp

subsection \<open>The rows of a block, transaction by transaction\<close>

lemma rows_by_tx:
  "swap_rows decoded tk height inputs = concat (map (\<lambda>tx. swap_rows decoded tk height [tx]) inputs)"
  "creation_rows decoded height inputs = concat (map (\<lambda>tx. creation_rows decoded height [tx]) inputs)"
  "mint_rows decoded tk height inputs = concat (map (\<lambda>tx. mint_rows decoded tk height [tx]) inputs)"
  "burn_rows decoded tk height inputs = concat (map (\<lambda>tx. burn_rows decoded tk height [tx]) inputs)"
  "frost_rows row_at inputs = concat (map (\<lambda>tx. frost_rows row_at [tx]) inputs)"
  by (simp_all add: swap_rows_def creation_rows_def mint_rows_def burn_rows_def frost_rows_def Let_def)

lemma frost_row_txid:
  "wrap_row_at decoded height tx ordered iev = Some e \<Longrightarrow> fr_txid e = bt_txid tx"
  "unwrap_row_at decoded height tx ordered iev = Some e \<Longrightarrow> fr_txid e = bt_txid tx"
  by (auto simp: wrap_row_at_def unwrap_row_at_def frost_row_of_def Let_def
      split: prod.splits if_splits option.splits)

lemma rows_of_one:
  "r \<in> set (swap_rows decoded tk height [tx]) \<Longrightarrow> sw_txid r = bt_txid tx"
  "c \<in> set (creation_rows decoded height [tx]) \<Longrightarrow> cr_txid c = bt_txid tx"
  "m \<in> set (mint_rows decoded tk height [tx]) \<Longrightarrow> lq_txid m = bt_txid tx"
  "b \<in> set (burn_rows decoded tk height [tx]) \<Longrightarrow> lq_txid b = bt_txid tx"
  "e \<in> set (frost_rows (wrap_row_at decoded height) [tx]) \<Longrightarrow> fr_txid e = bt_txid tx"
  "e \<in> set (frost_rows (unwrap_row_at decoded height) [tx]) \<Longrightarrow> fr_txid e = bt_txid tx"
  using swap_rows_txids [of r decoded tk height "[tx]"] creation_rows_txids [of c decoded height "[tx]"]
    mint_rows_txids [of m decoded tk height "[tx]"] burn_rows_txids [of b decoded tk height "[tx]"]
    frost_rows_txids [of "wrap_row_at decoded height" e "[tx]", OF frost_row_txid(1)]
    frost_rows_txids [of "unwrap_row_at decoded height" e "[tx]", OF frost_row_txid(2)]
  by auto

text \<open>The rows of a block belong to its transactions.\<close>

lemmas block_rows_txids =
  swap_rows_txids creation_rows_txids mint_rows_txids burn_rows_txids
  frost_rows_txids [OF frost_row_txid(1)] frost_rows_txids [OF frost_row_txid(2)]

subsection \<open>Property\<close>

lemma ledger_step:
  assumes "index_block height (map bt_txid inputs) inputs w = (Inr (), w')"
    and "preloads inputs (sdb w) decoded tokens"
  shows "ledger_of (sdb w') = record_block decoded tokens height inputs (ledger_of (sdb w))"
proof
  fix t
  note tables = index_block_Inr [OF assms]
  show "ledger_of (sdb w') t = record_block decoded tokens height inputs (ledger_of (sdb w)) t"
  proof (cases "t \<in> set (map bt_txid inputs)")
    case True
    note own = own_rows_stored [OF True]
    show ?thesis using True
      by (simp add: tables ledger_of_def record_block_def Let_def events_of_traces_def
          own_rows_replaced [OF True rows_by_tx(1) rows_of_one(1)]
          own [OF rows_by_tx(2) rows_of_one(2)] own [OF rows_by_tx(3) rows_of_one(3)]
          own [OF rows_by_tx(4) rows_of_one(4)] own [OF rows_by_tx(5) rows_of_one(5)]
          own [OF rows_by_tx(5) rows_of_one(6)] del: set_map filter_append filter_filter)
  next
    case False
    note other = other_rows_stored [OF False]
    show ?thesis using False
      by (simp add: tables ledger_of_def record_block_def
          other_rows_same [OF False block_rows_txids(1)]
          other [OF block_rows_txids(2)] other [OF block_rows_txids(3)] other [OF block_rows_txids(4)]
          other [OF block_rows_txids(5)] other [OF block_rows_txids(6)] del: set_map filter_append filter_filter)
  qed
qed

lemma own_transaction:
  assumes "distinct (map bt_txid inputs)" "tx \<in> set inputs"
  shows "filter (\<lambda>x. bt_txid x = bt_txid tx) inputs = [tx]"
  using assms by (induction inputs) (auto simp: image_iff filter_empty_conv)

text \<open>A transaction for which nothing but swaps was recorded gets the events of its trace alone.\<close>

lemma record_fresh:
  assumes "distinct (map bt_txid inputs)" "tx \<in> set inputs" "only_swaps (led (bt_txid tx))"
  shows "record_block decoded tokens height inputs led (bt_txid tx) = events_of_trace decoded tokens height tx"
proof -
  have none: "f tx = []" if "concat (map f inputs) = []" for f :: "block_tx \<Rightarrow> 'b list"
    using that assms(2) by auto
  have "creation_rows decoded height inputs = [] \<Longrightarrow> creation_rows decoded height [tx] = []"
    "mint_rows decoded tk height inputs = [] \<Longrightarrow> mint_rows decoded tk height [tx] = []"
    "burn_rows decoded tk height inputs = [] \<Longrightarrow> burn_rows decoded tk height [tx] = []"
    "frost_rows row_at inputs = [] \<Longrightarrow> frost_rows row_at [tx] = []" for tk row_at
    using assms(2) by (subst (asm) rows_by_tx, force)+
  then show ?thesis
    using assms(2,3) by (simp add: record_block_def Let_def own_transaction [OF assms(1,2)] events_of_trace_def
        events_of_traces_def only_swaps_def)
qed

text \<open>
  C2: the indexing of a block refines one step of the ledger, whatever was recorded before: whenever it
  succeeds, every transaction outside the block keeps its events; a transaction of the block has the
  swaps of its own trace and, of each other kind, the events of its own trace if some transaction of the
  block has an event of that kind, and otherwise the events it had before.  For a block of distinct
  transactions, one for which nothing but swaps was recorded, as when the block is indexed for the first
  time, therefore has exactly the events of its own trace.
\<close>

theorem index_block_refines_ledger:
  assumes "index_block height (map bt_txid inputs) inputs w = (Inr (), w')"
  shows "\<exists>decoded tokens. preloads inputs (sdb w) decoded tokens \<and>
    ledger_of (sdb w') = record_block decoded tokens height inputs (ledger_of (sdb w)) \<and>
    (distinct (map bt_txid inputs) \<longrightarrow>
      (\<forall>tx \<in> set inputs. only_swaps (ledger_of (sdb w) (bt_txid tx)) \<longrightarrow>
        ledger_of (sdb w') (bt_txid tx) = events_of_trace decoded tokens height tx))"
proof -
  obtain decoded tokens where pre: "preloads inputs (sdb w) decoded tokens"
    using preloads_exist by blast
  note step = ledger_step [OF assms pre]
  show ?thesis using pre step record_fresh by (intro exI [of _ decoded] exI [of _ tokens]) simp
qed

lemma index_block_refines_ledger_witness:
  "\<exists>w' decoded tokens. index_block 5 [''t''] [example_wrap] example_world = (Inr (), w') \<and>
     ledger_of (sdb w') ''t'' = events_of_trace decoded tokens 5 example_wrap \<and>
     map fr_txid (ev_wraps (ledger_of (sdb w') ''t'')) = [''t'']"
proof -
  obtain w' where run: "index_block 5 [''t''] [example_wrap] example_world = (Inr (), w')"
    using example_wrap_run by blast
  have txid: "bt_txid example_wrap = ''t''" by (simp add: example_wrap_def json_simps)
  have fresh: "only_swaps (ledger_of (sdb example_world) ''t'')"
    by (simp add: only_swaps_def ledger_of_def example_world_def empty_db_def)
  obtain decoded tokens where "ledger_of (sdb w') ''t'' = events_of_trace decoded tokens 5 example_wrap"
    using index_block_refines_ledger [of 5 "[example_wrap]" example_world w'] run fresh by (auto simp: txid)
  moreover have "map fr_txid (frost_rows (wrap_row_at decoded 5) [example_wrap]) = [''t'']"
    by (simp add: frost_rows_def example_wrap_order Let_def)
      (simp add: example_wrap_def wrap_row_at_def is_subfrost_wrap_invoke_def json_simps add_frost_eq
        List.map_filter_simps frost_row_of_def split: prod.split)
  ultimately show ?thesis using run by (auto simp: events_of_trace_def events_of_traces_def)
qed

end
