(* ===== verification/Varint.thy ===== *)
theory Varint
  imports Bytes
begin

text \<open>
  The LEB128 integers of \<open>runestone_enhanced.rs\<close> of the deezel library: \<open>decode_varint\<close> and
  \<open>decode_integers\<close>, what they do on well-formed encodings, and where they lose bits.
\<close>

subsection \<open>Decoding\<close>

fun varint_loop :: "u128 \<Rightarrow> nat \<Rightarrow> nat \<Rightarrow> byte list \<Rightarrow> (u128 \<times> nat) res" where
  "varint_loop result shift i [] = Inl (anyhow ''Truncated varint'')"
| "varint_loop result shift i (byte # bytes) =
     (let result' = result OR push_bit shift (ucast (byte AND 0x7f))
      in if byte AND 0x80 = 0 then Inr (result', Suc i)
         else if 127 < shift + 7 then Inl (anyhow ''Varint too large'')
         else varint_loop result' (shift + 7) (Suc i) bytes)"

definition decode_varint :: "byte list \<Rightarrow> (u128 \<times> nat) res" where
  "decode_varint bytes = varint_loop 0 0 0 bytes"

lemma varint_loop_length:
  "varint_loop result shift i bytes = Inr (v, n) \<Longrightarrow> i < n \<and> n \<le> i + length bytes"
  by (induction result shift i bytes rule: varint_loop.induct)
    (auto simp: Let_def split: if_splits)

lemma decode_varint_length: "decode_varint bytes = Inr (v, n) \<Longrightarrow> 0 < n \<and> n \<le> length bytes"
  unfolding decode_varint_def by (drule varint_loop_length) simp

text \<open>The loop over the payload: \<open>i\<close> bytes were consumed.\<close>

function integers_from :: "byte list \<Rightarrow> nat \<Rightarrow> u128 list res" where
  "integers_from payload i =
     (if i < length payload
      then case with_context (''Failed to decode varint at position '' @ dec_string i)
                  (decode_varint (drop i payload)) of
             Inl e \<Rightarrow> Inl e
           | Inr (integer, n) \<Rightarrow> and_then (integers_from payload (i + n)) (\<lambda>ns. Inr (integer # ns))
      else Inr [])"
  by pat_completeness auto
termination
  by (relation "measure (\<lambda>(payload, i). length payload - i)") (auto dest: decode_varint_length)

declare integers_from.simps [simp del]

definition decode_integers :: "byte list \<Rightarrow> u128 list res" where
  "decode_integers payload = integers_from payload 0"

subsection \<open>Encodings\<close>

text \<open>The LEB128 form: seven bits per byte, least significant first.\<close>

fun leb128 :: "nat \<Rightarrow> byte list" where
  "leb128 n = (if n < 128 then [of_nat n] else of_nat (128 + n mod 128) # leb128 (n div 128))"

declare leb128.simps [simp del]

definition varint :: "u128 \<Rightarrow> byte list" where
  "varint w = leb128 (unat w)"

lemma leb128_not_Nil [simp]: "leb128 n \<noteq> []"
  by (subst leb128.simps) simp

lemma varint_not_Nil [simp]: "varint w \<noteq> []"
  by (simp add: varint_def)

lemma payload_bits: "ucast ((of_nat (128 + n mod 128) :: byte) AND 0x7f) = (of_nat (n mod 128) :: u128)"
  and payload_bits_small: "n < 128 \<Longrightarrow> ucast ((of_nat n :: byte) AND 0x7f) = (of_nat n :: u128)"
proof -
  have *: "ucast ((of_nat k :: byte) AND 0x7f) = (of_nat (k mod 128) :: u128)" for k
  proof -
    have m: "(0x7f :: byte) = mask 7" by (simp add: mask_eq_exp_minus_1)
    have "unat ((of_nat k :: byte) AND 0x7f) = k mod 128"
      unfolding m take_bit_eq_mask [symmetric] unsigned_take_bit_eq
      by (simp add: unsigned_of_nat take_bit_eq_mod mod_mod_cancel)
    then have "unat (ucast ((of_nat k :: byte) AND 0x7f) :: u128) = k mod 128"
      by (simp add: unsigned_ucast_eq take_bit_eq_mod mod_less)
    moreover have "unat (of_nat (k mod 128) :: u128) = k mod 128"
      by (simp add: unat_of_nat)
    ultimately show ?thesis by (simp only: word_unat_eq_iff)
  qed
  show "ucast ((of_nat (128 + n mod 128) :: byte) AND 0x7f) = (of_nat (n mod 128) :: u128)"
    using * [of "128 + n mod 128"] by simp
  show "n < 128 \<Longrightarrow> ucast ((of_nat n :: byte) AND 0x7f) = (of_nat n :: u128)"
    using * [of n] by simp
qed

lemma last_byte: "(of_nat n :: byte) AND 0x80 = 0 \<longleftrightarrow> n mod 256 < 128"
proof -
  have "n mod 256 < 256" by simp
  moreover have "(of_nat n :: byte) = of_nat (n mod 256)"
    by (simp add: word_unat_eq_iff unat_of_nat)
  moreover have "(of_nat k :: byte) AND 0x80 = 0 \<longleftrightarrow> k < 128" if "k < 256" for k
  proof -
    have "(0x80 :: byte) = push_bit 7 1" by simp
    then have "(of_nat k :: byte) AND 0x80 = 0 \<longleftrightarrow> \<not> bit (of_nat k :: byte) 7"
      by (metis and_exp_eq_0_iff_not_bit push_bit_of_1)
    also have "\<dots> \<longleftrightarrow> \<not> bit k 7" by (simp add: bit_simps)
    also have "\<dots> \<longleftrightarrow> even (k div 128)" by (simp add: bit_iff_odd)
    also have "\<dots> \<longleftrightarrow> k < 128"
    proof -
      have "k div 128 < 2" using that by (simp add: div_less_iff_less_mult)
      then show ?thesis by (cases "k div 128 = 0") (auto simp: less_2_cases_iff)
    qed
    finally show ?thesis .
  qed
  ultimately show ?thesis by metis
qed

lemma or_low_high: "(of_nat (n mod 128) :: u128) OR push_bit 7 (of_nat (n div 128)) = of_nat n"
proof -
  have "take_bit 7 n OR push_bit 7 (drop_bit 7 n) = n"
  proof (rule bit_eqI)
    show "bit (take_bit 7 n OR push_bit 7 (drop_bit 7 n)) m = bit n m" for m
      by (cases "m < 7") (simp_all add: bit_simps)
  qed
  then have "(of_nat (take_bit 7 n OR push_bit 7 (drop_bit 7 n)) :: u128) = of_nat n" by simp
  then show ?thesis
    by (simp only: of_nat_or_eq of_nat_push_bit) (simp add: take_bit_eq_mod drop_bit_eq_div)
qed

lemma varint_loop_leb128:
  assumes "n * 2 ^ shift < 2 ^ 128"
  shows "varint_loop result shift i (leb128 n @ rest) =
    Inr (result OR push_bit shift (of_nat n), i + length (leb128 n))"
  using assms
proof (induction n arbitrary: result shift i rule: leb128.induct)
  case (1 n)
  show ?case
  proof (cases "n < 128")
    case True
    then have enc: "leb128 n = [of_nat n]" by (subst leb128.simps) simp
    have "(of_nat n :: byte) AND 0x80 = 0" unfolding last_byte using True by simp
    with True show ?thesis
      by (simp add: enc payload_bits_small Let_def del: of_nat_numeral)
  next
    case False
    let ?b = "of_nat (128 + n mod 128) :: byte"
    have "n mod 128 < 128" by simp
    then have "(128 + n mod 128) mod 256 = 128 + n mod 128" by (intro mod_less) linarith
    then have more: "?b AND 0x80 \<noteq> 0" unfolding last_byte by linarith
    have "(2::nat) ^ (7 + shift) = 128 * 2 ^ shift" by (simp add: power_add)
    also have "\<dots> \<le> n * 2 ^ shift" using False by simp
    also note 1(2)
    finally have "7 + shift < 128" by (rule power_less_imp_less_exp [rotated]) simp
    then have small: "shift + 7 < 128" by simp
    have "n div 128 * 128 * 2 ^ shift \<le> n * 2 ^ shift" by (intro mult_right_mono) auto
    moreover have "n div 128 * 2 ^ (shift + 7) = n div 128 * 128 * 2 ^ shift" by (simp add: power_add)
    ultimately have "n div 128 * 2 ^ (shift + 7) < 2 ^ 128" using 1(2) by linarith
    note ih = 1(1) [OF False this]
    have "(result OR push_bit shift (of_nat (n mod 128))) OR push_bit (shift + 7) (of_nat (n div 128)) =
        result OR push_bit shift (of_nat n)"
    proof -
      have "push_bit (shift + 7) (of_nat (n div 128) :: u128) = push_bit shift (push_bit 7 (of_nat (n div 128)))"
        by (simp add: push_bit_push_bit)
      then show ?thesis by (simp only: or.assoc or_low_high flip: push_bit_or)
    qed
    moreover have "leb128 n = ?b # leb128 (n div 128)" using False by (subst leb128.simps) simp
    ultimately show ?thesis
      using more small ih by (simp add: Let_def payload_bits del: of_nat_add)
  qed
qed

lemma decode_varint_varint: "decode_varint (varint w @ rest) = Inr (w, length (varint w))"
  using varint_loop_leb128 [of "unat w" 0 0 0 rest] unsigned_less [of w]
  by (simp add: decode_varint_def varint_def)

lemma integers_from_varints:
  "integers_from (pre @ concat (map varint ws)) (length pre) = Inr ws"
proof (induction ws arbitrary: pre)
  case Nil
  then show ?case by (subst integers_from.simps) simp
next
  case (Cons w ws)
  have "integers_from (pre @ concat (map varint (w # ws))) (length pre + length (varint w)) = Inr ws"
    using Cons [of "pre @ varint w"] by simp
  then show ?case
    by (subst integers_from.simps) (simp add: decode_varint_varint)
qed

text \<open>
  The integers of a payload.  Decoding the LEB128 forms of any integers, one after the other,
  gives the integers.
\<close>

theorem integers_round_trip: "decode_integers (concat (map varint ws)) = Inr ws"
  using integers_from_varints [of "[]" ws] by (simp add: decode_integers_def)

subsection \<open>What is not an encoding\<close>

lemma varint_loop_continues:
  assumes "\<forall>b \<in> set bs. b AND 0x80 \<noteq> 0" "shift + 7 * length bs \<le> 127"
  shows "varint_loop result shift i bs = Inl (anyhow ''Truncated varint'')"
  using assms by (induction result shift i bs rule: varint_loop.induct) (auto simp: Let_def)

lemma leb128_power: "leb128 (128 ^ k * 4) = replicate k 0x80 @ [4]"
proof (induction k)
  case 0
  then show ?case by (subst leb128.simps) simp
next
  case (Suc k)
  have "(1 :: nat) \<le> 128 ^ k" by simp
  then show ?case using Suc by (subst leb128.simps) (simp add: algebra_simps)
qed

text \<open>
  The comment on \<open>decode_varint\<close> promises an error for a varint of more than 128 bits; the check
  is on the number of bytes only, so that the nineteenth byte loses all but two of its bits: the
  encodings of \<open>n\<close> and of \<open>n + 2 ^ 128\<close> are decoded alike.
\<close>

theorem varint_drops_bits:
  "leb128 (2 ^ 128) = replicate 18 0x80 @ [4] \<and> decode_varint (leb128 (2 ^ 128)) = Inr (0, 19)"
proof -
  have "(2 :: nat) ^ 128 = 128 ^ 18 * 4" by simp
  then have enc: "leb128 (2 ^ 128) = replicate 18 0x80 @ [4]" by (simp only: leb128_power)
  have "replicate 18 x = [x,x,x,x,x,x,x,x,x,x,x,x,x,x,x,x,x,x]" for x :: byte
    by (simp add: numeral_eq_Suc)
  then have "decode_varint (replicate 18 0x80 @ [4]) = Inr (0, 19)"
    by (simp add: decode_varint_def Let_def)
  with enc show ?thesis by simp
qed

end
