(* ===== verification/Runestone.thy ===== *)
theory Runestone
  imports Varint
begin

text \<open>
  \<open>runestone_enhanced.rs\<close> of the deezel library: the formatter that the indexer uses,
  \<open>format_runestone_with_decoded_messages\<close>, and the manual decoder \<open>decode_runestone\<close>.  What the
  bitcoin, ordinals and protorune-support crates do is in \<open>chain_libs\<close>: the fields of a parsed
  transaction, the instructions of a script and its kind, the address of a script, deciphering a
  runestone, its protostones, and decoding the varints of a message.  \<open>json!\<close> of a \<open>u128\<close> that does
  not fit into 64 bits panics.
\<close>

subsection \<open>Transactions and protostones\<close>

record tx_input =
  in_txid :: string
  in_vout :: u32
  in_script_size :: nat
  in_sequence :: u32
  in_witness_items :: nat

record tx_output =
  to_value :: u64
  to_script :: "byte list"

record chain_tx =
  ct_txid :: string
  ct_version :: i32
  ct_lock_time :: u32
  ct_inputs :: "tx_input list"
  ct_outputs :: "tx_output list"

record edict =
  ed_block :: u128
  ed_tx :: u128
  ed_amount :: u128
  ed_output :: u128

record stone =
  st_protocol_tag :: u128
  st_message :: "byte list"
  st_burn :: "u32 option"
  st_refund :: "u32 option"
  st_pointer :: "u32 option"
  st_from :: "u32 option"
  st_edicts :: "edict list"

datatype instruction = Op byte | PushBytes "byte list" | Bad_instruction

datatype 'r artifact = Runestone_artifact 'r | Cenotaph

record 'r chain_libs =
  tx_details :: "transaction \<Rightarrow> chain_tx"
  instructions :: "byte list \<Rightarrow> instruction list"
  is_op_return :: "byte list \<Rightarrow> bool"
  is_p2pkh :: "byte list \<Rightarrow> bool"
  is_p2sh :: "byte list \<Rightarrow> bool"
  is_p2tr :: "byte list \<Rightarrow> bool"
  is_witness_program :: "byte list \<Rightarrow> bool"
  mainnet_address :: "byte list \<Rightarrow> string option"
  decipher :: "chain_tx \<Rightarrow> 'r artifact option"
  stones_of_runestone :: "'r \<Rightarrow> string list + stone list"
  decode_varint_list :: "byte list \<Rightarrow> u128 list option"
  encode_hex :: "byte list \<Rightarrow> string"

subsection \<open>JSON values\<close>

definition json_u64 :: "u64 \<Rightarrow> json" where
  "json_u64 n = JNum (PosInt n)"

definition json_u32 :: "u32 \<Rightarrow> json" where
  "json_u32 n = json_u64 (ucast n)"

definition json_byte :: "byte \<Rightarrow> json" where
  "json_byte b = json_u64 (ucast b)"

definition json_size :: "nat \<Rightarrow> json" where
  "json_size n = json_u64 (of_nat n)"

definition json_u128 :: "u128 \<Rightarrow> json res" where
  "json_u128 n =
     (if unat n < 2 ^ 64 then Inr (json_u64 (ucast n)) else Inl (Panic ''number out of range''))"

definition json_bytes :: "byte list \<Rightarrow> json" where
  "json_bytes bs = JArr (map json_byte bs)"

definition json_option :: "('a \<Rightarrow> json) \<Rightarrow> 'a option \<Rightarrow> json" where
  "json_option f x = (case x of Some y \<Rightarrow> f y | None \<Rightarrow> JNull)"

fun res_map :: "('a \<Rightarrow> 'b res) \<Rightarrow> 'a list \<Rightarrow> 'b list res" where
  "res_map f [] = Inr []"
| "res_map f (x # xs) = and_then (f x) (\<lambda>y. and_then (res_map f xs) (\<lambda>ys. Inr (y # ys)))"

definition json_u128s :: "u128 list \<Rightarrow> json res" where
  "json_u128s ns = and_then (res_map json_u128 ns) (\<lambda>xs. Inr (JArr xs))"

text \<open>\<open>v[k] = x\<close> on an object replaces the value of the key or adds the key.\<close>

fun put_key :: "string \<Rightarrow> json \<Rightarrow> (string \<times> json) list \<Rightarrow> (string \<times> json) list" where
  "put_key k x [] = [(k, x)]"
| "put_key k x ((k', y) # kvs) = (if k' = k then (k, x) # kvs else (k', y) # put_key k x kvs)"

lemma map_of_put_key [simp]: "map_of (put_key k x kvs) k' = (if k' = k then Some x else map_of kvs k')"
  by (induction k x kvs rule: put_key.induct) auto

subsection \<open>The formatter\<close>

definition script_type :: "'r chain_libs \<Rightarrow> byte list \<Rightarrow> string" where
  "script_type c s =
     (if is_p2pkh c s then ''P2PKH'' else if is_p2sh c s then ''P2SH''
      else if is_p2tr c s then ''P2TR'' else if is_witness_program c s then ''Witness'' else ''Unknown'')"

definition extract_address_from_script :: "'r chain_libs \<Rightarrow> byte list \<Rightarrow> (string \<times> string) option" where
  "extract_address_from_script c s =
     map_option (\<lambda>address. (address, script_type c s)) (mainnet_address c s)"

definition decode_protostone_message :: "'r chain_libs \<Rightarrow> byte list \<Rightarrow> u128 list option" where
  "decode_protostone_message c message = (if message = [] then Some [] else decode_varint_list c message)"

definition format_runestone :: "'r chain_libs \<Rightarrow> chain_tx \<Rightarrow> stone list res" where
  "format_runestone c tx =
     (case decipher c tx of
        None \<Rightarrow> Inl (Error [''No Runestone found in transaction'', ''Failed to decipher Runestone''])
      | Some Cenotaph \<Rightarrow> Inl (anyhow ''Artifact is not a Runestone'')
      | Some (Runestone_artifact r) \<Rightarrow>
          (case stones_of_runestone c r of
             Inl chain \<Rightarrow> Inl (Error (''Failed to convert Runestone to Protostones'' # chain))
           | Inr stones \<Rightarrow> Inr stones))"

definition input_json :: "nat \<times> tx_input \<Rightarrow> json" where
  "input_json ii =
     (case ii of (i, inp) \<Rightarrow>
      JObj [(''index'', json_size i),
        (''previous_output'', JObj [(''txid'', JStr (in_txid inp)), (''vout'', json_u32 (in_vout inp))]),
        (''script_sig_size'', json_size (in_script_size inp)), (''sequence'', json_u32 (in_sequence inp)),
        (''witness_items'', json_size (in_witness_items inp))])"

definition output_json :: "'r chain_libs \<Rightarrow> nat \<times> tx_output \<Rightarrow> json" where
  "output_json c io =
     (case io of (i, out) \<Rightarrow>
      let s = to_script out;
          base = (\<lambda>t. [(''index'', json_size i), (''value'', json_u64 (to_value out)),
            (''script_pubkey'', JStr (encode_hex c s)), (''script_pubkey_size'', json_size (length s)),
            (''script_type'', JStr t)])
      in JObj (if is_op_return c s
               then base ''OP_RETURN'' @
                 (if 2 < length s
                  then [(''op_return_data'', JStr (encode_hex c (drop 2 s))),
                        (''op_return_size'', json_size (length s - 2))]
                  else [])
               else case extract_address_from_script c s of
                      Some (address, t) \<Rightarrow> base t @ [(''address'', JStr address)]
                    | None \<Rightarrow> base (script_type c s)))"

text \<open>The destination that an output index of a protostone names, when there is such an output.\<close>

definition destination :: "'r chain_libs \<Rightarrow> chain_tx \<Rightarrow> (string \<times> json) list \<Rightarrow> nat \<Rightarrow> json option" where
  "destination c tx front i =
     (if i < length (ct_outputs tx)
      then let out = ct_outputs tx ! i; s = to_script out
           in Some (JObj (front @
                [(''value'', json_u64 (to_value out)),
                 (''script_type'', JStr (if is_op_return c s then ''OP_RETURN'' else script_type c s))] @
                (case extract_address_from_script c s of
                   Some (address, _) \<Rightarrow> [(''address'', JStr address)] | None \<Rightarrow> [])))
      else None)"

definition keyed :: "string \<Rightarrow> json option \<Rightarrow> (string \<times> json) list" where
  "keyed k v = (case v of Some x \<Rightarrow> [(k, x)] | None \<Rightarrow> [])"

definition edict_json :: "'r chain_libs \<Rightarrow> chain_tx \<Rightarrow> edict \<Rightarrow> json res" where
  "edict_json c tx e =
     and_then (json_u128 (ed_output e)) (\<lambda>output.
       Inr (JObj ([(''id'', JObj [(''block'', JStr (to_string (ed_block e))), (''tx'', JStr (to_string (ed_tx e)))]),
           (''amount'', JStr (to_string (ed_amount e))), (''output'', output)] @
         keyed ''destination'' (destination c tx [] (unat (ucast (ed_output e) :: u64))))))"

definition protocol_name :: "u128 \<Rightarrow> string" where
  "protocol_name tag = (if tag = 1 then ''ALKANES Metaprotocol'' else ''Unknown Protocol'')"

definition index_destination :: "'r chain_libs \<Rightarrow> chain_tx \<Rightarrow> u32 option \<Rightarrow> json option" where
  "index_destination c tx target =
     Option.bind target (\<lambda>i. destination c tx [(''output_index'', json_u32 i)] (unat i))"

definition stone_json :: "'r chain_libs \<Rightarrow> chain_tx \<Rightarrow> stone \<Rightarrow> json res" where
  "stone_json c tx st =
     and_then (json_u128 (st_protocol_tag st)) (\<lambda>tag.
     and_then (res_map (edict_json c tx) (st_edicts st)) (\<lambda>edicts.
       Inr (JObj ([(''protocol_tag'', tag), (''protocol_name'', JStr (protocol_name (st_protocol_tag st))),
           (''message_bytes'', json_bytes (st_message st)),
           (''message_decoded'', json_option (\<lambda>ns. JArr (map (\<lambda>n. JStr (to_string n)) ns))
              (decode_protostone_message c (st_message st))),
           (''burn'', json_option json_u32 (st_burn st)), (''refund'', json_option json_u32 (st_refund st)),
           (''pointer'', json_option json_u32 (st_pointer st)), (''from'', json_option json_u32 (st_from st)),
           (''edicts'', JArr edicts)] @
         keyed ''pointer_destination'' (index_destination c tx (st_pointer st)) @
         keyed ''refund_destination'' (index_destination c tx (st_refund st))))))"

definition format_runestone_with_decoded_messages :: "'r chain_libs \<Rightarrow> chain_tx \<Rightarrow> json res" where
  "format_runestone_with_decoded_messages c tx =
     and_then (format_runestone c tx) (\<lambda>stones.
     and_then (res_map (stone_json c tx) stones) (\<lambda>protostones.
       Inr (JObj [(''transaction_id'', JStr (ct_txid tx)), (''version'', json_of_i32 (ct_version tx)),
         (''lock_time'', json_u32 (ct_lock_time tx)),
         (''inputs'', JArr (map input_json (enumerate 0 (ct_inputs tx)))),
         (''outputs'', JArr (map (output_json c) (enumerate 0 (ct_outputs tx)))),
         (''input_count'', json_size (length (ct_inputs tx))),
         (''output_count'', json_size (length (ct_outputs tx))),
         (''protostones'', JArr protostones)])))"

subsection \<open>The manual decoder\<close>

text \<open>\<open>OP_RETURN\<close> and \<open>OP_PUSHNUM_13\<close>.\<close>

definition op_return :: byte where "op_return = 0x6a"
definition op_pushnum_13 :: byte where "op_pushnum_13 = 0x5d"
definition runestone_magic_number :: byte where "runestone_magic_number = 13"

fun extract_payload_from_instructions :: "instruction list \<Rightarrow> byte list res" where
  "extract_payload_from_instructions [] = Inr []"
| "extract_payload_from_instructions (PushBytes bs # is) =
     and_then (extract_payload_from_instructions is) (\<lambda>rest. Inr (bs @ rest))"
| "extract_payload_from_instructions (Op code # is) = Inl (anyhow ''Invalid opcode in Runestone payload'')"
| "extract_payload_from_instructions (Bad_instruction # is) = Inl (anyhow ''Invalid script in Runestone payload'')"

fun extract_protocol_data :: "u128 list \<Rightarrow> u128 list" where
  "extract_protocol_data (tag # n # ns) =
     (if tag = ucast runestone_magic_number then n # extract_protocol_data ns else extract_protocol_data ns)"
| "extract_protocol_data _ = []"

fun add_tag :: "(string \<times> json) list \<Rightarrow> string \<Rightarrow> json \<Rightarrow> (string \<times> json) list" where
  "add_tag tags k v =
     (case map_of tags k of
        Some (JArr vs) \<Rightarrow> put_key k (JArr (vs @ [v])) tags
      | _ \<Rightarrow> put_key k (JArr [v]) tags)"

declare add_tag.simps [simp del]

fun tags_from :: "(string \<times> json) list \<Rightarrow> u128 list \<Rightarrow> (string \<times> json) list res" where
  "tags_from tags (tag # n # ns) =
     and_then (json_u128 n) (\<lambda>v. tags_from (add_tag tags (to_string tag) v) ns)"
| "tags_from tags _ = Inr tags"

definition extract_all_tags :: "u128 list \<Rightarrow> json res" where
  "extract_all_tags integers = and_then (tags_from [] integers) (\<lambda>tags. Inr (JObj tags))"

subsection \<open>The protostone of the manual decoder\<close>

definition typed :: "string \<Rightarrow> string \<Rightarrow> json \<Rightarrow> json" where
  "typed t operation cellpack = JObj [(''type'', JStr t), (''operation'', JStr operation), (''cellpack'', cellpack)]"

definition decode_diesel_protostone :: "byte list \<Rightarrow> json" where
  "decode_diesel_protostone message =
     (if message = [2, 0, 77]
      then typed ''DIESEL'' ''mint''
             (JObj [(''message_type'', json_byte (message ! 0)), (''reserved'', json_byte (message ! 1)),
               (''action'', JStr ''M'')])
      else typed ''DIESEL'' ''unknown'' (json_bytes message))"

definition call_type_name :: "byte \<Rightarrow> string" where
  "call_type_name t = (if t = 1 then ''deploy'' else if t = 2 then ''call'' else if t = 3 then ''upgrade'' else ''unknown'')"

definition decode_alkane_protostone :: "'r chain_libs \<Rightarrow> byte list \<Rightarrow> json" where
  "decode_alkane_protostone c message =
     typed ''Alkane'' ''contract_call''
       (case message of
          call_type # b # bs \<Rightarrow>
            let data = b # bs
            in JObj ([(''call_type'', json_byte call_type), (''call_type_name'', JStr (call_type_name call_type)),
                 (''data'', json_bytes data)] @
               (if call_type = 2 \<and> 4 \<le> length data
                then [(''function_selector'', JStr (encode_hex c (take 4 data))),
                      (''arguments'', JStr (encode_hex c (drop 4 data)))]
                else []))
        | _ \<Rightarrow> json_bytes message)"

definition operation_name :: "byte \<Rightarrow> string" where
  "operation_name t =
     (if t = 1 then ''mint'' else if t = 2 then ''transfer'' else if t = 3 then ''burn''
      else if t = 4 then ''split'' else if t = 5 then ''join'' else ''unknown'')"

definition decode_protorune_protostone :: "'r chain_libs \<Rightarrow> byte list \<Rightarrow> json" where
  "decode_protorune_protostone c message =
     typed ''Protorune'' ''token_operation''
       (case message of
          t # b # bs \<Rightarrow>
            JObj ([(''operation_type'', json_byte t), (''operation_name'', JStr (operation_name t)),
                (''data'', json_bytes (b # bs))] @
              (case bs of
                 amount # x # xs \<Rightarrow>
                   if t = 1 then [(''token_details'', JObj [(''token_id'', json_byte b),
                      (''amount'', json_byte amount), (''metadata'', json_bytes (x # xs))])]
                   else if t = 2 then [(''transfer_details'', JObj [(''token_id'', json_byte b),
                      (''amount'', json_byte amount), (''recipient'', JStr (encode_hex c (x # xs)))])]
                   else []
               | _ \<Rightarrow> []))
        | _ \<Rightarrow> json_bytes message)"

definition decode_protostone :: "'r chain_libs \<Rightarrow> u128 \<Rightarrow> byte list \<Rightarrow> json res" where
  "decode_protostone c tag message =
     (if tag = 1 then Inr (decode_diesel_protostone message)
      else if tag = 2 then Inr (decode_alkane_protostone c message)
      else if tag = 3 then Inr (decode_protorune_protostone c message)
      else if tag = 4 then Inr (typed ''AlkaneState'' ''state_operation'' (json_bytes message))
      else if tag = 5 then Inr (typed ''AlkaneEvent'' ''event_operation'' (json_bytes message))
      else and_then (json_u128 tag) (\<lambda>t.
        Inr (JObj [(''type'', JStr ''Unknown''), (''protocol_tag'', t), (''cellpack'', json_bytes message)])))"

text \<open>One output that starts with the two opcodes.\<close>

definition decode_runestone_output :: "'r chain_libs \<Rightarrow> string \<Rightarrow> nat \<Rightarrow> instruction list \<Rightarrow> json res" where
  "decode_runestone_output c txid vout body =
     and_then (extract_payload_from_instructions body) (\<lambda>payload.
     and_then (with_context ''Failed to decode integers from Runestone payload'' (decode_integers payload)) (\<lambda>integers.
     let protocol_data = extract_protocol_data integers
     in and_then (json_u128s protocol_data) (\<lambda>data_json.
        and_then (extract_all_tags integers) (\<lambda>all_tags.
        and_then (case protocol_data of
                    [] \<Rightarrow> Inr []
                  | tag # message \<Rightarrow>
                      let bytes = map (\<lambda>n. ucast n :: byte) message
                      in and_then (json_u128 tag) (\<lambda>t.
                         and_then (decode_protostone c tag bytes) (\<lambda>p.
                           Inr [(''protocol_tag'', t), (''message_bytes'', json_bytes bytes), (''protostone'', p)])))
          (\<lambda>extra.
        and_then (json_u128s integers) (\<lambda>raw.
          Inr (JObj ([(''transaction_id'', JStr txid), (''output_index'', json_size vout),
              (''protocol_data'', data_json), (''all_tags'', all_tags)] @ extra @
            [(''raw_integers'', raw)]))))))))"

fun decode_runestone_from :: "'r chain_libs \<Rightarrow> string \<Rightarrow> nat \<Rightarrow> tx_output list \<Rightarrow> json res" where
  "decode_runestone_from c txid vout [] = Inl (anyhow ''No Runestone found in transaction'')"
| "decode_runestone_from c txid vout (out # outs) =
     (case instructions c (to_script out) of
        Op a # Op b # body \<Rightarrow>
          if a = op_return \<and> b = op_pushnum_13 then decode_runestone_output c txid vout body
          else decode_runestone_from c txid (Suc vout) outs
      | _ \<Rightarrow> decode_runestone_from c txid (Suc vout) outs)"

definition decode_runestone :: "'r chain_libs \<Rightarrow> chain_tx \<Rightarrow> json res" where
  "decode_runestone c tx = decode_runestone_from c (ct_txid tx) 0 (ct_outputs tx)"

subsection \<open>When the formatter succeeds\<close>

text \<open>The protocol tag and the outputs of the edicts fit into 64 bits.\<close>

definition representable :: "stone \<Rightarrow> bool" where
  "representable st \<longleftrightarrow>
     unat (st_protocol_tag st) < 2 ^ 64 \<and> (\<forall>e \<in> set (st_edicts st). unat (ed_output e) < 2 ^ 64)"

lemma res_map_Inr: "res_map f xs = Inr ys \<longleftrightarrow> list_all2 (\<lambda>x y. f x = Inr y) xs ys"
  by (induction xs arbitrary: ys) (auto simp: list_all2_Cons1)

lemma res_map_total:
  assumes "\<And>x. x \<in> set xs \<Longrightarrow> \<exists>y. f x = Inr y"
  shows "\<exists>ys. res_map f xs = Inr ys"
  using assms
proof (induction xs)
  case (Cons x xs)
  then obtain y ys where "f x = Inr y" "res_map f xs = Inr ys" by (metis list.set_intros)
  then show ?case by simp
qed simp

lemma res_map_panics:
  assumes "\<And>y. y \<in> set xs \<Longrightarrow> (\<exists>z. f y = Inr z) \<or> (\<exists>msg. f y = Inl (Panic msg))"
  shows "(\<forall>y \<in> set xs. \<exists>z. f y = Inr z) \<or> (\<exists>msg. res_map f xs = Inl (Panic msg))"
  using assms
proof (induction xs)
  case (Cons a as)
  then have "(\<forall>y \<in> set as. \<exists>z. f y = Inr z) \<or> (\<exists>msg. res_map f as = Inl (Panic msg))" by simp
  moreover have "(\<exists>z. f a = Inr z) \<or> (\<exists>msg. f a = Inl (Panic msg))" using Cons.prems by simp
  ultimately show ?case by auto
qed simp

lemma json_u128_fits: "unat n < 2 ^ 64 \<Longrightarrow> json_u128 n = Inr (json_u64 (ucast n))"
  and json_u128_panics: "\<not> unat n < 2 ^ 64 \<Longrightarrow> \<exists>msg. json_u128 n = Inl (Panic msg)"
  by (simp_all add: json_u128_def)

lemma edict_json_cases:
  "(if unat (ed_output e) < 2 ^ 64 then \<exists>v. edict_json c tx e = Inr v
    else \<exists>msg. edict_json c tx e = Inl (Panic msg))"
  using json_u128_fits [of "ed_output e"] json_u128_panics [of "ed_output e"]
  by (auto simp: edict_json_def)

lemma stone_json_cases:
  "(if representable st then \<exists>v. stone_json c tx st = Inr v else \<exists>msg. stone_json c tx st = Inl (Panic msg))"
proof -
  have edicts: "(\<exists>z. edict_json c tx e = Inr z) \<or> (\<exists>msg. edict_json c tx e = Inl (Panic msg))" for e
    using edict_json_cases [of e c tx] by (simp split: if_splits)
  show ?thesis
  proof (cases "unat (st_protocol_tag st) < 2 ^ 64")
    case True
    note tag = json_u128_fits [OF True]
    show ?thesis
    proof (cases "\<forall>e \<in> set (st_edicts st). unat (ed_output e) < 2 ^ 64")
      case fits: True
      then have "\<exists>es. res_map (edict_json c tx) (st_edicts st) = Inr es"
        using edict_json_cases [of _ c tx] by (intro res_map_total) simp
      with True fits tag show ?thesis by (auto simp: stone_json_def representable_def)
    next
      case False
      then obtain e where "e \<in> set (st_edicts st)" "\<not> (\<exists>z. edict_json c tx e = Inr z)"
        using edict_json_cases [of _ c tx] by (metis Inl_Inr_False)
      then have "\<exists>msg. res_map (edict_json c tx) (st_edicts st) = Inl (Panic msg)"
        using res_map_panics [of "st_edicts st" "edict_json c tx", OF edicts] by blast
      with False tag show ?thesis by (auto simp: stone_json_def representable_def)
    qed
  next
    case False
    then show ?thesis using json_u128_panics [OF False] by (auto simp: stone_json_def representable_def)
  qed
qed

lemma stones_json_cases:
  "(if \<forall>st \<in> set stones. representable st then \<exists>vs. res_map (stone_json c tx) stones = Inr vs
    else \<exists>msg. res_map (stone_json c tx) stones = Inl (Panic msg))"
proof (cases "\<forall>st \<in> set stones. representable st")
  case True
  then have "\<exists>vs. res_map (stone_json c tx) stones = Inr vs"
    using stone_json_cases [of _ c tx] by (intro res_map_total) (metis)
  with True show ?thesis by simp
next
  case False
  have "(\<exists>z. stone_json c tx st = Inr z) \<or> (\<exists>msg. stone_json c tx st = Inl (Panic msg))" for st
    using stone_json_cases [of st c tx] by (simp split: if_splits)
  moreover obtain st where "st \<in> set stones" "\<not> (\<exists>z. stone_json c tx st = Inr z)"
    using False stone_json_cases [of _ c tx] by (metis Inl_Inr_False)
  ultimately show ?thesis
    using False res_map_panics [of stones "stone_json c tx"] by (simp, blast)
qed

subsection \<open>What the formatted protostones say\<close>

definition addressed_output :: "'r chain_libs \<Rightarrow> chain_tx \<Rightarrow> u32 option \<Rightarrow> string option" where
  "addressed_output c tx target =
     Option.bind target (\<lambda>i.
       if unat i < length (ct_outputs tx) then mainnet_address c (to_script (ct_outputs tx ! unat i)) else None)"

lemma jget_JObj_keyed: "map_of (keyed k v @ kvs) k' = (if k = k' \<and> v \<noteq> None then v else map_of kvs k')"
  by (auto simp: keyed_def split: option.split)

lemma destination_address:
  "map_of front ''address'' = None \<Longrightarrow>
   Option.bind (destination c tx front i) (jstr [''address'']) =
     (if i < length (ct_outputs tx) then mainnet_address c (to_script (ct_outputs tx ! i)) else None)"
  by (auto simp: destination_def Let_def jstr_def extract_address_from_script_def map_add_def
      split: option.split)

lemma index_destination_address:
  "Option.bind (index_destination c tx target) (jstr [''address'']) = addressed_output c tx target"
proof (cases target)
  case (Some i)
  then show ?thesis
    using destination_address [of "[(''output_index'', json_u32 i)]" c tx "unat i"]
    by (simp add: index_destination_def addressed_output_def)
qed (simp add: index_destination_def addressed_output_def)

lemma jstr_nested: "jstr (k # ks) v = Option.bind (jget k v) (jstr ks)"
  by (cases "jget k v") (simp_all add: jstr_def)

lemma stone_json_reads:
  assumes "stone_json c tx st = Inr v"
  shows "jstr [''pointer_destination'', ''address''] v = addressed_output c tx (st_pointer st)"
    and "jstr [''refund_destination'', ''address''] v = addressed_output c tx (st_refund st)"
    and "jget ''pointer'' v = Some (json_option json_u32 (st_pointer st))"
    and "jget ''message_bytes'' v = Some (json_bytes (st_message st))"
proof -
  obtain tag edicts where v: "v = JObj ([(''protocol_tag'', tag), (''protocol_name'', JStr (protocol_name (st_protocol_tag st))),
           (''message_bytes'', json_bytes (st_message st)),
           (''message_decoded'', json_option (\<lambda>ns. JArr (map (\<lambda>n. JStr (to_string n)) ns))
              (decode_protostone_message c (st_message st))),
           (''burn'', json_option json_u32 (st_burn st)), (''refund'', json_option json_u32 (st_refund st)),
           (''pointer'', json_option json_u32 (st_pointer st)), (''from'', json_option json_u32 (st_from st)),
           (''edicts'', JArr edicts)] @
         keyed ''pointer_destination'' (index_destination c tx (st_pointer st)) @
         keyed ''refund_destination'' (index_destination c tx (st_refund st)))"
    using assms by (auto simp: stone_json_def)
  have "jget ''pointer_destination'' v = index_destination c tx (st_pointer st)"
    "jget ''refund_destination'' v = index_destination c tx (st_refund st)"
    unfolding v by (auto simp: keyed_def split: option.split)
  then show "jstr [''pointer_destination'', ''address''] v = addressed_output c tx (st_pointer st)"
    "jstr [''refund_destination'', ''address''] v = addressed_output c tx (st_refund st)"
    by (simp_all add: jstr_nested [of _ "[''address'']"] index_destination_address)
  show "jget ''pointer'' v = Some (json_option json_u32 (st_pointer st))"
    "jget ''message_bytes'' v = Some (json_bytes (st_message st))"
    unfolding v by simp_all
qed

text \<open>
  C19: the formatter the indexer calls.  For a transaction whose runestone gives protostones, the
  formatter succeeds exactly when their protocol tags and edict outputs fit into 64 bits and panics
  otherwise (never an error); when it succeeds it lists one object per protostone, in their order,
  with the message bytes and the mainnet address of the output that the protostone's pointer names.
\<close>

theorem formatter_lists_protostones:
  assumes "format_runestone c tx = Inr stones"
  shows "if \<forall>st \<in> set stones. representable st
    then \<exists>v ps. format_runestone_with_decoded_messages c tx = Inr v \<and>
      jget ''protostones'' v = Some (JArr ps) \<and> jstr [''transaction_id''] v = Some (ct_txid tx) \<and>
      list_all2 (\<lambda>st p. jget ''message_bytes'' p = Some (json_bytes (st_message st)) \<and>
        jstr [''pointer_destination'', ''address''] p = addressed_output c tx (st_pointer st)) stones ps
    else \<exists>msg. format_runestone_with_decoded_messages c tx = Inl (Panic msg)"
proof (cases "\<forall>st \<in> set stones. representable st")
  case True
  then obtain ps where ps: "res_map (stone_json c tx) stones = Inr ps"
    using stones_json_cases [of stones c tx] by auto
  then have "list_all2 (\<lambda>st p. stone_json c tx st = Inr p) stones ps" by (simp add: res_map_Inr)
  then have "list_all2 (\<lambda>st p. jget ''message_bytes'' p = Some (json_bytes (st_message st)) \<and>
      jstr [''pointer_destination'', ''address''] p = addressed_output c tx (st_pointer st)) stones ps"
    by (rule list_all2_mono) (auto dest: stone_json_reads)
  with True assms ps show ?thesis
    by (simp add: format_runestone_with_decoded_messages_def jstr_def)
next
  case False
  then have "\<exists>msg. res_map (stone_json c tx) stones = Inl (Panic msg)"
    using stones_json_cases [of stones c tx] by (simp only: if_False)
  then have "\<exists>msg. format_runestone_with_decoded_messages c tx = Inl (Panic msg)"
    using assms by (auto simp: format_runestone_with_decoded_messages_def)
  with False show ?thesis by (simp only: if_False)
qed

definition example_stone :: stone where
  "example_stone = \<lparr>st_protocol_tag = 1, st_message = [2, 0, 77], st_burn = None, st_refund = None,
     st_pointer = Some 0, st_from = None, st_edicts = []\<rparr>"

definition example_tx :: chain_tx where
  "example_tx = \<lparr>ct_txid = ''ab'', ct_version = 2, ct_lock_time = 0, ct_inputs = [],
     ct_outputs = [\<lparr>to_value = 546, to_script = [0x51]\<rparr>,
       \<lparr>to_value = 0, to_script = [0x6a, 0x5d, 4, 13, 2, 13, 77]\<rparr>]\<rparr>"

definition example_chain :: "unit chain_libs" where
  "example_chain = \<lparr>tx_details = (\<lambda>t. example_tx),
     instructions = (\<lambda>s. case s of a # b # n # bs \<Rightarrow> [Op a, Op b, PushBytes bs] | _ \<Rightarrow> map Op s),
     is_op_return = (\<lambda>s. take 1 s = [0x6a]), is_p2pkh = (\<lambda>s. False), is_p2sh = (\<lambda>s. False),
     is_p2tr = (\<lambda>s. take 1 s = [0x51]), is_witness_program = (\<lambda>s. False),
     mainnet_address = (\<lambda>s. if take 1 s = [0x51] then Some ''bc1p'' else None),
     decipher = (\<lambda>tx. Some (Runestone_artifact ())), stones_of_runestone = (\<lambda>_. Inr [example_stone]),
     decode_varint_list = (\<lambda>bs. Some (map ucast bs)), encode_hex = hex_text\<rparr>"

lemma format_runestone_example: "format_runestone example_chain tx = Inr [example_stone]"
  by (simp add: format_runestone_def example_chain_def)

lemma formatter_lists_protostones_witness:
  "\<exists>v p. format_runestone_with_decoded_messages example_chain example_tx = Inr v \<and>
     jget ''protostones'' v = Some (JArr [p]) \<and> jstr [''pointer_destination'', ''address''] p = Some ''bc1p''"
proof -
  have "representable example_stone" by (simp add: representable_def example_stone_def)
  moreover have "addressed_output example_chain example_tx (st_pointer example_stone) = Some ''bc1p''"
    by (simp add: addressed_output_def example_stone_def example_tx_def example_chain_def)
  ultimately show ?thesis
    using formatter_lists_protostones [OF format_runestone_example [of example_tx]]
    by (auto simp: list_all2_Cons1)
qed

subsection \<open>What the manual decoder reads\<close>

fun tag_values :: "u128 \<Rightarrow> u128 list \<Rightarrow> u128 list" where
  "tag_values t (tag # n # ns) = (if tag = t then n # tag_values t ns else tag_values t ns)"
| "tag_values t _ = []"

lemma extract_protocol_data_eq: "extract_protocol_data ns = tag_values 13 ns"
  by (induction ns rule: extract_protocol_data.induct) (simp_all add: runestone_magic_number_def)

lemma to_string_eq_iff: "to_string t = to_string (t' :: u128) \<longleftrightarrow> t = t'"
  by simp

text \<open>Every key of the tags holds an array.\<close>

definition array_of :: "(string \<times> json) list \<Rightarrow> string \<Rightarrow> json list" where
  "array_of tags k = unwrap_or [] (Option.bind (map_of tags k) as_array)"

definition arrays :: "(string \<times> json) list \<Rightarrow> bool" where
  "arrays tags \<longleftrightarrow> (\<forall>k v. map_of tags k = Some v \<longrightarrow> (\<exists>xs. v = JArr xs))"

lemma add_tag_arrays:
  assumes "arrays tags"
  shows "arrays (add_tag tags k v)" "array_of (add_tag tags k v) k' = array_of tags k' @ (if k' = k then [v] else [])"
proof -
  have "map_of tags k = None \<or> (\<exists>xs. map_of tags k = Some (JArr xs))"
    using assms by (cases "map_of tags k") (auto simp: arrays_def)
  then show "arrays (add_tag tags k v)" "array_of (add_tag tags k v) k' = array_of tags k' @ (if k' = k then [v] else [])"
    using assms by (auto simp: add_tag.simps arrays_def array_of_def split: if_splits)
qed

lemma tags_from_reads:
  assumes "arrays tags" "\<forall>n \<in> set ns. unat n < 2 ^ 64"
  shows "\<exists>tags'. tags_from tags ns = Inr tags' \<and>
    (\<forall>t. array_of tags' (to_string t) = array_of tags (to_string t) @ map (\<lambda>n. json_u64 (ucast n)) (tag_values t ns))"
  using assms
proof (induction tags ns rule: tags_from.induct)
  case (1 tags tag n ns)
  then have n: "json_u128 n = Inr (json_u64 (ucast n))" by (intro json_u128_fits) simp
  let ?tags = "add_tag tags (to_string tag) (json_u64 (ucast n))"
  have ok: "arrays ?tags" and fits: "\<forall>m \<in> set ns. unat m < 2 ^ 64"
    using add_tag_arrays(1) [OF 1(2)] 1(3) by simp_all
  obtain tags' where "tags_from ?tags ns = Inr tags'" and reads:
    "\<forall>t. array_of tags' (to_string t) = array_of ?tags (to_string t) @ map (\<lambda>n. json_u64 (ucast n)) (tag_values t ns)"
    using 1(1) [OF ok fits] by blast
  then have "tags_from tags (tag # n # ns) = Inr tags'" by (simp add: n)
  moreover have "array_of tags' (to_string t) =
      array_of tags (to_string t) @ map (\<lambda>n. json_u64 (ucast n)) (tag_values t (tag # n # ns))" for t
    using reads add_tag_arrays(2) [OF 1(2), of "to_string tag" "json_u64 (ucast n)"] by auto
  ultimately show ?case by blast
qed auto

text \<open>A script is marked when it starts with \<open>OP_RETURN OP_13\<close>.\<close>

definition marked :: "instruction list \<Rightarrow> bool" where
  "marked is \<longleftrightarrow> (\<exists>body. is = Op op_return # Op op_pushnum_13 # body)"

lemma decode_runestone_from_skip:
  "\<forall>out \<in> set before. \<not> marked (instructions c (to_script out)) \<Longrightarrow>
   decode_runestone_from c txid vout (before @ outs) = decode_runestone_from c txid (vout + length before) outs"
  by (induction before arbitrary: vout)
    (auto simp: marked_def split: list.splits instruction.splits)

lemma extract_payload_pushes: "extract_payload_from_instructions (map PushBytes parts) = Inr (concat parts)"
  by (induction parts) auto

lemma json_u128s_fit:
  "\<forall>n \<in> set ns. unat n < 2 ^ 64 \<Longrightarrow> json_u128s ns = Inr (JArr (map (\<lambda>n. json_u64 (ucast n)) ns))"
  by (induction ns) (auto simp: json_u128s_def json_u128_fits)

lemma set_tag_values: "set (tag_values t ns) \<subseteq> set ns"
  by (induction t ns rule: tag_values.induct) auto

lemma decode_protostone_total: "unat tag < 2 ^ 64 \<Longrightarrow> \<exists>p. decode_protostone c tag message = Inr p"
  by (simp add: decode_protostone_def json_u128_fits)

lemma decode_runestone_output_reads:
  assumes "concat parts = concat (map varint ws)" and fits: "\<forall>w \<in> set ws. unat w < 2 ^ 64"
  shows "\<exists>v tags. decode_runestone_output c txid vout (map PushBytes parts) = Inr v \<and>
    jget ''output_index'' v = Some (json_size vout) \<and>
    jget ''protocol_data'' v = Some (JArr (map (\<lambda>n. json_u64 (ucast n)) (tag_values 13 ws))) \<and>
    jget ''raw_integers'' v = Some (JArr (map (\<lambda>n. json_u64 (ucast n)) ws)) \<and>
    jget ''all_tags'' v = Some (JObj tags) \<and>
    (\<forall>t. array_of tags (to_string t) = map (\<lambda>n. json_u64 (ucast n)) (tag_values t ws))"
proof -
  obtain tags where tags: "tags_from [] ws = Inr tags"
    "\<forall>t. array_of tags (to_string t) = map (\<lambda>n. json_u64 (ucast n)) (tag_values t ws)"
    using tags_from_reads [of "[]" ws] fits by (auto simp: arrays_def array_of_def)
  have data: "\<forall>n \<in> set (tag_values 13 ws). unat n < 2 ^ 64" using fits set_tag_values [of 13 ws] by auto
  let ?base = "[(''transaction_id'', JStr txid), (''output_index'', json_size vout),
    (''protocol_data'', JArr (map (\<lambda>n. json_u64 (ucast n)) (tag_values 13 ws))), (''all_tags'', JObj tags)]"
  let ?raw = "[(''raw_integers'', JArr (map (\<lambda>n. json_u64 (ucast n)) ws))]"
  have ints: "decode_integers (concat parts) = Inr ws" unfolding assms(1) by (rule integers_round_trip)
  have "\<exists>extra. map_of extra ''output_index'' = None \<and> map_of extra ''raw_integers'' = None \<and>
      decode_runestone_output c txid vout (map PushBytes parts) = Inr (JObj (?base @ extra @ ?raw))"
  proof (cases "tag_values 13 ws")
    case Nil
    then show ?thesis
      using tags(1) json_u128s_fit [OF fits] json_u128s_fit [OF data] ints
      by (intro exI [of _ "[]"])
        (simp add: decode_runestone_output_def extract_payload_pushes extract_protocol_data_eq extract_all_tags_def Let_def)
  next
    case (Cons tag message)
    then have t: "unat tag < 2 ^ 64" using data by simp
    obtain p where p: "decode_protostone c tag (map ucast message) = Inr p"
      using decode_protostone_total [OF t] by blast
    show ?thesis
      using tags(1) json_u128s_fit [OF fits] json_u128s_fit [OF data] ints p json_u128_fits [OF t] Cons
      by (intro exI [of _ "[(''protocol_tag'', json_u64 (ucast tag)),
            (''message_bytes'', json_bytes (map ucast message)), (''protostone'', p)]"])
        (simp add: decode_runestone_output_def extract_payload_pushes extract_protocol_data_eq extract_all_tags_def Let_def)
  qed
  then obtain extra where "map_of extra ''output_index'' = None" "map_of extra ''raw_integers'' = None"
    "decode_runestone_output c txid vout (map PushBytes parts) = Inr (JObj (?base @ extra @ ?raw))"
    by blast
  then show ?thesis
    using tags(2)
    by (intro exI [of _ "JObj (?base @ extra @ ?raw)"] exI [of _ tags]) (simp add: map_add_def)
qed

text \<open>An integer of more than 64 bits among those read: every step on the way either succeeds or
  panics, and the last one, which writes all of them, panics at the latest.\<close>

definition succeeds_or_panics :: "'a res \<Rightarrow> bool" where
  "succeeds_or_panics r \<longleftrightarrow> (\<exists>x. r = Inr x) \<or> (\<exists>msg. r = Inl (Panic msg))"

lemma json_u128_or_panics: "succeeds_or_panics (json_u128 n)"
  using json_u128_fits [of n] json_u128_panics [of n] by (auto simp: succeeds_or_panics_def)

lemma json_u128s_or_panics: "succeeds_or_panics (json_u128s ns)"
  using res_map_panics [of ns json_u128] json_u128_or_panics res_map_total [of ns json_u128]
  by (auto simp: json_u128s_def succeeds_or_panics_def)

lemma json_u128s_panics:
  assumes "n \<in> set ns" "\<not> unat n < 2 ^ 64"
  shows "\<exists>msg. json_u128s ns = Inl (Panic msg)"
  using res_map_panics [of ns json_u128] json_u128_or_panics json_u128_panics [OF assms(2)] assms(1)
  by (fastforce simp: json_u128s_def succeeds_or_panics_def)

lemma tags_from_or_panics: "succeeds_or_panics (tags_from tags ns)"
proof (induction tags ns rule: tags_from.induct)
  case (1 tags tag n ns)
  from json_u128_or_panics [of n] 1 [unfolded succeeds_or_panics_def] show ?case
    unfolding succeeds_or_panics_def by (elim disjE exE) auto
qed (auto simp: succeeds_or_panics_def)

lemma decode_protostone_or_panics: "succeeds_or_panics (decode_protostone c tag message)"
  using json_u128_or_panics [of tag] by (auto simp: decode_protostone_def succeeds_or_panics_def)

lemma and_then_panics:
  "succeeds_or_panics r \<Longrightarrow> (\<And>x. r = Inr x \<Longrightarrow> \<exists>msg. f x = Inl (Panic msg)) \<Longrightarrow> \<exists>msg. and_then r f = Inl (Panic msg)"
  by (auto simp: succeeds_or_panics_def)

lemma decode_runestone_output_panics:
  assumes "concat parts = concat (map varint ws)" and big: "w \<in> set ws" "\<not> unat w < 2 ^ 64"
  shows "\<exists>msg. decode_runestone_output c txid vout (map PushBytes parts) = Inl (Panic msg)"
proof -
  have ints: "decode_integers (concat parts) = Inr ws" unfolding assms(1) by (rule integers_round_trip)
  obtain msg where raw: "json_u128s ws = Inl (Panic msg)" using json_u128s_panics [OF big] by blast
  let ?extra = "case tag_values 13 ws of
      [] \<Rightarrow> Inr []
    | tag # message \<Rightarrow>
        and_then (json_u128 tag) (\<lambda>t.
        and_then (decode_protostone c tag (map ucast message)) (\<lambda>p.
          Inr [(''protocol_tag'', t), (''message_bytes'', json_bytes (map ucast message)), (''protostone'', p)]))"
  have "succeeds_or_panics ?extra"
  proof (cases "tag_values 13 ws")
    case (Cons tag message)
    with json_u128_or_panics [of tag] decode_protostone_or_panics [of c tag "map ucast message"] show ?thesis
      by (auto simp: succeeds_or_panics_def)
  qed (simp add: succeeds_or_panics_def)
  moreover have "succeeds_or_panics (extract_all_tags ws)"
    using tags_from_or_panics [of "[]" ws] by (auto simp: extract_all_tags_def succeeds_or_panics_def)
  moreover note json_u128s_or_panics [of "tag_values 13 ws"]
  ultimately show ?thesis
    unfolding decode_runestone_output_def extract_payload_pushes ints Let_def extract_protocol_data_eq
      with_context.simps and_then.simps raw
    by (intro and_then_panics) simp_all
qed

text \<open>
  C20: the manual decoder.  Take the first output whose script is \<open>OP_RETURN OP_13\<close> and pushes of the
  LEB128 forms of 128-bit integers, however they are cut into pushes.  When every integer has at most
  64 bits, the decoder reads those integers back, the values of every tag in their order, and as
  protocol data those of tag 13; when one of them has more, it panics, since the integers are
  written as JSON numbers.
\<close>

theorem decode_runestone_reads:
  assumes "ct_outputs tx = before @ out # after"
    and "\<forall>o' \<in> set before. \<not> marked (instructions c (to_script o'))"
    and "instructions c (to_script out) = Op op_return # Op op_pushnum_13 # map PushBytes parts"
    and "concat parts = concat (map varint ws)"
  shows "if \<forall>w \<in> set ws. unat w < 2 ^ 64
    then \<exists>v tags. decode_runestone c tx = Inr v \<and>
      jget ''output_index'' v = Some (json_size (length before)) \<and>
      jget ''protocol_data'' v = Some (JArr (map (\<lambda>n. json_u64 (ucast n)) (tag_values 13 ws))) \<and>
      jget ''raw_integers'' v = Some (JArr (map (\<lambda>n. json_u64 (ucast n)) ws)) \<and>
      jget ''all_tags'' v = Some (JObj tags) \<and>
      (\<forall>t. array_of tags (to_string t) = map (\<lambda>n. json_u64 (ucast n)) (tag_values t ws))
    else \<exists>msg. decode_runestone c tx = Inl (Panic msg)"
proof -
  have "decode_runestone c tx = decode_runestone_output c (ct_txid tx) (length before) (map PushBytes parts)"
    using assms(1-3) by (simp add: decode_runestone_def decode_runestone_from_skip)
  then show ?thesis
    using decode_runestone_output_reads [OF assms(4)] decode_runestone_output_panics [OF assms(4)] by auto
qed

lemma decode_runestone_reads_witness:
  "\<exists>v. decode_runestone example_chain example_tx = Inr v \<and>
     jget ''protocol_data'' v = Some (JArr [json_u64 2, json_u64 77])"
proof -
  let ?out = "\<lparr>to_value = 0, to_script = [0x6a, 0x5d, 4, 13, 2, 13, 77]\<rparr>"
  have small: "varint 13 = [13]" "varint 2 = [2]" "varint 77 = [77]"
    by (simp_all add: varint_def leb128.simps)
  have 1: "ct_outputs example_tx = [\<lparr>to_value = 546, to_script = [0x51]\<rparr>] @ ?out # []"
    by (simp add: example_tx_def)
  have 2: "\<forall>o' \<in> set [\<lparr>to_value = 546, to_script = [0x51]\<rparr>]. \<not> marked (instructions example_chain (to_script o'))"
    by (simp add: example_chain_def marked_def)
  have 3: "instructions example_chain (to_script ?out) = Op op_return # Op op_pushnum_13 # map PushBytes [[13, 2, 13, 77]]"
    by (simp add: example_chain_def op_return_def op_pushnum_13_def)
  have 4: "concat [[13, 2, 13, 77]] = concat (map varint [13, 2, 13, 77])" by (simp add: small)
  have 5: "\<forall>w \<in> set [13, 2, 13, 77 :: u128]. unat w < 2 ^ 64" by simp
  from decode_runestone_reads [OF 1 2 3 4, unfolded if_P [OF 5]] obtain v where
    "decode_runestone example_chain example_tx = Inr v"
    "jget ''protocol_data'' v = Some (JArr (map (\<lambda>n. json_u64 (ucast n)) (tag_values 13 [13, 2, 13, 77])))"
    by blast
  then show ?thesis by (intro exI [of _ v]) simp
qed

end
