(* ===== verification/Deezel_Client.thy ===== *)
theory Deezel_Client
  imports Bytes
begin

text \<open>
  The client side of the deezel library, from the copy in
  \<open>src/reference/deezel/crates/deezel-common/src\<close>: its errors (\<open>lib.rs\<close>), the error object of a
  JSON-RPC response (\<open>rpc.rs\<close>), and the operations of \<open>ConcreteProvider\<close> (\<open>provider.rs\<close>) that the
  indexer calls, with the provider's construction.  The HTTP client and the text of a JSON value
  (parsing and printing) are the parameters in \<open>backend\<close>; successive requests are numbered.
\<close>

subsection \<open>Errors\<close>

datatype deezel_error =
    JsonRpc string | RpcError string | Storage string | Network string | Wallet string
  | Alkanes string | Runestone string | Serialization string | Validation string
  | Configuration string | InvalidParameters string | AddressResolution string
  | Transaction string | Monitor string | WasmExecution string | Crypto string | Io string
  | Parse string | Pgp string | Hex string | NotImplemented string | NotConfigured string
  | Other string

type_synonym 'a dres = "deezel_error + 'a"

fun deezel_error_text :: "deezel_error \<Rightarrow> string" where
  "deezel_error_text (JsonRpc msg) = ''JSON-RPC error: '' @ msg"
| "deezel_error_text (RpcError msg) = ''RPC error: '' @ msg"
| "deezel_error_text (Storage msg) = ''Storage error: '' @ msg"
| "deezel_error_text (Network msg) = ''Network error: '' @ msg"
| "deezel_error_text (Wallet msg) = ''Wallet error: '' @ msg"
| "deezel_error_text (Alkanes msg) = ''Alkanes error: '' @ msg"
| "deezel_error_text (Runestone msg) = ''Runestone error: '' @ msg"
| "deezel_error_text (Serialization msg) = ''Serialization error: '' @ msg"
| "deezel_error_text (Validation msg) = ''Validation error: '' @ msg"
| "deezel_error_text (Configuration msg) = ''Configuration error: '' @ msg"
| "deezel_error_text (InvalidParameters msg) = ''Invalid parameters: '' @ msg"
| "deezel_error_text (AddressResolution msg) = ''Address resolution error: '' @ msg"
| "deezel_error_text (Transaction msg) = ''Transaction error: '' @ msg"
| "deezel_error_text (Monitor msg) = ''Monitoring error: '' @ msg"
| "deezel_error_text (WasmExecution msg) = ''WASM execution error: '' @ msg"
| "deezel_error_text (Crypto msg) = ''Cryptography error: '' @ msg"
| "deezel_error_text (Io msg) = ''I/O error: '' @ msg"
| "deezel_error_text (Parse msg) = ''Parse error: '' @ msg"
| "deezel_error_text (Pgp msg) = ''PGP error: '' @ msg"
| "deezel_error_text (Hex msg) = ''Hex error: '' @ msg"
| "deezel_error_text (NotImplemented msg) = ''Not implemented: '' @ msg"
| "deezel_error_text (NotConfigured msg) = ''Not configured: '' @ msg"
| "deezel_error_text (Other msg) = ''Other error: '' @ msg"

text \<open>\<open>?\<close> within the library, and the conversion of its errors to anyhow's.\<close>

fun dbind :: "'a dres \<Rightarrow> ('a \<Rightarrow> 'b dres) \<Rightarrow> 'b dres" where
  "dbind (Inl e) f = Inl e"
| "dbind (Inr x) f = f x"

fun dres_text :: "'a dres \<Rightarrow> string + 'a" where
  "dres_text (Inl e) = Inl (deezel_error_text e)"
| "dres_text (Inr x) = Inr x"

fun_cases dbind_InrE: "dbind r f = Inr y"

lemma dbind_Inr: "dbind r f = Inr y \<longleftrightarrow> (\<exists>x. r = Inr x \<and> f x = Inr y)"
  by (cases r) auto

lemma dbind_Inl: "dbind r f = Inl e \<longleftrightarrow> r = Inl e \<or> (\<exists>x. r = Inr x \<and> f x = Inl e)"
  by (cases r) auto

subsection \<open>The backend\<close>

text \<open>
  \<open>http_post\<close> is answered with the text of the response or with a transport error, \<open>http_get\<close>
  likewise, \<open>http_get_bytes\<close> with the bytes of the body and \<open>http_post_text\<close> for a request with a text
  as its body; \<open>body_error\<close> is the client's error for a body that is no JSON.  The request of a call is its URL, its method and its parameters, since every call the
  indexer makes has the id 1.  \<open>in_time\<close> says whether the answer arrives before the caller's timeout.
\<close>

record backend =
  http_post :: "nat \<Rightarrow> string \<Rightarrow> string \<Rightarrow> json \<Rightarrow> string + string"
  http_get :: "nat \<Rightarrow> string \<Rightarrow> string + string"
  in_time :: "nat \<Rightarrow> bool"
  parse_json :: "string \<Rightarrow> json option"
  show_json :: "json \<Rightarrow> string"
  body_error :: "string \<Rightarrow> string"
  http_get_bytes :: "nat \<Rightarrow> string \<Rightarrow> string + byte list"
  http_post_text :: "nat \<Rightarrow> string \<Rightarrow> string \<Rightarrow> string + string"

record concrete_provider =
  rpc_url :: string
  metashrew_rpc_url :: string
  esplora_url :: "string option"
  network_provider :: string

definition default_rpc_url :: "string \<Rightarrow> string" where
  "default_rpc_url network =
     (if network = ''mainnet'' then ''https://mainnet.sandshrew.io/v2/lasereyes''
      else if network = ''testnet'' then ''https://testnet.sandshrew.io/v2/lasereyes''
      else if network = ''signet'' then ''https://signet.sandshrew.io/v2/lasereyes''
      else ''http://localhost:18888'')"

text \<open>\<open>ConcreteProvider::new\<close> without a wallet path, and \<open>build_provider\<close> of \<open>provider.rs\<close> of the
  indexer.\<close>

definition concrete_provider_new ::
  "string option \<Rightarrow> string \<Rightarrow> string option \<Rightarrow> string option \<Rightarrow> string \<Rightarrow> concrete_provider" where
  "concrete_provider_new bitcoin_rpc metashrew_rpc sandshrew_rpc esplora network =
     \<lparr>rpc_url = (case bitcoin_rpc of Some u \<Rightarrow> u
        | None \<Rightarrow> (case sandshrew_rpc of Some u \<Rightarrow> u | None \<Rightarrow> default_rpc_url network)),
      metashrew_rpc_url = metashrew_rpc, esplora_url = esplora, network_provider = network\<rparr>"

definition build_provider :: "string option \<Rightarrow> string \<Rightarrow> string option \<Rightarrow> string \<Rightarrow> concrete_provider" where
  "build_provider bitcoin_rpc sandshrew_rpc esplora network =
     concrete_provider_new bitcoin_rpc sandshrew_rpc (Some sandshrew_rpc) esplora network"

subsection \<open>A JSON-RPC call\<close>

text \<open>
  The derived \<open>Deserialize\<close> of \<open>RpcError\<close>: an object with an \<open>i32\<close> \<open>code\<close> and a string \<open>message\<close>
  (\<open>data\<close> is optional, other keys are ignored), or the array of the three fields.
\<close>

fun as_i32 :: "json \<Rightarrow> i32 option" where
  "as_i32 (JNum (PosInt n)) = (if n \<le> 0x7fffffff then Some (ucast n) else None)"
| "as_i32 (JNum (NegInt n)) = (if - (2 ^ 31) \<le> sint n \<and> sint n < 2 ^ 31 then Some (ucast n) else None)"
| "as_i32 _ = None"

fun rpc_error_of :: "json \<Rightarrow> (i32 \<times> string) option" where
  "rpc_error_of (JObj kvs) =
     (case (Option.bind (map_of kvs ''code'') as_i32, Option.bind (map_of kvs ''message'') as_str) of
        (Some c, Some m) \<Rightarrow> Some (c, m) | _ \<Rightarrow> None)"
| "rpc_error_of (JArr [code, msg, _]) =
     (case (as_i32 code, as_str msg) of (Some c, Some m) \<Rightarrow> Some (c, m) | _ \<Rightarrow> None)"
| "rpc_error_of _ = None"

definition i32_text :: "i32 \<Rightarrow> string" where
  "i32_text w = (if sint w < 0 then CHR ''-'' # dec_string (nat (- sint w)) else dec_string (nat (sint w)))"

definition error_object_text :: "backend \<Rightarrow> json \<Rightarrow> string" where
  "error_object_text b err =
     (case rpc_error_of err of
        Some (code, msg) \<Rightarrow> ''Code '' @ i32_text code @ '': '' @ msg
      | None \<Rightarrow> ''Non-standard error object received: '' @ show_json b err)"

definition result_of :: "json \<Rightarrow> json" where
  "result_of v = (case jget ''result'' v of Some r \<Rightarrow> r | None \<Rightarrow> v)"

text \<open>The second attempt to parse the text, in the code after the first has failed, fails too.\<close>

definition decode_response :: "backend \<Rightarrow> string \<Rightarrow> json dres" where
  "decode_response b text =
     (case parse_json b text of
        Some v \<Rightarrow>
          (case jget ''error'' v of
             Some err \<Rightarrow> if err \<noteq> JNull then Inl (RpcError (error_object_text b err)) else Inr (result_of v)
           | None \<Rightarrow> Inr (result_of v))
      | None \<Rightarrow>
          if \<not> prefix ''{'' text \<and> \<not> prefix ''['' text then Inr (JStr text)
          else Inl (Network (''Failed to decode RPC response: '' @ text)))"

definition rpc_call :: "backend \<Rightarrow> nat \<Rightarrow> string \<Rightarrow> string \<Rightarrow> json \<Rightarrow> json dres" where
  "rpc_call b n url rpc_method params =
     (case http_post b n url rpc_method params of
        Inl e \<Rightarrow> Inl (Network e)
      | Inr text \<Rightarrow> decode_response b text)"

subsection \<open>The operations of the provider\<close>

definition str_or :: "string \<Rightarrow> json \<Rightarrow> string dres" where
  "str_or msg v = (case as_str v of Some s \<Rightarrow> Inr s | None \<Rightarrow> Inl (RpcError msg))"

definition get_transaction_hex :: "backend \<Rightarrow> concrete_provider \<Rightarrow> nat \<Rightarrow> string \<Rightarrow> string dres" where
  "get_transaction_hex b p n txid =
     dbind (rpc_call b n (rpc_url p) ''getrawtransaction'' (JArr [JStr txid]))
       (str_or ''Invalid transaction hex response'')"

definition provider_block_hash :: "backend \<Rightarrow> concrete_provider \<Rightarrow> nat \<Rightarrow> u64 \<Rightarrow> string dres" where
  "provider_block_hash b p n height =
     dbind (rpc_call b n (rpc_url p) ''getblockhash'' (JArr [JNum (PosInt height)]))
       (str_or ''Invalid block hash response'')"

definition get_metashrew_height :: "backend \<Rightarrow> concrete_provider \<Rightarrow> nat \<Rightarrow> u64 dres" where
  "get_metashrew_height b p n =
     dbind (rpc_call b n (metashrew_rpc_url p) ''metashrew_height'' (JArr [])) (\<lambda>v.
       case as_u64 v of
         Some h \<Rightarrow> Inr h
       | None \<Rightarrow> (case as_str v of
           Some s \<Rightarrow> (case from_str_radix 10 s of
               Some h \<Rightarrow> Inr h
             | None \<Rightarrow> Inl (RpcError ''Invalid metashrew height string response''))
         | None \<Rightarrow> Inl (RpcError ''Invalid metashrew height response: not a u64 or string'')))"

definition get_tx_hex :: "backend \<Rightarrow> concrete_provider \<Rightarrow> nat \<Rightarrow> string \<Rightarrow> string dres" where
  "get_tx_hex b p n txid =
     (case esplora_url p of
        Some url \<Rightarrow>
          (case http_get b n (url @ ''/tx/'' @ txid @ ''/hex'') of Inl e \<Rightarrow> Inl (Network e) | Inr text \<Rightarrow> Inr text)
      | None \<Rightarrow>
          dbind (rpc_call b n (rpc_url p) ''esplora_tx::hex'' (JArr [JStr txid]))
            (str_or ''Invalid tx hex response''))"

definition get_block_count :: "backend \<Rightarrow> concrete_provider \<Rightarrow> nat \<Rightarrow> u64 dres" where
  "get_block_count b p n =
     dbind (rpc_call b n (rpc_url p) ''getblockcount'' JNull) (\<lambda>v.
       case as_u64 v of
         Some h \<Rightarrow> Inr h
       | None \<Rightarrow> (case as_str v of
           Some s \<Rightarrow>
             (case Option.bind (parse_json b s) (\<lambda>j. Option.bind (jget ''result'' j) as_u64) of
                Some h \<Rightarrow> Inr h
              | None \<Rightarrow> (case from_str_radix 10 s of
                    Some h \<Rightarrow> Inr h
                  | None \<Rightarrow> Inl (RpcError ''Invalid block count string response'')))
         | None \<Rightarrow> (case Option.bind (jget ''result'' v) as_u64 of
               Some h \<Rightarrow> Inr h
             | None \<Rightarrow> Inl (RpcError
                 ''Invalid block count response: not a u64, string, or object with a result field''))))"

definition get_bitcoin_rpc_url :: "concrete_provider \<Rightarrow> string option" where
  "get_bitcoin_rpc_url p = Some (rpc_url p)"

end
