(* ===== verification/Amm.thy ===== *)
theory Amm
  imports Bytes Deezel_Client
begin

text \<open>
  \<open>alkanes/amm.rs\<close> of the deezel library: the pools of a factory and the details of a pool, read by
  simulating the contracts and decoding the little-endian data that they return, and the amounts of
  a swap and of a liquidity provision.  \<open>call\<close> is the provider's JSON-RPC call.
\<close>

subsection \<open>Decoding\<close>

definition strip_0x :: "string \<Rightarrow> string" where
  "strip_0x s = (case strip_prefix ''0x'' s of Some rest \<Rightarrow> rest | None \<Rightarrow> s)"

definition hex_to_bytes :: "libs \<Rightarrow> string \<Rightarrow> byte list option" where
  "hex_to_bytes l s = hex_decode l (strip_0x s)"

definition read_u128_le :: "byte list \<Rightarrow> nat \<Rightarrow> u128 option" where
  "read_u128_le bs offset =
     (if length bs < offset + 16 then None else Some (from_le_bytes (take 16 (drop offset bs))))"

definition low64 :: "u128 \<Rightarrow> u64" where
  "low64 w = ucast (w AND 0xFFFFFFFFFFFFFFFF)"

type_synonym contract_id = "u64 \<times> u64"

record amm_details =
  ad_token0 :: contract_id
  ad_token1 :: contract_id
  ad_amount0 :: u128
  ad_amount1 :: u128
  ad_supply :: u128
  ad_name :: string

definition decode_pool_details :: "libs \<Rightarrow> string \<Rightarrow> amm_details option" where
  "decode_pool_details l data_hex =
     (if data_hex = ''0x'' then None
      else case hex_to_bytes l data_hex of
        None \<Rightarrow> None
      | Some bs \<Rightarrow>
          (case map (read_u128_le bs) [0, 16, 32, 48, 64, 80, 96] of
             [Some b0, Some t0, Some b1, Some t1, Some a0, Some a1, Some supply] \<Rightarrow>
               Some \<lparr>ad_token0 = (low64 b0, low64 t0), ad_token1 = (low64 b1, low64 t1),
                 ad_amount0 = a0, ad_amount1 = a1, ad_supply = supply,
                 ad_name = (if 116 < length bs then utf8_lossy (drop 116 bs) else [])\<rparr>
           | _ \<Rightarrow> None))"

text \<open>The two halves of an id: the last eight bytes of the reversed sixteen, read big-endian.\<close>

definition id_half :: "byte list \<Rightarrow> u64 option" where
  "id_half rev_bytes =
     (if length rev_bytes < 8 then None
      else Some (from_be_bytes (drop (length rev_bytes - 8) rev_bytes)))"

definition parse_alkane_id_from_hex :: "libs \<Rightarrow> string \<Rightarrow> contract_id option res" where
  "parse_alkane_id_from_hex l s =
     (let clean = strip_0x s
      in if length clean < 64 then Inr None
         else and_then (str_slice clean 0 32) (\<lambda>block_hex.
              and_then (str_slice clean 32 64) (\<lambda>tx_hex.
                Inr (case (hex_decode l block_hex, hex_decode l tx_hex) of
                       (Some block, Some tx) \<Rightarrow>
                         (case (id_half (rev block), id_half (rev tx)) of
                            (Some b, Some t) \<Rightarrow> Some (b, t) | _ \<Rightarrow> None)
                     | _ \<Rightarrow> None))))"

text \<open>The loop over the entries \<open>i, .., count - 1\<close>: an entry that cannot be parsed is skipped, and the
  loop ends where the data do.\<close>

function pool_entries :: "libs \<Rightarrow> string \<Rightarrow> nat \<Rightarrow> nat \<Rightarrow> contract_id list res" where
  "pool_entries l clean n i =
     (if n \<le> i then Inr []
      else let offset = 32 + i * 64
           in if length clean < offset + 64 then Inr []
              else and_then (str_slice clean offset (offset + 64)) (\<lambda>entry_hex.
                   and_then (parse_alkane_id_from_hex l entry_hex) (\<lambda>found.
                   and_then (pool_entries l clean n (Suc i)) (\<lambda>ids.
                     Inr (case found of Some p \<Rightarrow> p # ids | None \<Rightarrow> ids)))))"
  by pat_completeness auto
termination by (relation "measure (\<lambda>(l, clean, n, i). n - i)") auto

declare pool_entries.simps [simp del]

definition decode_get_all_pools :: "libs \<Rightarrow> string \<Rightarrow> contract_id list option res" where
  "decode_get_all_pools l data_hex =
     (let clean = strip_0x data_hex
      in if data_hex = ''0x'' \<or> length clean < 32 then Inr None
         else and_then (str_slice clean 0 32) (\<lambda>head.
           case hex_decode l head of
             None \<Rightarrow> Inr None
           | Some count_bytes \<Rightarrow>
               (case from_str_radix 16 (hex_encode l (rev count_bytes)) :: u128 option of
                  None \<Rightarrow> Inr None
                | Some n \<Rightarrow> and_then (pool_entries l clean (unat (ucast n :: u64)) 0) (\<lambda>ids. Inr (Some ids)))))"

subsection \<open>Simulating the contracts\<close>

definition factory_opcode_get_all_pools :: u64 where
  "factory_opcode_get_all_pools = 3"

definition pool_opcode_pool_details :: u64 where
  "pool_opcode_pool_details = 999"

definition simulate_params :: "string \<Rightarrow> string \<Rightarrow> u64 \<Rightarrow> json" where
  "simulate_params block tx opcode =
     JArr [JObj [(''alkanes'', JArr []), (''transaction'', JStr ''0x''), (''block'', JStr ''0x''),
       (''height'', JStr ''20000''), (''txindex'', JNum (PosInt 0)),
       (''target'', JObj [(''block'', JStr block), (''tx'', JStr tx)]),
       (''inputs'', JArr [JStr (to_string opcode)]), (''pointer'', JNum (PosInt 0)),
       (''refundPointer'', JNum (PosInt 0)), (''vout'', JNum (PosInt 0))]]"

definition execution_data :: "json \<Rightarrow> string" where
  "execution_data v = unwrap_or ''0x'' (jstr [''execution'', ''data''] v)"

type_synonym rpc = "string \<Rightarrow> string \<Rightarrow> json \<Rightarrow> json dres"

definition get_all_pools_via_raw_simulate ::
  "libs \<Rightarrow> rpc \<Rightarrow> string \<Rightarrow> string \<Rightarrow> string \<Rightarrow> contract_id list dres res" where
  "get_all_pools_via_raw_simulate l call url factory_block factory_tx =
     (case call url ''alkanes_simulate'' (simulate_params factory_block factory_tx factory_opcode_get_all_pools) of
        Inl e \<Rightarrow> Inr (Inl e)
      | Inr v \<Rightarrow> and_then (decode_get_all_pools l (execution_data v)) (\<lambda>decoded.
          Inr (case decoded of Some ids \<Rightarrow> Inr ids
               | None \<Rightarrow> Inl (Other ''Failed to decode get_all_pools result''))))"

definition get_pool_details_via_raw_simulate ::
  "libs \<Rightarrow> rpc \<Rightarrow> string \<Rightarrow> string \<Rightarrow> string \<Rightarrow> amm_details dres" where
  "get_pool_details_via_raw_simulate l call url pool_block pool_tx =
     dbind (call url ''alkanes_simulate'' (simulate_params pool_block pool_tx pool_opcode_pool_details)) (\<lambda>v.
       case decode_pool_details l (execution_data v) of
         Some d \<Rightarrow> Inr d
       | None \<Rightarrow> Inl (Other ''Failed to decode pool_details result''))"

subsection \<open>Amounts\<close>

text \<open>The arithmetic is that of a release build: it wraps, and a zero divisor panics.\<close>

definition calculate_optimal_liquidity :: "u64 \<Rightarrow> u64 \<Rightarrow> u64 \<Rightarrow> u64 \<Rightarrow> u64 \<times> u64" where
  "calculate_optimal_liquidity desired_a desired_b reserve_a reserve_b =
     (if reserve_a = 0 \<or> reserve_b = 0 then (desired_a, desired_b)
      else let amount_b_optimal = desired_a * reserve_b div reserve_a
           in if amount_b_optimal \<le> desired_b then (desired_a, amount_b_optimal)
              else (desired_b * reserve_a div reserve_b, desired_b))"

definition calculate_swap_output :: "u64 \<Rightarrow> u64 \<Rightarrow> u64 \<Rightarrow> u64 \<Rightarrow> u64 dres res" where
  "calculate_swap_output input_amount input_reserve output_reserve fee_rate =
     (if input_reserve = 0 \<or> output_reserve = 0
      then Inr (Inl (Validation ''Cannot swap with zero reserves''))
      else let input_amount_with_fee = input_amount * (10000 - fee_rate);
               numerator = input_amount_with_fee * output_reserve;
               denominator = input_reserve * 10000 + input_amount_with_fee
           in if denominator = 0 then Inl (Panic ''attempt to divide by zero'')
              else Inr (Inr (numerator div denominator)))"

subsection \<open>Decoding what a contract encodes\<close>

text \<open>The layouts: a count followed by pairs of sixteen bytes; seven numbers, four bytes, a name.\<close>

definition id_bytes :: "u128 \<times> u128 \<Rightarrow> byte list" where
  "id_bytes p = u128_to_le_bytes (fst p) @ u128_to_le_bytes (snd p)"

definition low_id :: "u128 \<times> u128 \<Rightarrow> contract_id" where
  "low_id p = (ucast (fst p), ucast (snd p))"

definition pools_data :: "u128 \<Rightarrow> (u128 \<times> u128) list \<Rightarrow> byte list \<Rightarrow> string" where
  "pools_data n ps rest =
     ''0x'' @ hex_text (u128_to_le_bytes n @ concat (map id_bytes ps) @ rest)"

definition details_data :: "u128 \<times> u128 \<Rightarrow> u128 \<times> u128 \<Rightarrow> u128 \<Rightarrow> u128 \<Rightarrow> u128 \<Rightarrow> byte list \<Rightarrow> string" where
  "details_data t0 t1 a0 a1 supply rest =
     ''0x'' @ hex_text (id_bytes t0 @ id_bytes t1 @ u128_to_le_bytes a0 @ u128_to_le_bytes a1 @
       u128_to_le_bytes supply @ rest)"

lemma length_id_bytes [simp]: "length (id_bytes p) = 32"
  by (simp add: id_bytes_def)

lemma strip_0x_prefixed [simp]: "strip_0x (CHR ''0'' # CHR ''x'' # s) = s"
  by (simp add: strip_0x_def strip_prefix_def)

lemma hex_text_Nil [simp]: "hex_text bs = [] \<longleftrightarrow> bs = []"
  by (cases bs) (simp_all add: hex_text_def)

lemma hex_digit_not_x: "d < 16 \<Longrightarrow> hex_digit d \<noteq> CHR ''x''"
proof -
  assume "d < 16"
  then have "d \<in> set [0..<16]" by simp
  then show ?thesis by (auto simp: hex_digit_def upt_rec)
qed

lemma strip_0x_hex_text [simp]: "strip_0x (hex_text bs) = hex_text bs"
proof (cases bs)
  case (Cons b cs)
  have "hex_digit (unat b mod 16) \<noteq> CHR ''x''" by (rule hex_digit_not_x [OF byte_nibbles(2)])
  with Cons show ?thesis by (auto simp: strip_0x_def strip_prefix_def hex_text_def)
qed (simp add: strip_0x_def strip_prefix_def hex_text_def)

lemma low64_eq: "low64 w = ucast w"
proof -
  have "low64 w = ucast (take_bit 64 w)"
    by (simp add: low64_def take_bit_eq_mask mask_eq_exp_minus_1)
  then show ?thesis
    by (auto intro: bit_word_eqI simp: bit_word_ucast_iff bit_take_bit_iff)
qed

lemma hex_text_slice:
  assumes "i \<le> j" "j \<le> length bs"
  shows "str_slice (hex_text bs) (2 * i) (2 * j) = Inr (hex_text (take (j - i) (drop i bs)))"
proof -
  have "2 * j - 2 * i = 2 * (j - i)" by simp
  with assms show ?thesis
    by (simp add: ascii_slice ascii_hex_text drop_hex_text take_hex_text del: mult_Suc_right)
qed

lemma id_half_rev: "id_half (rev (u128_to_le_bytes w)) = Some (ucast w)"
  by (simp add: id_half_def from_be_bytes_def rev_drop [symmetric] drop_rev from_le_bytes_low_half)

lemma parse_alkane_id_of_id_bytes:
  assumes "hex_documented l"
  shows "parse_alkane_id_from_hex l (hex_text (id_bytes p)) = Inr (Some (low_id p))"
proof -
  have "str_slice (hex_text (id_bytes p)) (2 * 0) (2 * 16) = Inr (hex_text (u128_to_le_bytes (fst p)))"
    "str_slice (hex_text (id_bytes p)) (2 * 16) (2 * 32) = Inr (hex_text (u128_to_le_bytes (snd p)))"
    by (subst hex_text_slice; simp add: id_bytes_def)+
  then show ?thesis
    using hex_documentedD [OF assms]
    by (simp add: parse_alkane_id_from_hex_def Let_def id_half_rev low_id_def)
qed

lemma drop_id_bytes:
  "i \<le> length ps \<Longrightarrow> drop (32 * i) (concat (map id_bytes ps) @ rest) = concat (map id_bytes (drop i ps)) @ rest"
  by (induction ps arbitrary: i) (auto simp: drop_Cons split: nat.splits)

lemma length_concat_id_bytes [simp]: "length (concat (map id_bytes ps)) = 32 * length ps"
  by (induction ps) auto

lemma pool_entries_of_data:
  assumes l: "hex_documented l" and rest: "length rest < 32" and head: "length head = 16"
  shows "pool_entries l (hex_text (head @ concat (map id_bytes ps) @ rest)) n i =
    Inr (map low_id (take (n - i) (drop i ps)))"
proof (induction "n - i" arbitrary: i)
  case 0
  then show ?case by (subst pool_entries.simps) simp
next
  case (Suc k)
  define bs where "bs = head @ concat (map id_bytes ps) @ rest"
  have len: "length bs = 16 + 32 * length ps + length rest" using head by (simp add: bs_def)
  show ?case
  proof (cases "i < length ps")
    case True
    have "drop (16 + 32 * i) bs = concat (map id_bytes (drop i ps)) @ rest"
      using head drop_id_bytes [of i ps rest] True by (simp add: bs_def drop_append)
    also have "\<dots> = id_bytes (ps ! i) @ concat (map id_bytes (drop (Suc i) ps)) @ rest"
      using True by (simp flip: Cons_nth_drop_Suc)
    finally have "take 32 (drop (16 + 32 * i) bs) = id_bytes (ps ! i)" by simp
    moreover have "16 + 32 * i + 32 \<le> length bs" using True len by simp
    ultimately have "str_slice (hex_text bs) (2 * (16 + 32 * i)) (2 * (16 + 32 * i + 32)) = Inr (hex_text (id_bytes (ps ! i)))"
      using hex_text_slice [of "16 + 32 * i" "16 + 32 * i + 32" bs] by simp
    moreover have "2 * (16 + 32 * i) = 32 + i * 64" "2 * (16 + 32 * i + 32) = 32 + i * 64 + 64" by simp_all
    ultimately have "str_slice (hex_text bs) (32 + i * 64) (32 + i * 64 + 64) = Inr (hex_text (id_bytes (ps ! i)))"
      by (simp only:)
    moreover have "pool_entries l (hex_text bs) n (Suc i) = Inr (map low_id (take (n - Suc i) (drop (Suc i) ps)))"
      using Suc unfolding bs_def by simp
    moreover have "take (n - i) (drop i ps) = ps ! i # take (n - Suc i) (drop (Suc i) ps)"
    proof -
      have "n - i = Suc (n - Suc i)" using Suc.hyps(2) by simp
      then show ?thesis using True by (simp flip: Cons_nth_drop_Suc)
    qed
    ultimately have "pool_entries l (hex_text bs) n i = Inr (map low_id (take (n - i) (drop i ps)))"
      using Suc.hyps(2) True len
      by (subst pool_entries.simps) (simp add: Let_def parse_alkane_id_of_id_bytes [OF l])
    then show ?thesis by (simp only: bs_def)
  next
    case False
    then have "pool_entries l (hex_text bs) n i = Inr []"
      using rest len by (subst pool_entries.simps) (simp add: Let_def)
    then show ?thesis using False by (simp add: bs_def del: hex_text_append)
  qed
qed

lemma u128_bytes_not_Nil [simp]: "u128_to_le_bytes n \<noteq> []"
  by (metis length_u128_to_le_bytes list.size(3) zero_neq_numeral)

lemma decode_get_all_pools_eq:
  assumes "hex_documented l" "length rest < 32"
  shows "decode_get_all_pools l (pools_data n ps rest) =
    Inr (Some (map low_id (take (unat (ucast n :: u64)) ps)))"
proof -
  let ?bs = "u128_to_le_bytes n @ concat (map id_bytes ps) @ rest"
  have "str_slice (hex_text ?bs) 0 32 = Inr (hex_text (u128_to_le_bytes n))"
    using hex_text_slice [of 0 16 ?bs] by simp
  moreover have "from_str_radix 16 (hex_encode l (rev (u128_to_le_bytes n))) = Some n"
    using from_str_radix_hex_text [of "rev (u128_to_le_bytes n)"] hex_documentedD(1) [OF assms(1)]
    by (simp add: from_be_bytes_def u128_bytes_not_Nil)
  ultimately show ?thesis
    using hex_documentedD(2) [OF assms(1)] pool_entries_of_data [OF assms, of "u128_to_le_bytes n"]
    by (simp add: decode_get_all_pools_def pools_data_def Let_def)
qed

text \<open>
  The list of pools.  From the data of a count and of any number of entries, with a rest that is
  no entry, the decoder gives the entries up to the count, with the low halves of their ids: a count
  that is too large gives those there are, and nothing panics.
\<close>

theorem pool_list_decodes:
  assumes "hex_documented l" "length rest < 32"
  shows "decode_get_all_pools l (pools_data n ps rest) =
    Inr (Some (map low_id (take (unat (ucast n :: u64)) ps)))"
  by (rule decode_get_all_pools_eq [OF assms])

text \<open>Libraries whose hex functions are as documented, for the witnesses.\<close>

definition hex_libs :: libs where
  "hex_libs = \<lparr>hex_decode = hex_bytes, hex_encode = hex_text, deserialize_tx = (\<lambda>bs. None),
     format_runestone = (\<lambda>t. Format_panic), trace_exits = (\<lambda>v. None), utc_timestamp = (\<lambda>s. Some (sint s))\<rparr>"

lemma hex_documented_hex_libs [simp]: "hex_documented hex_libs"
  by (simp add: hex_documented_def hex_libs_def)

lemma pool_list_decodes_witness:
  "decode_get_all_pools hex_libs (pools_data 7 [(2, 68441), (4, 2 ^ 64 + 5)] [0]) = Inr (Some [(2, 68441), (4, 5)])"
  using pool_list_decodes [of hex_libs "[0]" 7 "[(2, 68441), (4, 2 ^ 64 + 5)]"] by (simp add: low_id_def)

subsection \<open>The details of a pool\<close>

lemma read_u128_le_at:
  assumes "length as = n"
  shows "read_u128_le (as @ u128_to_le_bytes w @ bs) n = Some w"
  using assms by (simp add: read_u128_le_def)

lemma decode_pool_details_eq:
  assumes "hex_documented l"
  shows "decode_pool_details l (details_data t0 t1 a0 a1 supply rest) =
    Some \<lparr>ad_token0 = low_id t0, ad_token1 = low_id t1, ad_amount0 = a0, ad_amount1 = a1,
      ad_supply = supply, ad_name = utf8_lossy (drop 4 rest)\<rparr>"
proof -
  let ?w = u128_to_le_bytes
  define bs where "bs = ?w (fst t0) @ ?w (snd t0) @ ?w (fst t1) @ ?w (snd t1) @ ?w a0 @ ?w a1 @ ?w supply @ rest"
  have len: "length bs = 112 + length rest" by (simp add: bs_def)
  have reads: "map (read_u128_le bs) [0, 16, 32, 48, 64, 80, 96] =
      [Some (fst t0), Some (snd t0), Some (fst t1), Some (snd t1), Some a0, Some a1, Some supply]"
    by (simp add: read_u128_le_def bs_def)
  have name: "(if 116 < length bs then utf8_lossy (drop 116 bs) else []) = utf8_lossy (drop 4 rest)"
    using len by (auto simp: bs_def)
  have "details_data t0 t1 a0 a1 supply rest = ''0x'' @ hex_text bs"
    by (simp add: details_data_def bs_def id_bytes_def)
  moreover have "hex_text bs \<noteq> []" by (simp add: bs_def)
  ultimately show ?thesis
    using reads name hex_documentedD [OF assms]
    by (simp add: decode_pool_details_def hex_to_bytes_def low64_eq low_id_def)
qed

lemma decode_pool_details_short:
  assumes "hex_documented l" "length bs < 112"
  shows "decode_pool_details l (''0x'' @ hex_text bs) = None"
proof -
  have "read_u128_le bs 96 = None" using assms(2) by (simp add: read_u128_le_def)
  then show ?thesis
    using hex_documentedD [OF assms(1)]
    by (simp add: decode_pool_details_def hex_to_bytes_def split: option.split)
qed

text \<open>
  The details of a pool.  The seven numbers of the contract's answer are read back (the token ids
  by their low halves) and an ASCII name after the four bytes of its length as it is; an answer of
  fewer than seven numbers gives nothing.
\<close>

theorem pool_details_decode:
  assumes "hex_documented l" "length gap = 4" "\<forall>b \<in> set name. b < 0x80" "length bs < 112"
  shows "decode_pool_details l (details_data t0 t1 a0 a1 supply (gap @ name)) =
      Some \<lparr>ad_token0 = low_id t0, ad_token1 = low_id t1, ad_amount0 = a0, ad_amount1 = a1,
        ad_supply = supply, ad_name = map byte_char name\<rparr> \<and>
    decode_pool_details l (''0x'' @ hex_text bs) = None"
  using assms decode_pool_details_eq [OF assms(1)] decode_pool_details_short [OF assms(1)]
  by (simp add: utf8_lossy_ascii)

lemma pool_details_decode_witness:
  "decode_pool_details hex_libs (details_data (2, 0) (2, 68441) 1000 2000 1414 [3, 0, 0, 0, 76, 80, 49]) =
    Some \<lparr>ad_token0 = (2, 0), ad_token1 = (2, 68441), ad_amount0 = 1000, ad_amount1 = 2000,
      ad_supply = 1414, ad_name = ''LP1''\<rparr>"
  using pool_details_decode [of hex_libs "[3, 0, 0, 0]" "[76, 80, 49]" "[]" "(2, 0)" "(2, 68441)" 1000 2000 1414]
  by (simp add: low_id_def byte_char_def char_of_def bit_0 bit_Suc)

subsection \<open>The amounts of a swap and of a provision\<close>

lemma swap_division:
  assumes "0 < ri" "0 < (ro :: nat)" "f \<le> 10000" "out = a * f * ro div (ri * 10000 + a * f)"
  shows "out < ro" "ri * ro \<le> (ri + a) * (ro - out)"
proof -
  let ?x = "a * f" and ?d = "ri * 10000 + a * f"
  have d: "0 < ?d" using assms(1) by simp
  have le: "out * ?d \<le> ?x * ro" unfolding assms(4) by (rule div_times_less_eq_dividend)
  have "?x * ro < ?d * ro" using assms(1,2) by simp
  with le have "out * ?d < ro * ?d" unfolding mult.commute [of ro ?d] by (rule le_less_trans)
  then show "out < ro" by (metis mult_less_cancel2)
  then obtain k where k: "ro = out + k" "0 < k" by (metis less_imp_add_positive)
  have "out * (ri * 10000) + out * ?x \<le> ?x * out + ?x * k"
    using le by (simp add: k algebra_simps)
  then have 1: "out * ri * 10000 \<le> ?x * k" by (simp add: algebra_simps)
  have "?x * k \<le> a * 10000 * k" using assms(3) by (intro mult_right_mono mult_left_mono) auto
  with 1 have "out * ri * 10000 \<le> a * 10000 * k" by (rule le_trans)
  then have "(out * ri) * 10000 \<le> (a * k) * 10000" by (simp only: ac_simps)
  then have "out * ri \<le> a * k" by (rule mult_le_cancel2 [THEN iffD1, THEN mp]) simp
  then show "ri * ro \<le> (ri + a) * (ro - out)" by (simp add: k algebra_simps)
qed

text \<open>
  A swap.  When the products fit into 64 bits, a swap with a fee of at most 100% of non-zero
  reserves gives less than the output reserve and does not lower the product of the reserves.
\<close>

theorem swap_output_sound:
  assumes reserves: "input_reserve \<noteq> 0" "output_reserve \<noteq> 0" and fee: "fee_rate \<le> 10000"
    and fits: "unat input_amount * (10000 - unat fee_rate) * unat output_reserve < 2 ^ 64"
      "unat input_reserve * 10000 + unat input_amount * (10000 - unat fee_rate) < 2 ^ 64"
  shows "\<exists>out. calculate_swap_output input_amount input_reserve output_reserve fee_rate = Inr (Inr out) \<and>
    out < output_reserve \<and>
    unat input_reserve * unat output_reserve \<le> (unat input_reserve + unat input_amount) * (unat output_reserve - unat out)"
proof -
  let ?a = "unat input_amount" and ?ri = "unat input_reserve" and ?ro = "unat output_reserve"
  let ?f = "10000 - unat fee_rate"
  have pos: "0 < ?ri" "0 < ?ro" using reserves by (simp_all add: unat_gt_0)
  have f: "unat (10000 - fee_rate) = ?f" using fee by (simp add: unat_sub)
  have x: "unat (input_amount * (10000 - fee_rate)) = ?a * ?f"
    using fits(2) f by (simp add: unat_word_ariths)
  have num: "unat (input_amount * (10000 - fee_rate) * output_reserve) = ?a * ?f * ?ro"
    using fits(1) by (subst unat_word_ariths) (simp add: x)
  have "unat (input_reserve * 10000) = ?ri * 10000"
    using fits(2) by (simp add: unat_word_ariths)
  then have den: "unat (input_reserve * 10000 + input_amount * (10000 - fee_rate)) = ?ri * 10000 + ?a * ?f"
    using fits(2) by (subst unat_word_ariths) (simp add: x)
  define out where "out = input_amount * (10000 - fee_rate) * output_reserve div
    (input_reserve * 10000 + input_amount * (10000 - fee_rate))"
  have out: "unat out = ?a * ?f * ?ro div (?ri * 10000 + ?a * ?f)"
    unfolding out_def unat_div num den ..
  have nz: "input_reserve * 10000 + input_amount * (10000 - fee_rate) \<noteq> 0"
    using den pos by (auto simp: unat_eq_0 [symmetric])
  have "calculate_swap_output input_amount input_reserve output_reserve fee_rate = Inr (Inr out)"
    using reserves nz by (simp add: calculate_swap_output_def Let_def out_def)
  moreover have "unat out < ?ro" "?ri * ?ro \<le> (?ri + ?a) * (?ro - unat out)"
    by (rule swap_division [OF pos _ out]; simp)+
  ultimately show ?thesis by (auto simp: word_less_nat_alt)
qed

lemma swap_output_sound_witness:
  "\<exists>out. calculate_swap_output 100 1000 2000 30 = Inr (Inr out) \<and> out < 2000 \<and>
    1000 * 2000 \<le> (1000 + 100) * (2000 - unat out)"
  using swap_output_sound [of 1000 2000 30 100] by simp

text \<open>With the eight decimals of the tokens the products do not fit: a swap of 100 tokens against
  reserves of 100 and 100 gives hardly anything, and a swap can divide by zero.\<close>

lemma swap_output_wraps:
  "calculate_swap_output 10000000000 10000000000 10000000000 30 = Inr (Inr 44181)"
  "\<exists>msg. calculate_swap_output (2 ^ 60) (2 ^ 60) 1 0 = Inl (Panic msg)"
  by (simp_all add: calculate_swap_output_def Let_def)

text \<open>
  A liquidity provision.  When the products fit into 64 bits, none of the optimal amounts exceeds
  the desired one, one of them is the desired one, and the other is what the ratio of the reserves
  gives, rounded down.
\<close>

theorem optimal_liquidity_sound:
  assumes reserves: "ra \<noteq> 0" "rb \<noteq> 0"
    and fits: "unat da * unat rb < 2 ^ 64" "unat db * unat ra < 2 ^ 64"
    and result: "calculate_optimal_liquidity da db ra rb = (a, b)"
  shows "a \<le> da \<and> b \<le> db \<and>
    (a = da \<and> unat b = unat a * unat rb div unat ra \<or> b = db \<and> unat a = unat b * unat ra div unat rb)"
proof -
  have pos: "0 < unat ra" "0 < unat rb" using reserves by (simp_all add: unat_gt_0)
  have ab: "unat (da * rb) = unat da * unat rb" "unat (db * ra) = unat db * unat ra"
    using fits by (simp_all add: unat_word_ariths)
  show ?thesis
  proof (cases "da * rb div ra \<le> db")
    case True
    then show ?thesis using result reserves ab
      by (auto simp: calculate_optimal_liquidity_def Let_def unat_div)
  next
    case False
    then have eq: "b = db" "a = db * ra div rb"
      using result reserves by (auto simp: calculate_optimal_liquidity_def Let_def)
    have "unat db < unat da * unat rb div unat ra"
      using False ab by (simp add: word_le_nat_alt unat_div)
    then have "unat db * unat ra \<le> (unat da * unat rb div unat ra) * unat ra" by (intro mult_right_mono) auto
    also have "\<dots> \<le> unat da * unat rb" by (rule div_times_less_eq_dividend)
    finally have "unat db * unat ra div unat rb \<le> unat da * unat rb div unat rb" by (rule div_le_mono)
    then have "unat a \<le> unat da" using pos ab by (simp add: eq unat_div)
    then show ?thesis using ab by (simp add: eq unat_div word_le_nat_alt)
  qed
qed

lemma optimal_liquidity_sound_witness: "calculate_optimal_liquidity 500 800 1000 2000 = (400, 800) \<and> (400 :: u64) \<le> 500"
  using optimal_liquidity_sound [of 1000 2000 500 800 400 800]
  by (simp add: calculate_optimal_liquidity_def Let_def)

end
