(* ===== verification/Alkanes_Trace.thy ===== *)
theory Alkanes_Trace
  imports Amm
begin

text \<open>
  \<open>alkanes/trace.rs\<close> of the deezel library: the structured trace of a transaction, what serde's
  derived code reads it from (objects whose unknown keys are ignored, or the arrays of the fields in
  their order; missing or null optional fields; the first variant of the untagged event that fits)
  and what it writes.
\<close>

subsection \<open>Data\<close>

text \<open>A \<open>U128\<close> is the pair of its fields \<open>lo\<close> and \<open>hi\<close>, a \<open>ContractId\<close> that of \<open>block\<close> and \<open>tx\<close>.\<close>

type_synonym u128_parts = "u64 \<times> u64"

type_synonym contract_ref = "u128_parts option \<times> u128_parts option"

record call_context =
  cc_myself :: contract_ref
  cc_caller :: contract_ref
  cc_inputs :: "u128_parts list"
  cc_vout :: u32
  cc_incoming :: "(contract_ref \<times> u128_parts) list"

datatype call_event =
    Enter string call_context u64
  | Exit string
  | Create contract_ref
  | Unknown_event

record call_trace =
  ca_caller :: contract_ref
  ca_contract_id :: "contract_ref option"
  ca_input_data :: "byte list"
  ca_value :: "u128_parts option"
  ca_events :: "call_event list"

subsection \<open>Reading\<close>

text \<open>The fields of a struct: those of an object by name, or an array of exactly that many values.\<close>

fun struct_fields :: "string list \<Rightarrow> json \<Rightarrow> json option list option" where
  "struct_fields ks (JObj kvs) = Some (map (map_of kvs) ks)"
| "struct_fields ks (JArr vs) = (if length vs = length ks then Some (map Some vs) else None)"
| "struct_fields ks _ = None"

definition optional :: "(json \<Rightarrow> 'a option) \<Rightarrow> json option \<Rightarrow> 'a option option" where
  "optional f x =
     (case x of None \<Rightarrow> Some None | Some JNull \<Rightarrow> Some None | Some v \<Rightarrow> map_option Some (f v))"

fun option_map :: "('a \<Rightarrow> 'b option) \<Rightarrow> 'a list \<Rightarrow> 'b list option" where
  "option_map f [] = Some []"
| "option_map f (x # xs) =
     Option.bind (f x) (\<lambda>y. Option.bind (option_map f xs) (\<lambda>ys. Some (y # ys)))"

definition read_list :: "(json \<Rightarrow> 'a option) \<Rightarrow> json \<Rightarrow> 'a list option" where
  "read_list f v = Option.bind (as_array v) (option_map f)"

definition read_u128 :: "json \<Rightarrow> u128_parts option" where
  "read_u128 v =
     (case struct_fields [''lo'', ''hi''] v of
        Some [lo, hi] \<Rightarrow>
          Option.bind (Option.bind lo as_u64) (\<lambda>l. Option.bind (Option.bind hi as_u64) (\<lambda>h. Some (l, h)))
      | _ \<Rightarrow> None)"

definition read_contract :: "json \<Rightarrow> contract_ref option" where
  "read_contract v =
     (case struct_fields [''block'', ''tx''] v of
        Some [b, t] \<Rightarrow>
          Option.bind (optional read_u128 b) (\<lambda>block. Option.bind (optional read_u128 t) (\<lambda>tx. Some (block, tx)))
      | _ \<Rightarrow> None)"

definition read_transfer :: "json \<Rightarrow> (contract_ref \<times> u128_parts) option" where
  "read_transfer v =
     (case struct_fields [''id'', ''value''] v of
        Some [i, n] \<Rightarrow>
          Option.bind (Option.bind i read_contract) (\<lambda>c.
          Option.bind (Option.bind n read_u128) (\<lambda>x. Some (c, x)))
      | _ \<Rightarrow> None)"

definition as_u32 :: "json \<Rightarrow> u32 option" where
  "as_u32 v = Option.bind (as_u64 v) (\<lambda>n. if n < 0x100000000 then Some (ucast n) else None)"

definition read_context :: "json \<Rightarrow> call_context option" where
  "read_context v =
     (case struct_fields [''myself'', ''caller'', ''inputs'', ''vout'', ''incoming_alkanes''] v of
        Some [m, c, i, n, a] \<Rightarrow>
          Option.bind (Option.bind m read_contract) (\<lambda>myself.
          Option.bind (Option.bind c read_contract) (\<lambda>caller.
          Option.bind (Option.bind i (read_list read_u128)) (\<lambda>inputs.
          Option.bind (Option.bind n as_u32) (\<lambda>vout.
          Option.bind (Option.bind a (read_list read_transfer)) (\<lambda>incoming.
            Some \<lparr>cc_myself = myself, cc_caller = caller, cc_inputs = inputs, cc_vout = vout,
              cc_incoming = incoming\<rparr>)))))
      | _ \<Rightarrow> None)"

definition read_trace_context :: "json \<Rightarrow> (call_context \<times> u64) option" where
  "read_trace_context v =
     (case struct_fields [''inner'', ''fuel''] v of
        Some [i, f] \<Rightarrow>
          Option.bind (Option.bind i read_context) (\<lambda>inner.
          Option.bind (Option.bind f as_u64) (\<lambda>fuel. Some (inner, fuel)))
      | _ \<Rightarrow> None)"

definition read_enter :: "json \<Rightarrow> call_event option" where
  "read_enter v =
     (case struct_fields [''call_type'', ''context''] v of
        Some [t, c] \<Rightarrow>
          Option.bind (Option.bind t as_str) (\<lambda>call_type.
          Option.bind (Option.bind c read_trace_context) (\<lambda>(inner, fuel). Some (Enter call_type inner fuel)))
      | _ \<Rightarrow> None)"

definition read_exit :: "json \<Rightarrow> call_event option" where
  "read_exit v =
     (case struct_fields [''status''] v of
        Some [s] \<Rightarrow> map_option Exit (Option.bind s as_str) | _ \<Rightarrow> None)"

definition read_create :: "json \<Rightarrow> call_event option" where
  "read_create v =
     (case struct_fields [''new_alkane''] v of
        Some [a] \<Rightarrow> map_option Create (Option.bind a read_contract) | _ \<Rightarrow> None)"

text \<open>\<open>#[serde(untagged)]\<close>: the variants in their order, the unit variant from \<open>null\<close>.\<close>

definition read_event :: "json \<Rightarrow> call_event option" where
  "read_event v =
     (case read_enter v of Some e \<Rightarrow> Some e
      | None \<Rightarrow> (case read_exit v of Some e \<Rightarrow> Some e
      | None \<Rightarrow> (case read_create v of Some e \<Rightarrow> Some e
      | None \<Rightarrow> if v = JNull then Some Unknown_event else None)))"

definition read_call :: "libs \<Rightarrow> json \<Rightarrow> call_trace option" where
  "read_call l v =
     (case struct_fields [''caller'', ''id'', ''inputData'', ''value'', ''events''] v of
        Some [c, i, d, x, es] \<Rightarrow>
          Option.bind (Option.bind c read_contract) (\<lambda>caller.
          Option.bind (optional read_contract i) (\<lambda>contract_id.
          Option.bind (Option.bind (Option.bind d as_str) (hex_decode l)) (\<lambda>input_data.
          Option.bind (optional read_u128 x) (\<lambda>amount.
          Option.bind (Option.bind es (read_list read_event)) (\<lambda>events.
            Some \<lparr>ca_caller = caller, ca_contract_id = contract_id, ca_input_data = input_data,
              ca_value = amount, ca_events = events\<rparr>)))))
      | _ \<Rightarrow> None)"

definition read_trace :: "libs \<Rightarrow> json \<Rightarrow> call_trace list option" where
  "read_trace l v =
     (case struct_fields [''trace''] v of
        Some [t] \<Rightarrow> Option.bind t (read_list (read_call l)) | _ \<Rightarrow> None)"

text \<open>What the indexer reads of it: the statuses of the exits of the first call.\<close>

fun exit_status :: "call_event \<Rightarrow> string option" where
  "exit_status (Exit s) = Some s"
| "exit_status _ = None"

definition first_call_exits :: "libs \<Rightarrow> json \<Rightarrow> string list option" where
  "first_call_exits l v =
     map_option (\<lambda>cs. case cs of [] \<Rightarrow> [] | c # _ \<Rightarrow> List.map_filter exit_status (ca_events c)) (read_trace l v)"

subsection \<open>Writing\<close>

definition write_option :: "('a \<Rightarrow> json) \<Rightarrow> 'a option \<Rightarrow> json" where
  "write_option f x = (case x of Some y \<Rightarrow> f y | None \<Rightarrow> JNull)"

definition write_u128 :: "u128_parts \<Rightarrow> json" where
  "write_u128 p = JObj [(''lo'', JNum (PosInt (fst p))), (''hi'', JNum (PosInt (snd p)))]"

definition write_contract :: "contract_ref \<Rightarrow> json" where
  "write_contract c = JObj [(''block'', write_option write_u128 (fst c)), (''tx'', write_option write_u128 (snd c))]"

definition write_transfer :: "contract_ref \<times> u128_parts \<Rightarrow> json" where
  "write_transfer t = JObj [(''id'', write_contract (fst t)), (''value'', write_u128 (snd t))]"

definition write_context :: "call_context \<Rightarrow> json" where
  "write_context c =
     JObj [(''myself'', write_contract (cc_myself c)), (''caller'', write_contract (cc_caller c)),
       (''inputs'', JArr (map write_u128 (cc_inputs c))), (''vout'', JNum (PosInt (ucast (cc_vout c)))),
       (''incoming_alkanes'', JArr (map write_transfer (cc_incoming c)))]"

fun write_event :: "call_event \<Rightarrow> json" where
  "write_event (Enter t c fuel) =
     JObj [(''call_type'', JStr t), (''context'', JObj [(''inner'', write_context c), (''fuel'', JNum (PosInt fuel))])]"
| "write_event (Exit s) = JObj [(''status'', JStr s)]"
| "write_event (Create c) = JObj [(''new_alkane'', write_contract c)]"
| "write_event Unknown_event = JNull"

definition write_call :: "libs \<Rightarrow> call_trace \<Rightarrow> json" where
  "write_call l c =
     JObj [(''caller'', write_contract (ca_caller c)), (''id'', write_option write_contract (ca_contract_id c)),
       (''inputData'', JStr (hex_encode l (ca_input_data c))), (''value'', write_option write_u128 (ca_value c)),
       (''events'', JArr (map write_event (ca_events c)))]"

definition to_raw_json :: "libs \<Rightarrow> call_trace list \<Rightarrow> json" where
  "to_raw_json l cs = JObj [(''trace'', JArr (map (write_call l) cs))]"

subsection \<open>Facts\<close>

lemma option_map_map: "(\<And>x. x \<in> set xs \<Longrightarrow> f (g x) = Some x) \<Longrightarrow> option_map f (map g xs) = Some xs"
  by (induction xs) auto

lemma read_write_u128 [simp]: "read_u128 (write_u128 p) = Some p"
  by (cases p) (simp add: read_u128_def write_u128_def)

lemma write_not_null [simp]: "write_u128 p \<noteq> JNull" "write_contract c \<noteq> JNull"
  by (simp_all add: write_u128_def write_contract_def)

lemma optional_write [simp]:
  assumes "\<And>x. f (g x) = Some x" "\<And>x. g x \<noteq> JNull"
  shows "optional f (Some (write_option g x)) = Some x"
proof (cases x)
  case (Some y)
  then show ?thesis using assms [of y] by (cases "g y") (simp_all add: optional_def write_option_def)
qed (simp add: optional_def write_option_def)

lemma read_write_contract [simp]: "read_contract (write_contract c) = Some c"
  by (cases c) (simp add: read_contract_def write_contract_def)

lemma read_write_transfer [simp]: "read_transfer (write_transfer t) = Some t"
  by (cases t) (simp add: read_transfer_def write_transfer_def)

lemma as_u32_ucast [simp]: "as_u32 (JNum (PosInt (ucast (n :: u32)))) = Some n"
proof -
  have "unat n < 2 ^ 32" using unsigned_less [of n] by simp
  moreover from this have "unat (ucast n :: u64) = unat n"
    by (simp add: unsigned_ucast_eq take_bit_nat_eq_self_iff)
  ultimately have "(ucast n :: u64) < 0x100000000" by (simp add: word_less_nat_alt)
  moreover have "(ucast (ucast n :: u64) :: u32) = n"
    by (auto intro: bit_word_eqI simp: bit_word_ucast_iff)
  ultimately show ?thesis by (simp add: as_u32_def)
qed

lemma read_write_context [simp]: "read_context (write_context c) = Some c"
  by (simp add: read_context_def write_context_def read_list_def option_map_map)

lemma read_write_event [simp]: "read_event (write_event e) = Some e"
  by (cases e)
    (simp_all add: read_event_def read_enter_def read_exit_def read_create_def read_trace_context_def)

lemma read_write_call:
  assumes "hex_documented l"
  shows "read_call l (write_call l c) = Some c"
  using hex_documentedD [OF assms]
  by (simp add: read_call_def write_call_def read_list_def option_map_map)

text \<open>
  C21: the structured trace that the library writes, it reads back.
\<close>

theorem trace_round_trip:
  assumes "hex_documented l"
  shows "read_trace l (to_raw_json l cs) = Some cs"
  using read_write_call [OF assms]
  by (simp add: read_trace_def to_raw_json_def read_list_def option_map_map)

lemma trace_round_trip_witness:
  "read_trace hex_libs (to_raw_json hex_libs [\<lparr>ca_caller = (None, Some (2, 0)), ca_contract_id = None,
     ca_input_data = [0x4d], ca_value = None, ca_events = [Exit ''Success'', Unknown_event]\<rparr>]) =
   Some [\<lparr>ca_caller = (None, Some (2, 0)), ca_contract_id = None,
     ca_input_data = [0x4d], ca_value = None, ca_events = [Exit ''Success'', Unknown_event]\<rparr>]"
  using trace_round_trip [of hex_libs] by simp

text \<open>
  The list of event objects that the indexer flattens is no structured trace, and neither is an
  empty list.
\<close>

lemma events_are_no_trace:
  assumes "\<forall>ev \<in> set evs. \<exists>kvs. ev = JObj kvs"
  shows "first_call_exits l (JArr evs) = None"
proof (cases evs)
  case (Cons ev rest)
  then obtain kvs where "ev = JObj kvs" using assms by auto
  with Cons show ?thesis by (cases rest) (simp_all add: first_call_exits_def read_trace_def read_list_def)
qed (simp add: first_call_exits_def read_trace_def)

end
