(* ===== verification/Deezel.thy ===== *)
theory Deezel
  imports Pipeline Runestone Alkanes_Trace
begin

text \<open>
  The indexer on the library: the provider and the library functions that the other theories take
  as parameters, built from the models of the library's code (\<open>Deezel_Client\<close>, \<open>Amm\<close>, \<open>Runestone\<close>,
  \<open>Alkanes_Trace\<close>), and what the indexer's operations do on them.  What is left as a parameter is
  the transport, the JSON text, the hex crate and the bitcoin and ordinals crates.
\<close>

subsection \<open>The provider\<close>

definition attempt_of :: "backend \<Rightarrow> nat \<Rightarrow> 'a dres \<Rightarrow> 'a attempt" where
  "attempt_of b n r =
     (if \<not> in_time b n then Timed_out
      else case r of Inl e \<Rightarrow> Failed (deezel_error_text e) | Inr x \<Rightarrow> Answered x)"

definition id_strings :: "contract_id \<Rightarrow> alkane_id" where
  "id_strings i = (to_string (fst i), to_string (snd i))"

definition pools_answer :: "libs \<Rightarrow> backend \<Rightarrow> nat \<Rightarrow> string \<Rightarrow> alkane_id \<Rightarrow> alkane_id list res" where
  "pools_answer l b n url factory =
     (case get_all_pools_via_raw_simulate l (rpc_call b n) url (fst factory) (snd factory) of
        Inl panic \<Rightarrow> Inl panic
      | Inr (Inl e) \<Rightarrow> Inl (anyhow (deezel_error_text e))
      | Inr (Inr ids) \<Rightarrow> Inr (map id_strings ids))"

definition details_of :: "amm_details \<Rightarrow> pool_details" where
  "details_of d =
     \<lparr>pd_token0 = id_strings (ad_token0 d), pd_token1 = id_strings (ad_token1 d), pd_amount0 = ad_amount0 d,
      pd_amount1 = ad_amount1 d, pd_supply = ad_supply d, pd_name = ad_name d\<rparr>"

definition details_answer :: "libs \<Rightarrow> backend \<Rightarrow> nat \<Rightarrow> string \<Rightarrow> alkane_id \<Rightarrow> string + pool_details" where
  "details_answer l b n url pool_id =
     (case get_pool_details_via_raw_simulate l (rpc_call b n) url (fst pool_id) (snd pool_id) of
        Inl e \<Rightarrow> Inl (deezel_error_text e)
      | Inr d \<Rightarrow> Inr (details_of d))"

definition deezel_provider :: "libs \<Rightarrow> backend \<Rightarrow> concrete_provider \<Rightarrow> provider" where
  "deezel_provider l b p =
     \<lparr>rpc_answer = (\<lambda>n url rpc_method params. attempt_of b n (rpc_call b n url rpc_method params)),
      height_answer = (\<lambda>n. attempt_of b n (get_metashrew_height b p n)),
      hash_answer = (\<lambda>n height. dres_text (provider_block_hash b p n height)),
      tx_hex_answer = (\<lambda>n txid. attempt_of b n (get_tx_hex b p n txid)),
      transaction_hex_answer = (\<lambda>n txid. attempt_of b n (get_transaction_hex b p n txid)),
      amm_pools_answer = pools_answer l b, amm_details_answer = details_answer l b,
      bitcoin_rpc_url = get_bitcoin_rpc_url p\<rparr>"

text \<open>The formatter under \<open>catch_unwind\<close>, and the structured trace.\<close>

definition formatted_of :: "json res \<Rightarrow> formatted" where
  "formatted_of r =
     (case r of
        Inr v \<Rightarrow> Formatted v
      | Inl (Error chain) \<Rightarrow> Format_error (error_text chain)
      | Inl (Panic msg) \<Rightarrow> Format_panic)"

definition deezel_libs :: "libs \<Rightarrow> 'r chain_libs \<Rightarrow> libs" where
  "deezel_libs base c = base
     \<lparr>libs.format_runestone := (\<lambda>t. formatted_of (format_runestone_with_decoded_messages c (tx_details c t))),
      trace_exits := first_call_exits base\<rparr>"

subsection \<open>Errors of a trace call\<close>

lemma lower_append: "to_ascii_lowercase (a @ b) = to_ascii_lowercase a @ to_ascii_lowercase b"
  by (simp add: to_ascii_lowercase_def)

lemma non_standard_prefix:
  "to_ascii_lowercase ''RPC error: Non-standard error object received: '' = ''rpc error: non-standard error object received: ''"
  by (simp add: to_ascii_lowercase_def lower_char_def)

text \<open>A text cannot start within a prefix that has none of its first character.\<close>

lemma str_contains_skip: "c \<notin> set pre \<Longrightarrow> str_contains (c # pat) (pre @ s) = str_contains (c # pat) s"
  by (induction pre) auto

lemma lower_char_id: "c \<notin> set ''ABCDEFGHIJKLMNOPQRSTUVWXYZ'' \<Longrightarrow> lower_char c = c"
proof -
  assume "c \<notin> set ''ABCDEFGHIJKLMNOPQRSTUVWXYZ''"
  then have "map_of (zip ''ABCDEFGHIJKLMNOPQRSTUVWXYZ'' ''abcdefghijklmnopqrstuvwxyz'') c = None"
    by (subst map_of_zip_is_None) simp_all
  then show ?thesis unfolding lower_char_def by (simp only: option.case)
qed

lemma lower_digits:
  assumes "set s \<subseteq> decimal_digits \<union> {CHR ''-''}"
  shows "to_ascii_lowercase s = s"
proof -
  have "\<forall>c \<in> decimal_digits \<union> {CHR ''-''}. c \<notin> set ''ABCDEFGHIJKLMNOPQRSTUVWXYZ''"
    by (simp add: decimal_digits_def)
  then show ?thesis
    using assms unfolding to_ascii_lowercase_def by (intro map_idI lower_char_id) blast
qed

lemma set_i32_text: "set (i32_text w) \<subseteq> decimal_digits \<union> {CHR ''-''}"
  using set_dec_string [of "nat (- sint w)"] set_dec_string [of "nat (sint w)"]
  by (auto simp: i32_text_def)

lemma standard_error_text:
  "str_contains ''non-standard error object received''
     (to_ascii_lowercase (deezel_error_text (RpcError (''Code '' @ i32_text code @ '': '' @ msg)))) =
   str_contains ''non-standard error object received'' (to_ascii_lowercase msg)"
proof -
  let ?pre = "''rpc error: code '' @ i32_text code @ '': ''"
  have "to_ascii_lowercase (deezel_error_text (RpcError (''Code '' @ i32_text code @ '': '' @ msg))) =
      to_ascii_lowercase (''RPC error: Code '') @ to_ascii_lowercase (i32_text code) @ to_ascii_lowercase '': '' @ to_ascii_lowercase msg"
    by (simp only: deezel_error_text.simps append_assoc lower_append) (simp add: to_ascii_lowercase_def lower_char_def)
  also have "\<dots> = ?pre @ to_ascii_lowercase msg"
    by (simp only: lower_digits [OF set_i32_text]) (simp add: to_ascii_lowercase_def lower_char_def)
  finally have shown: "to_ascii_lowercase (deezel_error_text (RpcError (''Code '' @ i32_text code @ '': '' @ msg))) =
      ?pre @ to_ascii_lowercase msg" .
  have "CHR ''n'' \<notin> set ?pre" using set_i32_text [of code] by (auto simp: decimal_digits_def)
  then show ?thesis unfolding shown by (rule str_contains_skip)
qed

lemma non_standard_error_text:
  "to_ascii_lowercase (deezel_error_text (RpcError (''Non-standard error object received: '' @ s))) =
     ''rpc error: non-standard error object received: '' @ to_ascii_lowercase s"
  by (simp add: to_ascii_lowercase_def lower_char_def)

lemma non_standard_contains:
  "str_contains ''cannot read properties of undefined'' (''rpc error: non-standard error object received: '' @ s) =
     str_contains ''cannot read properties of undefined'' s"
  "str_contains ''non-standard error object received'' (''rpc error: non-standard error object received: '' @ s)"
  by simp_all

text \<open>
  Which responses of the node the indexer takes for the known upstream error.  A response to
  \<open>alkanes_trace\<close> whose error object is no JSON-RPC error (code and message) and prints as text that
  mentions the undefined property is not retried and only skips the protostone; the same complaint
  in the message of a standard error object is an ordinary error.
\<close>

theorem upstream_error_classification:
  assumes "http_post b n url ''alkanes_trace'' params = Inr text" "in_time b n"
    and "parse_json b text = Some v" "jget ''error'' v = Some err" "err \<noteq> JNull"
    and "\<forall>code msg. rpc_error_of err = Some (code, msg) \<longrightarrow>
      \<not> str_contains ''non-standard error object received'' (to_ascii_lowercase msg)"
  shows "\<exists>m. rpc_answer (deezel_provider l b p) n url ''alkanes_trace'' params = Failed m \<and>
    (is_non_retriable ''alkanes_trace'' m \<longleftrightarrow>
      rpc_error_of err = None \<and>
      str_contains ''cannot read properties of undefined'' (to_ascii_lowercase (show_json b err)))"
proof -
  let ?m = "deezel_error_text (RpcError (error_object_text b err))"
  have "rpc_answer (deezel_provider l b p) n url ''alkanes_trace'' params = Failed ?m"
    using assms(1-5) by (simp add: deezel_provider_def attempt_of_def rpc_call_def decode_response_def)
  moreover have "is_non_retriable ''alkanes_trace'' ?m \<longleftrightarrow>
      rpc_error_of err = None \<and>
      str_contains ''cannot read properties of undefined'' (to_ascii_lowercase (show_json b err))"
  proof (cases "rpc_error_of err")
    case None
    have "is_non_retriable ''alkanes_trace'' ?m \<longleftrightarrow>
        str_contains ''cannot read properties of undefined'' (to_ascii_lowercase (show_json b err))"
      unfolding is_non_retriable_def Let_def error_object_text_def None option.case non_standard_error_text
        non_standard_contains by simp
    with None show ?thesis by simp
  next
    case (Some e)
    obtain code msg where e: "rpc_error_of err = Some (code, msg)" using Some by (cases e) auto
    then have "\<not> is_non_retriable ''alkanes_trace'' ?m"
      unfolding is_non_retriable_def Let_def error_object_text_def e option.case prod.case standard_error_text
      using assms(6) e by blast
    with e show ?thesis by simp
  qed
  ultimately show ?thesis by blast
qed

definition example_backend :: backend where
  "example_backend = \<lparr>http_post = (\<lambda>n url rpc_method params. Inr ''{}''), http_get = (\<lambda>n url. Inr ''Transaction not found''),
     in_time = (\<lambda>n. True), parse_json = (\<lambda>s. Some (JObj [(''error'', JStr ''TypeError'')])),
     show_json = (\<lambda>v. ''TypeError: Cannot read properties of undefined''),
     body_error = (\<lambda>s. ''error decoding response body''), http_get_bytes = (\<lambda>n url. Inl ''refused''),
     http_post_text = (\<lambda>n url body. Inl ''refused'')\<rparr>"

lemma upstream_error_classification_witness:
  "\<exists>m. rpc_answer (deezel_provider hex_libs example_backend (build_provider None ''url'' None ''regtest'')) 0 ''url''
       ''alkanes_trace'' JNull = Failed m \<and> is_non_retriable ''alkanes_trace'' m"
proof -
  let ?v = "JObj [(''error'', JStr ''TypeError'')]"
  have "str_contains ''cannot read properties of undefined'' (to_ascii_lowercase (show_json example_backend (JStr ''TypeError'')))"
    by (simp add: example_backend_def to_ascii_lowercase_def lower_char_def)
  moreover have "http_post example_backend 0 ''url'' ''alkanes_trace'' JNull = Inr ''{}''" "in_time example_backend 0"
    "parse_json example_backend ''{}'' = Some ?v" "jget ''error'' ?v = Some (JStr ''TypeError'')"
    "rpc_error_of (JStr ''TypeError'') = None"
    "JStr ''TypeError'' \<noteq> JNull" "\<forall>code msg. rpc_error_of (JStr ''TypeError'') \<noteq> Some (code, msg)"
    by (simp_all add: example_backend_def)
  ultimately show ?thesis
    using upstream_error_classification [of example_backend 0 "''url''" JNull "''{}''" ?v "JStr ''TypeError''"] by blast
qed

subsection \<open>The hex of a transaction\<close>

text \<open>
  With an esplora URL, the text of the response is taken for the hex whatever the server's status
  says: a non-empty text that is no hex (an error page) fails the transaction after this one request,
  without the fallback to \<open>getrawtransaction\<close>, which is asked only after errors and empty texts.
\<close>

theorem esplora_text_is_not_checked:
  assumes "prov w = deezel_provider l b p" "esplora_url p = Some url"
    and "jstr [''hex''] tx_json = None" "jstr [''txid''] tx_json = Some txid"
    and "http_get b (calls w) (url @ ''/tx/'' @ txid @ ''/hex'') = Inr body" "in_time b (calls w)"
    and "body \<noteq> []" "hex_decode (lib w) body = None"
  shows "\<exists>chain w'. tx_from_json_or_fetch_hex tx_json w = (Inl (Error chain), w') \<and>
    calls w' = Suc (calls w) \<and> error_text chain = ''failed to decode tx hex''"
proof -
  have "get_tx_hex b p (calls w) txid = Inr body"
    using assms(2,5) by (simp add: get_tx_hex_def)
  then have "tx_hex_answer (prov w) (calls w) txid = Answered body"
    using assms(1,6) by (simp add: deezel_provider_def attempt_of_def)
  then obtain w1 where "fetch_hex_esplora txid 2 1 w = (Inr body, w1)" "calls w1 = Suc (calls w)" "lib w1 = lib w"
    by (simp add: numeral_2_eq_2 act_bind_def provider_call_def act_return_def)
  then show ?thesis
    using assms(3,4,7,8)
    by (simp add: tx_from_json_or_fetch_hex_def act_bind_def act_get_def act_return_def lift_res_def
        decode_tx_def error_text_def)
qed

definition esplora_provider :: concrete_provider where
  "esplora_provider = build_provider None ''url'' (Some ''https://esplora'') ''mainnet''"

lemma esplora_text_is_not_checked_witness:
  "\<exists>chain w'. tx_from_json_or_fetch_hex (JObj [(''txid'', JStr ''ab'')])
      (example_world\<lparr>prov := deezel_provider hex_libs example_backend esplora_provider\<rparr>) = (Inl (Error chain), w') \<and>
    calls w' = 1"
proof -
  let ?w = "example_world\<lparr>prov := deezel_provider hex_libs example_backend esplora_provider\<rparr>"
  have "esplora_url esplora_provider = Some ''https://esplora''"
    by (simp add: esplora_provider_def build_provider_def concrete_provider_new_def)
  moreover have "jstr [''hex''] (JObj [(''txid'', JStr ''ab'')]) = None"
    "jstr [''txid''] (JObj [(''txid'', JStr ''ab'')]) = Some ''ab''"
    by (simp_all add: jstr_def)
  moreover have "calls ?w = 0" "hex_decode (lib ?w) ''Transaction not found'' = None"
    by (simp_all add: example_world_def example_libs_def)
  moreover have "http_get example_backend n u = Inr ''Transaction not found''" "in_time example_backend n" for n u
    by (simp_all add: example_backend_def)
  ultimately show ?thesis
    using esplora_text_is_not_checked [of ?w hex_libs example_backend esplora_provider "''https://esplora''"
        "JObj [(''txid'', JStr ''ab'')]" "''ab''" "''Transaction not found''"] by auto
qed

subsection \<open>The addresses of the protostones\<close>

text \<open>What is recorded of a transaction on the library: one item per protostone of its runestone.\<close>

definition records_stones :: "provider \<Rightarrow> libs \<Rightarrow> 'r chain_libs \<Rightarrow> tx_trace \<Rightarrow> bool" where
  "records_stones pr l c r \<longleftrightarrow>
     (\<exists>tx stones. materialised pr l (tt_json r) tx \<and> format_runestone c (tx_details c tx) = Inr stones \<and>
       tt_txid r = ct_txid (tx_details c tx) \<and>
       list_all2 (\<lambda>st it. jstr [''pointer_destination'', ''address''] (di_decoded it) =
           addressed_output c (tx_details c tx) (st_pointer st)) stones (tt_protostones r) \<and>
       map di_vout (tt_protostones r) =
         map (\<lambda>k. of_nat (tx_outputs tx + 1 + k)) [0..<length stones])"

lemma formatted_of_Formatted: "formatted_of r = Formatted f \<longleftrightarrow> r = Inr f"
  by (auto simp: formatted_of_def split: sum.splits fault.splits)

lemma format_messages_Inr:
  assumes "format_runestone_with_decoded_messages c tx = Inr f"
  obtains stones ps where "format_runestone c tx = Inr stones" "jarr_or_empty [''protostones''] f = ps"
    "list_all2 (\<lambda>st p. stone_json c tx st = Inr p) stones ps" "jstr [''transaction_id''] f = Some (ct_txid tx)"
  using assms
  by (auto simp: format_runestone_with_decoded_messages_def jarr_or_empty_def jstr_def res_map_Inr)

lemma length_shadow_items: "length (shadow_items start i ps) = length ps"
  by (simp add: shadow_items_def)

lemma decided_records:
  assumes "decided pr l url t (Some r)" "libs.format_runestone l = (\<lambda>t. formatted_of (format_runestone_with_decoded_messages c (tx_details c t)))"
  shows "records_stones pr l c r"
proof -
  obtain tx f where m: "materialised pr l (tt_json r) tx" and f: "format_runestone_with_decoded_messages c (tx_details c tx) = Inr f"
    and r: "tt_txid r = unwrap_or (tx_computed_id tx) (jstr [''transaction_id''] f)"
      "tt_protostones r = shadow_items (of_nat (tx_outputs tx) + 1) 0 (jarr_or_empty [''protostones''] f)"
    using assms by (auto simp: decided_def decided_trace_def Let_def formatted_of_Formatted)
  obtain stones ps where st: "format_runestone c (tx_details c tx) = Inr stones"
    "jarr_or_empty [''protostones''] f = ps" "list_all2 (\<lambda>st p. stone_json c (tx_details c tx) st = Inr p) stones ps"
    "jstr [''transaction_id''] f = Some (ct_txid (tx_details c tx))"
    by (rule format_messages_Inr [OF f])
  let ?items = "shadow_items (of_nat (tx_outputs tx) + 1) 0 ps"
  have len: "length stones = length ps" using st(3) by (rule list_all2_lengthD)
  have item: "di_decoded (?items ! k) = ps ! k" "di_vout (?items ! k) = of_nat (tx_outputs tx + 1 + k)" if "k < length ps" for k
    using that by (simp_all add: shadow_items_def nth_enumerate_eq add_ac)
  have "list_all2 (\<lambda>st it. jstr [''pointer_destination'', ''address''] (di_decoded it) =
      addressed_output c (tx_details c tx) (st_pointer st)) stones ?items"
    using st(3) len by (auto simp: list_all2_conv_all_nth length_shadow_items item dest: stone_json_reads(1))
  moreover have "map di_vout ?items = map (\<lambda>k. of_nat (tx_outputs tx + 1 + k)) [0..<length stones]"
    using len by (intro nth_equalityI) (simp_all add: length_shadow_items item del: of_nat_add)
  ultimately show ?thesis
    unfolding records_stones_def using m st r by (intro exI [of _ tx] exI [of _ stones]) simp
qed

text \<open>
  C10: with the formatter of the library, every result of tracing a block belongs to the transaction
  obtained for its JSON and has exactly one item per protostone of that transaction's runestone, in
  their order, at the shadow \<open>vout\<close>s after the last output; the address that the indexers will read
  from an item is the mainnet address of the output that the protostone's pointer names (none when it
  names no output).
\<close>

theorem traced_addresses:
  assumes "decode_and_trace_for_block txs w = (Inr results, w')" "lib w = deezel_libs base c"
  shows "\<forall>r \<in> set results. records_stones (prov w) (lib w) c r"
proof (cases "traceable_txs txs = []")
  case True
  with assms(1) show ?thesis
    by (auto simp: decode_and_trace_for_block_def act_bind_get act_return_def)
next
  case False
  with assms(1) have run: "run_batches (Suc (length (traceable_txs txs))) (resolve_sandshrew_url w)
      (make_batches (traceable_txs txs)) [] w = (Inr (None, results), w')"
    by (auto simp: decode_and_trace_for_block_def act_bind_get act_bind_Inr act_return_def act_fail_def Let_def
        simp del: run_batches.simps split: option.splits)
  have "length (concat (make_batches (traceable_txs txs))) < Suc (length (traceable_txs txs))"
    by (simp add: make_batches_partition)
  from run_batches_decided [OF run this] obtain order outs where
    outs: "list_all2 (decided (prov w) (lib w) (resolve_sandshrew_url w)) order outs" "results = List.map_filter (\<lambda>out. out) outs" by auto
  have fmt: "libs.format_runestone (lib w) =
      (\<lambda>t. formatted_of (format_runestone_with_decoded_messages c (tx_details c t)))"
    by (simp add: assms(2) deezel_libs_def)
  show ?thesis
  proof
    fix r
    assume "r \<in> set results"
    then have "Some r \<in> set outs" using outs(2) by (auto simp: List.map_filter_def)
    then obtain t where "decided (prov w) (lib w) (resolve_sandshrew_url w) t (Some r)"
      using outs(1) by (auto simp: list_all2_conv_all_nth in_set_conv_nth)
    then show "records_stones (prov w) (lib w) c r" by (rule decided_records [OF _ fmt])
  qed
qed

definition deezel_tracing_world :: world where
  "deezel_tracing_world = tracing_world\<lparr>lib := deezel_libs (lib tracing_world) example_chain\<rparr>"

lemma deezel_tracing_world_simps:
  "prov deezel_tracing_world = example_provider" "calls deezel_tracing_world = 1" "\<not> cb_open deezel_tracing_world"
  "lib deezel_tracing_world = deezel_libs (lib tracing_world) example_chain"
  "hex_decode (lib deezel_tracing_world) h = Some []"
  "deserialize_tx (lib deezel_tracing_world) b = Some \<lparr>tx_outputs = 3, tx_computed_id = ''t'', tx_raw = []\<rparr>"
  "retry_config_of (deezel_tracing_world\<lparr>joins := n\<rparr>) = \<lparr>max_attempts = 5, base_delay_ms = 200, max_delay_ms = 5000\<rparr>"
  using tracing_world_simps
  by (simp_all add: deezel_tracing_world_def deezel_libs_def retry_config_of_def env_num_def)

lemma deezel_tracing_run:
  "\<exists>r w'. decode_and_trace_tx url (op_return_tx ''t'') (deezel_tracing_world\<lparr>joins := n\<rparr>) = (Inr (Traced r), w')"
proof -
  let ?w = "deezel_tracing_world\<lparr>joins := n\<rparr>" and ?tx = "\<lparr>tx_outputs = 3, tx_computed_id = ''t'', tx_raw = []\<rparr>"
  obtain f p where f: "format_runestone_with_decoded_messages example_chain example_tx = Inr f"
    and fields: "jarr_or_empty [''protostones''] f = [p]" "jstr [''transaction_id''] f = Some ''ab''"
    by (simp add: format_runestone_with_decoded_messages_def format_runestone_example stone_json_def example_stone_def
        json_u128_def example_tx_def json_access_defs)
  have fmt: "libs.format_runestone (lib deezel_tracing_world) ?tx = Formatted f"
    using f by (simp add: deezel_tracing_world_simps deezel_libs_def formatted_of_def) (simp add: example_chain_def)
  have tx: "tx_from_json_or_fetch_hex (op_return_tx ''t'') ?w = (Inr ?tx, ?w)"
    by (simp add: tx_from_json_or_fetch_hex_def act_bind_get lift_res_def decode_tx_def op_return_tx_simps
        deezel_tracing_world_simps del: deezel_tracing_world_simps(4))
  have "\<exists>res w'. trace_call url txid 4 ?w = (Inr res, w')" for txid
    by (simp add: trace_call_def act_context_def resilient_call_with_last_error_def resilient_def
        circuit_open_def act_bind_def act_get_def retry_loop.simps provider_call_def deezel_tracing_world_simps
        example_provider_def)
  then obtain res w1 where "trace_call url (to_little_endian_hex (lib deezel_tracing_world) ''ab'') 4 ?w = (Inr res, w1)"
    by blast
  then show ?thesis
    by (simp add: decode_and_trace_tx_def act_bind_get act_bind_def [of "act_try m" for m] act_try_def tx fields fmt
        act_return_def Let_def)
qed

lemma traced_addresses_witness:
  "\<exists>r w'. decode_and_trace_for_block [op_return_tx ''t''] deezel_tracing_world = (Inr [r], w') \<and>
     records_stones (prov deezel_tracing_world) (lib deezel_tracing_world) example_chain r"
proof -
  obtain r w1 where r: "decode_and_trace_tx (resolve_sandshrew_url deezel_tracing_world) (op_return_tx ''t'')
      (deezel_tracing_world\<lparr>joins := Suc (joins deezel_tracing_world)\<rparr>) = (Inr (Traced r), w1)"
    using deezel_tracing_run by blast
  have batches: "make_batches [op_return_tx ''t''] = [[op_return_tx ''t'']]"
    by (simp add: make_batches_def chunks.simps)
  have run: "decode_and_trace_for_block [op_return_tx ''t''] deezel_tracing_world = (Inr [r], w1)"
    using r by (simp add: decode_and_trace_for_block_def act_get_def traceable_op_return_tx batches next_task_def
        act_bind_def act_return_def Let_def)
  from traced_addresses [OF this deezel_tracing_world_simps(4)] run show ?thesis
    by (intro exI [of _ r] exI [of _ w1]) simp
qed

subsection \<open>The pools of the chain\<close>

text \<open>A pool as the contracts have it.\<close>

record chain_pool =
  cp_id :: "u128 \<times> u128"
  cp_token0 :: "u128 \<times> u128"
  cp_token1 :: "u128 \<times> u128"
  cp_amount0 :: u128
  cp_amount1 :: u128
  cp_supply :: u128
  cp_rest :: "byte list"

definition chain_details :: "chain_pool \<Rightarrow> string" where
  "chain_details q =
     details_data (cp_token0 q) (cp_token1 q) (cp_amount0 q) (cp_amount1 q) (cp_supply q) (cp_rest q)"

definition pool_key :: "chain_pool \<Rightarrow> alkane_id" where
  "pool_key q = id_strings (low_id (cp_id q))"

definition reported_details :: "chain_pool \<Rightarrow> pool_details" where
  "reported_details q =
     \<lparr>pd_token0 = id_strings (low_id (cp_token0 q)), pd_token1 = id_strings (low_id (cp_token1 q)),
      pd_amount0 = cp_amount0 q, pd_amount1 = cp_amount1 q, pd_supply = cp_supply q,
      pd_name = utf8_lossy (drop 4 (cp_rest q))\<rparr>"

text \<open>The node at the URL answers a simulation with the data, every time.\<close>

definition simulates :: "backend \<Rightarrow> string \<Rightarrow> alkane_id \<Rightarrow> u64 \<Rightarrow> string \<Rightarrow> bool" where
  "simulates b url target opcode data \<longleftrightarrow>
     (\<forall>n. \<exists>v. rpc_call b n url ''alkanes_simulate'' (simulate_params (fst target) (snd target) opcode) = Inr v \<and>
        execution_data v = data)"

lemma pools_answer_of_node:
  assumes "hex_documented l" "simulates b url factory factory_opcode_get_all_pools (pools_data n is rest)"
    "length rest < 32" "length is \<le> unat (ucast n :: u64)"
  shows "pools_answer l b k url factory = Inr (map (\<lambda>i. id_strings (low_id i)) is)"
proof -
  obtain v where v: "rpc_call b k url ''alkanes_simulate''
      (simulate_params (fst factory) (snd factory) factory_opcode_get_all_pools) = Inr v"
    "execution_data v = pools_data n is rest"
    using assms(2) by (auto simp: simulates_def)
  have "decode_get_all_pools l (pools_data n is rest) = Inr (Some (map low_id is))"
    using decode_get_all_pools_eq [OF assms(1,3)] assms(4) by simp
  with v show ?thesis by (simp add: pools_answer_def get_all_pools_via_raw_simulate_def)
qed

lemma details_answer_of_node:
  assumes "hex_documented l" "simulates b url key pool_opcode_pool_details (chain_details q)"
  shows "details_answer l b k url key = Inr (reported_details q)"
proof -
  obtain v where v: "rpc_call b k url ''alkanes_simulate''
      (simulate_params (fst key) (snd key) pool_opcode_pool_details) = Inr v"
    "execution_data v = chain_details q"
    using assms(2) by (auto simp: simulates_def)
  then show ?thesis
    by (simp add: details_answer_def get_pool_details_via_raw_simulate_def chain_details_def
        decode_pool_details_eq [OF assms(1)] details_of_def reported_details_def)
qed

lemma fetch_details_all:
  assumes "\<And>n q. q \<in> set order \<Longrightarrow> amm_details_answer (prov w) n url q = Inr (D q)"
  shows "\<exists>w'. act_map (fetch_details url) order w = (Inr (map (\<lambda>q. Some (q, D q)) order), w') \<and> prov w' = prov w"
  using assms
proof (induction order arbitrary: w)
  case Nil
  then show ?case by (simp add: act_return_def)
next
  case (Cons q order)
  have "amm_details_answer (prov w) (calls w) url q = Inr (D q)" using Cons.prems [of q] by simp
  then obtain w1 where w1: "fetch_details url q w = (Inr (Some (q, D q)), w1)" "prov w1 = prov w"
    by (simp add: fetch_details_def provider_call_def act_bind_def act_return_def)
  have prem: "amm_details_answer (prov w1) n url q' = Inr (D q')" if "q' \<in> set order" for n q'
    using that Cons.prems [of q' n] w1(2) by simp
  obtain w' where "act_map (fetch_details url) order w1 = (Inr (map (\<lambda>q. Some (q, D q)) order), w')" "prov w' = prov w1"
    using Cons.IH [of w1] prem by blast
  with w1 show ?case by (simp add: act_bind_def act_return_def)
qed

lemma map_filter_map_Some: "List.map_filter (\<lambda>x. x) (map (\<lambda>q. Some (f q)) xs) = map f xs"
  by (induction xs) (simp_all add: List.map_filter_simps)

text \<open>
  When the node simulates the factory and its pools, the refresh of the pools fetches every pool
  of the factory exactly once, in the order of completion, with the token ids, amounts, supply and
  name that its contract returns.
\<close>

theorem pools_from_node:
  assumes prov: "prov w = deezel_provider l b p" and hex: "hex_documented l"
    and url: "url = unwrap_or ''http://localhost:18888'' (env_var w ''SANDSHREW_RPC_URL'')"
    and factory: "simulates b url factory factory_opcode_get_all_pools (pools_data n (map cp_id qs) rest)"
      "length rest < 32" "length qs \<le> unat (ucast n :: u64)"
    and details: "\<forall>q \<in> set qs. simulates b url (pool_key q) pool_opcode_pool_details (chain_details q)"
  shows "\<exists>out w'. fetch_all_pools_with_details factory w = (Inr out, w') \<and>
    mset out = mset (map (\<lambda>q. (pool_key q, reported_details q)) qs)"
proof -
  let ?keys = "map pool_key qs"
  define D where "D key = (case details_answer l b 0 url key of Inr d \<Rightarrow> d | Inl _ \<Rightarrow> undefined)" for key
  have ans: "details_answer l b k url (pool_key q) = Inr (reported_details q)" if "q \<in> set qs" for k q
    using details_answer_of_node [OF hex] details that by blast
  then have D: "D (pool_key q) = reported_details q" if "q \<in> set qs" for q
    using that by (simp add: D_def)
  have keys: "pools_answer l b k url factory = Inr ?keys" for k
    using pools_answer_of_node [OF hex factory(1,2)] factory(3) by (simp add: pool_key_def o_def)
  obtain w1 where w1: "provider_call (\<lambda>p n. amm_pools_answer p n url factory) w = (Inr (Inr ?keys), w1)" "prov w1 = prov w"
    using keys prov by (simp add: provider_call_def deezel_provider_def)
  obtain order w2 where w2: "completed ?keys w1 = (Inr order, w2)" "mset order = mset ?keys" "prov w2 = prov w1"
  proof -
    obtain r w2 where r: "completed ?keys w1 = (r, w2)" by (cases "completed ?keys w1")
    from mset_completed [OF r] obtain order where "r = Inr order" "mset order = mset ?keys" by blast
    moreover have "prov w2 = prov w1" using r by (auto simp: completed_def)
    ultimately show thesis using r that by blast
  qed
  have "set order = pool_key ` set qs" using w2(2) by (metis list.set_map mset_eq_setD)
  then have "amm_details_answer (prov w2) k url q = Inr (D q)" if "q \<in> set order" for k q
    using that ans D w2(3) w1(2) prov by (auto simp: deezel_provider_def)
  then obtain w3 where w3: "act_map (fetch_details url) order w2 = (Inr (map (\<lambda>q. Some (q, D q)) order), w3)"
    using fetch_details_all by blast
  have run: "fetch_all_pools_with_details factory w =
      (Inr (if ?keys = [] then [] else map (\<lambda>q. (q, D q)) order), if ?keys = [] then w1 else w3)"
    using w1(1) w2(1) w3 url
    by (simp add: fetch_all_pools_with_details_def act_get_def act_bind_def act_return_def map_filter_map_Some)
  have "mset (map (\<lambda>q. (q, D q)) order) = image_mset (\<lambda>q. (q, D q)) (mset ?keys)"
    unfolding mset_map w2(2) ..
  also have "\<dots> = mset (map (\<lambda>q. (pool_key q, D (pool_key q))) qs)"
    by (simp only: mset_map [symmetric] map_map o_def)
  also have "map (\<lambda>q. (pool_key q, D (pool_key q))) qs = map (\<lambda>q. (pool_key q, reported_details q)) qs"
    using D by simp
  finally show ?thesis using run w2(2) by (intro exI [of _ "if ?keys = [] then [] else map (\<lambda>q. (q, D q)) order"]) auto
qed

definition example_pool :: chain_pool where
  "example_pool = \<lparr>cp_id = (2, 77), cp_token0 = (2, 0), cp_token1 = (2, 16), cp_amount0 = 1000,
     cp_amount1 = 2000, cp_supply = 1414, cp_rest = []\<rparr>"

definition simulated :: "string \<Rightarrow> json" where
  "simulated data = JObj [(''result'', JObj [(''execution'', JObj [(''data'', JStr data)])])]"

definition node_backend :: backend where
  "node_backend = \<lparr>
     http_post = (\<lambda>n url rpc_method params.
       Inr (if params = simulate_params ''4'' ''65522'' factory_opcode_get_all_pools then ''pools'' else ''details'')),
     http_get = (\<lambda>n url. Inl ''refused''), in_time = (\<lambda>n. True),
     parse_json = (\<lambda>s. Some (simulated (if s = ''pools'' then pools_data 1 [(2, 77)] [] else chain_details example_pool))),
     show_json = (\<lambda>v. []), body_error = (\<lambda>s. ''error decoding response body''),
     http_get_bytes = (\<lambda>n url. Inl ''refused''), http_post_text = (\<lambda>n url body. Inl ''refused'')\<rparr>"

lemma node_backend_call:
  "rpc_call node_backend n url rpc_method params =
     Inr (JObj [(''execution'', JObj [(''data'', JStr
       (if params = simulate_params ''4'' ''65522'' factory_opcode_get_all_pools
        then pools_data 1 [(2, 77)] [] else chain_details example_pool))])])"
  by (simp add: rpc_call_def node_backend_def decode_response_def simulated_def result_of_def)

lemma pools_from_node_witness:
  "\<exists>w'. fetch_all_pools_with_details (''4'', ''65522'')
      (example_world\<lparr>prov := deezel_provider hex_libs node_backend (build_provider None ''url'' None ''mainnet'')\<rparr>) =
    (Inr [((''2'', ''77''), \<lparr>pd_token0 = (''2'', ''0''), pd_token1 = (''2'', ''16''), pd_amount0 = 1000,
       pd_amount1 = 2000, pd_supply = 1414, pd_name = []\<rparr>)], w')"
proof -
  let ?p = "build_provider None ''url'' None ''mainnet''"
  let ?w = "example_world\<lparr>prov := deezel_provider hex_libs node_backend ?p\<rparr>"
  have data: "execution_data (JObj [(''execution'', JObj [(''data'', JStr d)])]) = d" for d
    by (simp add: execution_data_def jstr_def)
  have opcodes: "to_string pool_opcode_pool_details \<noteq> to_string factory_opcode_get_all_pools"
    by (simp add: pool_opcode_pool_details_def factory_opcode_get_all_pools_def)
  have 1: "simulates node_backend u (''4'', ''65522'') factory_opcode_get_all_pools (pools_data 1 (map cp_id [example_pool]) [])" for u
    by (simp add: simulates_def node_backend_call data example_pool_def)
  have 2: "\<forall>q \<in> set [example_pool]. simulates node_backend u (pool_key q) pool_opcode_pool_details (chain_details q)" for u
    using opcodes by (simp add: simulates_def node_backend_call data) (simp add: simulate_params_def)
  have strs: "to_string (2::u64) = ''2''" "to_string (77::u64) = ''77''" "to_string (16::u64) = ''16''" "to_string (0::u64) = ''0''"
    by (simp_all add: to_string_def dec_string_numeral digit_char_def)
  have rep: "pool_key example_pool = (''2'', ''77'')" "reported_details example_pool = \<lparr>pd_token0 = (''2'', ''0''),
      pd_token1 = (''2'', ''16''), pd_amount0 = 1000, pd_amount1 = 2000, pd_supply = 1414, pd_name = []\<rparr>"
    by (simp_all add: pool_key_def reported_details_def example_pool_def id_strings_def low_id_def strs)
  have "prov ?w = deezel_provider hex_libs node_backend ?p" by simp
  from pools_from_node [OF this hex_documented_hex_libs refl 1 _ _ 2] show ?thesis
    by (auto simp: rep)
qed

end
