(* ===== verification/Text_Ops.thy ===== *)
theory Text_Ops
  imports Bytes
begin

text \<open>
  Operations of \<open>str\<close> that the parsers of the library use: splitting at a character, trimming white
  space, and \<open>parse\<close> with the error it reports.  The characters of a string are the bytes of its
  UTF-8 form; the separators are ASCII, so that splitting by bytes is splitting by characters.
\<close>

subsection \<open>Splitting and trimming\<close>

fun split_on :: "char \<Rightarrow> string \<Rightarrow> string list" where
  "split_on d [] = [[]]"
| "split_on d (c # cs) =
     (if c = d then [] # split_on d cs
      else case split_on d cs of p # ps \<Rightarrow> (c # p) # ps | [] \<Rightarrow> [[c]])"

fun join_with :: "string \<Rightarrow> string list \<Rightarrow> string" where
  "join_with d [] = []"
| "join_with d [s] = s"
| "join_with d (s # t # ss) = s @ d @ join_with d (t # ss)"

definition starts_with :: "char \<Rightarrow> string \<Rightarrow> bool" where
  "starts_with c s \<longleftrightarrow> s \<noteq> [] \<and> hd s = c"

definition ends_with :: "char \<Rightarrow> string \<Rightarrow> bool" where
  "ends_with c s \<longleftrightarrow> s \<noteq> [] \<and> last s = c"

text \<open>The UTF-8 forms of the characters with the property \<open>White_Space\<close>.\<close>

definition white_space :: "string list" where
  "white_space = map (map char_of)
     ([[9], [10], [11], [12], [13], [32], [0xC2, 0x85], [0xC2, 0xA0], [0xE1, 0x9A, 0x80],
       [0xE2, 0x80, 0xA8], [0xE2, 0x80, 0xA9], [0xE2, 0x80, 0xAF], [0xE2, 0x81, 0x9F],
       [0xE3, 0x80, 0x80]] @ map (\<lambda>b. [0xE2, 0x80, b]) [0x80..<0x8B] :: nat list list)"

lemma white_space_nonempty: "w \<in> set white_space \<Longrightarrow> 0 < length w"
  by (auto simp: white_space_def)

function trim_prefixes :: "string list \<Rightarrow> string \<Rightarrow> string" where
  "trim_prefixes ws s =
     (case find (\<lambda>w. w \<noteq> [] \<and> prefix w s) ws of
        Some w \<Rightarrow> trim_prefixes ws (drop (length w) s)
      | None \<Rightarrow> s)"
  by pat_completeness auto
termination
proof (relation "measure (\<lambda>(ws, s). length s)")
  fix ws :: "string list" and s w :: string
  assume "find (\<lambda>w. w \<noteq> [] \<and> prefix w s) ws = Some w"
  then have "w \<noteq> []" "prefix w s" by (auto dest: find_SomeD)
  then show "((ws, drop (length w) s), (ws, s)) \<in> measure (\<lambda>(ws, s). length s)"
    by (cases s) auto
qed simp

declare trim_prefixes.simps [simp del]

definition trim_start :: "string \<Rightarrow> string" where
  "trim_start s = trim_prefixes white_space s"

definition trim_end :: "string \<Rightarrow> string" where
  "trim_end s = rev (trim_prefixes (map rev white_space) (rev s))"

definition trim :: "string \<Rightarrow> string" where
  "trim s = trim_end (trim_start s)"

subsection \<open>Parsing integers\<close>

text \<open>The text of the \<open>ParseIntError\<close> of an unsigned type.\<close>

fun digits_error :: "nat \<Rightarrow> 'a::len word \<Rightarrow> string \<Rightarrow> string" where
  "digits_error r acc [] = []"
| "digits_error r acc (c # cs) =
     (case to_digit r c of None \<Rightarrow> ''invalid digit found in string''
      | Some d \<Rightarrow> (case Option.bind (checked_mul acc (of_nat r)) (\<lambda>m. checked_add m (of_nat d)) of
          None \<Rightarrow> ''number too large to fit in target type''
        | Some a \<Rightarrow> digits_error r a cs))"

definition parse_uint :: "string \<Rightarrow> string + 'a::len word" where
  "parse_uint s =
     (case from_str_radix 10 s of
        Some w \<Rightarrow> Inr w
      | None \<Rightarrow> Inl (if s = [] then ''cannot parse integer from empty string''
                  else if s = ''+'' then ''invalid digit found in string''
                  else digits_error 10 (0 :: 'a word) (strip_plus s)))"

definition parse_context :: "string \<Rightarrow> string \<Rightarrow> 'a::len word res" where
  "parse_context c s =
     (case parse_uint s of Inr w \<Rightarrow> Inr w | Inl msg \<Rightarrow> Inl (Error [c, msg]))"

lemma parse_context_to_string [simp]: "8 \<le> LENGTH('a) \<Longrightarrow> parse_context c (to_string (w :: 'a::len word)) = Inr w"
  by (simp add: parse_context_def parse_uint_def from_str_radix_to_string)

subsection \<open>Facts\<close>

text \<open>Visible ASCII characters are not white space and do not belong to longer characters.\<close>

definition visible :: "char \<Rightarrow> bool" where
  "visible c \<longleftrightarrow> of_char c \<in> {33..126 :: nat}"

lemma white_space_ends:
  assumes "w \<in> set white_space"
  shows "\<not> visible (hd w)" "\<not> visible (last w)"
  using assms by (auto simp: white_space_def visible_def)

lemma trim_prefixes_id:
  assumes "\<forall>w \<in> set ws. w \<noteq> [] \<longrightarrow> \<not> visible (hd w)" "s = [] \<or> visible (hd s)"
  shows "trim_prefixes ws s = s"
proof -
  have "find (\<lambda>w. w \<noteq> [] \<and> prefix w s) ws = None"
    using assms by (auto simp: find_None_iff prefix_def)
  then show ?thesis by (subst trim_prefixes.simps) simp
qed

lemma trim_visible:
  assumes "s = [] \<or> visible (hd s) \<and> visible (last s)"
  shows "trim s = s"
proof -
  have "trim_start s = s"
    unfolding trim_start_def using assms white_space_ends(1) by (intro trim_prefixes_id) auto
  moreover have "trim_prefixes (map rev white_space) (rev s) = rev s"
    using assms white_space_ends(2) by (intro trim_prefixes_id) (auto simp: hd_rev)
  ultimately show ?thesis by (simp add: trim_def trim_end_def)
qed

lemma visible_ends: "\<forall>c \<in> set s. visible c \<Longrightarrow> s = [] \<or> visible (hd s) \<and> visible (last s)"
  by (cases "s = []") simp_all

lemma decimal_digits_visible: "c \<in> decimal_digits \<Longrightarrow> visible c"
  by (auto simp: decimal_digits_def visible_def)

lemma to_string_visible: "\<forall>c \<in> set (to_string w). visible c"
  using set_dec_string decimal_digits_visible by (auto simp: to_string_def)

lemma split_on_nonempty [simp]: "split_on d s \<noteq> []"
  by (induction s) (auto split: list.splits)

lemma split_on_none: "d \<notin> set s \<Longrightarrow> split_on d s = [s]"
  by (induction s) auto

lemma split_on_append: "d \<notin> set s \<Longrightarrow> split_on d (s @ d # t) = s # split_on d t"
  by (induction s) auto

lemma split_on_join:
  "ss \<noteq> [] \<Longrightarrow> \<forall>s \<in> set ss. d \<notin> set s \<Longrightarrow> split_on d (join_with [d] ss) = ss"
  by (induction "[d]" ss rule: join_with.induct) (auto simp: split_on_none split_on_append)

lemma set_join_with: "set (join_with d ss) \<subseteq> set d \<union> (\<Union>s \<in> set ss. set s)"
  by (induction d ss rule: join_with.induct) auto

lemma split_on_parts: "p \<in> set (split_on d s) \<Longrightarrow> d \<notin> set p"
  by (induction s arbitrary: p) (auto split: if_splits list.splits)

lemma trim_prefixes_suffix: "\<exists>u. s = u @ trim_prefixes ws s \<and> set u \<subseteq> (\<Union>w \<in> set ws. set w)"
proof (induction ws s rule: trim_prefixes.induct)
  case (1 ws s)
  show ?case
  proof (cases "find (\<lambda>w. w \<noteq> [] \<and> prefix w s) ws")
    case None
    then have "trim_prefixes ws s = s" by (subst trim_prefixes.simps) simp
    then show ?thesis by (intro exI [of _ "[]"]) simp
  next
    case (Some w)
    then obtain u where u: "drop (length w) s = u @ trim_prefixes ws (drop (length w) s)"
      "set u \<subseteq> (\<Union>w \<in> set ws. set w)"
      using 1 by blast
    have w: "w \<in> set ws" "prefix w s" using Some by (auto dest: find_SomeD)
    then have s: "s = w @ drop (length w) s" by (auto simp: prefix_def)
    have "trim_prefixes ws s = trim_prefixes ws (drop (length w) s)"
      using Some by (subst trim_prefixes.simps) simp
    then have "s = (w @ u) @ trim_prefixes ws s" using u(1) s by simp
    then show ?thesis using w(1) u(2) by (intro exI [of _ "w @ u"]) auto
  qed
qed

text \<open>What is trimmed off at the front is white space, in particular no visible character.\<close>

lemma trim_front:
  obtains u v where "s = u @ trim s @ v" "\<forall>c \<in> set u. \<not> visible c"
proof -
  have invisible: "\<forall>w \<in> set white_space. \<forall>c \<in> set w. \<not> visible c"
    by (simp add: white_space_def visible_def)
  obtain u where u: "s = u @ trim_start s" "set u \<subseteq> (\<Union>w \<in> set white_space. set w)"
    using trim_prefixes_suffix [of s white_space] by (auto simp: trim_start_def)
  obtain v where "rev (trim_start s) = v @ trim_prefixes (map rev white_space) (rev (trim_start s))"
    using trim_prefixes_suffix [of "rev (trim_start s)" "map rev white_space"] by blast
  then have "trim_start s = trim s @ rev v"
    unfolding trim_def trim_end_def by (metis rev_append rev_rev_ident)
  with u invisible show thesis by (intro that [of u "rev v"]) auto
qed

end
