(* ===== verification/Spec_Parsing.thy ===== *)
theory Spec_Parsing
  imports Text_Ops Deezel_Client
begin

text \<open>
  The language of transaction specifications (\<open>alkanes/parsing.rs\<close>, its data in \<open>alkanes/types.rs\<close>):
  input requirements \<open>B:amount\<close> and \<open>block:tx:amount\<close>, and protostones
  \<open>[cellpack]:pointer:refund:[edict]:..\<close>.  The cellpack type and its conversion from numbers belong to
  the crate alkanes-support and are parameters.
\<close>

subsection \<open>Data\<close>

datatype input_requirement = Alkanes_input u64 u64 u64 | Bitcoin_input u64

datatype output_target = Output_target u32 | Protostone_target u32 | Split_target

record protostone_edict =
  pe_alkane :: "u64 \<times> u64"
  pe_amount :: u64
  pe_target :: output_target

record bitcoin_transfer =
  tr_amount :: u64
  tr_target :: output_target

record 'c protostone_spec =
  sp_cellpack :: "'c option"
  sp_edicts :: "protostone_edict list"
  sp_transfer :: "bitcoin_transfer option"

subsection \<open>Input requirements\<close>

definition quote_mark :: string where
  "quote_mark = [CHR 0x27]"

definition parse_input_requirement :: "string \<Rightarrow> input_requirement res" where
  "parse_input_requirement part =
     (let trimmed = trim part
      in case strip_prefix ''B:'' trimmed of
           Some amount_str \<Rightarrow>
             and_then (parse_context ''Invalid Bitcoin amount in input requirement'' amount_str) (\<lambda>amount.
               Inr (Bitcoin_input amount))
         | None \<Rightarrow>
             (case split_on CHR '':'' trimmed of
                [b, t, a] \<Rightarrow>
                  and_then (parse_context ''Invalid block number in alkanes requirement'' b) (\<lambda>block.
                  and_then (parse_context ''Invalid tx number in alkanes requirement'' t) (\<lambda>tx.
                  and_then (parse_context ''Invalid amount in alkanes requirement'' a) (\<lambda>amount.
                    Inr (Alkanes_input block tx amount))))
              | _ \<Rightarrow> Inl (anyhow
                  (''Invalid alkanes input requirement format. Expected 'block:tx:amount'' @ quote_mark))))"

fun res_all :: "('a \<Rightarrow> 'b res) \<Rightarrow> 'a list \<Rightarrow> 'b list res" where
  "res_all f [] = Inr []"
| "res_all f (x # xs) = and_then (f x) (\<lambda>y. and_then (res_all f xs) (\<lambda>ys. Inr (y # ys)))"

definition parse_input_requirements :: "string \<Rightarrow> input_requirement list res" where
  "parse_input_requirements input_str = res_all parse_input_requirement (split_on CHR '','' input_str)"

subsection \<open>Targets, edicts, transfers and cellpacks\<close>

definition parse_output_target :: "string \<Rightarrow> output_target res" where
  "parse_output_target target_str =
     (let trimmed = trim target_str
      in if trimmed = ''split'' then Inr Split_target
         else case strip_prefix ''v'' trimmed of
           Some i \<Rightarrow> and_then (parse_context ''Invalid output index in target'' i) (\<lambda>n. Inr (Output_target n))
         | None \<Rightarrow> (case strip_prefix ''p'' trimmed of
             Some i \<Rightarrow> and_then (parse_context ''Invalid protostone index in target'' i) (\<lambda>n. Inr (Protostone_target n))
           | None \<Rightarrow> Inl (anyhow (''Invalid output target format. Expected 'vN', 'pN', or 'split'' @ quote_mark))))"

definition parse_bitcoin_transfer :: "string \<Rightarrow> bitcoin_transfer res" where
  "parse_bitcoin_transfer transfer_str =
     (case split_on CHR '':'' transfer_str of
        [_, a, t] \<Rightarrow>
          and_then (parse_context ''Invalid amount in Bitcoin transfer'' a) (\<lambda>amount.
          and_then (parse_output_target t) (\<lambda>target.
            Inr \<lparr>tr_amount = amount, tr_target = target\<rparr>))
      | _ \<Rightarrow> Inl (anyhow (''Invalid Bitcoin transfer format. Expected 'B:amount:target'' @ quote_mark)))"

text \<open>The four parts of an edict, with the word that the messages have before \<open>edict\<close>.\<close>

definition parse_edict_parts :: "string \<Rightarrow> string \<Rightarrow> string \<Rightarrow> string \<Rightarrow> string \<Rightarrow> protostone_edict res" where
  "parse_edict_parts kind b t a target_str =
     and_then (parse_context (''Invalid block number in '' @ kind) b) (\<lambda>block.
     and_then (parse_context (''Invalid tx number in '' @ kind) t) (\<lambda>tx.
     and_then (parse_context (''Invalid amount in '' @ kind) a) (\<lambda>amount.
     and_then (parse_output_target target_str) (\<lambda>target.
       Inr \<lparr>pe_alkane = (block, tx), pe_amount = amount, pe_target = target\<rparr>))))"

definition parse_edict :: "string \<Rightarrow> protostone_edict res" where
  "parse_edict edict_str =
     (let trimmed = trim edict_str
      in if starts_with CHR ''['' trimmed \<and> ends_with CHR '']'' trimmed
         then case split_on CHR '':'' (butlast (tl trimmed)) of
                [b, t, a, target_str] \<Rightarrow> parse_edict_parts ''bracketed edict'' b t a target_str
              | _ \<Rightarrow> Inl (anyhow (''Invalid bracketed edict format. Expected '[block:tx:amount:output]'' @ quote_mark))
         else case split_on CHR '':'' trimmed of
                b # t # a # target_str # _ \<Rightarrow> parse_edict_parts ''edict'' b t a target_str
              | _ \<Rightarrow> Inl (anyhow
                  (''Invalid edict format. Expected 'block:tx:amount:target' or '[block:tx:amount:output]'' @ quote_mark)))"

definition parse_cellpack :: "(u128 list \<Rightarrow> 'c res) \<Rightarrow> string \<Rightarrow> 'c res" where
  "parse_cellpack cellpack_of cellpack_str =
     and_then (res_all (\<lambda>part. let trimmed = trim part
         in parse_context (''Invalid u128 value in cellpack: '' @ trimmed) trimmed)
       (split_on CHR '','' cellpack_str)) (\<lambda>values.
     with_context ''Failed to create Cellpack from values (need at least 2 values for target)'' (cellpack_of values))"

subsection \<open>Protostones\<close>

definition kept_part :: "string \<Rightarrow> string list" where
  "kept_part current = (if trim current = [] then [] else [trim current])"

text \<open>The loop over the characters; the depth is an \<open>i32\<close>, which overflows only on strings of two gigabytes.\<close>

fun split_loop :: "char \<Rightarrow> string list \<Rightarrow> string \<Rightarrow> int \<Rightarrow> string \<Rightarrow> string list res" where
  "split_loop d parts current depth [] =
     (if depth \<noteq> 0 then Inl (anyhow ''Unmatched opening bracket'') else Inr (parts @ kept_part current))"
| "split_loop d parts current depth (c # cs) =
     (if c = CHR ''['' then split_loop d parts (current @ [c]) (depth + 1) cs
      else if c = CHR '']'' then
        (if depth - 1 < 0 then Inl (anyhow ''Unmatched closing bracket'')
         else split_loop d parts (current @ [c]) (depth - 1) cs)
      else if c = d \<and> depth = 0 then split_loop d (parts @ kept_part current) [] depth cs
      else split_loop d parts (current @ [c]) depth cs)"

definition split_respecting_brackets :: "char \<Rightarrow> string \<Rightarrow> string list res" where
  "split_respecting_brackets d input = split_loop d [] [] 0 input"

text \<open>An optional part of a specification: the next part, when there is one, is consumed.\<close>

definition take_part :: "(string \<Rightarrow> 'a res) \<Rightarrow> string list \<Rightarrow> ('a option \<times> string list) res" where
  "take_part parse_part parts =
     (case parts of [] \<Rightarrow> Inr (None, [])
      | part # rest \<Rightarrow> and_then (parse_part part) (\<lambda>x. Inr (Some x, rest)))"

definition bracketed :: "string \<Rightarrow> bool" where
  "bracketed part \<longleftrightarrow> starts_with CHR ''['' part \<and> ends_with CHR '']'' part"

text \<open>The loop over the edicts ends with the first transfer; other parts are skipped.\<close>

fun parse_edict_list :: "string list \<Rightarrow> (protostone_edict list \<times> bitcoin_transfer option) res" where
  "parse_edict_list [] = Inr ([], None)"
| "parse_edict_list (part # parts) =
     (if bracketed part then
        and_then (parse_edict (butlast (tl part))) (\<lambda>e.
        and_then (parse_edict_list parts) (\<lambda>(es, t). Inr (e # es, t)))
      else if prefix ''B:'' part then
        and_then (parse_bitcoin_transfer part) (\<lambda>t. Inr ([], Some t))
      else parse_edict_list parts)"

definition parse_single_protostone :: "(u128 list \<Rightarrow> 'c res) \<Rightarrow> string \<Rightarrow> 'c protostone_spec res" where
  "parse_single_protostone cellpack_of spec_str =
     and_then (split_respecting_brackets CHR '':'' spec_str) (\<lambda>parts.
     and_then (case parts of
                 part # rest \<Rightarrow>
                   if bracketed part
                   then and_then (parse_cellpack cellpack_of (butlast (tl part))) (\<lambda>c. Inr (Some c, rest))
                   else Inr (None, parts)
               | [] \<Rightarrow> Inr (None, [])) (\<lambda>(cellpack, parts).
     and_then (take_part parse_output_target parts) (\<lambda>(pointer, parts).
     and_then (take_part parse_output_target parts) (\<lambda>(refund_pointer, parts).
     and_then (parse_edict_list parts) (\<lambda>(edicts, transfer).
       Inr \<lparr>sp_cellpack = cellpack, sp_edicts = edicts, sp_transfer = transfer\<rparr>)))))"

definition parse_protostones :: "(u128 list \<Rightarrow> 'c res) \<Rightarrow> string \<Rightarrow> 'c protostone_spec list res" where
  "parse_protostones cellpack_of protostones_str =
     and_then (split_respecting_brackets CHR '','' protostones_str)
       (res_all (parse_single_protostone cellpack_of))"

subsection \<open>Specifications as text\<close>

definition show_requirement :: "input_requirement \<Rightarrow> string" where
  "show_requirement r =
     (case r of
        Bitcoin_input a \<Rightarrow> ''B:'' @ to_string a
      | Alkanes_input b t a \<Rightarrow> join_with '':'' [to_string b, to_string t, to_string a])"

definition show_target :: "output_target \<Rightarrow> string" where
  "show_target t =
     (case t of Output_target n \<Rightarrow> ''v'' @ to_string n | Protostone_target n \<Rightarrow> ''p'' @ to_string n
      | Split_target \<Rightarrow> ''split'')"

definition enclose :: "string \<Rightarrow> string" where
  "enclose s = ''['' @ s @ '']''"

lemma butlast_tl_enclose [simp]: "butlast (tl (enclose s)) = s"
  by (simp add: enclose_def)

definition show_edict :: "protostone_edict \<Rightarrow> string" where
  "show_edict e =
     enclose (join_with '':'' [to_string (fst (pe_alkane e)), to_string (snd (pe_alkane e)),
       to_string (pe_amount e), show_target (pe_target e)])"

text \<open>A protostone as it is written: the numbers of its cellpack, if it has one, its pointer and
  refund pointer, as far as they are given, and its edicts.\<close>

record written_protostone =
  wr_cellpack :: "u128 list option"
  wr_pointers :: "output_target list"
  wr_edicts :: "protostone_edict list"

definition protostone_parts :: "written_protostone \<Rightarrow> string list" where
  "protostone_parts p =
     (case wr_cellpack p of None \<Rightarrow> [] | Some ns \<Rightarrow> [enclose (join_with '','' (map to_string ns))]) @
     map show_target (wr_pointers p) @ map show_edict (wr_edicts p)"

definition show_protostone :: "written_protostone \<Rightarrow> string" where
  "show_protostone p = join_with '':'' (protostone_parts p)"

text \<open>A text that starts with a cellpack or a pointer, has at most the two pointers, and whose
  cellpack the library takes for \<open>c\<close>.\<close>

definition well_written :: "(u128 list \<Rightarrow> 'c res) \<Rightarrow> written_protostone \<Rightarrow> 'c option \<Rightarrow> bool" where
  "well_written cellpack_of p c \<longleftrightarrow>
     (wr_cellpack p \<noteq> None \<or> wr_pointers p \<noteq> []) \<and> length (wr_pointers p) \<le> 2 \<and>
     (case wr_cellpack p of
        None \<Rightarrow> c = None
      | Some ns \<Rightarrow> ns \<noteq> [] \<and> (\<exists>cp. cellpack_of ns = Inr cp \<and> c = Some cp))"

subsection \<open>Reading what is written\<close>

text \<open>The characters of a token: visible, and none of the separators.\<close>

definition token_char :: "char \<Rightarrow> bool" where
  "token_char c \<longleftrightarrow> visible c \<and> c \<notin> set '',:[]''"

lemma token_chars:
  "\<forall>c \<in> set (to_string w). token_char c" "\<forall>c \<in> set (show_target t). token_char c"
proof -
  have digits: "\<forall>c \<in> set (to_string v). token_char c" for v :: "'b::len word"
    using set_dec_string [of "unat v"]
    by (auto simp: to_string_def token_char_def decimal_digits_def visible_def)
  then show "\<forall>c \<in> set (to_string w). token_char c" .
  show "\<forall>c \<in> set (show_target t). token_char c"
    using digits by (cases t) (auto simp: show_target_def token_char_def visible_def)
qed

lemma to_string_nonempty [simp]: "to_string w \<noteq> []"
  by (simp add: to_string_def)

lemma trim_token: "\<forall>c \<in> set s. token_char c \<Longrightarrow> trim s = s"
  by (intro trim_visible visible_ends) (simp add: token_char_def)

lemma token_no_separator:
  "\<forall>c \<in> set s. token_char c \<Longrightarrow> CHR '':'' \<notin> set s" "\<forall>c \<in> set s. token_char c \<Longrightarrow> CHR '','' \<notin> set s"
  "\<forall>c \<in> set s. token_char c \<Longrightarrow> CHR ''['' \<notin> set s" "\<forall>c \<in> set s. token_char c \<Longrightarrow> CHR '']'' \<notin> set s"
  by (auto simp: token_char_def)

lemma hd_to_string: "hd (to_string w) \<in> decimal_digits"
  using set_dec_string [of "unat w"] by (auto simp: to_string_def intro: subsetD [OF _ hd_in_set])

lemma to_string_not_letter: "c \<notin> decimal_digits \<Longrightarrow> strip_prefix (c # cs) (to_string w @ s) = None"
  using hd_to_string [of w] by (cases "to_string w") (auto simp: strip_prefix_def)

lemma parse_show_target [simp]: "parse_output_target (show_target t) = Inr t"
proof -
  have "trim (show_target t) = show_target t" by (rule trim_token) (rule token_chars)
  then show ?thesis
    by (cases t) (simp_all add: parse_output_target_def show_target_def strip_prefix_def Let_def)
qed

lemma parse_show_requirement: "parse_input_requirement (show_requirement r) = Inr r"
proof (cases r)
  case (Bitcoin_input a)
  have "trim (show_requirement r) = show_requirement r"
    using token_chars(1) [of a] Bitcoin_input
    by (intro trim_visible visible_ends) (auto simp: show_requirement_def token_char_def visible_def)
  then show ?thesis
    by (simp add: Bitcoin_input parse_input_requirement_def show_requirement_def strip_prefix_def)
next
  case (Alkanes_input b t a)
  have "trim (show_requirement r) = show_requirement r"
    using token_chars(1) [of a] token_chars(1) [of b] token_chars(1) [of t] Alkanes_input
    by (intro trim_visible visible_ends) (auto simp: show_requirement_def token_char_def visible_def)
  moreover have "CHR ''B'' \<notin> decimal_digits" by (simp add: decimal_digits_def)
  then have "strip_prefix ''B:'' (show_requirement r) = None"
    by (simp add: Alkanes_input show_requirement_def to_string_not_letter)
  moreover have "split_on CHR '':'' (show_requirement r) = [to_string b, to_string t, to_string a]"
    unfolding Alkanes_input show_requirement_def input_requirement.case
    by (rule split_on_join) (simp_all add: token_no_separator token_chars)
  ultimately show ?thesis by (simp add: parse_input_requirement_def Alkanes_input)
qed

lemma res_all_map: "(\<And>x. x \<in> set xs \<Longrightarrow> f (g x) = Inr (h x)) \<Longrightarrow> res_all f (map g xs) = Inr (map h xs)"
  by (induction xs) auto

lemma parse_cellpack_numbers:
  assumes "vs \<noteq> []"
  shows "parse_cellpack cellpack_of (join_with '','' (map to_string vs)) =
    with_context ''Failed to create Cellpack from values (need at least 2 values for target)'' (cellpack_of vs)"
proof -
  have split: "split_on CHR '','' (join_with '','' (map to_string vs)) = map to_string vs"
    using assms by (intro split_on_join) (auto simp: token_no_separator token_chars)
  have "res_all (\<lambda>part. let trimmed = trim part
         in parse_context (''Invalid u128 value in cellpack: '' @ trimmed) trimmed) (map to_string vs) = Inr vs"
    using res_all_map [of vs _ to_string id] by (simp add: trim_token token_chars Let_def)
  then show ?thesis by (simp add: parse_cellpack_def split)
qed

lemma parse_show_edict: "parse_edict (butlast (tl (show_edict e))) = Inr e"
proof -
  let ?ss = "[to_string (fst (pe_alkane e)), to_string (snd (pe_alkane e)), to_string (pe_amount e), show_target (pe_target e)]"
  define s where "s = join_with '':'' ?ss"
  have inner: "butlast (tl (show_edict e)) = s" unfolding show_edict_def s_def by (rule butlast_tl_enclose)
  have "\<forall>t \<in> set ?ss. \<forall>c \<in> set t. token_char c" by (simp add: token_chars)
  then have "c = CHR '':'' \<or> token_char c" if "c \<in> set s" for c
    using that set_join_with [of "'':''" ?ss] unfolding s_def by auto
  moreover have "visible CHR '':''" by (simp add: visible_def)
  ultimately have chars: "visible c" "c \<noteq> CHR ''[''" if "c \<in> set s" for c
    using that by (auto simp: token_char_def)
  then have "trim s = s" by (intro trim_visible visible_ends) blast
  moreover have "\<not> starts_with CHR ''['' s" using chars(2) hd_in_set [of s] by (auto simp: starts_with_def)
  moreover have "split_on CHR '':'' s = ?ss"
    unfolding s_def by (rule split_on_join) (simp_all add: token_no_separator token_chars)
  ultimately show ?thesis by (simp add: inner parse_edict_def parse_edict_parts_def)
qed

subsection \<open>Splitting at the top level\<close>

text \<open>A segment: text that the loop at depth 0 takes as a whole.\<close>

definition segment :: "char \<Rightarrow> string \<Rightarrow> bool" where
  "segment d s \<longleftrightarrow> (\<forall>parts current rest.
     split_loop d parts current 0 (s @ rest) = split_loop d parts (current @ s) 0 rest)"

lemma segment_Nil: "segment d []"
  by (simp add: segment_def)

lemma segment_append: "segment d s \<Longrightarrow> segment d t \<Longrightarrow> segment d (s @ t)"
  by (simp add: segment_def)

lemma segment_char: "c \<notin> {CHR ''['', CHR '']'', d} \<Longrightarrow> segment d [c]"
  by (simp add: segment_def)

lemma segment_plain: "\<forall>c \<in> set s. c \<notin> {CHR ''['', CHR '']'', d} \<Longrightarrow> segment d s"
proof (induction s)
  case (Cons c s)
  then have "segment d [c]" "segment d s" by (auto intro: segment_char)
  then have "segment d ([c] @ s)" by (rule segment_append)
  then show ?case by simp
qed (rule segment_Nil)

lemma split_loop_inside:
  "CHR ''['' \<notin> set s \<Longrightarrow> CHR '']'' \<notin> set s \<Longrightarrow> 0 < depth \<Longrightarrow>
   split_loop d parts current depth (s @ rest) = split_loop d parts (current @ s) depth rest"
  by (induction s arbitrary: current) auto

lemma segment_enclose:
  assumes "CHR ''['' \<notin> set s" "CHR '']'' \<notin> set s"
  shows "segment d (enclose s)"
  by (simp add: segment_def enclose_def split_loop_inside [OF assms])

lemma segment_join:
  assumes "\<forall>s \<in> set ss. segment d s" "segment d e"
  shows "segment d (join_with e ss)"
  using assms by (induction e ss rule: join_with.induct) (auto intro: segment_Nil segment_append)

lemma split_loop_join:
  assumes "\<forall>s \<in> set ss. segment d s" "d \<notin> set ''[]''"
  shows "split_loop d parts [] 0 (join_with [d] ss) = Inr (parts @ concat (map kept_part ss))"
  using assms(1)
proof (induction "[d]" ss arbitrary: parts rule: join_with.induct)
  case 1
  then show ?case by (simp add: kept_part_def trim_visible)
next
  case (2 s)
  then have "split_loop d parts [] 0 (s @ []) = split_loop d parts ([] @ s) 0 []"
    unfolding segment_def by (metis list.set_intros(1))
  then show ?case by simp
next
  case (3 s t ss)
  then have "split_loop d parts [] 0 (s @ d # join_with [d] (t # ss)) =
      split_loop d parts ([] @ s) 0 (d # join_with [d] (t # ss))"
    unfolding segment_def by (metis list.set_intros(1))
  also have "\<dots> = split_loop d (parts @ kept_part s) [] 0 (join_with [d] (t # ss))"
    using assms(2) by simp
  finally show ?case using 3 by simp
qed

lemma kept_part_visible:
  "s \<noteq> [] \<Longrightarrow> visible (hd s) \<Longrightarrow> visible (last s) \<Longrightarrow> kept_part s = [s]"
  by (simp add: kept_part_def trim_visible)

lemma split_join:
  assumes "\<forall>s \<in> set ss. segment d s \<and> s \<noteq> [] \<and> visible (hd s) \<and> visible (last s)" "d \<notin> set ''[]''"
  shows "split_respecting_brackets d (join_with [d] ss) = Inr ss"
proof -
  have "map kept_part ss = map (\<lambda>s. [s]) ss"
    using assms(1) by (intro map_cong refl kept_part_visible) auto
  then have "concat (map kept_part ss) = ss" by (simp only: concat_map_singleton map_ident)
  then show ?thesis using split_loop_join [of ss d "[]"] assms by (simp add: split_respecting_brackets_def)
qed

text \<open>The texts of targets, edicts, cellpacks and protostones as segments.\<close>

lemma segment_target: "d \<in> set '':,'' \<Longrightarrow> segment d (show_target t)"
  using token_chars(2) [of t] by (intro segment_plain) (auto simp: token_char_def)

lemma segment_edict: "segment d (show_edict e)"
  unfolding show_edict_def
proof (rule segment_enclose)
  let ?ss = "[to_string (fst (pe_alkane e)), to_string (snd (pe_alkane e)), to_string (pe_amount e), show_target (pe_target e)]"
  have "\<forall>t \<in> set ?ss. \<forall>c \<in> set t. token_char c" by (simp add: token_chars)
  then have *: "c = CHR '':'' \<or> token_char c" if "c \<in> set (join_with '':'' ?ss)" for c
    using that set_join_with [of "'':''" ?ss] by auto
  show "CHR ''['' \<notin> set (join_with '':'' ?ss)" using * [of "CHR ''[''"] by (auto simp: token_char_def)
  show "CHR '']'' \<notin> set (join_with '':'' ?ss)" using * [of "CHR '']''"] by (auto simp: token_char_def)
qed

lemma segment_cellpack: "segment d (enclose (join_with '','' (map to_string vs)))"
proof (rule segment_enclose)
  have *: "c = CHR '','' \<or> token_char c" if "c \<in> set (join_with '','' (map to_string vs))" for c
    using that set_join_with [of "'',''" "map to_string vs"] token_chars(1) by auto
  show "CHR ''['' \<notin> set (join_with '','' (map to_string vs))" using * [of "CHR ''[''"] by (auto simp: token_char_def)
  show "CHR '']'' \<notin> set (join_with '','' (map to_string vs))" using * [of "CHR '']''"] by (auto simp: token_char_def)
qed

lemma enclose_ends: "enclose s \<noteq> []" "visible (hd (enclose s))" "visible (last (enclose s))"
  by (simp_all add: enclose_def visible_def)

lemma show_target_ends: "show_target t \<noteq> []" "visible (hd (show_target t))" "visible (last (show_target t))"
proof -
  show "show_target t \<noteq> []" by (cases t) (simp_all add: show_target_def)
  then show "visible (hd (show_target t))" "visible (last (show_target t))"
    using token_chars(2) [of t] by (auto simp: token_char_def)
qed

lemma parts_segments:
  "d \<in> set '':,'' \<Longrightarrow> s \<in> set (protostone_parts p) \<Longrightarrow>
   segment d s \<and> s \<noteq> [] \<and> visible (hd s) \<and> visible (last s)"
  by (auto simp: protostone_parts_def segment_target segment_cellpack segment_edict enclose_ends show_target_ends
      split: option.splits)
    (simp_all add: show_edict_def enclose_ends)

lemma join_with_ends:
  assumes "ss \<noteq> []" "\<forall>s \<in> set ss. s \<noteq> []"
  shows "join_with d ss \<noteq> [] \<and> hd (join_with d ss) = hd (hd ss) \<and> last (join_with d ss) = last (last ss)"
  using assms by (induction d ss rule: join_with.induct) auto

lemma bracketed_enclose [simp]: "bracketed (enclose s)"
  by (simp add: bracketed_def starts_with_def ends_with_def enclose_def)

lemma parse_edict_list_show: "parse_edict_list (map show_edict es) = Inr (es, None)"
proof (induction es)
  case (Cons e es)
  have "bracketed (show_edict e)" unfolding show_edict_def by (rule bracketed_enclose)
  then show ?case using Cons by (simp add: parse_show_edict)
qed simp

lemma not_bracketed_target [simp]: "\<not> bracketed (show_target t)"
  by (cases t) (simp_all add: bracketed_def starts_with_def show_target_def)

text \<open>An edict is not a target.\<close>

lemma parse_target_of_edict: "\<exists>msg. parse_output_target (show_edict e) = Inl (anyhow msg)"
proof -
  have "trim (show_edict e) = show_edict e"
    by (rule trim_visible) (simp_all add: show_edict_def enclose_ends)
  moreover obtain rest where "show_edict e = CHR ''['' # rest" by (simp add: show_edict_def enclose_def)
  ultimately have "trim (CHR ''['' # rest) = CHR ''['' # rest" "show_edict e = CHR ''['' # rest" by simp_all
  then show ?thesis
    by (simp add: parse_output_target_def strip_prefix_def Let_def) (rule exI, rule refl)
qed

definition spec_of :: "'c option \<Rightarrow> written_protostone \<Rightarrow> 'c protostone_spec" where
  "spec_of c p = \<lparr>sp_cellpack = c, sp_edicts = wr_edicts p, sp_transfer = None\<rparr>"

lemma at_most_two:
  "length ts \<le> 2 \<Longrightarrow> ts = [] \<or> (\<exists>t. ts = [t]) \<or> (\<exists>t t'. ts = [t, t'])"
  by (cases ts rule: list.exhaust [case_product list.exhaust]) (auto simp: Suc_le_eq length_Suc_conv le_Suc_eq numeral_2_eq_2)

lemma parse_pointers_and_edicts:
  assumes "length ts \<le> 2"
  shows "let r = and_then (take_part parse_output_target (map show_target ts @ map show_edict es)) (\<lambda>(pointer, parts).
       and_then (take_part parse_output_target parts) (\<lambda>(refund, parts).
       and_then (parse_edict_list parts) (\<lambda>(edicts, transfer).
         Inr \<lparr>sp_cellpack = c, sp_edicts = edicts, sp_transfer = transfer\<rparr>)))
     in if es = [] \<or> length ts = 2 then r = Inr \<lparr>sp_cellpack = c, sp_edicts = es, sp_transfer = None\<rparr>
        else \<exists>msg. r = Inl (anyhow msg)"
proof (cases es)
  case Nil
  from at_most_two [OF assms] show ?thesis by (auto simp: Nil take_part_def)
next
  case (Cons e es')
  obtain msg where msg: "parse_output_target (show_edict e) = Inl (anyhow msg)" using parse_target_of_edict by blast
  from at_most_two [OF assms] parse_edict_list_show [of es] show ?thesis
    by (auto simp: Cons take_part_def msg simp del: parse_edict_list.simps)
qed

lemma parse_show_protostone:
  assumes "well_written cellpack_of p c"
  shows "if wr_edicts p = [] \<or> length (wr_pointers p) = 2
    then parse_single_protostone cellpack_of (show_protostone p) = Inr (spec_of c p)
    else \<exists>msg. parse_single_protostone cellpack_of (show_protostone p) = Inl (anyhow msg)"
proof -
  let ?rest = "map show_target (wr_pointers p) @ map show_edict (wr_edicts p)"
  have parts: "split_respecting_brackets CHR '':'' (show_protostone p) = Inr (protostone_parts p)"
    unfolding show_protostone_def by (rule split_join) (use parts_segments [of "CHR '':''"] in auto)
  have "(case protostone_parts p of
        part # rest \<Rightarrow>
          if bracketed part
          then and_then (parse_cellpack cellpack_of (butlast (tl part))) (\<lambda>c. Inr (Some c, rest))
          else Inr (None, protostone_parts p)
      | [] \<Rightarrow> Inr (None, [])) = Inr (c, ?rest)"
  proof (cases "wr_cellpack p")
    case None
    with assms show ?thesis
      by (cases "wr_pointers p") (auto simp: well_written_def protostone_parts_def)
  next
    case (Some ns)
    with assms show ?thesis by (auto simp: well_written_def protostone_parts_def parse_cellpack_numbers)
  qed
  then have run: "parse_single_protostone cellpack_of (show_protostone p) =
      and_then (take_part parse_output_target ?rest) (\<lambda>(pointer, parts).
        and_then (take_part parse_output_target parts) (\<lambda>(refund, parts).
        and_then (parse_edict_list parts) (\<lambda>(edicts, transfer).
          Inr \<lparr>sp_cellpack = c, sp_edicts = edicts, sp_transfer = transfer\<rparr>)))"
    by (simp only: parse_single_protostone_def parts and_then.simps prod.case)
  from assms have "length (wr_pointers p) \<le> 2" by (simp add: well_written_def)
  from parse_pointers_and_edicts [OF this, of "wr_edicts p" c] show ?thesis
    unfolding run spec_of_def Let_def .
qed

lemma show_protostone_segment:
  assumes "protostone_parts p \<noteq> []"
  shows "segment CHR '','' (show_protostone p) \<and> show_protostone p \<noteq> [] \<and>
    visible (hd (show_protostone p)) \<and> visible (last (show_protostone p))"
proof -
  have parts: "s \<noteq> [] \<and> visible (hd s) \<and> visible (last s) \<and> segment CHR '','' s" if "s \<in> set (protostone_parts p)" for s
    using parts_segments [of "CHR '',''"] that by simp
  have "segment CHR '','' '':''" by (intro segment_plain) simp
  then have "segment CHR '','' (show_protostone p)"
    unfolding show_protostone_def using parts by (intro segment_join) auto
  moreover have "show_protostone p \<noteq> [] \<and> hd (show_protostone p) = hd (hd (protostone_parts p)) \<and>
      last (show_protostone p) = last (last (protostone_parts p))"
    unfolding show_protostone_def using parts by (intro join_with_ends assms) auto
  ultimately show ?thesis using parts assms by simp
qed

lemma well_written_parts: "well_written cellpack_of p c \<Longrightarrow> protostone_parts p \<noteq> []"
  by (auto simp: well_written_def protostone_parts_def split: option.splits)

lemma res_all_or_error:
  assumes "\<forall>x \<in> set xs. if P x then f (g x) = Inr (h x) else \<exists>msg. f (g x) = Inl (anyhow msg)"
  shows "if \<forall>x \<in> set xs. P x then res_all f (map g xs) = Inr (map h xs)
    else \<exists>msg. res_all f (map g xs) = Inl (anyhow msg)"
  using assms
proof (induction xs)
  case (Cons x xs)
  then have IH: "if \<forall>x \<in> set xs. P x then res_all f (map g xs) = Inr (map h xs)
      else \<exists>msg. res_all f (map g xs) = Inl (anyhow msg)" by simp
  show ?case
  proof (cases "P x")
    case True
    with Cons.prems have "f (g x) = Inr (h x)" by simp
    with True IH show ?thesis by (auto split: if_splits)
  qed (use Cons.prems in auto)
qed simp

text \<open>
  The requirements of inputs.  Any list of them, written with the formats of the documentation,
  is read back.
\<close>

theorem input_requirements_round_trip:
  assumes "rs \<noteq> []"
  shows "parse_input_requirements (join_with '','' (map show_requirement rs)) = Inr rs"
proof -
  have "CHR '','' \<notin> set (show_requirement r)" for r
    using token_chars(1) by (cases r) (auto simp: show_requirement_def token_char_def)
  then have "split_on CHR '','' (join_with '','' (map show_requirement rs)) = map show_requirement rs"
    using assms by (intro split_on_join) auto
  then show ?thesis
    using res_all_map [of rs parse_input_requirement show_requirement id] parse_show_requirement
    by (simp add: parse_input_requirements_def)
qed

lemma input_requirements_round_trip_witness:
  "parse_input_requirements (join_with '','' (map show_requirement [Bitcoin_input 1000, Alkanes_input 2 0 50])) =
     Inr [Bitcoin_input 1000, Alkanes_input 2 0 50]"
  by (rule input_requirements_round_trip) simp

text \<open>
  C22: the specifications of protostones, written as \<open>[cellpack]:pointer:refund:[edict]:..\<close>, with
  or without a cellpack, with no pointer, one or both.  They are read back with their cellpacks and
  edicts, and the pointers are parsed and dropped, when every protostone that has edicts has both
  pointers before them; when one has edicts after fewer pointers, the whole text is refused.
\<close>

theorem protostones_round_trip:
  assumes "\<forall>p \<in> set ps. well_written cellpack_of p (c p)"
  shows "if \<forall>p \<in> set ps. wr_edicts p = [] \<or> length (wr_pointers p) = 2
    then parse_protostones cellpack_of (join_with '','' (map show_protostone ps)) = Inr (map (\<lambda>p. spec_of (c p) p) ps)
    else \<exists>msg. parse_protostones cellpack_of (join_with '','' (map show_protostone ps)) = Inl (anyhow msg)"
proof -
  have "split_respecting_brackets CHR '','' (join_with '','' (map show_protostone ps)) = Inr (map show_protostone ps)"
    by (rule split_join) (use show_protostone_segment [OF well_written_parts] assms in auto)
  moreover have "\<forall>p \<in> set ps. if wr_edicts p = [] \<or> length (wr_pointers p) = 2
      then parse_single_protostone cellpack_of (show_protostone p) = Inr (spec_of (c p) p)
      else \<exists>msg. parse_single_protostone cellpack_of (show_protostone p) = Inl (anyhow msg)"
    using parse_show_protostone assms by blast
  then have
    "if \<forall>p \<in> set ps. wr_edicts p = [] \<or> length (wr_pointers p) = 2
     then res_all (parse_single_protostone cellpack_of) (map show_protostone ps) = Inr (map (\<lambda>p. spec_of (c p) p) ps)
     else \<exists>msg. res_all (parse_single_protostone cellpack_of) (map show_protostone ps) = Inl (anyhow msg)"
    by (rule res_all_or_error [where f = "parse_single_protostone cellpack_of" and g = show_protostone
        and h = "\<lambda>p. spec_of (c p) p"])
  ultimately show ?thesis unfolding parse_protostones_def and_then.simps by (simp only: and_then.simps)
qed

definition pair_cellpack :: "u128 list \<Rightarrow> (u128 \<times> u128 \<times> u128 list) res" where
  "pair_cellpack vs = (case vs of b # t # inputs \<Rightarrow> Inr (b, t, inputs) | _ \<Rightarrow> Inl (anyhow ''too short''))"

lemma protostones_round_trip_witness:
  "parse_protostones pair_cellpack (join_with '','' (map show_protostone
     [\<lparr>wr_cellpack = Some [2, 1, 77], wr_pointers = [], wr_edicts = []\<rparr>,
      \<lparr>wr_cellpack = Some [2, 1, 77], wr_pointers = [Output_target 0, Split_target],
       wr_edicts = [\<lparr>pe_alkane = (2, 0), pe_amount = 5, pe_target = Protostone_target 1\<rparr>]\<rparr>])) =
   Inr [\<lparr>sp_cellpack = Some (2, 1, [77]), sp_edicts = [], sp_transfer = None\<rparr>,
     \<lparr>sp_cellpack = Some (2, 1, [77]), sp_edicts = [\<lparr>pe_alkane = (2, 0), pe_amount = 5, pe_target = Protostone_target 1\<rparr>], sp_transfer = None\<rparr>]"
  using protostones_round_trip [of "[\<lparr>wr_cellpack = Some [2, 1, 77], wr_pointers = [], wr_edicts = []\<rparr>,
      \<lparr>wr_cellpack = Some [2, 1, 77], wr_pointers = [Output_target 0, Split_target],
       wr_edicts = [\<lparr>pe_alkane = (2, 0), pe_amount = 5, pe_target = Protostone_target 1\<rparr>]\<rparr>]"
      pair_cellpack "\<lambda>p. Some (2, 1, [77])"]
  by (simp add: pair_cellpack_def spec_of_def well_written_def)

subsection \<open>Transfers\<close>

text \<open>A part of a split has no separator outside brackets: before each one there is a bracket.\<close>

definition guarded :: "char \<Rightarrow> string \<Rightarrow> bool" where
  "guarded d s \<longleftrightarrow> (\<forall>x y. s = x @ d # y \<longrightarrow> (\<exists>c \<in> set x. c \<in> set ''[]''))"

lemma guarded_Nil: "guarded d []"
  by (simp add: guarded_def)

lemma guarded_snoc:
  assumes "guarded d s" "c = d \<longrightarrow> (\<exists>c \<in> set s. c \<in> set ''[]'')"
  shows "guarded d (s @ [c])"
  unfolding guarded_def
proof (intro allI impI)
  fix x y
  assume eq: "s @ [c] = x @ d # y"
  show "\<exists>c \<in> set x. c \<in> set ''[]''"
  proof (cases y rule: rev_cases)
    case Nil
    then have "s = x" "c = d" using eq by auto
    then show ?thesis using assms(2) by blast
  next
    case (snoc y' e)
    then have "s = x @ d # y'" using eq by auto
    then show ?thesis using assms(1) by (auto simp: guarded_def)
  qed
qed

lemma split_loop_guarded:
  assumes "split_loop d parts current depth s = Inr out" "d \<notin> set ''[]''"
    and "\<forall>p \<in> set parts. \<exists>t. guarded d t \<and> p = trim t"
    and "guarded d current" "depth \<noteq> 0 \<longrightarrow> (\<exists>c \<in> set current. c \<in> set ''[]'')"
  shows "\<forall>p \<in> set out. \<exists>t. guarded d t \<and> p = trim t"
  using assms
proof (induction d parts current depth s rule: split_loop.induct)
  case (1 d parts current depth)
  then show ?case by (auto simp: kept_part_def split: if_splits)
next
  case (2 d parts current depth c cs)
  have snoc: "guarded d (current @ [c])" if "c = d \<longrightarrow> depth \<noteq> 0"
    using that 2(8,9) by (intro guarded_snoc) auto
  consider "c = CHR ''[''" | "c = CHR '']''" | "c = d" "depth = 0" | "c \<notin> set ''[]''" "c = d \<longrightarrow> depth \<noteq> 0"
    by auto
  then show ?case
  proof cases
    case 1
    then show ?thesis using 2(1,5-9) snoc by auto
  next
    case 2
    then show ?thesis using "2.IH"(2) "2.prems" snoc by (auto split: if_splits)
  next
    case 3
    then have other: "c \<noteq> CHR ''[''" "c \<noteq> CHR '']''" "c = d \<and> depth = 0" using "2.prems"(2) by auto
    have step: "split_loop d (parts @ kept_part current) [] depth cs = Inr out" using "2.prems"(1) other by simp
    have kept: "\<exists>t. guarded d t \<and> p = trim t" if "p \<in> set (parts @ kept_part current)" for p
    proof (cases "p \<in> set parts")
      case False
      then have "p = trim current" using that by (simp add: kept_part_def split: if_splits)
      then show ?thesis using "2.prems"(4) by blast
    qed (use "2.prems"(3) in blast)
    show ?thesis
      by (rule "2.IH"(3) [OF other step "2.prems"(2) _ guarded_Nil]) (use kept 3(2) in simp_all)
  next
    case 4
    then have other: "c \<noteq> CHR ''[''" "c \<noteq> CHR '']''" "\<not> (c = d \<and> depth = 0)" by auto
    have step: "split_loop d parts (current @ [c]) depth cs = Inr out" using "2.prems"(1) other by simp
    have guard: "depth \<noteq> 0 \<longrightarrow> (\<exists>c \<in> set (current @ [c]). c \<in> set ''[]'')" using "2.prems"(5) by auto
    show ?thesis
      by (rule "2.IH"(4) [OF other step "2.prems"(2,3) snoc guard]) (use 4(2) in blast)
  qed
qed

lemma split_parts_no_transfer:
  assumes "split_respecting_brackets CHR '':'' s = Inr parts" "p \<in> set parts"
  shows "\<not> prefix ''B:'' p"
proof
  assume "prefix ''B:'' p"
  then obtain rest where p: "p = CHR ''B'' # CHR '':'' # rest" by (auto simp: prefix_def)
  obtain t where t: "guarded CHR '':'' t" "p = trim t"
    using split_loop_guarded [OF assms(1) [unfolded split_respecting_brackets_def]] assms(2)
    by (auto simp: guarded_Nil)
  obtain u v where uv: "t = u @ p @ v" "\<forall>c \<in> set u. \<not> visible c"
    using trim_front [of t] unfolding t(2) by metis
  then have "t = (u @ ''B'') @ CHR '':'' # (rest @ v)" unfolding p by simp
  then have "\<exists>c \<in> set (u @ ''B''). c \<in> set ''[]''" using t(1) unfolding guarded_def by blast
  then show False using uv(2) by (auto simp: visible_def)
qed

lemma parse_edict_list_transfer:
  "parse_edict_list parts = Inr (es, t) \<Longrightarrow> \<forall>p \<in> set parts. \<not> prefix ''B:'' p \<Longrightarrow> t = None"
  by (induction parts arbitrary: es) (auto split: if_splits)

lemma take_part_rest: "take_part f parts = Inr (x, rest) \<Longrightarrow> set rest \<subseteq> set parts"
  by (auto simp: take_part_def split: list.splits)

lemma single_protostone_transfer:
  assumes "parse_single_protostone cellpack_of s = Inr spec"
  shows "sp_transfer spec = None"
proof -
  obtain parts c parts1 x parts2 y parts3 es t where run:
    "split_respecting_brackets CHR '':'' s = Inr parts"
    "(case parts of
        part # rest \<Rightarrow>
          if bracketed part
          then and_then (parse_cellpack cellpack_of (butlast (tl part))) (\<lambda>c. Inr (Some c, rest))
          else Inr (None, parts)
      | [] \<Rightarrow> Inr (None, [])) = Inr (c, parts1)"
    "take_part parse_output_target parts1 = Inr (x, parts2)"
    "take_part parse_output_target parts2 = Inr (y, parts3)"
    "parse_edict_list parts3 = Inr (es, t)" "spec = \<lparr>sp_cellpack = c, sp_edicts = es, sp_transfer = t\<rparr>"
    using assms by (auto simp: parse_single_protostone_def)
  have "set parts1 \<subseteq> set parts" using run(2) by (auto split: list.splits if_splits)
  then have "set parts3 \<subseteq> set parts" using take_part_rest run(3,4) by blast
  then have "t = None"
    using run(5) by (rule_tac parse_edict_list_transfer) (use split_parts_no_transfer [OF run(1)] in auto)
  then show ?thesis using run(6) by simp
qed

lemma res_all_Inr: "res_all f xs = Inr ys \<Longrightarrow> y \<in> set ys \<Longrightarrow> \<exists>x \<in> set xs. f x = Inr y"
  by (induction xs arbitrary: ys) auto

text \<open>
  A transfer \<open>B:amount:target\<close> is never read.  The parts of a protostone are split at every colon
  outside brackets, so that none starts with \<open>B:\<close>: no specification that is read has a transfer,
  whatever the text.
\<close>

lemma transfers_are_never_read:
  assumes "parse_protostones cellpack_of s = Inr specs"
  shows "\<forall>spec \<in> set specs. sp_transfer spec = None"
  using assms res_all_Inr single_protostone_transfer by (fastforce simp: parse_protostones_def)

end
