(* ===== verification/Esplora_Client.thy ===== *)
theory Esplora_Client
  imports Text_Ops Deezel_Client
begin

text \<open>
  The chain data of the provider: the implementation of \<open>EsploraProvider\<close> in \<open>provider.rs\<close>, with the
  method names and parameters of \<open>esplora.rs\<close>, and the remaining JSON-RPC calls to bitcoind and
  Metashrew that are one request each.  With an esplora URL an operation is a GET of the REST path
  (the crate is built with \<open>native-deps\<close>), without one a JSON-RPC call; the two agree when the servers
  hold the same data.
\<close>

subsection \<open>The two ways to ask\<close>

definition esplora_text ::
  "backend \<Rightarrow> concrete_provider \<Rightarrow> nat \<Rightarrow> string \<Rightarrow> string \<Rightarrow> json \<Rightarrow> string \<Rightarrow> string dres" where
  "esplora_text b p n path rpc_method params msg =
     (case esplora_url p of
        Some url \<Rightarrow> (case http_get b n (url @ path) of Inl e \<Rightarrow> Inl (Network e) | Inr body \<Rightarrow> Inr body)
      | None \<Rightarrow> dbind (rpc_call b n (rpc_url p) rpc_method params) (str_or msg))"

definition esplora_json ::
  "backend \<Rightarrow> concrete_provider \<Rightarrow> nat \<Rightarrow> string \<Rightarrow> string \<Rightarrow> json \<Rightarrow> json dres" where
  "esplora_json b p n path rpc_method params =
     (case esplora_url p of
        Some url \<Rightarrow>
          (case http_get b n (url @ path) of
             Inl e \<Rightarrow> Inl (Network e)
           | Inr body \<Rightarrow> (case parse_json b body of Some v \<Rightarrow> Inr v | None \<Rightarrow> Inl (Network (body_error b body))))
      | None \<Rightarrow> rpc_call b n (rpc_url p) rpc_method params)"

text \<open>The raw forms are bytes over REST and hex text over JSON-RPC.\<close>

definition esplora_raw ::
  "libs \<Rightarrow> backend \<Rightarrow> concrete_provider \<Rightarrow> nat \<Rightarrow> string \<Rightarrow> string \<Rightarrow> json \<Rightarrow> string \<Rightarrow> string dres" where
  "esplora_raw l b p n path rpc_method params msg =
     (case esplora_url p of
        Some url \<Rightarrow>
          (case http_get_bytes b n (url @ path) of Inl e \<Rightarrow> Inl (Network e) | Inr bs \<Rightarrow> Inr (hex_encode l bs))
      | None \<Rightarrow> dbind (rpc_call b n (rpc_url p) rpc_method params) (str_or msg))"

subsection \<open>Texts\<close>

definition get_blocks_tip_hash :: "backend \<Rightarrow> concrete_provider \<Rightarrow> nat \<Rightarrow> string dres" where
  "get_blocks_tip_hash b p n =
     esplora_text b p n (''/blocks/tip/hash'') ''esplora_blocks:tip:hash'' (JArr [])
       ''Invalid tip hash response''"

definition get_block_by_height :: "backend \<Rightarrow> concrete_provider \<Rightarrow> nat \<Rightarrow> u64 \<Rightarrow> string dres" where
  "get_block_by_height b p n height =
     esplora_text b p n (''/block-height/'' @ to_string height) ''esplora_block:height'' (JArr [JNum (PosInt height)])
       ''Invalid block hash response''"

definition get_block_header :: "backend \<Rightarrow> concrete_provider \<Rightarrow> nat \<Rightarrow> string \<Rightarrow> string dres" where
  "get_block_header b p n hash =
     esplora_text b p n (''/block/'' @ hash @ ''/header'') ''esplora_block:header'' (JArr [JStr hash])
       ''Invalid block header response''"

definition get_block_txid :: "backend \<Rightarrow> concrete_provider \<Rightarrow> nat \<Rightarrow> string \<Rightarrow> u32 \<Rightarrow> string dres" where
  "get_block_txid b p n hash index =
     esplora_text b p n (''/block/'' @ hash @ ''/txid/'' @ to_string index) ''esplora_block:txid'' (JArr [JStr hash, JNum (PosInt (ucast index))])
       ''Invalid txid response''"

definition get_tx_merkleblock_proof :: "backend \<Rightarrow> concrete_provider \<Rightarrow> nat \<Rightarrow> string \<Rightarrow> string dres" where
  "get_tx_merkleblock_proof b p n txid =
     esplora_text b p n (''/tx/'' @ txid @ ''/merkleblock-proof'') ''esplora_tx::merkleblock-proof'' (JArr [JStr txid])
       ''Invalid merkleblock proof response''"

text \<open>The height of the tip: the text of a number over REST, a number over JSON-RPC.\<close>

definition get_blocks_tip_height :: "backend \<Rightarrow> concrete_provider \<Rightarrow> nat \<Rightarrow> u64 dres" where
  "get_blocks_tip_height b p n =
     (case esplora_url p of
        Some url \<Rightarrow>
          (case http_get b n (url @ ''/blocks/tip/height'') of
             Inl e \<Rightarrow> Inl (Network e)
           | Inr body \<Rightarrow> (case parse_uint body of
               Inl e \<Rightarrow> Inl (RpcError (''Invalid tip height response from REST API: '' @ e))
             | Inr h \<Rightarrow> Inr h))
      | None \<Rightarrow> dbind (rpc_call b n (rpc_url p) ''esplora_blocks:tip:height'' (JArr [])) (\<lambda>v.
          case as_u64 v of Some h \<Rightarrow> Inr h | None \<Rightarrow> Inl (RpcError ''Invalid tip height response'')))"

definition get_block_raw :: "libs \<Rightarrow> backend \<Rightarrow> concrete_provider \<Rightarrow> nat \<Rightarrow> string \<Rightarrow> string dres" where
  "get_block_raw l b p n hash =
     esplora_raw l b p n (''/block/'' @ hash @ ''/raw'') ''esplora_block:raw'' (JArr [JStr hash])
       ''Invalid raw block response''"

definition get_tx_raw :: "libs \<Rightarrow> backend \<Rightarrow> concrete_provider \<Rightarrow> nat \<Rightarrow> string \<Rightarrow> string dres" where
  "get_tx_raw l b p n txid =
     esplora_raw l b p n (''/tx/'' @ txid @ ''/raw'') ''esplora_tx::raw'' (JArr [JStr txid])
       ''Invalid raw tx response''"

definition broadcast :: "backend \<Rightarrow> concrete_provider \<Rightarrow> nat \<Rightarrow> string \<Rightarrow> string dres" where
  "broadcast b p n tx_hex =
     (case esplora_url p of
        Some url \<Rightarrow> (case http_post_text b n (url @ ''/tx'') tx_hex of Inl e \<Rightarrow> Inl (Network e) | Inr body \<Rightarrow> Inr body)
      | None \<Rightarrow> dbind (rpc_call b n (rpc_url p) ''esplora_broadcast'' (JArr [JStr tx_hex]))
          (str_or ''Invalid broadcast response''))"

subsection \<open>JSON values\<close>

definition get_blocks :: "backend \<Rightarrow> concrete_provider \<Rightarrow> nat \<Rightarrow> (u64 option) \<Rightarrow> json dres" where
  "get_blocks b p n start_height =
     esplora_json b p n (''/blocks'' @ (case start_height of Some h \<Rightarrow> ''/'' @ to_string h | None \<Rightarrow> []))
       ''esplora_blocks'' (JArr (case start_height of Some h \<Rightarrow> [JNum (PosInt h)] | None \<Rightarrow> []))"

definition get_block_esplora :: "backend \<Rightarrow> concrete_provider \<Rightarrow> nat \<Rightarrow> string \<Rightarrow> json dres" where
  "get_block_esplora b p n hash =
     esplora_json b p n (''/block/'' @ hash)
       ''esplora_block'' (JArr [JStr hash])"

definition get_block_status :: "backend \<Rightarrow> concrete_provider \<Rightarrow> nat \<Rightarrow> string \<Rightarrow> json dres" where
  "get_block_status b p n hash =
     esplora_json b p n (''/block/'' @ hash @ ''/status'')
       ''esplora_block:status'' (JArr [JStr hash])"

definition get_block_txids_esplora :: "backend \<Rightarrow> concrete_provider \<Rightarrow> nat \<Rightarrow> string \<Rightarrow> json dres" where
  "get_block_txids_esplora b p n hash =
     esplora_json b p n (''/block/'' @ hash @ ''/txids'')
       ''esplora_block:txids'' (JArr [JStr hash])"

definition get_block_txs :: "backend \<Rightarrow> concrete_provider \<Rightarrow> nat \<Rightarrow> string \<Rightarrow> (u32 option) \<Rightarrow> json dres" where
  "get_block_txs b p n hash start_index =
     esplora_json b p n (''/block/'' @ hash @ ''/txs'' @ (case start_index of Some i \<Rightarrow> ''/'' @ to_string i | None \<Rightarrow> []))
       ''esplora_block:txs'' (JArr (JStr hash # (case start_index of Some i \<Rightarrow> [JNum (PosInt (ucast i))] | None \<Rightarrow> [])))"

definition get_address_esplora :: "backend \<Rightarrow> concrete_provider \<Rightarrow> nat \<Rightarrow> string \<Rightarrow> json dres" where
  "get_address_esplora b p n address =
     esplora_json b p n (''/address/'' @ address)
       ''esplora_address'' (JArr [JStr address])"

definition get_address_info :: "backend \<Rightarrow> concrete_provider \<Rightarrow> nat \<Rightarrow> string \<Rightarrow> json dres" where
  "get_address_info b p n address =
     esplora_json b p n (''/address/'' @ address)
       ''esplora_address'' (JArr [JStr address])"

definition get_address_txs :: "backend \<Rightarrow> concrete_provider \<Rightarrow> nat \<Rightarrow> string \<Rightarrow> json dres" where
  "get_address_txs b p n address =
     esplora_json b p n (''/address/'' @ address @ ''/txs'')
       ''esplora_address::txs'' (JArr [JStr address])"

definition get_address_txs_chain :: "backend \<Rightarrow> concrete_provider \<Rightarrow> nat \<Rightarrow> string \<Rightarrow> (string option) \<Rightarrow> json dres" where
  "get_address_txs_chain b p n address last_seen_txid =
     esplora_json b p n (''/address/'' @ address @ ''/txs/chain'' @ (case last_seen_txid of Some t \<Rightarrow> ''/'' @ t | None \<Rightarrow> []))
       ''esplora_address::txs::chain'' (JArr (JStr address # (case last_seen_txid of Some t \<Rightarrow> [JStr t] | None \<Rightarrow> [])))"

definition get_address_txs_mempool :: "backend \<Rightarrow> concrete_provider \<Rightarrow> nat \<Rightarrow> string \<Rightarrow> json dres" where
  "get_address_txs_mempool b p n address =
     esplora_json b p n (''/address/'' @ address @ ''/txs/mempool'')
       ''esplora_address::txs::mempool'' (JArr [JStr address])"

definition get_address_utxo :: "backend \<Rightarrow> concrete_provider \<Rightarrow> nat \<Rightarrow> string \<Rightarrow> json dres" where
  "get_address_utxo b p n address =
     esplora_json b p n (''/address/'' @ address @ ''/utxo'')
       ''esplora_address::utxo'' (JArr [JStr address])"

definition get_address_prefix :: "backend \<Rightarrow> concrete_provider \<Rightarrow> nat \<Rightarrow> string \<Rightarrow> json dres" where
  "get_address_prefix b p n address_prefix =
     esplora_json b p n (''/address-prefix/'' @ address_prefix)
       ''esplora_address::prefix'' (JArr [JStr address_prefix])"

definition get_tx :: "backend \<Rightarrow> concrete_provider \<Rightarrow> nat \<Rightarrow> string \<Rightarrow> json dres" where
  "get_tx b p n txid =
     esplora_json b p n (''/tx/'' @ txid)
       ''esplora_tx'' (JArr [JStr txid])"

definition get_tx_status :: "backend \<Rightarrow> concrete_provider \<Rightarrow> nat \<Rightarrow> string \<Rightarrow> json dres" where
  "get_tx_status b p n txid =
     esplora_json b p n (''/tx/'' @ txid @ ''/status'')
       ''esplora_tx::status'' (JArr [JStr txid])"

definition get_tx_merkle_proof :: "backend \<Rightarrow> concrete_provider \<Rightarrow> nat \<Rightarrow> string \<Rightarrow> json dres" where
  "get_tx_merkle_proof b p n txid =
     esplora_json b p n (''/tx/'' @ txid @ ''/merkle-proof'')
       ''esplora_tx::merkle-proof'' (JArr [JStr txid])"

definition get_tx_outspend :: "backend \<Rightarrow> concrete_provider \<Rightarrow> nat \<Rightarrow> string \<Rightarrow> u32 \<Rightarrow> json dres" where
  "get_tx_outspend b p n txid index =
     esplora_json b p n (''/tx/'' @ txid @ ''/outspend/'' @ to_string index)
       ''esplora_tx::outspend'' (JArr [JStr txid, JNum (PosInt (ucast index))])"

definition get_tx_outspends :: "backend \<Rightarrow> concrete_provider \<Rightarrow> nat \<Rightarrow> string \<Rightarrow> json dres" where
  "get_tx_outspends b p n txid =
     esplora_json b p n (''/tx/'' @ txid @ ''/outspends'')
       ''esplora_tx::outspends'' (JArr [JStr txid])"

definition get_mempool :: "backend \<Rightarrow> concrete_provider \<Rightarrow> nat \<Rightarrow> json dres" where
  "get_mempool b p n =
     esplora_json b p n (''/mempool'')
       ''esplora_mempool'' (JArr [])"

definition get_mempool_txids :: "backend \<Rightarrow> concrete_provider \<Rightarrow> nat \<Rightarrow> json dres" where
  "get_mempool_txids b p n =
     esplora_json b p n (''/mempool/txids'')
       ''esplora_mempool:txids'' (JArr [])"

definition get_mempool_recent :: "backend \<Rightarrow> concrete_provider \<Rightarrow> nat \<Rightarrow> json dres" where
  "get_mempool_recent b p n =
     esplora_json b p n (''/mempool/recent'')
       ''esplora_mempool:recent'' (JArr [])"

definition get_fee_estimates :: "backend \<Rightarrow> concrete_provider \<Rightarrow> nat \<Rightarrow> json dres" where
  "get_fee_estimates b p n =
     esplora_json b p n (''/fee-estimates'')
       ''esplora_fee-estimates'' (JArr [])"

subsection \<open>Calls to bitcoind and Metashrew\<close>

definition generate_to_address :: "backend \<Rightarrow> concrete_provider \<Rightarrow> nat \<Rightarrow> u32 \<Rightarrow> string \<Rightarrow> json dres" where
  "generate_to_address b p n nblocks address =
     rpc_call b n (rpc_url p) ''generatetoaddress'' (JArr [JNum (PosInt (ucast nblocks)), JStr address])"

definition get_new_address :: "backend \<Rightarrow> concrete_provider \<Rightarrow> nat \<Rightarrow> json dres" where
  "get_new_address b p n = rpc_call b n (rpc_url p) ''getnewaddress'' JNull"

definition get_block_bitcoind :: "backend \<Rightarrow> concrete_provider \<Rightarrow> nat \<Rightarrow> string \<Rightarrow> bool \<Rightarrow> json dres" where
  "get_block_bitcoind b p n hash raw =
     rpc_call b n (rpc_url p) ''getblock'' (JArr [JStr hash, JNum (PosInt (if raw then 0 else 2))])"

definition get_mempool_info :: "backend \<Rightarrow> concrete_provider \<Rightarrow> nat \<Rightarrow> json dres" where
  "get_mempool_info b p n = rpc_call b n (rpc_url p) ''getmempoolinfo'' JNull"

definition estimate_smart_fee :: "backend \<Rightarrow> concrete_provider \<Rightarrow> nat \<Rightarrow> u32 \<Rightarrow> json dres" where
  "estimate_smart_fee b p n target =
     rpc_call b n (rpc_url p) ''estimatesmartfee'' (JArr [JNum (PosInt (ucast target))])"

definition get_contract_meta :: "backend \<Rightarrow> concrete_provider \<Rightarrow> nat \<Rightarrow> string \<Rightarrow> string \<Rightarrow> json dres" where
  "get_contract_meta b p n block tx =
     rpc_call b n (metashrew_rpc_url p) ''metashrew_view'' (JArr [JStr block, JStr tx])"

definition get_spendables_by_address :: "backend \<Rightarrow> concrete_provider \<Rightarrow> nat \<Rightarrow> string \<Rightarrow> json dres" where
  "get_spendables_by_address b p n address =
     rpc_call b n (metashrew_rpc_url p) ''spendablesbyaddress'' (JArr [JStr address])"

definition get_sequence :: "backend \<Rightarrow> concrete_provider \<Rightarrow> nat \<Rightarrow> string \<Rightarrow> u32 \<Rightarrow> json dres" where
  "get_sequence b p n txid vout =
     rpc_call b n (metashrew_rpc_url p) ''alkanes_sequence'' (JArr [JStr txid, JNum (PosInt (ucast vout))])"

text \<open>The answer to \<open>sendrawtransaction\<close> is printed with \<open>Debug\<close> in the error; that text is a parameter.\<close>

definition send_raw_transaction :: "(json \<Rightarrow> string) \<Rightarrow> backend \<Rightarrow> concrete_provider \<Rightarrow> nat \<Rightarrow> string \<Rightarrow> string dres" where
  "send_raw_transaction show_debug b p n tx_hex =
     dbind (rpc_call b n (rpc_url p) ''sendrawtransaction'' (JArr [JStr tx_hex, JNum (PosInt 0)])) (\<lambda>v.
       case as_str v of Some txid \<Rightarrow> Inr txid
       | None \<Rightarrow> Inl (RpcError
           (''Invalid txid response from sendrawtransaction: response was not a string: '' @ show_debug v)))"

definition get_ord_block_count :: "backend \<Rightarrow> concrete_provider \<Rightarrow> nat \<Rightarrow> u64 dres" where
  "get_ord_block_count b p n =
     dbind (rpc_call b n (rpc_url p) ''ord_blockcount'' (JArr [])) (\<lambda>v.
       case as_u64 v of
         Some h \<Rightarrow> Inr h
       | None \<Rightarrow> (case as_str v of
           Some s \<Rightarrow> (case from_str_radix 10 s of
               Some h \<Rightarrow> Inr h | None \<Rightarrow> Inl (RpcError ''Invalid block count string response''))
         | None \<Rightarrow> Inl (RpcError ''Invalid block count response: not a u64 or string'')))"

text \<open>A view of Metashrew: hex in, hex out.  The text of a hex error belongs to the hex crate.\<close>

definition metashrew_view_call ::
  "(string \<Rightarrow> deezel_error) \<Rightarrow> libs \<Rightarrow> backend \<Rightarrow> concrete_provider \<Rightarrow> nat \<Rightarrow> string \<Rightarrow> string \<Rightarrow> string \<Rightarrow> byte list dres" where
  "metashrew_view_call hex_error l b p n view_method hex_input block_tag =
     dbind (rpc_call b n (metashrew_rpc_url p) ''metashrew_view'' (JArr [JStr view_method, JStr hex_input, JStr block_tag])) (\<lambda>v.
       case as_str v of
         None \<Rightarrow> Inl (RpcError ''metashrew_view response was not a string'')
       | Some hex_response \<Rightarrow>
           (let digits = unwrap_or hex_response (strip_prefix ''0x'' hex_response)
            in case hex_decode l digits of Some bs \<Rightarrow> Inr bs | None \<Rightarrow> Inl (hex_error digits)))"

end
