(* ===== verification/Float_Bits.thy ===== *)
theory Float_Bits
  imports Pool_Swap
begin

text \<open>
  Binary floating point as the fee computations of the library use it (\<open>f32\<close> and \<open>f64\<close>): rounding to
  nearest with ties to even, conversion from integers, product, quotient, \<open>ceil\<close>, comparison and the
  saturating conversion to \<open>u64\<close>.  A finite number is \<open>m * 2 ^ e\<close>; the two zeros are one, which no
  operation here can tell apart.
\<close>

subsection \<open>Values and rounding\<close>

datatype fp = Fin int int | Inf bool | Nan

text \<open>The format: significant bits, the least exponent, and the exponent of the overflow threshold.\<close>

record fp_format =
  fp_bits :: nat
  fp_emin :: int
  fp_emax :: int

definition binary32 :: fp_format where
  "binary32 = \<lparr>fp_bits = 24, fp_emin = - 149, fp_emax = 128\<rparr>"

definition binary64 :: fp_format where
  "binary64 = \<lparr>fp_bits = 53, fp_emin = - 1074, fp_emax = 1024\<rparr>"

definition nearest_even :: "nat \<Rightarrow> nat \<Rightarrow> nat" where
  "nearest_even n d =
     (let q = n div d; r = n mod d in if d < 2 * r \<or> (2 * r = d \<and> odd q) then Suc q else q)"

text \<open>The exponent at which \<open>n / d\<close> has the given number of bits.\<close>

definition quotient_exponent :: "nat \<Rightarrow> nat \<Rightarrow> nat \<Rightarrow> int" where
  "quotient_exponent p n d =
     (let k = int (bit_length n) - int (bit_length d) - int p
      in if d * 2 ^ nat k * 2 ^ p \<le> n * 2 ^ nat (- k) then k + 1 else k)"

definition fp_round :: "fp_format \<Rightarrow> bool \<Rightarrow> nat \<Rightarrow> nat \<Rightarrow> int \<Rightarrow> fp" where
  "fp_round f neg n d e =
     (if n = 0 then Fin 0 0
      else let k = max (quotient_exponent (fp_bits f) n d) (fp_emin f - e);
               q = nearest_even (n * 2 ^ nat (- k)) (d * 2 ^ nat k)
           in if q \<noteq> 0 \<and> fp_emax f < int (bit_length q) + k + e then Inf neg
              else Fin (if neg then - int q else int q) (k + e))"

subsection \<open>Operations\<close>

definition fp_of_nat :: "fp_format \<Rightarrow> nat \<Rightarrow> fp" where
  "fp_of_nat f n = fp_round f False n 1 0"

fun fp_negative :: "fp \<Rightarrow> bool" where
  "fp_negative (Fin m e) = (m < 0)"
| "fp_negative (Inf neg) = neg"
| "fp_negative Nan = False"

fun fp_mult :: "fp_format \<Rightarrow> fp \<Rightarrow> fp \<Rightarrow> fp" where
  "fp_mult f (Fin m e) (Fin m' e') = fp_round f ((m < 0) \<noteq> (m' < 0)) (nat \<bar>m\<bar> * nat \<bar>m'\<bar>) 1 (e + e')"
| "fp_mult f (Inf s) (Fin m e) = (if m = 0 then Nan else Inf (s \<noteq> (m < 0)))"
| "fp_mult f (Fin m e) (Inf s) = (if m = 0 then Nan else Inf (s \<noteq> (m < 0)))"
| "fp_mult f (Inf s) (Inf s') = Inf (s \<noteq> s')"
| "fp_mult f Nan y = Nan"
| "fp_mult f x Nan = Nan"

fun fp_div :: "fp_format \<Rightarrow> fp \<Rightarrow> fp \<Rightarrow> fp" where
  "fp_div f (Fin m e) (Fin m' e') =
     (if m' = 0 then (if m = 0 then Nan else Inf (m < 0))
      else fp_round f ((m < 0) \<noteq> (m' < 0)) (nat \<bar>m\<bar>) (nat \<bar>m'\<bar>) (e - e'))"
| "fp_div f (Inf s) (Fin m e) = Inf (s \<noteq> (m < 0))"
| "fp_div f (Fin m e) (Inf s) = Fin 0 0"
| "fp_div f (Inf s) (Inf s') = Nan"
| "fp_div f Nan y = Nan"
| "fp_div f x Nan = Nan"

fun fp_ceil :: "fp \<Rightarrow> fp" where
  "fp_ceil (Fin m e) = (if 0 \<le> e then Fin m e else Fin (- (- m div 2 ^ nat (- e))) 0)"
| "fp_ceil x = x"

text \<open>\<open>as u64\<close> truncates, saturates, and takes NaN to 0.\<close>

fun fp_to_u64 :: "fp \<Rightarrow> u64" where
  "fp_to_u64 (Fin m e) =
     (if m \<le> 0 then 0
      else let v = (if 0 \<le> e then nat m * 2 ^ nat e else nat m div 2 ^ nat (- e))
           in if 2 ^ 64 \<le> v then - 1 else of_nat v)"
| "fp_to_u64 (Inf neg) = (if neg then 0 else - 1)"
| "fp_to_u64 Nan = 0"

fun fp_less :: "fp \<Rightarrow> fp \<Rightarrow> bool" where
  "fp_less (Fin m e) (Fin m' e') = (m * 2 ^ nat (e - e') < m' * 2 ^ nat (e' - e))"
| "fp_less (Inf s) (Fin m e) = s"
| "fp_less (Fin m e) (Inf s) = (\<not> s)"
| "fp_less (Inf s) (Inf s') = (s \<and> \<not> s')"
| "fp_less Nan y = False"
| "fp_less x Nan = False"

subsection \<open>Exact cases\<close>

lemma bit_length_le: "n < 2 ^ k \<Longrightarrow> bit_length n \<le> k"
proof (rule ccontr)
  assume n: "n < 2 ^ k" and "\<not> bit_length n \<le> k"
  then have "(2::nat) ^ k \<le> 2 ^ (bit_length n - 1)" by (intro power_increasing) auto
  moreover have "0 < n" using \<open>\<not> bit_length n \<le> k\<close> by (cases n) (auto simp: bit_length.simps [of 0])
  ultimately show False using bit_length_bounds [of n] n by linarith
qed

lemma bit_length_1: "bit_length 1 = 1" "bit_length (Suc 0) = 1"
  by (simp_all add: bit_length_numeral)

lemma nearest_even_1 [simp]: "nearest_even n 1 = n" "nearest_even n (Suc 0) = n"
  by (simp_all add: nearest_even_def)

text \<open>An integer of few bits is rounded to itself.\<close>

lemma quotient_exponent_integer:
  assumes "0 < n" "n < 2 ^ p"
  shows "quotient_exponent p n 1 \<le> 0"
proof -
  define k where "k = int (bit_length n) - 1 - int p"
  have k: "k \<le> - 1" using bit_length_le [OF assms(2)] by (simp add: k_def)
  have "quotient_exponent p n 1 \<in> {k, k + 1}" by (simp add: quotient_exponent_def k_def bit_length_1 Let_def)
  with k show ?thesis by auto
qed

lemma fp_round_integer:
  assumes "n < 2 ^ fp_bits f" "fp_emin f \<le> 0" "int (fp_bits f) \<le> fp_emax f"
  shows "\<exists>j. fp_round f False n 1 0 = Fin (int (n * 2 ^ j)) (- int j)"
proof (cases "n = 0")
  case True
  then show ?thesis by (auto simp: fp_round_def)
next
  case False
  define k where "k = max (quotient_exponent (fp_bits f) n 1) (fp_emin f)"
  have k: "k \<le> 0" using quotient_exponent_integer [of n "fp_bits f"] False assms(1,2) by (simp add: k_def)
  define j where "j = nat (- k)"
  have j: "k = - int j" using k by (simp add: j_def)
  have "n * 2 ^ j < 2 ^ (fp_bits f + j)" using assms(1) by (simp add: power_add)
  then have "bit_length (n * 2 ^ j) \<le> fp_bits f + j" by (rule bit_length_le)
  then have fits: "\<not> fp_emax f < int (bit_length (n * 2 ^ j)) + k" using assms(3) j by linarith
  have "fp_round f False n 1 0 = Fin (int (n * 2 ^ j)) k"
    unfolding fp_round_def Let_def diff_0_right k_def [symmetric] using False fits k by (simp add: j_def)
  then show ?thesis unfolding j by blast
qed

lemma fp_to_u64_ceil_shifted: "fp_to_u64 (fp_ceil (Fin (int (n * 2 ^ j)) (- int j))) = (if n < 2 ^ 64 then of_nat n else - 1)"
proof (cases "j = 0")
  case False
  have neg: "- int (n * 2 ^ j) = - int n * 2 ^ j" by simp
  have div: "(- int n * 2 ^ j) div 2 ^ j = - int n" by (rule nonzero_mult_div_cancel_right) simp
  have "- (- int (n * 2 ^ j) div 2 ^ j) = int n" unfolding neg div by (rule minus_minus)
  with False show ?thesis by (auto simp: not_less)
qed (auto simp: not_less)

end
