(* ===== verification/Wallet.thy ===== *)
theory Wallet
  imports Esplora_Client Float_Bits
begin

text \<open>
  The wallet side of the provider: the implementations of \<open>WalletProvider\<close> in \<open>provider.rs\<close> that need
  no secret (addresses, balance, UTXOs, history, fee rates, waiting for the backends, building an
  unsigned transaction) and \<open>Keystore::get_addresses\<close> of \<open>keystore.rs\<close>.  An operation may make many
  requests; it is a function of the number of the next one.  Key derivation, address parsing and the
  serialisation of a transaction belong to the bitcoin crate and are parameters.  Sums of \<open>u64\<close> wrap
  around, as in a release build; sums of \<open>Amount\<close> panic on overflow.
\<close>

subsection \<open>Operations that make requests\<close>

datatype dfault = Failure deezel_error | Abort string

type_synonym 'a dact = "nat \<Rightarrow> (dfault + 'a) \<times> nat"

definition dact_return :: "'a \<Rightarrow> 'a dact" where
  "dact_return x n = (Inr x, n)"

definition dact_fault :: "dfault \<Rightarrow> 'a dact" where
  "dact_fault e n = (Inl e, n)"

definition dact_bind :: "'a dact \<Rightarrow> ('a \<Rightarrow> 'b dact) \<Rightarrow> 'b dact" where
  "dact_bind m f n = (case m n of (Inl e, n') \<Rightarrow> (Inl e, n') | (Inr x, n') \<Rightarrow> f x n')"

text \<open>A request with \<open>?\<close>, a request whose error is handled, and a result with \<open>?\<close>.\<close>

definition request :: "(nat \<Rightarrow> 'a dres) \<Rightarrow> 'a dact" where
  "request r n = ((case r n of Inl e \<Rightarrow> Inl (Failure e) | Inr x \<Rightarrow> Inr x), Suc n)"

definition attempt_request :: "(nat \<Rightarrow> 'a dres) \<Rightarrow> 'a dres dact" where
  "attempt_request r n = (Inr (r n), Suc n)"

definition dact_lift :: "'a dres \<Rightarrow> 'a dact" where
  "dact_lift r = (case r of Inl e \<Rightarrow> dact_fault (Failure e) | Inr x \<Rightarrow> dact_return x)"

fun dact_map :: "('a \<Rightarrow> 'b dact) \<Rightarrow> 'a list \<Rightarrow> 'b list dact" where
  "dact_map f [] = dact_return []"
| "dact_map f (x # xs) = dact_bind (f x) (\<lambda>y. dact_bind (dact_map f xs) (\<lambda>ys. dact_return (y # ys)))"

fun dact_fold :: "('s \<Rightarrow> 'a \<Rightarrow> 's dact) \<Rightarrow> 's \<Rightarrow> 'a list \<Rightarrow> 's dact" where
  "dact_fold f s [] = dact_return s"
| "dact_fold f s (x # xs) = dact_bind (f s x) (\<lambda>s'. dact_fold f s' xs)"

lemma dact_bind_Inr: "dact_bind m f n = (Inr y, n') \<longleftrightarrow> (\<exists>x k. m n = (Inr x, k) \<and> f x k = (Inr y, n'))"
  by (auto simp: dact_bind_def split: sum.splits prod.splits)

lemma dact_return_Inr [simp]: "dact_return x n = (Inr y, n') \<longleftrightarrow> y = x \<and> n' = n"
  by (auto simp: dact_return_def)

lemma dact_lift_Inr [simp]: "dact_lift r n = (Inr y, n') \<longleftrightarrow> r = Inr y \<and> n' = n"
  by (auto simp: dact_lift_def dact_fault_def split: sum.splits)

lemma dact_fault_Inr [simp]: "dact_fault e n \<noteq> (Inr y, n')"
  by (simp add: dact_fault_def)

lemma dact_sum_Inr [simp]:
  "(case r of Inl e \<Rightarrow> dact_fault e | Inr x \<Rightarrow> dact_return x) n = (Inr y, n') \<longleftrightarrow> r = Inr y \<and> n' = n"
  by (cases r) auto

lemma dact_head_Inr [simp]:
  "(case xs of x # _ \<Rightarrow> dact_return x | [] \<Rightarrow> dact_fault e) n = (Inr y, n') \<longleftrightarrow> (\<exists>ys. xs = y # ys) \<and> n' = n"
  by (cases xs) auto

lemma request_Inr [simp]: "request r n = (Inr y, n') \<longleftrightarrow> r n = Inr y \<and> n' = Suc n"
  by (auto simp: request_def split: sum.splits)

subsection \<open>Data and parameters\<close>

datatype network = Bitcoin | Testnet | Signet | Regtest

record keystore =
  ks_xpub :: string

record address_info =
  ai_path :: string
  ai_address :: string
  ai_script_type :: string
  ai_index :: u32

type_synonym outpoint = "string \<times> u32"

type_synonym script = "byte list"

record utxo_info =
  ut_txid :: string
  ut_vout :: u32
  ut_amount :: u64
  ut_address :: string
  ut_script :: "script option"
  ut_confirmations :: u32
  ut_frozen :: bool
  ut_block_height :: "u64 option"

record tx_out =
  to_amount :: u64
  to_script_pubkey :: script

record unsigned_tx =
  ux_inputs :: "outpoint list"
  ux_outputs :: "tx_out list"

text \<open>
  \<open>xpub_of\<close> is \<open>Xpub::from_str\<close>, \<open>p2tr_of\<close> the derivation of the P2TR address at a path; \<open>script_of\<close> is
  \<open>Address::from_str(..)?.require_network(..)?.script_pubkey()\<close>; \<open>outpoint_of\<close> and \<open>txid_of\<close> are the
  \<open>from_str\<close> of their types; \<open>unhex\<close> is \<open>Vec::from_hex\<close>.
\<close>

record 'x wallet_libs =
  xpub_of :: "string \<Rightarrow> 'x dres"
  p2tr_of :: "'x \<Rightarrow> network \<Rightarrow> string \<Rightarrow> string dres"
  script_of :: "network \<Rightarrow> string \<Rightarrow> script dres"
  outpoint_of :: "string \<Rightarrow> outpoint dres"
  txid_of :: "string \<Rightarrow> string dres"
  unhex :: "string \<Rightarrow> byte list dres"
  serialize_hex :: "unsigned_tx \<Rightarrow> string"

subsection \<open>Network and addresses\<close>

definition get_network :: "concrete_provider \<Rightarrow> network" where
  "get_network p =
     (if network_provider p = ''mainnet'' then Bitcoin
      else if network_provider p = ''testnet'' then Testnet
      else if network_provider p = ''signet'' then Signet else Regtest)"

definition keystore_addresses ::
  "'x wallet_libs \<Rightarrow> keystore \<Rightarrow> network \<Rightarrow> string \<Rightarrow> u32 \<Rightarrow> u32 \<Rightarrow> u32 \<Rightarrow> address_info list dres" where
  "keystore_addresses wl ks network address_type chain start_index n =
     dbind (xpub_of wl (ks_xpub ks)) (\<lambda>xpub.
       let indices = map of_nat [unat start_index ..< unat (start_index + n)];
           entry = (\<lambda>i. dbind (p2tr_of wl xpub network (''m/'' @ to_string chain @ ''/'' @ to_string i)) (\<lambda>address.
             Inr \<lparr>ai_path = ''m/86'/'' @ (if network = Bitcoin then ''0'' else ''1'') @ [CHR 0x27] @ ''/0'/'' @
                    to_string chain @ ''/'' @ to_string i,
                  ai_address = address, ai_script_type = address_type, ai_index = i\<rparr>))
       in foldr (\<lambda>i rest. dbind (entry i) (\<lambda>a. dbind rest (\<lambda>as. Inr (a # as)))) indices (Inr []))"

definition get_addresses ::
  "'x wallet_libs \<Rightarrow> concrete_provider \<Rightarrow> keystore option \<Rightarrow> u32 \<Rightarrow> address_info list dres" where
  "get_addresses wl p ks n =
     (case ks of
        None \<Rightarrow> Inl (Wallet ''Keystore not loaded'')
      | Some k \<Rightarrow> keystore_addresses wl k (get_network p) ''p2tr'' 0 0 n)"

definition get_address ::
  "'x wallet_libs \<Rightarrow> concrete_provider \<Rightarrow> keystore option \<Rightarrow> string dres" where
  "get_address wl p ks =
     dbind (get_addresses wl p ks 1) (\<lambda>addresses.
       case addresses of a # _ \<Rightarrow> Inr (ai_address a)
       | [] \<Rightarrow> Inl (Wallet ''No addresses found in wallet''))"

definition addresses_to_check ::
  "'x wallet_libs \<Rightarrow> concrete_provider \<Rightarrow> keystore option \<Rightarrow> string list option \<Rightarrow> string list dres" where
  "addresses_to_check wl p ks addresses =
     (case addresses of
        Some provided \<Rightarrow> Inr provided
      | None \<Rightarrow> dbind (get_addresses wl p ks 20) (\<lambda>infos. Inr (map ai_address infos)))"

subsection \<open>Balance, UTXOs and history\<close>

definition u64_field :: "string \<Rightarrow> json \<Rightarrow> u64" where
  "u64_field k v = unwrap_or 0 (Option.bind (jget k v) as_u64)"

definition i64_field :: "string \<Rightarrow> json \<Rightarrow> i64" where
  "i64_field k v = unwrap_or 0 (Option.bind (jget k v) as_i64)"

definition add_balance :: "u64 \<times> i64 \<Rightarrow> json \<Rightarrow> u64 \<times> i64" where
  "add_balance total_balances info =
     (case total_balances of (confirmed, pending) \<Rightarrow>
        (case jget ''chain_stats'' info of
           Some s \<Rightarrow> confirmed + saturating_sub (u64_field ''funded_txo_sum'' s) (u64_field ''spent_txo_sum'' s)
         | None \<Rightarrow> confirmed,
         case jget ''mempool_stats'' info of
           Some s \<Rightarrow> pending + (i64_field ''funded_txo_sum'' s - i64_field ''spent_txo_sum'' s)
         | None \<Rightarrow> pending))"

definition wallet_balance ::
  "'x wallet_libs \<Rightarrow> backend \<Rightarrow> concrete_provider \<Rightarrow> keystore option \<Rightarrow> string list option \<Rightarrow> (u64 \<times> i64) dact" where
  "wallet_balance wl b p ks addresses =
     dact_bind (dact_lift (addresses_to_check wl p ks addresses)) (\<lambda>addrs.
       dact_fold (\<lambda>totals address.
         dact_bind (request (\<lambda>n. get_address_info b p n address)) (\<lambda>info. dact_return (add_balance totals info)))
       (0, 0) addrs)"

definition confirmed_at :: "json \<Rightarrow> bool \<times> u64 option" where
  "confirmed_at v =
     (let status = jget ''status'' v
      in (Option.bind status (jget ''confirmed'') = Some (JBool True),
          Option.bind (Option.bind status (jget ''block_height'')) as_u64))"

definition confirmations_of ::
  "backend \<Rightarrow> concrete_provider \<Rightarrow> bool \<Rightarrow> u64 option \<Rightarrow> u32 dact" where
  "confirmations_of b p confirmed block_height =
     (if \<not> confirmed then dact_return 0
      else case block_height of
        None \<Rightarrow> dact_return 1
      | Some bh \<Rightarrow> dact_bind (attempt_request (get_block_count b p)) (\<lambda>r.
          let current = (case r of Inr h \<Rightarrow> h | Inl e \<Rightarrow> bh)
          in dact_return (ucast (saturating_sub current bh) + 1)))"

definition required :: "string \<Rightarrow> 'a option \<Rightarrow> 'a dact" where
  "required msg x = (case x of Some y \<Rightarrow> dact_return y | None \<Rightarrow> dact_fault (Failure (Other msg)))"

definition utxo_of ::
  "'x wallet_libs \<Rightarrow> backend \<Rightarrow> concrete_provider \<Rightarrow> string \<Rightarrow> json \<Rightarrow> (outpoint \<times> utxo_info) dact" where
  "utxo_of wl b p address v =
     dact_bind (required ''Missing txid in UTXO'' (jstr [''txid''] v)) (\<lambda>txid.
     dact_bind (required ''Missing vout in UTXO'' (Option.bind (jget ''vout'' v) as_u64)) (\<lambda>vout64.
     dact_bind (required ''Missing value in UTXO'' (Option.bind (jget ''value'' v) as_u64)) (\<lambda>amount.
       let vout = ucast vout64; (confirmed, block_height) = confirmed_at v
       in dact_bind (confirmations_of b p confirmed block_height) (\<lambda>confirmations.
          dact_bind (dact_lift (outpoint_of wl (txid @ '':'' @ to_string (vout :: u32)))) (\<lambda>outpoint.
          dact_bind (dact_lift (script_of wl (get_network p) address)) (\<lambda>script.
            dact_return (outpoint,
              \<lparr>ut_txid = txid, ut_vout = vout, ut_amount = amount, ut_address = address,
               ut_script = Some script, ut_confirmations = confirmations, ut_frozen = False,
               ut_block_height = block_height\<rparr>)))))))"

definition get_utxos ::
  "'x wallet_libs \<Rightarrow> backend \<Rightarrow> concrete_provider \<Rightarrow> keystore option \<Rightarrow> string list option \<Rightarrow>
   (outpoint \<times> utxo_info) list dact" where
  "get_utxos wl b p ks addresses =
     dact_bind (dact_lift (addresses_to_check wl p ks addresses)) (\<lambda>addrs.
     dact_bind (dact_map (\<lambda>address.
         dact_bind (request (\<lambda>n. get_address_utxo b p n address)) (\<lambda>v.
           dact_map (utxo_of wl b p address) (unwrap_or [] (as_array v)))) addrs) (\<lambda>utxos.
       dact_return (concat utxos)))"

text \<open>The four fields of a UTXO that \<open>UtxoProvider\<close> gives.\<close>

definition get_utxos_by_spec ::
  "'x wallet_libs \<Rightarrow> backend \<Rightarrow> concrete_provider \<Rightarrow> keystore option \<Rightarrow> string list \<Rightarrow>
   (string \<times> u32 \<times> u64 \<times> string) list dact" where
  "get_utxos_by_spec wl b p ks spec =
     dact_bind (get_utxos wl b p ks (Some spec)) (\<lambda>utxos.
       dact_return (map (\<lambda>(outpoint, u). (ut_txid u, ut_vout u, ut_amount u, ut_address u)) utxos))"

record transaction_info =
  ti_txid :: string
  ti_block_height :: "u64 option"
  ti_block_time :: "u64 option"
  ti_confirmed :: bool
  ti_fee :: "u64 option"

definition transaction_info_of :: "json \<Rightarrow> transaction_info option" where
  "transaction_info_of v =
     map_option (\<lambda>txid.
       \<lparr>ti_txid = txid, ti_block_height = snd (confirmed_at v),
        ti_block_time = Option.bind (jpath [''status'', ''block_time''] v) as_u64,
        ti_confirmed = fst (confirmed_at v), ti_fee = Option.bind (jget ''fee'' v) as_u64\<rparr>)
     (jstr [''txid''] v)"

definition get_history ::
  "backend \<Rightarrow> concrete_provider \<Rightarrow> u32 \<Rightarrow> string option \<Rightarrow> transaction_info list dact" where
  "get_history b p n address =
     (case address of
        None \<Rightarrow> dact_fault (Failure (Wallet ''get_history requires an address''))
      | Some addr \<Rightarrow> dact_bind (request (\<lambda>k. get_address_txs b p k addr)) (\<lambda>v.
          dact_return (List.map_filter transaction_info_of (take (unat n) (unwrap_or [] (as_array v))))))"

text \<open>The output that an outpoint names.\<close>

definition get_utxo :: "'x wallet_libs \<Rightarrow> backend \<Rightarrow> concrete_provider \<Rightarrow> outpoint \<Rightarrow> tx_out option dact" where
  "get_utxo wl b p outpoint =
     dact_bind (request (\<lambda>n. get_tx b p n (fst outpoint))) (\<lambda>tx_info.
       let outputs = unwrap_or [] (Option.bind (jget ''vout'' tx_info) as_array); i = unat (snd outpoint)
       in if length outputs \<le> i
          then dact_fault (Failure (Wallet (''Vout '' @ to_string (snd outpoint) @ '' not found for tx '' @ fst outpoint)))
          else case Option.bind (jget ''value'' (outputs ! i)) as_u64 of
            None \<Rightarrow> dact_fault (Failure (Wallet ''UTXO value not found''))
          | Some amount \<Rightarrow> (case jstr [''scriptpubkey''] (outputs ! i) of
              None \<Rightarrow> dact_fault (Failure (Wallet ''UTXO script pubkey not found''))
            | Some script_hex \<Rightarrow> dact_bind (dact_lift (unhex wl script_hex)) (\<lambda>script.
                dact_return (Some \<lparr>to_amount = amount, to_script_pubkey = script\<rparr>))))"

subsection \<open>Waiting for the backends\<close>

fun sync_attempts :: "backend \<Rightarrow> concrete_provider \<Rightarrow> nat \<Rightarrow> unit dact" where
  "sync_attempts b p 0 =
     dact_fault (Failure (Other ''Timeout waiting for backends to sync after 60 attempts''))"
| "sync_attempts b p (Suc k) =
     dact_bind (attempt_request (get_block_count b p)) (\<lambda>r.
       case r of
         Inl e \<Rightarrow> sync_attempts b p k
       | Inr height \<Rightarrow>
           dact_bind (attempt_request (get_metashrew_height b p)) (\<lambda>metashrew.
           dact_bind (attempt_request (get_blocks_tip_height b p)) (\<lambda>esplora.
           dact_bind (attempt_request (get_ord_block_count b p)) (\<lambda>ord.
             if \<forall>answer \<in> {metashrew, esplora, ord}. \<exists>h. answer = Inr h \<and> height \<le> h
             then dact_return () else sync_attempts b p k))))"

definition sync :: "backend \<Rightarrow> concrete_provider \<Rightarrow> unit dact" where
  "sync b p = sync_attempts b p 60"

subsection \<open>Fee rates\<close>

text \<open>\<open>as_f64\<close>: integers are converted, floats are the 64 bits.\<close>

definition f64_of_bits :: "u64 \<Rightarrow> fp" where
  "f64_of_bits w =
     (let neg = bit w 63; ex = unat (take_bit 11 (drop_bit 52 w)); frac = unat (take_bit 52 w);
          signed = (\<lambda>m. if neg then - int m else int m)
      in if ex = 2047 then (if frac = 0 then Inf neg else Nan)
         else if ex = 0 then Fin (signed frac) (- 1074)
         else Fin (signed (2 ^ 52 + frac)) (int ex - 1075))"

fun as_f64 :: "json \<Rightarrow> fp option" where
  "as_f64 (JNum (PosInt w)) = Some (fp_of_nat binary64 (unat w))"
| "as_f64 (JNum (NegInt w)) = Some (fp_round binary64 True (nat (- sint w)) 1 0)"
| "as_f64 (JNum (Float w)) = Some (f64_of_bits w)"
| "as_f64 _ = None"

fun f32_of_f64 :: "fp \<Rightarrow> fp" where
  "f32_of_f64 (Fin m e) = fp_round binary32 (m < 0) (nat \<bar>m\<bar>) 1 e"
| "f32_of_f64 x = x"

definition rate_at :: "string \<Rightarrow> fp \<Rightarrow> json \<Rightarrow> fp" where
  "rate_at target default_rate estimates =
     f32_of_f64 (unwrap_or default_rate (Option.bind (jget target estimates) as_f64))"

definition estimate_fee :: "backend \<Rightarrow> concrete_provider \<Rightarrow> u32 \<Rightarrow> fp dact" where
  "estimate_fee b p target =
     dact_bind (request (get_fee_estimates b p)) (\<lambda>estimates.
       dact_return (rate_at (to_string target) (Fin 1 0) estimates))"

definition get_fee_rates :: "backend \<Rightarrow> concrete_provider \<Rightarrow> (fp \<times> fp \<times> fp) dact" where
  "get_fee_rates b p =
     dact_bind (request (get_fee_estimates b p)) (\<lambda>estimates.
       dact_return (rate_at ''1'' (Fin 10 0) estimates, rate_at ''6'' (Fin 5 0) estimates,
         rate_at ''144'' (Fin 1 0) estimates))"

subsection \<open>Coins and the unsigned transaction\<close>

definition checked_sub :: "'a::len word \<Rightarrow> 'a word \<Rightarrow> 'a word option" where
  "checked_sub a b = (if b \<le> a then Some (a - b) else None)"

definition largest_first :: "utxo_info \<Rightarrow> utxo_info \<Rightarrow> ordering" where
  "largest_first x y = compare (ut_amount y) (ut_amount x)"

fun take_coins :: "u64 \<Rightarrow> u64 \<Rightarrow> utxo_info list \<Rightarrow> dfault + utxo_info list \<times> u64" where
  "take_coins target total_input [] = Inr ([], total_input)"
| "take_coins target total_input (u # us) =
     (if target \<le> total_input then Inr ([], total_input)
      else case checked_add total_input (ut_amount u) of
        None \<Rightarrow> Inl (Abort ''Amount addition error'')
      | Some t \<Rightarrow> (case take_coins target t us of
          Inl e \<Rightarrow> Inl e | Inr (selected, s) \<Rightarrow> Inr (u # selected, s)))"

definition select_coins :: "utxo_info list \<Rightarrow> u64 \<Rightarrow> dfault + utxo_info list \<times> u64" where
  "select_coins utxos target =
     (case take_coins target 0 (sort_by largest_first utxos) of
        Inl e \<Rightarrow> Inl e
      | Inr (selected, total_input) \<Rightarrow>
          if total_input < target then Inl (Failure (Wallet ''Insufficient funds''))
          else Inr (selected, total_input))"

definition estimate_tx_vsize :: "nat \<Rightarrow> nat \<Rightarrow> u64" where
  "estimate_tx_vsize num_outputs num_inputs = 10 + of_nat (58 * num_inputs) + 43 * of_nat num_outputs"

record send_params =
  sn_address :: string
  sn_amount :: u64
  sn_fee_rate :: "fp option"
  sn_send_all :: bool
  sn_from :: "string list option"
  sn_change_address :: "string option"

definition fee_for :: "nat \<Rightarrow> fp \<Rightarrow> u64" where
  "fee_for num_inputs rate =
     fp_to_u64 (fp_ceil (fp_mult binary32 (fp_of_nat binary32 (unat (estimate_tx_vsize 2 num_inputs))) rate))"

definition change_of :: "u64 \<Rightarrow> u64 \<Rightarrow> u64 \<Rightarrow> u64 option" where
  "change_of total_input target fee = Option.bind (checked_sub total_input target) (\<lambda>a. checked_sub a fee)"

definition build_transaction ::
  "'x wallet_libs \<Rightarrow> backend \<Rightarrow> concrete_provider \<Rightarrow> keystore option \<Rightarrow> send_params \<Rightarrow> unsigned_tx dact" where
  "build_transaction wl b p ks params =
     dact_bind (case sn_from params of
         Some from_addresses \<Rightarrow> dact_return from_addresses
       | None \<Rightarrow> dact_lift (dbind (get_addresses wl p ks 100) (\<lambda>infos. Inr (map ai_address infos)))) (\<lambda>addresses.
     dact_bind (get_utxos wl b p ks (Some addresses)) (\<lambda>utxos.
     dact_bind (case select_coins (map snd utxos) (sn_amount params) of
         Inl e \<Rightarrow> dact_fault e | Inr r \<Rightarrow> dact_return r) (\<lambda>(selected, total_input).
     dact_bind (dact_map (\<lambda>u. dact_bind (dact_lift (txid_of wl (ut_txid u))) (\<lambda>txid.
         dact_return (txid, ut_vout u))) selected) (\<lambda>inputs.
     dact_bind (dact_lift (script_of wl (get_network p) (sn_address params))) (\<lambda>recipient.
     dact_bind (case addresses of a # _ \<Rightarrow> dact_return a | [] \<Rightarrow> dact_fault (Abort ''index out of bounds'')) (\<lambda>change_address.
     dact_bind (dact_lift (script_of wl (get_network p) change_address)) (\<lambda>change_script.
       let fee = fee_for (length selected) (unwrap_or (Fin 1 0) (sn_fee_rate params))
       in dact_return
            \<lparr>ux_inputs = inputs,
             ux_outputs = \<lparr>to_amount = sn_amount params, to_script_pubkey = recipient\<rparr> #
               (case change_of total_input (sn_amount params) fee of
                  Some change \<Rightarrow> if 546 < change then [\<lparr>to_amount = change, to_script_pubkey = change_script\<rparr>] else []
                | None \<Rightarrow> [])\<rparr>)))))))"

definition create_transaction ::
  "'x wallet_libs \<Rightarrow> backend \<Rightarrow> concrete_provider \<Rightarrow> keystore option \<Rightarrow> send_params \<Rightarrow> string dact" where
  "create_transaction wl b p ks params =
     dact_bind (build_transaction wl b p ks params) (\<lambda>tx. dact_return (serialize_hex wl tx))"

subsection \<open>Coin selection\<close>

interpretation coin_order: key_comparator largest_first "\<lambda>u. - uint (ut_amount u)"
proof
  fix x y
  show "largest_first x y = compare (- uint (ut_amount x)) (- uint (ut_amount y))"
    by (auto simp: largest_first_def compare_def word_less_def word_uint_eq_iff)
qed

text \<open>The sum of the amounts, without a bound.\<close>

definition coin_sum :: "utxo_info list \<Rightarrow> nat" where
  "coin_sum us = (\<Sum>u\<leftarrow>us. unat (ut_amount u))"

lemma coin_sum_simps [simp]: "coin_sum [] = 0" "coin_sum (u # us) = unat (ut_amount u) + coin_sum us"
  by (simp_all add: coin_sum_def)

lemma coin_sum_mset: "mset us = mset vs \<Longrightarrow> coin_sum us = coin_sum vs"
  unfolding coin_sum_def by (metis mset_map sum_mset_sum_list)

lemma take_coins_prefix:
  assumes "take_coins target t us = Inr (selected, total_input)"
  shows "\<exists>k. selected = take k us \<and> k \<le> length us \<and> unat total_input = unat t + coin_sum selected \<and>
    (target \<le> total_input \<or> k = length us) \<and> (k \<noteq> 0 \<longrightarrow> unat t + coin_sum (take (k - 1) us) < unat target)"
  using assms
proof (induction us arbitrary: t selected)
  case (Cons u us)
  show ?case
  proof (cases "target \<le> t")
    case True
    then show ?thesis using Cons.prems by (intro exI [of _ 0]) auto
  next
    case False
    then obtain t' rest where step: "checked_add t (ut_amount u) = Some t'"
      "take_coins target t' us = Inr (rest, total_input)" "selected = u # rest"
      using Cons.prems by (auto split: option.splits sum.splits)
    have t': "unat t' = unat t + unat (ut_amount u)"
      using step(1) by (auto simp: std_simps split: if_splits) (simp add: unat_add_lem [THEN iffD1])
    obtain k where k: "rest = take k us" "k \<le> length us" "unat total_input = unat t' + coin_sum rest"
      "target \<le> total_input \<or> k = length us" "k \<noteq> 0 \<longrightarrow> unat t' + coin_sum (take (k - 1) us) < unat target"
      using Cons.IH [OF step(2)] by blast
    have "unat t + coin_sum (take k (u # us)) < unat target"
    proof (cases k)
      case 0
      then show ?thesis using False by (simp add: word_le_nat_alt)
    next
      case (Suc j)
      then show ?thesis using k(5) t' by simp
    qed
    then show ?thesis using k step(3) t' by (intro exI [of _ "Suc k"]) simp
  qed
qed simp

text \<open>No list of the same length chosen from a sorted list has a larger sum than its front.\<close>

lemma coin_sum_front:
  assumes "sorted (map (\<lambda>u. - uint (ut_amount u)) us)" "mset vs \<subseteq># mset us"
  shows "coin_sum vs \<le> coin_sum (take (length vs) us)"
  using assms
proof (induction us arbitrary: vs)
  case (Cons u us)
  show ?case
  proof (cases "vs = []")
    case False
    define v where "v = (if u \<in> set vs then u else hd vs)"
    have v: "v \<in> set vs" using False by (simp add: v_def)
    obtain ws where vs: "mset vs = add_mset v (mset ws)"
      using v by (metis insert_DiffM mset_remove1 set_mset_mset)
    have "v \<in> set (u # us)" using v Cons.prems(2) mset_subset_eqD by fastforce
    then have "uint (ut_amount v) \<le> uint (ut_amount u)" using Cons.prems(1) by auto
    then have le: "unat (ut_amount v) \<le> unat (ut_amount u)" by (simp add: word_le_def [symmetric] word_le_nat_alt)
    have "mset ws \<subseteq># mset us"
    proof (cases "u \<in> set vs")
      case True
      then show ?thesis using Cons.prems(2) vs by (simp add: v_def)
    next
      case False
      then have "u \<notin># mset vs" by simp
      then have none: "count (mset vs) u = 0" by (simp only: not_in_iff)
      have "count (mset vs) a \<le> count (mset us) a" for a
      proof (cases "a = u")
        case True
        then show ?thesis using none by (simp only: le0)
      next
        case False
        then show ?thesis using mset_subset_eq_count [OF Cons.prems(2), of a] by simp
      qed
      then have "mset vs \<subseteq># mset us" by (rule mset_subset_eqI)
      then show ?thesis unfolding vs by (meson add_mset_subseteq_single_iff mset_subset_eq_insertD subset_mset.less_imp_le)
    qed
    then have "coin_sum ws \<le> coin_sum (take (length ws) us)" using Cons.IH Cons.prems(1) by simp
    moreover have "length vs = Suc (length ws)" using vs by (metis size_add_mset size_mset)
    moreover have "coin_sum vs = coin_sum (v # ws)" by (rule coin_sum_mset) (simp add: vs)
    ultimately show ?thesis using le by simp
  qed simp
qed simp

lemma mset_take: "mset (take k xs) \<subseteq># mset xs"
  by (metis append_take_drop_id mset_append mset_subset_eq_add_left)

lemma select_coins_front:
  assumes "select_coins utxos target = Inr (selected, total_input)"
  shows "\<exists>k. selected = take k (sort_by largest_first utxos) \<and> k \<le> length utxos \<and>
    unat total_input = coin_sum selected \<and> target \<le> total_input \<and>
    (k \<noteq> 0 \<longrightarrow> coin_sum (take (k - 1) (sort_by largest_first utxos)) < unat target)"
proof -
  let ?us = "sort_by largest_first utxos"
  have run: "take_coins target 0 ?us = Inr (selected, total_input)" and enough: "target \<le> total_input"
    using assms by (auto simp: select_coins_def not_less split: sum.splits if_splits)
  have "length ?us = length utxos" by (metis coin_order.mset_sort_by size_mset)
  with take_coins_prefix [OF run] enough show ?thesis by auto
qed

text \<open>
  C26: coin selection.  What is selected is a part of the UTXOs with the stated sum, which reaches the
  target; no part of the UTXOs with fewer of them does.
\<close>

theorem select_coins_fewest:
  assumes "select_coins utxos target = Inr (selected, total_input)"
  shows "mset selected \<subseteq># mset utxos \<and> unat total_input = coin_sum selected \<and> target \<le> total_input \<and>
    (\<forall>other. mset other \<subseteq># mset utxos \<and> unat target \<le> coin_sum other \<longrightarrow> length selected \<le> length other)"
proof -
  let ?us = "sort_by largest_first utxos"
  obtain k where k: "selected = take k ?us" "k \<le> length utxos" "unat total_input = coin_sum selected"
    "target \<le> total_input" "k \<noteq> 0 \<longrightarrow> coin_sum (take (k - 1) ?us) < unat target"
    using select_coins_front [OF assms] by blast
  have ms: "mset ?us = mset utxos" by (rule coin_order.mset_sort_by)
  have "length selected \<le> length other"
    if other: "mset other \<subseteq># mset utxos" "unat target \<le> coin_sum other" for other
  proof (rule ccontr)
    assume "\<not> ?thesis"
    then have less: "length other \<le> k - 1" "k \<noteq> 0" using k(1) by auto
    have "coin_sum other \<le> coin_sum (take (length other) ?us)"
      using coin_order.sorted_sort_by other(1) unfolding ms [symmetric] by (rule coin_sum_front)
    also have "\<dots> \<le> coin_sum (take (k - 1) ?us)"
      using less(1) by (metis coin_sum_def le_add1 min.absorb1 sum_list_append append_take_drop_id map_append take_take)
    also have "\<dots> < unat target" using k(5) less(2) by blast
    finally show False using other(2) by simp
  qed
  moreover have "mset selected \<subseteq># mset utxos"
    unfolding k(1) ms [symmetric] by (rule mset_take)
  ultimately show ?thesis using k(3,4) by blast
qed

definition example_coin :: "u64 \<Rightarrow> utxo_info" where
  "example_coin amount = \<lparr>ut_txid = ''ab'', ut_vout = 0, ut_amount = amount, ut_address = ''bc1'', ut_script = None,
     ut_confirmations = 1, ut_frozen = False, ut_block_height = None\<rparr>"

lemma select_example: "select_coins (map example_coin [500, 2000, 700]) 2500 = Inr (map example_coin [2000, 700], 2700)"
  by (simp add: select_coins_def sort_by_def largest_first_def compare_def example_coin_def checked_add_def)

lemma unat_numeral_2500: "unat (2500 :: u64) = 2500"
  by simp

lemma select_coins_fewest_witness:
  "\<not> (\<exists>other. mset other \<subseteq># mset (map example_coin [500, 2000, 700]) \<and> 2500 \<le> coin_sum other \<and> length other < 2)"
  using select_coins_fewest [OF select_example]
  by (simp only: length_map list.size Suc_eq_plus1 add_0 one_add_one list.map unat_numeral_2500 flip: not_le) blast

subsection \<open>The unsigned transaction\<close>

lemma dact_map_Inr:
  "dact_map f xs n = (Inr ys, n') \<Longrightarrow> list_all2 (\<lambda>x y. \<exists>k k'. f x k = (Inr y, k')) xs ys"
  by (induction xs arbitrary: n ys) (auto simp: dact_bind_Inr)

lemma change_of_Some:
  "change_of t target fee = Some c \<longleftrightarrow> unat target + unat fee \<le> unat t \<and> c = t - target - fee"
  by (auto simp: change_of_def checked_sub_def Option.bind_eq_Some_conv word_le_nat_alt unat_sub)

lemma unat_change:
  assumes "change_of t target fee = Some c"
  shows "unat c + unat target + unat fee = unat t"
proof -
  have c: "c = t - target - fee" "unat target + unat fee \<le> unat t" using assms by (simp_all add: change_of_Some)
  then have "target \<le> t" by (simp add: word_le_nat_alt)
  then have "unat (t - target) = unat t - unat target" by (rule unat_sub)
  moreover from this c(2) have "fee \<le> t - target" by (simp add: word_le_nat_alt)
  then have "unat c = unat (t - target) - unat fee" unfolding c(1) by (rule unat_sub)
  ultimately show ?thesis using c(2) by linarith
qed

definition outputs_sum :: "tx_out list \<Rightarrow> nat" where
  "outputs_sum outs = (\<Sum>out\<leftarrow>outs. unat (to_amount out))"

lemma outputs_sum_simps [simp]: "outputs_sum [] = 0" "outputs_sum (out # outs) = unat (to_amount out) + outputs_sum outs"
  by (simp_all add: outputs_sum_def)

text \<open>
  C27: an unsigned transaction.  It pays the amount to the recipient from the selected coins, spends
  no more than they hold, and leaves a fee that is exactly the estimate when there is change.
  Without change the fee is the estimate and at most 546 more, or less than the estimate: the coins
  are selected for the amount alone, so that nothing makes sure that they cover the fee.
\<close>

theorem transaction_balances:
  assumes "build_transaction wl b p ks params n = (Inr tx, n')"
  shows "\<exists>utxos selected fee recipient rest.
    (\<exists>addresses k k'. get_utxos wl b p ks (Some addresses) k = (Inr utxos, k')) \<and>
    mset selected \<subseteq># mset (map snd utxos) \<and>
    fee = unat (fee_for (length selected) (unwrap_or (Fin 1 0) (sn_fee_rate params))) \<and>
    list_all2 (\<lambda>u i. txid_of wl (ut_txid u) = Inr (fst i) \<and> snd i = ut_vout u) selected (ux_inputs tx) \<and>
    script_of wl (get_network p) (sn_address params) = Inr recipient \<and>
    ux_outputs tx = \<lparr>to_amount = sn_amount params, to_script_pubkey = recipient\<rparr> # rest \<and>
    (if rest \<noteq> [] then outputs_sum (ux_outputs tx) + fee = coin_sum selected
     else unat (sn_amount params) \<le> coin_sum selected \<and> coin_sum selected \<le> unat (sn_amount params) + fee + 546)"
proof -
  obtain addrs utxos selected t inputs recipient change_address change_script k1 k2 k3 where run:
    "get_utxos wl b p ks (Some addrs) k1 = (Inr utxos, k2)"
    "select_coins (map snd utxos) (sn_amount params) = Inr (selected, t)"
    "dact_map (\<lambda>u. dact_bind (dact_lift (txid_of wl (ut_txid u))) (\<lambda>txid.
       dact_return (txid, ut_vout u))) selected k2 = (Inr inputs, k3)"
    "script_of wl (get_network p) (sn_address params) = Inr recipient"
    "tx = \<lparr>ux_inputs = inputs, ux_outputs = \<lparr>to_amount = sn_amount params, to_script_pubkey = recipient\<rparr> #
       (case change_of t (sn_amount params) (fee_for (length selected) (unwrap_or (Fin 1 0) (sn_fee_rate params))) of
          Some change \<Rightarrow> if 546 < change then [\<lparr>to_amount = change, to_script_pubkey = change_script\<rparr>] else []
        | None \<Rightarrow> [])\<rparr>"
    using assms unfolding build_transaction_def Let_def by (auto simp: dact_bind_Inr)
  let ?fee = "fee_for (length selected) (unwrap_or (Fin 1 0) (sn_fee_rate params))"
  obtain ms: "mset selected \<subseteq># mset (map snd utxos)" and t: "unat t = coin_sum selected" "sn_amount params \<le> t"
  proof -
    obtain k where "selected = take k (sort_by largest_first (map snd utxos))" "unat t = coin_sum selected" "sn_amount params \<le> t"
      using select_coins_front [OF run(2)] by blast
    moreover from this(1) have "mset selected \<subseteq># mset (map snd utxos)"
      using mset_take [of k "sort_by largest_first (map snd utxos)"] by (simp only: coin_order.mset_sort_by)
    ultimately show thesis using that by blast
  qed
  have found: "\<exists>addresses k k'. get_utxos wl b p ks (Some addresses) k = (Inr utxos, k')" using run(1) by blast
  have inputs: "list_all2 (\<lambda>u i. txid_of wl (ut_txid u) = Inr (fst i) \<and> snd i = ut_vout u) selected inputs"
    using dact_map_Inr [OF run(3)] by (rule list_all2_mono) (auto simp: dact_bind_Inr)
  show ?thesis
  proof (cases "change_of t (sn_amount params) ?fee")
    case None
    then have "unat t < unat (sn_amount params) + unat ?fee"
      by (metis change_of_Some not_le option.distinct(1))
    then show ?thesis using found run(4,5) ms inputs t None
      by (intro exI [of _ utxos] exI [of _ selected] exI [of _ "unat ?fee"] exI [of _ recipient] exI [of _ "[] :: tx_out list"])
        (simp add: word_le_nat_alt)
  next
    case (Some c)
    note c = unat_change [OF this]
    show ?thesis
    proof (cases "546 < c")
      case True
      then show ?thesis using found run(4,5) ms inputs t Some c
        by (intro exI [of _ utxos] exI [of _ selected] exI [of _ "unat ?fee"] exI [of _ recipient]
            exI [of _ "[\<lparr>to_amount = c, to_script_pubkey = change_script\<rparr>]"]) simp
    next
      case False
      then have "unat c \<le> 546" by (simp add: not_less word_le_nat_alt)
      then show ?thesis using found run(4,5) ms inputs t Some False c
        by (intro exI [of _ utxos] exI [of _ selected] exI [of _ "unat ?fee"] exI [of _ recipient] exI [of _ "[] :: tx_out list"])
          (simp add: word_le_nat_alt)
    qed
  qed
qed

definition example_wallet_libs :: "unit wallet_libs" where
  "example_wallet_libs = \<lparr>xpub_of = (\<lambda>s. Inr ()), p2tr_of = (\<lambda>x nw path. Inr path), script_of = (\<lambda>nw a. Inr [0x51]),
     outpoint_of = (\<lambda>s. Inr (s, 0)), txid_of = Inr, unhex = (\<lambda>s. Inr []), serialize_hex = (\<lambda>tx. [])\<rparr>"

definition one_coin_backend :: backend where
  "one_coin_backend = \<lparr>http_post = (\<lambda>n url rpc_method params. Inr []), http_get = (\<lambda>n url. Inl ''refused''),
     in_time = (\<lambda>n. True),
     parse_json = (\<lambda>s. Some (JObj [(''result'', JArr [JObj [(''txid'', JStr ''ab''), (''vout'', JNum (PosInt 0)),
       (''value'', JNum (PosInt 5000))]])])),
     show_json = (\<lambda>v. []), body_error = (\<lambda>s. []), http_get_bytes = (\<lambda>n url. Inl ''refused''),
     http_post_text = (\<lambda>n url body. Inl ''refused'')\<rparr>"

definition example_send :: "u64 \<Rightarrow> send_params" where
  "example_send amount = \<lparr>sn_address = ''bc2'', sn_amount = amount, sn_fee_rate = None, sn_send_all = False,
     sn_from = Some [''bc1''], sn_change_address = Some ''bc3''\<rparr>"

definition example_wallet_provider :: concrete_provider where
  "example_wallet_provider = build_provider None ''url'' None ''mainnet''"

lemma one_coin_run:
  assumes "amount \<le> 5000" "0 < amount"
  shows "\<exists>rest. build_transaction example_wallet_libs one_coin_backend example_wallet_provider None (example_send amount) 0 =
    (Inr \<lparr>ux_inputs = [(''ab'', 0)], ux_outputs = \<lparr>to_amount = amount, to_script_pubkey = [0x51]\<rparr> # rest\<rparr>, 1) \<and>
    (amount = 5000 \<longrightarrow> rest = [])"
proof -
  let ?coin = "\<lparr>ut_txid = ''ab'', ut_vout = 0, ut_amount = 5000, ut_address = ''bc1'', ut_script = Some [0x51],
     ut_confirmations = 0, ut_frozen = False, ut_block_height = None\<rparr>"
  have utxos: "get_utxos example_wallet_libs one_coin_backend example_wallet_provider None (Some [''bc1'']) 0 =
      (Inr [((''ab:0'', 0), ?coin)], 1)"
    by (simp add: get_utxos_def addresses_to_check_def dact_bind_def dact_lift_def dact_return_def request_def
        get_address_utxo_def esplora_json_def example_wallet_provider_def build_provider_def concrete_provider_new_def
        rpc_call_def decode_response_def result_of_def one_coin_backend_def utxo_of_def required_def jstr_def
        confirmed_at_def confirmations_of_def example_wallet_libs_def Let_def to_string_def dec_string.simps digit_char_def)
  have "select_coins [?coin] amount = Inr ([?coin], 5000)"
    using assms by (simp add: select_coins_def sort_by_def checked_add_def not_less)
  moreover have "546 < c \<Longrightarrow> change_of 5000 5000 fee \<noteq> Some c" for fee c :: u64
    by (auto simp: change_of_def checked_sub_def split: if_splits)
  moreover have "script_of example_wallet_libs nw a = Inr [0x51]" "txid_of example_wallet_libs s = Inr s" for nw a s
    by (simp_all add: example_wallet_libs_def)
  ultimately show ?thesis
    by (auto simp: build_transaction_def example_send_def dact_bind_def dact_return_def dact_lift_def utxos
        Let_def split: option.splits)
qed

lemma transaction_balances_witness:
  "\<exists>tx selected fee. build_transaction example_wallet_libs one_coin_backend example_wallet_provider None (example_send 1000) 0 =
     (Inr tx, 1) \<and> fee = unat (fee_for (length selected) (Fin 1 0)) \<and>
     (if tl (ux_outputs tx) \<noteq> [] then outputs_sum (ux_outputs tx) + fee = coin_sum selected else 1000 \<le> coin_sum selected)"
proof -
  obtain tx where tx: "build_transaction example_wallet_libs one_coin_backend example_wallet_provider None (example_send 1000) 0 =
     (Inr tx, 1)"
    using one_coin_run [of 1000] by auto
  show ?thesis using transaction_balances [OF tx] tx by (fastforce simp: example_send_def)
qed

text \<open>A coin of exactly the amount pays no fee at all.\<close>

lemma transaction_without_fee:
  "build_transaction example_wallet_libs one_coin_backend example_wallet_provider None (example_send 5000) 0 =
    (Inr \<lparr>ux_inputs = [(''ab'', 0)], ux_outputs = [\<lparr>to_amount = 5000, to_script_pubkey = [0x51]\<rparr>]\<rparr>, 1)"
  using one_coin_run [of 5000] by auto

subsection \<open>Waiting\<close>

definition in_sync_at :: "backend \<Rightarrow> concrete_provider \<Rightarrow> nat \<Rightarrow> bool" where
  "in_sync_at b p k \<longleftrightarrow>
     (\<exists>h m e ord. get_block_count b p k = Inr h \<and> get_metashrew_height b p (k + 1) = Inr m \<and>
        get_blocks_tip_height b p (k + 2) = Inr e \<and> get_ord_block_count b p (k + 3) = Inr ord \<and>
        h \<le> m \<and> h \<le> e \<and> h \<le> ord)"

lemma sync_attempts_result:
  "sync_attempts b p j n = (r, n') \<Longrightarrow>
   n + j \<le> n' + (if r = Inr () then j else 0) \<and> n' \<le> n + 4 * j \<and>
   (case r of Inr _ \<Rightarrow> \<exists>k. n \<le> k \<and> n' = k + 4 \<and> in_sync_at b p k
    | Inl f \<Rightarrow> f = Failure (Other ''Timeout waiting for backends to sync after 60 attempts''))"
proof (induction j arbitrary: n)
  case 0
  then show ?case by (auto simp: dact_fault_def)
next
  case (Suc j)
  show ?case
  proof (cases "get_block_count b p n")
    case (Inl e)
    then have "sync_attempts b p j (Suc n) = (r, n')"
      using Suc.prems by (simp add: dact_bind_def attempt_request_def)
    from Suc.IH [OF this] show ?thesis by (auto split: sum.splits if_splits)
  next
    case (Inr h)
    show ?thesis
    proof (cases "in_sync_at b p n")
      case True
      then have "sync_attempts b p (Suc j) n = (Inr (), n + 4)"
        using Inr by (auto simp: in_sync_at_def dact_bind_def attempt_request_def dact_return_def eval_nat_numeral)
      then show ?thesis using Suc.prems True by auto
    next
      case False
      then have "sync_attempts b p j (n + 4) = (r, n')"
        using Suc.prems Inr
        by (auto simp: in_sync_at_def dact_bind_def attempt_request_def eval_nat_numeral split: if_splits)
      from Suc.IH [OF this] show ?thesis by (auto split: sum.splits if_splits)
    qed
  qed
qed

text \<open>
  Waiting for the backends ends after at most 240 requests: either the last four found Metashrew,
  esplora and ord at least at the height of bitcoind, or sixty attempts have failed.
\<close>

theorem sync_waits:
  "\<exists>r n'. sync b p n = (r, n') \<and> n' \<le> n + 240 \<and>
    (r = Inr () \<and> (\<exists>k. n \<le> k \<and> n' = k + 4 \<and> in_sync_at b p k) \<or>
     r = Inl (Failure (Other ''Timeout waiting for backends to sync after 60 attempts'')) \<and> n + 60 \<le> n')"
proof -
  obtain r n' where run: "sync b p n = (r, n')" by (cases "sync b p n")
  from sync_attempts_result [OF this [unfolded sync_def]] run show ?thesis
    by (cases r) auto
qed

subsection \<open>The last used address\<close>

text \<open>
  The loop over the indices of a chain, from one on which the last \<open>unused\<close> addresses had no
  transactions; it ends after twenty such addresses in a row, or when the keystore gives no address
  (after the last index, where the sum of the \<open>u32\<close> wraps around).
\<close>

partial_function (option) scan_chain ::
  "(u32 \<Rightarrow> bool option dact) \<Rightarrow> u32 \<Rightarrow> nat \<Rightarrow> u32 \<Rightarrow> nat \<Rightarrow> ((dfault + u32) \<times> nat) option" where
  "scan_chain used index unused last_used n =
     (case used index n of
        (Inl e, n') \<Rightarrow> Some (Inl e, n')
      | (Inr None, n') \<Rightarrow> Some (Inr last_used, n')
      | (Inr (Some is_used), n') \<Rightarrow>
          let unused' = (if is_used then 0 else unused + 1); last' = (if is_used then max last_used index else last_used)
          in if 20 \<le> unused' then Some (Inr last', n') else scan_chain used (index + 1) unused' last' n')"

definition address_used ::
  "'x wallet_libs \<Rightarrow> backend \<Rightarrow> concrete_provider \<Rightarrow> keystore \<Rightarrow> u32 \<Rightarrow> u32 \<Rightarrow> bool option dact" where
  "address_used wl b p ks chain index =
     dact_bind (dact_lift (keystore_addresses wl ks (get_network p) ''p2tr'' chain index 1)) (\<lambda>addresses.
       case addresses of
         [] \<Rightarrow> dact_return None
       | address # _ \<Rightarrow> dact_bind (request (\<lambda>n. get_address_txs b p n (ai_address address))) (\<lambda>txs.
           dact_return (Some (case as_array txs of Some xs \<Rightarrow> xs \<noteq> [] | None \<Rightarrow> False))))"

definition get_last_used_address_index ::
  "'x wallet_libs \<Rightarrow> backend \<Rightarrow> concrete_provider \<Rightarrow> keystore option \<Rightarrow> nat \<Rightarrow> ((dfault + u32) \<times> nat) option" where
  "get_last_used_address_index wl b p ks n =
     (case ks of
        None \<Rightarrow> Some (Inl (Failure (Wallet ''Keystore not loaded'')), n)
      | Some k \<Rightarrow>
          (case scan_chain (address_used wl b p k 0) 0 0 0 n of
             Some (Inr last_used, n') \<Rightarrow> scan_chain (address_used wl b p k 1) 0 0 last_used n'
           | r \<Rightarrow> r))"

text \<open>What a scan up to the index \<open>s\<close> has found, over the addresses that have transactions.\<close>

definition scanned :: "(u32 \<Rightarrow> bool) \<Rightarrow> nat \<Rightarrow> u32 \<Rightarrow> bool" where
  "scanned P s v \<longleftrightarrow> s < 2 ^ 32 \<and> (\<forall>j. s < unat j + 20 \<and> unat j \<le> s \<longrightarrow> \<not> P j) \<and> (\<forall>j. unat j \<le> s \<and> P j \<longrightarrow> j \<le> v)"

lemma scan_chain_result:
  assumes used: "\<And>i n. unat i < N + 20 \<Longrightarrow> used i n = (Inr (Some (P i)), Suc n)"
    and bound: "\<And>i. P i \<Longrightarrow> unat i < N" "N + 20 < 2 ^ 32"
    and index: "unat index < N + 20" "unused < 20" "unused \<le> unat index" "unat index - unused \<le> N"
      "\<And>j. unat index \<le> unat j + unused \<and> unat j < unat index \<Longrightarrow> \<not> P j"
      "\<And>j. unat j < unat index \<and> P j \<Longrightarrow> j \<le> l"
  shows "\<exists>v s. scan_chain used index unused l n = Some (Inr v, n + (Suc s - unat index)) \<and> unat index \<le> s \<and>
    s < N + 20 \<and> scanned P s v \<and> l \<le> v \<and> (v = l \<or> P v)"
  using index
proof (induction "N + 20 - unat index" arbitrary: index unused l n rule: less_induct)
  case less
  let ?u = "if P index then 0 else unused + 1" and ?l = "if P index then max l index else l"
  have step: "scan_chain used index unused l n =
      (if 20 \<le> ?u then Some (Inr ?l, Suc n) else scan_chain used (index + 1) ?u ?l (Suc n))"
    by (subst scan_chain.simps) (simp add: used [OF less.prems(1)] Let_def)
  have seen: "j \<le> ?l" if "unat j \<le> unat index" "P j" for j
  proof (cases "j = index")
    case False
    then have "unat j < unat index" using that(1) by (simp add: le_less word_unat_eq_iff)
    then have "j \<le> l" using less.prems(6) that(2) by blast
    then show ?thesis by (auto simp: max_def)
  qed (use that in \<open>auto simp: max_def\<close>)
  have none: "\<not> P j" if "unat index < unat j + ?u" "unat j \<le> unat index" for j
  proof (cases "j = index")
    case False
    then have "unat j < unat index" using that(2) by (simp add: le_less word_unat_eq_iff)
    moreover have "unat index \<le> unat j + unused" using that(1) \<open>unat j < unat index\<close> by (auto split: if_splits)
    ultimately show ?thesis using less.prems(5) by blast
  qed (use that in \<open>auto split: if_splits\<close>)
  show ?case
  proof (cases "20 \<le> ?u")
    case True
    then have "?u = 20" "\<not> P index" using less.prems(2) by (auto split: if_splits)
    have "unat index < 2 ^ 32" by (rule less_trans [OF less.prems(1) bound(2)])
    moreover have "\<not> P j" if "unat index < unat j + 20" "unat j \<le> unat index" for j
      by (rule none) (use that \<open>?u = 20\<close> in simp_all)
    ultimately have "scanned P (unat index) ?l" using seen by (simp only: scanned_def) blast
    moreover have "scan_chain used index unused l n = Some (Inr ?l, Suc n)" using step True by (simp only: if_True)
    moreover have "?l = l" using \<open>\<not> P index\<close> by simp
    ultimately show ?thesis using less.prems(1)
      by (intro exI [of _ l] exI [of _ "unat index"]) simp
  next
    case False
    have succ: "unat (index + 1) = Suc (unat index)"
      using less.prems(1) bound(2) by (simp add: unat_word_ariths)
    have less_N: "Suc (unat index) < N + 20"
    proof (cases "P index")
      case True
      then show ?thesis using bound(1) [of index] by simp
    next
      case False
      then show ?thesis using less.prems(2-4) \<open>\<not> 20 \<le> ?u\<close> by auto
    qed
    have "\<exists>v s. scan_chain used (index + 1) ?u ?l (Suc n) = Some (Inr v, Suc n + (Suc s - unat (index + 1))) \<and>
        unat (index + 1) \<le> s \<and> s < N + 20 \<and> scanned P s v \<and> ?l \<le> v \<and> (v = ?l \<or> P v)"
    proof (rule less.hyps)
      show "N + 20 - unat (index + 1) < N + 20 - unat index" using less_N succ by simp
      show "unat (index + 1) < N + 20" using less_N succ by simp
      show "?u < 20" using False by simp
      show "?u \<le> unat (index + 1)" using less.prems(3) succ by simp
      show "unat (index + 1) - ?u \<le> N" using less.prems(3,4) bound(1) [of index] succ by auto
      show "\<not> P j" if "unat (index + 1) \<le> unat j + ?u \<and> unat j < unat (index + 1)" for j
        by (rule none) (use that in \<open>simp_all only: succ Suc_le_eq less_Suc_eq_le\<close>)
      show "j \<le> ?l" if "unat j < unat (index + 1) \<and> P j" for j
        by (rule seen) (use that in \<open>simp_all only: succ less_Suc_eq_le\<close>)
    qed
    then obtain v s where v: "scan_chain used (index + 1) ?u ?l (Suc n) = Some (Inr v, Suc n + (Suc s - unat (index + 1)))"
      "unat (index + 1) \<le> s" "s < N + 20" "scanned P s v" "?l \<le> v" "v = ?l \<or> P v" by blast
    have "Suc n + (Suc s - unat (index + 1)) = n + (Suc s - unat index)" using v(2) succ by simp
    then have "scan_chain used index unused l n = Some (Inr v, n + (Suc s - unat index))"
      using step False v(1) by simp
    moreover have "l \<le> v" using v(5) by (auto split: if_splits)
    moreover have "v = l \<or> P v" using v(6) by (auto simp: max_def split: if_splits)
    ultimately show ?thesis using v(2-4) succ by (intro exI [of _ v] exI [of _ s]) simp
  qed
qed

lemma scan_from_0:
  assumes "\<And>i n. unat i < N + 20 \<Longrightarrow> used i n = (Inr (Some (P i)), Suc n)"
    and "\<And>i. P i \<Longrightarrow> unat i < N" "N + 20 < 2 ^ 32"
  shows "\<exists>v s. scan_chain used 0 0 l n = Some (Inr v, n + Suc s) \<and> s < N + 20 \<and> scanned P s v \<and> l \<le> v \<and> (v = l \<or> P v)"
  using scan_chain_result [where index = 0 and unused = 0 and l = l and n = n, OF assms] by simp

text \<open>
  C28: the scan for the last used address ends.  When the addresses with transactions are those of
  \<open>P\<close>, all of indices below \<open>N\<close>, it makes one request per address up to the end of the first gap of
  twenty on each chain, and gives the greatest used index before those ends.
\<close>

theorem last_used_index_scan:
  assumes used: "\<And>chain i n. unat i < N + 20 \<Longrightarrow> address_used wl b p k chain i n = (Inr (Some (P chain i)), Suc n)"
    and bound: "\<And>chain i. P chain i \<Longrightarrow> unat i < N" "N + 20 < 2 ^ 32"
  shows "\<exists>v s0 s1. get_last_used_address_index wl b p (Some k) n = Some (Inr v, n + Suc s0 + Suc s1) \<and>
    s0 < N + 20 \<and> s1 < N + 20 \<and> scanned (P 0) s0 v \<and> scanned (P 1) s1 v \<and> (v = 0 \<or> P 0 v \<or> P 1 v)"
proof -
  obtain v0 s0 where 0: "scan_chain (address_used wl b p k 0) 0 0 0 n = Some (Inr v0, n + Suc s0)"
    "s0 < N + 20" "scanned (P 0) s0 v0" "v0 = 0 \<or> P 0 v0"
    using scan_from_0 [where N = N and used = "address_used wl b p k 0" and P = "P 0" and l = 0 and n = n] used bound by blast
  obtain v s1 where 1: "scan_chain (address_used wl b p k 1) 0 0 v0 (n + Suc s0) = Some (Inr v, n + Suc s0 + Suc s1)"
    "s1 < N + 20" "scanned (P 1) s1 v" "v0 \<le> v" "v = v0 \<or> P 1 v"
    using scan_from_0 [where N = N and used = "address_used wl b p k 1" and P = "P 1" and l = v0 and n = "n + Suc s0"] used bound by blast
  have "scanned (P 0) s0 v" using 0(3) 1(4) by (auto simp: scanned_def intro: order_trans)
  moreover have "get_last_used_address_index wl b p (Some k) n = Some (Inr v, n + Suc s0 + Suc s1)"
    using 0(1) 1(1) by (simp add: get_last_used_address_index_def)
  ultimately show ?thesis using 0(2,4) 1(2,3,5) by blast
qed

lemma keystore_addresses_one:
  assumes "xpub_of wl (ks_xpub ks) = Inr xpub" "Suc (unat index) < 2 ^ 32"
    and "p2tr_of wl xpub network (''m/'' @ to_string chain @ ''/'' @ to_string index) = Inr address"
  shows "\<exists>a. keystore_addresses wl ks network kind chain index 1 = Inr [a] \<and> ai_address a = address \<and> ai_index a = index"
proof -
  have "unat (index + 1) = Suc (unat index)" using assms(2) by (simp add: unat_word_ariths)
  then show ?thesis using assms(1,3) by (simp add: keystore_addresses_def Let_def)
qed

definition no_coin_backend :: backend where
  "no_coin_backend = one_coin_backend\<lparr>parse_json := (\<lambda>s. Some (JObj [(''result'', JArr [])]))\<rparr>"

lemma no_coin_unused:
  assumes "unat i < 20"
  shows "address_used example_wallet_libs no_coin_backend example_wallet_provider \<lparr>ks_xpub = ''xpub''\<rparr> chain i n =
    (Inr (Some False), Suc n)"
proof -
  obtain a where a: "keystore_addresses example_wallet_libs \<lparr>ks_xpub = ''xpub''\<rparr>
      (get_network example_wallet_provider) ''p2tr'' chain i 1 = Inr [a]"
    using keystore_addresses_one [of example_wallet_libs "\<lparr>ks_xpub = ''xpub''\<rparr>" "()" i] assms
    by (force simp: example_wallet_libs_def)
  have "get_address_txs no_coin_backend example_wallet_provider n (ai_address a) = Inr (JArr [])" for n
    by (simp add: get_address_txs_def esplora_json_def example_wallet_provider_def build_provider_def
        concrete_provider_new_def rpc_call_def decode_response_def result_of_def no_coin_backend_def one_coin_backend_def)
  with a show ?thesis
    by (simp add: address_used_def dact_bind_def dact_lift_def dact_return_def request_def)
qed

lemma last_used_index_scan_witness:
  "\<exists>v s0 s1. get_last_used_address_index example_wallet_libs no_coin_backend example_wallet_provider
     (Some \<lparr>ks_xpub = ''xpub''\<rparr>) 0 = Some (Inr v, Suc s0 + Suc s1) \<and> s0 < 20 \<and> s1 < 20 \<and> v = 0"
  using last_used_index_scan [where N = 0 and wl = example_wallet_libs and b = no_coin_backend
      and p = example_wallet_provider and k = "\<lparr>ks_xpub = ''xpub''\<rparr>" and P = "\<lambda>chain i. False" and n = 0]
    no_coin_unused by fastforce

end
