(* ===== verification/Envelope.thy ===== *)
theory Envelope
  imports Deezel_Client
begin

text \<open>
  The envelope of a deployment (\<open>alkanes/envelope.rs\<close>): the reveal script with the compressed payload
  in pushes, and the witness that spends it.  A script is the list of what the builder pushes; its
  bytes belong to the bitcoin crate, the compression to flate2, and both are parameters.
\<close>

datatype script_item = Op string | Push "byte list"

record alkanes_envelope =
  en_payload :: "byte list"

definition for_contract :: "byte list \<Rightarrow> alkanes_envelope" where
  "for_contract contract_data = \<lparr>en_payload = contract_data\<rparr>"

definition alkanes_protocol_id :: "byte list" where
  "alkanes_protocol_id = [0x42, 0x49, 0x4E]"

definition body_tag :: "byte list" where
  "body_tag = []"

definition max_script_element_size :: nat where
  "max_script_element_size = 520"

text \<open>\<open>gzip\<close> is the encoder with what \<open>finish\<close> returns.\<close>

definition build_reveal_script :: "(byte list \<Rightarrow> byte list dres) \<Rightarrow> alkanes_envelope \<Rightarrow> script_item list" where
  "build_reveal_script gzip e =
     (let data = (case gzip (en_payload e) of Inr compressed \<Rightarrow> compressed | Inl err \<Rightarrow> en_payload e)
      in [Op ''OP_FALSE'', Op ''OP_IF'', Push alkanes_protocol_id, Push body_tag] @
         map Push (chunks max_script_element_size data) @ [Op ''OP_ENDIF''])"

fun empty_item :: "nat \<Rightarrow> byte list list \<Rightarrow> unit dres" where
  "empty_item i [] = Inr ()"
| "empty_item i (item # items) =
     (if item = [] then Inl (Other (''Witness item '' @ dec_string i @ '' is empty'')) else empty_item (Suc i) items)"

definition create_complete_witness ::
  "(byte list \<Rightarrow> byte list dres) \<Rightarrow> (script_item list \<Rightarrow> byte list) \<Rightarrow> alkanes_envelope \<Rightarrow> byte list \<Rightarrow> byte list \<Rightarrow>
   byte list list dres" where
  "create_complete_witness gzip script_bytes e signature control_block =
     (let witness = [signature, script_bytes (build_reveal_script gzip e), control_block]
      in if length witness \<noteq> 3
         then Inl (Other (''Invalid complete witness length: expected 3 items (signature + script + control_block), got '' @
                dec_string (length witness)))
         else dbind (empty_item 0 witness) (\<lambda>_. Inr witness))"

subsection \<open>Reading the payload\<close>

text \<open>What an indexer reads from a reveal script: the pushes after the protocol id and the empty tag.\<close>

fun pushes :: "script_item list \<Rightarrow> byte list list option" where
  "pushes [Op op] = (if op = ''OP_ENDIF'' then Some [] else None)"
| "pushes (Push bs # items) = map_option ((#) bs) (pushes items)"
| "pushes _ = None"

definition envelope_body :: "script_item list \<Rightarrow> byte list option" where
  "envelope_body script =
     (case script of
        Op f # Op i # Push protocol # Push tag # items \<Rightarrow>
          if f = ''OP_FALSE'' \<and> i = ''OP_IF'' \<and> protocol = alkanes_protocol_id \<and> tag = body_tag
          then map_option concat (pushes items) else None
      | _ \<Rightarrow> None)"

lemma pushes_map: "pushes (map Push cs @ [Op ''OP_ENDIF'']) = Some cs"
  by (induction cs) (auto split: list.splits)

text \<open>
  The envelope.  The body of the reveal script, read back from its pushes, is the compressed
  payload, or the payload itself when the compression fails; no push exceeds the 520 bytes of a script
  element; the witness has the three items, unless one of them is empty.
\<close>

theorem envelope_round_trip:
  "envelope_body (build_reveal_script gzip e) =
     Some (case gzip (en_payload e) of Inr compressed \<Rightarrow> compressed | Inl err \<Rightarrow> en_payload e) \<and>
   (\<forall>item \<in> set (build_reveal_script gzip e). case item of Push bs \<Rightarrow> length bs \<le> 520 | Op op \<Rightarrow> True) \<and>
   create_complete_witness gzip script_bytes e signature control =
     (if signature = [] then Inl (Other ''Witness item 0 is empty'')
      else if script_bytes (build_reveal_script gzip e) = [] then Inl (Other ''Witness item 1 is empty'')
      else if control = [] then Inl (Other ''Witness item 2 is empty'')
      else Inr [signature, script_bytes (build_reveal_script gzip e), control])"
proof (intro conjI)
  show "envelope_body (build_reveal_script gzip e) =
     Some (case gzip (en_payload e) of Inr compressed \<Rightarrow> compressed | Inl err \<Rightarrow> en_payload e)"
    by (simp add: build_reveal_script_def envelope_body_def pushes_map concat_chunks max_script_element_size_def)
  show "\<forall>item \<in> set (build_reveal_script gzip e). case item of Push bs \<Rightarrow> length bs \<le> 520 | Op op \<Rightarrow> True"
    using chunks_length [of _ 520]
    by (auto simp: build_reveal_script_def alkanes_protocol_id_def body_tag_def max_script_element_size_def Let_def)
qed (simp add: create_complete_witness_def dec_string.simps digit_char_def)

end
