(* ===== verification/Execute.thy ===== *)
theory Execute
  imports Spec_Parsing Wallet Runestone Envelope
begin

text \<open>
  The executor of alkanes transactions (\<open>alkanes/execute.rs\<close>): validation of the specifications,
  outputs, selection of UTXOs, conversion to protostones, the PSBT with its fee and change, the
  commit/reveal pair for a deployment, and the states between which the user signs.  The sizes of
  transactions, the encodings of protostones and runestones, taproot and signing
  belong to other crates or to the wallet's secrets and are parameters; the previews, the analysis and
  the inspection that accompany a state are left out.
\<close>

subsection \<open>Data and parameters\<close>

record 'c execute_params =
  ep_fee_rate :: "fp option"
  ep_to :: "string list"
  ep_from :: "string list option"
  ep_change :: "string option"
  ep_inputs :: "input_requirement list"
  ep_protostones :: "'c protostone_spec list"
  ep_envelope :: "byte list option"
  ep_raw_output :: bool
  ep_trace :: bool
  ep_mine :: bool
  ep_auto_confirm :: bool

record psbt =
  ps_tx :: unsigned_tx
  ps_utxos :: "tx_out list"
  ps_keys :: "string option list"
  ps_script_spend :: "script_item list option"

record signed_tx =
  sg_hex :: string
  sg_txid :: string
  sg_tx :: unsigned_tx

text \<open>
  \<open>tx_vsize\<close> takes the sizes of the placeholder witnesses; \<open>runestone_script\<close> is the script of a
  runestone with the given protocol field; \<open>gzip\<close> compresses the payload of the envelope;
  \<open>commit_script\<close> is the script of the P2TR address with the reveal script as its leaf;
  \<open>signed_of\<close> is \<open>sign_psbt\<close> with the extraction of the signed transaction, \<open>answer\<close> the line that the
  user types.  \<open>logged_runestone\<close> is \<open>format_runestone_with_decoded_messages\<close> (theory \<open>Runestone\<close>) on the
  transaction with a hex; its result is only logged, but it may panic.
\<close>

record ('x, 'c) exec_libs = "'x wallet_libs" +
  tx_vsize :: "(outpoint \<times> nat) list \<Rightarrow> tx_out list \<Rightarrow> nat"
  op_return_script :: "script \<Rightarrow> bool"
  p2tr_script :: "script \<Rightarrow> bool"
  cellpack_bytes :: "'c \<Rightarrow> byte list"
  stone_integers :: "stone \<Rightarrow> u128 list dres"
  varint_list_bytes :: "u128 list \<Rightarrow> byte list"
  split_bytes :: "byte list \<Rightarrow> u128 list"
  runestone_script :: "u128 list \<Rightarrow> script"
  internal_key :: "string dres"
  gzip :: "byte list \<Rightarrow> byte list dres"
  commit_script :: "script_item list \<Rightarrow> string \<Rightarrow> script dres"
  signed_of :: "psbt \<Rightarrow> signed_tx dres"
  answer :: string
  trace_answer :: "nat \<Rightarrow> string \<Rightarrow> u32 \<Rightarrow> json dres"
  outputs_of_hex :: "string \<Rightarrow> tx_out list dres"
  logged_runestone :: "string \<Rightarrow> json res"
  show_debug :: "json \<Rightarrow> string"

definition max_fee_sats :: u64 where
  "max_fee_sats = 100000"

definition dust_limit :: u64 where
  "dust_limit = 546"

subsection \<open>Validation\<close>

definition invalid :: "string \<Rightarrow> 'a dres" where
  "invalid msg = Inl (Validation msg)"

definition check_forward :: "nat \<Rightarrow> protostone_edict \<Rightarrow> unit dres" where
  "check_forward i e =
     (case pe_target e of
        Protostone_target t \<Rightarrow>
          if t \<le> (of_nat i :: u32)
          then invalid (''Protostone '' @ dec_string i @ '' refers to protostone '' @ to_string t @
                 '' which is not allowed (must be > '' @ dec_string i @ '')'')
          else Inr ()
      | _ \<Rightarrow> Inr ())"

definition check_transfer :: "nat \<Rightarrow> bitcoin_transfer option \<Rightarrow> unit dres" where
  "check_transfer i t =
     (case t of
        Some transfer \<Rightarrow>
          (case tr_target transfer of
             Protostone_target _ \<Rightarrow> invalid (''Bitcoin transfer in protostone '' @ dec_string i @ '' cannot target another protostone'')
           | _ \<Rightarrow> Inr ())
      | None \<Rightarrow> Inr ())"

definition check_range :: "nat \<Rightarrow> nat \<Rightarrow> nat \<Rightarrow> protostone_edict \<Rightarrow> unit dres" where
  "check_range num_protostones num_outputs i e =
     (case pe_target e of
        Output_target v \<Rightarrow>
          if num_outputs \<le> unat v
          then invalid (''Edict in protostone '' @ dec_string i @ '' targets output v'' @ to_string v @
                 '' but only '' @ dec_string num_outputs @ '' outputs exist'')
          else Inr ()
      | Protostone_target t \<Rightarrow>
          if num_protostones \<le> unat t
          then invalid (''Edict in protostone '' @ dec_string i @ '' targets protostone p'' @ to_string t @
                 '' but only '' @ dec_string num_protostones @ '' protostones exist'')
          else Inr ()
      | Split_target \<Rightarrow> Inr ())"

fun check_all :: "('a \<Rightarrow> unit dres) \<Rightarrow> 'a list \<Rightarrow> unit dres" where
  "check_all f [] = Inr ()"
| "check_all f (x # xs) = dbind (f x) (\<lambda>_. check_all f xs)"

definition validate_protostones :: "'c protostone_spec list \<Rightarrow> nat \<Rightarrow> unit dres" where
  "validate_protostones specs num_outputs =
     check_all (\<lambda>(i, p).
       dbind (check_all (check_forward i) (sp_edicts p)) (\<lambda>_.
       dbind (check_transfer i (sp_transfer p)) (\<lambda>_.
         check_all (check_range (length specs) num_outputs i) (sp_edicts p))))
     (enumerate 0 specs)"

definition validate_envelope_cellpack_usage :: "'c execute_params \<Rightarrow> unit dres" where
  "validate_envelope_cellpack_usage params =
     (let has_envelope = (ep_envelope params \<noteq> None);
          has_cellpacks = (\<exists>p \<in> set (ep_protostones params). sp_cellpack p \<noteq> None)
      in if has_envelope \<and> \<not> has_cellpacks
         then Inl (Other ''Incomplete deployment: Envelope provided but no cellpack to trigger deployment.'')
         else if \<not> has_envelope \<and> has_cellpacks then Inr ()
         else if \<not> has_envelope \<and> \<not> has_cellpacks \<and> ep_protostones params \<noteq> []
         then Inl (Other ''No operation: Protostones provided without envelope or cellpack.'')
         else Inr ())"

subsection \<open>Inputs and outputs\<close>

definition bitcoin_amounts :: "input_requirement list \<Rightarrow> u64 list" where
  "bitcoin_amounts rs = List.map_filter (\<lambda>r. case r of Bitcoin_input a \<Rightarrow> Some a | _ \<Rightarrow> None) rs"

text \<open>The amounts of alkanes are summed up per id in the source, and the sums are not used.\<close>

fun take_outpoints :: "u64 \<Rightarrow> u64 \<Rightarrow> (outpoint \<times> utxo_info) list \<Rightarrow> outpoint list \<times> u64" where
  "take_outpoints needed collected [] = ([], collected)"
| "take_outpoints needed collected ((outpoint, u) # us) =
     (if collected < needed
      then (case take_outpoints needed (collected + ut_amount u) us of (ops, c) \<Rightarrow> (outpoint # ops, c))
      else ([], collected))"

definition select_utxos ::
  "('x, 'c) exec_libs \<Rightarrow> backend \<Rightarrow> concrete_provider \<Rightarrow> keystore option \<Rightarrow> input_requirement list \<Rightarrow>
   string list option \<Rightarrow> outpoint list dact" where
  "select_utxos xl b p ks requirements from_addresses =
     dact_bind (get_utxos (wallet_libs.truncate xl) b p ks from_addresses) (\<lambda>utxos.
       let needed = sum_list (bitcoin_amounts requirements);
           (selected, collected) = take_outpoints needed 0 (filter (\<lambda>(op, u). \<not> ut_frozen u) utxos)
       in if collected < needed
          then dact_fault (Failure (Wallet (''Insufficient funds: need '' @ to_string needed @ '' sats, have '' @ to_string collected)))
          else dact_return selected)"

definition output_to :: "('x, 'c) exec_libs \<Rightarrow> concrete_provider \<Rightarrow> u64 \<Rightarrow> string \<Rightarrow> tx_out dres" where
  "output_to xl p amount addr =
     dbind (script_of xl (get_network p) addr) (\<lambda>s. Inr \<lparr>to_amount = amount, to_script_pubkey = s\<rparr>)"

fun dres_map :: "('a \<Rightarrow> 'b dres) \<Rightarrow> 'a list \<Rightarrow> 'b list dres" where
  "dres_map f [] = Inr []"
| "dres_map f (x # xs) = dbind (f x) (\<lambda>y. dbind (dres_map f xs) (\<lambda>ys. Inr (y # ys)))"

definition create_outputs ::
  "('x, 'c) exec_libs \<Rightarrow> concrete_provider \<Rightarrow> string list \<Rightarrow> string option \<Rightarrow> input_requirement list \<Rightarrow> tx_out list dres" where
  "create_outputs xl p to_addresses change_address input_requirements =
     (let total_explicit = sum_list (bitcoin_amounts input_requirements)
      in if 0 < total_explicit \<and> to_addresses = []
         then invalid ''Bitcoin input requirement provided but no recipient addresses.''
         else let per_recipient = (if 0 < total_explicit then total_explicit div of_nat (length to_addresses) else dust_limit)
              in dbind (dres_map (output_to xl p (max per_recipient dust_limit)) to_addresses) (\<lambda>outputs.
                 case change_address of
                   None \<Rightarrow> Inr outputs
                 | Some addr \<Rightarrow> dbind (output_to xl p 0 addr) (\<lambda>change. Inr (outputs @ [change]))))"

subsection \<open>The runestone\<close>

definition convert_edict :: "protostone_edict \<Rightarrow> edict" where
  "convert_edict e =
     \<lparr>ed_block = ucast (fst (pe_alkane e)), ed_tx = ucast (snd (pe_alkane e)), ed_amount = ucast (pe_amount e),
      ed_output = (case pe_target e of Output_target v \<Rightarrow> ucast v | _ \<Rightarrow> 0)\<rparr>"

definition convert_protostone_spec :: "('x, 'c) exec_libs \<Rightarrow> 'c protostone_spec \<Rightarrow> stone" where
  "convert_protostone_spec xl spec =
     \<lparr>st_protocol_tag = 2,
      st_message = (case sp_cellpack spec of Some c \<Rightarrow> cellpack_bytes xl c | None \<Rightarrow> []),
      st_burn = None, st_refund = None,
      st_pointer = map_option (\<lambda>t. case tr_target t of Output_target v \<Rightarrow> v | _ \<Rightarrow> 0) (sp_transfer spec),
      st_from = None, st_edicts = map convert_edict (sp_edicts spec)\<rparr>"

text \<open>\<open>Protostones::encipher\<close> of \<open>utils/protostone.rs\<close>.\<close>

definition encipher_protostones :: "('x, 'c) exec_libs \<Rightarrow> stone list \<Rightarrow> u128 list dres" where
  "encipher_protostones xl stones =
     dbind (dres_map (\<lambda>st. dbind (stone_integers xl st) (\<lambda>varints.
         Inr (st_protocol_tag st # of_nat (length varints) # varints))) stones) (\<lambda>values.
       Inr (split_bytes xl (varint_list_bytes xl (concat values))))"

definition construct_runestone_script :: "('x, 'c) exec_libs \<Rightarrow> 'c protostone_spec list \<Rightarrow> script dres" where
  "construct_runestone_script xl specs =
     dbind (encipher_protostones xl (map (convert_protostone_spec xl) specs)) (\<lambda>protocol.
       Inr (runestone_script xl protocol))"

subsection \<open>Fee, change and PSBT\<close>

definition input_of ::
  "('x, 'c) exec_libs \<Rightarrow> backend \<Rightarrow> concrete_provider \<Rightarrow> outpoint \<Rightarrow> tx_out dact" where
  "input_of xl b p outpoint =
     dact_bind (get_utxo (wallet_libs.truncate xl) b p outpoint) (\<lambda>u.
       case u of Some out \<Rightarrow> dact_return out
       | None \<Rightarrow> dact_fault (Failure (Wallet (''UTXO not found: '' @ fst outpoint @ '':'' @ to_string (snd outpoint)))))"

definition estimated_fee :: "fp option \<Rightarrow> nat \<Rightarrow> u64" where
  "estimated_fee fee_rate vsize =
     fp_to_u64 (fp_ceil (fp_mult binary32 (unwrap_or (Fin 600 0) fee_rate) (fp_of_nat binary32 vsize)))"

definition amounts :: "tx_out list \<Rightarrow> u64" where
  "amounts outs = sum_list (map to_amount outs)"

text \<open>The change goes to the first output of value 0 that is no \<open>OP_RETURN\<close>, else it is added to the
  last output, unless that is an \<open>OP_RETURN\<close>.\<close>

fun first_index :: "('a \<Rightarrow> bool) \<Rightarrow> 'a list \<Rightarrow> nat option" where
  "first_index P [] = None"
| "first_index P (x # xs) = (if P x then Some 0 else map_option Suc (first_index P xs))"

definition add_change :: "(script \<Rightarrow> bool) \<Rightarrow> u64 \<Rightarrow> tx_out list \<Rightarrow> tx_out list" where
  "add_change is_data change outs =
     (case first_index (\<lambda>out. to_amount out = 0 \<and> \<not> is_data (to_script_pubkey out)) outs of
        Some i \<Rightarrow> outs[i := (outs ! i)\<lparr>to_amount := change\<rparr>]
      | None \<Rightarrow>
          if outs = [] \<or> is_data (to_script_pubkey (last outs)) then outs
          else butlast outs @ [(last outs)\<lparr>to_amount := to_amount (last outs) + change\<rparr>])"

definition key_entries :: "('x, 'c) exec_libs \<Rightarrow> tx_out list \<Rightarrow> string option list dres" where
  "key_entries xl utxos =
     dres_map (\<lambda>u. if p2tr_script xl (to_script_pubkey u)
       then dbind (internal_key xl) (\<lambda>key. Inr (Some key)) else Inr None) utxos"

definition build_psbt_and_fee ::
  "('x, 'c) exec_libs \<Rightarrow> backend \<Rightarrow> concrete_provider \<Rightarrow> outpoint list \<Rightarrow> tx_out list \<Rightarrow> script \<Rightarrow> fp option \<Rightarrow> bool \<Rightarrow>
   (psbt \<times> u64) dact" where
  "build_psbt_and_fee xl b p utxos outputs script fee_rate has_envelope =
     (let outs = outputs @ (if script = [] then [] else [\<lparr>to_amount = 0, to_script_pubkey = script\<rparr>])
      in dact_bind (dact_map (input_of xl b p) utxos) (\<lambda>txouts.
         let witnesses = map (\<lambda>(i, op). (op, if has_envelope \<and> i = 0 then 400 else 65)) (enumerate 0 utxos);
             capped_fee = min (estimated_fee fee_rate (tx_vsize xl witnesses outs)) max_fee_sats;
             change = saturating_sub (saturating_sub (amounts txouts) (amounts outs)) capped_fee
         in dact_bind (dact_lift (key_entries xl txouts)) (\<lambda>keys.
              dact_return (\<lparr>ps_tx = \<lparr>ux_inputs = utxos, ux_outputs = add_change (op_return_script xl) change outs\<rparr>,
                ps_utxos = txouts, ps_keys = keys, ps_script_spend = None\<rparr>, capped_fee))))"

text \<open>A transfer sets the amount of the output it targets.\<close>

definition apply_transfer :: "tx_out list \<Rightarrow> 'c protostone_spec \<Rightarrow> tx_out list" where
  "apply_transfer outputs spec =
     (case sp_transfer spec of
        Some t \<Rightarrow>
          (case tr_target t of
             Output_target v \<Rightarrow>
               if unat v < length outputs then outputs[unat v := (outputs ! unat v)\<lparr>to_amount := tr_amount t\<rparr>] else outputs
           | _ \<Rightarrow> outputs)
      | None \<Rightarrow> outputs)"

definition build_single_transaction ::
  "('x, 'c) exec_libs \<Rightarrow> backend \<Rightarrow> concrete_provider \<Rightarrow> keystore option \<Rightarrow> 'c execute_params \<Rightarrow> (psbt \<times> u64) dact" where
  "build_single_transaction xl b p ks params =
     dact_bind (dact_lift (validate_protostones (ep_protostones params) (length (ep_to params)))) (\<lambda>_.
     dact_bind (dact_lift (create_outputs xl p (ep_to params) (ep_change params) (ep_inputs params))) (\<lambda>outputs0.
       let outputs = foldl apply_transfer outputs0 (ep_protostones params);
           needed = amounts outputs;
           requirements = filter (\<lambda>r. case r of Bitcoin_input _ \<Rightarrow> False | _ \<Rightarrow> True) (ep_inputs params) @
             (if 0 < needed then [Bitcoin_input needed] else [])
       in dact_bind (select_utxos xl b p ks requirements (ep_from params)) (\<lambda>selected.
          dact_bind (dact_lift (construct_runestone_script xl (ep_protostones params))) (\<lambda>script.
            build_psbt_and_fee xl b p selected outputs script (ep_fee_rate params) False))))"

subsection \<open>Commit and reveal\<close>

definition required_reveal_amount :: "'c execute_params \<Rightarrow> u64" where
  "required_reveal_amount params =
     546 + sum_list (bitcoin_amounts (ep_inputs params)) + 50000 + of_nat (length (ep_to params)) * 546"

definition build_commit_psbt ::
  "('x, 'c) exec_libs \<Rightarrow> backend \<Rightarrow> concrete_provider \<Rightarrow> keystore option \<Rightarrow> outpoint list \<Rightarrow> tx_out \<Rightarrow> fp option \<Rightarrow>
   (psbt \<times> u64) dact" where
  "build_commit_psbt xl b p ks funding commit_output fee_rate =
     dact_bind (dact_map (input_of xl b p) funding) (\<lambda>txouts.
     dact_bind (dact_lift (get_address (wallet_libs.truncate xl) p ks)) (\<lambda>change_address.
     dact_bind (dact_lift (script_of xl (get_network p) change_address)) (\<lambda>change_script.
       let sized = [commit_output, \<lparr>to_amount = 0, to_script_pubkey = change_script\<rparr>];
           fee = estimated_fee fee_rate (tx_vsize xl (map (\<lambda>op. (op, 65)) funding) sized);
           change = saturating_sub (saturating_sub (amounts txouts) (to_amount commit_output)) fee
       in if change < 546 then dact_fault (Failure (Wallet ''Not enough funds for commit and change''))
          else dact_bind (dact_lift (key_entries xl txouts)) (\<lambda>keys.
            dact_return (\<lparr>ps_tx = \<lparr>ux_inputs = funding,
                ux_outputs = [commit_output, \<lparr>to_amount = change, to_script_pubkey = change_script\<rparr>]\<rparr>,
              ps_utxos = txouts, ps_keys = keys, ps_script_spend = None\<rparr>, fee)))))"

definition build_reveal_psbt ::
  "('x, 'c) exec_libs \<Rightarrow> backend \<Rightarrow> concrete_provider \<Rightarrow> keystore option \<Rightarrow> 'c execute_params \<Rightarrow> alkanes_envelope \<Rightarrow>
   outpoint \<Rightarrow> u64 \<Rightarrow> string \<Rightarrow> (psbt \<times> u64) dact" where
  "build_reveal_psbt xl b p ks params envelope commit_outpoint commit_value commit_key =
     dact_bind (dact_lift (validate_protostones (ep_protostones params) (length (ep_to params)))) (\<lambda>_.
       let needed = of_nat (length (ep_to params)) * dust_limit + sum_list (bitcoin_amounts (ep_inputs params)) + 50000
       in dact_bind (if commit_value < needed
           then select_utxos xl b p ks [Bitcoin_input (needed - commit_value)] (ep_from params)
           else dact_return []) (\<lambda>additional.
          dact_bind (dact_lift (create_outputs xl p (ep_to params) (ep_change params) (ep_inputs params))) (\<lambda>outputs.
          dact_bind (dact_lift (construct_runestone_script xl (ep_protostones params))) (\<lambda>script.
          dact_bind (build_psbt_and_fee xl b p (commit_outpoint # additional) outputs script (ep_fee_rate params) True)
            (\<lambda>(psbt, fee).
              dact_return (psbt\<lparr>ps_keys := Some commit_key # tl (ps_keys psbt),
                ps_script_spend := Some (build_reveal_script (gzip xl) envelope)\<rparr>, fee))))))"

record execute_result =
  er_commit_txid :: "string option"
  er_reveal_txid :: string
  er_commit_fee :: "u64 option"
  er_reveal_fee :: u64
  er_inputs :: "outpoint list"
  er_outputs :: "tx_out list"
  er_traces :: "json list option"

text \<open>The states between which the user signs; no operation gives the last one.\<close>

datatype 'c execution_state =
    Ready_to_sign psbt u64
  | Ready_to_sign_commit psbt u64 u64 "'c execute_params" alkanes_envelope string
  | Ready_to_sign_reveal psbt u64 string u64 "'c execute_params" string
  | Complete execute_result

definition build_commit_reveal_pattern ::
  "('x, 'c) exec_libs \<Rightarrow> backend \<Rightarrow> concrete_provider \<Rightarrow> keystore option \<Rightarrow> 'c execute_params \<Rightarrow> alkanes_envelope \<Rightarrow>
   'c execution_state dact" where
  "build_commit_reveal_pattern xl b p ks params envelope =
     dact_bind (dact_lift (internal_key xl)) (\<lambda>key.
     dact_bind (dact_lift (commit_script xl (build_reveal_script (gzip xl) envelope) key)) (\<lambda>script.
       let amount = required_reveal_amount params
       in dact_bind (select_utxos xl b p ks [Bitcoin_input amount] (ep_from params)) (\<lambda>funding.
          dact_bind (build_commit_psbt xl b p ks funding \<lparr>to_amount = amount, to_script_pubkey = script\<rparr> (ep_fee_rate params))
            (\<lambda>(psbt, fee). dact_return (Ready_to_sign_commit psbt fee amount params envelope key)))))"

definition execute ::
  "('x, 'c) exec_libs \<Rightarrow> backend \<Rightarrow> concrete_provider \<Rightarrow> keystore option \<Rightarrow> 'c execute_params \<Rightarrow> 'c execution_state dact" where
  "execute xl b p ks params =
     dact_bind (dact_lift (validate_envelope_cellpack_usage params)) (\<lambda>_.
       case ep_envelope params of
         Some envelope_data \<Rightarrow> build_commit_reveal_pattern xl b p ks params (for_contract envelope_data)
       | None \<Rightarrow> dact_bind (build_single_transaction xl b p ks params) (\<lambda>(psbt, fee).
           dact_return (Ready_to_sign psbt fee)))"

subsection \<open>Signing, broadcasting, tracing\<close>

definition confirm :: "('x, 'c) exec_libs \<Rightarrow> bool \<Rightarrow> unit dact" where
  "confirm xl auto_confirm =
     (if auto_confirm \<or> to_ascii_lowercase (trim (answer xl)) \<in> {''y'', ''yes''} then dact_return ()
      else dact_fault (Failure (Other ''Transaction cancelled by user'')))"

definition mine_blocks_if_regtest ::
  "('x, 'c) exec_libs \<Rightarrow> backend \<Rightarrow> concrete_provider \<Rightarrow> keystore option \<Rightarrow> 'c execute_params \<Rightarrow> unit dact" where
  "mine_blocks_if_regtest xl b p ks params =
     (if get_network p = Regtest
      then dact_bind (case ep_change params of Some a \<Rightarrow> dact_return a
          | None \<Rightarrow> dact_lift (get_address (wallet_libs.truncate xl) p ks)) (\<lambda>address.
        dact_bind (request (\<lambda>n. generate_to_address b p n 1 address)) (\<lambda>_. dact_return ()))
      else dact_return ())"

definition mine_and_sync ::
  "('x, 'c) exec_libs \<Rightarrow> backend \<Rightarrow> concrete_provider \<Rightarrow> keystore option \<Rightarrow> 'c execute_params \<Rightarrow> unit dact" where
  "mine_and_sync xl b p ks params =
     (if ep_mine params then dact_bind (mine_blocks_if_regtest xl b p ks params) (\<lambda>_. sync b p) else dact_return ())"

text \<open>A failed trace is left out; the virtual outputs follow the outputs of the transaction.\<close>

definition trace_reveal_transaction ::
  "('x, 'c) exec_libs \<Rightarrow> backend \<Rightarrow> concrete_provider \<Rightarrow> string \<Rightarrow> 'c execute_params \<Rightarrow> json list option dact" where
  "trace_reveal_transaction xl b p txid params =
     dact_bind (request (\<lambda>n. get_transaction_hex b p n txid)) (\<lambda>tx_hex.
     dact_bind (dact_lift (outputs_of_hex xl tx_hex)) (\<lambda>outputs.
     dact_bind (case logged_runestone xl tx_hex of
         Inl (Panic msg) \<Rightarrow> dact_fault (Abort msg) | _ \<Rightarrow> dact_return ()) (\<lambda>_.
     dact_bind (dact_map (\<lambda>i. attempt_request (\<lambda>n.
         trace_answer xl n txid (of_nat (length outputs) + 1 + of_nat i))) [0 ..< length (ep_protostones params)]) (\<lambda>answers.
       let traces = List.map_filter (\<lambda>r. case r of Inr v \<Rightarrow> Some v | Inl e \<Rightarrow> None) answers
       in dact_return (if traces = [] then None else Some traces)))))"

definition sign_and_broadcast ::
  "('x, 'c) exec_libs \<Rightarrow> backend \<Rightarrow> concrete_provider \<Rightarrow> psbt \<Rightarrow> (signed_tx \<times> string) dact" where
  "sign_and_broadcast xl b p psbt =
     dact_bind (dact_lift (signed_of xl psbt)) (\<lambda>tx.
     dact_bind (request (\<lambda>n. send_raw_transaction (show_debug xl) b p n (sg_hex tx))) (\<lambda>txid.
       dact_return (tx, txid)))"

definition finish_execution ::
  "('x, 'c) exec_libs \<Rightarrow> backend \<Rightarrow> concrete_provider \<Rightarrow> keystore option \<Rightarrow> 'c execute_params \<Rightarrow> psbt \<Rightarrow> u64 \<Rightarrow>
   (string \<times> u64) option \<Rightarrow> execute_result dact" where
  "finish_execution xl b p ks params psbt fee commit =
     dact_bind (confirm xl (ep_auto_confirm params)) (\<lambda>_.
     dact_bind (sign_and_broadcast xl b p psbt) (\<lambda>(tx, txid).
     dact_bind (mine_and_sync xl b p ks params) (\<lambda>_.
     dact_bind (if ep_trace params then trace_reveal_transaction xl b p txid params else dact_return None) (\<lambda>traces.
       dact_return \<lparr>er_commit_txid = map_option fst commit, er_reveal_txid = txid,
         er_commit_fee = map_option snd commit, er_reveal_fee = fee,
         er_inputs = ux_inputs (sg_tx tx), er_outputs = ux_outputs (sg_tx tx), er_traces = traces\<rparr>))))"

definition resume_execution ::
  "('x, 'c) exec_libs \<Rightarrow> backend \<Rightarrow> concrete_provider \<Rightarrow> keystore option \<Rightarrow> 'c execute_params \<Rightarrow> psbt \<Rightarrow> u64 \<Rightarrow>
   execute_result dact" where
  "resume_execution xl b p ks params psbt fee = finish_execution xl b p ks params psbt fee None"

definition resume_reveal_execution ::
  "('x, 'c) exec_libs \<Rightarrow> backend \<Rightarrow> concrete_provider \<Rightarrow> keystore option \<Rightarrow> psbt \<Rightarrow> u64 \<Rightarrow> string \<Rightarrow> u64 \<Rightarrow>
   'c execute_params \<Rightarrow> execute_result dact" where
  "resume_reveal_execution xl b p ks psbt fee commit_txid commit_fee params =
     finish_execution xl b p ks params psbt fee (Some (commit_txid, commit_fee))"

definition resume_commit_execution ::
  "('x, 'c) exec_libs \<Rightarrow> backend \<Rightarrow> concrete_provider \<Rightarrow> keystore option \<Rightarrow> psbt \<Rightarrow> u64 \<Rightarrow> u64 \<Rightarrow> 'c execute_params \<Rightarrow>
   alkanes_envelope \<Rightarrow> string \<Rightarrow> 'c execution_state dact" where
  "resume_commit_execution xl b p ks psbt fee amount params envelope key =
     dact_bind (sign_and_broadcast xl b p psbt) (\<lambda>(commit_tx, commit_txid).
     dact_bind (mine_and_sync xl b p ks params) (\<lambda>_.
     dact_bind (build_reveal_psbt xl b p ks params envelope (sg_txid commit_tx, 0) amount key) (\<lambda>(reveal, reveal_fee).
       dact_return (Ready_to_sign_reveal reveal reveal_fee commit_txid fee params key))))"

subsection \<open>What validation accepts\<close>

lemma check_all_Inr: "check_all f xs = Inr () \<longleftrightarrow> (\<forall>x \<in> set xs. f x = Inr ())"
proof (induction xs)
  case (Cons x xs)
  then show ?case by (cases "f x") auto
qed simp

definition target_ok :: "nat \<Rightarrow> nat \<Rightarrow> nat \<Rightarrow> output_target \<Rightarrow> bool" where
  "target_ok num_protostones num_outputs i t \<longleftrightarrow>
     (case t of Output_target v \<Rightarrow> unat v < num_outputs
      | Protostone_target q \<Rightarrow> i < unat q \<and> unat q < num_protostones
      | Split_target \<Rightarrow> True)"

lemma check_edict_ok:
  assumes "i < 2 ^ 32"
  shows "check_forward i e = Inr () \<and> check_range np nout i e = Inr () \<longleftrightarrow> target_ok np nout i (pe_target e)"
proof (cases "pe_target e")
  case (Protostone_target q)
  have "q \<le> (of_nat i :: u32) \<longleftrightarrow> unat q \<le> i"
    using assms by (simp add: word_le_nat_alt unat_of_nat take_bit_nat_eq_self)
  then show ?thesis
    using Protostone_target by (auto simp: check_forward_def check_range_def target_ok_def invalid_def)
qed (auto simp: check_forward_def check_range_def target_ok_def invalid_def)

lemma check_transfer_ok:
  "check_transfer i t = Inr () \<longleftrightarrow> (\<forall>tr q. t = Some tr \<longrightarrow> tr_target tr \<noteq> Protostone_target q)"
  by (auto simp: check_transfer_def invalid_def split: option.splits output_target.splits)

text \<open>
  C23: validation.  It accepts a list of specifications exactly if every edict goes to an existing
  output, to a later protostone of the list, or to all outputs, and no transfer goes to a protostone:
  the edicts between protostones never form a cycle.
\<close>

theorem validated_protostones:
  assumes "length specs \<le> 2 ^ 32"
  shows "validate_protostones specs num_outputs = Inr () \<longleftrightarrow>
    (\<forall>i < length specs.
       (\<forall>e \<in> set (sp_edicts (specs ! i)). target_ok (length specs) num_outputs i (pe_target e)) \<and>
       (\<forall>t q. sp_transfer (specs ! i) = Some t \<longrightarrow> tr_target t \<noteq> Protostone_target q))"
proof -
  let ?ok = "\<lambda>(i, q). dbind (check_all (check_forward i) (sp_edicts q)) (\<lambda>_. dbind (check_transfer i (sp_transfer q)) (\<lambda>_.
    check_all (check_range (length specs) num_outputs i) (sp_edicts q))) = Inr ()"
  have one: "?ok (i, q) \<longleftrightarrow> (\<forall>e \<in> set (sp_edicts q). target_ok (length specs) num_outputs i (pe_target e)) \<and>
      (\<forall>t r. sp_transfer q = Some t \<longrightarrow> tr_target t \<noteq> Protostone_target r)" if "i < length specs" for i q
  proof -
    have "i < 2 ^ 32" using that assms by linarith
    note edict = check_edict_ok [OF this, of _ "length specs" num_outputs, symmetric]
    have "?ok (i, q) \<longleftrightarrow> check_all (check_forward i) (sp_edicts q) = Inr () \<and> check_transfer i (sp_transfer q) = Inr () \<and>
        check_all (check_range (length specs) num_outputs i) (sp_edicts q) = Inr ()" by (auto simp: dbind_Inr)
    then show ?thesis unfolding check_all_Inr check_transfer_ok edict by blast
  qed
  have "set (enumerate 0 specs) = {(i, specs ! i) |i. i < length specs}"
    by (auto simp: in_set_enumerate_eq)
  then have "validate_protostones specs num_outputs = Inr () \<longleftrightarrow> (\<forall>i < length specs. ?ok (i, specs ! i))"
    unfolding validate_protostones_def check_all_Inr by auto
  also have "\<dots> \<longleftrightarrow> (\<forall>i < length specs.
       (\<forall>e \<in> set (sp_edicts (specs ! i)). target_ok (length specs) num_outputs i (pe_target e)) \<and>
       (\<forall>t q. sp_transfer (specs ! i) = Some t \<longrightarrow> tr_target t \<noteq> Protostone_target q))"
    by (rule all_cong) (rule one)
  finally show ?thesis .
qed

definition example_stone :: "output_target \<Rightarrow> unit protostone_spec" where
  "example_stone t = \<lparr>sp_cellpack = Some (), sp_edicts = [\<lparr>pe_alkane = (2, 1), pe_amount = 5, pe_target = t\<rparr>], sp_transfer = None\<rparr>"

lemma validated_protostones_witness:
  "validate_protostones [example_stone (Protostone_target 1), example_stone (Output_target 0)] 1 = Inr ()"
  using validated_protostones [of "[example_stone (Protostone_target 1), example_stone (Output_target 0)]" 1]
  by (simp add: example_stone_def target_ok_def nth_Cons split: nat.splits)

subsection \<open>Amounts\<close>

lemma dres_map_Inr: "dres_map f xs = Inr ys \<Longrightarrow> list_all2 (\<lambda>x y. f x = Inr y) xs ys"
  by (induction xs arbitrary: ys) (auto simp: dbind_Inr)

lemma first_index_Some: "first_index P xs = Some i \<Longrightarrow> i < length xs \<and> P (xs ! i)"
  by (induction xs arbitrary: i) (auto split: if_splits)

lemma first_index_None: "first_index P xs = None \<longleftrightarrow> (\<forall>x \<in> set xs. \<not> P x)"
  by (induction xs) auto

lemma amounts_of_nat: "amounts outs = of_nat (outputs_sum outs)"
  by (induction outs) (simp_all add: amounts_def)

lemma unat_amounts: "outputs_sum outs < 2 ^ 64 \<Longrightarrow> unat (amounts outs) = outputs_sum outs"
  by (simp add: amounts_of_nat unat_of_nat take_bit_nat_eq_self)

lemma outputs_sum_append [simp]: "outputs_sum (xs @ ys) = outputs_sum xs + outputs_sum ys"
  by (simp add: outputs_sum_def)

lemma outputs_sum_update:
  "i < length outs \<Longrightarrow> to_amount (outs ! i) = 0 \<Longrightarrow>
   outputs_sum (outs[i := (outs ! i)\<lparr>to_amount := c\<rparr>]) = outputs_sum outs + unat c"
  by (induction outs arbitrary: i) (auto simp: nth_Cons split: nat.splits)

text \<open>The amounts after the change: of outputs, an \<open>OP_RETURN\<close> of value 0 at their end.\<close>

lemma add_change_cases:
  assumes "outs = recipients @ change @ [\<lparr>to_amount = 0, to_script_pubkey = script\<rparr>]" "is_data script"
    and "\<forall>r \<in> set recipients. to_amount r \<noteq> 0" "change = [] \<or> (\<exists>s. change = [\<lparr>to_amount = 0, to_script_pubkey = s\<rparr>] \<and> \<not> is_data s)"
  shows "add_change is_data c outs = recipients @ map (\<lambda>out. out\<lparr>to_amount := c\<rparr>) change @ [\<lparr>to_amount = 0, to_script_pubkey = script\<rparr>]"
proof (cases "change = []")
  case True
  then have "first_index (\<lambda>out. to_amount out = 0 \<and> \<not> is_data (to_script_pubkey out)) outs = None"
    using assms by (auto simp: first_index_None)
  then show ?thesis using True assms(1,2) by (simp add: add_change_def)
next
  case False
  then obtain s where s: "change = [\<lparr>to_amount = 0, to_script_pubkey = s\<rparr>]" "\<not> is_data s" using assms(4) by blast
  have "first_index (\<lambda>out. to_amount out = 0 \<and> \<not> is_data (to_script_pubkey out)) (recipients @ change @ ys) = Some (length recipients)" for ys
    using assms(3) s by (induction recipients) auto
  then show ?thesis using s assms(1) by (simp add: add_change_def)
qed

lemma create_outputs_Inr:
  assumes "create_outputs xl p to_addresses change_address requirements = Inr outputs"
    and "length to_addresses < 2 ^ 64"
  shows "\<exists>recipients change. outputs = recipients @ change \<and>
    list_all2 (\<lambda>a r. script_of xl (get_network p) a = Inr (to_script_pubkey r)) to_addresses recipients \<and>
    (\<forall>r \<in> set recipients. 546 \<le> unat (to_amount r)) \<and>
    outputs_sum recipients \<le> unat (sum_list (bitcoin_amounts requirements)) + 546 * length to_addresses \<and>
    (case change_address of None \<Rightarrow> change = []
     | Some a \<Rightarrow> \<exists>s. script_of xl (get_network p) a = Inr s \<and> change = [\<lparr>to_amount = 0, to_script_pubkey = s\<rparr>])"
proof -
  let ?total = "sum_list (bitcoin_amounts requirements)" and ?n = "length to_addresses"
  define per where "per = max (if 0 < ?total then ?total div of_nat ?n else dust_limit) dust_limit"
  obtain rs where rs: "dres_map (output_to xl p per) to_addresses = Inr rs"
    and outputs: "(case change_address of None \<Rightarrow> Inr rs
      | Some addr \<Rightarrow> dbind (output_to xl p 0 addr) (\<lambda>change. Inr (rs @ [change]))) = Inr outputs"
    and some: "\<not> (0 < ?total \<and> to_addresses = [])"
    using assms(1) unfolding create_outputs_def Let_def per_def
    by (auto simp: dbind_Inr invalid_def split: if_splits)
  have all: "list_all2 (\<lambda>a r. output_to xl p per a = Inr r) to_addresses rs" by (rule dres_map_Inr [OF rs])
  have "list_all2 (\<lambda>a r. to_amount r = per) to_addresses rs"
    using all by (rule list_all2_mono) (auto simp: output_to_def dbind_Inr)
  then have per: "r \<in> set rs \<Longrightarrow> to_amount r = per" for r
    by (auto simp: list_all2_conv_all_nth in_set_conv_nth)
  have sum: "outputs_sum rs = ?n * unat per"
  proof -
    have "outputs_sum rs = sum_list (map (\<lambda>r. unat per) rs)"
      unfolding outputs_sum_def using per by (intro arg_cong [of _ _ sum_list] map_cong) auto
    then show ?thesis using list_all2_lengthD [OF all] by (simp add: sum_list_triv)
  qed
  have per_ge: "546 \<le> unat per"
  proof -
    have "dust_limit \<le> per" by (simp add: per_def)
    then show ?thesis by (simp add: dust_limit_def word_le_nat_alt)
  qed
  have "?n * unat per \<le> unat ?total + 546 * ?n"
  proof (cases "0 < ?total")
    case True
    then have n: "0 < ?n" using some by simp
    have "unat (?total div of_nat ?n) = unat ?total div ?n"
      using assms(2) by (simp add: unat_div unat_of_nat take_bit_nat_eq_self)
    then have "unat per = max (unat ?total div ?n) 546"
      using True by (simp add: per_def dust_limit_def max_def word_le_nat_alt)
    then have "?n * unat per \<le> ?n * (unat ?total div ?n) + ?n * 546" by (simp add: max_def)
    moreover have "?n * (unat ?total div ?n) \<le> unat ?total" by simp
    ultimately show ?thesis by linarith
  qed (simp add: per_def dust_limit_def)
  moreover have "list_all2 (\<lambda>a r. script_of xl (get_network p) a = Inr (to_script_pubkey r)) to_addresses rs"
    using all by (rule list_all2_mono) (auto simp: output_to_def dbind_Inr)
  moreover obtain change where "outputs = rs @ change" "case change_address of None \<Rightarrow> change = []
     | Some a \<Rightarrow> \<exists>s. script_of xl (get_network p) a = Inr s \<and> change = [\<lparr>to_amount = 0, to_script_pubkey = s\<rparr>]"
    using outputs by (cases change_address) (auto simp: output_to_def dbind_Inr)
  ultimately show ?thesis using per per_ge sum by (intro exI [of _ rs] exI [of _ change]) auto
qed

text \<open>What a PSBT is built of.\<close>

lemma build_psbt_Inr:
  assumes "build_psbt_and_fee xl b p utxos outputs script fee_rate envelope n = (Inr (psbt, fee), n')"
  shows "\<exists>change. ux_inputs (ps_tx psbt) = utxos \<and> fee \<le> max_fee_sats \<and>
    list_all2 (\<lambda>op out. \<exists>k k'. get_utxo (wallet_libs.truncate xl) b p op k = (Inr (Some out), k')) utxos (ps_utxos psbt) \<and>
    ux_outputs (ps_tx psbt) = add_change (op_return_script xl) change
      (outputs @ (if script = [] then [] else [\<lparr>to_amount = 0, to_script_pubkey = script\<rparr>])) \<and>
    change = saturating_sub (saturating_sub (amounts (ps_utxos psbt)) (amounts outputs)) fee \<and>
    length (ps_keys psbt) = length utxos"
proof -
  obtain txouts k keys where run: "dact_map (input_of xl b p) utxos n = (Inr txouts, k)"
    "key_entries xl txouts = Inr keys"
    and psbt: "ux_inputs (ps_tx psbt) = utxos" "ps_utxos psbt = txouts" "ps_keys psbt = keys" "fee \<le> max_fee_sats"
      "ux_outputs (ps_tx psbt) = add_change (op_return_script xl)
        (saturating_sub (saturating_sub (amounts txouts) (amounts outputs)) fee)
        (outputs @ (if script = [] then [] else [\<lparr>to_amount = 0, to_script_pubkey = script\<rparr>]))"
    using assms unfolding build_psbt_and_fee_def Let_def
    by (auto simp: dact_bind_Inr amounts_def split: if_splits)
  have "list_all2 (\<lambda>op out. \<exists>k k'. get_utxo (wallet_libs.truncate xl) b p op k = (Inr (Some out), k')) utxos txouts"
    using dact_map_Inr [OF run(1)]
    by (rule list_all2_mono) (auto simp: input_of_def dact_bind_Inr split: option.splits)
  moreover have "length keys = length utxos"
    using list_all2_lengthD [OF dact_map_Inr [OF run(1)]]
      list_all2_lengthD [OF dres_map_Inr [OF run(2) [unfolded key_entries_def]]] by simp
  ultimately show ?thesis using psbt by blast
qed


text \<open>What a built transaction pays: one output per recipient, the change, and the runestone.  The
  change balances the transaction when the inputs cover the recipients and the fee that is
  reported; otherwise it is zero.  Without a change address there is none.\<close>

definition pays_out ::
  "('x, 'c) exec_libs \<Rightarrow> concrete_provider \<Rightarrow> 'c execute_params \<Rightarrow> psbt \<Rightarrow> u64 \<Rightarrow> bool" where
  "pays_out xl p params psbt fee \<longleftrightarrow>
     (\<exists>recipients change script.
        ux_outputs (ps_tx psbt) = recipients @ change @ [\<lparr>to_amount = 0, to_script_pubkey = script\<rparr>] \<and>
        construct_runestone_script xl (ep_protostones params) = Inr script \<and>
        list_all2 (\<lambda>a r. script_of xl (get_network p) a = Inr (to_script_pubkey r) \<and> 546 \<le> unat (to_amount r))
          (ep_to params) recipients \<and>
        outputs_sum recipients \<le> unat (sum_list (bitcoin_amounts (ep_inputs params))) + 546 * length (ep_to params) \<and>
        (case ep_change params of
           None \<Rightarrow> change = []
         | Some a \<Rightarrow> \<exists>c. change = [c] \<and> script_of xl (get_network p) a = Inr (to_script_pubkey c) \<and>
             (if outputs_sum recipients + unat fee \<le> outputs_sum (ps_utxos psbt)
              then outputs_sum (ux_outputs (ps_tx psbt)) + unat fee = outputs_sum (ps_utxos psbt)
              else to_amount c = 0)))"

lemma build_psbt_pays_out:
  assumes created: "create_outputs xl p (ep_to params) (ep_change params) (ep_inputs params) = Inr outs"
    and stone: "construct_runestone_script xl (ep_protostones params) = Inr script"
    and built: "build_psbt_and_fee xl b p utxos outs script fee_rate envelope k = (Inr (psbt, fee), k')"
    and scripts: "\<And>protocol. op_return_script xl (runestone_script xl protocol)" "\<not> op_return_script xl []"
      "\<And>a s. script_of xl (get_network p) a = Inr s \<Longrightarrow> \<not> op_return_script xl s"
    and bounds: "unat (sum_list (bitcoin_amounts (ep_inputs params))) + 546 * length (ep_to params) < 2 ^ 64"
      "outputs_sum (ps_utxos psbt) < 2 ^ 64"
  shows "pays_out xl p params psbt fee"
proof -
  obtain change where psbt:
    "ux_outputs (ps_tx psbt) = add_change (op_return_script xl) change
      (outs @ (if script = [] then [] else [\<lparr>to_amount = 0, to_script_pubkey = script\<rparr>]))"
    "change = saturating_sub (saturating_sub (amounts (ps_utxos psbt)) (amounts outs)) fee"
    using build_psbt_Inr [OF built] by blast
  have data: "op_return_script xl script"
    using stone scripts(1) by (auto simp: construct_runestone_script_def dbind_Inr)
  then have "script \<noteq> []" using scripts(2) by auto
  obtain rs cs where outs: "outs = rs @ cs"
    "list_all2 (\<lambda>a r. script_of xl (get_network p) a = Inr (to_script_pubkey r)) (ep_to params) rs"
    "\<forall>r \<in> set rs. 546 \<le> unat (to_amount r)"
    "outputs_sum rs \<le> unat (sum_list (bitcoin_amounts (ep_inputs params))) + 546 * length (ep_to params)"
    "case ep_change params of None \<Rightarrow> cs = []
     | Some a \<Rightarrow> \<exists>s. script_of xl (get_network p) a = Inr s \<and> cs = [\<lparr>to_amount = 0, to_script_pubkey = s\<rparr>]"
    using create_outputs_Inr [OF created] bounds(1) by fastforce
  have cs: "cs = [] \<or> (\<exists>s. cs = [\<lparr>to_amount = 0, to_script_pubkey = s\<rparr>] \<and> \<not> op_return_script xl s)"
    using outs(5) scripts(3) by (auto split: option.splits)
  then have sum_cs: "outputs_sum cs = 0" by auto
  have final: "ux_outputs (ps_tx psbt) =
      rs @ map (\<lambda>out. out\<lparr>to_amount := change\<rparr>) cs @ [\<lparr>to_amount = 0, to_script_pubkey = script\<rparr>]"
    unfolding psbt(1) by (rule add_change_cases) (use outs(1,3) data \<open>script \<noteq> []\<close> cs in auto)
  have change: "unat change = outputs_sum (ps_utxos psbt) - outputs_sum rs - unat fee"
    using bounds outs(1,4) sum_cs by (simp add: psbt(2) unat_saturating_sub unat_amounts)
  have "list_all2 (\<lambda>a r. script_of xl (get_network p) a = Inr (to_script_pubkey r) \<and> 546 \<le> unat (to_amount r))
      (ep_to params) rs"
    using outs(2,3) by (auto simp: list_all2_conv_all_nth)
  moreover have "to_amount c = 0" if "outputs_sum (ps_utxos psbt) < outputs_sum rs + unat fee" "to_amount c = change" for c
    using that change by (simp add: unat_eq_zero)
  ultimately show ?thesis
    unfolding pays_out_def using final stone outs(4,5) change
    by (intro exI [of _ rs] exI [of _ "map (\<lambda>out. out\<lparr>to_amount := change\<rparr>) cs"] exI [of _ script])
      (auto simp: unat_eq_zero split: option.splits)
qed

text \<open>
  C24: the single transaction, for specifications without a transfer (none is ever read from text).
  Its outputs are one for every recipient, to its address and of at least the dust limit, the change,
  and the runestone.  The fee that is reported is at most 100000.  With a change address the outputs
  and the reported fee add up to the inputs, provided these cover the recipients and the fee; when
  they do not, the change is zero, and the fee paid is what the inputs leave.  Without a change
  address everything that the recipients do not get is paid as the fee, whatever was reported.
\<close>

theorem single_transaction_balances:
  assumes run: "build_single_transaction xl b p ks params n = (Inr (psbt, fee), n')"
    and scripts: "\<And>protocol. op_return_script xl (runestone_script xl protocol)" "\<not> op_return_script xl []"
      "\<And>a s. script_of xl (get_network p) a = Inr s \<Longrightarrow> \<not> op_return_script xl s"
    and transfers: "\<forall>spec \<in> set (ep_protostones params). sp_transfer spec = None"
    and bounds: "unat (sum_list (bitcoin_amounts (ep_inputs params))) + 546 * length (ep_to params) < 2 ^ 64"
      "outputs_sum (ps_utxos psbt) < 2 ^ 64"
  shows "pays_out xl p params psbt fee \<and> fee \<le> max_fee_sats \<and>
    list_all2 (\<lambda>op out. \<exists>k k'. get_utxo (wallet_libs.truncate xl) b p op k = (Inr (Some out), k'))
      (ux_inputs (ps_tx psbt)) (ps_utxos psbt)"
proof -
  obtain outs utxos script k1 k2 where steps:
    "create_outputs xl p (ep_to params) (ep_change params) (ep_inputs params) = Inr outs"
    "construct_runestone_script xl (ep_protostones params) = Inr script"
    "build_psbt_and_fee xl b p utxos (foldl apply_transfer outs (ep_protostones params)) script (ep_fee_rate params) False k1 =
       (Inr (psbt, fee), k2)"
    using run unfolding build_single_transaction_def Let_def by (auto simp: dact_bind_Inr)
  have "foldl apply_transfer outs specs = outs" if "\<forall>spec \<in> set specs. sp_transfer spec = None" for specs
    using that by (induction specs) (auto simp: apply_transfer_def)
  then have same: "foldl apply_transfer outs (ep_protostones params) = outs" using transfers by blast
  have "pays_out xl p params psbt fee"
    by (rule build_psbt_pays_out [OF steps(1,2) steps(3) [unfolded same] scripts(1,2) _ bounds]) (rule scripts(3))
  with build_psbt_Inr [OF steps(3)] show ?thesis by blast
qed

definition example_exec_libs :: "(unit, unit) exec_libs" where
  "example_exec_libs = \<lparr>xpub_of = (\<lambda>s. Inr ()), p2tr_of = (\<lambda>x nw path. Inr path), script_of = (\<lambda>nw a. Inr [0x51]),
     outpoint_of = (\<lambda>s. Inr (s, 0)), txid_of = Inr, unhex = (\<lambda>s. Inr [0x51]), serialize_hex = (\<lambda>tx. []),
     tx_vsize = (\<lambda>ws outs. 150), op_return_script = (\<lambda>s. s \<noteq> [] \<and> hd s = 0x6A), p2tr_script = (\<lambda>s. False),
     cellpack_bytes = (\<lambda>c. []), stone_integers = (\<lambda>st. Inr []), varint_list_bytes = (\<lambda>ns. []), split_bytes = (\<lambda>bs. []),
     runestone_script = (\<lambda>protocol. [0x6A]), internal_key = Inr ''key'', gzip = (\<lambda>bs. Inr bs),
     commit_script = (\<lambda>e key. Inr [0x51]), signed_of = (\<lambda>ps. Inr \<lparr>sg_hex = [], sg_txid = [], sg_tx = ps_tx ps\<rparr>),
     answer = ''yes'', trace_answer = (\<lambda>n txid vout. Inr JNull), outputs_of_hex = (\<lambda>s. Inr []),
     logged_runestone = (\<lambda>s. Inr JNull), show_debug = (\<lambda>v. [])\<rparr>"

definition funded_backend :: "u64 \<Rightarrow> backend" where
  "funded_backend amount = \<lparr>
     http_post = (\<lambda>n url rpc_method params. Inr (if rpc_method = ''esplora_tx'' then ''tx'' else ''utxo'')),
     http_get = (\<lambda>n url. Inl ''refused''), in_time = (\<lambda>n. True),
     parse_json = (\<lambda>s. Some (JObj [(''result'',
       if s = ''tx'' then JObj [(''vout'', JArr [JObj [(''value'', JNum (PosInt amount)), (''scriptpubkey'', JStr ''51'')]])]
       else JArr [JObj [(''txid'', JStr ''ab''), (''vout'', JNum (PosInt 0)), (''value'', JNum (PosInt amount))]])])),
     show_json = (\<lambda>v. []), body_error = (\<lambda>s. []), http_get_bytes = (\<lambda>n url. Inl ''refused''),
     http_post_text = (\<lambda>n url body. Inl ''refused'')\<rparr>"

lemma funded_utxos:
  "get_utxos (wallet_libs.truncate example_exec_libs) (funded_backend amount) example_wallet_provider ks (Some [''bc1'']) n =
    (Inr [((''ab:0'', 0), \<lparr>ut_txid = ''ab'', ut_vout = 0, ut_amount = amount, ut_address = ''bc1'', ut_script = Some [0x51],
       ut_confirmations = 0, ut_frozen = False, ut_block_height = None\<rparr>)], Suc n)"
    by (simp add: get_utxos_def addresses_to_check_def dact_bind_def dact_lift_def dact_return_def request_def
        get_address_utxo_def esplora_json_def example_wallet_provider_def build_provider_def concrete_provider_new_def
        rpc_call_def decode_response_def result_of_def funded_backend_def utxo_of_def required_def jstr_def
        confirmed_at_def confirmations_of_def example_exec_libs_def wallet_libs.truncate_def Let_def to_string_def dec_string.simps digit_char_def)

lemma funded_utxo:
  "get_utxo (wallet_libs.truncate example_exec_libs) (funded_backend amount) example_wallet_provider (''ab:0'', 0) n =
    (Inr (Some \<lparr>to_amount = amount, to_script_pubkey = [0x51]\<rparr>), Suc n)"
  by (simp add: get_utxo_def dact_bind_def dact_lift_def dact_return_def request_def
        get_tx_def esplora_json_def example_wallet_provider_def build_provider_def concrete_provider_new_def
        rpc_call_def decode_response_def result_of_def funded_backend_def jstr_def
        example_exec_libs_def wallet_libs.truncate_def Let_def)

definition example_execute :: "byte list option \<Rightarrow> string option \<Rightarrow> unit execute_params" where
  "example_execute envelope change = \<lparr>ep_fee_rate = Some (Fin 1 0), ep_to = [''bc2''], ep_from = Some [''bc1''], ep_change = change,
     ep_inputs = [Bitcoin_input 1000], ep_protostones = [example_stone (Output_target 0)], ep_envelope = envelope,
     ep_raw_output = False, ep_trace = True, ep_mine = False, ep_auto_confirm = True\<rparr>"

lemma validate_example: "validate_protostones [example_stone (Output_target 0)] (Suc 0) = Inr ()"
  by (simp add: validate_protostones_def example_stone_def check_forward_def check_transfer_def check_range_def)

lemma example_single:
  "\<exists>psbt fee. build_single_transaction example_exec_libs (funded_backend 5000) example_wallet_provider None
     (example_execute None (Some ''bc3'')) 0 = (Inr (psbt, fee), 2) \<and> ps_utxos psbt = [\<lparr>to_amount = 5000, to_script_pubkey = [0x51]\<rparr>]"
proof -
  let ?out = "\<lambda>amount. \<lparr>to_amount = amount, to_script_pubkey = [0x51]\<rparr>"
  have outputs: "create_outputs example_exec_libs example_wallet_provider [''bc2''] (Some ''bc3'') [Bitcoin_input 1000] =
      Inr [?out 1000, ?out 0]"
    by (simp add: create_outputs_def bitcoin_amounts_def map_filter_simps output_to_def example_exec_libs_def dust_limit_def Let_def)
  have script: "construct_runestone_script example_exec_libs [example_stone (Output_target 0)] = Inr [0x6A]"
    by (simp add: construct_runestone_script_def encipher_protostones_def example_exec_libs_def)
  have select: "select_utxos example_exec_libs (funded_backend 5000) example_wallet_provider None [Bitcoin_input 1000] (Some [''bc1'']) 0 =
      (Inr [(''ab:0'', 0)], 1)"
    by (simp add: select_utxos_def dact_bind_def funded_utxos bitcoin_amounts_def map_filter_simps dact_return_def)
  have sum: "amounts [?out 1000, ?out 0] = 1000" by (simp add: amounts_def)
  have transfer: "apply_transfer outs (example_stone t) = outs" for outs t by (simp add: apply_transfer_def example_stone_def)
  have p2tr: "p2tr_script example_exec_libs s = False" for s by (simp add: example_exec_libs_def)
  show ?thesis
    by (simp add: build_single_transaction_def dact_bind_def dact_lift_def dact_return_def example_execute_def validate_example
        outputs script select sum transfer p2tr build_psbt_and_fee_def input_of_def funded_utxo key_entries_def Let_def)
qed


lemma single_transaction_balances_witness:
  "\<exists>psbt fee. build_single_transaction example_exec_libs (funded_backend 5000) example_wallet_provider None
     (example_execute None (Some ''bc3'')) 0 = (Inr (psbt, fee), 2) \<and>
     pays_out example_exec_libs example_wallet_provider (example_execute None (Some ''bc3'')) psbt fee \<and>
     outputs_sum (ps_utxos psbt) = 5000"
proof -
  obtain psbt fee where run: "build_single_transaction example_exec_libs (funded_backend 5000) example_wallet_provider None
     (example_execute None (Some ''bc3'')) 0 = (Inr (psbt, fee), 2)"
    "ps_utxos psbt = [\<lparr>to_amount = 5000, to_script_pubkey = [0x51]\<rparr>]" using example_single by blast
  have "pays_out example_exec_libs example_wallet_provider (example_execute None (Some ''bc3'')) psbt fee"
    using single_transaction_balances [OF run(1)] run(2)
    by (auto simp: example_exec_libs_def example_execute_def example_stone_def bitcoin_amounts_def map_filter_simps)
  then show ?thesis using run by auto
qed

end
