(* ===== verification/Deployment.thy ===== *)
theory Deployment
  imports Execute
begin

text \<open>
  Facts on the executor that span its steps: the commit transaction of a deployment pays for the
  reveal, and what a text of protostones becomes in the runestone.
\<close>

subsection \<open>The commit pays for the reveal\<close>

lemma unat_required:
  assumes "unat (sum_list (bitcoin_amounts (ep_inputs params))) + 546 * length (ep_to params) + 50546 < 2 ^ 64"
  shows "unat (required_reveal_amount params) =
      unat (sum_list (bitcoin_amounts (ep_inputs params))) + 546 * length (ep_to params) + 50546"
    and "of_nat (length (ep_to params)) * dust_limit + sum_list (bitcoin_amounts (ep_inputs params)) + 50000 \<le> required_reveal_amount params"
proof -
  let ?s = "unat (sum_list (bitcoin_amounts (ep_inputs params)))" and ?n = "length (ep_to params)"
  have "required_reveal_amount params = of_nat (?s + 546 * ?n + 50546)"
    by (simp add: required_reveal_amount_def algebra_simps)
  then show amount: "unat (required_reveal_amount params) = ?s + 546 * ?n + 50546"
    using assms by (simp only: unat_of_nat) (simp add: take_bit_nat_eq_self)
  have "of_nat ?n * dust_limit + sum_list (bitcoin_amounts (ep_inputs params)) + 50000 = of_nat (?s + 546 * ?n + 50000)"
    by (simp add: dust_limit_def algebra_simps)
  then have "unat (of_nat ?n * dust_limit + sum_list (bitcoin_amounts (ep_inputs params)) + 50000) = ?s + 546 * ?n + 50000"
    using assms by (simp only: unat_of_nat) (simp add: take_bit_nat_eq_self)
  with amount show "of_nat ?n * dust_limit + sum_list (bitcoin_amounts (ep_inputs params)) + 50000 \<le> required_reveal_amount params"
    by (simp add: word_le_nat_alt)
qed

lemma build_commit_Inr:
  assumes "build_commit_psbt xl b p ks funding commit_output fee_rate n = (Inr (psbt, fee), n')"
    and "outputs_sum (ps_utxos psbt) < 2 ^ 64"
  shows "\<exists>change script. ux_outputs (ps_tx psbt) = [commit_output, \<lparr>to_amount = change, to_script_pubkey = script\<rparr>] \<and>
    546 \<le> unat change \<and> outputs_sum (ux_outputs (ps_tx psbt)) + unat fee = outputs_sum (ps_utxos psbt)"
proof -
  obtain script change where run:
    "ux_outputs (ps_tx psbt) = [commit_output, \<lparr>to_amount = change, to_script_pubkey = script\<rparr>]"
    "change = saturating_sub (saturating_sub (amounts (ps_utxos psbt)) (to_amount commit_output)) fee" "546 \<le> change"
    using assms(1) unfolding build_commit_psbt_def Let_def
    by (auto simp: dact_bind_Inr not_less split: if_splits)
  have "unat change = outputs_sum (ps_utxos psbt) - unat (to_amount commit_output) - unat fee"
    using assms(2) by (simp add: run(2) unat_saturating_sub unat_amounts)
  moreover have "546 \<le> unat change" using run(3) by (simp add: word_le_nat_alt)
  ultimately show ?thesis using run(1) by (intro exI [of _ change] exI [of _ script]) simp
qed

lemma build_reveal_Inr:
  assumes "build_reveal_psbt xl b p ks params envelope outpoint (required_reveal_amount params) key n = (Inr (psbt, fee), n')"
    and scripts: "\<And>protocol. op_return_script xl (runestone_script xl protocol)" "\<not> op_return_script xl []"
      "\<And>a s. script_of xl (get_network p) a = Inr s \<Longrightarrow> \<not> op_return_script xl s"
    and bound: "unat (sum_list (bitcoin_amounts (ep_inputs params))) + 546 * length (ep_to params) + 50546 < 2 ^ 64"
  shows "ux_inputs (ps_tx psbt) = [outpoint] \<and> ps_keys psbt = [Some key] \<and>
    ps_script_spend psbt = Some (build_reveal_script (gzip xl) envelope) \<and> fee \<le> max_fee_sats \<and>
    (\<exists>out k k'. ps_utxos psbt = [out] \<and> get_utxo (wallet_libs.truncate xl) b p outpoint k = (Inr (Some out), k')) \<and>
    pays_out xl p params psbt fee"
proof -
  have enough: "(required_reveal_amount params <
      of_nat (length (ep_to params)) * dust_limit + sum_list (bitcoin_amounts (ep_inputs params)) + 50000) = False"
    using unat_required(2) [OF bound] by simp
  obtain outputs script psbt' k k' where run:
    "create_outputs xl p (ep_to params) (ep_change params) (ep_inputs params) = Inr outputs"
    "construct_runestone_script xl (ep_protostones params) = Inr script"
    "build_psbt_and_fee xl b p [outpoint] outputs script (ep_fee_rate params) True k = (Inr (psbt', fee), k')"
    "psbt = psbt'\<lparr>ps_keys := Some key # tl (ps_keys psbt'), ps_script_spend := Some (build_reveal_script (gzip xl) envelope)\<rparr>"
    using assms(1) unfolding build_reveal_psbt_def Let_def enough if_False
    by (auto simp: dact_bind_Inr)
  from build_psbt_Inr [OF run(3)] obtain out where built: "ux_inputs (ps_tx psbt') = [outpoint]" "fee \<le> max_fee_sats"
    "length (ps_keys psbt') = 1" "ps_utxos psbt' = [out]"
    "\<exists>k k'. get_utxo (wallet_libs.truncate xl) b p outpoint k = (Inr (Some out), k')"
    by (auto simp: list_all2_Cons1)
  have "pays_out xl p params psbt' fee"
    by (rule build_psbt_pays_out [OF run(1-3) scripts(1,2)])
      (use scripts(3) bound built(4) unsigned_less [of "to_amount out"] in auto)
  moreover have "ps_tx psbt = ps_tx psbt'" "ps_utxos psbt = ps_utxos psbt'" by (simp_all add: run(4))
  ultimately have "pays_out xl p params psbt fee" unfolding pays_out_def by (simp only:)
  with built run(4) show ?thesis by (auto simp: length_Suc_conv)
qed

text \<open>The recipients leave 50546 of what is committed for the fee of the reveal.\<close>

lemma pays_out_within:
  assumes "pays_out xl p params psbt fee" "ep_change params \<noteq> None" "unat fee \<le> 50546"
    and "outputs_sum (ps_utxos psbt) = unat (sum_list (bitcoin_amounts (ep_inputs params))) + 546 * length (ep_to params) + 50546"
  shows "outputs_sum (ux_outputs (ps_tx psbt)) + unat fee = outputs_sum (ps_utxos psbt)"
  using assms unfolding pays_out_def by (auto split: option.splits if_splits)

text \<open>
  C25: deployment.  The commit transaction has the output for the envelope and a change of at least
  the dust limit, and these with the fee add up to its inputs; the amount committed is the sum of the
  Bitcoin requirements, the dust limit for every recipient, and 50546.  When it has been broadcast,
  the reveal transaction spends its output 0 alone, with the key of the commit and the script of the
  same envelope, and pays the recipients, the change and the runestone like a single transaction,
  for a reported fee of at most 100000.  It balances at the committed amount when there is a change
  address and that fee is at most 50546; a fee above that may not be covered.
\<close>

theorem deployment_covers_reveal:
  assumes run: "execute xl b p ks params n = (Inr (Ready_to_sign_commit psbt fee amount params' envelope key), n')"
    and scripts: "\<And>protocol. op_return_script xl (runestone_script xl protocol)" "\<not> op_return_script xl []"
      "\<And>a s. script_of xl (get_network p) a = Inr s \<Longrightarrow> \<not> op_return_script xl s"
    and bounds: "unat (sum_list (bitcoin_amounts (ep_inputs params))) + 546 * length (ep_to params) + 50546 < 2 ^ 64"
      "outputs_sum (ps_utxos psbt) < 2 ^ 64"
  shows "params' = params \<and> ep_envelope params = Some (en_payload envelope) \<and>
    unat amount = unat (sum_list (bitcoin_amounts (ep_inputs params))) + 546 * length (ep_to params) + 50546 \<and>
    (\<exists>script change. commit_script xl (build_reveal_script (gzip xl) envelope) key = Inr script \<and>
       ux_outputs (ps_tx psbt) = [\<lparr>to_amount = amount, to_script_pubkey = script\<rparr>, change] \<and> 546 \<le> unat (to_amount change)) \<and>
    outputs_sum (ux_outputs (ps_tx psbt)) + unat fee = outputs_sum (ps_utxos psbt) \<and>
    (\<forall>k state k'. resume_commit_execution xl b p ks psbt fee amount params' envelope key k = (Inr state, k') \<longrightarrow>
       (\<exists>tx reveal reveal_fee txid out. signed_of xl psbt = Inr tx \<and>
          state = Ready_to_sign_reveal reveal reveal_fee txid fee params key \<and>
          ux_inputs (ps_tx reveal) = [(sg_txid tx, 0)] \<and> ps_keys reveal = [Some key] \<and>
          ps_script_spend reveal = Some (build_reveal_script (gzip xl) envelope) \<and>
          ps_utxos reveal = [out] \<and>
          (\<exists>i i'. get_utxo (wallet_libs.truncate xl) b p (sg_txid tx, 0) i = (Inr (Some out), i')) \<and>
          pays_out xl p params reveal reveal_fee \<and> reveal_fee \<le> max_fee_sats \<and>
          (to_amount out = amount \<and> ep_change params \<noteq> None \<and> unat reveal_fee \<le> 50546 \<longrightarrow>
             outputs_sum (ux_outputs (ps_tx reveal)) + unat reveal_fee = unat amount)))"
proof -
  obtain script funding k k' where commit:
    "ep_envelope params = Some (en_payload envelope)" "params' = params" "commit_script xl (build_reveal_script (gzip xl) envelope) key = Inr script"
    "amount = required_reveal_amount params"
    "build_commit_psbt xl b p ks funding \<lparr>to_amount = amount, to_script_pubkey = script\<rparr> (ep_fee_rate params) k = (Inr (psbt, fee), k')"
    using run unfolding execute_def build_commit_reveal_pattern_def Let_def
    by (auto simp: dact_bind_Inr for_contract_def split: option.splits)
  note pays = build_commit_Inr [OF commit(5) bounds(2)]
  have amount: "unat amount = unat (sum_list (bitcoin_amounts (ep_inputs params))) + 546 * length (ep_to params) + 50546"
    using unat_required(1) [OF bounds(1)] commit(4) by simp
  have "\<exists>tx reveal reveal_fee txid out. signed_of xl psbt = Inr tx \<and>
          state = Ready_to_sign_reveal reveal reveal_fee txid fee params key \<and>
          ux_inputs (ps_tx reveal) = [(sg_txid tx, 0)] \<and> ps_keys reveal = [Some key] \<and>
          ps_script_spend reveal = Some (build_reveal_script (gzip xl) envelope) \<and>
          ps_utxos reveal = [out] \<and>
          (\<exists>i i'. get_utxo (wallet_libs.truncate xl) b p (sg_txid tx, 0) i = (Inr (Some out), i')) \<and>
          pays_out xl p params reveal reveal_fee \<and> reveal_fee \<le> max_fee_sats \<and>
          (to_amount out = amount \<and> ep_change params \<noteq> None \<and> unat reveal_fee \<le> 50546 \<longrightarrow>
             outputs_sum (ux_outputs (ps_tx reveal)) + unat reveal_fee = unat amount)"
    if resumed: "resume_commit_execution xl b p ks psbt fee amount params envelope key k = (Inr state, k')" for k state k'
  proof -
    obtain tx txid reveal reveal_fee j j' where steps: "signed_of xl psbt = Inr tx"
      "state = Ready_to_sign_reveal reveal reveal_fee txid fee params key"
      "build_reveal_psbt xl b p ks params envelope (sg_txid tx, 0) (required_reveal_amount params) key j = (Inr (reveal, reveal_fee), j')"
      using resumed unfolding resume_commit_execution_def sign_and_broadcast_def commit(4)
      by (auto simp: dact_bind_Inr)
    have "ux_inputs (ps_tx reveal) = [(sg_txid tx, 0)] \<and> ps_keys reveal = [Some key] \<and>
        ps_script_spend reveal = Some (build_reveal_script (gzip xl) envelope) \<and> reveal_fee \<le> max_fee_sats \<and>
        (\<exists>out i i'. ps_utxos reveal = [out] \<and> get_utxo (wallet_libs.truncate xl) b p (sg_txid tx, 0) i = (Inr (Some out), i')) \<and>
        pays_out xl p params reveal reveal_fee"
      by (rule build_reveal_Inr [OF steps(3) scripts(1,2) _ bounds(1)]) (rule scripts(3))
    then obtain out where reveal: "ux_inputs (ps_tx reveal) = [(sg_txid tx, 0)]" "ps_keys reveal = [Some key]"
      "ps_script_spend reveal = Some (build_reveal_script (gzip xl) envelope)" "reveal_fee \<le> max_fee_sats"
      "ps_utxos reveal = [out]" "\<exists>i i'. get_utxo (wallet_libs.truncate xl) b p (sg_txid tx, 0) i = (Inr (Some out), i')"
      "pays_out xl p params reveal reveal_fee"
      by blast
    have "outputs_sum (ux_outputs (ps_tx reveal)) + unat reveal_fee = unat amount"
      if "to_amount out = amount" "ep_change params \<noteq> None" "unat reveal_fee \<le> 50546"
      using pays_out_within [OF reveal(7) that(2,3)] reveal(5) that(1) amount by simp
    with reveal steps(1,2) show ?thesis by blast
  qed
  then show ?thesis using commit(1-3) pays amount by auto
qed

lemma example_deployment:
  "\<exists>psbt fee. execute example_exec_libs (funded_backend 60000) example_wallet_provider (Some \<lparr>ks_xpub = ''xpub''\<rparr>)
     (example_execute (Some [1]) None) 0 =
     (Inr (Ready_to_sign_commit psbt fee 52092 (example_execute (Some [1]) None) \<lparr>en_payload = [1]\<rparr> ''key''), 2) \<and>
     ps_utxos psbt = [\<lparr>to_amount = 60000, to_script_pubkey = [0x51]\<rparr>]"
proof -
  have select: "select_utxos example_exec_libs (funded_backend 60000) example_wallet_provider (Some \<lparr>ks_xpub = ''xpub''\<rparr>) [Bitcoin_input 52092] (Some [''bc1'']) 0 =
      (Inr [(''ab:0'', 0)], 1)"
    by (simp add: select_utxos_def dact_bind_def funded_utxos bitcoin_amounts_def map_filter_simps dact_return_def)
  have amount: "required_reveal_amount (example_execute (Some [1]) None) = 52092"
    by (simp add: required_reveal_amount_def example_execute_def bitcoin_amounts_def map_filter_simps)
  have fee: "estimated_fee (Some (Fin 1 0)) 150 = 150"
    by (simp add: estimated_fee_def fp_of_nat_def fp_round_def binary32_def quotient_exponent_def bit_length_numeral nearest_even_def max_def)
  obtain a where a: "keystore_addresses (wallet_libs.truncate example_exec_libs) \<lparr>ks_xpub = ''xpub''\<rparr>
      (get_network example_wallet_provider) ''p2tr'' 0 0 1 = Inr [a]"
    using keystore_addresses_one [of "wallet_libs.truncate example_exec_libs" "\<lparr>ks_xpub = ''xpub''\<rparr>" "()" 0]
    by (force simp: example_exec_libs_def wallet_libs.truncate_def)
  have libs: "p2tr_script example_exec_libs s = False" "tx_vsize example_exec_libs ws outs = 150"
    "script_of example_exec_libs nw addr = Inr [0x51]" "internal_key example_exec_libs = Inr ''key''"
    "commit_script example_exec_libs e key = Inr [0x51]" for s ws outs nw addr e key
    by (simp_all add: example_exec_libs_def)
  have valid: "validate_envelope_cellpack_usage (example_execute (Some [1]) None) = Inr ()"
    by (simp add: validate_envelope_cellpack_usage_def example_execute_def example_stone_def)
  have commit: "\<exists>psbt fee. build_commit_psbt example_exec_libs (funded_backend 60000) example_wallet_provider
      (Some \<lparr>ks_xpub = ''xpub''\<rparr>) [(''ab:0'', 0)] \<lparr>to_amount = 52092, to_script_pubkey = [0x51]\<rparr> (Some (Fin 1 0)) (Suc 0) =
      (Inr (psbt, fee), 2) \<and> ps_utxos psbt = [\<lparr>to_amount = 60000, to_script_pubkey = [0x51]\<rparr>]"
    by (simp add: build_commit_psbt_def dact_bind_def dact_lift_def dact_return_def input_of_def funded_utxo get_address_def
        get_addresses_def a libs fee key_entries_def amounts_def saturating_sub_def Let_def)
  have params: "ep_envelope (example_execute e c) = e" "ep_from (example_execute e c) = Some [''bc1'']"
    "ep_fee_rate (example_execute e c) = Some (Fin 1 0)" for e c
    by (simp_all add: example_execute_def)
  show ?thesis
    using commit unfolding execute_def build_commit_reveal_pattern_def
    by (auto simp: dact_bind_def dact_lift_def dact_return_def libs valid amount select Let_def params for_contract_def)
qed

lemma deployment_covers_reveal_witness:
  "\<exists>psbt fee. execute example_exec_libs (funded_backend 60000) example_wallet_provider (Some \<lparr>ks_xpub = ''xpub''\<rparr>)
     (example_execute (Some [1]) None) 0 =
     (Inr (Ready_to_sign_commit psbt fee 52092 (example_execute (Some [1]) None) \<lparr>en_payload = [1]\<rparr> ''key''), 2) \<and>
     outputs_sum (ux_outputs (ps_tx psbt)) + unat fee = 60000"
proof -
  obtain psbt fee where run: "execute example_exec_libs (funded_backend 60000) example_wallet_provider (Some \<lparr>ks_xpub = ''xpub''\<rparr>)
     (example_execute (Some [1]) None) 0 =
     (Inr (Ready_to_sign_commit psbt fee 52092 (example_execute (Some [1]) None) \<lparr>en_payload = [1]\<rparr> ''key''), 2)"
     "ps_utxos psbt = [\<lparr>to_amount = 60000, to_script_pubkey = [0x51]\<rparr>]" using example_deployment by blast
  have "unat (sum_list (bitcoin_amounts (ep_inputs (example_execute (Some [1]) None)))) +
      546 * length (ep_to (example_execute (Some [1]) None)) + 50546 < 2 ^ 64"
    by (simp add: example_execute_def bitcoin_amounts_def map_filter_simps)
  from deployment_covers_reveal [OF run(1) _ _ _ this] run show ?thesis by (auto simp: example_exec_libs_def)
qed

subsection \<open>From text to stones\<close>

text \<open>
  What becomes of a specification that is read from text.  The stone has the cellpack and the
  edicts, with their ids and amounts, but neither pointer nor refund pointer, whatever was written;
  an edict to another protostone or to all outputs goes to output 0.
\<close>

theorem stones_of_text:
  assumes "parse_protostones cellpack_of s = Inr specs"
  shows "list_all2 (\<lambda>spec st.
      st_message st = (case sp_cellpack spec of Some c \<Rightarrow> cellpack_bytes xl c | None \<Rightarrow> []) \<and>
      st_protocol_tag st = 2 \<and> st_pointer st = None \<and> st_refund st = None \<and>
      list_all2 (\<lambda>e ed. uint (ed_block ed) = uint (fst (pe_alkane e)) \<and> uint (ed_tx ed) = uint (snd (pe_alkane e)) \<and>
          uint (ed_amount ed) = uint (pe_amount e) \<and>
          uint (ed_output ed) = (case pe_target e of Output_target v \<Rightarrow> uint v | _ \<Rightarrow> 0))
        (sp_edicts spec) (st_edicts st))
    specs (map (convert_protostone_spec xl) specs)"
proof -
  have "uint (ucast w :: u128) = uint w" for w :: u64 by (simp add: uint_up_ucast is_up)
  moreover have "uint (ucast w :: u128) = uint w" for w :: u32 by (simp add: uint_up_ucast is_up)
  ultimately show ?thesis
    using transfers_are_never_read [OF assms]
    by (auto simp: list_all2_conv_all_nth convert_protostone_spec_def convert_edict_def split: output_target.splits)
qed

definition written_example :: written_protostone where
  "written_example = \<lparr>wr_cellpack = Some [2, 1, 77], wr_pointers = [Output_target 3, Split_target],
     wr_edicts = [\<lparr>pe_alkane = (2, 0), pe_amount = 5, pe_target = Protostone_target 1\<rparr>]\<rparr>"

lemma parse_written_example:
  "parse_protostones (\<lambda>ns. Inr ()) (show_protostone written_example) = Inr [spec_of (Some ()) written_example]"
proof -
  have written: "well_written (\<lambda>ns. Inr ()) written_example (Some ())"
    by (simp add: well_written_def written_example_def)
  have "split_respecting_brackets CHR '','' (join_with '','' (map show_protostone [written_example])) =
      Inr (map show_protostone [written_example])"
    by (rule split_join) (use show_protostone_segment [OF well_written_parts [OF written]] in auto)
  moreover have "parse_single_protostone (\<lambda>ns. Inr ()) (show_protostone written_example) = Inr (spec_of (Some ()) written_example)"
    using parse_show_protostone [OF written] by (simp add: written_example_def)
  ultimately show ?thesis by (simp add: parse_protostones_def)
qed

lemma stones_of_text_witness:
  "st_pointer (convert_protostone_spec example_exec_libs (spec_of (Some ()) written_example)) = None \<and>
   map (uint \<circ> ed_output) (st_edicts (convert_protostone_spec example_exec_libs (spec_of (Some ()) written_example))) = [0]"
  using stones_of_text [OF parse_written_example, of example_exec_libs]
  by (auto simp: spec_of_def written_example_def list_all2_Cons1 comp_def)

end
