(* ===== verification/Transactions.thy ===== *)
theory Transactions
  imports Wallet
begin

text \<open>
  The transaction constructor of the library (\<open>transaction.rs\<close>), its fee checks and its analysis, and
  the validation of fee rates (\<open>alkanes/fee_validation.rs\<close>).  What the bitcoin crate measures of a
  transaction (sizes, whether a script is an \<open>OP_RETURN\<close>) is a parameter.  Sums of \<open>u64\<close> wrap around,
  as in a release build.
\<close>

subsection \<open>Sending\<close>

record send_transaction_params =
  st_outputs :: "tx_out list"
  st_fee_rate :: "fp option"
  st_from_addresses :: "string list option"
  st_change_address :: "string option"

definition input_size :: "utxo_info \<Rightarrow> nat" where
  "input_size u =
     (if prefix ''bc1'' (ut_address u) \<or> prefix ''tb1'' (ut_address u) \<or> prefix ''bcrt1'' (ut_address u)
      then 32 + 4 + 4 + 1 + 27 else 32 + 4 + 4 + 107)"

definition estimate_transaction_size :: "utxo_info list \<Rightarrow> tx_out list \<Rightarrow> nat" where
  "estimate_transaction_size utxos outputs =
     10 + sum_list (map input_size utxos) + sum_list (map (\<lambda>out. 8 + 1 + length (to_script_pubkey out)) outputs) + 34"

text \<open>\<open>(size as f32 * rate) as u64\<close> truncates.\<close>

definition calculate_recommended_fee :: "nat \<Rightarrow> fp \<Rightarrow> u64" where
  "calculate_recommended_fee tx_size fee_rate = fp_to_u64 (fp_mult binary32 (fp_of_nat binary32 tx_size) fee_rate)"

fun take_largest :: "u64 \<Rightarrow> u64 \<Rightarrow> (outpoint \<times> utxo_info) list \<Rightarrow> (outpoint \<times> utxo_info) list \<times> u64" where
  "take_largest needed selected [] = ([], selected)"
| "take_largest needed selected ((op, u) # us) =
     (if ut_frozen u then take_largest needed selected us
      else if needed \<le> selected + ut_amount u then ([(op, u)], selected + ut_amount u)
      else (case take_largest needed (selected + ut_amount u) us of (rest, s) \<Rightarrow> ((op, u) # rest, s)))"

definition amounts_of :: "tx_out list \<Rightarrow> u64" where
  "amounts_of outs = sum_list (map to_amount outs)"

definition constructor_select_utxos ::
  "'x wallet_libs \<Rightarrow> backend \<Rightarrow> concrete_provider \<Rightarrow> keystore option \<Rightarrow> send_transaction_params \<Rightarrow>
   (outpoint \<times> utxo_info) list dact" where
  "constructor_select_utxos wl b p ks params =
     dact_bind (get_utxos wl b p ks (st_from_addresses params)) (\<lambda>available.
       let needed = amounts_of (st_outputs params) + 1000;
           (selected, s) = take_largest needed 0 (sort_by (\<lambda>x y. largest_first (snd x) (snd y)) available)
       in if s < needed then dact_fault (Failure (Transaction ''Insufficient funds'')) else dact_return selected)"

text \<open>The change of a constructed transaction, when it is above the dust.\<close>

definition change_amount :: "u64 \<Rightarrow> u64 \<Rightarrow> u64 \<Rightarrow> u64 option" where
  "change_amount total_input total_output fee =
     (if total_output + fee < total_input \<and> 546 \<le> total_input - total_output - fee
      then Some (total_input - total_output - fee) else None)"

text \<open>\<open>parse_address\<close> is the parser of addresses with the check of the network, and the text of its error.\<close>

definition address_script :: "(network \<Rightarrow> string \<Rightarrow> string + script) \<Rightarrow> concrete_provider \<Rightarrow> string \<Rightarrow> script dres" where
  "address_script parse_address p address =
     (case parse_address (get_network p) address of
        Inl msg \<Rightarrow> Inl (AddressResolution msg) | Inr script \<Rightarrow> Inr script)"

definition get_change_script ::
  "'x wallet_libs \<Rightarrow> (network \<Rightarrow> string \<Rightarrow> string + script) \<Rightarrow> concrete_provider \<Rightarrow> keystore option \<Rightarrow>
   send_transaction_params \<Rightarrow> script dres" where
  "get_change_script wl parse_address p ks params =
     (case st_change_address params of
        Some change_address \<Rightarrow> address_script parse_address p change_address
      | None \<Rightarrow> dbind (get_address wl p ks) (address_script parse_address p))"

definition create_send_transaction ::
  "'x wallet_libs \<Rightarrow> (network \<Rightarrow> string \<Rightarrow> string + script) \<Rightarrow> backend \<Rightarrow> concrete_provider \<Rightarrow> keystore option \<Rightarrow>
   send_transaction_params \<Rightarrow> unsigned_tx dact" where
  "create_send_transaction wl parse_address b p ks params =
     dact_bind (constructor_select_utxos wl b p ks params) (\<lambda>selected.
       let fee = calculate_recommended_fee (estimate_transaction_size (map snd selected) (st_outputs params))
                   (unwrap_or (Fin 1 0) (st_fee_rate params));
           total_input = sum_list (map (ut_amount \<circ> snd) selected)
       in dact_bind (case change_amount total_input (amounts_of (st_outputs params)) fee of
            None \<Rightarrow> dact_return []
          | Some change \<Rightarrow> dact_bind (dact_lift (get_change_script wl parse_address p ks params)) (\<lambda>script.
              dact_return [\<lparr>to_amount = change, to_script_pubkey = script\<rparr>])) (\<lambda>change.
          dact_return \<lparr>ux_inputs = map fst selected, ux_outputs = st_outputs params @ change\<rparr>))"

subsection \<open>Envelope and cellpack transactions\<close>

text \<open>\<open>data_script\<close> is the \<open>OP_RETURN\<close> script that pushes the data; \<open>txid_of\<close> the parser of txids, whose
  error is replaced.\<close>

fun utxo_inputs :: "(string \<Rightarrow> string dres) \<Rightarrow> utxo_info list \<Rightarrow> outpoint list dres" where
  "utxo_inputs parse_txid [] = Inr []"
| "utxo_inputs parse_txid (u # us) =
     (case parse_txid (ut_txid u) of
        Inl e \<Rightarrow> Inl (Parse ''Invalid TXID'')
      | Inr txid \<Rightarrow> dbind (utxo_inputs parse_txid us) (\<lambda>ops. Inr ((txid, ut_vout u) # ops)))"

definition create_envelope_transaction ::
  "'x wallet_libs \<Rightarrow> (byte list \<Rightarrow> script) \<Rightarrow> utxo_info list \<Rightarrow> tx_out list \<Rightarrow> byte list option \<Rightarrow> script \<Rightarrow>
   u64 option \<Rightarrow> unsigned_tx dres" where
  "create_envelope_transaction wl data_script utxos outputs envelope_data change_script fee =
     dbind (utxo_inputs (txid_of wl) utxos) (\<lambda>inputs.
       let change = (case change_amount (sum_list (map ut_amount utxos)) (amounts_of outputs) (unwrap_or 1000 fee) of
                       Some c \<Rightarrow> [\<lparr>to_amount = c, to_script_pubkey = change_script\<rparr>] | None \<Rightarrow> []);
           envelope = (case envelope_data of
                         Some data \<Rightarrow> [\<lparr>to_amount = 0, to_script_pubkey = data_script data\<rparr>] | None \<Rightarrow> [])
       in Inr \<lparr>ux_inputs = inputs, ux_outputs = envelope @ outputs @ change\<rparr>)"

text \<open>The transaction with the witnesses of its inputs.\<close>

definition create_cellpack_transaction ::
  "'x wallet_libs \<Rightarrow> utxo_info list \<Rightarrow> tx_out list \<Rightarrow> byte list \<Rightarrow> (unsigned_tx \<times> byte list list list) dres" where
  "create_cellpack_transaction wl utxos outputs cellpack_data =
     dbind (utxo_inputs (txid_of wl) utxos) (\<lambda>inputs.
       let witnesses = replicate (length inputs) []
       in Inr (\<lparr>ux_inputs = inputs, ux_outputs = outputs\<rparr>,
            if cellpack_data \<noteq> [] \<and> inputs \<noteq> [] then witnesses[0 := [cellpack_data]] else witnesses))"

subsection \<open>Fee checks and analysis\<close>

text \<open>\<open>calculated_fee * 10\<close> wraps around.\<close>

definition validate_fee :: "nat \<Rightarrow> fp \<Rightarrow> utxo_info list \<Rightarrow> tx_out list \<Rightarrow> unit dres" where
  "validate_fee tx_size fee_rate utxos outputs =
     (let calculated = calculate_recommended_fee tx_size fee_rate;
          actual = saturating_sub (sum_list (map ut_amount utxos)) (amounts_of outputs);
          min_fee = calculated div 2; max_fee = calculated * 10
      in if actual < min_fee
         then Inl (Transaction (''Fee too low: '' @ to_string actual @ '' sats (minimum: '' @ to_string min_fee @ '' sats)''))
         else if max_fee < actual
         then Inl (Transaction (''Fee too high: '' @ to_string actual @ '' sats (maximum: '' @ to_string max_fee @ '' sats)''))
         else Inr ())"

definition get_fee_rate_recommendations :: "fp \<times> fp \<times> fp \<times> fp" where
  "get_fee_rate_recommendations = (Fin 20 0, Fin 10 0, Fin 5 0, Fin 1 0)"

text \<open>The data of an \<open>OP_RETURN\<close> output, whose second byte is taken for the length.\<close>

definition op_return_data :: "script \<Rightarrow> byte list list" where
  "op_return_data s =
     (if 2 < length s \<and> s ! 0 = 0x6A \<and> 2 + unat (s ! 1) \<le> length s then [take (unat (s ! 1)) (drop 2 s)] else [])"

record transaction_analysis =
  an_input_count :: nat
  an_output_count :: nat
  an_total_output :: u64
  an_has_witness :: bool
  an_has_op_return :: bool
  an_op_return_data :: "byte list list"

definition analyze_transaction ::
  "(script \<Rightarrow> bool) \<Rightarrow> unsigned_tx \<Rightarrow> byte list list list \<Rightarrow> transaction_analysis" where
  "analyze_transaction is_data tx witnesses =
     (let data_outputs = filter (is_data \<circ> to_script_pubkey) (ux_outputs tx)
      in \<lparr>an_input_count = length (ux_inputs tx), an_output_count = length (ux_outputs tx),
          an_total_output = amounts_of (ux_outputs tx), an_has_witness = (\<exists>w \<in> set witnesses. w \<noteq> []),
          an_has_op_return = (data_outputs \<noteq> []),
          an_op_return_data = concat (map (op_return_data \<circ> to_script_pubkey) data_outputs)\<rparr>)"

text \<open>\<open>is_rbf\<close> and \<open>is_null\<close> are tests of the bitcoin crate.\<close>

definition is_rbf_enabled :: "(u32 \<Rightarrow> bool) \<Rightarrow> u32 list \<Rightarrow> bool" where
  "is_rbf_enabled is_rbf sequences \<longleftrightarrow> (\<exists>s \<in> set sequences. is_rbf s)"

definition is_coinbase :: "(outpoint \<Rightarrow> bool) \<Rightarrow> unsigned_tx \<Rightarrow> bool" where
  "is_coinbase is_null tx \<longleftrightarrow> length (ux_inputs tx) = 1 \<and> is_null (ux_inputs tx ! 0)"

subsection \<open>Validation of fee rates\<close>

definition max_fee_rate :: fp where
  "max_fee_rate = Fin 1000 0"

definition max_absolute_fee_sats :: u64 where
  "max_absolute_fee_sats = 1000000"

text \<open>\<open>{:.2}\<close> of a non-negative number: the exact value is rounded to hundredths.\<close>

definition two_decimals :: "fp \<Rightarrow> string" where
  "two_decimals x =
     (case x of
        Fin m e \<Rightarrow>
          let h = nearest_even (nat m * 100 * 2 ^ nat e) (2 ^ nat (- e))
          in dec_string (h div 100) @ ''.'' @ dec_string (h div 10 mod 10) @ dec_string (h mod 10)
      | Inf neg \<Rightarrow> ''inf'' | Nan \<Rightarrow> ''NaN'')"

record fee_analysis =
  fa_total_input :: u64
  fa_total_output :: u64
  fa_fee :: u64
  fa_vsize :: nat
  fa_fee_rate :: fp
  fa_errors :: "string list"

definition fa_is_valid :: "fee_analysis \<Rightarrow> bool" where
  "fa_is_valid a \<longleftrightarrow> fa_errors a = []"

definition fee_rate_of :: "u64 \<Rightarrow> nat \<Rightarrow> fp" where
  "fee_rate_of fee vsize =
     (if 0 < vsize then fp_div binary64 (fp_of_nat binary64 (unat fee)) (fp_of_nat binary64 vsize) else Fin 0 0)"

definition validate_transaction_fee_rate :: "(tx_out list \<Rightarrow> nat) \<Rightarrow> tx_out list \<Rightarrow> u64 list \<Rightarrow> fee_analysis" where
  "validate_transaction_fee_rate vsize_of outputs input_values =
     (let total_input = sum_list input_values; total_output = amounts_of outputs;
          fee = saturating_sub total_input total_output; vsize = vsize_of outputs; rate = fee_rate_of fee vsize
      in \<lparr>fa_total_input = total_input, fa_total_output = total_output, fa_fee = fee, fa_vsize = vsize, fa_fee_rate = rate,
          fa_errors =
            (if max_absolute_fee_sats < fee
             then [''Absolute fee too high: '' @ to_string fee @ '' sats > '' @ to_string max_absolute_fee_sats @ '' sats maximum'']
             else []) @
            (if fp_less max_fee_rate rate
             then [''Fee rate too high: '' @ two_decimals rate @ '' sat/vB > '' @ two_decimals max_fee_rate @ '' sat/vB maximum'']
             else []) @
            (if total_input = 0 then [''Total input value is zero - inputs may not be properly fetched''] else []) @
            (if fee = 0 \<and> 0 < total_output
             then [''Calculated fee is zero but outputs exist - possible input/output mismatch''] else [])\<rparr>)"

definition suggest_fee_adjustments :: "fee_analysis \<Rightarrow> string list" where
  "suggest_fee_adjustments a =
     (if fp_less max_fee_rate (fa_fee_rate a)
      then [''Reduce fee to maximum allowed: '' @
              to_string (fp_to_u64 (fp_ceil (fp_mult binary64 max_fee_rate (fp_of_nat binary64 (fa_vsize a))))) @
              '' sats (target rate: '' @ two_decimals max_fee_rate @ '' sat/vB)''] else []) @
     (if max_absolute_fee_sats < fa_fee a
      then [''Reduce absolute fee to maximum: '' @ to_string max_absolute_fee_sats @ '' sats''] else []) @
     (if fa_total_input a = 0
      then [''Check UTXO selection - ensure input values are properly fetched''] else []) @
     (if 100000 < fa_vsize a
      then [''Consider splitting large transactions or reducing witness data size''] else [])"

text \<open>The first of the largest outputs that are no \<open>OP_RETURN\<close>, if its value is positive.\<close>

fun largest_output :: "(script \<Rightarrow> bool) \<Rightarrow> nat \<Rightarrow> nat option \<times> u64 \<Rightarrow> tx_out list \<Rightarrow> nat option \<times> u64" where
  "largest_output is_data i best [] = best"
| "largest_output is_data i best (out # outs) =
     largest_output is_data (Suc i)
       (if \<not> is_data (to_script_pubkey out) \<and> snd best < to_amount out then (Some i, to_amount out) else best) outs"

definition create_fee_adjusted_transaction ::
  "(script \<Rightarrow> bool) \<Rightarrow> (tx_out list \<Rightarrow> nat) \<Rightarrow> (string list \<Rightarrow> string) \<Rightarrow> tx_out list \<Rightarrow> u64 \<Rightarrow> u64 list \<Rightarrow> tx_out list res" where
  "create_fee_adjusted_transaction is_data vsize_of show_errors outputs target_fee input_values =
     (let current_fee = saturating_sub (sum_list input_values) (amounts_of outputs)
      in and_then
          (if current_fee \<le> target_fee
           then (case largest_output is_data 0 (None, 0) outputs of
                   (Some i, value) \<Rightarrow>
                     let new_value = saturating_sub value (target_fee - current_fee)
                     in if 546 \<le> new_value then Inr (outputs[i := (outputs ! i)\<lparr>to_amount := new_value\<rparr>])
                        else Inl (anyhow ''Cannot adjust fee: would create dust output'')
                 | (None, _) \<Rightarrow> Inl (anyhow ''Cannot adjust fee: no suitable outputs found''))
           else Inr outputs) (\<lambda>adjusted.
          let a = validate_transaction_fee_rate vsize_of adjusted input_values
          in if fa_is_valid a then Inr adjusted
             else Inl (anyhow (''Fee adjustment failed: '' @ show_errors (fa_errors a)))))"

subsection \<open>What is constructed\<close>

lemma amounts_of_of_nat: "amounts_of outs = of_nat (outputs_sum outs)"
  by (induction outs) (simp_all add: amounts_of_def)

lemma unat_amounts_of: "outputs_sum outs < 2 ^ 64 \<Longrightarrow> unat (amounts_of outs) = outputs_sum outs"
  by (simp add: amounts_of_of_nat unat_of_nat take_bit_nat_eq_self)

lemma sum_list_of_nat: "sum_list ws = of_nat (\<Sum>w\<leftarrow>ws. unat w)"
  for ws :: "u64 list"
  by (induction ws) simp_all

lemma unat_sum_list: "(\<Sum>w\<leftarrow>ws. unat w) < 2 ^ 64 \<Longrightarrow> unat (sum_list ws) = (\<Sum>w\<leftarrow>ws. unat w)"
  for ws :: "u64 list"
  unfolding sum_list_of_nat by (simp add: unat_of_nat take_bit_nat_eq_self)

lemma largest_output_Some:
  assumes "largest_output is_data k best outs = (Some i, v)"
  shows "best = (Some i, v) \<or> (k \<le> i \<and> i - k < length outs \<and> to_amount (outs ! (i - k)) = v \<and>
    \<not> is_data (to_script_pubkey (outs ! (i - k))))"
  using assms
proof (induction outs arbitrary: k best)
  case (Cons out outs)
  let ?best = "if \<not> is_data (to_script_pubkey out) \<and> snd best < to_amount out then (Some k, to_amount out) else best"
  have "largest_output is_data (Suc k) ?best outs = (Some i, v)" using Cons.prems by simp
  from Cons.IH [OF this] consider "?best = (Some i, v)"
    | "Suc k \<le> i" "i - Suc k < length outs" "to_amount (outs ! (i - Suc k)) = v"
      "\<not> is_data (to_script_pubkey (outs ! (i - Suc k)))" by blast
  then show ?case
  proof cases
    case 1
    then show ?thesis by (auto split: if_splits)
  next
    case 2
    then have "i - k = Suc (i - Suc k)" by simp
    then show ?thesis using 2 by simp
  qed
qed simp

lemma outputs_sum_replace:
  "i < length outs \<Longrightarrow>
   outputs_sum (outs[i := out]) + unat (to_amount (outs ! i)) = outputs_sum outs + unat (to_amount out)"
  by (induction outs arbitrary: i) (auto simp: nth_Cons split: nat.splits)

text \<open>
  The adjustment of a fee.  What comes out pays the greater of the target and the fee that the
  transaction had, at the expense of one output that is no \<open>OP_RETURN\<close> and keeps 546; a fee above the
  target is never lowered, so that no transaction whose fee is too high is repaired.
\<close>

theorem adjusted_transaction:
  assumes run: "create_fee_adjusted_transaction is_data vsize_of show_errors outputs target input_values = Inr adjusted"
    and bounds: "outputs_sum outputs \<le> (\<Sum>v\<leftarrow>input_values. unat v)" "(\<Sum>v\<leftarrow>input_values. unat v) < 2 ^ 64"
  shows "\<exists>fee. fee = max (unat target) ((\<Sum>v\<leftarrow>input_values. unat v) - outputs_sum outputs) \<and>
    outputs_sum adjusted + fee = (\<Sum>v\<leftarrow>input_values. unat v) \<and> fee \<le> 1000000 \<and>
    \<not> fp_less max_fee_rate (fee_rate_of (of_nat fee) (vsize_of adjusted)) \<and>
    (adjusted = outputs \<or>
     (\<exists>i out. i < length outputs \<and> out = outputs ! i \<and> \<not> is_data (to_script_pubkey out) \<and>
       (\<exists>v. adjusted = outputs[i := out\<lparr>to_amount := v\<rparr>] \<and> 546 \<le> v \<and> v \<le> to_amount out))) \<and>
    (unat target < (\<Sum>v\<leftarrow>input_values. unat v) - outputs_sum outputs \<longrightarrow> adjusted = outputs)"
proof -
  let ?in = "\<Sum>v\<leftarrow>input_values. unat v"
  define current where "current = saturating_sub (sum_list input_values) (amounts_of outputs)"
  have current: "unat current = ?in - outputs_sum outputs"
    using bounds by (simp add: current_def unat_saturating_sub unat_sum_list unat_amounts_of)
  have valid: "fa_is_valid (validate_transaction_fee_rate vsize_of adjusted input_values)"
    using run by (auto simp: create_fee_adjusted_transaction_def Let_def split: if_splits)
  have shape: "outputs_sum adjusted + max (unat target) (unat current) = ?in \<and>
    (adjusted = outputs \<or>
     (\<exists>i out. i < length outputs \<and> out = outputs ! i \<and> \<not> is_data (to_script_pubkey out) \<and>
       (\<exists>v. adjusted = outputs[i := out\<lparr>to_amount := v\<rparr>] \<and> 546 \<le> v \<and> v \<le> to_amount out))) \<and>
    (unat target < unat current \<longrightarrow> adjusted = outputs)"
  proof (cases "current \<le> target")
    case False
    then have "adjusted = outputs" using run
      by (auto simp: create_fee_adjusted_transaction_def Let_def current_def split: if_splits)
    moreover have "unat target < unat current" using False by (simp add: not_le word_less_nat_alt)
    ultimately show ?thesis using current bounds(1) by (simp add: max_def)
  next
    case True
    obtain i v where best: "largest_output is_data 0 (None, 0) outputs = (Some i, v)"
      and v: "546 \<le> saturating_sub v (target - current)"
      and adjusted: "adjusted = outputs[i := (outputs ! i)\<lparr>to_amount := saturating_sub v (target - current)\<rparr>]"
      using run True by (auto simp: create_fee_adjusted_transaction_def Let_def current_def split: if_splits prod.splits option.splits)
    have i: "i < length outputs" "to_amount (outputs ! i) = v" "\<not> is_data (to_script_pubkey (outputs ! i))"
      using largest_output_Some [OF best] by auto
    have inc: "unat (target - current) = unat target - unat current" using True by (rule unat_sub)
    have new: "unat (saturating_sub v (target - current)) = unat v - (unat target - unat current)"
      by (simp add: unat_saturating_sub inc)
    have "546 \<le> unat v - (unat target - unat current)" using v new by (simp add: word_le_nat_alt)
    moreover have "unat current \<le> unat target" using True by (simp add: word_le_nat_alt)
    moreover have "outputs_sum adjusted + unat v = outputs_sum outputs + (unat v - (unat target - unat current))"
      using outputs_sum_replace [OF i(1), of "(outputs ! i)\<lparr>to_amount := saturating_sub v (target - current)\<rparr>"] i(2) new
      by (simp add: adjusted)
    ultimately have sum: "outputs_sum adjusted + unat target = ?in" using current bounds(1) by linarith
    have le: "saturating_sub v (target - current) \<le> v" by (simp add: word_le_nat_alt new)
    show ?thesis using sum True i v le by (auto simp: adjusted max_def word_le_nat_alt)
  qed
  define fee where "fee = max (unat target) (unat current)"
  have out: "outputs_sum adjusted < 2 ^ 64" "outputs_sum adjusted \<le> ?in" using shape bounds(2) by linarith+
  have fee: "unat (saturating_sub (sum_list input_values) (amounts_of adjusted)) = fee"
  proof -
    have "?in - outputs_sum adjusted = fee" using shape unfolding fee_def by linarith
    then show ?thesis using out bounds(2) by (simp add: unat_saturating_sub unat_sum_list unat_amounts_of)
  qed
  then have word: "saturating_sub (sum_list input_values) (amounts_of adjusted) = of_nat fee"
    by (simp flip: fee)
  have "\<not> max_absolute_fee_sats < saturating_sub (sum_list input_values) (amounts_of adjusted)"
    and rate: "\<not> fp_less max_fee_rate (fee_rate_of (of_nat fee) (vsize_of adjusted))"
    using valid unfolding word [symmetric]
    by (auto simp: fa_is_valid_def validate_transaction_fee_rate_def Let_def split: if_splits)
  then have "fee \<le> 1000000" using fee by (simp add: not_less word_le_nat_alt max_absolute_fee_sats_def)
  with shape rate current fee_def show ?thesis by (intro exI [of _ fee]) auto
qed

lemma adjusted_example:
  "create_fee_adjusted_transaction (\<lambda>s. False) (\<lambda>outs. 200) concat [\<lparr>to_amount = 5000, to_script_pubkey = []\<rparr>] 2000 [6000] =
    Inr [\<lparr>to_amount = 4000, to_script_pubkey = []\<rparr>]"
proof -
  have "fee_rate_of 2000 200 = Fin (10 * 2 ^ 49) (- 49)"
    by (simp add: fee_rate_of_def fp_of_nat_def fp_round_def binary64_def quotient_exponent_def bit_length_numeral
        nearest_even_def max_def)
  then have "\<not> fp_less max_fee_rate (fee_rate_of 2000 200)" by (simp add: max_fee_rate_def)
  then show ?thesis
    by (simp add: create_fee_adjusted_transaction_def amounts_of_def saturating_sub_def validate_transaction_fee_rate_def
        fa_is_valid_def max_absolute_fee_sats_def Let_def)
qed

lemma adjusted_transaction_witness:
  "outputs_sum [\<lparr>to_amount = 4000, to_script_pubkey = []\<rparr>] + 2000 = 6000"
  using adjusted_transaction [OF adjusted_example] by simp

end
