(* ===== verification/Addresses.thy ===== *)
theory Addresses
  imports Deezel_Client
begin

text \<open>
  The addresses of the deezel library (\<open>address.rs\<close>): a payload with the parameters of its network.
  Payloads, scripts and the text of an address belong to the bitcoin and metashrew crates: parameters.
  Public keys and their scripts have types of their own, \<open>'k\<close> and \<open>'p\<close> for a payload.
\<close>

record network_config =
  nc_p2pkh :: byte
  nc_p2sh :: byte
  nc_hrp :: string

definition config_mainnet :: network_config where
  "config_mainnet = \<lparr>nc_p2pkh = 0, nc_p2sh = 5, nc_hrp = ''bc''\<rparr>"

definition config_testnet :: network_config where
  "config_testnet = \<lparr>nc_p2pkh = 0x6f, nc_p2sh = 0xc4, nc_hrp = ''tb''\<rparr>"

definition config_regtest :: network_config where
  "config_regtest = \<lparr>nc_p2pkh = 0x6f, nc_p2sh = 0xc4, nc_hrp = ''bcrt''\<rparr>"

definition config_signet :: network_config where
  "config_signet = \<lparr>nc_p2pkh = 0x6f, nc_p2sh = 0xc4, nc_hrp = ''tb''\<rparr>"

definition config_custom :: "byte \<Rightarrow> byte \<Rightarrow> string \<Rightarrow> network_config" where
  "config_custom a b hrp = \<lparr>nc_p2pkh = a, nc_p2sh = b, nc_hrp = hrp\<rparr>"

datatype btc_network = Bitcoin | Testnet | Regtest

text \<open>
  \<open>parse_address\<close> is \<open>Address::from_str\<close>, \<open>require_network\<close> gives the script of an address that is on the
  network, \<open>script_address\<close> the text of \<open>Address::from_script\<close>.
\<close>

record ('k, 'p, 'a) address_libs =
  pay_p2pkh :: "'k \<Rightarrow> 'p"
  pay_p2sh :: "byte list \<Rightarrow> string + 'p"
  pay_p2wpkh :: "'k \<Rightarrow> string + 'p"
  pay_p2shwpkh :: "'k \<Rightarrow> string + 'p"
  pay_p2wsh :: "byte list \<Rightarrow> 'p"
  pay_p2shwsh :: "byte list \<Rightarrow> 'p"
  pay_p2tr :: "'k \<Rightarrow> byte list option \<Rightarrow> 'p"
  pay_p2tr_tweaked :: "'k \<Rightarrow> 'p"
  pay_from_script :: "byte list \<Rightarrow> string + 'p"
  pay_script :: "'p \<Rightarrow> byte list"
  pay_matches :: "'p \<Rightarrow> byte list \<Rightarrow> bool"
  parse_address :: "string \<Rightarrow> string + 'a"
  require_network :: "'a \<Rightarrow> btc_network \<Rightarrow> string + byte list"
  script_address :: "byte list \<Rightarrow> btc_network \<Rightarrow> string + string"

record 'p deezel_address =
  da_payload :: 'p
  da_network :: network_config

subsection \<open>Construction\<close>

definition on_net :: "network_config \<Rightarrow> 'p \<Rightarrow> 'p deezel_address" where
  "on_net net payload = \<lparr>da_payload = payload, da_network = net\<rparr>"

definition or_error :: "network_config \<Rightarrow> string + 'p \<Rightarrow> string + 'p deezel_address" where
  "or_error net r = (case r of Inl e \<Rightarrow> Inl e | Inr payload \<Rightarrow> Inr (on_net net payload))"

definition p2pkh :: "('k, 'p, 'a) address_libs \<Rightarrow> 'k \<Rightarrow> network_config \<Rightarrow> 'p deezel_address" where
  "p2pkh al k net = on_net net (pay_p2pkh al k)"

definition p2sh :: "('k, 'p, 'a) address_libs \<Rightarrow> byte list \<Rightarrow> network_config \<Rightarrow> string + 'p deezel_address" where
  "p2sh al script net = or_error net (pay_p2sh al script)"

definition p2wpkh :: "('k, 'p, 'a) address_libs \<Rightarrow> 'k \<Rightarrow> network_config \<Rightarrow> string + 'p deezel_address" where
  "p2wpkh al k net = or_error net (pay_p2wpkh al k)"

definition p2sh_p2wpkh :: "('k, 'p, 'a) address_libs \<Rightarrow> 'k \<Rightarrow> network_config \<Rightarrow> string + 'p deezel_address" where
  "p2sh_p2wpkh al k net = or_error net (pay_p2shwpkh al k)"

definition p2wsh :: "('k, 'p, 'a) address_libs \<Rightarrow> byte list \<Rightarrow> network_config \<Rightarrow> 'p deezel_address" where
  "p2wsh al script net = on_net net (pay_p2wsh al script)"

definition p2sh_p2wsh :: "('k, 'p, 'a) address_libs \<Rightarrow> byte list \<Rightarrow> network_config \<Rightarrow> 'p deezel_address" where
  "p2sh_p2wsh al script net = on_net net (pay_p2shwsh al script)"

definition p2tr :: "('k, 'p, 'a) address_libs \<Rightarrow> 'k \<Rightarrow> byte list option \<Rightarrow> network_config \<Rightarrow> 'p deezel_address" where
  "p2tr al k merkle_root net = on_net net (pay_p2tr al k merkle_root)"

definition p2tr_tweaked :: "('k, 'p, 'a) address_libs \<Rightarrow> 'k \<Rightarrow> network_config \<Rightarrow> 'p deezel_address" where
  "p2tr_tweaked al k net = on_net net (pay_p2tr_tweaked al k)"

definition address_from_script :: "('k, 'p, 'a) address_libs \<Rightarrow> byte list \<Rightarrow> network_config \<Rightarrow> string + 'p deezel_address" where
  "address_from_script al script net = or_error net (pay_from_script al script)"

definition p2wpkh_regtest :: "('k, 'p, 'a) address_libs \<Rightarrow> 'k \<Rightarrow> string + 'p deezel_address" where
  "p2wpkh_regtest al k = p2wpkh al k config_regtest"

definition p2tr_regtest :: "('k, 'p, 'a) address_libs \<Rightarrow> 'k \<Rightarrow> byte list option \<Rightarrow> 'p deezel_address" where
  "p2tr_regtest al k merkle_root = p2tr al k merkle_root config_regtest"

subsection \<open>Reading and printing\<close>

definition address_script_pubkey :: "('k, 'p, 'a) address_libs \<Rightarrow> 'p deezel_address \<Rightarrow> byte list" where
  "address_script_pubkey al a = pay_script al (da_payload a)"

definition matches_script_pubkey :: "('k, 'p, 'a) address_libs \<Rightarrow> 'p deezel_address \<Rightarrow> byte list \<Rightarrow> bool" where
  "matches_script_pubkey al a script = pay_matches al (da_payload a) script"

definition btc_network_of :: "string \<Rightarrow> btc_network option" where
  "btc_network_of hrp =
     (if hrp = ''bc'' then Some Bitcoin else if hrp = ''tb'' then Some Testnet
      else if hrp = ''bcrt'' then Some Regtest else None)"

definition address_to_string :: "('k, 'p, 'a) address_libs \<Rightarrow> 'p deezel_address \<Rightarrow> string + string" where
  "address_to_string al a =
     (case btc_network_of (nc_hrp (da_network a)) of
        None \<Rightarrow> Inl ''Unsupported custom network HRP for string conversion''
      | Some net \<Rightarrow>
          (case script_address al (address_script_pubkey al a) net of
             Inl e \<Rightarrow> Inl (''Failed to create address from script: '' @ e) | Inr text \<Rightarrow> Inr text))"

definition address_display :: "('k, 'p, 'a) address_libs \<Rightarrow> 'p deezel_address \<Rightarrow> string" where
  "address_display al a = (case address_to_string al a of Inl e \<Rightarrow> ''<invalid address>'' | Inr text \<Rightarrow> text)"

definition address_on :: "('k, 'p, 'a) address_libs \<Rightarrow> string \<Rightarrow> network_config \<Rightarrow> string + 'p deezel_address" where
  "address_on al text net =
     (case btc_network_of (nc_hrp net) of
        None \<Rightarrow> Inl ''Unsupported custom network HRP for parsing''
      | Some expected \<Rightarrow>
          (case parse_address al text of
             Inl e \<Rightarrow> Inl (''Failed to parse address string: '' @ e)
           | Inr a \<Rightarrow>
               (case require_network al a expected of
                  Inl e \<Rightarrow> Inl (''Address does not match required network: '' @ e)
                | Inr script \<Rightarrow> or_error net (pay_from_script al script))))"

fun first_network :: "('k, 'p, 'a) address_libs \<Rightarrow> string \<Rightarrow> network_config list \<Rightarrow> string + 'p deezel_address" where
  "first_network al text [] = Inl ''Could not parse address for any known network''"
| "first_network al text (net # nets) =
     (case address_on al text net of Inr a \<Rightarrow> Inr a | Inl e \<Rightarrow> first_network al text nets)"

definition address_from_str :: "('k, 'p, 'a) address_libs \<Rightarrow> string \<Rightarrow> string + 'p deezel_address" where
  "address_from_str al text = first_network al text [config_mainnet, config_testnet, config_regtest, config_signet]"

definition is_network :: "'p deezel_address \<Rightarrow> network_config \<Rightarrow> bool" where
  "is_network a net \<longleftrightarrow> da_network a = net"

definition address_is_mainnet :: "'p deezel_address \<Rightarrow> bool" where
  "address_is_mainnet a \<longleftrightarrow> is_network a config_mainnet"

definition address_is_testnet :: "'p deezel_address \<Rightarrow> bool" where
  "address_is_testnet a \<longleftrightarrow> is_network a config_testnet"

definition address_is_regtest :: "'p deezel_address \<Rightarrow> bool" where
  "address_is_regtest a \<longleftrightarrow> is_network a config_regtest"

subsection \<open>What is read is what is printed\<close>

lemma first_network_cases:
  "first_network al text nets = Inr a \<Longrightarrow> \<exists>net \<in> set nets. address_on al text net = Inr a"
  by (induction nets) (auto split: sum.splits)

lemma address_on_Inr:
  "address_on al text net = Inr a \<longleftrightarrow>
    (\<exists>n u script. btc_network_of (nc_hrp net) = Some n \<and> parse_address al text = Inr u \<and>
       require_network al u n = Inr script \<and> pay_from_script al script = Inr (da_payload a) \<and> da_network a = net)"
  by (cases a) (auto simp: address_on_def or_error_def on_net_def split: option.splits sum.splits)

lemma first_network_find:
  "first_network al text nets = Inr a \<Longrightarrow>
   find (\<lambda>net. \<exists>b. address_on al text net = Inr b) nets = Some (da_network a) \<and>
   address_on al text (da_network a) = Inr a"
proof (induction nets)
  case (Cons net nets)
  show ?case
  proof (cases "address_on al text net")
    case (Inr b)
    then have "da_network b = net" by (auto simp: address_on_Inr)
    with Inr Cons.prems show ?thesis by auto
  qed (use Cons in auto)
qed simp

lemma address_on_same:
  "parse_address al text = parse_address al text' \<Longrightarrow> address_on al text net = address_on al text' net"
  by (simp add: address_on_def split: option.split)

lemma first_network_same:
  "parse_address al text = parse_address al text' \<Longrightarrow> first_network al text nets = first_network al text' nets"
proof (induction nets)
  case (Cons net nets)
  then show ?case using address_on_same [OF Cons.prems, of net] by (simp split: sum.split)
qed simp

text \<open>
  C30: an address that is read is on the first of mainnet, testnet and regtest on which it can be, and on
  exactly one of the three by the tests of the code (a signet address passes for testnet).  It is
  printed as a text from which the same address is read again; this is the canonical text, not always
  the one that was read, as bech32 may be written in capitals.  Of the crates this takes that a
  payload keeps the script it is made of, and that the text of the script of an address on a network
  is parsed as that address.
\<close>

theorem address_round_trip:
  assumes payload_keeps_script: "\<And>script p. pay_from_script al script = Inr p \<Longrightarrow> pay_script al p = script"
    and canonical_text: "\<And>s u n script. parse_address al s = Inr u \<Longrightarrow> require_network al u n = Inr script \<Longrightarrow>
      \<exists>t. script_address al script n = Inr t \<and> parse_address al t = Inr u"
    and read: "address_from_str al text = Inr a"
  shows "(\<exists>t. address_to_string al a = Inr t \<and> address_display al a = t \<and> address_from_str al t = Inr a) \<and>
    find (\<lambda>net. \<exists>b. address_on al text net = Inr b) [config_mainnet, config_testnet, config_regtest] = Some (da_network a) \<and>
    card {net \<in> {config_mainnet, config_testnet, config_regtest}. is_network a net} = 1 \<and>
    is_network a config_signet = address_is_testnet a"
proof -
  note first = first_network_find [OF read [unfolded address_from_str_def]]
  have signet: "config_signet = config_testnet" by (simp add: config_signet_def config_testnet_def)
  have found: "find (\<lambda>net. \<exists>b. address_on al text net = Inr b) [config_mainnet, config_testnet, config_regtest] = Some (da_network a)"
    using first unfolding signet by (auto split: if_splits)
  then have net: "da_network a \<in> {config_mainnet, config_testnet, config_regtest}"
    by (auto split: if_splits)
  from first obtain n u script where got: "btc_network_of (nc_hrp (da_network a)) = Some n" "parse_address al text = Inr u"
      "require_network al u n = Inr script" "pay_from_script al script = Inr (da_payload a)"
    by (auto simp: address_on_Inr)
  obtain t where t: "script_address al script n = Inr t" "parse_address al t = Inr u"
    using canonical_text [OF got(2,3)] by blast
  have "address_to_string al a = Inr t"
    using got t payload_keeps_script by (simp add: address_to_string_def address_script_pubkey_def)
  moreover have "parse_address al text = parse_address al t" using got(2) t(2) by simp
  from first_network_same [OF this] have "address_from_str al t = Inr a"
    using read unfolding address_from_str_def by metis
  moreover have "{net' \<in> {config_mainnet, config_testnet, config_regtest}. is_network a net'} = {da_network a}"
    using net by (auto simp: is_network_def)
  moreover have "is_network a config_signet = address_is_testnet a"
    by (simp add: is_network_def address_is_testnet_def signet)
  ultimately show ?thesis using found by (simp add: address_display_def)
qed

text \<open>A node that knows one address, on regtest, which it reads in capitals as well; payloads are scripts.\<close>

definition sample_libs :: "(unit, byte list, unit) address_libs" where
  "sample_libs =
     \<lparr>pay_p2pkh = \<lambda>_. [], pay_p2sh = Inr, pay_p2wpkh = \<lambda>_. Inr [], pay_p2shwpkh = \<lambda>_. Inr [], pay_p2wsh = id,
      pay_p2shwsh = id, pay_p2tr = \<lambda>_ _. [], pay_p2tr_tweaked = \<lambda>_. [], pay_from_script = Inr, pay_script = id,
      pay_matches = (=), parse_address = (\<lambda>text. if text \<in> {''bcrt1q'', ''BCRT1Q''} then Inr () else Inl ''no address''),
      require_network = (\<lambda>_ n. if n = Regtest then Inr [0, 20] else Inl ''wrong network''),
      script_address = (\<lambda>script n. if n = Regtest \<and> script = [0, 20] then Inr ''bcrt1q'' else Inl ''no address'')\<rparr>"

lemma address_round_trip_witness:
  "\<exists>t. address_to_string sample_libs \<lparr>da_payload = [0, 20], da_network = config_regtest\<rparr> = Inr t \<and> t \<noteq> ''BCRT1Q'' \<and>
     address_from_str sample_libs t = address_from_str sample_libs ''BCRT1Q''"
proof -
  have read: "address_from_str sample_libs ''BCRT1Q'' = Inr \<lparr>da_payload = [0, 20], da_network = config_regtest\<rparr>"
    by (simp add: address_from_str_def address_on_def sample_libs_def btc_network_of_def
        config_mainnet_def config_testnet_def config_regtest_def or_error_def on_net_def)
  have "\<exists>t. address_to_string sample_libs \<lparr>da_payload = [0, 20], da_network = config_regtest\<rparr> = Inr t \<and>
      address_from_str sample_libs t = Inr \<lparr>da_payload = [0, 20], da_network = config_regtest\<rparr>"
  proof -
    have "\<exists>t. script_address sample_libs script n = Inr t \<and> parse_address sample_libs t = Inr u"
      if "parse_address sample_libs s = Inr u" "require_network sample_libs u n = Inr script" for s u n script
      using that by (auto simp: sample_libs_def split: if_splits)
    moreover have "pay_script sample_libs p = script" if "pay_from_script sample_libs script = Inr p" for script p
      using that by (simp add: sample_libs_def)
    ultimately show ?thesis using address_round_trip [of sample_libs, OF _ _ read] by blast
  qed
  moreover have "address_to_string sample_libs \<lparr>da_payload = [0, 20], da_network = config_regtest\<rparr> = Inr ''bcrt1q''"
    by (simp add: address_to_string_def address_script_pubkey_def sample_libs_def btc_network_of_def config_regtest_def)
  ultimately show ?thesis by (auto simp: read)
qed

end
