(* ===== verification/Address_Ids.thy ===== *)
theory Address_Ids
  imports Networks
begin

text \<open>
  Address identifiers: the kinds of addresses and their derivation paths (\<open>wallet.rs\<close>), identifiers
  such as \<open>[self:p2tr:0]\<close> in a text with the resolver that replaces them (\<open>address_resolver.rs\<close>, and
  \<open>AddressResolver\<close> of \<open>provider.rs\<close>), and lists of addresses (\<open>address_parser.rs\<close>).  The parsers of
  addresses belong to the bitcoin crate and are parameters.
\<close>

subsection \<open>Kinds of addresses\<close>

datatype address_type = P2PKH | P2SH | P2WPKH | P2WSH | P2TR

fun address_type_str :: "address_type \<Rightarrow> string" where
  "address_type_str P2PKH = ''p2pkh''"
| "address_type_str P2SH = ''p2sh''"
| "address_type_str P2WPKH = ''p2wpkh''"
| "address_type_str P2WSH = ''p2wsh''"
| "address_type_str P2TR = ''p2tr''"

definition address_type_of :: "string \<Rightarrow> address_type dres" where
  "address_type_of s =
     (let l = lowercase s
      in if l = ''p2pkh'' then Inr P2PKH else if l = ''p2sh'' then Inr P2SH
         else if l = ''p2wpkh'' then Inr P2WPKH else if l = ''p2wsh'' then Inr P2WSH
         else if l = ''p2tr'' then Inr P2TR else Inl (Parse (''Unknown address type: '' @ s)))"

definition is_valid_address_type :: "string \<Rightarrow> bool" where
  "is_valid_address_type s \<longleftrightarrow> lowercase s \<in> {''p2tr'', ''p2pkh'', ''p2sh'', ''p2wpkh'', ''p2wsh''}"

subsection \<open>Derivation paths\<close>

definition purpose_of :: "address_type \<Rightarrow> u32" where
  "purpose_of t = (case t of P2PKH \<Rightarrow> 44 | P2SH \<Rightarrow> 49 | P2WPKH \<Rightarrow> 84 | P2WSH \<Rightarrow> 84 | P2TR \<Rightarrow> 86)"

definition coin_type_of :: "network \<Rightarrow> u32" where
  "coin_type_of n = (if n = Bitcoin then 0 else 1)"

definition hardened :: "u32 \<Rightarrow> string" where
  "hardened n = to_string n @ [CHR 0x27]"

definition get_derivation_path :: "address_type \<Rightarrow> network \<Rightarrow> u32 \<Rightarrow> u32 \<Rightarrow> u32 \<Rightarrow> string" where
  "get_derivation_path t network account change index =
     join_with ''/'' [''m'', hardened (purpose_of t), hardened (coin_type_of network), hardened account,
       to_string change, to_string index]"

definition trim_end_of :: "char \<Rightarrow> string \<Rightarrow> string" where
  "trim_end_of c s = rev (trim_prefixes [[c]] (rev s))"

definition path_part :: "string \<Rightarrow> string \<Rightarrow> u32 dres" where
  "path_part name s =
     (case from_str_radix 10 s of Some n \<Rightarrow> Inr n | None \<Rightarrow> Inl (Parse (''Invalid '' @ name @ '' in derivation path'')))"

definition parse_derivation_path :: "string \<Rightarrow> (u32 \<times> u32 \<times> u32 \<times> u32 \<times> u32) dres" where
  "parse_derivation_path path =
     (case split_on CHR ''/'' path of
        [m, p, c, a, ch, i] \<Rightarrow>
          if m \<noteq> ''m'' then Inl (Parse ''Invalid derivation path format'')
          else dbind (path_part ''purpose'' (trim_end_of (CHR 0x27) p)) (\<lambda>purpose.
               dbind (path_part ''coin type'' (trim_end_of (CHR 0x27) c)) (\<lambda>coin_type.
               dbind (path_part ''account'' (trim_end_of (CHR 0x27) a)) (\<lambda>account.
               dbind (path_part ''change'' ch) (\<lambda>change.
               dbind (path_part ''index'' i) (\<lambda>index.
                 Inr (purpose, coin_type, account, change, index))))))
      | _ \<Rightarrow> Inl (Parse ''Invalid derivation path format''))"

subsection \<open>Identifiers\<close>

datatype address_identifier = Self_wallet address_type u32 | External string | Raw string

text \<open>The captures of \<open>\[([^]]+)\]\<close>, from the left and without overlaps.\<close>

function find_bracketed :: "string \<Rightarrow> string list" where
  "find_bracketed [] = []"
| "find_bracketed (c # cs) =
     (let inner = takeWhile (\<lambda>x. x \<noteq> CHR '']'') cs
      in if c = CHR ''['' \<and> inner \<noteq> [] \<and> CHR '']'' \<in> set cs
         then inner # find_bracketed (drop (Suc (length inner)) cs) else find_bracketed cs)"
  by pat_completeness auto
termination by (relation "measure length") auto

definition is_shorthand_identifier :: "string \<Rightarrow> bool" where
  "is_shorthand_identifier input =
     (case split_on CHR '':'' input of
        [t] \<Rightarrow> is_valid_address_type t
      | [t, i] \<Rightarrow> is_valid_address_type t \<and> (from_str_radix 10 i :: u32 option) \<noteq> None
      | _ \<Rightarrow> False)"

definition bracket :: "string \<Rightarrow> string" where
  "bracket s = ''['' @ s @ '']''"

definition find_identifiers :: "string \<Rightarrow> string list" where
  "find_identifiers input =
     (let full = map bracket (find_bracketed input)
      in if full = [] \<and> is_shorthand_identifier input then [input] else full)"

definition contains_identifiers :: "string \<Rightarrow> bool" where
  "contains_identifiers input \<longleftrightarrow> find_identifiers input \<noteq> []"

definition index_of :: "string \<Rightarrow> u32 dres" where
  "index_of s = (case from_str_radix 10 s of Some n \<Rightarrow> Inr n | None \<Rightarrow> Inl (Parse ''Invalid address index''))"

definition parse_identifier :: "string \<Rightarrow> address_identifier dres" where
  "parse_identifier identifier =
     (let unknown = Inl (Parse (''Unknown identifier format: '' @ identifier))
      in case split_on CHR '':'' (trim_end_of CHR '']'' (trim_prefixes [''['' ] identifier)) of
           [t] \<Rightarrow>
             if is_valid_address_type t then dbind (address_type_of t) (\<lambda>a. Inr (Self_wallet a 0)) else Inr (Raw t)
         | [s, t] \<Rightarrow>
             if s = ''self'' then dbind (address_type_of t) (\<lambda>a. Inr (Self_wallet a 0))
             else if s = ''external'' then Inr (External t)
             else if is_valid_address_type s
             then dbind (address_type_of s) (\<lambda>a. dbind (index_of t) (\<lambda>i. Inr (Self_wallet a i)))
             else unknown
         | [s, t, i] \<Rightarrow>
             if s = ''self'' \<and> is_valid_address_type t
             then dbind (address_type_of t) (\<lambda>a. dbind (index_of i) (\<lambda>n. Inr (Self_wallet a n)))
             else unknown
         | _ \<Rightarrow> Inl (Parse (''Invalid identifier format: '' @ identifier)))"

subsection \<open>The resolver\<close>

text \<open>\<open>AddressResolver::get_address\<close> of the provider; the sum of the \<open>u32\<close> wraps around.\<close>

definition provider_address ::
  "'x wallet_libs \<Rightarrow> concrete_provider \<Rightarrow> keystore option \<Rightarrow> string \<Rightarrow> u32 \<Rightarrow> string dres" where
  "provider_address wl p ks address_type index =
     (if address_type \<noteq> ''p2tr'' then Inl (Wallet ''Only p2tr addresses are supported'')
      else dbind (get_addresses wl p ks (index + 1)) (\<lambda>addresses.
        if unat index < length addresses then Inr (ai_address (addresses ! unat index))
        else Inl (Wallet (''Address with index '' @ to_string index @ '' not found''))))"

text \<open>\<open>check_address\<close> is the parser of addresses with the text of its error.\<close>

definition resolve_parsed ::
  "(string \<Rightarrow> u32 \<Rightarrow> string dres) \<Rightarrow> (string \<Rightarrow> string option) \<Rightarrow> address_identifier \<Rightarrow> string dres" where
  "resolve_parsed address_at check_address ident =
     (case ident of
        Self_wallet t i \<Rightarrow> address_at (address_type_str t) i
      | External a \<Rightarrow> Inr a
      | Raw a \<Rightarrow> (case check_address a of Some msg \<Rightarrow> Inl (AddressResolution msg) | None \<Rightarrow> Inr a))"

definition resolve_identifier ::
  "(string \<Rightarrow> u32 \<Rightarrow> string dres) \<Rightarrow> (string \<Rightarrow> string option) \<Rightarrow> (string \<rightharpoonup> string) \<Rightarrow> string \<Rightarrow>
   string dres \<times> (string \<rightharpoonup> string)" where
  "resolve_identifier address_at check_address cache identifier =
     (case cache identifier of
        Some cached \<Rightarrow> (Inr cached, cache)
      | None \<Rightarrow>
          (case dbind (parse_identifier identifier) (resolve_parsed address_at check_address) of
             Inl e \<Rightarrow> (Inl e, cache)
           | Inr address \<Rightarrow> (Inr address, cache(identifier \<mapsto> address))))"

text \<open>\<open>str::replace\<close> of a non-empty pattern.\<close>

function replace_all :: "string \<Rightarrow> string \<Rightarrow> string \<Rightarrow> string" where
  "replace_all pat rep [] = []"
| "replace_all pat rep (c # cs) =
     (if pat \<noteq> [] \<and> prefix pat (c # cs) then rep @ replace_all pat rep (drop (length pat) (c # cs))
      else c # replace_all pat rep cs)"
  by pat_completeness auto
termination by (relation "measure (\<lambda>(pat, rep, s). length s)") (auto simp: prefix_def)

fun resolve_each ::
  "(string \<Rightarrow> u32 \<Rightarrow> string dres) \<Rightarrow> (string \<Rightarrow> string option) \<Rightarrow> (string \<rightharpoonup> string) \<Rightarrow> string \<Rightarrow> string list \<Rightarrow>
   string dres \<times> (string \<rightharpoonup> string)" where
  "resolve_each address_at check_address cache result [] = (Inr result, cache)"
| "resolve_each address_at check_address cache result (identifier # identifiers) =
     (case resolve_identifier address_at check_address cache identifier of
        (Inl e, cache') \<Rightarrow> (Inl e, cache')
      | (Inr address, cache') \<Rightarrow>
          resolve_each address_at check_address cache' (replace_all identifier address result) identifiers)"

definition resolve_all_identifiers ::
  "(string \<Rightarrow> u32 \<Rightarrow> string dres) \<Rightarrow> (string \<Rightarrow> string option) \<Rightarrow> (string \<rightharpoonup> string) \<Rightarrow> string \<Rightarrow>
   string dres \<times> (string \<rightharpoonup> string)" where
  "resolve_all_identifiers address_at check_address cache input =
     (if find_identifiers input = [] then (Inr input, cache)
      else resolve_each address_at check_address cache input (find_identifiers input))"

text \<open>The provider starts every resolution with an empty cache.\<close>

definition provider_resolve ::
  "'x wallet_libs \<Rightarrow> concrete_provider \<Rightarrow> keystore option \<Rightarrow> (string \<Rightarrow> string option) \<Rightarrow> string \<Rightarrow> string dres" where
  "provider_resolve wl p ks check_address input =
     fst (resolve_all_identifiers (provider_address wl p ks) check_address Map.empty input)"

definition list_identifiers :: "string list" where
  "list_identifiers = [''[self:p2tr:0]'', ''[self:p2tr:1]'']"

subsection \<open>The resolver without a provider\<close>

definition standalone_add :: "string \<Rightarrow> string \<Rightarrow> (string \<rightharpoonup> string) \<Rightarrow> (string \<rightharpoonup> string)" where
  "standalone_add identifier address m = m(identifier \<mapsto> address)"

definition standalone_resolve :: "(string \<rightharpoonup> string) \<Rightarrow> string \<Rightarrow> string dres" where
  "standalone_resolve m identifier =
     (case m identifier of Some a \<Rightarrow> Inr a
      | None \<Rightarrow> Inl (AddressResolution (''Unknown address identifier: '' @ identifier)))"

definition standalone_contains :: "(string \<rightharpoonup> string) \<Rightarrow> string \<Rightarrow> bool" where
  "standalone_contains m identifier \<longleftrightarrow> m identifier \<noteq> None"

definition is_raw_bitcoin_address :: "string \<Rightarrow> bool" where
  "is_raw_bitcoin_address addr \<longleftrightarrow>
     CHR ''['' \<notin> set addr \<and> CHR '':'' \<notin> set addr \<and>
     (\<exists>s \<in> {''1'', ''3'', ''bc1'', ''tb1'', ''bcrt1''}. prefix s addr)"

definition get_script_type_description ::
  "(script \<Rightarrow> bool) \<Rightarrow> (script \<Rightarrow> bool) \<Rightarrow> (script \<Rightarrow> bool) \<Rightarrow> (script \<Rightarrow> bool) \<Rightarrow> script \<Rightarrow> string" where
  "get_script_type_description is_p2pkh is_p2sh is_p2tr is_witness_program s =
     (if is_p2pkh s then ''P2PKH (Legacy)'' else if is_p2sh s then ''P2SH (Script Hash)''
      else if is_p2tr s then ''P2TR (Taproot)'' else if is_witness_program s then ''Witness Program (SegWit)''
      else ''Unknown'')"

subsection \<open>Lists of addresses\<close>

definition index_error :: "string \<Rightarrow> u32 dres" where
  "index_error s =
     (case parse_uint s of Inr n \<Rightarrow> Inr n | Inl msg \<Rightarrow> Inl (Parse (''Failed to parse integer: '' @ msg)))"

fun indices_of :: "string list \<Rightarrow> u32 list dres" where
  "indices_of [] = Inr []"
| "indices_of (s # ss) = dbind (index_error s) (\<lambda>i. dbind (indices_of ss) (\<lambda>is. Inr (i # is)))"

fun addresses_at :: "(string \<Rightarrow> u32 \<Rightarrow> string dres) \<Rightarrow> string \<Rightarrow> u32 list \<Rightarrow> string list dres" where
  "addresses_at address_at t [] = Inr []"
| "addresses_at address_at t (i # is) =
     dbind (address_at t i) (\<lambda>a. dbind (addresses_at address_at t is) (\<lambda>as. Inr (a # as)))"

text \<open>\<open>plain_address\<close>: not an address, one of another network, or its canonical form.\<close>

definition parse_address_spec ::
  "(string \<Rightarrow> u32 \<Rightarrow> string dres) \<Rightarrow> (string \<Rightarrow> string option option) \<Rightarrow> string \<Rightarrow> string list dres" where
  "parse_address_spec address_at plain_address spec =
     (case plain_address spec of
        Some None \<Rightarrow> Inl (InvalidParameters ''Address has an invalid network'')
      | Some (Some a) \<Rightarrow> Inr [a]
      | None \<Rightarrow>
          (case split_on CHR '':'' spec of
             [t, part] \<Rightarrow>
               dbind
                 (if CHR ''-'' \<in> set part
                  then (case split_on CHR ''-'' part of
                          [s, e] \<Rightarrow> dbind (index_error s) (\<lambda>first. dbind (index_error e) (\<lambda>final.
                            Inr (map of_nat [unat first ..< Suc (unat final)])))
                        | _ \<Rightarrow> Inl (Parse (''Invalid range: '' @ part)))
                  else if CHR '','' \<in> set part then indices_of (split_on CHR '','' part)
                  else indices_of [part])
                 (addresses_at address_at t)
           | _ \<Rightarrow> Inl (Parse (''Invalid address specifier: '' @ spec))))"

subsection \<open>Paths are read back\<close>

lemma trim_prefixes_char: "trim_prefixes [[c]] s = dropWhile ((=) c) s"
proof (induction s)
  case Nil
  then show ?case by (subst trim_prefixes.simps) simp
next
  case (Cons d s)
  then show ?case by (subst trim_prefixes.simps) auto
qed

lemma dropWhile_hd: "s \<noteq> [] \<Longrightarrow> hd s \<noteq> c \<Longrightarrow> dropWhile ((=) c) s = s"
  by (cases s) simp_all

lemma trim_end_hardened: "trim_end_of (CHR 0x27) (hardened n) = to_string n"
proof -
  have "last (to_string n) \<in> decimal_digits"
    using set_dec_string [of "unat n"] by (auto simp: to_string_def intro: subsetD [OF _ last_in_set])
  moreover have "CHR 0x27 \<notin> decimal_digits" by (simp add: decimal_digits_def)
  ultimately have "last (to_string n) \<noteq> CHR 0x27" by metis
  moreover have "to_string n \<noteq> []" by (simp add: to_string_def)
  ultimately have "dropWhile ((=) (CHR 0x27)) (rev (to_string n)) = rev (to_string n)"
    by (intro dropWhile_hd) (simp_all add: hd_rev)
  then show ?thesis by (simp add: trim_end_of_def hardened_def trim_prefixes_char)
qed

lemma derivation_path_round_trip:
  "parse_derivation_path (get_derivation_path t network account change index) =
    Inr (purpose_of t, coin_type_of network, account, change, index)"
proof -
  have digits: "CHR ''/'' \<notin> set (to_string n)" for n :: u32
    using set_dec_string [of "unat n"] by (auto simp: to_string_def decimal_digits_def)
  have "split_on CHR ''/'' (get_derivation_path t network account change index) =
      [''m'', hardened (purpose_of t), hardened (coin_type_of network), hardened account, to_string change, to_string index]"
    unfolding get_derivation_path_def by (rule split_on_join) (use digits in \<open>auto simp: hardened_def\<close>)
  then show ?thesis
    by (simp add: parse_derivation_path_def trim_end_hardened path_part_def from_str_radix_to_string)
qed

subsection \<open>Texts with identifiers\<close>

definition unbracketed :: "string \<Rightarrow> bool" where
  "unbracketed s \<longleftrightarrow> CHR ''['' \<notin> set s \<and> CHR '']'' \<notin> set s"

text \<open>A text of identifiers, each followed by a piece of text; those in the map are replaced.\<close>

definition mixed :: "(string \<rightharpoonup> string) \<Rightarrow> (string \<times> string) list \<Rightarrow> string" where
  "mixed f parts = concat (map (\<lambda>(i, t). (case f i of Some a \<Rightarrow> a | None \<Rightarrow> bracket i) @ t) parts)"

lemma mixed_simps [simp]:
  "mixed f [] = []" "mixed f ((i, t) # parts) = (case f i of Some a \<Rightarrow> a | None \<Rightarrow> bracket i) @ t @ mixed f parts"
  by (simp_all add: mixed_def)

lemma replace_all_skip:
  "CHR ''['' \<notin> set u \<Longrightarrow> replace_all (bracket j) a (u @ s) = u @ replace_all (bracket j) a s"
  by (induction u) (auto simp: bracket_def)

lemma replace_all_here: "replace_all (bracket j) a (bracket j @ s) = a @ replace_all (bracket j) a s"
  by (simp add: bracket_def)

lemma bracket_eq_prefix:
  assumes "unbracketed i" "unbracketed j" "prefix (bracket j) (bracket i @ s)"
  shows "i = j"
proof -
  obtain r where "j @ '']'' @ r = i @ '']'' @ s" using assms(3) by (auto simp: bracket_def prefix_def)
  then have "takeWhile (\<lambda>c. c \<noteq> CHR '']'') (j @ CHR '']'' # r) = takeWhile (\<lambda>c. c \<noteq> CHR '']'') (i @ CHR '']'' # s)" by simp
  moreover have "takeWhile (\<lambda>c. c \<noteq> CHR '']'') (u @ CHR '']'' # v) = u" if "unbracketed u" for u v
    using that by (induction u) (auto simp: unbracketed_def)
  ultimately show ?thesis using assms(1,2) by simp
qed

lemma replace_all_other:
  assumes "unbracketed i" "unbracketed j" "i \<noteq> j"
  shows "replace_all (bracket j) a (bracket i @ s) = bracket i @ replace_all (bracket j) a s"
proof -
  have no: "\<not> prefix (bracket j) (CHR ''['' # (i @ '']'') @ s)"
    using bracket_eq_prefix [of i j s] assms by (auto simp: bracket_def)
  have "CHR ''['' \<notin> set (i @ '']'')" using assms(1) by (simp add: unbracketed_def)
  from replace_all_skip [OF this] no show ?thesis by (simp add: bracket_def)
qed

definition texts_ok :: "(string \<Rightarrow> string) \<Rightarrow> (string \<times> string) list \<Rightarrow> bool" where
  "texts_ok addr parts \<longleftrightarrow>
     (\<forall>(i, t) \<in> set parts. i \<noteq> [] \<and> unbracketed i \<and> unbracketed t \<and> CHR ''['' \<notin> set (addr i))"

lemma texts_ok_Cons [simp]:
  "texts_ok addr ((i, t) # parts) \<longleftrightarrow>
    i \<noteq> [] \<and> unbracketed i \<and> unbracketed t \<and> CHR ''['' \<notin> set (addr i) \<and> texts_ok addr parts"
  by (auto simp: texts_ok_def)

lemma replace_all_mixed:
  assumes "texts_ok addr parts" "unbracketed j" "\<forall>i a. f i = Some a \<longrightarrow> a = addr i"
  shows "replace_all (bracket j) (addr j) (mixed f parts) = mixed (f(j \<mapsto> addr j)) parts"
  using assms(1)
proof (induction parts)
  case (Cons part parts)
  obtain i t where part: "part = (i, t)" by (cases part)
  have i: "unbracketed i" "CHR ''['' \<notin> set t" "CHR ''['' \<notin> set (addr i)"
    and ok: "texts_ok addr parts"
    using Cons.prems by (auto simp: part unbracketed_def)
  note IH = Cons.IH [OF ok]
  show ?case
  proof (cases "f i")
    case (Some a)
    then have "a = addr i" using assms(3) by blast
    then show ?thesis using Some i(2,3) IH by (auto simp: part replace_all_skip)
  next
    case None
    then show ?thesis using i(2) IH replace_all_here [of j "addr j" "t @ mixed f parts"]
        replace_all_other [OF i(1) assms(2), of "addr j" "t @ mixed f parts"]
      by (cases "i = j") (simp_all add: part replace_all_skip)
  qed
qed simp

lemma find_bracketed_skip: "CHR ''['' \<notin> set u \<Longrightarrow> find_bracketed (u @ s) = find_bracketed s"
  by (induction u) auto

lemma find_bracketed_here:
  assumes "i \<noteq> []" "unbracketed i"
  shows "find_bracketed (bracket i @ s) = i # find_bracketed s"
proof -
  have "takeWhile (\<lambda>c. c \<noteq> CHR '']'') (i @ CHR '']'' # s) = i"
    using assms(2) by (induction i) (auto simp: unbracketed_def)
  then show ?thesis using assms(1) by (simp add: bracket_def)
qed

lemma find_bracketed_mixed: "texts_ok addr parts \<Longrightarrow> find_bracketed (mixed Map.empty parts) = map fst parts"
proof (induction parts)
  case (Cons part parts)
  then show ?case by (cases part) (auto simp: find_bracketed_here find_bracketed_skip unbracketed_def)
qed simp

lemma resolve_each_mixed:
  assumes "texts_ok addr parts" "unbracketed front" "\<forall>j \<in> set js. unbracketed j"
    and "\<forall>j \<in> set js. dbind (parse_identifier (bracket j)) (resolve_parsed address_at check_address) = Inr (addr j)"
    and "\<forall>i a. f i = Some a \<longrightarrow> a = addr i" "\<forall>j \<in> set js. \<forall>a. cache (bracket j) = Some a \<longrightarrow> a = addr j"
  shows "fst (resolve_each address_at check_address cache (front @ mixed f parts) (map bracket js)) =
    Inr (front @ mixed (\<lambda>i. if i \<in> set js then Some (addr i) else f i) parts)"
  using assms(3-6)
proof (induction js arbitrary: f cache)
  case (Cons j js)
  have resolved: "\<exists>cache'. resolve_identifier address_at check_address cache (bracket j) = (Inr (addr j), cache') \<and>
      (\<forall>k \<in> set js. \<forall>a. cache' (bracket k) = Some a \<longrightarrow> a = addr k)"
  proof (cases "cache (bracket j)")
    case None
    then show ?thesis using Cons.prems(2,4) by (auto simp: resolve_identifier_def bracket_def)
  next
    case (Some a)
    then show ?thesis using Cons.prems(4) by (auto simp: resolve_identifier_def)
  qed
  then obtain cache' where cache': "resolve_identifier address_at check_address cache (bracket j) = (Inr (addr j), cache')"
    "\<forall>k \<in> set js. \<forall>a. cache' (bracket k) = Some a \<longrightarrow> a = addr k" by blast
  have "CHR ''['' \<notin> set front" using assms(2) by (simp add: unbracketed_def)
  then have replaced: "replace_all (bracket j) (addr j) (front @ mixed f parts) = front @ mixed (f(j \<mapsto> addr j)) parts"
    using replace_all_mixed [OF assms(1) _ Cons.prems(3), of j] Cons.prems(1) by (simp add: replace_all_skip)
  have "fst (resolve_each address_at check_address cache' (front @ mixed (f(j \<mapsto> addr j)) parts) (map bracket js)) =
      Inr (front @ mixed (\<lambda>i. if i \<in> set js then Some (addr i) else (f(j \<mapsto> addr j)) i) parts)"
    using Cons.prems cache'(2) by (intro Cons.IH) auto
  moreover have "(\<lambda>i. if i \<in> set js then Some (addr i) else (f(j \<mapsto> addr j)) i) =
      (\<lambda>i. if i \<in> set (j # js) then Some (addr i) else f i)" by auto
  ultimately show ?case using cache'(1) replaced by (simp only: list.map resolve_each.simps split sum.case)
qed simp

text \<open>
  Resolving a text.  When every identifier in a text can be resolved, the text comes back with
  each of them, also the repeated ones, replaced by its address, and the rest unchanged.
\<close>

theorem identifiers_resolved:
  assumes "texts_ok addr parts" "unbracketed front" "parts \<noteq> []"
    and "\<forall>(i, t) \<in> set parts. dbind (parse_identifier (bracket i)) (resolve_parsed address_at check_address) = Inr (addr i)"
  shows "fst (resolve_all_identifiers address_at check_address Map.empty
      (front @ concat (map (\<lambda>(i, t). bracket i @ t) parts))) = Inr (front @ concat (map (\<lambda>(i, t). addr i @ t) parts))"
proof -
  let ?text = "front @ mixed Map.empty parts"
  have "find_bracketed ?text = map fst parts"
    using assms(1,2) by (simp add: find_bracketed_skip find_bracketed_mixed unbracketed_def)
  then have "find_identifiers ?text = map bracket (map fst parts)" "map bracket (map fst parts) \<noteq> []"
    using assms(3) by (simp_all add: find_identifiers_def Let_def)
  then have "fst (resolve_all_identifiers address_at check_address Map.empty ?text) =
      fst (resolve_each address_at check_address Map.empty ?text (map bracket (map fst parts)))"
    by (simp add: resolve_all_identifiers_def)
  also have "\<dots> = Inr (front @ mixed (\<lambda>i. if i \<in> set (map fst parts) then Some (addr i) else Map.empty i) parts)"
    using assms(1,2,4) by (intro resolve_each_mixed) (auto simp: texts_ok_def)
  also have "mixed (\<lambda>i. if i \<in> set (map fst parts) then Some (addr i) else Map.empty i) parts =
      concat (map (\<lambda>(i, t). addr i @ t) parts)"
    unfolding mixed_def by (intro arg_cong [of _ _ concat] map_cong refl) force
  finally show ?thesis by (simp add: mixed_def)
qed

lemma parse_p2tr: "parse_identifier (bracket ''p2tr'') = Inr (Self_wallet P2TR 0)"
proof -
  have lower: "lowercase ''p2tr'' = ''p2tr''"
    by (subst lowercase_def, subst kelvin_lowercase_ascii) (simp_all add: to_ascii_lowercase_def lower_char_def)
  have "trim_end_of CHR '']'' (trim_prefixes [''['' ] (bracket ''p2tr'')) = ''p2tr''"
    by (simp add: trim_end_of_def trim_prefixes_char bracket_def)
  then show ?thesis
    by (simp add: parse_identifier_def is_valid_address_type_def address_type_of_def lower)
qed

lemma identifiers_resolved_witness:
  "fst (resolve_all_identifiers (\<lambda>t i. Inr ''bc1p'') (\<lambda>s. None) Map.empty
     (''pay '' @ concat (map (\<lambda>(i, t). bracket i @ t) [(''p2tr'', '' or ''), (''p2tr'', [])]))) = Inr ''pay bc1p or bc1p''"
  using identifiers_resolved [where addr = "\<lambda>i. ''bc1p''" and front = "''pay ''" and parts = "[(''p2tr'', '' or ''), (''p2tr'', [])]"
      and address_at = "\<lambda>t i. Inr ''bc1p''" and check_address = "\<lambda>s. None"]
  by (simp add: parse_p2tr resolve_parsed_def unbracketed_def texts_ok_def)

end
