(* ===== verification/Block_Monitor.thy ===== *)
theory Block_Monitor
  imports Wallet
begin

text \<open>
  The monitor of \<open>monitor.rs\<close>: one pass of its loop over new blocks with the events of a block and the
  callbacks, the monitor of addresses and the filter of events.  The events of a block are given by the
  provider, the parser of transactions by the bitcoin crate, and both are parameters; the callbacks are
  recorded in the order of their calls.  Logging and times are left out.
\<close>

subsection \<open>Events and configuration\<close>

record block_event =
  be_type :: string
  be_height :: u64
  be_txid :: string
  be_data :: json

datatype callback = Block_callback | Transaction_callback | Address_callback | Runestone_callback
  | Alkanes_callback | Protorunes_callback

record monitor_config =
  mc_addresses :: "string list option"
  mc_callbacks :: "callback set"

record monitor_state =
  mo_height :: u64
  mo_blocks :: u64
  mo_events :: u64
  mo_emitted :: "(callback \<times> block_event) list"

text \<open>\<open>tx_addresses\<close>: the txids of the inputs and the mainnet addresses of the outputs, or the text of an error.\<close>

record monitor_provider =
  mp_metashrew_height :: "nat \<Rightarrow> u64 dres"
  mp_block_count :: "nat \<Rightarrow> u64 dres"
  mp_block_events :: "nat \<Rightarrow> u64 \<Rightarrow> block_event list dres"
  mp_transaction_hex :: "nat \<Rightarrow> string \<Rightarrow> string dres"
  mp_decode_hex :: "string \<Rightarrow> string + byte list"
  mp_tx_addresses :: "byte list \<Rightarrow> string + string list \<times> string option list"

text \<open>The provider of \<open>provider.rs\<close> does not give the events of a block.\<close>

definition concrete_monitor_provider ::
  "backend \<Rightarrow> concrete_provider \<Rightarrow> (string \<Rightarrow> string + byte list) \<Rightarrow> (byte list \<Rightarrow> string + string list \<times> string option list) \<Rightarrow>
   monitor_provider" where
  "concrete_monitor_provider b p decode addresses =
     \<lparr>mp_metashrew_height = get_metashrew_height b p, mp_block_count = get_block_count b p,
      mp_block_events = (\<lambda>n height. Inl (NotImplemented ''MonitorProvider get_block_events not yet implemented'')),
      mp_transaction_hex = get_transaction_hex b p, mp_decode_hex = decode, mp_tx_addresses = addresses\<rparr>"

definition emit :: "monitor_config \<Rightarrow> callback \<Rightarrow> block_event \<Rightarrow> monitor_state \<Rightarrow> monitor_state" where
  "emit c cb e s = (if cb \<in> mc_callbacks c then s\<lparr>mo_emitted := mo_emitted s @ [(cb, e)]\<rparr> else s)"

subsection \<open>The events of a block\<close>

definition transaction_involves_addresses ::
  "monitor_provider \<Rightarrow> string \<Rightarrow> string list \<Rightarrow> nat \<Rightarrow> bool dres" where
  "transaction_involves_addresses mp txid addresses n =
     (case mp_transaction_hex mp n txid of
        Inl _ \<Rightarrow> Inr False
      | Inr tx_hex \<Rightarrow>
          (case mp_decode_hex mp tx_hex of
             Inl e \<Rightarrow> Inl (Parse (''Invalid hex: '' @ e))
           | Inr bytes \<Rightarrow>
               (case mp_tx_addresses mp bytes of
                  Inl e \<Rightarrow> Inl (Parse (''Invalid transaction: '' @ e))
                | Inr (inputs, outputs) \<Rightarrow>
                    Inr ((\<exists>prev \<in> set inputs. \<exists>addr \<in> set addresses. str_contains addr prev) \<or>
                         (\<exists>a \<in> set addresses. Some a \<in> set outputs)))))"

text \<open>What an operation on the monitor gives: an error or not, the state, and the number of the next request.\<close>

type_synonym monitored = "deezel_error option \<times> monitor_state \<times> nat"

definition process_transaction_event ::
  "monitor_provider \<Rightarrow> monitor_config \<Rightarrow> block_event \<Rightarrow> monitor_state \<Rightarrow> nat \<Rightarrow> monitored" where
  "process_transaction_event mp c e s n =
     (let s = emit c Transaction_callback e s
      in case mc_addresses c of
           None \<Rightarrow> (None, s, n)
         | Some addresses \<Rightarrow>
             (case transaction_involves_addresses mp (be_txid e) addresses n of
                Inl err \<Rightarrow> (Some err, s, Suc n)
              | Inr involved \<Rightarrow> (None, if involved then emit c Address_callback e s else s, Suc n)))"

definition process_block_event ::
  "monitor_provider \<Rightarrow> monitor_config \<Rightarrow> block_event \<Rightarrow> monitor_state \<Rightarrow> nat \<Rightarrow> monitored" where
  "process_block_event mp c e s n =
     (case (if be_type e = ''transaction'' then process_transaction_event mp c e s n
            else if be_type e = ''runestone'' then (None, emit c Runestone_callback e s, n)
            else if be_type e = ''alkanes'' then (None, emit c Alkanes_callback e s, n)
            else if be_type e = ''protorunes'' then (None, emit c Protorunes_callback e s, n)
            else (None, s, n)) of
        (Some err, s', n') \<Rightarrow> (Some err, s', n')
      | (None, s', n') \<Rightarrow> (None, s'\<lparr>mo_events := mo_events s' + 1\<rparr>, n'))"

fun process_events ::
  "monitor_provider \<Rightarrow> monitor_config \<Rightarrow> block_event list \<Rightarrow> monitor_state \<Rightarrow> nat \<Rightarrow> monitored" where
  "process_events mp c [] s n = (None, s, n)"
| "process_events mp c (e # es) s n =
     (case process_block_event mp c e s n of
        (Some err, s', n') \<Rightarrow> (Some err, s', n')
      | (None, s', n') \<Rightarrow> process_events mp c es s' n')"

definition processed_event :: "u64 \<Rightarrow> nat \<Rightarrow> block_event" where
  "processed_event height events_count =
     \<lparr>be_type = ''block_processed'', be_height = height, be_txid = [],
      be_data = JObj [(''height'', JNum (PosInt height)), (''events_count'', JNum (PosInt (of_nat events_count)))]\<rparr>"

definition process_monitored_block ::
  "monitor_provider \<Rightarrow> monitor_config \<Rightarrow> u64 \<Rightarrow> monitor_state \<Rightarrow> nat \<Rightarrow> monitored" where
  "process_monitored_block mp c height s n =
     (case mp_block_events mp n height of
        Inl err \<Rightarrow> (Some err, s, Suc n)
      | Inr events \<Rightarrow>
          (case process_events mp c events s (Suc n) of
             (Some err, s', n') \<Rightarrow> (Some err, s', n')
           | (None, s', n') \<Rightarrow>
               (None, emit c Block_callback (processed_event height (length events)) (s'\<lparr>mo_blocks := mo_blocks s' + 1\<rparr>), n')))"

subsection \<open>The loop\<close>

definition get_current_blockchain_height :: "monitor_provider \<Rightarrow> nat \<Rightarrow> u64 dres \<times> nat" where
  "get_current_blockchain_height mp n =
     (case mp_metashrew_height mp n of
        Inr h \<Rightarrow> (Inr h, Suc n)
      | Inl _ \<Rightarrow> (mp_block_count mp (Suc n), Suc (Suc n)))"

definition heights_after :: "u64 \<Rightarrow> u64 \<Rightarrow> u64 list" where
  "heights_after old new = map of_nat [Suc (unat old) ..< Suc (unat new)]"

definition check_new_blocks ::
  "monitor_provider \<Rightarrow> monitor_state \<Rightarrow> nat \<Rightarrow> u64 list dres \<times> monitor_state \<times> nat" where
  "check_new_blocks mp s n =
     (case get_current_blockchain_height mp n of
        (Inl e, n') \<Rightarrow> (Inl e, s, n')
      | (Inr current, n') \<Rightarrow>
          if mo_height s < current then (Inr (heights_after (mo_height s) current), s\<lparr>mo_height := current\<rparr>, n')
          else (Inr [], s, n'))"

text \<open>An error is logged.  The first component lists the heights with what came of them.\<close>

fun process_heights ::
  "monitor_provider \<Rightarrow> monitor_config \<Rightarrow> u64 list \<Rightarrow> monitor_state \<Rightarrow> nat \<Rightarrow>
   (u64 \<times> deezel_error option) list \<times> monitor_state \<times> nat" where
  "process_heights mp c [] s n = ([], s, n)"
| "process_heights mp c (h # hs) s n =
     (case process_monitored_block mp c h s n of (r, s', n') \<Rightarrow>
      case process_heights mp c hs s' n' of (rs, s'', n'') \<Rightarrow> ((h, r) # rs, s'', n''))"

definition monitor_pass ::
  "monitor_provider \<Rightarrow> monitor_config \<Rightarrow> monitor_state \<Rightarrow> nat \<Rightarrow> (u64 \<times> deezel_error option) list \<times> monitor_state \<times> nat" where
  "monitor_pass mp c s n =
     (case check_new_blocks mp s n of
        (Inl e, s', n') \<Rightarrow> ([], s', n')
      | (Inr hs, s', n') \<Rightarrow> process_heights mp c hs s' n')"

text \<open>The loop has no end; these are its first passes.\<close>

fun monitor_passes ::
  "monitor_provider \<Rightarrow> monitor_config \<Rightarrow> nat \<Rightarrow> monitor_state \<Rightarrow> nat \<Rightarrow>
   (u64 \<times> deezel_error option) list \<times> monitor_state \<times> nat" where
  "monitor_passes mp c 0 s n = ([], s, n)"
| "monitor_passes mp c (Suc k) s n =
     (case monitor_pass mp c s n of (rs, s', n') \<Rightarrow>
      case monitor_passes mp c k s' n' of (rs', s'', n'') \<Rightarrow> (rs @ rs', s'', n''))"

definition start_monitoring ::
  "monitor_provider \<Rightarrow> monitor_config \<Rightarrow> u64 option \<Rightarrow> nat \<Rightarrow> monitor_state \<Rightarrow> nat \<Rightarrow>
   (u64 \<times> deezel_error option) list \<times> monitor_state \<times> nat" where
  "start_monitoring mp c start_height k s n =
     monitor_passes mp c k (s\<lparr>mo_height := unwrap_or 0 start_height\<rparr>) n"

definition add_monitored_address :: "string \<Rightarrow> monitor_config \<Rightarrow> monitor_config" where
  "add_monitored_address address c =
     (let addresses = unwrap_or [] (mc_addresses c)
      in c\<lparr>mc_addresses := Some (if address \<in> set addresses then addresses else addresses @ [address])\<rparr>)"

definition remove_monitored_address :: "string \<Rightarrow> monitor_config \<Rightarrow> monitor_config" where
  "remove_monitored_address address c =
     c\<lparr>mc_addresses := map_option (filter (\<lambda>a. a \<noteq> address)) (mc_addresses c)\<rparr>"

subsection \<open>The monitor of addresses\<close>

record address_monitor_info =
  am_label :: "string option"
  am_transaction_count :: nat

definition monitor_add_address ::
  "string \<Rightarrow> string option \<Rightarrow> (string \<times> address_monitor_info) list \<Rightarrow> (string \<times> address_monitor_info) list" where
  "monitor_add_address address label m = AList.update address \<lparr>am_label = label, am_transaction_count = 0\<rparr> m"

definition monitor_remove_address ::
  "string \<Rightarrow> (string \<times> address_monitor_info) list \<Rightarrow> (string \<times> address_monitor_info) list" where
  "monitor_remove_address address m = AList.delete address m"

text \<open>The entries in the order of the iteration over the map; an activity is an address with the number
  of new transactions.\<close>

fun check_address_activity ::
  "(nat \<Rightarrow> string \<Rightarrow> json dres) \<Rightarrow> (string \<times> address_monitor_info) list \<Rightarrow> nat \<Rightarrow>
   (string \<times> nat \<times> json) list \<times> (string \<times> address_monitor_info) list \<times> nat" where
  "check_address_activity txs_of [] n = ([], [], n)"
| "check_address_activity txs_of ((address, info) # m) n =
     (case check_address_activity txs_of m (Suc n) of (activities, m', n') \<Rightarrow>
      case txs_of n address of
        Inl _ \<Rightarrow> (activities, (address, info) # m', n')
      | Inr txs \<Rightarrow>
          (case as_array txs of
             None \<Rightarrow> (activities, (address, info) # m', n')
           | Some xs \<Rightarrow>
               if am_transaction_count info < length xs
               then ((address, length xs - am_transaction_count info, txs) # activities,
                     (address, info\<lparr>am_transaction_count := length xs\<rparr>) # m', n')
               else (activities, (address, info) # m', n')))"

subsection \<open>Filters\<close>

record event_filter =
  ef_types :: "string list"
  ef_addresses :: "string list"
  ef_min :: "u64 option"
  ef_max :: "u64 option"

definition event_filter_new :: event_filter where
  "event_filter_new = \<lparr>ef_types = [], ef_addresses = [], ef_min = None, ef_max = None\<rparr>"

definition filter_add_type :: "string \<Rightarrow> event_filter \<Rightarrow> event_filter" where
  "filter_add_type t f = (if t \<in> set (ef_types f) then f else f\<lparr>ef_types := ef_types f @ [t]\<rparr>)"

definition filter_add_address :: "string \<Rightarrow> event_filter \<Rightarrow> event_filter" where
  "filter_add_address a f = (if a \<in> set (ef_addresses f) then f else f\<lparr>ef_addresses := ef_addresses f @ [a]\<rparr>)"

definition set_amount_range :: "u64 option \<Rightarrow> u64 option \<Rightarrow> event_filter \<Rightarrow> event_filter" where
  "set_amount_range lo hi f = f\<lparr>ef_min := lo, ef_max := hi\<rparr>"

text \<open>The addresses are not looked at.\<close>

definition filter_matches :: "event_filter \<Rightarrow> block_event \<Rightarrow> bool" where
  "filter_matches f e \<longleftrightarrow>
     (ef_types f = [] \<or> be_type e \<in> set (ef_types f)) \<and>
     (case (ef_min f, Option.bind (jget ''amount'' (be_data e)) as_u64) of
        (Some lo, Some amount) \<Rightarrow> lo \<le> amount | _ \<Rightarrow> True) \<and>
     (case (ef_max f, Option.bind (jget ''amount'' (be_data e)) as_u64) of
        (Some hi, Some amount) \<Rightarrow> amount \<le> hi | _ \<Rightarrow> True)"

subsection \<open>Every height is tried once\<close>

lemma emit_fields [simp]: "mo_height (emit c cb e s) = mo_height s" "mo_blocks (emit c cb e s) = mo_blocks s"
  by (simp_all add: emit_def)

lemma process_block_event_fields:
  "process_block_event mp c e s n = (r, s', n') \<Longrightarrow> mo_height s' = mo_height s \<and> mo_blocks s' = mo_blocks s"
  by (auto simp: process_block_event_def process_transaction_event_def Let_def
      split: if_splits option.splits sum.splits prod.splits)

lemma process_events_fields:
  "process_events mp c es s n = (r, s', n') \<Longrightarrow> mo_height s' = mo_height s \<and> mo_blocks s' = mo_blocks s"
proof (induction es arbitrary: s n)
  case (Cons e es)
  obtain r1 s1 n1 where step: "process_block_event mp c e s n = (r1, s1, n1)" by (metis prod_cases3)
  note fields = process_block_event_fields [OF step]
  show ?case
  proof (cases r1)
    case None
    then have "process_events mp c es s1 n1 = (r, s', n')" using Cons.prems step by simp
    from Cons.IH [OF this] fields show ?thesis by simp
  qed (use Cons.prems step fields in simp)
qed simp

lemma process_block_fields:
  assumes "process_monitored_block mp c h s n = (r, s', n')"
  shows "mo_height s' = mo_height s" "mo_blocks s' = mo_blocks s + (if r = None then 1 else 0)"
  using assms
  by (auto simp: process_monitored_block_def split: sum.splits prod.splits option.splits dest: process_events_fields)

definition successes :: "(u64 \<times> deezel_error option) list \<Rightarrow> nat" where
  "successes rs = length (filter (\<lambda>(h, r). r = None) rs)"

lemma successes_simps [simp]:
  "successes [] = 0" "successes ((h, r) # rs) = (if r = None then 1 else 0) + successes rs"
  "successes (rs @ rs') = successes rs + successes rs'"
  by (simp_all add: successes_def)

text \<open>What decides how a height ends: the events that the provider answers for that height.\<close>

definition tried :: "monitor_provider \<Rightarrow> monitor_config \<Rightarrow> u64 \<Rightarrow> deezel_error option \<Rightarrow> bool" where
  "tried mp c height r \<longleftrightarrow>
     (\<exists>m. case mp_block_events mp m height of
            Inl err \<Rightarrow> r = Some err
          | Inr events \<Rightarrow> \<exists>s s' m'. process_events mp c events s (Suc m) = (r, s', m'))"

lemma process_block_tried: "process_monitored_block mp c h s n = (r, s', n') \<Longrightarrow> tried mp c h r"
  unfolding process_monitored_block_def tried_def
  by (rule exI [of _ n]) (auto split: sum.splits prod.splits option.splits)

lemma process_heights_fields:
  "process_heights mp c hs s n = (rs, s', n') \<Longrightarrow>
   map fst rs = hs \<and> mo_height s' = mo_height s \<and> mo_blocks s' = mo_blocks s + of_nat (successes rs) \<and>
   list_all (\<lambda>(h, r). tried mp c h r) rs"
proof (induction hs arbitrary: s n rs s' n')
  case (Cons h hs)
  obtain r s1 n1 where step: "process_monitored_block mp c h s n = (r, s1, n1)" by (metis prod_cases3)
  obtain rs2 s2 n2 where rest: "process_heights mp c hs s1 n1 = (rs2, s2, n2)" by (metis prod_cases3)
  show ?case
    using Cons.prems step rest Cons.IH [OF rest] process_block_fields [OF step] process_block_tried [OF step] by auto
qed simp

text \<open>The requests are numbered upwards.\<close>

lemma process_block_requests: "process_monitored_block mp c h s n = (r, s', n') \<Longrightarrow> n \<le> n'"
proof -
  have event: "n \<le> n'" if "process_block_event mp c e s n = (r, s', n')" for e s r s' n n'
    using that by (auto simp: process_block_event_def process_transaction_event_def Let_def
        split: if_splits option.splits sum.splits prod.splits)
  have events: "n \<le> n'" if "process_events mp c es s n = (r, s', n')" for es s r s' n n'
    using that by (induction es arbitrary: s n) (fastforce split: prod.splits option.splits dest: event)+
  show "process_monitored_block mp c h s n = (r, s', n') \<Longrightarrow> n \<le> n'"
    by (auto simp: process_monitored_block_def split: sum.splits prod.splits option.splits dest!: events)
qed

lemma process_heights_requests: "process_heights mp c hs s n = (rs, s', n') \<Longrightarrow> n \<le> n'"
  by (induction hs arbitrary: s n rs) (fastforce split: prod.splits dest: process_block_requests)+

text \<open>The height after a report of the backend: a failed request leaves it.\<close>

definition raised :: "u64 dres \<Rightarrow> u64 \<Rightarrow> u64" where
  "raised report height = (case report of Inl _ \<Rightarrow> height | Inr reported \<Rightarrow> max height reported)"

lemma heights_after_join:
  "unat a \<le> unat b \<Longrightarrow> unat b \<le> unat d \<Longrightarrow> heights_after a b @ heights_after b d = heights_after a d"
  using upt_add_eq_append [of "Suc (unat a)" "Suc (unat b)" "unat d - unat b"]
  by (simp add: heights_after_def flip: map_append)

lemma monitor_pass_fields:
  assumes "monitor_pass mp c s n = (rs, s', n')"
  shows "mo_height s' = raised (fst (get_current_blockchain_height mp n)) (mo_height s) \<and> n < n' \<and>
    map fst rs = heights_after (mo_height s) (mo_height s') \<and> unat (mo_height s) \<le> unat (mo_height s') \<and>
    mo_blocks s' = mo_blocks s + of_nat (successes rs) \<and> list_all (\<lambda>(h, r). tried mp c h r) rs"
proof -
  obtain report n1 where asked: "get_current_blockchain_height mp n = (report, n1)" by (rule prod.exhaust)
  then have later: "n < n1" by (auto simp: get_current_blockchain_height_def split: sum.splits)
  obtain r s1 where check: "check_new_blocks mp s n = (r, s1, n1)"
    and cases: "(case r of Inl e \<Rightarrow> s1 = s
      | Inr hs \<Rightarrow> mo_blocks s1 = mo_blocks s \<and> hs = heights_after (mo_height s) (mo_height s1) \<and> unat (mo_height s) \<le> unat (mo_height s1))"
    and height: "mo_height s1 = raised report (mo_height s)"
  proof (cases report)
    case (Inl e)
    with asked show thesis
      by (intro that [of "Inl e" s]) (simp_all add: check_new_blocks_def raised_def)
  next
    case (Inr current)
    with asked show thesis
      by (intro that [of "Inr (if mo_height s < current then heights_after (mo_height s) current else [])"
            "if mo_height s < current then s\<lparr>mo_height := current\<rparr> else s"])
        (auto simp: check_new_blocks_def raised_def heights_after_def word_less_nat_alt max_def word_le_nat_alt
          intro: word_unat_eq_iff [THEN iffD2])
  qed
  show ?thesis
  proof (cases r)
    case (Inl e)
    then show ?thesis using assms check cases height asked later
      by (auto simp: monitor_pass_def heights_after_def)
  next
    case (Inr hs)
    then have "process_heights mp c hs s1 n1 = (rs, s', n')" using assms check by (simp add: monitor_pass_def)
    from process_heights_fields [OF this] process_heights_requests [OF this] cases Inr height asked later show ?thesis
      by auto
  qed
qed

lemma monitor_passes_fields:
  "monitor_passes mp c k s n = (rs, s', n') \<Longrightarrow>
    \<exists>asked. length asked = k \<and> sorted_wrt (<) asked \<and> (\<forall>m \<in> set asked. n \<le> m) \<and>
      mo_height s' = fold raised (map (\<lambda>m. fst (get_current_blockchain_height mp m)) asked) (mo_height s) \<and>
      map fst rs = heights_after (mo_height s) (mo_height s') \<and> unat (mo_height s) \<le> unat (mo_height s') \<and>
      mo_blocks s' = mo_blocks s + of_nat (successes rs) \<and> list_all (\<lambda>(h, r). tried mp c h r) rs"
proof (induction k arbitrary: s n rs s' n')
  case 0
  then show ?case by (intro exI [of _ "[]"]) (simp add: heights_after_def)
next
  case (Suc k)
  obtain r1 s1 n1 where step: "monitor_pass mp c s n = (r1, s1, n1)" by (metis prod_cases3)
  obtain r2 s2 n2 where rest: "monitor_passes mp c k s1 n1 = (r2, s2, n2)" by (metis prod_cases3)
  have eq: "rs = r1 @ r2" "s' = s2" using Suc.prems step rest by auto
  note first = monitor_pass_fields [OF step]
  from Suc.IH [OF rest] obtain asked where asked: "length asked = k" "sorted_wrt (<) asked" "\<forall>m \<in> set asked. n1 \<le> m"
    "mo_height s2 = fold raised (map (\<lambda>m. fst (get_current_blockchain_height mp m)) asked) (mo_height s1)"
    "map fst r2 = heights_after (mo_height s1) (mo_height s2)" "unat (mo_height s1) \<le> unat (mo_height s2)"
    "mo_blocks s2 = mo_blocks s1 + of_nat (successes r2)" "list_all (\<lambda>(h, r). tried mp c h r) r2"
    by blast
  then show ?case
    using first heights_after_join [of "mo_height s" "mo_height s1" "mo_height s2"] unfolding eq
    by (intro exI [of _ "n # asked"]) force
qed

text \<open>
  C29: every pass of the monitor asks the backend for its height, and after any number of passes the
  monitor has the greatest of the start height and the heights reported.  It has tried every height
  after the first up to that one, once and in order: each with the events that the provider answered
  for that height, or the provider's error.  The heights whose processing fails are not tried again,
  and are not counted as blocks.
\<close>

theorem monitored_heights:
  "\<exists>rs s' n' asked. start_monitoring mp c start k s n = (rs, s', n') \<and>
    length asked = k \<and> sorted_wrt (<) asked \<and>
    mo_height s' = fold raised (map (\<lambda>m. fst (get_current_blockchain_height mp m)) asked) (unwrap_or 0 start) \<and>
    map fst rs = heights_after (unwrap_or 0 start) (mo_height s') \<and>
    list_all (\<lambda>(h, r). tried mp c h r) rs \<and>
    mo_blocks s' = mo_blocks s + of_nat (successes rs)"
proof -
  obtain rs s' n' where run: "start_monitoring mp c start k s n = (rs, s', n')" by (metis prod_cases3)
  with monitor_passes_fields [OF run [unfolded start_monitoring_def]] show ?thesis by auto
qed

text \<open>With the provider of the library every block fails, so that nothing is ever monitored.\<close>

lemma concrete_monitor_fails:
  "process_heights (concrete_monitor_provider b p decode addresses) c hs s n =
    (map (\<lambda>h. (h, Some (NotImplemented ''MonitorProvider get_block_events not yet implemented''))) hs, s, n + length hs)"
  by (induction hs arbitrary: n) (simp_all add: process_monitored_block_def concrete_monitor_provider_def)

end
