(* ===== verification/Metashrew_Views.thy ===== *)
theory Metashrew_Views
  imports Wallet
begin

text \<open>
  The calls of the provider (\<open>provider.rs\<close>) that go through the views of Metashrew: traces, bytecode,
  balances and spendables.  The protobuf messages are generated code: their fields are records here,
  their encoders and parsers parameters.
\<close>

subsection \<open>Messages\<close>

record uint128 =
  u_lo :: u64
  u_hi :: u64

record rune_id =
  ri_height :: "uint128 option"
  ri_txindex :: "uint128 option"

record rune_message =
  rm_rune_id :: "rune_id option"
  rm_name :: string
  rm_symbol :: string

record sheet_entry =
  sh_rune :: "rune_message option"
  sh_balance :: "uint128 option"

record outpoint_message =
  om_txid :: "byte list"
  om_vout :: u32

record output_message =
  ou_script :: "byte list"
  ou_value :: u64

record outpoint_response =
  or_balances :: "sheet_entry list option"
  or_outpoint :: "outpoint_message option"
  or_output :: "output_message option"

text \<open>
  \<open>txid_bytes_of\<close> is \<open>Txid::from_str\<close> with its bytes, \<open>txalkane\<close> the text of a txid given by its bytes;
  the encoders of requests fail on no input that occurs here; a parser gives a message or the text of
  its error.
\<close>

record proto_libs =
  txid_bytes_of :: "string \<Rightarrow> byte list dres"
  txalkane :: "byte list \<Rightarrow> string"
  outpoint_bytes :: "byte list \<Rightarrow> u32 \<Rightarrow> byte list"
  bytecode_bytes :: "u64 \<Rightarrow> u64 \<Rightarrow> byte list"
  wallet_bytes :: "string \<Rightarrow> byte list"
  protorunes_wallet_bytes :: "string \<Rightarrow> uint128 \<Rightarrow> byte list"
  protorunes_outpoint_bytes :: "byte list \<Rightarrow> u32 \<Rightarrow> uint128 \<Rightarrow> byte list"
  parse_wallet :: "byte list \<Rightarrow> string + outpoint_response list"
  parse_outpoint_response :: "byte list \<Rightarrow> string + outpoint_response"
  parse_sheet :: "byte list \<Rightarrow> string + sheet_entry list"
  parse_json_bytes :: "byte list \<Rightarrow> json dres"
  hex_failure :: "string \<Rightarrow> deezel_error"

text \<open>The prefixed hex form of a request, a view of it, and the parse of the answer.\<close>

definition prefixed_hex :: "byte list \<Rightarrow> string" where
  "prefixed_hex bs = ''0x'' @ hex_text bs"

definition view ::
  "libs \<Rightarrow> proto_libs \<Rightarrow> backend \<Rightarrow> concrete_provider \<Rightarrow> nat \<Rightarrow> string \<Rightarrow> byte list \<Rightarrow> string \<Rightarrow> byte list dres" where
  "view l pl b p n name request_bytes tag =
     metashrew_view_call (hex_failure pl) l b p n name (prefixed_hex request_bytes) tag"

definition parsed :: "string + 'a \<Rightarrow> 'a dres" where
  "parsed r = (case r of Inl msg \<Rightarrow> Inl (Serialization (''Protobuf error: '' @ msg)) | Inr x \<Rightarrow> Inr x)"

definition parse_number :: "string \<Rightarrow> 'a::len word dres" where
  "parse_number s =
     (case parse_uint s of Inr w \<Rightarrow> Inr w | Inl msg \<Rightarrow> Inl (Parse (''Failed to parse integer: '' @ msg)))"

subsection \<open>Traces and bytecode\<close>

definition trace_outpoint ::
  "libs \<Rightarrow> proto_libs \<Rightarrow> backend \<Rightarrow> concrete_provider \<Rightarrow> nat \<Rightarrow> string \<Rightarrow> u32 \<Rightarrow> json dres" where
  "trace_outpoint l pl b p n txid vout =
     dbind (txid_bytes_of pl txid) (\<lambda>bs.
     dbind (view l pl b p n ''trace'' (outpoint_bytes pl bs vout) ''latest'') (\<lambda>response.
       if response = [] then Inr JNull else parse_json_bytes pl response))"

definition trace_transaction ::
  "libs \<Rightarrow> proto_libs \<Rightarrow> backend \<Rightarrow> concrete_provider \<Rightarrow> nat \<Rightarrow> string \<Rightarrow> u32 \<Rightarrow> json dres" where
  "trace_transaction l pl b p n txid vout = trace_outpoint l pl b p n txid vout"

definition bytecode_of ::
  "libs \<Rightarrow> proto_libs \<Rightarrow> backend \<Rightarrow> concrete_provider \<Rightarrow> nat \<Rightarrow> string \<Rightarrow> string \<Rightarrow> string dres" where
  "bytecode_of l pl b p n block tx =
     dbind (parse_number block) (\<lambda>block.
     dbind (parse_number tx) (\<lambda>tx.
     dbind (view l pl b p n ''getbytecode'' (bytecode_bytes pl block tx) ''latest'') (\<lambda>response.
       Inr (prefixed_hex response))))"

definition alkanes_get_bytecode ::
  "libs \<Rightarrow> proto_libs \<Rightarrow> backend \<Rightarrow> concrete_provider \<Rightarrow> nat \<Rightarrow> string \<Rightarrow> string dres" where
  "alkanes_get_bytecode l pl b p n alkane =
     (case split_on CHR '':'' alkane of
        [block, tx] \<Rightarrow> bytecode_of l pl b p n block tx
      | _ \<Rightarrow> Inl (InvalidParameters (''Invalid alkane_id format. Expected 'block:tx'' @ [CHR 0x27])))"

definition alkanes_simulate ::
  "proto_libs \<Rightarrow> backend \<Rightarrow> concrete_provider \<Rightarrow> nat \<Rightarrow> string \<Rightarrow> string option \<Rightarrow> (string \<Rightarrow> byte list) \<Rightarrow> json dres" where
  "alkanes_simulate pl b p n contract_id params bytes_of =
     (case split_on CHR '':'' contract_id of
        [block, tx] \<Rightarrow>
          dbind (parse_number block) (\<lambda>block.
          dbind (parse_number tx) (\<lambda>tx.
            rpc_call b n (metashrew_rpc_url p) ''alkanes_simulate''
              (JArr [JStr (prefixed_hex (bytecode_bytes pl block tx)),
                 JStr (case params of Some q \<Rightarrow> prefixed_hex (bytes_of q) | None \<Rightarrow> ''0x'')])))
      | _ \<Rightarrow> Inl (InvalidParameters (''Invalid contract_id format. Expected 'block:tx'' @ [CHR 0x27])))"

subsection \<open>Balances\<close>

text \<open>A balance sheet as a map; \<open>to_uint128\<close> splits a number, \<open>lo as u128\<close> keeps its low half.\<close>

type_synonym sheet = "u128 \<times> u128 \<rightharpoonup> u128"

definition to_uint128 :: "u128 \<Rightarrow> uint128" where
  "to_uint128 w = \<lparr>u_lo = ucast w, u_hi = ucast (drop_bit 64 w)\<rparr>"

definition low_half :: "uint128 \<Rightarrow> u128" where
  "low_half u = ucast (u_lo u)"

definition add_entry :: "sheet \<Rightarrow> sheet_entry \<Rightarrow> sheet" where
  "add_entry m e =
     (case (Option.bind (sh_rune e) rm_rune_id, sh_balance e) of
        (Some rid, Some balance) \<Rightarrow>
          (case (ri_height rid, ri_txindex rid) of
             (Some height, Some txindex) \<Rightarrow> m((low_half height, low_half txindex) \<mapsto> low_half balance)
           | _ \<Rightarrow> m)
      | _ \<Rightarrow> m)"

definition sheet_of :: "sheet_entry list \<Rightarrow> sheet" where
  "sheet_of entries = foldl add_entry Map.empty entries"

record outpoint_balances =
  ob_output :: tx_out
  ob_outpoint :: outpoint
  ob_sheet :: sheet

definition missing :: "string \<Rightarrow> 'a option \<Rightarrow> 'a dres" where
  "missing msg x = (case x of Some y \<Rightarrow> Inr y | None \<Rightarrow> Inl (Other msg))"

definition output_of_message :: "output_message \<Rightarrow> tx_out" where
  "output_of_message m = \<lparr>to_amount = ou_value m, to_script_pubkey = ou_script m\<rparr>"

definition wallet_item :: "proto_libs \<Rightarrow> outpoint_response \<Rightarrow> outpoint_balances dres" where
  "wallet_item pl item =
     dbind (missing ''missing outpoint in wallet response'' (or_outpoint item)) (\<lambda>op.
     dbind (missing ''missing output in wallet response'' (or_output item)) (\<lambda>out.
     dbind (missing ''missing balance sheet in wallet response'' (or_balances item)) (\<lambda>entries.
       if length (om_txid op) \<noteq> 32 then Inl (Other ''invalid txid length in wallet response'')
       else Inr \<lparr>ob_output = output_of_message out, ob_outpoint = (txalkane pl (om_txid op), om_vout op),
              ob_sheet = sheet_of entries\<rparr>)))"

fun wallet_items :: "proto_libs \<Rightarrow> outpoint_response list \<Rightarrow> outpoint_balances list dres" where
  "wallet_items pl [] = Inr []"
| "wallet_items pl (item # items) =
     dbind (wallet_item pl item) (\<lambda>x. dbind (wallet_items pl items) (\<lambda>xs. Inr (x # xs)))"

definition get_protorunes_by_address ::
  "libs \<Rightarrow> proto_libs \<Rightarrow> backend \<Rightarrow> concrete_provider \<Rightarrow> nat \<Rightarrow> string \<Rightarrow> string option \<Rightarrow> u128 \<Rightarrow>
   outpoint_balances list dres" where
  "get_protorunes_by_address l pl b p n address block_tag protocol_tag =
     dbind (view l pl b p n ''protorunesbyaddress'' (protorunes_wallet_bytes pl address (to_uint128 protocol_tag))
       (unwrap_or ''latest'' block_tag)) (\<lambda>response.
       if response = [] then Inr []
       else dbind (parsed (parse_wallet pl response)) (wallet_items pl))"

definition get_protorunes_by_outpoint ::
  "libs \<Rightarrow> proto_libs \<Rightarrow> backend \<Rightarrow> concrete_provider \<Rightarrow> nat \<Rightarrow> string \<Rightarrow> u32 \<Rightarrow> string option \<Rightarrow> u128 \<Rightarrow>
   outpoint_balances dres" where
  "get_protorunes_by_outpoint l pl b p n txid vout block_tag protocol_tag =
     dbind (txid_bytes_of pl txid) (\<lambda>bs.
     dbind (view l pl b p n ''protorunesbyoutpoint'' (protorunes_outpoint_bytes pl (rev bs) vout (to_uint128 protocol_tag))
       (unwrap_or ''latest'' block_tag)) (\<lambda>response.
       if response = [] then Inl (Other ''empty response from protorunesbyoutpoint'')
       else dbind (parsed (parse_outpoint_response pl response)) (\<lambda>message.
         dbind (missing ''missing output in outpoint response'' (or_output message)) (\<lambda>out.
         dbind (missing ''missing balance sheet in outpoint response'' (or_balances message)) (\<lambda>entries.
           Inr \<lparr>ob_output = output_of_message out, ob_outpoint = (txalkane pl bs, vout), ob_sheet = sheet_of entries\<rparr>)))))"

text \<open>A missing part of an entry counts as 0.\<close>

definition low_or_zero :: "uint128 option \<Rightarrow> u64" where
  "low_or_zero u = (case u of Some x \<Rightarrow> u_lo x | None \<Rightarrow> 0)"

definition entry_id :: "sheet_entry \<Rightarrow> u64 \<times> u64" where
  "entry_id e =
     (case Option.bind (sh_rune e) rm_rune_id of
        Some rid \<Rightarrow> (low_or_zero (ri_height rid), low_or_zero (ri_txindex rid)) | None \<Rightarrow> (0, 0))"

record alkane_balance =
  ab_id :: "u64 \<times> u64"
  ab_name :: string
  ab_symbol :: string
  ab_balance :: u64

definition balance_of_entry :: "sheet_entry \<Rightarrow> alkane_balance" where
  "balance_of_entry e =
     \<lparr>ab_id = entry_id e,
      ab_name = (case sh_rune e of Some r \<Rightarrow> rm_name r | None \<Rightarrow> []),
      ab_symbol = (case sh_rune e of Some r \<Rightarrow> rm_symbol r | None \<Rightarrow> []),
      ab_balance = low_or_zero (sh_balance e)\<rparr>"

definition alkanes_get_balance ::
  "'x wallet_libs \<Rightarrow> libs \<Rightarrow> proto_libs \<Rightarrow> backend \<Rightarrow> concrete_provider \<Rightarrow> keystore option \<Rightarrow> nat \<Rightarrow> string option \<Rightarrow>
   alkane_balance list dres" where
  "alkanes_get_balance wl l pl b p ks n address =
     dbind (case address of Some a \<Rightarrow> Inr a | None \<Rightarrow> get_address wl p ks) (\<lambda>addr.
     dbind (view l pl b p n ''balancesbyaddress'' (wallet_bytes pl addr) ''latest'') (\<lambda>response.
       if response = [] then Inr []
       else dbind (parsed (parse_sheet pl response)) (\<lambda>entries. Inr (map balance_of_entry entries))))"

definition json_u64 :: "u64 \<Rightarrow> json" where
  "json_u64 w = JNum (PosInt w)"

definition rune_json :: "sheet_entry \<Rightarrow> json" where
  "rune_json e =
     JObj [(''runeId'', JObj [(''height'', json_u64 (fst (entry_id e))), (''txindex'', json_u64 (snd (entry_id e)))]),
       (''amount'', json_u64 (low_or_zero (sh_balance e)))]"

definition spendable_json :: "outpoint_response \<Rightarrow> json" where
  "spendable_json item =
     JObj [(''outpoint'', JObj [(''txid'', JStr (hex_text (case or_outpoint item of Some op \<Rightarrow> om_txid op | None \<Rightarrow> []))),
         (''vout'', json_u64 (case or_outpoint item of Some op \<Rightarrow> ucast (om_vout op) | None \<Rightarrow> 0))]),
       (''amount'', json_u64 (case or_output item of Some out \<Rightarrow> ou_value out | None \<Rightarrow> 0)),
       (''script'', JStr (hex_text (case or_output item of Some out \<Rightarrow> ou_script out | None \<Rightarrow> []))),
       (''runes'', JArr (case or_balances item of Some entries \<Rightarrow> map rune_json entries | None \<Rightarrow> []))]"

definition spendables_by_address ::
  "libs \<Rightarrow> proto_libs \<Rightarrow> backend \<Rightarrow> concrete_provider \<Rightarrow> nat \<Rightarrow> string \<Rightarrow> json dres" where
  "spendables_by_address l pl b p n address =
     dbind (view l pl b p n ''spendablesbyaddress'' (wallet_bytes pl address) ''latest'') (\<lambda>response.
       if response = [] then Inr (JArr [])
       else dbind (parsed (parse_wallet pl response)) (\<lambda>items. Inr (JArr (map spendable_json items))))"

subsection \<open>What a sheet says\<close>

text \<open>The entry of a rune with a balance, as a node sends it.\<close>

definition entry_of :: "(u128 \<times> u128) \<times> u128 \<Rightarrow> sheet_entry" where
  "entry_of x =
     \<lparr>sh_rune = Some \<lparr>rm_rune_id = Some \<lparr>ri_height = Some (to_uint128 (fst (fst x))), ri_txindex = Some (to_uint128 (snd (fst x)))\<rparr>,
        rm_name = [], rm_symbol = []\<rparr>,
      sh_balance = Some (to_uint128 (snd x))\<rparr>"

lemma low_half_to_uint128: "low_half (to_uint128 w) = take_bit 64 w"
  by (auto intro: bit_word_eqI simp: low_half_def to_uint128_def bit_word_ucast_iff bit_simps)

lemma foldl_add_entry:
  "foldl add_entry m (map entry_of xs) =
    m ++ map_of (rev (map (\<lambda>((h, t), v). ((take_bit 64 h, take_bit 64 t), take_bit 64 v)) xs))"
  by (induction xs arbitrary: m) (auto simp: add_entry_def entry_of_def low_half_to_uint128)

text \<open>
  The balances of an outpoint.  For runes with different ids that fit into 64 bits, what is read
  is each balance without its high half: a balance is reported right exactly if it is below \<open>2^64\<close>.
\<close>

theorem reported_balance:
  assumes "distinct (map fst runes)" "\<forall>((h, t), v) \<in> set runes. h < 2 ^ 64 \<and> t < 2 ^ 64" "((h, t), v) \<in> set runes"
  shows "sheet_of (map entry_of runes) (h, t) = Some (take_bit 64 v) \<and>
    (sheet_of (map entry_of runes) (h, t) = Some v \<longleftrightarrow> v < 2 ^ 64)"
proof -
  have small: "take_bit 64 w = w \<longleftrightarrow> w < 2 ^ 64" for w :: u128
  proof -
    have "take_bit 64 w = w \<longleftrightarrow> take_bit 64 (unat w) = unat w"
      by (metis unsigned_take_bit_eq unsigned_word_eqI)
    also have "\<dots> \<longleftrightarrow> unat w < 2 ^ 64" by (rule take_bit_nat_eq_self_iff)
    finally show ?thesis by (simp add: word_less_nat_alt)
  qed
  have same: "map (\<lambda>((h, t), v). ((take_bit 64 h, take_bit 64 t), take_bit 64 v)) runes = map (\<lambda>(k, v). (k, take_bit 64 v)) runes"
    using assms(2) small by (intro map_cong) auto
  have keys: "distinct (map fst (map (\<lambda>(k, v). (k, take_bit 64 v)) runes))"
    using assms(1) by (simp add: comp_def case_prod_beta)
  have "((h, t), take_bit 64 v) \<in> set (map (\<lambda>(k, v). (k, take_bit 64 v)) runes)" using assms(3) by force
  then have "map_of (map (\<lambda>(k, v). (k, take_bit 64 v)) runes) (h, t) = Some (take_bit 64 v)"
    by (rule map_of_is_SomeI [OF keys])
  then have "map_of (rev (map (\<lambda>(k, v). (k, take_bit 64 v)) runes)) (h, t) = Some (take_bit 64 v)"
    using keys by (intro map_of_is_SomeI) (simp_all add: rev_map [symmetric] del: map_map)
  then have "sheet_of (map entry_of runes) (h, t) = Some (take_bit 64 v)"
    by (simp add: sheet_of_def foldl_add_entry same)
  then show ?thesis using small by simp
qed

lemma reported_balance_witness:
  "sheet_of (map entry_of [((2, 1), 5), ((2, 0), 2 ^ 64 + 7)]) (2, 0) = Some 7"
  using reported_balance [of "[((2, 1), 5), ((2, 0), 2 ^ 64 + 7)]" 2 0 "2 ^ 64 + 7"] by simp

end
