(* ===== verification/Amm_Operations.thy ===== *)
theory Amm_Operations
  imports Amm Execute
begin

text \<open>
  The operations of \<open>AmmManager\<close> (\<open>alkanes/amm.rs\<close>) that send transactions: creating a pool, adding and
  removing liquidity, swapping, each by way of the executor.  The reserves and the preview are the
  placeholders of the source.
\<close>

subsection \<open>Driving the executor\<close>

definition execute_enhanced ::
  "('x, 'c) exec_libs \<Rightarrow> backend \<Rightarrow> concrete_provider \<Rightarrow> keystore option \<Rightarrow> 'c execute_params \<Rightarrow> execute_result dact" where
  "execute_enhanced xl b p ks params =
     dact_bind (execute xl b p ks params) (\<lambda>state.
       case state of
         Ready_to_sign psbt fee \<Rightarrow> resume_execution xl b p ks params psbt fee
       | Ready_to_sign_commit psbt fee amount params' envelope key \<Rightarrow>
           dact_bind (resume_commit_execution xl b p ks psbt fee amount params' envelope key) (\<lambda>state2.
             case state2 of
               Ready_to_sign_reveal psbt2 fee2 commit_txid commit_fee params2 key2 \<Rightarrow>
                 resume_reveal_execution xl b p ks psbt2 fee2 commit_txid commit_fee params2
             | _ \<Rightarrow> dact_fault (Failure (Other ''Unexpected state after commit'')))
       | Ready_to_sign_reveal psbt fee commit_txid commit_fee params' key \<Rightarrow>
           resume_reveal_execution xl b p ks psbt fee commit_txid commit_fee params'
       | Complete result \<Rightarrow> dact_return result)"

record token_amount =
  ta_id :: "u64 \<times> u64"
  ta_amount :: u64

text \<open>The parameters that all four operations build.\<close>

definition amm_params :: "fp option \<Rightarrow> input_requirement list \<Rightarrow> 'c execute_params" where
  "amm_params fee_rate requirements =
     \<lparr>ep_fee_rate = fee_rate, ep_to = [], ep_from = None, ep_change = None, ep_inputs = requirements,
      ep_protostones = [\<lparr>sp_cellpack = None, sp_edicts = [], sp_transfer = None\<rparr>], ep_envelope = None,
      ep_raw_output = False, ep_trace = True, ep_mine = False, ep_auto_confirm = True\<rparr>"

definition token_requirement :: "(u64 \<times> u64) \<Rightarrow> u64 \<Rightarrow> input_requirement" where
  "token_requirement token amount = Alkanes_input (fst token) (snd token) amount"

definition fail :: "deezel_error \<Rightarrow> 'a dact" where
  "fail e = dact_fault (Failure e)"

subsection \<open>The operations\<close>

definition create_pool ::
  "('x, 'c) exec_libs \<Rightarrow> backend \<Rightarrow> concrete_provider \<Rightarrow> keystore option \<Rightarrow> token_amount list \<Rightarrow> fp option \<Rightarrow>
   execute_result dact" where
  "create_pool xl b p ks tokens fee_rate =
     (if length tokens \<noteq> 2 then fail (Validation ''Pool creation requires exactly 2 tokens'')
      else if \<exists>t \<in> set tokens. ta_amount t = 0 then fail (Validation ''Token amounts must be greater than zero'')
      else execute_enhanced xl b p ks (amm_params fee_rate (map (\<lambda>t. token_requirement (ta_id t) (ta_amount t)) tokens)))"

definition get_pool_reserves :: "u64 \<times> u64 \<Rightarrow> token_amount list" where
  "get_pool_reserves pool = []"

definition optimal_amounts :: "token_amount list \<Rightarrow> token_amount list \<Rightarrow> u64 list" where
  "optimal_amounts reserves tokens =
     (if 2 \<le> length reserves \<and> 0 < ta_amount (reserves ! 0) \<and> 0 < ta_amount (reserves ! 1)
      then map (\<lambda>(i, token).
        if i < length reserves
        then (let (a, b) = calculate_optimal_liquidity (ta_amount token)
                     (if 1 < length tokens then ta_amount (tokens ! 1) else 0)
                     (ta_amount (reserves ! 0)) (ta_amount (reserves ! 1))
              in if i = 0 then a else b)
        else ta_amount token) (enumerate 0 tokens)
      else map ta_amount tokens)"

definition add_liquidity ::
  "('x, 'c) exec_libs \<Rightarrow> backend \<Rightarrow> concrete_provider \<Rightarrow> keystore option \<Rightarrow> u64 \<times> u64 \<Rightarrow> token_amount list \<Rightarrow> fp option \<Rightarrow>
   execute_result dact" where
  "add_liquidity xl b p ks pool tokens fee_rate =
     (if tokens = [] then fail (Validation ''Cannot add liquidity without tokens'')
      else if \<exists>t \<in> set tokens. ta_amount t = 0 then fail (Validation ''Token amounts must be greater than zero'')
      else execute_enhanced xl b p ks (amm_params fee_rate
        (map (\<lambda>(t, amount). token_requirement (ta_id t) amount)
          (zip tokens (optimal_amounts (get_pool_reserves pool) tokens)))))"

definition preview_remove_liquidity :: "u64 \<Rightarrow> u64 \<times> u64 \<times> u64" where
  "preview_remove_liquidity amount = (amount div 2, amount div 2, amount)"

definition remove_liquidity ::
  "('x, 'c) exec_libs \<Rightarrow> backend \<Rightarrow> concrete_provider \<Rightarrow> keystore option \<Rightarrow> u64 \<times> u64 \<Rightarrow> u64 \<Rightarrow> fp option \<Rightarrow>
   execute_result dact" where
  "remove_liquidity xl b p ks token amount fee_rate =
     (if amount = 0 then fail (Validation ''Cannot remove zero liquidity'')
      else execute_enhanced xl b p ks (amm_params fee_rate [token_requirement token amount]))"

definition reserve_where :: "(token_amount \<Rightarrow> bool) \<Rightarrow> token_amount list \<Rightarrow> u64" where
  "reserve_where P reserves = (case find P reserves of Some r \<Rightarrow> ta_amount r | None \<Rightarrow> 0)"

definition swap ::
  "('x, 'c) exec_libs \<Rightarrow> backend \<Rightarrow> concrete_provider \<Rightarrow> keystore option \<Rightarrow> u64 \<times> u64 \<Rightarrow> u64 \<times> u64 \<Rightarrow> u64 \<Rightarrow> fp option \<Rightarrow>
   execute_result dact" where
  "swap xl b p ks pool token amount fee_rate =
     (if amount = 0 then fail (Validation ''Cannot swap zero tokens'')
      else let reserves = get_pool_reserves pool;
               input_reserve = reserve_where (\<lambda>r. ta_id r = token) reserves;
               output_reserve = reserve_where (\<lambda>r. ta_id r \<noteq> token) reserves
           in if input_reserve = 0 then fail (Validation ''Token not found in pool'')
              else case calculate_swap_output amount input_reserve output_reserve 30 of
                Inl e \<Rightarrow> dact_fault (Abort ''attempt to divide by zero'')
              | Inr (Inl e) \<Rightarrow> fail e
              | Inr (Inr expected) \<Rightarrow>
                  execute_enhanced xl b p ks (amm_params fee_rate [token_requirement token amount]))"

definition get_pool_info :: "u64 \<times> u64 \<Rightarrow> json" where
  "get_pool_info pool =
     JObj [(''pool_id'', JStr (to_string (fst pool) @ '':'' @ to_string (snd pool))), (''status'', JStr ''active'')]"

subsection \<open>What the operations do\<close>

lemma execute_amm_params:
  "execute_enhanced xl b p ks (amm_params fee_rate requirements) n =
    (Inl (Failure (Other ''No operation: Protostones provided without envelope or cellpack.'')), n)"
  by (simp add: execute_enhanced_def execute_def amm_params_def validate_envelope_cellpack_usage_def dact_bind_def
      dact_lift_def dact_fault_def)

text \<open>
  The operations of the AMM manager.  None of them ever reaches the node: whatever the pool, the
  tokens and the amounts, each fails with a validation error before the first request, since the
  protostone that they build has no cellpack, and the reserves are always empty.
\<close>

theorem amm_operations_fail:
  "create_pool xl b p ks tokens fee_rate n =
     (Inl (Failure (if length tokens \<noteq> 2 then Validation ''Pool creation requires exactly 2 tokens''
        else if \<exists>t \<in> set tokens. ta_amount t = 0 then Validation ''Token amounts must be greater than zero''
        else Other ''No operation: Protostones provided without envelope or cellpack.'')), n) \<and>
   add_liquidity xl b p ks pool tokens fee_rate n =
     (Inl (Failure (if tokens = [] then Validation ''Cannot add liquidity without tokens''
        else if \<exists>t \<in> set tokens. ta_amount t = 0 then Validation ''Token amounts must be greater than zero''
        else Other ''No operation: Protostones provided without envelope or cellpack.'')), n) \<and>
   remove_liquidity xl b p ks token amount fee_rate n =
     (Inl (Failure (if amount = 0 then Validation ''Cannot remove zero liquidity''
        else Other ''No operation: Protostones provided without envelope or cellpack.'')), n) \<and>
   swap xl b p ks pool token amount fee_rate n =
     (Inl (Failure (Validation (if amount = 0 then ''Cannot swap zero tokens'' else ''Token not found in pool''))), n)"
proof (intro conjI)
  show "swap xl b p ks pool token amount fee_rate n =
     (Inl (Failure (Validation (if amount = 0 then ''Cannot swap zero tokens'' else ''Token not found in pool''))), n)"
    by (simp add: swap_def get_pool_reserves_def reserve_where_def fail_def dact_fault_def)
qed (simp_all add: create_pool_def add_liquidity_def remove_liquidity_def execute_amm_params fail_def dact_fault_def)

end
