(* ===== verification/Alkane_Host.thy ===== *)
theory Alkane_Host
  imports Text_Ops Deezel_Client
begin

text \<open>
  The runtime of the bytecode inspector (\<open>alkanes/inspector/types.rs\<close> and \<open>runtime.rs\<close>): the context
  a contract is executed with, the functions the host offers to it, and the readers of what it leaves
  in its memory.  The WebAssembly engine (\<open>wasmi\<close>) is not part of the repository: its linear memory is
  the parameter \<open>memory_lib\<close>, and the code of a contract between two host calls is any change of the
  memory.  Addresses are \<open>usize\<close> of a 64-bit host.
\<close>

subsection \<open>Data\<close>

type_synonym support_id = "u128 \<times> u128"

record message_parcel =
  mp_vout :: u32
  mp_height :: u64
  mp_calldata :: "byte list"

record runtime_context =
  rc_myself :: support_id
  rc_caller :: support_id
  rc_incoming :: "(support_id \<times> u128) list"
  rc_returndata :: "byte list"
  rc_inputs :: "u128 list"
  rc_message :: message_parcel

definition empty_context :: runtime_context where
  "empty_context =
     \<lparr>rc_myself = (0, 0), rc_caller = (0, 0), rc_incoming = [], rc_returndata = [], rc_inputs = [],
      rc_message = \<lparr>mp_vout = 0, mp_height = 0, mp_calldata = []\<rparr>\<rparr>"

definition from_cellpack_inputs :: "u128 list \<Rightarrow> runtime_context" where
  "from_cellpack_inputs inputs = empty_context\<lparr>rc_inputs := inputs\<rparr>"

definition flatten_context :: "runtime_context \<Rightarrow> u128 list" where
  "flatten_context c =
     [fst (rc_myself c), snd (rc_myself c), fst (rc_caller c), snd (rc_caller c),
      ucast (mp_vout (rc_message c)), of_nat (length (rc_incoming c))]
     @ concat (map (\<lambda>((b, t), v). [b, t, v]) (rc_incoming c))
     @ rc_inputs c"

definition serialize_context :: "runtime_context \<Rightarrow> byte list" where
  "serialize_context c = concat (map u128_to_le_bytes (flatten_context c))"

record host_entry =
  he_function :: string
  he_parameters :: "string list"
  he_result :: string
  he_micros :: u64

text \<open>
  The store of one instance: the state of the host, the memory the instance exports (if it exports
  one), the fuel left and what the guest has logged.
\<close>

record 'm host =
  ho_failure :: bool
  ho_context :: runtime_context
  ho_calls :: "host_entry list"
  ho_memory :: "'m option"
  ho_fuel :: u64
  ho_stdout :: string

record 'm memory_lib =
  ml_pages :: "'m \<Rightarrow> u64"
  ml_read :: "'m \<Rightarrow> nat \<Rightarrow> nat \<Rightarrow> byte list option"
  ml_write :: "'m \<Rightarrow> nat \<Rightarrow> byte list \<Rightarrow> 'm option"
  ml_error :: string

definition create_store :: "runtime_context \<Rightarrow> 'm option \<Rightarrow> 'm host" where
  "create_store c mem =
     \<lparr>ho_failure = False, ho_context = c, ho_calls = [], ho_memory = mem, ho_fuel = 100000000,
      ho_stdout = []\<rparr>"

subsection \<open>Reading and writing by pointer\<close>

definition addr :: "i32 \<Rightarrow> nat" where
  "addr p = unat (scast p :: u64)"

text \<open>The four bytes before a pointer, as the length of what it points to.\<close>

definition length_before :: "'m memory_lib \<Rightarrow> 'm \<Rightarrow> nat \<Rightarrow> nat option" where
  "length_before ml m a =
     (if a < 4 then None else map_option le_value (ml_read ml m (a - 4) 4))"

definition read_key :: "'m memory_lib \<Rightarrow> 'm option \<Rightarrow> i32 \<Rightarrow> string" where
  "read_key ml mem k =
     (case mem of
        None \<Rightarrow> ''no_memory_export_key_'' @ i32_text k
      | Some m \<Rightarrow>
          (case length_before ml m (addr k) of
             None \<Rightarrow> ''invalid_key_ptr_'' @ i32_text k
           | Some n \<Rightarrow>
               (case ml_read ml m (addr k) n of
                  Some bs \<Rightarrow> utf8_lossy bs
                | None \<Rightarrow> ''invalid_key_bounds_ptr_'' @ i32_text k @ ''_len_'' @ dec_string n)))"

text \<open>Length first, then the bytes behind it: whether both were written, and the memory after it.\<close>

definition write_sized :: "'m memory_lib \<Rightarrow> 'm \<Rightarrow> nat \<Rightarrow> byte list \<Rightarrow> 'm \<times> bool" where
  "write_sized ml m a bs =
     (case ml_write ml m a (le_bytes 4 (length bs)) of
        None \<Rightarrow> (m, False)
      | Some m1 \<Rightarrow>
          (case ml_write ml m1 (a + 4) bs of
             None \<Rightarrow> (m1, False)
           | Some m2 \<Rightarrow> (m2, True)))"

definition write_output :: "'m memory_lib \<Rightarrow> i32 \<Rightarrow> byte list \<Rightarrow> 'm host \<Rightarrow> 'm host" where
  "write_output ml out bs h =
     (case ho_memory h of
        None \<Rightarrow> h
      | Some m \<Rightarrow> h\<lparr>ho_memory := Some (fst (write_sized ml m (addr out) bs))\<rparr>)"

definition record_call :: "string \<Rightarrow> string list \<Rightarrow> string \<Rightarrow> u64 \<Rightarrow> 'm host \<Rightarrow> 'm host" where
  "record_call f ps r t h =
     h\<lparr>ho_calls := ho_calls h @ [\<lparr>he_function = f, he_parameters = ps, he_result = r, he_micros = t\<rparr>]\<rparr>"

subsection \<open>The functions of the host\<close>

definition host_abort :: "'m host \<Rightarrow> 'm host" where
  "host_abort h = h\<lparr>ho_failure := True\<rparr>"

definition request_context :: "'m host \<Rightarrow> i32" where
  "request_context h = of_nat (length (serialize_context (ho_context h)))"

definition load_context :: "'m memory_lib \<Rightarrow> i32 \<Rightarrow> 'm host \<Rightarrow> 'm host \<times> i32" where
  "load_context ml out h =
     (let bs = serialize_context (ho_context h)
      in case Option.bind (ho_memory h) (\<lambda>m. ml_write ml m (addr out) bs) of
           Some m \<Rightarrow> (h\<lparr>ho_memory := Some m\<rparr>, of_nat (length bs))
         | None \<Rightarrow> (h, -1))"

definition key_parameter :: "string \<Rightarrow> string" where
  "key_parameter key = ''key: '' @ [CHR 0x22] @ key @ [CHR 0x22]"

definition request_storage :: "'m memory_lib \<Rightarrow> u64 \<Rightarrow> i32 \<Rightarrow> 'm host \<Rightarrow> 'm host \<times> i32" where
  "request_storage ml t k h =
     (record_call ''__request_storage'' [key_parameter (read_key ml (ho_memory h) k)] ''size: 0'' t h, 0)"

definition fixed_storage :: "(string \<times> u128) list" where
  "fixed_storage =
     [(''/position_count'', 42), (''/acc_reward_per_share'', 1000000), (''/last_reward_block'', 800000),
      (''/last_update_block'', 800001), (''/reward_per_block'', 100), (''/start_block'', 750000),
      (''/end_reward_block'', 850000), (''/total_assets'', 5000000)]"

definition storage_value :: "string \<Rightarrow> byte list" where
  "storage_value key =
     (case map_of fixed_storage key of
        Some v \<Rightarrow> u128_to_le_bytes v
      | None \<Rightarrow>
          if key = ''/deposit_token_id'' then u128_to_le_bytes 1 @ u128_to_le_bytes 100
          else if key = ''/free_mint_contract_id'' then u128_to_le_bytes 2 @ u128_to_le_bytes 200
          else if strip_prefix ''/positions/'' key \<noteq> None then u128_to_le_bytes 1000 @ u128_to_le_bytes 5000
          else if strip_prefix ''/registered_children/'' key \<noteq> None then [1]
          else [])"

definition load_storage ::
  "libs \<Rightarrow> 'm memory_lib \<Rightarrow> u64 \<Rightarrow> i32 \<Rightarrow> i32 \<Rightarrow> 'm host \<Rightarrow> 'm host \<times> i32" where
  "load_storage l ml t k v h =
     (let key = read_key ml (ho_memory h) k;
          value = storage_value key;
          (mem, written) =
            (case ho_memory h of
               None \<Rightarrow> (None, 0)
             | Some m \<Rightarrow>
                 (case write_sized ml m (addr v) value of
                    (m', ok) \<Rightarrow> (Some m', if ok then of_nat (length value) else 0)))
      in (record_call ''__load_storage'' [key_parameter key]
            (''value: '' @ dec_string (length value) @ '' bytes ('' @ hex_encode l value @ '')'') t
            (h\<lparr>ho_memory := mem\<rparr>), written))"

definition host_height :: "'m memory_lib \<Rightarrow> i32 \<Rightarrow> 'm host \<Rightarrow> 'm host" where
  "host_height ml out h = write_output ml out (le_bytes 8 800000) h"

text \<open>\<open>String::from_utf8\<close>; the number bounds the characters, the length of the bytes is enough.\<close>

fun from_utf8 :: "nat \<Rightarrow> byte list \<Rightarrow> string option" where
  "from_utf8 0 bs = (if bs = [] then Some [] else None)"
| "from_utf8 (Suc n) [] = Some []"
| "from_utf8 (Suc n) (b # bs) =
     (case utf8_tail b of
        None \<Rightarrow> None
      | Some rs \<Rightarrow>
          if matching rs bs = length rs
          then map_option ((@) (map byte_char (b # take (length rs) bs))) (from_utf8 n (drop (length rs) bs))
          else None)"

definition host_log :: "'m memory_lib \<Rightarrow> i32 \<Rightarrow> 'm host \<Rightarrow> 'm host" where
  "host_log ml v h =
     (case Option.bind (ho_memory h) (\<lambda>m. Option.bind (length_before ml m (addr v)) (ml_read ml m (addr v))) of
        None \<Rightarrow> h
      | Some bs \<Rightarrow>
          (case from_utf8 (length bs) bs of
             Some msg \<Rightarrow> h\<lparr>ho_stdout := ho_stdout h @ msg\<rparr>
           | None \<Rightarrow> h))"

definition host_balance :: "'m memory_lib \<Rightarrow> i32 \<Rightarrow> i32 \<Rightarrow> i32 \<Rightarrow> 'm host \<Rightarrow> 'm host" where
  "host_balance ml who what out h = write_output ml out (u128_to_le_bytes 0) h"

definition host_sequence :: "'m memory_lib \<Rightarrow> i32 \<Rightarrow> 'm host \<Rightarrow> 'm host" where
  "host_sequence ml out h = write_output ml out (u128_to_le_bytes 0) h"

definition host_fuel :: "'m memory_lib \<Rightarrow> i32 \<Rightarrow> 'm host \<Rightarrow> 'm host" where
  "host_fuel ml out h = write_output ml out (le_bytes 8 1000000) h"

definition returndatacopy :: "'m memory_lib \<Rightarrow> i32 \<Rightarrow> 'm host \<Rightarrow> 'm host" where
  "returndatacopy ml out h = write_output ml out (rc_returndata (ho_context h)) h"

text \<open>The target of a call, from the cellpack a pointer refers to.\<close>

definition decode_cellpack_info :: "'m memory_lib \<Rightarrow> 'm option \<Rightarrow> i32 \<Rightarrow> string" where
  "decode_cellpack_info ml mem p =
     (case Option.bind mem (\<lambda>m. Option.bind (length_before ml m (addr p)) (\<lambda>n.
             if n < 32 then None else map_option (Pair n) (ml_read ml m (addr p) 32))) of
        None \<Rightarrow> ''unknown_cellpack_'' @ i32_text p
      | Some (n, target) \<Rightarrow>
          ''AlkaneId{block: '' @ to_string (from_le_bytes (take 16 target) :: u128)
          @ '', tx: '' @ to_string (from_le_bytes (drop 16 target) :: u128) @ ''}''
          @ (if 32 < n then '' with '' @ dec_string ((n - 32) div 16) @ '' inputs'' else []))"

definition host_call_of ::
  "string \<Rightarrow> 'm memory_lib \<Rightarrow> u64 \<Rightarrow> i32 \<Rightarrow> i32 \<Rightarrow> i32 \<Rightarrow> u64 \<Rightarrow> 'm host \<Rightarrow> 'm host \<times> i32" where
  "host_call_of name ml t cellpack incoming checkpoint fuel h =
     (record_call name
        [''target: '' @ decode_cellpack_info ml (ho_memory h) cellpack, ''fuel: '' @ to_string fuel]
        ''not_implemented'' t h, -1)"

definition host_call :: "'m memory_lib \<Rightarrow> u64 \<Rightarrow> i32 \<Rightarrow> i32 \<Rightarrow> i32 \<Rightarrow> u64 \<Rightarrow> 'm host \<Rightarrow> 'm host \<times> i32" where
  "host_call = host_call_of ''__call''"

definition host_delegatecall ::
  "'m memory_lib \<Rightarrow> u64 \<Rightarrow> i32 \<Rightarrow> i32 \<Rightarrow> i32 \<Rightarrow> u64 \<Rightarrow> 'm host \<Rightarrow> 'm host \<times> i32" where
  "host_delegatecall = host_call_of ''__delegatecall''"

definition host_staticcall ::
  "'m memory_lib \<Rightarrow> u64 \<Rightarrow> i32 \<Rightarrow> i32 \<Rightarrow> i32 \<Rightarrow> u64 \<Rightarrow> 'm host \<Rightarrow> 'm host \<times> i32" where
  "host_staticcall = host_call_of ''__staticcall''"

text \<open>The imports a contract can call, and what each does: the table of \<open>create_host_functions\<close>.\<close>

datatype import_call =
    Abort i32 i32 i32 i32 | Request_context | Load_context i32 | Request_storage i32
  | Load_storage i32 i32 | Height i32 | Log i32 | Balance i32 i32 i32 | Sequence i32 | Fuel i32
  | Returndatacopy i32 | Request_transaction | Load_transaction i32 | Request_block | Load_block i32
  | Call i32 i32 i32 u64 | Delegatecall i32 i32 i32 u64 | Staticcall i32 i32 i32 u64

fun host_functions ::
  "libs \<Rightarrow> 'm memory_lib \<Rightarrow> u64 \<Rightarrow> import_call \<Rightarrow> 'm host \<Rightarrow> 'm host \<times> i32 option" where
  "host_functions l ml t (Abort a b c d) h = (host_abort h, None)"
| "host_functions l ml t Request_context h = (h, Some (request_context h))"
| "host_functions l ml t (Load_context out) h = map_prod id Some (load_context ml out h)"
| "host_functions l ml t (Request_storage k) h = map_prod id Some (request_storage ml t k h)"
| "host_functions l ml t (Load_storage k v) h = map_prod id Some (load_storage l ml t k v h)"
| "host_functions l ml t (Height out) h = (host_height ml out h, None)"
| "host_functions l ml t (Log v) h = (host_log ml v h, None)"
| "host_functions l ml t (Balance who what out) h = (host_balance ml who what out h, None)"
| "host_functions l ml t (Sequence out) h = (host_sequence ml out h, None)"
| "host_functions l ml t (Fuel out) h = (host_fuel ml out h, None)"
| "host_functions l ml t (Returndatacopy out) h = (returndatacopy ml out h, None)"
| "host_functions l ml t Request_transaction h = (h, Some 0)"
| "host_functions l ml t (Load_transaction out) h = (h, None)"
| "host_functions l ml t Request_block h = (h, Some 0)"
| "host_functions l ml t (Load_block out) h = (h, None)"
| "host_functions l ml t (Call c i p f) h = map_prod id Some (host_call ml t c i p f h)"
| "host_functions l ml t (Delegatecall c i p f) h = map_prod id Some (host_delegatecall ml t c i p f h)"
| "host_functions l ml t (Staticcall c i p f) h = map_prod id Some (host_staticcall ml t c i p f h)"

subsection \<open>Reading a response\<close>

fun hex_nat :: "nat \<Rightarrow> string" where
  "hex_nat n = (if n < 16 then [hex_digit n] else hex_nat (n div 16) @ [hex_digit (n mod 16)])"

declare hex_nat.simps [simp del]

definition memory_size :: "'m memory_lib \<Rightarrow> 'm \<Rightarrow> nat" where
  "memory_size ml m = unat (ml_pages ml m) * 65536"

definition memory_fault :: "'m memory_lib \<Rightarrow> string \<Rightarrow> nat \<Rightarrow> fault" where
  "memory_fault ml what a = anyhow (''Failed to read '' @ what @ '' at 0x'' @ hex_nat a @ '': '' @ ml_error ml)"

definition beyond_bounds :: "string \<Rightarrow> nat \<Rightarrow> nat \<Rightarrow> nat \<Rightarrow> fault" where
  "beyond_bounds what p n bound =
     anyhow (what @ '' beyond memory bounds: ptr=0x'' @ hex_nat p @ '', len='' @ dec_string n
       @ '', memory_size='' @ dec_string bound)"

fun printable :: "byte list \<Rightarrow> string" where
  "printable [] = []"
| "printable (b # bs) =
     (if between 32 126 b then byte_char b # printable bs else if b = 0 then [] else printable bs)"

definition error_signature :: "byte list" where
  "error_signature = [0x08, 0xc3, 0x79, 0xa0]"

definition find_signature :: "byte list \<Rightarrow> nat option" where
  "find_signature bs = find (\<lambda>i. take 4 (drop i bs) = error_signature) [0..<length bs - 4]"

definition read_response :: "byte list \<Rightarrow> byte list \<times> string option" where
  "read_response bs =
     (case find_signature bs of
        Some i \<Rightarrow>
          let message = drop (i + 4) bs;
              text = trim (printable message)
          in (message, Some (if text = [] then ''Unknown error'' else text))
      | None \<Rightarrow>
          if 16 < length bs \<and> (\<forall>b \<in> set (take 16 bs). b = 0)
          then (if \<exists>b \<in> set (drop 16 bs). b \<noteq> 0 then drop 16 bs else [], None)
          else (bs, Some ''Unknown response format''))"

definition decode_extended_call_response ::
  "'m memory_lib \<Rightarrow> 'm \<Rightarrow> nat \<Rightarrow> (byte list \<times> string option) res" where
  "decode_extended_call_response ml m p =
     (let bound = memory_size ml m
      in if p < 4 \<or> bound \<le> p
         then Inl (anyhow (''Response pointer 0x'' @ hex_nat p @ '' is invalid (memory size: '' @ dec_string bound @ '')''))
         else case ml_read ml m (p - 4) 4 of
           None \<Rightarrow> Inl (memory_fault ml ''response length'' (p - 4))
         | Some lb \<Rightarrow>
             let n = le_value lb
             in if n = 0 then Inr ([], None)
                else if bound < p + n then Inl (beyond_bounds ''Response data extends'' p n bound)
                else case ml_read ml m p n of
                  None \<Rightarrow> Inl (memory_fault ml ''ExtendedCallResponse'' p)
                | Some bs \<Rightarrow> Inr (read_response bs))"

subsection \<open>Reading the metadata\<close>

record alkane_method =
  am_name :: string
  am_opcode :: u128
  am_params :: "string list"
  am_returns :: string

record alkane_metadata =
  md_name :: string
  md_version :: string
  md_description :: "string option"
  md_methods :: "alkane_method list"

definition method_of :: "json \<Rightarrow> alkane_method" where
  "method_of v =
     \<lparr>am_name = unwrap_or ''unknown'' (jstr [''name''] v),
      am_opcode = ucast (unwrap_or 0 (Option.bind (jget ''opcode'' v) as_u64)),
      am_params = List.map_filter as_str (jarr_or_empty [''params''] v),
      am_returns = unwrap_or ''void'' (jstr [''returns''] v)\<rparr>"

definition metadata_of :: "json \<Rightarrow> alkane_metadata" where
  "metadata_of v =
     \<lparr>md_name = (case jstr [''contract''] v of Some n \<Rightarrow> n | None \<Rightarrow> unwrap_or ''Unknown'' (jstr [''name''] v)),
      md_version = unwrap_or ''0.0.0'' (jstr [''version''] v),
      md_description = jstr [''description''] v,
      md_methods = map method_of (jarr_or_empty [''methods''] v)\<rparr>"

definition basic_metadata :: alkane_metadata where
  "basic_metadata = \<lparr>md_name = ''Unknown'', md_version = ''0.0.0'', md_description = None, md_methods = []\<rparr>"

text \<open>\<open>parse\<close> is \<open>serde_json::from_slice\<close>.\<close>

definition read_metadata_from_memory ::
  "(byte list \<Rightarrow> json option) \<Rightarrow> 'm memory_lib \<Rightarrow> 'm \<Rightarrow> nat \<Rightarrow> alkane_metadata res" where
  "read_metadata_from_memory parse ml m p =
     (let bound = memory_size ml m
      in if p < 4 \<or> bound \<le> p
         then Inl (anyhow (''Pointer 0x'' @ hex_nat p @ '' is invalid (memory size: '' @ dec_string bound @ '')''))
         else case ml_read ml m (p - 4) 4 of
           None \<Rightarrow> Inl (memory_fault ml ''metadata length'' (p - 4))
         | Some lb \<Rightarrow>
             let n = le_value lb
             in if bound < p + n then Inl (beyond_bounds ''Metadata extends'' p n bound)
                else case ml_read ml m p n of
                  None \<Rightarrow> Inl (memory_fault ml ''metadata bytes'' p)
                | Some bs \<Rightarrow> Inr (case parse bs of Some v \<Rightarrow> metadata_of v | None \<Rightarrow> basic_metadata))"

subsection \<open>What the memory documents\<close>

text \<open>
  The bytes of a memory are a list of whole pages; a read gives the slice when it lies inside, a
  write replaces the slice when it lies inside and fails otherwise.
\<close>

definition overwrite :: "nat \<Rightarrow> 'a list \<Rightarrow> 'a list \<Rightarrow> 'a list" where
  "overwrite a bs xs = take a xs @ bs @ drop (a + length bs) xs"

definition memory_documented :: "'m memory_lib \<Rightarrow> ('m \<Rightarrow> byte list) \<Rightarrow> bool" where
  "memory_documented ml data \<longleftrightarrow>
     (\<forall>m. length (data m) = memory_size ml m) \<and>
     (\<forall>m a n. ml_read ml m a n =
        (if a + n \<le> length (data m) then Some (take n (drop a (data m))) else None)) \<and>
     (\<forall>m a bs. case ml_write ml m a bs of
        None \<Rightarrow> length (data m) < a + length bs
      | Some m' \<Rightarrow> a + length bs \<le> length (data m) \<and> data m' = overwrite a bs (data m))"

lemma length_overwrite [simp]: "a + length bs \<le> length xs \<Longrightarrow> length (overwrite a bs xs) = length xs"
  by (simp add: overwrite_def)

lemma overwrite_self [simp]: "a + length bs \<le> length xs \<Longrightarrow> take (length bs) (drop a (overwrite a bs xs)) = bs"
  by (simp add: overwrite_def)

lemma overwrite_overwrite:
  "a + length bs + length cs \<le> length xs \<Longrightarrow>
     overwrite (a + length bs) cs (overwrite a bs xs) = overwrite a (bs @ cs) xs"
  by (cases "bs = []") (auto simp: overwrite_def ac_simps)

lemma documented_size: "memory_documented ml data \<Longrightarrow> memory_size ml m = length (data m)"
  by (simp add: memory_documented_def)

lemma documented_read:
  "memory_documented ml data \<Longrightarrow>
     ml_read ml m a n = (if a + n \<le> length (data m) then Some (take n (drop a (data m))) else None)"
  by (simp add: memory_documented_def)

lemma documented_write_cases:
  assumes "memory_documented ml data"
  obtains (out) "ml_write ml m a bs = None" "length (data m) < a + length bs"
  | (ok) m' where "ml_write ml m a bs = Some m'" "a + length bs \<le> length (data m)"
      "data m' = overwrite a bs (data m)" "length (data m') = length (data m)"
proof -
  from assms have law: "case ml_write ml m a bs of
      None \<Rightarrow> length (data m) < a + length bs
    | Some m' \<Rightarrow> a + length bs \<le> length (data m) \<and> data m' = overwrite a bs (data m)"
    by (simp add: memory_documented_def)
  show ?thesis
  proof (cases "ml_write ml m a bs")
    case None
    with law show ?thesis by (intro out) simp_all
  next
    case (Some m')
    with law show ?thesis by (intro ok [of m']) simp_all
  qed
qed

text \<open>A sized write, in the three cases.\<close>

lemma write_sized_fits:
  assumes doc: "memory_documented ml data" and fits: "a + 4 + length bs \<le> length (data m)"
  obtains m' where "write_sized ml m a bs = (m', True)"
    "data m' = overwrite a (le_bytes 4 (length bs) @ bs) (data m)"
proof -
  from doc obtain m1 where m1: "ml_write ml m a (le_bytes 4 (length bs)) = Some m1"
    "data m1 = overwrite a (le_bytes 4 (length bs)) (data m)" "length (data m1) = length (data m)"
    by (rule documented_write_cases [of ml data m a "le_bytes 4 (length bs)"]) (use fits in simp_all)
  from doc obtain m2 where m2: "ml_write ml m1 (a + 4) bs = Some m2" "data m2 = overwrite (a + 4) bs (data m1)"
    by (rule documented_write_cases [of ml data m1 "a + 4" bs]) (use fits m1 in simp_all)
  have "data m2 = overwrite a (le_bytes 4 (length bs) @ bs) (data m)"
    using m1 m2 overwrite_overwrite [of a "le_bytes 4 (length bs)" bs "data m"] fits by simp
  with m1 m2 show ?thesis by (intro that [of m2]) (simp_all add: write_sized_def)
qed

lemma write_sized_too_long:
  assumes doc: "memory_documented ml data" and out: "length (data m) < a + 4 + length bs"
  shows "snd (write_sized ml m a bs) = False"
    and "length (data (fst (write_sized ml m a bs))) = length (data m)"
    and "take a (data (fst (write_sized ml m a bs))) = take a (data m)"
proof -
  have "\<exists>m'. write_sized ml m a bs = (m', False) \<and> length (data m') = length (data m)
      \<and> take a (data m') = take a (data m)"
    using doc
  proof (rule documented_write_cases [of ml data m a "le_bytes 4 (length bs)"])
    fix m1
    assume m1: "ml_write ml m a (le_bytes 4 (length bs)) = Some m1"
      "a + length (le_bytes 4 (length bs)) \<le> length (data m)"
      "data m1 = overwrite a (le_bytes 4 (length bs)) (data m)" "length (data m1) = length (data m)"
    from doc have "ml_write ml m1 (a + 4) bs = None"
      by (rule documented_write_cases [of ml data m1 "a + 4" bs]) (use m1 out in simp_all)
    with m1 show ?thesis by (simp add: write_sized_def overwrite_def)
  qed (simp add: write_sized_def)
  then show "snd (write_sized ml m a bs) = False"
    and "length (data (fst (write_sized ml m a bs))) = length (data m)"
    and "take a (data (fst (write_sized ml m a bs))) = take a (data m)" by auto
qed

text \<open>
  A buffer the host has written at a pointer is one its readers understand, but at the pointer plus
  four: writers put the length at the pointer, readers expect it before.
\<close>

lemma sized_buffer_read_back:
  assumes doc: "memory_documented ml data" and small: "length bs < 2 ^ 32"
    and written: "write_sized ml m a bs = (m', True)"
  shows "length_before ml m' (a + 4) = Some (length bs) \<and> ml_read ml m' (a + 4) (length bs) = Some bs"
proof -
  have fits: "a + 4 + length bs \<le> length (data m)"
  proof (rule ccontr)
    assume "\<not> ?thesis"
    then have "snd (write_sized ml m a bs) = False" using write_sized_too_long(1) [OF doc] by simp
    with written show False by simp
  qed
  with doc obtain m'' where "write_sized ml m a bs = (m'', True)"
    "data m'' = overwrite a (le_bytes 4 (length bs) @ bs) (data m)" by (rule write_sized_fits)
  with written have data: "data m' = overwrite a (le_bytes 4 (length bs) @ bs) (data m)" by simp
  have size: "length (data m') = length (data m)" using fits data by simp
  have "take 4 (drop a (data m')) = le_bytes 4 (length bs)"
    and "take (length bs) (drop (a + 4) (data m')) = bs"
    using fits by (simp_all add: data overwrite_def)
  moreover have "le_value (le_bytes 4 (length bs)) = length bs"
    using small by (simp add: le_value_le_bytes)
  ultimately show ?thesis using fits by (simp add: length_before_def documented_read [OF doc] size)
qed

subsection \<open>The context\<close>

lemma length_concat_16: "length (concat (map u128_to_le_bytes ws)) = 16 * length ws"
  by (induction ws) simp_all

lemma length_flatten_context:
  "length (flatten_context c) = 6 + 3 * length (rc_incoming c) + length (rc_inputs c)"
proof -
  have "length (concat (map (\<lambda>((b, t), v). [b, t, v]) xs)) = 3 * length (xs :: (support_id \<times> u128) list)" for xs
    by (induction xs) (auto split: prod.splits)
  then show ?thesis by (simp add: flatten_context_def)
qed

lemma length_serialize_context:
  "length (serialize_context c) = 16 * (6 + 3 * length (rc_incoming c) + length (rc_inputs c))"
  by (simp add: serialize_context_def length_concat_16 length_flatten_context)

lemma chunks_concat_16: "chunks 16 (concat (map u128_to_le_bytes ws)) = map u128_to_le_bytes ws"
proof (induction ws)
  case (Cons w ws)
  have "u128_to_le_bytes w \<noteq> []" using length_u128_to_le_bytes [of w] by (metis length_0_conv zero_neq_numeral)
  then have "chunks 16 (u128_to_le_bytes w @ concat (map u128_to_le_bytes ws))
      = take 16 (u128_to_le_bytes w @ concat (map u128_to_le_bytes ws))
        # chunks 16 (drop 16 (u128_to_le_bytes w @ concat (map u128_to_le_bytes ws)))"
    by (subst chunks.simps) auto
  with Cons show ?case by simp
qed simp

text \<open>The values of a context are read back from its bytes, sixteen at a time.\<close>

lemma serialize_context_read_back:
  "map from_le_bytes (chunks 16 (serialize_context c)) = flatten_context c"
  by (simp add: serialize_context_def chunks_concat_16 o_def)

subsection \<open>A memory of pages\<close>

text \<open>A number of pages and the bytes at the addresses: it behaves as documented.\<close>

type_synonym paged_memory = "u64 \<times> (nat \<Rightarrow> byte)"

definition paged_data :: "paged_memory \<Rightarrow> byte list" where
  "paged_data m = map (snd m) [0..<unat (fst m) * 65536]"

definition paged_memory :: "paged_memory memory_lib" where
  "paged_memory =
     \<lparr>ml_pages = fst,
      ml_read = (\<lambda>(p, f) a n. if a + n \<le> unat p * 65536 then Some (map f [a..<a + n]) else None),
      ml_write = (\<lambda>(p, f) a bs.
        if a + length bs \<le> unat p * 65536
        then Some (p, \<lambda>i. if a \<le> i \<and> i < a + length bs then bs ! (i - a) else f i) else None),
      ml_error = ''out of bounds memory access''\<rparr>"

lemma paged_memory_documented: "memory_documented paged_memory paged_data"
proof -
  have data_read: "map f [a..<a + n] = take n (drop a (map f [0..<N]))" if "a + n \<le> N" for f :: "nat \<Rightarrow> byte" and a n N
    using that by (simp add: take_map drop_map)
  have "map (\<lambda>i. if a \<le> i \<and> i < a + length bs then bs ! (i - a) else f i) [0..<N]
      = overwrite a bs (map f [0..<N])" if "a + length bs \<le> N" for f :: "nat \<Rightarrow> byte" and a bs N
    by (rule nth_equalityI) (use that in \<open>auto simp: overwrite_def nth_append\<close>)
  with data_read show ?thesis
    by (auto simp: memory_documented_def paged_memory_def paged_data_def memory_size_def)
qed

definition example_context :: runtime_context where
  "example_context =
     \<lparr>rc_myself = (2, 7), rc_caller = (2, 5), rc_incoming = [((2, 0), 1000)], rc_returndata = [1, 2],
      rc_inputs = [77, 0], rc_message = \<lparr>mp_vout = 3, mp_height = 800000, mp_calldata = []\<rparr>\<rparr>"

definition example_host :: "paged_memory host" where
  "example_host = create_store example_context (Some (1, \<lambda>i. if i = 1020 then 22 else 0))"

subsection \<open>The context a contract loads\<close>

text \<open>
  A contract that reserves what \<open>__request_context\<close> returns and calls \<open>__load_context\<close> with that
  buffer gets exactly the context, sixteen bytes a value, at its pointer, with nothing outside the
  reserved bytes changed and the same number returned; when the buffer does not lie inside the
  memory, it gets -1 and nothing is changed.
\<close>

theorem context_loaded:
  assumes doc: "memory_documented ml data" and mem: "ho_memory h = Some m"
    and len: "n = 16 * (6 + 3 * length (rc_incoming (ho_context h)) + length (rc_inputs (ho_context h)))"
  shows "request_context h = of_nat n \<and>
    (if addr out + n \<le> length (data m)
     then \<exists>m'. load_context ml out h = (h\<lparr>ho_memory := Some m'\<rparr>, of_nat n)
        \<and> map from_le_bytes (chunks 16 (take n (drop (addr out) (data m')))) = flatten_context (ho_context h)
        \<and> length (data m') = length (data m)
        \<and> take (addr out) (data m') = take (addr out) (data m)
        \<and> drop (addr out + n) (data m') = drop (addr out + n) (data m)
     else load_context ml out h = (h, -1))"
proof -
  define bs where "bs = serialize_context (ho_context h)"
  have n: "length bs = n" by (simp add: bs_def len length_serialize_context)
  have request: "request_context h = of_nat n" by (simp add: request_context_def n flip: bs_def)
  from doc show ?thesis
  proof (rule documented_write_cases [of ml data m "addr out" bs])
    assume "ml_write ml m (addr out) bs = None" "length (data m) < addr out + length bs"
    with request show ?thesis by (simp add: load_context_def mem n flip: bs_def)
  next
    fix m'
    assume ok: "ml_write ml m (addr out) bs = Some m'" "addr out + length bs \<le> length (data m)"
      "data m' = overwrite (addr out) bs (data m)" "length (data m') = length (data m)"
    have "take n (drop (addr out) (data m')) = bs" using ok n overwrite_self by metis
    then have "map from_le_bytes (chunks 16 (take n (drop (addr out) (data m')))) = flatten_context (ho_context h)"
      by (simp add: bs_def serialize_context_read_back)
    moreover have "load_context ml out h = (h\<lparr>ho_memory := Some m'\<rparr>, of_nat n)"
      using ok(1) by (simp add: load_context_def mem n flip: bs_def)
    moreover have "take (addr out) (data m') = take (addr out) (data m)"
      "drop (addr out + n) (data m') = drop (addr out + n) (data m)"
      using ok n by (simp_all add: overwrite_def)
    ultimately show ?thesis using request ok n by auto
  qed
qed

lemma context_loaded_witness:
  "request_context example_host = 176 \<and> snd (load_context paged_memory 1024 example_host) = 176"
proof -
  have mem: "ho_memory example_host = Some (1, \<lambda>i. if i = 1020 then 22 else 0)"
    by (simp add: example_host_def create_store_def)
  have "176 = 16 * (6 + 3 * length (rc_incoming (ho_context example_host)) + length (rc_inputs (ho_context example_host)))"
    by (simp add: example_host_def create_store_def example_context_def)
  moreover have "addr 1024 = 1024" by (simp add: addr_def)
  ultimately show ?thesis
    using context_loaded [OF paged_memory_documented mem, of 176 1024] by (auto simp: paged_data_def)
qed

subsection \<open>Storage\<close>

text \<open>
  What a contract sees of storage.  \<open>__request_storage\<close> announces 0 bytes for every key, but
  \<open>__load_storage\<close> writes, at the pointer of the buffer, the four bytes of the length and then the
  value the key stands for, when there is room in the memory: a buffer of the announced size is
  overrun by at least four bytes.  Both calls are recorded with the key that was asked for, and the
  context is untouched.
\<close>

theorem storage_overruns_request:
  assumes doc: "memory_documented ml data" and mem: "ho_memory h = Some m"
    and key: "key = read_key ml (Some m) k"
    and fits: "addr v + 4 + length (storage_value key) \<le> length (data m)"
  shows "snd (request_storage ml t k h) = 0 \<and>
    (\<exists>m' e. load_storage l ml t k v h
        = (h\<lparr>ho_memory := Some m', ho_calls := ho_calls h @ [e]\<rparr>, of_nat (length (storage_value key)))
      \<and> data m' = overwrite (addr v) (le_bytes 4 (length (storage_value key)) @ storage_value key) (data m)
      \<and> he_parameters e = [key_parameter key])"
proof -
  from doc fits obtain m' where "write_sized ml m (addr v) (storage_value key) = (m', True)"
    and "data m' = overwrite (addr v) (le_bytes 4 (length (storage_value key)) @ storage_value key) (data m)"
    by (rule write_sized_fits)
  moreover define e where "e = \<lparr>he_function = ''__load_storage'', he_parameters = [key_parameter key],
      he_result = ''value: '' @ dec_string (length (storage_value key)) @ '' bytes (''
        @ hex_encode l (storage_value key) @ '')'', he_micros = t\<rparr>"
  ultimately have "load_storage l ml t k v h
      = (h\<lparr>ho_memory := Some m', ho_calls := ho_calls h @ [e]\<rparr>, of_nat (length (storage_value key)))"
    by (simp add: load_storage_def mem record_call_def Let_def flip: key)
  moreover have "he_parameters e = [key_parameter key]" by (simp add: e_def)
  ultimately show ?thesis using \<open>data m' = _\<close> by (auto simp: request_storage_def)
qed

definition start_block_bytes :: "byte list" where
  "start_block_bytes = [47, 115, 116, 97, 114, 116, 95, 98, 108, 111, 99, 107]"

lemma start_block_text: "map byte_char start_block_bytes = ''/start_block''"
  by code_simp

definition storage_host :: "paged_memory host" where
  "storage_host = create_store empty_context (Some (1,
     \<lambda>i. if i = 1000 then 12 else if 1004 \<le> i \<and> i < 1016 then start_block_bytes ! (i - 1004) else 0))"

lemma storage_overruns_request_witness:
  "snd (request_storage paged_memory 0 1004 storage_host) = 0
     \<and> (\<forall>l. snd (load_storage l paged_memory 0 1004 2000 storage_host) = 16)"
proof -
  define m :: paged_memory where "m = (1,
     \<lambda>i. if i = 1000 then 12 else if 1004 \<le> i \<and> i < 1016 then start_block_bytes ! (i - 1004) else 0)"
  have mem: "ho_memory storage_host = Some m" by (simp add: storage_host_def create_store_def m_def)
  have addrs: "addr 1004 = 1004" "addr 2000 = 2000" by (simp_all add: addr_def)
  have "length_before paged_memory m 1004 = Some 12"
    by (simp add: length_before_def paged_memory_def m_def upt_rec)
  moreover have "ml_read paged_memory m 1004 12 = Some start_block_bytes"
    by (simp add: paged_memory_def m_def upt_rec start_block_bytes_def)
  moreover have "utf8_lossy start_block_bytes = ''/start_block''"
    unfolding start_block_text [symmetric]
    by (rule utf8_lossy_ascii) (simp add: start_block_bytes_def)
  ultimately have key: "''/start_block'' = read_key paged_memory (Some m) 1004"
    by (simp add: read_key_def addrs)
  have stored: "storage_value ''/start_block'' = u128_to_le_bytes 750000"
    by (simp add: storage_value_def fixed_storage_def)
  have "addr 2000 + 4 + length (storage_value ''/start_block'') \<le> length (paged_data m)"
    by (simp add: addrs stored paged_data_def m_def)
  note both = storage_overruns_request [OF paged_memory_documented mem key this, of 0]
  have "snd (load_storage l paged_memory 0 1004 2000 storage_host) = 16" for l
    using both [of l] by (auto simp: stored)
  with both show ?thesis by blast
qed

subsection \<open>The run of a contract\<close>

text \<open>
  Between two calls of the host the code of a contract may change its memory in any way and use up
  fuel; a call of the host is one of its functions, after which fuel may be used up as well.
\<close>

inductive guest_step :: "libs \<Rightarrow> 'm memory_lib \<Rightarrow> 'm host \<Rightarrow> 'm host \<Rightarrow> bool" for l ml where
  guest_code: "(mem = None) = (ho_memory h = None) \<Longrightarrow> f \<le> ho_fuel h
     \<Longrightarrow> guest_step l ml h (h\<lparr>ho_memory := mem, ho_fuel := f\<rparr>)"
| guest_import: "host_functions l ml t c h = (h', r) \<Longrightarrow> f \<le> ho_fuel h'
     \<Longrightarrow> guest_step l ml h (h'\<lparr>ho_fuel := f\<rparr>)"

inductive guest_run :: "libs \<Rightarrow> 'm memory_lib \<Rightarrow> 'm host \<Rightarrow> 'm host \<Rightarrow> bool" for l ml where
  guest_start: "guest_run l ml h h"
| guest_next: "guest_run l ml h h' \<Longrightarrow> guest_step l ml h' h'' \<Longrightarrow> guest_run l ml h h''"

inductive_cases guest_stepE: "guest_step l ml h h'"

definition recorded_functions :: "string set" where
  "recorded_functions = {''__request_storage'', ''__load_storage'', ''__call'', ''__delegatecall'', ''__staticcall''}"

text \<open>What every step of a contract keeps.\<close>

definition host_extends :: "'m host \<Rightarrow> 'm host \<Rightarrow> bool" where
  "host_extends h h' \<longleftrightarrow>
     ho_context h' = ho_context h \<and> (ho_failure h \<longrightarrow> ho_failure h') \<and> ho_fuel h' \<le> ho_fuel h \<and>
     (ho_memory h' = None) = (ho_memory h = None) \<and>
     (\<exists>cs. ho_calls h' = ho_calls h @ cs \<and> he_function ` set cs \<subseteq> recorded_functions) \<and>
     (\<exists>out. ho_stdout h' = ho_stdout h @ out)"

lemma host_extends_refl [simp]: "host_extends h h"
  by (simp add: host_extends_def)

lemma host_extends_trans: "host_extends h h' \<Longrightarrow> host_extends h' h'' \<Longrightarrow> host_extends h h''"
  unfolding host_extends_def by (elim conjE exE) (auto simp: image_Un)

lemma record_call_extends:
  "f \<in> recorded_functions \<Longrightarrow> host_extends h (record_call f ps r t h)"
  by (simp add: host_extends_def record_call_def)

lemma write_output_extends: "host_extends h (write_output ml out bs h)"
  by (simp add: host_extends_def write_output_def split: option.splits)

lemma load_storage_extends: "host_extends h (fst (load_storage l ml t k v h))"
  by (simp add: host_extends_def load_storage_def record_call_def recorded_functions_def Let_def
      split: option.splits prod.splits)

lemmas host_write_defs =
  host_height_def host_balance_def host_sequence_def host_fuel_def returndatacopy_def

lemma host_function_extends: "host_extends h (fst (host_functions l ml t c h))"
proof (cases c)
  case (Abort _ _ _ _)
  then show ?thesis by (simp add: host_extends_def host_abort_def)
next
  case (Load_context out)
  then show ?thesis
    by (simp add: host_extends_def load_context_def Let_def split: option.splits) (auto simp: bind_eq_Some_conv)
next
  case (Log v)
  then show ?thesis by (simp add: host_extends_def host_log_def split: option.splits)
qed (simp_all add: host_write_defs write_output_extends load_storage_extends record_call_extends
    request_storage_def host_call_def host_delegatecall_def host_staticcall_def host_call_of_def
    recorded_functions_def)

lemma guest_step_extends: "guest_step l ml h h' \<Longrightarrow> host_extends h h'"
proof (induction rule: guest_step.induct)
  case (guest_code mem h f)
  then show ?case by (simp add: host_extends_def)
next
  case (guest_import t c h h' r f)
  then have "host_extends h h'" using host_function_extends [of h l ml t c] by simp
  moreover have "host_extends h' (h'\<lparr>ho_fuel := f\<rparr>)" using guest_import by (simp add: host_extends_def)
  ultimately show ?case by (rule host_extends_trans)
qed

lemma guest_run_keeps: "guest_run l ml h h' \<Longrightarrow> host_extends h h'"
  by (induction rule: guest_run.induct) (auto intro: host_extends_trans guest_step_extends)

text \<open>
  C31: Whatever a contract does, and whatever it calls, a run leaves the context it was started with
  as it is, only appends to the record of calls (and only the storage and call functions are ever
  recorded), never clears the failure flag, never gains fuel and never replaces what was logged.
\<close>

theorem guest_run_extends_host:
  assumes "guest_run l ml h h'"
  shows "ho_context h' = ho_context h \<and> (ho_failure h \<longrightarrow> ho_failure h') \<and> ho_fuel h' \<le> ho_fuel h
    \<and> (\<exists>cs. ho_calls h' = ho_calls h @ cs \<and> he_function ` set cs \<subseteq> recorded_functions)
    \<and> (\<exists>out. ho_stdout h' = ho_stdout h @ out)"
  using guest_run_keeps [OF assms] by (simp add: host_extends_def)

lemma guest_run_extends_host_witness:
  "\<forall>l. ho_context (fst (host_functions l paged_memory 3 (Call 0 0 0 9) example_host)) = example_context"
proof
  fix l
  let ?h = "fst (host_functions l paged_memory 3 (Call 0 0 0 9) example_host)"
  have "guest_step l paged_memory example_host (?h\<lparr>ho_fuel := ho_fuel ?h\<rparr>)"
    by (rule guest_import [OF surjective_pairing]) simp
  then have "guest_run l paged_memory example_host (?h\<lparr>ho_fuel := ho_fuel ?h\<rparr>)"
    by (rule guest_next [OF guest_start])
  from guest_run_extends_host [OF this]
  show "ho_context ?h = example_context"
    by (simp add: example_host_def create_store_def)
qed

subsection \<open>Responses\<close>

definition signature_at :: "byte list \<Rightarrow> nat \<Rightarrow> bool" where
  "signature_at bs i \<longleftrightarrow> i + 4 < length bs \<and> take 4 (drop i bs) = error_signature"

lemma find_signature_Some:
  "find_signature bs = Some i \<longleftrightarrow> signature_at bs i \<and> (\<forall>j < i. \<not> signature_at bs j)"
proof -
  have at: "signature_at bs j \<longleftrightarrow> j < length bs - 4 \<and> take 4 (drop j bs) = error_signature" for j
    by (auto simp: signature_at_def)
  show ?thesis
    unfolding find_signature_def find_Some_iff at
    by (force simp: nth_upt)
qed

lemma find_signature_None: "find_signature bs = None \<longleftrightarrow> (\<forall>i. \<not> signature_at bs i)"
  by (auto simp: find_signature_def signature_at_def find_None_iff)

lemma read_response_text: "find_signature bs = Some i \<Longrightarrow>
    \<exists>text. read_response bs = (drop (i + 4) bs, Some text) \<and> text \<noteq> []"
  by (simp add: read_response_def Let_def)

lemma read_response_plain: "find_signature bs = None \<Longrightarrow>
    read_response bs = (if 16 < length bs \<and> take 16 bs = replicate 16 0
      then (if set (drop 16 bs) \<subseteq> {0} then [] else drop 16 bs, None)
      else (bs, Some ''Unknown response format''))"
proof -
  have "(\<forall>b \<in> set (take 16 bs). b = 0) \<longleftrightarrow> take 16 bs = replicate 16 0" if "16 < length bs"
    using that by (auto intro!: replicate_eqI dest: arg_cong [where f = set])
  moreover have "(\<exists>b \<in> set (drop 16 bs). b \<noteq> 0) \<longleftrightarrow> \<not> set (drop 16 bs) \<subseteq> {0}" by auto
  ultimately show "read_response bs = (if 16 < length bs \<and> take 16 bs = replicate 16 0
      then (if set (drop 16 bs) \<subseteq> {0} then [] else drop 16 bs, None)
      else (bs, Some ''Unknown response format''))" if "find_signature bs = None"
    using that by (cases "16 < length bs") (simp_all add: read_response_def)
qed

text \<open>
  C32: The response of a contract is read without leaving the memory: the reading fails exactly for a
  pointer below 4 or a response that does not lie inside, an empty response has no data and no error,
  the first error signature (not within the last four bytes) makes the rest the data and gives a
  non-empty error text, sixteen zero bytes are a header of plain data, and everything else is data
  with the error "Unknown response format".
\<close>

theorem response_read:
  assumes doc: "memory_documented ml data"
    and n: "n = le_value (take 4 (drop (p - 4) (data m)))"
    and r: "r = take n (drop p (data m))"
  shows "if p < 4 \<or> length (data m) < p + max 1 n
     then \<exists>e. decode_extended_call_response ml m p = Inl e
     else if n = 0 then decode_extended_call_response ml m p = Inr ([], None)
     else if \<exists>i. signature_at r i
     then \<exists>i text. decode_extended_call_response ml m p = Inr (drop (i + 4) r, Some text)
        \<and> text \<noteq> [] \<and> signature_at r i \<and> \<not> (\<exists>j < i. signature_at r j)
     else if 16 < n \<and> take 16 r = replicate 16 0
     then decode_extended_call_response ml m p
        = Inr (if set (drop 16 r) \<subseteq> {0} then [] else drop 16 r, None)
     else decode_extended_call_response ml m p = Inr (r, Some ''Unknown response format'')"
proof (cases "p < 4 \<or> length (data m) < p + max 1 n")
  case True
  then show ?thesis
    using n by (auto simp: decode_extended_call_response_def documented_size [OF doc] documented_read [OF doc]
        Let_def max_def split: if_splits)
next
  case False
  then have inside: "4 \<le> p" "p < length (data m)" "p + n \<le> length (data m)" by auto
  show ?thesis
  proof (cases "n = 0")
    case True
    with False inside show ?thesis
      using n by (simp add: decode_extended_call_response_def documented_size [OF doc] documented_read [OF doc] Let_def)
  next
    case nonzero: False
    with inside n have decoded: "decode_extended_call_response ml m p = Inr (read_response r)"
      by (simp add: decode_extended_call_response_def documented_size [OF doc] documented_read [OF doc] Let_def r)
    have len: "length r = n" using inside by (simp add: r)
    show ?thesis
    proof (cases "find_signature r")
      case None
      with False nonzero len show ?thesis
        by (simp add: decoded find_signature_None read_response_plain)
    next
      case (Some i)
      then have "signature_at r i \<and> \<not> (\<exists>j < i. signature_at r j)" by (simp add: find_signature_Some)
      with False nonzero read_response_text [OF Some] show ?thesis by (auto simp: decoded)
    qed
  qed
qed

definition zero_host_memory :: paged_memory where
  "zero_host_memory = (1, \<lambda>i. if i = 96 then 16 else 0)"

lemma response_read_witness:
  "decode_extended_call_response paged_memory zero_host_memory 100
     = Inr (replicate 16 0, Some ''Unknown response format'')"
proof -
  have bytes: "take k (drop a (paged_data zero_host_memory)) = map (\<lambda>i. if i = 96 then 16 else 0) [a..<a + k]"
    if "a + k \<le> 65536" for a k
    using that by (simp add: paged_data_def zero_host_memory_def drop_map take_map)
  have n: "16 = le_value (take 4 (drop (100 - 4) (paged_data zero_host_memory)))"
    by (simp add: bytes upt_rec)
  have r: "replicate 16 0 = take 16 (drop 100 (paged_data zero_host_memory))"
    by (rule sym, subst bytes) (auto intro!: replicate_eqI)
  have "\<not> signature_at (replicate 16 0) i" for i
  proof
    assume "signature_at (replicate 16 0) i"
    then have "0x08 \<in> set (take 4 (drop i (replicate 16 (0 :: byte))))"
      by (simp add: signature_at_def error_signature_def)
    then show False by (auto dest!: in_set_takeD in_set_dropD)
  qed
  moreover have "length (paged_data zero_host_memory) = 65536"
    by (simp add: paged_data_def zero_host_memory_def)
  ultimately show ?thesis using response_read [OF paged_memory_documented n r] by simp
qed

text \<open>
  A response that starts with a count of transfers, as sixteen bytes, and carries no error is reported
  with the error "Unknown response format" when the count is not zero, and also when it is zero and
  nothing follows.
\<close>

lemma counted_response_is_error:
  assumes "\<forall>i. \<not> signature_at (u128_to_le_bytes k @ rest) i" and "k \<noteq> 0 \<or> rest = []"
  shows "read_response (u128_to_le_bytes k @ rest) = (u128_to_le_bytes k @ rest, Some ''Unknown response format'')"
proof -
  have "take 16 (u128_to_le_bytes k @ rest) \<noteq> replicate 16 0" if "k \<noteq> 0"
  proof
    assume "take 16 (u128_to_le_bytes k @ rest) = replicate 16 0"
    then have "le_value (u128_to_le_bytes k) = le_value (replicate 16 0)" by simp
    then have "unat k = 0" by (simp add: numeral_eq_Suc)
    with that show False by (simp add: unat_eq_zero)
  qed
  with assms show ?thesis by (auto simp: read_response_plain find_signature_None)
qed

end
