(* ===== verification/Alkane_Inspector.thy ===== *)
theory Alkane_Inspector
  imports Alkane_Host Address_Ids Metashrew_Views
begin

text \<open>
  The bytecode inspector (\<open>alkanes/inspector/analysis.rs\<close>, \<open>mod.rs\<close>): metadata, the batch execution of
  opcodes, the ranges of opcodes a user asks for, the filter of undefined opcodes, and the inspection
  of a contract through a provider.  The WebAssembly engine, the printer of WebAssembly and the hash
  function are parameters.
\<close>

subsection \<open>The engine\<close>

text \<open>
  The run of an export takes the store and gives it back with a value or the text of a trap, and the
  microseconds it took.
\<close>

type_synonym 'm run = "'m host \<Rightarrow> 'm host \<times> (string + i32) \<times> u64"

datatype 'm export = Mistyped string | Typed "'m run"

record 'm wasm_instance =
  in_memory :: "'m option"
  in_export :: "string \<Rightarrow> 'm export option"

record ('o, 'm) engine =
  en_compile :: "byte list \<Rightarrow> string + 'o"
  en_instantiate :: "'o \<Rightarrow> string + 'o"
  en_no_start :: "'o \<Rightarrow> string + 'm wasm_instance"

definition fallible :: "string \<Rightarrow> string + 'a \<Rightarrow> 'a res" where
  "fallible c r = (case r of Inl msg \<Rightarrow> Inl (Error [c, msg]) | Inr x \<Rightarrow> Inr x)"

definition open_module :: "('o, 'm) engine \<Rightarrow> byte list \<Rightarrow> 'm wasm_instance res" where
  "open_module e bs =
     and_then (fallible ''Failed to compile WASM module'' (en_compile e bs)) (\<lambda>module.
     and_then (fallible ''Failed to instantiate WASM module'' (en_instantiate e module)) (\<lambda>started.
     fallible ''Failed to ensure no start function'' (en_no_start e started)))"

definition memory_and_function :: "string \<Rightarrow> 'm wasm_instance \<Rightarrow> ('m \<times> 'm run) res" where
  "memory_and_function name i =
     (case in_memory i of
        None \<Rightarrow> Inl (anyhow ''No memory export found'')
      | Some m \<Rightarrow>
          (case in_export i name of
             None \<Rightarrow> Inl (anyhow (''No '' @ name @ '' export found''))
           | Some (Mistyped msg) \<Rightarrow> Inl (Error [''Failed to get typed '' @ name @ '' function'', msg])
           | Some (Typed run) \<Rightarrow> Inr (m, run)))"

definition compute_codehash :: "libs \<Rightarrow> (byte list \<Rightarrow> byte list) \<Rightarrow> byte list \<Rightarrow> string" where
  "compute_codehash l keccak bs = hex_encode l (keccak bs)"

definition extract_metadata ::
  "(byte list \<Rightarrow> json option) \<Rightarrow> 'm memory_lib \<Rightarrow> ('o, 'm) engine \<Rightarrow> byte list \<Rightarrow> alkane_metadata res" where
  "extract_metadata parse ml e bs =
     and_then (open_module e bs) (\<lambda>i.
     and_then (memory_and_function ''__meta'' i) (\<lambda>(m, run).
       case run (create_store empty_context (Some m)) of
         (h, Inl msg, t) \<Rightarrow> Inl (Error [''Failed to execute __meta'', msg])
       | (h, Inr p, t) \<Rightarrow> read_metadata_from_memory parse ml (unwrap_or m (ho_memory h)) (addr p)))"

text \<open>\<open>print_wasm\<close> is \<open>wasmprinter::print_bytes\<close> without the text of its error.\<close>

definition disassemble_wasm :: "(byte list \<Rightarrow> string option) \<Rightarrow> byte list \<Rightarrow> string option" where
  "disassemble_wasm print_wasm bs = print_wasm bs"

subsection \<open>Executing opcodes\<close>

record execution_result =
  er_success :: bool
  er_return_value :: "i32 option"
  er_return_data :: "byte list"
  er_error :: "string option"
  er_micros :: u64
  er_opcode :: u128
  er_host_calls :: "host_entry list"

definition prepare_opcode :: "u128 \<Rightarrow> 'm host \<Rightarrow> 'm host" where
  "prepare_opcode opcode h =
     h\<lparr>ho_context := (ho_context h)
          \<lparr>rc_inputs := foldl (\<lambda>xs i. xs[i := 0]) ((rc_inputs (ho_context h))[0 := opcode]) [1..<16],
           rc_returndata := []\<rparr>,
       ho_calls := [], ho_failure := False\<rparr>"

definition executed :: "u128 \<Rightarrow> i32 \<Rightarrow> byte list \<Rightarrow> string option \<Rightarrow> u64 \<Rightarrow> host_entry list \<Rightarrow> execution_result" where
  "executed opcode p bs err t cs =
     \<lparr>er_success = True, er_return_value = Some p, er_return_data = bs, er_error = err, er_micros = t,
      er_opcode = opcode, er_host_calls = cs\<rparr>"

definition trapped :: "u128 \<Rightarrow> string \<Rightarrow> u64 \<Rightarrow> host_entry list \<Rightarrow> execution_result" where
  "trapped opcode msg t cs =
     \<lparr>er_success = False, er_return_value = None, er_return_data = [],
      er_error = Some (''WASM execution failed: '' @ msg), er_micros = t, er_opcode = opcode, er_host_calls = cs\<rparr>"

definition execute_one ::
  "'m memory_lib \<Rightarrow> 'm \<Rightarrow> 'm run \<Rightarrow> 'm host \<Rightarrow> u128 \<Rightarrow> ('m host \<times> execution_result) res" where
  "execute_one ml m run h opcode =
     (case run (prepare_opcode opcode h) of
        (h', Inr p, t) \<Rightarrow>
          and_then (decode_extended_call_response ml (unwrap_or m (ho_memory h')) (addr p)) (\<lambda>(bs, err).
            Inr (h', executed opcode p bs err t (ho_calls h')))
      | (h', Inl msg, t) \<Rightarrow> Inr (h', trapped opcode msg t (ho_calls h')))"

fun execute_each ::
  "'m memory_lib \<Rightarrow> 'm \<Rightarrow> 'm run \<Rightarrow> 'm host \<Rightarrow> u128 list \<Rightarrow> execution_result list res" where
  "execute_each ml m run h [] = Inr []"
| "execute_each ml m run h (opcode # opcodes) =
     and_then (execute_one ml m run h opcode) (\<lambda>(h', r).
     and_then (execute_each ml m run h' opcodes) (\<lambda>rs. Inr (r # rs)))"

definition batch_context :: "u64 \<times> u64 \<Rightarrow> runtime_context" where
  "batch_context alkane =
     (let i = (ucast (fst alkane), ucast (snd alkane))
      in empty_context\<lparr>rc_inputs := replicate 16 0, rc_myself := i, rc_caller := i,
           rc_message := \<lparr>mp_vout = 0, mp_height = 800000, mp_calldata = []\<rparr>\<rparr>)"

definition execute_opcodes_batch ::
  "'m memory_lib \<Rightarrow> ('o, 'm) engine \<Rightarrow> byte list \<Rightarrow> u128 list \<Rightarrow> u64 \<times> u64 \<Rightarrow> execution_result list res" where
  "execute_opcodes_batch ml e bs opcodes alkane =
     and_then (open_module e bs) (\<lambda>i.
     and_then (memory_and_function ''__execute'' i) (\<lambda>(m, run).
       execute_each ml m run (create_store (batch_context alkane) (Some m)) opcodes))"

definition execute_opcode_with_context ::
  "'m memory_lib \<Rightarrow> ('o, 'm) engine \<Rightarrow> byte list \<Rightarrow> u128 \<Rightarrow> u64 \<times> u64 \<Rightarrow> execution_result res" where
  "execute_opcode_with_context ml e bs opcode alkane =
     and_then (execute_opcodes_batch ml e bs [opcode] alkane) (\<lambda>rs.
       case rs of r # _ \<Rightarrow> Inr r | [] \<Rightarrow> Inl (anyhow ''No result returned from batch execution''))"

subsection \<open>Ranges of opcodes\<close>

definition unordered_range :: "u128 \<Rightarrow> u128 \<Rightarrow> fault" where
  "unordered_range s e = anyhow (''Invalid range: start '' @ to_string s @ '' > end '' @ to_string e)"

definition parse_range_part :: "string \<Rightarrow> u128 list res" where
  "parse_range_part part =
     (if CHR ''-'' \<in> set part
      then (case split_on CHR ''-'' part of
              [a, b] \<Rightarrow>
                and_then (parse_context (''Invalid start opcode: '' @ a) a) (\<lambda>s :: u128.
                and_then (parse_context (''Invalid end opcode: '' @ b) b) (\<lambda>e :: u128.
                  if e < s
                  then Inl (unordered_range s e)
                  else Inr (map of_nat [unat s..<Suc (unat e)])))
            | _ \<Rightarrow> Inl (anyhow (''Invalid range format: '' @ part)))
      else and_then (parse_context (''Invalid opcode: '' @ part) part) (\<lambda>n. Inr [n]))"

fun parse_range_parts :: "string list \<Rightarrow> u128 list res" where
  "parse_range_parts [] = Inr []"
| "parse_range_parts (part # parts) =
     and_then (parse_range_part (trim part)) (\<lambda>ns.
     and_then (parse_range_parts parts) (\<lambda>rest. Inr (ns @ rest)))"

definition parse_opcode_ranges :: "string \<Rightarrow> u128 list res" where
  "parse_opcode_ranges s =
     and_then (parse_range_parts (split_on CHR '','' s)) (\<lambda>ns. Inr (remdups_adj (sort ns)))"

subsection \<open>The filter of undefined opcodes\<close>

definition error_tag :: string where
  "error_tag = ''ERROR:''"

definition normalize_response_pattern :: "libs \<Rightarrow> execution_result \<Rightarrow> string" where
  "normalize_response_pattern l r =
     (case er_error r of
        Some msg \<Rightarrow>
          let hex = ''0x'' @ hex_nat (unat (er_opcode r))
          in error_tag @ replace_all hex ''OPCODE'' (replace_all hex ''OPCODE''
               (replace_all (to_string (er_opcode r)) ''OPCODE'' msg))
      | None \<Rightarrow>
          let bs = er_return_data r;
              shown = (if bs = [] then ''EMPTY''
                 else if length bs \<le> 32 then hex_encode l bs
                 else hex_encode l (take 16 bs) @ ''...('' @ dec_string (length bs) @ ''bytes)'');
              called = (if er_host_calls r = [] then ''NO_CALLS''
                 else join_with '','' (map he_function (er_host_calls r)))
          in ''SUCCESS:'' @ shown @ '':CALLS:'' @ called)"

text \<open>
  The groups are the entries of a hash map: \<open>iter\<close> is the order in which its iterator gives them.
  \<open>max_by_key\<close> keeps the last of the greatest.
\<close>

type_synonym group_entry = "string \<times> execution_result list"

definition response_patterns :: "libs \<Rightarrow> execution_result list \<Rightarrow> group_entry list" where
  "response_patterns l results =
     (let pattern = normalize_response_pattern l
      in map (\<lambda>p. (p, filter (\<lambda>r. pattern r = p) results)) (remdups (map pattern results)))"

fun max_by_key :: "('a \<Rightarrow> nat) \<Rightarrow> 'a list \<Rightarrow> 'a option" where
  "max_by_key key [] = None"
| "max_by_key key (x # xs) = Some (foldl (\<lambda>m y. if key m \<le> key y then y else m) x xs)"

definition filter_undefined_behavior_patterns ::
  "libs \<Rightarrow> (group_entry list \<Rightarrow> group_entry list) \<Rightarrow> execution_result list \<Rightarrow> execution_result list" where
  "filter_undefined_behavior_patterns l iter results =
     (case max_by_key (\<lambda>(p, rs). length rs) (iter (response_patterns l results)) of
        Some (largest, rs) \<Rightarrow>
          if length results div 2 < length rs \<and> prefix error_tag largest
          then filter (\<lambda>r. normalize_response_pattern l r \<noteq> largest) results
          else results
      | None \<Rightarrow> results)"

subsection \<open>The fuzzing analysis\<close>

record fuzzing_results =
  fz_total_tested :: nat
  fz_filtered_out :: nat
  fz_successful :: nat
  fz_failed :: nat
  fz_implemented :: "u128 list"
  fz_results :: "execution_result list"

definition fuzzing_summary :: "nat \<Rightarrow> execution_result list \<Rightarrow> fuzzing_results" where
  "fuzzing_summary total_tested kept =
     \<lparr>fz_total_tested = total_tested,
      fz_filtered_out = total_tested - length kept,
      fz_successful = length (filter er_success kept),
      fz_failed = length (filter (\<lambda>r. \<not> er_success r) kept),
      fz_implemented = map er_opcode kept,
      fz_results = kept\<rparr>"

definition perform_fuzzing_analysis ::
  "libs \<Rightarrow> 'm memory_lib \<Rightarrow> ('o, 'm) engine \<Rightarrow> (group_entry list \<Rightarrow> group_entry list) \<Rightarrow> u64 \<times> u64 \<Rightarrow> byte list
   \<Rightarrow> string option \<Rightarrow> fuzzing_results res" where
  "perform_fuzzing_analysis l ml e iter alkane bs ranges =
     and_then (case ranges of Some s \<Rightarrow> parse_opcode_ranges s | None \<Rightarrow> Inr (map of_nat [0..<1000])) (\<lambda>opcodes.
     and_then (execute_opcodes_batch ml e bs opcodes alkane) (\<lambda>results.
       Inr (fuzzing_summary (length results) (filter_undefined_behavior_patterns l iter results))))"

subsection \<open>The inspection\<close>

record inspection_config =
  ic_disasm :: bool
  ic_fuzz :: bool
  ic_fuzz_ranges :: "string option"
  ic_meta :: bool
  ic_codehash :: bool
  ic_raw :: bool

record inspection_result =
  ir_alkane :: "u64 \<times> u64"
  ir_bytecode_length :: nat
  ir_codehash :: "string option"
  ir_disassembly :: "string option"
  ir_metadata :: "alkane_metadata option"
  ir_metadata_error :: "string option"
  ir_fuzzing :: "fuzzing_results option"

record ('o, 'm) inspector_libs =
  il_libs :: libs
  il_memory :: "'m memory_lib"
  il_engine :: "('o, 'm) engine"
  il_order :: "group_entry list \<Rightarrow> group_entry list"
  il_keccak :: "byte list \<Rightarrow> byte list"
  il_print :: "byte list \<Rightarrow> string option"
  il_parse :: "byte list \<Rightarrow> json option"
  il_hex_error :: "string \<Rightarrow> string"

definition fault_message :: "fault \<Rightarrow> string" where
  "fault_message f = (case f of Error (msg # _) \<Rightarrow> msg | Error [] \<Rightarrow> [] | Panic msg \<Rightarrow> msg)"

definition get_alkane_bytecode :: "(string \<Rightarrow> string \<Rightarrow> string dres) \<Rightarrow> u64 \<times> u64 \<Rightarrow> string res" where
  "get_alkane_bytecode get_bytecode alkane =
     (case get_bytecode (to_string (fst alkane)) (to_string (snd alkane)) of
        Inl e \<Rightarrow> Inl (anyhow (''Failed to get bytecode: '' @ deezel_error_text e))
      | Inr code \<Rightarrow> Inr code)"

definition inspect_alkane ::
  "('o, 'm) inspector_libs \<Rightarrow> (string \<Rightarrow> string \<Rightarrow> string dres) \<Rightarrow> u64 \<times> u64 \<Rightarrow> inspection_config
   \<Rightarrow> inspection_result res" where
  "inspect_alkane il get_bytecode alkane c =
     and_then (get_alkane_bytecode get_bytecode alkane) (\<lambda>code.
       let digits = unwrap_or code (strip_prefix ''0x'' code)
       in case hex_decode (il_libs il) digits of
            None \<Rightarrow> Inl (Error [''Failed to decode WASM bytecode from hex'', il_hex_error il digits])
          | Some bs \<Rightarrow>
              let meta = (if ic_meta c then Some (extract_metadata (il_parse il) (il_memory il) (il_engine il) bs) else None)
              in and_then
                   (if ic_fuzz c
                    then and_then (perform_fuzzing_analysis (il_libs il) (il_memory il) (il_engine il) (il_order il)
                           alkane bs (ic_fuzz_ranges c)) (\<lambda>f. Inr (Some f))
                    else Inr None) (\<lambda>fuzzing.
                   Inr \<lparr>ir_alkane = alkane,
                        ir_bytecode_length = length bs,
                        ir_codehash = (if ic_codehash c then Some (compute_codehash (il_libs il) (il_keccak il) bs) else None),
                        ir_disassembly = (if ic_disasm c then disassemble_wasm (il_print il) bs else None),
                        ir_metadata = Option.bind meta res_ok,
                        ir_metadata_error =
                          (case meta of Some (Inl f) \<Rightarrow> Some (fault_message f) | _ \<Rightarrow> None),
                        ir_fuzzing = fuzzing\<rparr>))"

text \<open>
  The provider's \<open>inspect\<close>; \<open>convert\<close> is the passage of the result through its JSON form, to the type of
  the same fields the provider returns.
\<close>

definition provider_inspect ::
  "('o, 'm) inspector_libs \<Rightarrow> (inspection_result \<Rightarrow> inspection_result dres) \<Rightarrow> proto_libs \<Rightarrow> backend
   \<Rightarrow> concrete_provider \<Rightarrow> nat \<Rightarrow> string \<Rightarrow> inspection_config \<Rightarrow> inspection_result dres" where
  "provider_inspect il convert pl b p n target c =
     (case split_on CHR '':'' target of
        [block, tx] \<Rightarrow>
          dbind (parse_number block) (\<lambda>block.
          dbind (parse_number tx) (\<lambda>tx.
            case inspect_alkane il (bytecode_of (il_libs il) pl b p n) (block, tx) c of
              Inl f \<Rightarrow> Inl (Other (fault_message f))
            | Inr r \<Rightarrow> convert r))
      | _ \<Rightarrow> Inl (InvalidParameters (''Invalid target format. Expected '' @ [CHR 0x27] @ ''block:tx'' @ [CHR 0x27])))"

subsection \<open>Ranges of opcodes, as sets\<close>

datatype opcode_range = Single u128 | Between u128 u128

fun range_text :: "opcode_range \<Rightarrow> string" where
  "range_text (Single n) = to_string n"
| "range_text (Between s e) = to_string s @ ''-'' @ to_string e"

fun range_ok :: "opcode_range \<Rightarrow> bool" where
  "range_ok (Single n) \<longleftrightarrow> True"
| "range_ok (Between s e) \<longleftrightarrow> s \<le> e"

fun range_set :: "opcode_range \<Rightarrow> u128 set" where
  "range_set (Single n) = {n}"
| "range_set (Between s e) = {s..e}"

lemma words_between: "of_nat ` {unat s..unat e} = {s..e :: 'a::len word}"
proof
  show "of_nat ` {unat s..unat e} \<subseteq> {s..e}"
  proof
    fix w :: "'a word"
    assume "w \<in> of_nat ` {unat s..unat e}"
    then obtain n where n: "w = of_nat n" "unat s \<le> n" "n \<le> unat e" by auto
    have "n < 2 ^ LENGTH('a)" using n(3) by (rule le_less_trans) (rule unsigned_less)
    then have "unat w = n" using n(1) by (simp add: unsigned_of_nat take_bit_nat_eq_self)
    with n show "w \<in> {s..e}" by (simp add: word_le_nat_alt)
  qed
  show "{s..e} \<subseteq> of_nat ` {unat s..unat e}"
  proof
    fix w assume "w \<in> {s..e}"
    then have "unat w \<in> {unat s..unat e}" by (simp add: word_le_nat_alt)
    then have "of_nat (unat w) \<in> (of_nat ` {unat s..unat e} :: 'a word set)" by (rule imageI)
    then show "w \<in> of_nat ` {unat s..unat e}" by simp
  qed
qed

lemma to_string_chars: "c \<in> set (to_string (w :: 'a::len word)) \<Longrightarrow> c \<in> decimal_digits"
  using set_dec_string [of "unat w"] by (auto simp: to_string_def)

lemma range_text_clean: "CHR '','' \<notin> set (range_text r) \<and> trim (range_text r) = range_text r"
proof -
  have "\<forall>c \<in> set (range_text r). visible c \<and> c \<noteq> CHR '',''"
    by (cases r) (auto simp: visible_def decimal_digits_def dest!: to_string_chars)
  moreover from this have "trim (range_text r) = range_text r" by (intro trim_visible visible_ends) blast
  ultimately show ?thesis by blast
qed

lemma parse_range_part_text:
  "parse_range_part (range_text r) = (if range_ok r
     then Inr (case r of Single n \<Rightarrow> [n] | Between s e \<Rightarrow> map of_nat [unat s..<Suc (unat e)])
     else case r of Between s e \<Rightarrow> Inl (unordered_range s e))"
proof (cases r)
  case (Single n)
  have "CHR ''-'' \<notin> set (to_string n)" by (auto simp: decimal_digits_def dest!: to_string_chars)
  with Single show ?thesis by (simp add: parse_range_part_def)
next
  case (Between s e)
  have "CHR ''-'' \<notin> set (to_string s)" "CHR ''-'' \<notin> set (to_string e)"
    by (auto simp: decimal_digits_def dest!: to_string_chars)
  then have "split_on CHR ''-'' (to_string s @ CHR ''-'' # to_string e) = [to_string s, to_string e]"
    by (simp add: split_on_append split_on_none)
  with Between show ?thesis by (auto simp: parse_range_part_def not_le)
qed

lemma parse_range_parts_text:
  "if \<forall>r \<in> set rs. range_ok r
   then \<exists>ns. parse_range_parts (map range_text rs) = Inr ns \<and> set ns = (\<Union>r \<in> set rs. range_set r)
   else \<exists>s e. Between s e \<in> set rs \<and> e < s \<and> parse_range_parts (map range_text rs) = Inl (unordered_range s e)"
proof (induction rs)
  case (Cons r rs)
  let ?ns = "case r of Single n \<Rightarrow> [n] | Between s e \<Rightarrow> map of_nat [unat s..<Suc (unat e)]"
  have elems: "set ?ns = range_set r"
    by (cases r) (simp_all add: atLeastLessThanSuc_atLeastAtMost words_between del: upt_Suc)
  show ?case
  proof (cases "range_ok r")
    case True
    then have parts: "parse_range_parts (map range_text (r # rs))
        = and_then (parse_range_parts (map range_text rs)) (\<lambda>rest. Inr (?ns @ rest))"
      using range_text_clean [of r] by (simp add: parse_range_part_text)
    show ?thesis
    proof (cases "\<forall>r \<in> set rs. range_ok r")
      case True
      with Cons \<open>range_ok r\<close> elems parts show ?thesis by auto
    next
      case False
      with Cons obtain s e where "Between s e \<in> set rs" "e < s"
        "parse_range_parts (map range_text rs) = Inl (unordered_range s e)" by auto
      with False parts show ?thesis by auto
    qed
  next
    case False
    then obtain s e where r: "r = Between s e" "e < s" by (cases r) auto
    then have "parse_range_parts (map range_text (r # rs)) = Inl (unordered_range s e)"
      using range_text_clean [of r] False by (simp add: parse_range_part_text del: range_text.simps)
    with r show ?thesis by fastforce
  qed
qed simp

text \<open>
  A list of opcodes and ranges of opcodes, written with commas, stands for exactly the opcodes in
  one of them, each once and in increasing order, whatever the order and the overlap of the ranges; a
  range whose start is above its end is reported, and nothing is tested.
\<close>

theorem opcode_ranges_read:
  assumes "ranges \<noteq> []"
  shows "if \<forall>r \<in> set ranges. range_ok r
    then parse_opcode_ranges (join_with '','' (map range_text ranges))
       = Inr (sorted_list_of_set (\<Union>r \<in> set ranges. range_set r))
    else \<exists>s e. Between s e \<in> set ranges \<and> e < s \<and> parse_opcode_ranges (join_with '','' (map range_text ranges)) = Inl (unordered_range s e)"
proof -
  have distinct: "sorted xs \<Longrightarrow> distinct (remdups_adj xs)" for xs :: "u128 list"
    by (induction xs rule: remdups_adj.induct) auto
  have split: "split_on CHR '','' (join_with '','' (map range_text ranges)) = map range_text ranges"
    by (rule split_on_join) (use assms range_text_clean in auto)
  have unique: "remdups_adj (sort ns) = sorted_list_of_set (set ns)" for ns :: "u128 list"
    by (rule sorted_distinct_set_unique) (simp_all add: distinct)
  show ?thesis
  proof (cases "\<forall>r \<in> set ranges. range_ok r")
    case True
    with parse_range_parts_text [of ranges] unique show ?thesis by (auto simp: parse_opcode_ranges_def split)
  next
    case False
    with parse_range_parts_text [of ranges] obtain s e where "Between s e \<in> set ranges" "e < s"
      "parse_range_parts (map range_text ranges) = Inl (unordered_range s e)" by auto
    with False show ?thesis by (auto simp: parse_opcode_ranges_def split)
  qed
qed

lemma opcode_ranges_read_witness:
  "parse_opcode_ranges ''7-8,5'' = Inr [5, 7, 8]"
proof -
  have parts: "set [5, 7, 8] = (\<Union>r \<in> set [Between 7 8, Single 5]. range_set r)"
  proof -
    have "{7..8} = {7, 8 :: u128}"
    proof -
      have "{unat (7 :: u128)..unat (8 :: u128)} = {7, 8}" by auto
      with words_between [of "7 :: u128" 8] show ?thesis by simp
    qed
    then show ?thesis by auto
  qed
  have "sorted_list_of_set (set [5, 7, 8 :: u128]) = [5, 7, 8]"
    by (rule sorted_list_of_set.idem_if_sorted_distinct) simp_all
  moreover have "join_with '','' (map range_text [Between 7 8, Single 5]) = ''7-8,5''" by code_simp
  ultimately show ?thesis
    using opcode_ranges_read [of "[Between 7 8, Single 5]"] by (simp only: parts [symmetric]) simp
qed

subsection \<open>The filter, in any order of the groups\<close>

lemma max_by_key_props:
  "max_by_key key xs = Some x \<Longrightarrow> x \<in> set xs \<and> (\<forall>y \<in> set xs. key y \<le> key x)"
proof (cases xs)
  case (Cons y ys)
  have "(let m = foldl (\<lambda>m y. if key m \<le> key y then y else m) y ys
      in m \<in> set (y # ys) \<and> (\<forall>z \<in> set (y # ys). key z \<le> key m))" for y
  proof (induction ys arbitrary: y)
    case (Cons z zs)
    from Cons.IH [of z] Cons.IH [of y] show ?case by (auto simp: Let_def)
  qed simp
  then show "max_by_key key xs = Some x \<Longrightarrow> ?thesis" by (auto simp: Cons Let_def)
qed simp

definition pattern_count :: "libs \<Rightarrow> execution_result list \<Rightarrow> string \<Rightarrow> nat" where
  "pattern_count l results p = length (filter (\<lambda>r. normalize_response_pattern l r = p) results)"

lemma pattern_counts_le: "p \<noteq> q \<Longrightarrow> pattern_count l results p + pattern_count l results q \<le> length results"
  unfolding pattern_count_def by (induction results) auto

lemma undefined_filter_closed:
  assumes iter: "\<forall>groups. mset (iter groups) = mset groups"
  shows "filter_undefined_behavior_patterns l iter results =
    filter (\<lambda>r. \<not> (prefix error_tag (normalize_response_pattern l r)
      \<and> length results div 2 < pattern_count l results (normalize_response_pattern l r))) results"
    (is "_ = filter ?keep results")
proof (cases "max_by_key (\<lambda>(p, rs). length rs) (iter (response_patterns l results))")
  case None
  then have "iter (response_patterns l results) = []" by (cases "iter (response_patterns l results)") auto
  with iter have "response_patterns l results = []" by (metis mset_zero_iff)
  then have "results = []" by (simp add: response_patterns_def Let_def)
  then show ?thesis using None by (simp add: filter_undefined_behavior_patterns_def)
next
  case (Some entry)
  obtain largest rs where entry: "entry = (largest, rs)" by (cases entry)
  have same: "set (iter (response_patterns l results)) = set (response_patterns l results)"
    using iter by (metis set_mset_mset)
  have groups: "(p, qs) \<in> set (response_patterns l results) \<longleftrightarrow>
      p \<in> normalize_response_pattern l ` set results \<and> qs = filter (\<lambda>r. normalize_response_pattern l r = p) results"
    for p qs by (auto simp: response_patterns_def Let_def)
  from max_by_key_props [OF Some] same entry
  have member: "(largest, rs) \<in> set (response_patterns l results)"
    and most: "(p, qs) \<in> set (response_patterns l results) \<Longrightarrow> length qs \<le> length rs" for p qs
    by auto
  from member have count: "length rs = pattern_count l results largest"
    by (simp add: groups pattern_count_def)
  have greatest: "pattern_count l results (normalize_response_pattern l r) \<le> length rs"
    if "r \<in> set results" for r
    using most [of "normalize_response_pattern l r"] that by (simp add: groups pattern_count_def)
  have "normalize_response_pattern l r = largest"
    if "r \<in> set results" "length results div 2 < pattern_count l results (normalize_response_pattern l r)" for r
  proof (rule ccontr)
    assume "normalize_response_pattern l r \<noteq> largest"
    from pattern_counts_le [OF this, of l results] greatest [OF that(1)] that(2) count show False by linarith
  qed
  then have "\<forall>r \<in> set results. ?keep r \<longleftrightarrow>
      \<not> (length results div 2 < length rs \<and> prefix error_tag largest) \<or> normalize_response_pattern l r \<noteq> largest"
    using count by auto
  then have "filter ?keep results = filter (\<lambda>r.
      \<not> (length results div 2 < length rs \<and> prefix error_tag largest) \<or> normalize_response_pattern l r \<noteq> largest) results"
    by (intro filter_cong) auto
  then show ?thesis
    by (simp add: filter_undefined_behavior_patterns_def Some entry)
qed

text \<open>
  The opcodes the filter removes are exactly those whose normalised pattern is an error that more
  than half of the results share; the order in which the hash map gives its groups has no influence.
\<close>

theorem undefined_opcodes_filtered:
  assumes iter: "\<forall>groups. mset (iter groups) = mset groups"
  shows "filter_undefined_behavior_patterns l iter results =
    filter (\<lambda>r. \<not> (prefix error_tag (normalize_response_pattern l r)
      \<and> length results div 2 < pattern_count l results (normalize_response_pattern l r))) results"
  by (rule undefined_filter_closed [OF iter])

definition plain_result :: "u128 \<Rightarrow> string option \<Rightarrow> execution_result" where
  "plain_result opcode err =
     \<lparr>er_success = True, er_return_value = Some 0, er_return_data = [], er_error = err, er_micros = 0,
      er_opcode = opcode, er_host_calls = []\<rparr>"

definition fuzzed_example :: "execution_result list" where
  "fuzzed_example = [plain_result 77 (Some ''no 77''), plain_result 1 None, plain_result 99 (Some ''no 99'')]"

lemma undefined_opcodes_filtered_witness:
  "\<forall>l. filter_undefined_behavior_patterns l rev fuzzed_example = [plain_result 1 None]"
proof
  fix l
  have digits: "to_string (77 :: u128) = ''77''" "to_string (99 :: u128) = ''99''" "hex_nat 77 = ''4d''" "hex_nat 99 = ''63''"
    by code_simp+
  have "replace_all ''77'' ''OPCODE'' ''no 77'' = ''no OPCODE''" "replace_all ''99'' ''OPCODE'' ''no 99'' = ''no OPCODE''"
    "replace_all ''0x4d'' ''OPCODE'' ''no OPCODE'' = ''no OPCODE''" "replace_all ''0x63'' ''OPCODE'' ''no OPCODE'' = ''no OPCODE''"
    by code_simp+
  then have patterns: "normalize_response_pattern l (plain_result 77 (Some ''no 77'')) = ''ERROR:no OPCODE''"
    "normalize_response_pattern l (plain_result 99 (Some ''no 99'')) = ''ERROR:no OPCODE''"
    "normalize_response_pattern l (plain_result 1 None) = ''SUCCESS:EMPTY:CALLS:NO_CALLS''"
    by (simp_all add: normalize_response_pattern_def plain_result_def error_tag_def digits)
  show "filter_undefined_behavior_patterns l rev fuzzed_example = [plain_result 1 None]"
    using undefined_opcodes_filtered [of rev l fuzzed_example]
    by (simp add: fuzzed_example_def patterns pattern_count_def error_tag_def)
qed

text \<open>
  What the normalisation does to the hexadecimal form: an opcode below 10 has the same digit in
  both forms, the digit is replaced first and the prefix stays.
\<close>

lemma small_hex_keeps_prefix:
  "normalize_response_pattern l (plain_result 5 (Some ''bad opcode 0x5'')) = ''ERROR:bad opcode 0xOPCODE''"
  "normalize_response_pattern l (plain_result 200 (Some ''bad opcode 0xc8'')) = ''ERROR:bad opcode OPCODE''"
proof -
  have "to_string (5 :: u128) = ''5''" "hex_nat 5 = ''5''" "to_string (200 :: u128) = ''200''" "hex_nat 200 = ''c8''"
    by code_simp+
  moreover have "replace_all ''5'' ''OPCODE'' ''bad opcode 0x5'' = ''bad opcode 0xOPCODE''"
    "replace_all ''0x5'' ''OPCODE'' ''bad opcode 0xOPCODE'' = ''bad opcode 0xOPCODE''"
    "replace_all ''200'' ''OPCODE'' ''bad opcode 0xc8'' = ''bad opcode 0xc8''"
    "replace_all ''0xc8'' ''OPCODE'' ''bad opcode 0xc8'' = ''bad opcode OPCODE''"
    "replace_all ''0xc8'' ''OPCODE'' ''bad opcode OPCODE'' = ''bad opcode OPCODE''"
    by code_simp+
  ultimately show "normalize_response_pattern l (plain_result 5 (Some ''bad opcode 0x5'')) = ''ERROR:bad opcode 0xOPCODE''"
    "normalize_response_pattern l (plain_result 200 (Some ''bad opcode 0xc8'')) = ''ERROR:bad opcode OPCODE''"
    by (simp_all add: normalize_response_pattern_def plain_result_def error_tag_def)
qed

subsection \<open>The batch\<close>

lemma prepared_context:
  assumes "length (rc_inputs (ho_context h)) = 16"
  shows "ho_context (prepare_opcode opcode h)
    = (ho_context h)\<lparr>rc_inputs := opcode # replicate 15 0, rc_returndata := []\<rparr>"
proof -
  obtain x0 x1 x2 x3 x4 x5 x6 x7 x8 x9 x10 x11 x12 x13 x14 x15
    where xs: "rc_inputs (ho_context h) = [x0, x1, x2, x3, x4, x5, x6, x7, x8, x9, x10, x11, x12, x13, x14, x15]"
    using assms by (auto simp: numeral_eq_Suc length_Suc_conv)
  show ?thesis by (simp add: prepare_opcode_def xs upt_rec numeral_eq_Suc)
qed

lemma prepared_host [simp]:
  "ho_calls (prepare_opcode opcode h) = []" "\<not> ho_failure (prepare_opcode opcode h)"
  "ho_fuel (prepare_opcode opcode h) = ho_fuel h" "ho_memory (prepare_opcode opcode h) = ho_memory h"
  by (simp_all add: prepare_opcode_def)

lemma execute_one_Inr:
  "execute_one ml m run h opcode = Inr (h', r) \<Longrightarrow>
     h' = fst (run (prepare_opcode opcode h)) \<and> er_opcode r = opcode \<and> er_host_calls r = ho_calls h'
     \<and> (er_success r \<longleftrightarrow> (\<exists>p. fst (snd (run (prepare_opcode opcode h))) = Inr p))
     \<and> (\<forall>msg. fst (snd (run (prepare_opcode opcode h))) = Inl msg
          \<longrightarrow> er_error r = Some (''WASM execution failed: '' @ msg))"
  by (auto simp: execute_one_def executed_def trapped_def split: prod.splits sum.splits)

lemma execute_each_length: "execute_each ml m run h opcodes = Inr rs \<Longrightarrow> length rs = length opcodes"
  by (induction opcodes arbitrary: h rs) auto

text \<open>What one opcode of a batch was run from, and what its result tells.\<close>

definition run_alone :: "'m run \<Rightarrow> 'm host \<Rightarrow> u128 \<Rightarrow> execution_result \<Rightarrow> bool" where
  "run_alone run h opcode r \<longleftrightarrow>
     (\<exists>start. ho_context start = (ho_context h)\<lparr>rc_inputs := opcode # replicate 15 0, rc_returndata := []\<rparr>
        \<and> ho_calls start = [] \<and> \<not> ho_failure start \<and> ho_fuel start \<le> ho_fuel h
        \<and> er_opcode r = opcode \<and> er_host_calls r = ho_calls (fst (run start))
        \<and> (er_success r \<longleftrightarrow> (\<exists>p. fst (snd (run start)) = Inr p)))"

lemma execute_each_run_alone:
  assumes contract: "\<And>h. guest_run l ml h (fst (run h))"
    and inputs: "length (rc_inputs (ho_context h)) = 16"
    and batch: "execute_each ml m run h opcodes = Inr rs"
  shows "list_all2 (run_alone run h) opcodes rs"
  using inputs batch
proof (induction opcodes arbitrary: h rs)
  case (Cons opcode opcodes)
  then obtain h' r rest where one: "execute_one ml m run h opcode = Inr (h', r)"
    and rest: "execute_each ml m run h' opcodes = Inr rest" and rs: "rs = r # rest"
    by auto
  note ctx = prepared_context [OF Cons.prems(1), of opcode]
  from execute_one_Inr [OF one] have h': "h' = fst (run (prepare_opcode opcode h))" by blast
  from guest_run_keeps [OF contract [of "prepare_opcode opcode h"]]
  have kept: "ho_context h' = (ho_context h)\<lparr>rc_inputs := opcode # replicate 15 0, rc_returndata := []\<rparr>"
    "ho_fuel h' \<le> ho_fuel h"
    by (simp_all add: h' ctx host_extends_def)
  have "run_alone run h opcode r"
    unfolding run_alone_def using execute_one_Inr [OF one] ctx h'
    by (intro exI [of _ "prepare_opcode opcode h"]) auto
  moreover have "list_all2 (run_alone run h') opcodes rest"
    using Cons.IH [OF _ rest] kept by simp
  moreover have "run_alone run h' opcode' r' \<Longrightarrow> run_alone run h opcode' r'" for opcode' r'
    using kept by (auto simp: run_alone_def intro: order.trans)
  ultimately show ?case using rs by (auto elim: list_all2_mono)
qed simp

text \<open>
  C33: The opcodes of a batch are executed in order, one result each; although the instance is reused,
  every opcode starts from the context of the alkane with itself as the only non-zero input, no return
  data, no recorded calls and no failure, and the calls of its result are those of its own run.
\<close>

theorem batch_isolates_opcodes:
  assumes opened: "open_module e bs = Inr i" "memory_and_function ''__execute'' i = Inr (m, run)"
    and contract: "\<And>h. guest_run l ml h (fst (run h))"
    and batch: "execute_opcodes_batch ml e bs opcodes alkane = Inr rs"
  shows "map er_opcode rs = opcodes \<and>
    list_all2 (run_alone run (create_store (batch_context alkane) (Some m))) opcodes rs"
proof -
  let ?h = "create_store (batch_context alkane) (Some m)"
  from opened batch have "execute_each ml m run ?h opcodes = Inr rs"
    by (simp add: execute_opcodes_batch_def)
  moreover have "length (rc_inputs (ho_context ?h)) = 16"
    by (simp add: create_store_def batch_context_def Let_def)
  ultimately have all: "list_all2 (run_alone run ?h) opcodes rs"
    using execute_each_run_alone [of l ml run ?h m opcodes rs] contract by simp
  then have "map er_opcode rs = opcodes"
    by (induction rule: list_all2_induct) (auto simp: run_alone_def)
  with all show ?thesis by blast
qed

text \<open>A contract that uses up all its fuel and traps.\<close>

definition greedy_run :: "paged_memory run" where
  "greedy_run h = (h\<lparr>ho_fuel := 0\<rparr>, Inl ''all fuel consumed'', 0)"

definition greedy_instance :: "paged_memory wasm_instance" where
  "greedy_instance = \<lparr>in_memory = Some zero_host_memory, in_export = (\<lambda>name. Some (Typed greedy_run))\<rparr>"

definition greedy_engine :: "(unit, paged_memory) engine" where
  "greedy_engine =
     \<lparr>en_compile = (\<lambda>bs. Inr ()), en_instantiate = Inr, en_no_start = (\<lambda>u. Inr greedy_instance)\<rparr>"

lemma greedy_opened:
  "open_module greedy_engine bs = Inr greedy_instance"
  "memory_and_function ''__execute'' greedy_instance = Inr (zero_host_memory, greedy_run)"
  by (simp_all add: open_module_def fallible_def greedy_engine_def memory_and_function_def greedy_instance_def)

lemma greedy_contract: "guest_run l ml h (fst (greedy_run h))"
proof -
  have "guest_step l ml h (h\<lparr>ho_memory := ho_memory h, ho_fuel := 0\<rparr>)" by (rule guest_code) simp_all
  then have "guest_step l ml h (h\<lparr>ho_fuel := 0\<rparr>)" by simp
  then show ?thesis by (simp add: greedy_run_def guest_next [OF guest_start])
qed

lemma greedy_batch:
  "execute_opcodes_batch paged_memory greedy_engine bs opcodes alkane
     = Inr (map (\<lambda>opcode. trapped opcode ''all fuel consumed'' 0 []) opcodes)"
proof -
  have "execute_each paged_memory m greedy_run h opcodes
      = Inr (map (\<lambda>opcode. trapped opcode ''all fuel consumed'' 0 []) opcodes)" for m h
    by (induction opcodes arbitrary: h) (simp_all add: execute_one_def greedy_run_def)
  then show ?thesis by (simp add: execute_opcodes_batch_def greedy_opened)
qed

lemma batch_isolates_opcodes_witness:
  "run_alone greedy_run (create_store (batch_context (2, 0)) (Some zero_host_memory)) 77
     (trapped 77 ''all fuel consumed'' 0 [])"
  using batch_isolates_opcodes [OF greedy_opened(1) [of "[]"] greedy_opened(2) greedy_contract
      greedy_batch [where bs = "[]" and opcodes = "[77]" and alkane = "(2, 0)"]]
  by simp

subsection \<open>Fuel\<close>

lemma replace_all_absent: "c \<notin> set s \<Longrightarrow> replace_all (c # cs) rep s = s"
  by (induction s) auto

lemma dec_string_head: "\<exists>c cs. to_string (w :: 'a::len word) = c # cs \<and> c \<in> decimal_digits"
proof -
  obtain c cs where "to_string w = c # cs" using dec_string_nonempty [of "unat w"]
    by (cases "to_string w") (auto simp: to_string_def)
  moreover from this have "c \<in> decimal_digits" using to_string_chars [of c w] by simp
  ultimately show ?thesis by blast
qed

lemma digitless_pattern:
  assumes none: "set s \<inter> decimal_digits = {}" and error: "er_error r = Some s"
  shows "normalize_response_pattern l r = error_tag @ s"
proof -
  obtain c cs where first: "to_string (er_opcode r) = c # cs" "c \<in> decimal_digits"
    using dec_string_head [of "er_opcode r"] by blast
  with none have "c \<notin> set s" by blast
  then have "replace_all (to_string (er_opcode r)) ''OPCODE'' s = s"
    unfolding first(1) by (rule replace_all_absent)
  moreover have "replace_all (CHR ''0'' # cs) ''OPCODE'' s = s" for cs
    using none by (intro replace_all_absent) (auto simp: decimal_digits_def)
  ultimately show ?thesis by (simp add: normalize_response_pattern_def error)
qed

lemma no_fuel_traps:
  assumes contract: "\<And>h. guest_run l ml h (fst (run h))"
    and trap: "\<And>h. ho_fuel h = 0 \<Longrightarrow> fst (snd (run h)) = Inl msg"
    and empty: "ho_fuel h = 0" and batch: "execute_each ml m run h opcodes = Inr rs"
  shows "\<forall>r \<in> set rs. \<not> er_success r \<and> er_error r = Some (''WASM execution failed: '' @ msg)"
  using empty batch
proof (induction opcodes arbitrary: h rs)
  case (Cons opcode opcodes)
  then obtain h' r rest where one: "execute_one ml m run h opcode = Inr (h', r)"
    and rest: "execute_each ml m run h' opcodes = Inr rest" and rs: "rs = r # rest"
    by auto
  from execute_one_Inr [OF one] have h': "h' = fst (run (prepare_opcode opcode h))" by blast
  from guest_run_keeps [OF contract [of "prepare_opcode opcode h"]] Cons.prems(1)
  have "ho_fuel h' = 0" by (simp add: h' host_extends_def)
  moreover have "fst (snd (run (prepare_opcode opcode h))) = Inl msg" using Cons.prems(1) by (intro trap) simp
  ultimately show ?case using Cons.IH [OF _ rest] execute_one_Inr [OF one] by (auto simp: rs)
qed simp

text \<open>
  The opcodes of a batch share one store and its fuel, which is set once.  When the first opcode
  uses it up, every later opcode is reported as trapped with the engine's message, whatever the
  contract would do for it; and when there are at least two of them, none of them is reported as
  implemented.
\<close>

theorem fuel_shared_by_opcodes:
  assumes opened: "open_module e bs = Inr i" "memory_and_function ''__execute'' i = Inr (m, run)"
    and contract: "\<And>h. guest_run l ml h (fst (run h))"
    and trap: "\<And>h. ho_fuel h = 0 \<Longrightarrow> fst (snd (run h)) = Inl msg"
    and first: "ho_fuel (fst (run (prepare_opcode opcode (create_store (batch_context alkane) (Some m))))) = 0"
    and batch: "execute_opcodes_batch ml e bs (opcode # opcodes) alkane = Inr (r # rs)"
    and many: "2 \<le> length opcodes" and digitless: "set msg \<inter> decimal_digits = {}"
    and iter: "\<forall>groups. mset (iter groups) = mset groups"
  shows "(\<forall>r \<in> set rs. \<not> er_success r \<and> er_error r = Some (''WASM execution failed: '' @ msg))
    \<and> set (filter_undefined_behavior_patterns k iter (r # rs)) \<subseteq> {r}"
proof -
  let ?h = "create_store (batch_context alkane) (Some m)"
  let ?msg = "''WASM execution failed: '' @ msg"
  let ?pattern = "normalize_response_pattern k"
  from opened batch obtain h' where one: "execute_one ml m run ?h opcode = Inr (h', r)"
    and rest: "execute_each ml m run h' opcodes = Inr rs"
    by (auto simp: execute_opcodes_batch_def)
  have "ho_fuel h' = 0" using execute_one_Inr [OF one] first by simp
  from no_fuel_traps [OF contract trap this rest]
  have traps: "\<forall>r \<in> set rs. \<not> er_success r \<and> er_error r = Some ?msg" by blast
  have "set ?msg \<inter> decimal_digits = {}" using digitless by (auto simp: decimal_digits_def)
  then have same: "\<forall>r \<in> set rs. ?pattern r = error_tag @ ?msg" using traps digitless_pattern by blast
  have "length rs = length opcodes" using execute_each_length [OF rest] .
  moreover have "length rs \<le> pattern_count k (r # rs) (error_tag @ ?msg)"
    using same by (simp add: pattern_count_def filter_id_conv [THEN iffD2])
  ultimately have "length (r # rs) div 2 < pattern_count k (r # rs) (error_tag @ ?msg)"
    using many by simp
  then have "set (filter_undefined_behavior_patterns k iter (r # rs)) \<subseteq> {r}"
    using same by (auto simp: undefined_filter_closed [OF iter])
  with traps show ?thesis by blast
qed

lemma fuel_shared_by_opcodes_witness:
  "\<forall>k. filter_undefined_behavior_patterns k rev
     [trapped 1 ''all fuel consumed'' 0 [], trapped 2 ''all fuel consumed'' 0 [], trapped 3 ''all fuel consumed'' 0 []]
     \<noteq> [trapped 2 ''all fuel consumed'' 0 []]"
proof
  fix k
  have "set (filter_undefined_behavior_patterns k rev
      [trapped 1 ''all fuel consumed'' 0 [], trapped 2 ''all fuel consumed'' 0 [], trapped 3 ''all fuel consumed'' 0 []])
      \<subseteq> {trapped 1 ''all fuel consumed'' 0 []}"
    by (rule fuel_shared_by_opcodes [where msg = "''all fuel consumed''" and opcode = 1 and opcodes = "[2, 3]"
            and alkane = "(2, 0)" and ml = paged_memory,
          THEN conjunct2, OF greedy_opened(1) [of "[]"] greedy_opened(2) greedy_contract])
       (simp_all add: greedy_run_def greedy_batch decimal_digits_def)
  then show "filter_undefined_behavior_patterns k rev
      [trapped 1 ''all fuel consumed'' 0 [], trapped 2 ''all fuel consumed'' 0 [], trapped 3 ''all fuel consumed'' 0 []]
      \<noteq> [trapped 2 ''all fuel consumed'' 0 []]"
    by (auto simp: trapped_def)
qed

subsection \<open>The inspection\<close>

lemma filtered_length: "length (filter_undefined_behavior_patterns l iter results) \<le> length results"
  by (auto simp: filter_undefined_behavior_patterns_def split: option.splits)

lemma fuzzing_counts:
  assumes "perform_fuzzing_analysis l ml e iter alkane bs ranges = Inr f"
  shows "fz_successful f + fz_failed f = length (fz_implemented f)"
    and "fz_filtered_out f + length (fz_implemented f) = fz_total_tested f"
proof -
  from assms obtain results where f: "f = fuzzing_summary (length results) (filter_undefined_behavior_patterns l iter results)"
    by (auto simp: perform_fuzzing_analysis_def)
  show "fz_successful f + fz_failed f = length (fz_implemented f)"
    by (simp add: f fuzzing_summary_def sum_length_filter_compl)
  show "fz_filtered_out f + length (fz_implemented f) = fz_total_tested f"
    using filtered_length [of l iter results] by (simp add: f fuzzing_summary_def)
qed

text \<open>
  The inspection of a contract whose bytecode the provider gives reports the length of the code,
  on demand the hash of exactly the code, and either metadata or the reason why there is none; it
  fails only when the fuzzing was asked for and fails, and the counts of a fuzzing add up.
\<close>

theorem inspection_reports:
  assumes hex: "hex_documented (il_libs il)"
    and code: "get_bytecode (to_string (fst alkane)) (to_string (snd alkane)) = Inr (prefixed_hex code)"
  shows "case inspect_alkane il get_bytecode alkane c of
      Inl f \<Rightarrow> ic_fuzz c \<and> perform_fuzzing_analysis (il_libs il) (il_memory il) (il_engine il) (il_order il)
        alkane code (ic_fuzz_ranges c) = Inl f
    | Inr r \<Rightarrow>
        ir_bytecode_length r = length code
        \<and> ir_codehash r = (if ic_codehash c then Some (hex_text (il_keccak il code)) else None)
        \<and> (ic_meta c \<longleftrightarrow> (ir_metadata r = None) \<noteq> (ir_metadata_error r = None))
        \<and> (case ir_fuzzing r of None \<Rightarrow> \<not> ic_fuzz c
           | Some f \<Rightarrow> ic_fuzz c \<and> fz_successful f + fz_failed f = length (fz_implemented f)
               \<and> fz_filtered_out f + length (fz_implemented f) = fz_total_tested f)"
proof -
  let ?fuzzing = "perform_fuzzing_analysis (il_libs il) (il_memory il) (il_engine il) (il_order il)
    alkane code (ic_fuzz_ranges c)"
  let ?meta = "extract_metadata (il_parse il) (il_memory il) (il_engine il) code"
  have digits: "unwrap_or (prefixed_hex code) (strip_prefix ''0x'' (prefixed_hex code)) = hex_text code"
    by (simp add: prefixed_hex_def strip_prefix_def)
  note inspect = inspect_alkane_def get_alkane_bytecode_def code digits hex_documentedD [OF hex] Let_def
    compute_codehash_def
  have meta: "(Option.bind (Some ?meta) res_ok = None)
      \<noteq> ((case Some ?meta of Some (Inl f) \<Rightarrow> Some (fault_message f) | _ \<Rightarrow> None) = None)"
    by (cases ?meta) simp_all
  show ?thesis
  proof (cases "ic_fuzz c")
    case False
    with meta show ?thesis by (cases "ic_meta c") (simp_all add: inspect)
  next
    case True
    show ?thesis
    proof (cases ?fuzzing)
      case (Inl f)
      with True show ?thesis by (simp add: inspect)
    next
      case (Inr f)
      with True meta fuzzing_counts [OF Inr] show ?thesis by (cases "ic_meta c") (simp_all add: inspect)
    qed
  qed
qed

definition example_inspector :: "(unit, paged_memory) inspector_libs" where
  "example_inspector =
     \<lparr>il_libs = hex_libs, il_memory = paged_memory, il_engine = greedy_engine, il_order = rev,
      il_keccak = rev, il_print = (\<lambda>bs. None), il_parse = (\<lambda>bs. None), il_hex_error = id\<rparr>"

definition example_config :: inspection_config where
  "example_config =
     \<lparr>ic_disasm = False, ic_fuzz = False, ic_fuzz_ranges = None, ic_meta = True, ic_codehash = True, ic_raw = False\<rparr>"

lemma inspection_reports_witness:
  "case inspect_alkane example_inspector (\<lambda>b t. Inr ''0x0061'') (2, 0) example_config of
     Inr r \<Rightarrow> ir_bytecode_length r = 2 \<and> ir_codehash r = Some ''6100'' | Inl f \<Rightarrow> False"
proof -
  have hex: "hex_documented (il_libs example_inspector)"
    by (simp add: example_inspector_def hex_documented_def hex_libs_def)
  have code: "''0x0061'' = prefixed_hex [0, 0x61]" "hex_text [0x61, 0] = ''6100''" by code_simp+
  have given: "(\<lambda>b t. Inr ''0x0061'') (to_string (fst (2 :: u64, 0 :: u64))) (to_string (snd (2 :: u64, 0 :: u64)))
      = (Inr (prefixed_hex [0, 0x61]) :: string dres)"
    using code(1) by simp
  have parts: "\<not> ic_fuzz example_config" "ic_codehash example_config" "il_keccak example_inspector = rev"
    by (simp_all add: example_config_def example_inspector_def)
  show ?thesis
    using inspection_reports [where alkane = "(2, 0)" and c = example_config, OF hex given] code(2)
    by (auto simp: parts split: sum.splits)
qed

end
