(* ===== verification/Ord_Types.thy ===== *)
theory Ord_Types
  imports Text_Ops Envelope
begin

text \<open>
  The types vendored from \<open>ord\<close> (\<open>vendored_ord/runes.rs\<close>, \<open>inscription_id.rs\<close>): rune names and their
  numbers, ids of runes, spaced names, the script of a runestone, and inscription ids in their binary
  and their textual form.  \<open>checks\<close> says whether the build checks overflows (it then panics where a
  release build wraps).  A txid is its 32 bytes.
\<close>

subsection \<open>Runes\<close>

type_synonym rune = u128

text \<open>\<open>2u128.pow(128)\<close> overflows: the wrapped value is 0.\<close>

definition rune_new :: "bool \<Rightarrow> u128 \<Rightarrow> (u128 + rune) res" where
  "rune_new checks n =
     (if checks then Inl (Panic ''attempt to multiply with overflow'')
      else Inr (if 0 \<le> n then Inl n else Inr n))"

definition rune_letter :: "u128 \<Rightarrow> char" where
  "rune_letter n = char_of (65 + unat ((ucast (n - 1) :: byte) mod 26))"

function rune_letters :: "u128 \<Rightarrow> string" where
  "rune_letters n = (if n = 0 then [] else rune_letter n # rune_letters ((n - 1) div 26))"
  by pat_completeness auto
termination
proof (relation "measure unat")
  fix n :: u128
  assume "n \<noteq> 0"
  then have "0 < unat n" by (simp add: unat_gt_0)
  moreover have "unat ((n - 1) div 26) \<le> unat (n - 1)" by (simp add: unat_div)
  moreover have "unat (n - 1) < unat n" using \<open>n \<noteq> 0\<close> by (simp add: measure_unat)
  ultimately show "((n - 1) div 26, n) \<in> measure unat" by simp
qed simp

declare rune_letters.simps [simp del]

definition rune_text :: "rune \<Rightarrow> string" where
  "rune_text n = (if n = 0 then ''A'' else rev (rune_letters n))"

definition upper :: "char \<Rightarrow> bool" where
  "upper c \<longleftrightarrow> 65 \<le> (of_char c :: nat) \<and> (of_char c :: nat) \<le> 90"

text \<open>\<open>n * 26 + (c as u128 - 'A' as u128 + 1)\<close>, for an upper case letter.\<close>

definition rune_step :: "bool \<Rightarrow> u128 \<Rightarrow> char \<Rightarrow> u128 res" where
  "rune_step checks n c =
     (let d = of_nat (of_char c - 65 + 1)
      in if checks
         then (case Option.bind (checked_mul n 26) (\<lambda>m. checked_add m d) of
                 Some m \<Rightarrow> Inr m
               | None \<Rightarrow> Inl (Panic ''attempt to multiply or add with overflow''))
         else Inr (n * 26 + d))"

fun rune_from :: "bool \<Rightarrow> u128 \<Rightarrow> string \<Rightarrow> rune res" where
  "rune_from checks n [] = Inr n"
| "rune_from checks n (c # cs) =
     (if \<not> upper c then Inl (anyhow (''invalid character in rune: '' @ [c]))
      else and_then (rune_step checks n c) (\<lambda>m. rune_from checks m cs))"

definition rune_from_str :: "bool \<Rightarrow> string \<Rightarrow> rune res" where
  "rune_from_str checks s = rune_from checks 0 s"

subsection \<open>Ids and spaced names\<close>

record ord_rune_id =
  id_block :: u64
  id_tx :: u32

definition rune_id_text :: "ord_rune_id \<Rightarrow> string" where
  "rune_id_text i = to_string (id_block i) @ '':'' @ to_string (id_tx i)"

fun split_once :: "char \<Rightarrow> string \<Rightarrow> (string \<times> string) option" where
  "split_once d [] = None"
| "split_once d (c # cs) = (if c = d then Some ([], cs) else map_option (map_prod ((#) c) id) (split_once d cs))"

definition parse_or_error :: "string \<Rightarrow> 'a::len word res" where
  "parse_or_error s = (case parse_uint s of Inr w \<Rightarrow> Inr w | Inl msg \<Rightarrow> Inl (anyhow msg))"

definition rune_id_from_str :: "string \<Rightarrow> ord_rune_id res" where
  "rune_id_from_str s =
     (case split_once CHR '':'' s of
        None \<Rightarrow> Inl (anyhow (''invalid rune id: '' @ s))
      | Some (block, tx) \<Rightarrow>
          and_then (parse_or_error block) (\<lambda>block.
          and_then (parse_or_error tx) (\<lambda>tx. Inr \<lparr>id_block = block, id_tx = tx\<rparr>)))"

record spaced_rune =
  sr_rune :: rune
  sr_spacers :: u32

text \<open>The bullet U+2022 in UTF-8.\<close>

definition bullet :: string where
  "bullet = [char_of (0xE2 :: nat), char_of (0x80 :: nat), char_of (0xA2 :: nat)]"

text \<open>A shift by 32 or more panics in a checked build and is taken modulo 32 otherwise.\<close>

definition spacer_after :: "bool \<Rightarrow> u32 \<Rightarrow> nat \<Rightarrow> bool res" where
  "spacer_after checks spacers i =
     (if checks \<and> 32 \<le> i then Inl (Panic ''attempt to shift right with overflow'')
      else Inr (bit spacers (i mod 32)))"

fun spaced_chars :: "bool \<Rightarrow> u32 \<Rightarrow> nat \<Rightarrow> nat \<Rightarrow> string \<Rightarrow> string res" where
  "spaced_chars checks spacers len i [] = Inr []"
| "spaced_chars checks spacers len i (c # cs) =
     and_then (if i < len - 1 then spacer_after checks spacers i else Inr False) (\<lambda>spaced.
     and_then (spaced_chars checks spacers len (Suc i) cs) (\<lambda>rest.
       Inr (c # (if spaced then bullet else []) @ rest)))"

definition spaced_rune_text :: "bool \<Rightarrow> spaced_rune \<Rightarrow> string res" where
  "spaced_rune_text checks r =
     (let s = rune_text (sr_rune r) in spaced_chars checks (sr_spacers r) (length s) 0 s)"

subsection \<open>Runestones\<close>

text \<open>A push of 4 GiB or more, which \<open>encipher\<close> would panic on, is left out.\<close>

record ord_edict =
  oe_id :: ord_rune_id
  oe_amount :: u128
  oe_output :: u32

record ord_terms =
  ot_amount :: "u128 option"
  ot_cap :: "u128 option"
  ot_height :: "u64 option \<times> u64 option"
  ot_offset :: "u64 option \<times> u64 option"

record ord_etching =
  ch_divisibility :: "byte option"
  ch_premine :: "u128 option"
  ch_rune :: "rune option"
  ch_spacers :: "u32 option"
  ch_symbol :: "string option"
  ch_terms :: "ord_terms option"
  ch_turbo :: bool

record ord_runestone =
  rs_edicts :: "ord_edict list"
  rs_etching :: "ord_etching option"
  rs_mint :: "ord_rune_id option"
  rs_pointer :: "u32 option"
  rs_protocol :: "u128 list option"

definition encipher :: "ord_runestone \<Rightarrow> script_item list" where
  "encipher r =
     [Op ''OP_RETURN'', Push [0x52],
      Push (case rs_protocol r of Some vs \<Rightarrow> concat (map u128_to_le_bytes vs) | None \<Rightarrow> [])]"

subsection \<open>Inscription ids\<close>

record inscription_id =
  ii_txid :: "byte list"
  ii_index :: u32

definition default_inscription_id :: inscription_id where
  "default_inscription_id = \<lparr>ii_txid = replicate 32 0, ii_index = 0\<rparr>"

definition byte_or_zero :: "byte list \<Rightarrow> nat \<Rightarrow> byte" where
  "byte_or_zero bs i = (if i < length bs then bs ! i else 0)"

definition from_value :: "byte list \<Rightarrow> inscription_id option" where
  "from_value v =
     (if length v < 32 then None
      else if 32 + 4 < length v then None
      else let index = drop 32 v
           in if index \<noteq> [] \<and> length index \<noteq> 4 \<and> last index = 0 then None
              else Some \<lparr>ii_txid = take 32 v,
                ii_index = from_le_bytes (map (byte_or_zero index) [0..<4])\<rparr>)"

fun drop_zeros :: "byte list \<Rightarrow> byte list" where
  "drop_zeros [] = []"
| "drop_zeros (b # bs) = (if b = 0 then drop_zeros bs else b # bs)"

definition inscription_value :: "inscription_id \<Rightarrow> byte list" where
  "inscription_value i = ii_txid i @ rev (drop_zeros (rev (le_bytes 4 (unat (ii_index i)))))"

text \<open>The text of a txid and its parser, with the text of the parser's error.\<close>

record txid_text_lib =
  tt_show :: "byte list \<Rightarrow> string"
  tt_read :: "string \<Rightarrow> string + byte list"

definition inscription_text :: "txid_text_lib \<Rightarrow> inscription_id \<Rightarrow> string" where
  "inscription_text tt i = tt_show tt (ii_txid i) @ ''i'' @ to_string (ii_index i)"

datatype inscription_error =
  Bad_character string | Bad_length nat | Bad_separator char | Bad_txid string | Bad_index string

fun inscription_error_text :: "inscription_error \<Rightarrow> string" where
  "inscription_error_text (Bad_character c) = ''invalid character: '' @ [CHR 0x27] @ c @ [CHR 0x27]"
| "inscription_error_text (Bad_length n) = ''invalid length: '' @ dec_string n"
| "inscription_error_text (Bad_separator c) = ''invalid separator: '' @ [CHR 0x60, c, CHR 0x60]"
| "inscription_error_text (Bad_txid e) = ''invalid txid: '' @ e"
| "inscription_error_text (Bad_index e) = ''invalid index: '' @ e"

text \<open>A character that is not ASCII: its first byte and the continuation bytes that follow.\<close>

definition first_foreign :: "string \<Rightarrow> string option" where
  "first_foreign s =
     (case dropWhile (\<lambda>c. (of_char c :: nat) < 128) s of
        [] \<Rightarrow> None
      | c # cs \<Rightarrow> Some (c # takeWhile (\<lambda>d. 128 \<le> (of_char d :: nat) \<and> (of_char d :: nat) < 192) cs))"

definition inscription_from_str :: "txid_text_lib \<Rightarrow> string \<Rightarrow> inscription_error + inscription_id" where
  "inscription_from_str tt s =
     (case first_foreign s of
        Some c \<Rightarrow> Inl (Bad_character c)
      | None \<Rightarrow>
          if length s < 66 then Inl (Bad_length (length s))
          else if s ! 64 \<noteq> CHR ''i'' then Inl (Bad_separator (s ! 64))
          else (case tt_read tt (take 64 s) of
                  Inl e \<Rightarrow> Inl (Bad_txid e)
                | Inr txid \<Rightarrow>
                    (case parse_uint (drop 65 s) of
                       Inl e \<Rightarrow> Inl (Bad_index e)
                     | Inr index \<Rightarrow> Inr \<lparr>ii_txid = txid, ii_index = index\<rparr>)))"

subsection \<open>Rune names as numbers\<close>

text \<open>The number a name stands for: letters are the digits 1 to 26.\<close>

definition name_value :: "nat \<Rightarrow> string \<Rightarrow> nat" where
  "name_value a s = foldl (\<lambda>n c. 26 * n + (of_char c - 64)) a s"

lemma name_value_Nil [simp]: "name_value a [] = a"
  and name_value_Cons [simp]: "name_value a (c # cs) = name_value (26 * a + (of_char c - 64)) cs"
  and name_value_snoc [simp]: "name_value a (s @ [c]) = 26 * name_value a s + (of_char c - 64)"
  by (simp_all add: name_value_def)

lemma name_value_ge: "a \<le> name_value a s"
proof (induction s arbitrary: a)
  case (Cons c cs)
  have "a \<le> 26 * a + (of_char c - 64)" by simp
  also have "\<dots> \<le> name_value a (c # cs)" using Cons by simp
  finally show ?case .
qed simp

lemma unat_u128_of_nat: "a < 2 ^ 128 \<Longrightarrow> unat (of_nat a :: u128) = a"
  by (simp add: unsigned_of_nat) (rule take_bit_nat_eq_self, simp)

lemma rune_step_value:
  assumes "upper c" and "a < 2 ^ 128"
  shows "rune_step True (of_nat a) c = (if 26 * a + (of_char c - 64) < 2 ^ 128
      then Inr (of_nat (26 * a + (of_char c - 64))) else Inl (Panic ''attempt to multiply or add with overflow''))"
proof -
  define d where "d = (of_char c - 65 + 1 :: nat)"
  have d: "of_char c - 64 = d" "d \<le> 26" using assms(1) by (auto simp: upper_def d_def)
  have a: "unat (of_nat a :: u128) = a" using assms(2) by (rule unat_u128_of_nat)
  have d': "unat (of_nat d :: u128) = d" by (rule unat_u128_of_nat) (use d(2) in simp)
  have mul: "checked_mul (of_nat a :: u128) 26 = (if a * 26 < 2 ^ 128 then Some (of_nat (a * 26)) else None)"
    by (simp add: checked_mul_eq a)
  have add: "checked_add (of_nat (a * 26) :: u128) (of_nat d)
      = (if a * 26 + d < 2 ^ 128 then Some (of_nat (a * 26 + d)) else None)" if "a * 26 < 2 ^ 128"
    using unat_u128_of_nat [OF that] by (simp add: checked_add_eq d')
  show ?thesis
    unfolding rune_step_def d_def [symmetric] d Let_def mul
    by (cases "a * 26 < 2 ^ 128") (simp_all add: add mult.commute del: of_nat_add of_nat_mult)
qed

lemma rune_from_value:
  assumes "\<forall>c \<in> set s. upper c" and "a < 2 ^ 128"
  shows "rune_from True (of_nat a) s = (if name_value a s < 2 ^ 128 then Inr (of_nat (name_value a s))
    else Inl (Panic ''attempt to multiply or add with overflow''))"
  using assms
proof (induction s arbitrary: a)
  case (Cons c cs)
  let ?b = "26 * a + (of_char c - 64)"
  show ?case
  proof (cases "?b < 2 ^ 128")
    case True
    with Cons have "rune_step True (of_nat a) c = Inr (of_nat ?b)" by (simp add: rune_step_value del: of_nat_add of_nat_mult)
    with Cons True show ?thesis by (simp del: of_nat_add of_nat_mult)
  next
    case False
    moreover have "?b \<le> name_value ?b cs" by (rule name_value_ge)
    ultimately have "\<not> name_value ?b cs < 2 ^ 128" by linarith
    with False Cons.prems show ?thesis by (simp add: rune_step_value)
  qed
qed simp

text \<open>
  A name of upper case letters is read as the number it stands for, or the reading panics when that
  does not fit into 128 bits; anything else is refused.
\<close>

theorem rune_name_read:
  "rune_from_str True s =
    (if \<forall>c \<in> set s. upper c
     then if name_value 0 s < 2 ^ 128 then Inr (of_nat (name_value 0 s))
       else Inl (Panic ''attempt to multiply or add with overflow'')
     else rune_from True 0 s)
   \<and> (\<not> (\<forall>c \<in> set s. upper c) \<longrightarrow> (\<exists>e. rune_from_str True s = Inl e))"
proof -
  have "\<exists>e. rune_from True n s = Inl e" if "\<not> (\<forall>c \<in> set s. upper c)" for n
    using that
  proof (induction s arbitrary: n)
    case (Cons c cs)
    show ?case
    proof (cases "upper c")
      case True
      then have "\<exists>e. rune_from True m cs = Inl e" for m using Cons by simp
      then show ?thesis by (cases "rune_step True n c") (use True in auto)
    qed simp
  qed simp
  then show ?thesis using rune_from_value [of s 0] by (auto simp: rune_from_str_def)
qed

subsection \<open>Which names are read back\<close>

text \<open>The numbers whose last letter the printer computes on the way, and when it computes it right.\<close>

function quotients :: "u128 \<Rightarrow> u128 list" where
  "quotients n = (if n = 0 then [] else n # quotients ((n - 1) div 26))"
  by pat_completeness auto
termination
proof (relation "measure unat")
  fix n :: u128
  assume "n \<noteq> 0"
  then have "unat (n - 1) < unat n" by (simp add: measure_unat)
  moreover have "unat ((n - 1) div 26) \<le> unat (n - 1)" by (simp add: unat_div)
  ultimately show "((n - 1) div 26, n) \<in> measure unat" by simp
qed simp

declare quotients.simps [simp del]

definition letter_right :: "u128 \<Rightarrow> bool" where
  "letter_right q \<longleftrightarrow> unat (q - 1) mod 256 mod 26 = unat (q - 1) mod 26"

lemma rune_letter_value: "upper (rune_letter n) \<and> of_char (rune_letter n) - 64 = (unat (n - 1) mod 256 mod 26 + 1 :: nat)"
proof -
  have "unat ((ucast (n - 1) :: byte) mod 26) = unat (n - 1) mod 256 mod 26"
    by (simp add: unat_mod unsigned_ucast_eq take_bit_eq_mod)
  moreover have "unat (n - 1) mod 256 mod 26 < 26" by simp
  ultimately have "of_char (rune_letter n) = (65 + unat (n - 1) mod 256 mod 26 :: nat)"
    by (simp add: rune_letter_def)
  moreover have "unat (n - 1) mod 256 mod 26 < 26" by simp
  ultimately show ?thesis by (simp add: upper_def)
qed

lemma rune_letters_upper: "\<forall>c \<in> set (rune_letters n). upper c"
  by (induction n rule: rune_letters.induct) (subst rune_letters.simps, auto simp: rune_letter_value)

lemma printed_value:
  "name_value 0 (rev (rune_letters n)) = unat n \<longleftrightarrow> (\<forall>q \<in> set (quotients n). letter_right q)"
proof (induction n rule: rune_letters.induct)
  case (1 n)
  show ?case
  proof (cases "n = 0")
    case False
    define v where "v = name_value 0 (rev (rune_letters ((n - 1) div 26)))"
    define r where "r = unat (n - 1)"
    have n: "unat n = r + 1" using False by (simp add: r_def unat_minus_one unat_gt_0)
    have q: "unat ((n - 1) div 26) = r div 26" by (simp add: unat_div r_def)
    have printed: "name_value 0 (rev (rune_letters n)) = 26 * v + (r mod 256 mod 26 + 1)"
      using False by (subst rune_letters.simps) (simp add: v_def r_def rune_letter_value)
    have "26 * v + r mod 256 mod 26 = r \<longleftrightarrow> v = r div 26 \<and> r mod 256 mod 26 = r mod 26"
      by (auto simp: mult.commute dest: arg_cong [where f = "\<lambda>x. x div 26"] arg_cong [where f = "\<lambda>x. x mod 26"])
    with 1 [OF False] q show ?thesis
      by (subst quotients.simps) (auto simp: False printed n letter_right_def r_def v_def)
  qed (simp add: rune_letters.simps quotients.simps)
qed

text \<open>
  C34: The name that is printed for a number is read back as that number exactly when, for the number
  and all its quotients, reducing to a byte before taking the remainder by 26 makes no difference;
  this holds for the numbers 1 to 256, and not for 0, which is printed like 1.
\<close>

theorem rune_names_read_back:
  "(rune_from_str True (rune_text n) = Inr n \<longleftrightarrow> n \<noteq> 0 \<and> (\<forall>q \<in> set (quotients n). letter_right q))
   \<and> (1 \<le> n \<and> n \<le> 256 \<longrightarrow> rune_from_str True (rune_text n) = Inr n)"
proof -
  have zero: "rune_from_str True (rune_text 0) = Inr 1"
    using rune_from_value [of "''A''" 0] by (simp add: rune_from_str_def rune_text_def upper_def)
  have iff: "rune_from_str True (rune_text n) = Inr n \<longleftrightarrow> n \<noteq> 0 \<and> (\<forall>q \<in> set (quotients n). letter_right q)"
  proof (cases "n = 0")
    case False
    let ?v = "name_value 0 (rev (rune_letters n))"
    have "rune_from_str True (rune_text n) = (if ?v < 2 ^ 128 then Inr (of_nat ?v)
        else Inl (Panic ''attempt to multiply or add with overflow''))"
      using rune_from_value [of "rev (rune_letters n)" 0] rune_letters_upper [of n] False
      by (simp add: rune_from_str_def rune_text_def)
    moreover have "unat n < 2 ^ 128" using unsigned_less [of n] by simp
    moreover have "(of_nat ?v :: u128) = n \<longleftrightarrow> ?v = unat n" if "?v < 2 ^ 128"
      using unat_u128_of_nat [OF that] by auto
    ultimately have "rune_from_str True (rune_text n) = Inr n \<longleftrightarrow> ?v = unat n" by auto
    with False printed_value show ?thesis by simp
  qed (simp add: zero)
  have small: "\<forall>q \<in> set (quotients n). letter_right q" if "n \<le> 256"
    using that
  proof (induction n rule: quotients.induct)
    case (1 n)
    show ?case
    proof (cases "n = 0")
      case False
      then have r: "unat n = unat (n - 1) + 1" "unat (n - 1) \<le> 255"
        using 1(2) by (simp_all add: unat_minus_one unat_gt_0 word_le_nat_alt)
      then have "letter_right n" by (simp add: letter_right_def)
      moreover have "(n - 1) div 26 \<le> 256" using r by (simp add: word_le_nat_alt unat_div)
      ultimately show ?thesis using 1(1) [OF False] False by (subst quotients.simps) simp
    qed (simp add: quotients.simps)
  qed
  show ?thesis using iff small by (auto simp: word_le_nat_alt)
qed

lemma rune_names_read_back_witness: "rune_from_str True (rune_text 256) = Inr 256"
  using rune_names_read_back [of 256] by (simp add: word_le_nat_alt)

text \<open>The numbers 235 and 257 have the same name.\<close>

lemma rune_names_collide: "rune_text 257 = ''IA'' \<and> rune_text 235 = ''IA''"
  by code_simp

subsection \<open>Round trips of the ids\<close>

lemma split_once_append: "d \<notin> set s \<Longrightarrow> split_once d (s @ d # t) = Some (s, t)"
  by (induction s) auto

lemma parse_or_error_text [simp]: "8 \<le> LENGTH('a) \<Longrightarrow> parse_or_error (to_string (w :: 'a::len word)) = Inr w"
  by (simp add: parse_or_error_def parse_uint_def from_str_radix_to_string)

theorem rune_id_round_trip: "rune_id_from_str (rune_id_text i) = Inr i"
proof -
  have "CHR '':'' \<notin> set (to_string (id_block i))"
    using set_dec_string [of "unat (id_block i)"] by (auto simp: to_string_def decimal_digits_def)
  then show ?thesis
    by (simp add: rune_id_from_str_def rune_id_text_def split_once_append)
qed

lemma from_le_bytes_padded:
  "length bs \<le> 4 \<Longrightarrow> le_value (map (byte_or_zero bs) [0..<4]) = le_value bs"
proof -
  assume "length bs \<le> 4"
  then consider "bs = []" | a where "bs = [a]" | a b where "bs = [a, b]" | a b c where "bs = [a, b, c]"
    | a b c d where "bs = [a, b, c, d]"
    by (cases bs; cases "tl bs"; cases "tl (tl bs)"; cases "tl (tl (tl bs))"; cases "tl (tl (tl (tl bs)))") auto
  then show ?thesis by cases (simp_all add: byte_or_zero_def upt_rec)
qed

lemma drop_zeros_split: "\<exists>n. bs = replicate n 0 @ drop_zeros bs"
proof (induction bs)
  case (Cons b bs)
  then obtain n where "bs = replicate n 0 @ drop_zeros bs" by blast
  then show ?case by (cases "b = 0") (auto intro: exI [of _ "Suc n"] exI [of _ 0])
qed simp

lemma drop_zeros_hd: "drop_zeros bs \<noteq> [] \<Longrightarrow> hd (drop_zeros bs) \<noteq> 0"
  by (induction bs) (auto split: if_splits)

lemma le_value_zeros: "le_value (bs @ replicate n 0) = le_value bs"
proof -
  have "le_value (replicate n 0) = 0" by (induction n) simp_all
  then show ?thesis by (simp add: le_value_append)
qed

text \<open>The number of an index without its trailing zero bytes.\<close>

lemma stripped_index:
  fixes v :: u32
  defines "bs \<equiv> rev (drop_zeros (rev (le_bytes 4 (unat v))))"
  shows "le_value bs = unat v" and "length bs \<le> 4" and "bs = [] \<or> last bs \<noteq> 0"
proof -
  obtain n where "rev (le_bytes 4 (unat v)) = replicate n 0 @ drop_zeros (rev (le_bytes 4 (unat v)))"
    using drop_zeros_split by blast
  then have split: "le_bytes 4 (unat v) = bs @ replicate n 0"
    unfolding bs_def by (metis rev_append rev_replicate rev_rev_ident)
  have "le_value (le_bytes 4 (unat v)) = unat v"
  proof -
    have "unat v < 2 ^ LENGTH(32)" by (rule unsigned_less)
    then show ?thesis by (simp add: le_value_le_bytes)
  qed
  with split show "le_value bs = unat v" by (simp add: le_value_zeros)
  from split have "length bs + n = 4" by (metis length_append length_le_bytes length_replicate)
  then show "length bs \<le> 4" by simp
  show "bs = [] \<or> last bs \<noteq> 0"
    using drop_zeros_hd [of "rev (le_bytes 4 (unat v))"] by (auto simp: bs_def last_rev)
qed

text \<open>Two such forms of one number are equal.\<close>

lemma stripped_unique:
  assumes len: "length as \<le> 4" "length bs \<le> 4" and ends: "as = [] \<or> last as \<noteq> 0" "bs = [] \<or> last bs \<noteq> 0"
    and same: "le_value as = le_value bs"
  shows "as = bs"
proof -
  have snoc: "replicate (Suc m) (0 :: byte) = replicate m 0 @ [0]" for m by (simp add: replicate_append_same)
  have trailing: "cs = ds" if "cs @ replicate m 0 = ds @ replicate n 0" "cs = [] \<or> last cs \<noteq> 0" "ds = [] \<or> last ds \<noteq> 0"
    for cs ds :: "byte list" and m n
    using that
  proof (induction m arbitrary: n)
    case 0
    then show ?case by (cases n) (auto simp: snoc simp del: replicate_Suc)
  next
    case (Suc m)
    show ?case
    proof (cases n)
      case 0
      with Suc.prems show ?thesis by (auto simp: snoc simp del: replicate_Suc)
    next
      case (Suc k)
      with Suc.prems(1) have "(cs @ replicate m 0) @ [0] = (ds @ replicate k 0) @ [0]"
        by (simp add: replicate_append_same)
      then have "cs @ replicate m 0 = ds @ replicate k 0" by (simp only: append1_eq_conv)
      then show ?thesis using Suc.prems(2,3) by (rule Suc.IH)
    qed
  qed
  let ?pad = "\<lambda>xs. xs @ replicate (4 - length xs) (0 :: byte)"
  have pad: "le_bytes 4 (le_value xs) = ?pad xs" if "length xs \<le> 4" for xs
    using le_bytes_le_value [of "?pad xs"] that by (simp add: le_value_zeros)
  have "?pad as = ?pad bs" using pad [OF len(1)] pad [OF len(2)] same by simp
  then show ?thesis using ends by (rule trailing)
qed

text \<open>
  An inscription id is read back from its binary value and from its text, when the txid has 32
  bytes and its own text, of 64 hexadecimal digits, is read back.
\<close>

theorem inscription_id_round_trip:
  assumes txid: "length (ii_txid i) = 32"
    and shown: "length (tt_show tt (ii_txid i)) = 64" "ascii (tt_show tt (ii_txid i))"
    and read: "tt_read tt (tt_show tt (ii_txid i)) = Inr (ii_txid i)"
  shows "from_value (inscription_value i) = Some i \<and> inscription_from_str tt (inscription_text tt i) = Inr i"
proof
  define bs where "bs = rev (drop_zeros (rev (le_bytes 4 (unat (ii_index i)))))"
  have bs: "le_value bs = unat (ii_index i)" "length bs \<le> 4" "bs = [] \<or> last bs \<noteq> 0"
    using stripped_index [of "ii_index i"] by (simp_all add: bs_def)
  have "from_le_bytes (map (byte_or_zero bs) [0..<4]) = ii_index i"
    by (simp only: from_le_bytes_def from_le_bytes_padded [OF bs(2)] bs(1)) simp
  then show "from_value (inscription_value i) = Some i"
    using bs txid by (auto simp: from_value_def inscription_value_def Let_def simp flip: bs_def)
next
  let ?s = "inscription_text tt i"
  have "ascii (to_string (ii_index i))"
    using set_dec_string [of "unat (ii_index i)"] by (auto simp: ascii_def to_string_def decimal_digits_def)
  then have "ascii ?s" using shown by (simp add: inscription_text_def) (simp add: ascii_def)
  then have "dropWhile (\<lambda>c. (of_char c :: nat) < 128) ?s = []" by (simp add: dropWhile_eq_Nil_conv ascii_def)
  then have "first_foreign ?s = None" by (simp only: first_foreign_def list.case)
  moreover have "1 \<le> length (to_string (ii_index i))" by (simp add: to_string_def Suc_le_eq)
  then have "66 \<le> length ?s" using shown(1) by (simp add: inscription_text_def)
  moreover have "?s ! 64 = CHR ''i''" "take 64 ?s = tt_show tt (ii_txid i)" "drop 65 ?s = to_string (ii_index i)"
    using shown(1) by (simp_all add: inscription_text_def nth_append)
  moreover have "parse_uint (to_string (ii_index i)) = Inr (ii_index i)"
    by (simp add: parse_uint_def from_str_radix_to_string)
  ultimately show "inscription_from_str tt ?s = Inr i" using read by (simp add: inscription_from_str_def)
qed

definition reversed_hex :: txid_text_lib where
  "reversed_hex =
     \<lparr>tt_show = (\<lambda>bs. hex_text (rev bs)),
      tt_read = (\<lambda>s. case hex_bytes s of Some bs \<Rightarrow> Inr (rev bs) | None \<Rightarrow> Inl ''bad hex'')\<rparr>"

lemma inscription_id_round_trip_witness:
  "inscription_from_str reversed_hex (inscription_text reversed_hex \<lparr>ii_txid = replicate 32 7, ii_index = 256\<rparr>)
     = Inr \<lparr>ii_txid = replicate 32 7, ii_index = 256\<rparr>"
  by (rule inscription_id_round_trip [THEN conjunct2])
     (simp_all add: reversed_hex_def ascii_hex_text)

text \<open>A value that is read is the value of the id, or has four bytes of index with a zero at the end.\<close>

theorem inscription_value_canonical:
  assumes "from_value v = Some i"
  shows "inscription_value i = v \<or> length v = 36 \<and> last v = 0"
proof -
  define index where "index = drop 32 v"
  have len: "32 \<le> length v" "length v \<le> 36" and i: "ii_txid i = take 32 v"
      "ii_index i = from_le_bytes (map (byte_or_zero index) [0..<4])"
    and last: "index = [] \<or> length index = 4 \<or> last index \<noteq> 0"
    using assms by (auto simp: from_value_def Let_def index_def split: if_splits)
  have short: "length index \<le> 4" using len by (simp add: index_def)
  define bs where "bs = rev (drop_zeros (rev (le_bytes 4 (unat (ii_index i)))))"
  have bs: "le_value bs = unat (ii_index i)" "length bs \<le> 4" "bs = [] \<or> last bs \<noteq> 0"
    using stripped_index [of "ii_index i"] by (simp_all add: bs_def)
  have "le_value index < 256 ^ length index" by (rule le_value_less)
  also have "\<dots> \<le> 256 ^ 4" using short by (intro power_increasing) simp_all
  finally have "unat (ii_index i) = le_value index"
    by (simp only: i(2) from_le_bytes_def from_le_bytes_padded [OF short]) (simp add: unsigned_of_nat take_bit_nat_eq_self)
  then have same: "le_value bs = le_value index" using bs by simp
  show ?thesis
  proof (cases "index = [] \<or> last index \<noteq> 0")
    case True
    have "bs = index" using stripped_unique [OF bs(2) short bs(3) True same] .
    then show ?thesis using i(1) by (simp add: inscription_value_def index_def flip: bs_def)
  next
    case False
    then have "length index = 4" using last by blast
    then show ?thesis using False len by (auto simp: index_def last_drop)
  qed
qed

subsection \<open>Spaced names\<close>

lemma length_rune_letters: "unat n < 26 ^ k \<Longrightarrow> length (rune_letters n) \<le> k"
proof (induction n arbitrary: k rule: rune_letters.induct)
  case (1 n)
  show ?case
  proof (cases "n = 0")
    case False
    then have "0 < unat n" by (simp add: unat_gt_0)
    with 1(2) obtain j where k: "k = Suc j" by (cases k) auto
    have "unat (n - 1) < 26 * 26 ^ j" using 1(2) False by (simp add: k unat_minus_one)
    then have "unat ((n - 1) div 26) < 26 ^ j" by (simp add: unat_div less_mult_imp_div_less mult.commute)
    from 1(1) [OF False this] show ?thesis using False by (subst rune_letters.simps) (simp add: k)
  qed (simp add: rune_letters.simps)
qed

lemma length_rune_text: "length (rune_text n) \<le> 28"
proof -
  have "unat n < 2 ^ LENGTH(128)" by (rule unsigned_less)
  also have "(2 :: nat) ^ LENGTH(128) \<le> 26 ^ 28" by simp
  finally show ?thesis using length_rune_letters [of n 28] by (simp add: rune_text_def)
qed

lemma spaced_chars_total:
  "i + length cs \<le> 32 \<Longrightarrow> spaced_chars checks spacers len i cs
     = Inr (concat (map (\<lambda>j. cs ! j # (if i + j < len - 1 \<and> bit spacers (i + j) then bullet else [])) [0..<length cs]))"
proof (induction cs arbitrary: i)
  case (Cons c cs)
  have "map (\<lambda>j. (c # cs) ! j # (if i + j < len - 1 \<and> bit spacers (i + j) then bullet else [])) [0..<length (c # cs)]
      = (c # (if i < len - 1 \<and> bit spacers i then bullet else []))
        # map (\<lambda>j. cs ! j # (if Suc i + j < len - 1 \<and> bit spacers (Suc i + j) then bullet else [])) [0..<length cs]"
    unfolding length_Cons upt_conv_Cons [OF zero_less_Suc]
    by (simp add: map_Suc_upt [symmetric] del: upt_Suc)
  with Cons show ?case by (auto simp: spacer_after_def simp del: upt_Suc)
qed simp

text \<open>
  A spaced name is always printed, in a checked build too: the letters of the rune with a bullet after
  every letter but the last whose bit is set among the spacers.
\<close>

theorem spaced_rune_printed:
  "spaced_rune_text checks r
     = Inr (concat (map (\<lambda>j. rune_text (sr_rune r) ! j
         # (if j < length (rune_text (sr_rune r)) - 1 \<and> bit (sr_spacers r) j then bullet else []))
         [0..<length (rune_text (sr_rune r))]))"
  using length_rune_text [of "sr_rune r"] spaced_chars_total [of 0]
  by (simp add: spaced_rune_text_def Let_def)

text \<open>The script of a runestone depends on its protocol messages alone.\<close>

lemma encipher_protocol_only: "rs_protocol r = rs_protocol s \<Longrightarrow> encipher r = encipher s"
  by (simp add: encipher_def)

end
