(* ===== verification/Rune_Manager.thy ===== *)
theory Rune_Manager
  imports Ord_Types Runestone Wallet
begin

text \<open>
  The runestone manager (\<open>runestone.rs\<close>): the information it reads from JSON, its two displays, its
  operations over a provider, the names of networks, and the utilities for names and amounts of runes.
  \<open>Runestone::decipher\<close> and the JSON form of its result are parameters.  A function that may panic has
  \<open>Inl\<close> of the message of the panic; \<open>checks\<close> says whether the build checks overflows.
\<close>

subsection \<open>Information\<close>

record terms_info =
  tm_amount :: "u128 option"
  tm_cap :: "u128 option"
  tm_height :: "(u64 option \<times> u64 option) option"
  tm_offset :: "(u64 option \<times> u64 option) option"

record etching_info =
  et_rune :: "string option"
  et_divisibility :: "byte option"
  et_premine :: "u128 option"
  et_spacers :: "u32 option"
  et_symbol :: "string option"
  et_terms :: "terms_info option"

record edict_info =
  ei_id :: string
  ei_amount :: u128
  ei_output :: u32

record rune_info =
  rn_etching :: "etching_info option"
  rn_edicts :: "edict_info list"
  rn_mint :: "string option"
  rn_pointer :: "u32 option"
  rn_cenotaph :: "string list"

definition u64_at :: "string \<Rightarrow> json \<Rightarrow> u64 option" where
  "u64_at k v = Option.bind (jget k v) as_u64"

definition u128_at :: "string \<Rightarrow> json \<Rightarrow> u128 option" where
  "u128_at k v = Option.bind (jstr [k] v) (from_str_radix 10)"

definition pair_at :: "string \<Rightarrow> json \<Rightarrow> (u64 option \<times> u64 option) option" where
  "pair_at k v =
     (case Option.bind (jget k v) as_array of
        Some (a # b # _) \<Rightarrow> Some (as_u64 a, as_u64 b)
      | _ \<Rightarrow> None)"

text \<open>The first character of a text, as its UTF-8 bytes.\<close>

fun first_char :: "string \<Rightarrow> string option" where
  "first_char [] = None"
| "first_char (c # cs) = Some (c # takeWhile (\<lambda>d. 128 \<le> (of_char d :: nat) \<and> (of_char d :: nat) < 192) cs)"

definition terms_from_json :: "json \<Rightarrow> terms_info" where
  "terms_from_json t =
     \<lparr>tm_amount = u128_at ''amount'' t, tm_cap = u128_at ''cap'' t,
      tm_height = pair_at ''height'' t, tm_offset = pair_at ''offset'' t\<rparr>"

definition etching_from_json :: "json \<Rightarrow> etching_info" where
  "etching_from_json e =
     \<lparr>et_rune = jstr [''rune''] e,
      et_divisibility = map_option ucast (u64_at ''divisibility'' e),
      et_premine = u128_at ''premine'' e,
      et_spacers = map_option ucast (u64_at ''spacers'' e),
      et_symbol = Option.bind (jstr [''symbol''] e) first_char,
      et_terms = map_option terms_from_json (jget ''terms'' e)\<rparr>"

definition edict_from_json :: "json \<Rightarrow> edict_info" where
  "edict_from_json e =
     \<lparr>ei_id = unwrap_or ''0:0'' (jstr [''id''] e),
      ei_amount = unwrap_or 0 (u128_at ''amount'' e),
      ei_output = ucast (unwrap_or 0 (u64_at ''output'' e))\<rparr>"

definition parse_runestone_from_json :: "json \<Rightarrow> rune_info" where
  "parse_runestone_from_json v =
     \<lparr>rn_etching = map_option etching_from_json (jget ''etching'' v),
      rn_edicts = map edict_from_json (jarr_or_empty [''edicts''] v),
      rn_mint = jstr [''mint''] v,
      rn_pointer = map_option ucast (u64_at ''pointer'' v),
      rn_cenotaph = List.map_filter as_str (jarr_or_empty [''cenotaph''] v)\<rparr>"

subsection \<open>Operations\<close>

record rune_provider =
  rp_decode :: "chain_tx \<Rightarrow> json dres"
  rp_analyze :: "string \<Rightarrow> json dres"

record decode_result =
  dr_txid :: string
  dr_runestone :: "rune_info option"
  dr_raw_data :: "string option"
  dr_error :: "string option"

text \<open>The transaction that \<open>decode\<close> makes up; \<open>id\<close> is its txid.\<close>

definition placeholder_tx :: "string \<Rightarrow> chain_tx" where
  "placeholder_tx i = \<lparr>ct_txid = i, ct_version = 1, ct_lock_time = 0, ct_inputs = [], ct_outputs = []\<rparr>"

definition manager_decode :: "rune_provider \<Rightarrow> string \<Rightarrow> string \<Rightarrow> decode_result dres" where
  "manager_decode rp i txid =
     dbind (rp_decode rp (placeholder_tx i)) (\<lambda>v.
       Inr \<lparr>dr_txid = txid, dr_runestone = map_option parse_runestone_from_json (jget ''runestone'' v),
            dr_raw_data = jstr [''raw_data''] v, dr_error = jstr [''error''] v\<rparr>)"

datatype message_format = Format_hex | Format_base64 | Format_raw

record message_analysis =
  ma_format :: message_format
  ma_decoded :: string
  ma_runestone :: "rune_info option"
  ma_metadata :: "string \<rightharpoonup> string"

definition string_entries :: "(string \<times> json) list \<Rightarrow> string \<rightharpoonup> string" where
  "string_entries kvs = foldl (\<lambda>m (k, v). case as_str v of Some s \<Rightarrow> m(k \<mapsto> s) | None \<Rightarrow> m) Map.empty kvs"

definition analyze_message :: "rune_provider \<Rightarrow> string \<Rightarrow> message_format \<Rightarrow> message_analysis dres" where
  "analyze_message rp message f =
     dbind (rp_analyze rp message) (\<lambda>v.
       Inr \<lparr>ma_format = f, ma_decoded = message,
            ma_runestone = map_option parse_runestone_from_json (jget ''runestone'' v),
            ma_metadata = string_entries (unwrap_or [] (Option.bind (jget ''metadata'' v) as_object))\<rparr>)"

datatype protostone_format = Stone_hex | Stone_base64 | Stone_binary

record protostone_analysis =
  pa_format :: protostone_format
  pa_decoded :: string

text \<open>Fields and metadata are always empty and left out; the decoded bytes are those of the text.\<close>

definition analyze_protostone :: "rune_provider \<Rightarrow> string \<Rightarrow> protostone_format \<Rightarrow> protostone_analysis dres" where
  "analyze_protostone rp data f =
     dbind (rp_analyze rp data) (\<lambda>v. Inr \<lparr>pa_format = f, pa_decoded = data\<rparr>)"

text \<open>\<open>hex_msg\<close> and \<open>tx_msg\<close> are the texts of the errors of the two decoders.\<close>

definition from_transaction_hex ::
  "libs \<Rightarrow> (transaction \<Rightarrow> chain_tx) \<Rightarrow> (string \<Rightarrow> string) \<Rightarrow> (byte list \<Rightarrow> string) \<Rightarrow> rune_provider \<Rightarrow> string
   \<Rightarrow> rune_info option dres" where
  "from_transaction_hex l details hex_msg tx_msg rp tx_hex =
     (case hex_decode l tx_hex of
        None \<Rightarrow> Inl (Parse (''Invalid hex: '' @ hex_msg tx_hex))
      | Some bs \<Rightarrow>
          (case deserialize_tx l bs of
             None \<Rightarrow> Inl (Parse (''Invalid transaction: '' @ tx_msg bs))
           | Some tx \<Rightarrow>
               dbind (rp_decode rp (details tx)) (\<lambda>v.
                 Inr (map_option parse_runestone_from_json (jget ''runestone'' v)))))"

definition from_transaction ::
  "libs \<Rightarrow> (transaction \<Rightarrow> chain_tx) \<Rightarrow> (string \<Rightarrow> string) \<Rightarrow> (byte list \<Rightarrow> string) \<Rightarrow> (transaction \<Rightarrow> byte list)
   \<Rightarrow> rune_provider \<Rightarrow> transaction \<Rightarrow> rune_info option dres" where
  "from_transaction l details hex_msg tx_msg serialize rp tx =
     from_transaction_hex l details hex_msg tx_msg rp (hex_encode l (serialize tx))"

text \<open>The two calls on the concrete provider.\<close>

definition provider_decode_runestone ::
  "'r chain_libs \<Rightarrow> ('r \<Rightarrow> json dres) \<Rightarrow> (chain_tx \<Rightarrow> string) \<Rightarrow> chain_tx \<Rightarrow> json dres" where
  "provider_decode_runestone c to_json show_cenotaph tx =
     (case decipher c tx of
        Some (Runestone_artifact r) \<Rightarrow> to_json r
      | Some Cenotaph \<Rightarrow> Inl (Deezel_Client.Runestone (''Cenotaph found: '' @ show_cenotaph tx))
      | None \<Rightarrow> Inl (Deezel_Client.Runestone ''No runestone found in transaction''))"

definition provider_analyze_runestone ::
  "libs \<Rightarrow> 'r chain_libs \<Rightarrow> ('r \<Rightarrow> json dres) \<Rightarrow> (chain_tx \<Rightarrow> string) \<Rightarrow> (string \<Rightarrow> deezel_error) \<Rightarrow> (byte list \<Rightarrow> deezel_error)
   \<Rightarrow> (string \<Rightarrow> string dres) \<Rightarrow> string \<Rightarrow> json dres" where
  "provider_analyze_runestone l c to_json show_cenotaph hex_error tx_error tx_hex_of txid =
     dbind (tx_hex_of txid) (\<lambda>tx_hex.
       case hex_decode l tx_hex of
         None \<Rightarrow> Inl (hex_error tx_hex)
       | Some bs \<Rightarrow>
           (case deserialize_tx l bs of
              None \<Rightarrow> Inl (tx_error bs)
            | Some tx \<Rightarrow> provider_decode_runestone c to_json show_cenotaph (tx_details c tx)))"

subsection \<open>Display\<close>

text \<open>The two displays have the same lines with different labels.\<close>

record rune_style =
  sy_title :: string
  sy_etching :: string
  sy_rune :: string
  sy_divisibility :: string
  sy_premine :: string
  sy_spacers :: string
  sy_symbol :: string
  sy_terms :: string
  sy_amount :: string
  sy_cap :: string
  sy_height :: string
  sy_offset :: string
  sy_edicts :: string
  sy_mint :: string
  sy_pointer :: string
  sy_issues :: string
  sy_issue :: string

definition newline :: string where
  "newline = [CHR 0x0A]"

definition utf8_bytes :: "nat list \<Rightarrow> string" where
  "utf8_bytes = map char_of"

definition basic_style :: rune_style where
  "basic_style =
     \<lparr>sy_title = ''Runestone Analysis'' @ newline @ ''=================='',
      sy_etching = ''Etching:'', sy_rune = ''  Rune: '', sy_divisibility = ''  Divisibility: '',
      sy_premine = ''  Premine: '', sy_spacers = ''  Spacers: '', sy_symbol = ''  Symbol: '',
      sy_terms = ''  Terms:'', sy_amount = ''    Amount: '', sy_cap = ''    Cap: '',
      sy_height = ''    Height: '', sy_offset = ''    Offset: '', sy_edicts = ''Edicts:'',
      sy_mint = ''Mint: '', sy_pointer = ''Pointer: '', sy_issues = ''Cenotaph Issues:'', sy_issue = ''  - ''\<rparr>"

definition enhanced_style :: rune_style where
  "enhanced_style =
     \<lparr>sy_title = utf8_bytes [0xF0, 0x9F, 0xAA, 0xA8] @ '' Runestone Analysis'' @ newline
        @ concat (replicate 19 (utf8_bytes [0xE2, 0x95, 0x90])),
      sy_etching = utf8_bytes [0xF0, 0x9F, 0x8E, 0xAF] @ '' Etching:'',
      sy_rune = ''  '' @ utf8_bytes [0xF0, 0x9F, 0x93, 0x9B] @ '' Rune: '',
      sy_divisibility = ''  '' @ utf8_bytes [0xF0, 0x9F, 0x94, 0xA2] @ '' Divisibility: '',
      sy_premine = ''  '' @ utf8_bytes [0xE2, 0x9B, 0x8F, 0xEF, 0xB8, 0x8F] @ ''  Premine: '',
      sy_spacers = ''  '' @ utf8_bytes [0xF0, 0x9F, 0x93, 0x8F] @ '' Spacers: '',
      sy_symbol = ''  '' @ utf8_bytes [0xF0, 0x9F, 0x94, 0xA4] @ '' Symbol: '',
      sy_terms = ''  '' @ utf8_bytes [0xF0, 0x9F, 0x93, 0x8B] @ '' Terms:'',
      sy_amount = ''    '' @ utf8_bytes [0xF0, 0x9F, 0x92, 0xB0] @ '' Amount: '',
      sy_cap = ''    '' @ utf8_bytes [0xF0, 0x9F, 0xA7, 0xA2] @ '' Cap: '',
      sy_height = ''    '' @ utf8_bytes [0xF0, 0x9F, 0x93, 0x8F] @ '' Height: '',
      sy_offset = ''    '' @ utf8_bytes [0xF0, 0x9F, 0x93, 0x8D] @ '' Offset: '',
      sy_edicts = utf8_bytes [0xF0, 0x9F, 0x93, 0x9C] @ '' Edicts:'',
      sy_mint = utf8_bytes [0xF0, 0x9F, 0x8F, 0xAD] @ '' Mint: '',
      sy_pointer = utf8_bytes [0xF0, 0x9F, 0x91, 0x89] @ '' Pointer: '',
      sy_issues = utf8_bytes [0xE2, 0x9A, 0xA0, 0xEF, 0xB8, 0x8F] @ ''  Cenotaph Issues:'',
      sy_issue = ''  '' @ utf8_bytes [0xE2, 0x80, 0xA2] @ '' ''\<rparr>"

definition optional_line :: "string \<Rightarrow> string option \<Rightarrow> string" where
  "optional_line label s = (case s of Some t \<Rightarrow> label @ t @ newline | None \<Rightarrow> [])"

definition range_line :: "u64 option \<times> u64 option \<Rightarrow> string" where
  "range_line r = to_string (unwrap_or 0 (fst r)) @ '' - '' @ to_string (unwrap_or 0 (snd r))"

definition terms_lines :: "rune_style \<Rightarrow> terms_info \<Rightarrow> string" where
  "terms_lines y t =
     sy_terms y @ newline
     @ optional_line (sy_amount y) (map_option to_string (tm_amount t))
     @ optional_line (sy_cap y) (map_option to_string (tm_cap t))
     @ optional_line (sy_height y) (map_option range_line (tm_height t))
     @ optional_line (sy_offset y) (map_option range_line (tm_offset t))"

definition etching_lines :: "rune_style \<Rightarrow> etching_info \<Rightarrow> string" where
  "etching_lines y e =
     sy_etching y @ newline
     @ optional_line (sy_rune y) (et_rune e)
     @ optional_line (sy_divisibility y) (map_option to_string (et_divisibility e))
     @ optional_line (sy_premine y) (map_option to_string (et_premine e))
     @ optional_line (sy_spacers y) (map_option to_string (et_spacers e))
     @ optional_line (sy_symbol y) (et_symbol e)
     @ (case et_terms e of Some t \<Rightarrow> terms_lines y t | None \<Rightarrow> [])
     @ newline"

definition edict_line :: "nat \<Rightarrow> edict_info \<Rightarrow> string" where
  "edict_line i e =
     ''  '' @ dec_string (i + 1) @ ''. ID: '' @ ei_id e @ '', Amount: '' @ to_string (ei_amount e)
     @ '', Output: '' @ to_string (ei_output e) @ newline"

definition format_styled :: "rune_style \<Rightarrow> rune_info \<Rightarrow> string" where
  "format_styled y r =
     sy_title y @ newline @ newline
     @ (case rn_etching r of Some e \<Rightarrow> etching_lines y e | None \<Rightarrow> [])
     @ (if rn_edicts r = [] then []
        else sy_edicts y @ newline @ concat (map (case_prod edict_line) (enumerate 0 (rn_edicts r))) @ newline)
     @ (case rn_mint r of Some m \<Rightarrow> sy_mint y @ m @ newline @ newline | None \<Rightarrow> [])
     @ (case rn_pointer r of Some p \<Rightarrow> sy_pointer y @ to_string p @ newline @ newline | None \<Rightarrow> [])
     @ (if rn_cenotaph r = [] then []
        else sy_issues y @ newline @ concat (map (\<lambda>issue. sy_issue y @ issue @ newline) (rn_cenotaph r)) @ newline)"

definition format_basic :: "rune_info \<Rightarrow> string" where
  "format_basic = format_styled basic_style"

definition format_enhanced :: "rune_info \<Rightarrow> string" where
  "format_enhanced = format_styled enhanced_style"

definition manager_format_runestone :: "rune_info \<Rightarrow> bool \<Rightarrow> string" where
  "manager_format_runestone r enhanced = (if enhanced then format_enhanced r else format_basic r)"

subsection \<open>Networks\<close>

fun wrapper_text :: "network \<Rightarrow> string" where
  "wrapper_text Bitcoin = ''mainnet''"
| "wrapper_text Testnet = ''testnet''"
| "wrapper_text Signet = ''signet''"
| "wrapper_text Regtest = ''regtest''"

definition wrapper_read :: "string \<Rightarrow> string + network" where
  "wrapper_read s =
     (if s = ''mainnet'' then Inr Bitcoin else if s = ''testnet'' then Inr Testnet
      else if s = ''signet'' then Inr Signet else if s = ''regtest'' then Inr Regtest
      else Inl (''Unknown network: '' @ s))"

record runestone_config =
  rg_network :: network
  rg_enhanced :: bool
  rg_raw_data :: bool

definition default_runestone_config :: runestone_config where
  "default_runestone_config = \<lparr>rg_network = Bitcoin, rg_enhanced = True, rg_raw_data = False\<rparr>"

subsection \<open>Utilities\<close>

definition upper_or_dot :: "char \<Rightarrow> bool" where
  "upper_or_dot c \<longleftrightarrow> 65 \<le> (of_char c :: nat) \<and> (of_char c :: nat) \<le> 90 \<or> c = CHR ''.''"

definition parse_rune_name :: "string \<Rightarrow> string dres" where
  "parse_rune_name name =
     (if \<forall>c \<in> set name. upper_or_dot c then Inr name else Inl (Parse (''Invalid rune name: '' @ name)))"

text \<open>\<open>10_u128.pow(d)\<close>\<close>

definition power_of_ten :: "bool \<Rightarrow> byte \<Rightarrow> string + u128" where
  "power_of_ten checks d =
     (if checks \<and> 2 ^ 128 \<le> (10 :: nat) ^ unat d then Inl ''attempt to multiply with overflow''
      else Inr (of_nat (10 ^ unat d)))"

definition trim_trailing :: "char \<Rightarrow> string \<Rightarrow> string" where
  "trim_trailing c s = rev (dropWhile ((=) c) (rev s))"

definition pad_left :: "nat \<Rightarrow> string \<Rightarrow> string" where
  "pad_left n s = replicate (n - length s) CHR ''0'' @ s"

definition pad_right :: "nat \<Rightarrow> string \<Rightarrow> string" where
  "pad_right n s = s @ replicate (n - length s) CHR ''0''"

text \<open>A divisor of 0, which a wrapped power may be, panics.\<close>

definition format_rune_amount :: "bool \<Rightarrow> u128 \<Rightarrow> byte \<Rightarrow> string + string" where
  "format_rune_amount checks amount d =
     (if d = 0 then Inr (to_string amount)
      else case power_of_ten checks d of
        Inl p \<Rightarrow> Inl p
      | Inr divisor \<Rightarrow>
          if divisor = 0 then Inl ''attempt to divide by zero''
          else let whole = amount div divisor;
                   fractional = amount mod divisor
               in if fractional = 0 then Inr (to_string whole)
                  else Inr (trim_trailing CHR ''.'' (trim_trailing CHR ''0''
                         (to_string whole @ ''.'' @ pad_left (unat d) (to_string fractional)))))"

definition parsed_or :: "string \<Rightarrow> string \<Rightarrow> u128 dres" where
  "parsed_or msg s = (case from_str_radix 10 s of Some w \<Rightarrow> Inr w | None \<Rightarrow> Inl (Parse msg))"

definition total_amount :: "bool \<Rightarrow> u128 \<Rightarrow> u128 \<Rightarrow> u128 \<Rightarrow> string + u128 dres" where
  "total_amount checks whole divisor fractional =
     (if checks
      then (case Option.bind (checked_mul whole divisor) (\<lambda>m. checked_add m fractional) of
              Some n \<Rightarrow> Inr (Inr n)
            | None \<Rightarrow> Inl ''attempt to multiply or add with overflow'')
      else Inr (Inr (whole * divisor + fractional)))"

definition parse_fraction :: "byte \<Rightarrow> string \<Rightarrow> u128 dres" where
  "parse_fraction d frac =
     (if unat d < length frac then Inl (Parse (''Too many decimal places: '' @ frac))
      else parsed_or (''Invalid fractional part: '' @ frac) (pad_right (unat d) frac))"

definition parse_rune_amount :: "bool \<Rightarrow> string \<Rightarrow> byte \<Rightarrow> string + u128 dres" where
  "parse_rune_amount checks s d =
     (if d = 0 then Inr (parsed_or (''Invalid amount: '' @ s) s)
      else let parts = split_on CHR ''.'' s
           in if 2 < length parts then Inr (Inl (Parse (''Invalid amount format: '' @ s)))
              else case dbind (parsed_or (''Invalid whole part: '' @ hd parts) (hd parts)) (\<lambda>whole.
                     dbind (if length parts = 2 then parse_fraction d (parts ! 1) else Inr 0) (\<lambda>fractional.
                       Inr (whole, fractional))) of
                   Inl e \<Rightarrow> Inr (Inl e)
                 | Inr (whole, fractional) \<Rightarrow>
                     (case power_of_ten checks d of
                        Inl p \<Rightarrow> Inl p
                      | Inr divisor \<Rightarrow> total_amount checks whole divisor fractional))"

definition validate_edict :: "edict_info \<Rightarrow> unit dres" where
  "validate_edict e = (if ei_amount e = 0 then Inl (Validation ''Edict amount cannot be zero'') else Inr ())"

definition validate_etching :: "etching_info \<Rightarrow> unit dres" where
  "validate_etching e =
     dbind (case et_rune e of Some r \<Rightarrow> dbind (parse_rune_name r) (\<lambda>_. Inr ()) | None \<Rightarrow> Inr ()) (\<lambda>_.
       case et_divisibility e of
         Some d \<Rightarrow> if 38 < d then Inl (Validation ''Divisibility cannot exceed 38'') else Inr ()
       | None \<Rightarrow> Inr ())"

subsection \<open>Amounts are read back\<close>

lemma length_dec_string: "n < 10 ^ k \<Longrightarrow> 0 < k \<Longrightarrow> length (dec_string n) \<le> k"
proof (induction n arbitrary: k rule: dec_string.induct)
  case (1 n)
  show ?case
  proof (cases "n < 10")
    case False
    with 1(2) have "k \<noteq> 1" by auto
    with 1(3) obtain j where k: "k = Suc j" "0 < j" by (cases k) auto
    with 1(2) have "n div 10 < 10 ^ j" by (simp add: less_mult_imp_div_less mult.commute)
    from 1(1) [OF False this k(2)] show ?thesis using False k by (subst dec_string.simps) simp
  qed (use 1(3) in \<open>simp add: dec_string.simps\<close>)
qed

lemma decimal_read:
  assumes "s \<noteq> []" "set s \<subseteq> decimal_digits" "digits_value 10 0 s = Some v" "v < 2 ^ 128"
  shows "from_str_radix 10 s = Some (of_nat v :: u128)"
proof -
  from assms(1,2) have "strip_plus s = s" by (cases s) (auto simp: strip_plus_def decimal_digits_def)
  with assms show ?thesis by (simp add: from_str_radix_def parse_digits_eq)
qed

lemma leading_zeros: "digits_value 10 0 (replicate n CHR ''0'' @ s) = digits_value 10 0 s"
  by (induction n) (simp_all add: to_digit_def)

lemma trim_trailing_split:
  "s = trim_trailing c s @ replicate (length s - length (trim_trailing c s)) c"
proof -
  have "takeWhile ((=) c) xs = replicate (length xs - length (dropWhile ((=) c) xs)) c" for xs
    by (induction xs) (auto simp: Suc_diff_le length_dropWhile_le)
  then have "rev s = replicate (length s - length (trim_trailing c s)) c @ dropWhile ((=) c) (rev s)"
    using takeWhile_dropWhile_id [of "(=) c" "rev s"] by (simp add: trim_trailing_def)
  then show ?thesis by (metis rev_append rev_replicate rev_rev_ident trim_trailing_def)
qed

lemma trim_trailing_append: "trim_trailing c t \<noteq> [] \<Longrightarrow> trim_trailing c (s @ t) = s @ trim_trailing c t"
  by (auto simp: trim_trailing_def dropWhile_append dropWhile_eq_Nil_conv)

lemma trim_trailing_last: "trim_trailing c s \<noteq> [] \<Longrightarrow> last (trim_trailing c s) \<noteq> c"
  using hd_dropWhile [of "(=) c" "rev s"] by (auto simp: trim_trailing_def last_rev dropWhile_eq_Nil_conv)

lemma trim_trailing_id: "s = [] \<or> last s \<noteq> c \<Longrightarrow> trim_trailing c s = s"
  by (cases s rule: rev_cases) (auto simp: trim_trailing_def)

text \<open>The digits behind the point, with and without their trailing zeros.\<close>

lemma fraction_digits:
  assumes "0 < f" "f < 10 ^ k" "0 < k"
  defines "p \<equiv> pad_left k (dec_string f)"
  defines "q \<equiv> trim_trailing CHR ''0'' p"
  shows "q \<noteq> []" "set q \<subseteq> decimal_digits" "last q \<noteq> CHR ''.''" "length q \<le> k" "pad_right k q = p"
    "p \<noteq> []" "set p \<subseteq> decimal_digits" "digits_value 10 0 p = Some f"
proof -
  have len: "length p = k" using length_dec_string [OF assms(2,3)] by (simp add: p_def pad_left_def)
  then show "p \<noteq> []" using assms(3) by auto
  show digits: "set p \<subseteq> decimal_digits"
    using set_dec_string [of f] by (auto simp: p_def pad_left_def decimal_digits_def)
  show read: "digits_value 10 0 p = Some f"
    by (simp add: p_def pad_left_def leading_zeros digits_value_dec_string)
  note split = trim_trailing_split [of p "CHR ''0''"]
  have shown: "p = q @ replicate (k - length q) CHR ''0''" using split len by (simp add: q_def)
  show "q \<noteq> []"
  proof
    assume "q = []"
    with shown have "p = replicate k CHR ''0'' @ []" by simp
    with read show False using assms(1) leading_zeros [of k "[]"] by simp
  qed
  show subset: "set q \<subseteq> decimal_digits" using digits shown by (metis Un_subset_iff set_append)
  then show "last q \<noteq> CHR ''.''" using \<open>q \<noteq> []\<close> by (auto simp: decimal_digits_def dest!: last_in_set)
  show "length q \<le> k" using shown len by (metis le_add1 length_append)
  show "pad_right k q = p" using shown by (simp add: pad_right_def)
qed

lemma total_amount_fits:
  assumes "unat whole * unat divisor + unat fractional = unat amount"
  shows "total_amount checks whole divisor fractional = Inr (Inr amount)"
proof -
  have "unat amount < 2 ^ LENGTH(128)" by (rule unsigned_less)
  then have less: "unat whole * unat divisor < 2 ^ 128" "unat whole * unat divisor + unat fractional < 2 ^ 128"
    using assms by simp_all
  have "unat (of_nat (unat whole * unat divisor) :: u128) = unat whole * unat divisor"
    by (rule unat_u128_of_nat) (fact less(1))
  then have "Option.bind (checked_mul whole divisor) (\<lambda>m. checked_add m fractional) = Some (of_nat (unat amount))"
    using less assms by (simp add: checked_mul_eq checked_add_eq del: of_nat_mult of_nat_add)
  moreover have "whole * divisor + fractional = of_nat (unat amount)"
    by (simp flip: assms)
  ultimately show ?thesis by (simp add: total_amount_def)
qed

text \<open>
  C35: An amount of a rune that is displayed with a divisibility of at most 38 is displayed without a
  panic and read back with the same divisibility, in a build with and in one without overflow checks.
\<close>

theorem rune_amount_round_trip:
  assumes "d \<le> 38"
  shows "\<exists>t. format_rune_amount checks amount d = Inr t \<and> parse_rune_amount checks t d = Inr (Inr amount)"
proof (cases "d = 0")
  case True
  then show ?thesis
    by (simp add: format_rune_amount_def parse_rune_amount_def parsed_or_def from_str_radix_to_string)
next
  case False
  define k where "k = unat d"
  have k: "0 < k" "k \<le> 38" using False assms by (simp_all add: k_def unat_gt_0 word_le_nat_alt)
  have "(10 :: nat) ^ k \<le> 10 ^ 38" using k by (intro power_increasing) simp_all
  also have "(10 :: nat) ^ 38 < 2 ^ 128" by simp
  finally have D: "(10 :: nat) ^ k < 2 ^ 128" .
  define divisor :: u128 where "divisor = of_nat (10 ^ k)"
  have divisor: "unat divisor = 10 ^ k"
    unfolding divisor_def by (rule unat_u128_of_nat) (fact D)
  then have power: "power_of_ten checks d = Inr divisor" "divisor \<noteq> 0"
    using D by (auto simp: power_of_ten_def divisor_def k_def simp del: of_nat_power)
  define whole where "whole = amount div divisor"
  define fractional where "fractional = amount mod divisor"
  have parts: "unat whole * unat divisor + unat fractional = unat amount"
    by (simp add: whole_def fractional_def unat_div unat_mod)
  have whole_digits: "CHR ''.'' \<notin> set (to_string whole)"
    using set_dec_string [of "unat whole"] by (auto simp: to_string_def decimal_digits_def)
  have whole_read: "parsed_or msg (to_string whole) = Inr whole" for msg
    by (simp add: parsed_or_def from_str_radix_to_string)
  show ?thesis
  proof (cases "fractional = 0")
    case True
    with parts have "total_amount checks whole divisor 0 = Inr (Inr amount)" by (intro total_amount_fits) simp
    with True False show ?thesis
      by (simp add: format_rune_amount_def parse_rune_amount_def power Let_def split_on_none whole_digits whole_read
          flip: whole_def fractional_def)
  next
    case nonzero: False
    define f where "f = unat fractional"
    have f: "0 < f" "f < 10 ^ k"
      using nonzero divisor by (simp_all add: f_def unat_gt_0) (simp add: fractional_def unat_mod)
    define p where "p = pad_left k (dec_string f)"
    define q where "q = trim_trailing CHR ''0'' p"
    note digits = fraction_digits [OF f k(1), folded p_def, folded q_def]
    let ?t = "to_string whole @ CHR ''.'' # q"
    have "trim_trailing CHR ''.'' (trim_trailing CHR ''0'' ((to_string whole @ ''.'') @ p)) = ?t"
      using digits(1,3) by (subst trim_trailing_append) (simp_all add: q_def [symmetric] trim_trailing_id)
    then have shown: "format_rune_amount checks amount d = Inr ?t"
      using False nonzero
      by (simp add: format_rune_amount_def power Let_def p_def f_def to_string_def k_def
          flip: whole_def fractional_def)
    have split: "split_on CHR ''.'' ?t = [to_string whole, q]"
    proof -
      have "CHR ''.'' \<notin> set q" using digits(2) by (auto simp: decimal_digits_def)
      then show ?thesis by (simp add: split_on_append split_on_none whole_digits)
    qed
    have "f < 2 ^ 128" using f(2) D by linarith
    with digits have "from_str_radix 10 p = Some (of_nat f :: u128)" by (intro decimal_read)
    then have fraction: "parse_fraction d q = Inr fractional"
      using digits by (simp add: parse_fraction_def parsed_or_def f_def flip: k_def)
    have "parse_rune_amount checks ?t d = Inr (Inr amount)"
      using False total_amount_fits [OF parts]
      by (simp add: parse_rune_amount_def Let_def split whole_read fraction power)
    with shown show ?thesis by blast
  qed
qed

lemma rune_amount_round_trip_witness:
  "\<exists>t. format_rune_amount True 1001 3 = Inr t \<and> parse_rune_amount True t 3 = Inr (Inr 1001)"
  by (rule rune_amount_round_trip) (simp add: word_le_nat_alt)

text \<open>With a greater divisibility both utilities panic in a checked build.\<close>

lemma great_divisibility_panics:
  assumes "39 \<le> d"
  shows "\<exists>p. format_rune_amount True amount d = Inl p" and "\<exists>p. parse_rune_amount True (to_string amount) d = Inl p"
proof -
  have "(10 :: nat) ^ 39 \<le> 10 ^ unat d" using assms by (intro power_increasing) (simp_all add: word_le_nat_alt)
  moreover have "(2 :: nat) ^ 128 \<le> 10 ^ 39" by simp
  ultimately have panic: "power_of_ten True d = Inl ''attempt to multiply with overflow''"
    unfolding power_of_ten_def using order.trans by auto
  have d: "d \<noteq> 0" using assms by (auto simp: word_le_nat_alt)
  then show "\<exists>p. format_rune_amount True amount d = Inl p" by (simp add: format_rune_amount_def panic)
  have "CHR ''.'' \<notin> set (to_string amount)"
    using set_dec_string [of "unat amount"] by (auto simp: to_string_def decimal_digits_def)
  with d show "\<exists>p. parse_rune_amount True (to_string amount) d = Inl p"
    by (simp add: parse_rune_amount_def panic split_on_none parsed_or_def from_str_radix_to_string)
qed

text \<open>A sign is accepted behind the point.\<close>

lemma signed_fraction_accepted: "parse_rune_amount True ''1.+5'' 2 = Inr (Inr 105)"
proof -
  have "split_on CHR ''.'' ''1.+5'' = [''1'', ''+5'']" by simp
  moreover have "from_str_radix 10 ''1'' = Some (1 :: u128)" "from_str_radix 10 ''+5'' = Some (5 :: u128)"
    by (simp_all add: from_str_radix_def strip_plus_def to_digit_def checked_mul_eq checked_add_eq)
  moreover have "power_of_ten True 2 = Inr 100" by (simp add: power_of_ten_def)
  moreover have "total_amount True 1 100 5 = Inr (Inr 105)" by (rule total_amount_fits) simp
  ultimately show ?thesis
    by (simp add: parse_rune_amount_def parsed_or_def parse_fraction_def pad_right_def)
qed

subsection \<open>What the operations find\<close>

text \<open>
  Over the concrete provider, whose answer is the JSON of the runestone itself, without a key
  \<open>runestone\<close>, the manager never finds a runestone in a transaction; and \<open>decode\<close> fails for every
  txid, since it decodes a transaction without outputs.
\<close>

theorem manager_finds_nothing:
  assumes json: "\<And>r v. to_json r = Inr v \<Longrightarrow> jget ''runestone'' v = None"
    and empty: "\<And>tx. ct_outputs tx = [] \<Longrightarrow> decipher c tx = None"
    and decode: "rp_decode rp = provider_decode_runestone c to_json show_cenotaph"
  shows "from_transaction_hex l details hex_msg tx_msg rp tx_hex = Inr found \<Longrightarrow> found = None"
    and "manager_decode rp i txid = Inl (Deezel_Client.Runestone ''No runestone found in transaction'')"
proof -
  have answers: "rp_decode rp tx = Inr v \<Longrightarrow> jget ''runestone'' v = None" for tx v
    by (auto simp: decode provider_decode_runestone_def json split: option.splits artifact.splits)
  then show "from_transaction_hex l details hex_msg tx_msg rp tx_hex = Inr found \<Longrightarrow> found = None"
    by (auto simp: from_transaction_hex_def elim!: dbind_InrE split: option.splits)
  show "manager_decode rp i txid = Inl (Deezel_Client.Runestone ''No runestone found in transaction'')"
    by (simp add: manager_decode_def decode provider_decode_runestone_def placeholder_tx_def empty)
qed

lemma wrapper_round_trip: "wrapper_read (wrapper_text n) = Inr n"
  by (cases n) (simp_all add: wrapper_read_def)

end
