(* ===== verification/Armor.thy ===== *)
theory Armor
  imports Alkane_Host
begin

text \<open>
  ASCII armor (\<open>deezel-asc/src/armor/reader.rs\<close>, \<open>writer.rs\<close>): block types and their names, the writer
  with its checksum, and the reader with its header.  Bytes of text are characters.  The primitive
  recognisers of the parser library \<open>nom\<close> are the parameter \<open>nom_lib\<close> (their documented behaviour is
  \<open>nom_documented\<close>); its combinators, which only direct the control, are written out as documented.
  Base64 is a parameter with the hypothesis \<open>base64_documented\<close>, the CRC-24 any function: the reader
  never compares it.  \<open>usize\<close> has 64 bits.  \<open>armor_round_trip\<close> says what is read back; at the end
  stand recognisers and an encoding with the documented behaviour.
\<close>

subsection \<open>Block types\<close>

datatype pkcs1_type = RSA | DSA | EC

datatype block_type =
    PublicKey | PublicKeyPKCS1 pkcs1_type | PublicKeyPKCS8 | PublicKeyOpenssh
  | PrivateKey | PrivateKeyPKCS1 pkcs1_type | PrivateKeyPKCS8 | PrivateKeyOpenssh
  | Message_block | MultiPartMessage u64 u64 | Signature | File | CleartextMessage | EncryptedMnemonic

fun pkcs1_text :: "pkcs1_type \<Rightarrow> string" where
  "pkcs1_text RSA = ''RSA''"
| "pkcs1_text DSA = ''DSA''"
| "pkcs1_text EC = ''EC''"

fun block_type_text :: "block_type \<Rightarrow> string" where
  "block_type_text PublicKey = ''PGP PUBLIC KEY BLOCK''"
| "block_type_text PrivateKey = ''PGP PRIVATE KEY BLOCK''"
| "block_type_text EncryptedMnemonic = ''ENCRYPTED MNEMONIC''"
| "block_type_text (MultiPartMessage x y) = ''PGP MESSAGE, PART '' @ to_string x @ ''/'' @ to_string y"
| "block_type_text Message_block = ''PGP MESSAGE''"
| "block_type_text Signature = ''PGP SIGNATURE''"
| "block_type_text File = ''PGP ARMORED FILE''"
| "block_type_text (PublicKeyPKCS1 t) = pkcs1_text t @ '' PUBLIC KEY''"
| "block_type_text PublicKeyPKCS8 = ''PUBLIC KEY''"
| "block_type_text PublicKeyOpenssh = ''OPENSSH PUBLIC KEY''"
| "block_type_text (PrivateKeyPKCS1 t) = pkcs1_text t @ '' PRIVATE KEY''"
| "block_type_text PrivateKeyPKCS8 = ''PRIVATE KEY''"
| "block_type_text PrivateKeyOpenssh = ''OPENSSH PRIVATE KEY''"
| "block_type_text CleartextMessage = ''PGP SIGNED MESSAGE''"

text \<open>A header name with its values; the list is the tree map in the order of its keys.\<close>

type_synonym headers = "(string \<times> string list) list"

subsection \<open>Parsers\<close>

text \<open>The rest of the input and a value, an error that an alternative may follow, or too little input.\<close>

datatype 'a outcome = Parsed string 'a | Refused | Incomplete

type_synonym 'a parser = "string \<Rightarrow> 'a outcome"

record nom_lib =
  nl_tag :: "string \<Rightarrow> string parser"
  nl_take_until1 :: "string \<Rightarrow> string parser"
  nl_digit1 :: "string parser"
  nl_line_ending :: "string parser"
  nl_not_line_ending :: "string parser"
  nl_alnum_dash1 :: "string parser"

definition p_bind :: "'a parser \<Rightarrow> ('a \<Rightarrow> 'b parser) \<Rightarrow> 'b parser" where
  "p_bind p f i = (case p i of Parsed r x \<Rightarrow> f x r | Refused \<Rightarrow> Refused | Incomplete \<Rightarrow> Incomplete)"

definition p_return :: "'a \<Rightarrow> 'a parser" where
  "p_return x i = Parsed i x"

text \<open>\<open>alt\<close>, \<open>opt\<close>, \<open>complete\<close>, \<open>map_res\<close> and \<open>many0\<close>; \<open>many0\<close> refuses a parser that takes nothing.\<close>

fun p_alt :: "'a parser list \<Rightarrow> 'a parser" where
  "p_alt [] i = Refused"
| "p_alt (p # ps) i = (case p i of Refused \<Rightarrow> p_alt ps i | r \<Rightarrow> r)"

definition p_opt :: "'a parser \<Rightarrow> 'a option parser" where
  "p_opt p i = (case p i of Parsed r x \<Rightarrow> Parsed r (Some x) | Refused \<Rightarrow> Parsed i None | Incomplete \<Rightarrow> Incomplete)"

definition p_complete :: "'a parser \<Rightarrow> 'a parser" where
  "p_complete p i = (case p i of Incomplete \<Rightarrow> Refused | r \<Rightarrow> r)"

definition p_map_res :: "('a \<Rightarrow> 'b option) \<Rightarrow> 'a parser \<Rightarrow> 'b parser" where
  "p_map_res f p i =
     (case p i of
        Parsed r x \<Rightarrow> (case f x of Some y \<Rightarrow> Parsed r y | None \<Rightarrow> Refused)
      | Refused \<Rightarrow> Refused | Incomplete \<Rightarrow> Incomplete)"

function p_many0 :: "'a parser \<Rightarrow> 'a list parser" where
  "p_many0 p i =
     (case p i of
        Refused \<Rightarrow> Parsed i []
      | Incomplete \<Rightarrow> Incomplete
      | Parsed r x \<Rightarrow>
          if length r < length i
          then (case p_many0 p r of Parsed r' xs \<Rightarrow> Parsed r' (x # xs) | e \<Rightarrow> e)
          else Refused)"
  by pat_completeness auto
termination by (relation "measure (\<lambda>(p, i). length i)") auto

declare p_many0.simps [simp del]

text \<open>\<open>str::from_utf8\<close> on bytes that are kept as they are.\<close>

definition utf8_str :: "string \<Rightarrow> string option" where
  "utf8_str s =
     (case from_utf8 (length s) (map of_char s) of Some _ \<Rightarrow> Some s | None \<Rightarrow> None)"

subsection \<open>The header\<close>

definition armor_header_sep :: "nom_lib \<Rightarrow> string parser" where
  "armor_header_sep nl = nl_tag nl ''-----''"

definition parse_digit :: "string \<Rightarrow> u64 option" where
  "parse_digit x = Option.bind (utf8_str x) (from_str_radix 10)"

definition p_value :: "nom_lib \<Rightarrow> 'a \<Rightarrow> string \<Rightarrow> 'a parser" where
  "p_value nl x t = p_bind (nl_tag nl t) (\<lambda>_. p_return x)"

definition multi_part :: "nom_lib \<Rightarrow> block_type parser" where
  "multi_part nl =
     p_bind (nl_tag nl ''PGP MESSAGE, PART '') (\<lambda>_.
     p_bind (p_map_res parse_digit (nl_digit1 nl)) (\<lambda>x.
     p_bind (p_opt (p_bind (nl_tag nl ''/'') (\<lambda>_. p_map_res parse_digit (nl_digit1 nl)))) (\<lambda>y.
       p_return (MultiPartMessage x (unwrap_or 0 y)))))"

definition armor_header_type :: "nom_lib \<Rightarrow> block_type parser" where
  "armor_header_type nl = p_alt
     [p_value nl PublicKey ''PGP PUBLIC KEY BLOCK'',
      p_value nl PrivateKey ''PGP PRIVATE KEY BLOCK'',
      multi_part nl,
      p_value nl Message_block ''PGP MESSAGE'',
      p_value nl Signature ''PGP SIGNATURE'',
      p_value nl File ''PGP ARMORED FILE'',
      p_value nl CleartextMessage ''PGP SIGNED MESSAGE'',
      p_value nl EncryptedMnemonic ''ENCRYPTED MNEMONIC'',
      p_value nl (PublicKeyPKCS1 RSA) ''RSA PUBLIC KEY'',
      p_value nl (PublicKeyPKCS1 DSA) ''DSA PUBLIC KEY'',
      p_value nl (PublicKeyPKCS1 EC) ''EC PUBLIC KEY'',
      p_value nl PublicKeyPKCS8 ''PUBLIC KEY'',
      p_value nl PublicKeyOpenssh ''OPENSSH PUBLIC KEY'',
      p_value nl (PrivateKeyPKCS1 RSA) ''RSA PRIVATE KEY'',
      p_value nl (PrivateKeyPKCS1 DSA) ''DSA PRIVATE KEY'',
      p_value nl (PrivateKeyPKCS1 EC) ''EC PRIVATE KEY'',
      p_value nl PrivateKeyPKCS8 ''PRIVATE KEY'',
      p_value nl PrivateKeyOpenssh ''OPENSSH PRIVATE KEY'']"

definition armor_header_line :: "nom_lib \<Rightarrow> block_type parser" where
  "armor_header_line nl =
     p_bind (armor_header_sep nl) (\<lambda>_.
     p_bind (nl_tag nl ''BEGIN '') (\<lambda>_.
     p_bind (armor_header_type nl) (\<lambda>t.
     p_bind (armor_header_sep nl) (\<lambda>_.
     p_bind (nl_line_ending nl) (\<lambda>_. p_return t)))))"

definition lf :: string where
  "lf = [CHR 0x0A]"

definition crlf :: string where
  "crlf = [CHR 0x0D, CHR 0x0A]"

definition key_value_pair :: "nom_lib \<Rightarrow> (string \<times> string) parser" where
  "key_value_pair nl =
     p_bind (p_map_res utf8_str (p_alt
       [p_complete (nl_take_until1 nl ('':'' @ crlf)),
        p_complete (nl_take_until1 nl ('':'' @ lf)),
        p_complete (nl_take_until1 nl '': '')])) (\<lambda>key.
     p_bind (nl_tag nl '':'') (\<lambda>_.
     p_bind (p_alt [nl_tag nl '' '', nl_line_ending nl]) (\<lambda>t.
       if t = '' ''
       then p_bind (p_map_res utf8_str (nl_not_line_ending nl)) (\<lambda>value.
            p_bind (nl_line_ending nl) (\<lambda>_. p_return (key, value)))
       else p_return (key, []))))"

definition key_value_pairs :: "nom_lib \<Rightarrow> (string \<times> string) list parser" where
  "key_value_pairs nl = p_many0 (p_complete (key_value_pair nl))"

text \<open>The order of strings is that of their bytes.\<close>

fun str_less :: "string \<Rightarrow> string \<Rightarrow> bool" where
  "str_less _ [] \<longleftrightarrow> False"
| "str_less [] (d # ds) \<longleftrightarrow> True"
| "str_less (c # cs) (d # ds) \<longleftrightarrow>
     (of_char c :: nat) < of_char d \<or> c = d \<and> str_less cs ds"

fun push_header :: "string \<Rightarrow> string \<Rightarrow> headers \<Rightarrow> headers" where
  "push_header k v [] = [(k, [v])]"
| "push_header k v ((k', vs) # hs) =
     (if k = k' then (k', vs @ [v]) # hs
      else if str_less k k' then (k, [v]) # (k', vs) # hs
      else (k', vs) # push_header k v hs)"

definition armor_headers :: "nom_lib \<Rightarrow> headers parser" where
  "armor_headers nl =
     p_bind (key_value_pairs nl) (\<lambda>pairs. p_return (foldl (\<lambda>hs (k, v). push_header k v hs) [] pairs))"

definition terminated_value :: "nom_lib \<Rightarrow> string parser \<Rightarrow> string parser" where
  "terminated_value nl end_of =
     p_bind (p_map_res utf8_str (nl_alnum_dash1 nl)) (\<lambda>v. p_bind end_of (\<lambda>_. p_return v))"

definition hash_header_line :: "nom_lib \<Rightarrow> string list parser" where
  "hash_header_line nl =
     p_bind (nl_tag nl ''Hash: '') (\<lambda>_.
     p_bind (p_many0 (p_map_res utf8_str
         (p_bind (nl_alnum_dash1 nl) (\<lambda>v. p_bind (nl_tag nl '','') (\<lambda>_. p_return v))))) (\<lambda>values.
     p_bind (terminated_value nl (nl_line_ending nl)) (\<lambda>last. p_return (values @ [last]))))"

definition armor_headers_hash :: "nom_lib \<Rightarrow> headers parser" where
  "armor_headers_hash nl =
     p_bind (p_many0 (p_complete (hash_header_line nl))) (\<lambda>hs. p_return [(''Hash'', concat hs)])"

definition armor_header :: "nom_lib \<Rightarrow> (block_type \<times> headers) parser" where
  "armor_header nl =
     p_bind (armor_header_line nl) (\<lambda>t.
     p_bind (if t = CleartextMessage then armor_headers_hash nl else armor_headers nl) (\<lambda>hs.
       p_return (t, hs)))"

subsection \<open>The reader\<close>

definition end_marker :: string where
  "end_marker = ''-----END''"

text \<open>From the character behind an equals sign: whether the first line break among at most nine
  characters is followed by the end marker.\<close>

fun checksum_line :: "nat \<Rightarrow> string \<Rightarrow> bool" where
  "checksum_line 0 s = False"
| "checksum_line (Suc n) [] = False"
| "checksum_line (Suc n) (c # cs) =
     (if c = CHR 0x0A \<or> c = CHR 0x0D
      then prefix (lf @ end_marker) (c # cs) \<or> prefix (crlf @ end_marker) (c # cs)
      else checksum_line n cs)"

fun find_footer :: "nat \<Rightarrow> string \<Rightarrow> nat option" where
  "find_footer i [] = None"
| "find_footer i (c # cs) =
     (if prefix end_marker (c # cs) then Some i
      else if c = CHR ''='' \<and> checksum_line 9 cs then Some i
      else find_footer (Suc i) cs)"

definition find_footer_start :: "string \<Rightarrow> nat option" where
  "find_footer_start data = find_footer 0 data"

datatype asc_error = Nom_error string | Asc_other string

record base64_lib =
  bl_encode :: "byte list \<Rightarrow> string"
  bl_decode :: "string \<Rightarrow> string + byte list"

definition skip_blank_line :: "string \<Rightarrow> string" where
  "skip_blank_line s =
     (case strip_prefix crlf s of
        Some r \<Rightarrow> r
      | None \<Rightarrow> (case strip_prefix lf s of Some r \<Rightarrow> r | None \<Rightarrow> s))"

definition blank :: "char \<Rightarrow> bool" where
  "blank c \<longleftrightarrow> c \<in> {CHR 0x0D, CHR 0x0A, CHR '' '', CHR 0x09}"

text \<open>\<open>nom_msg\<close> is the text of the parser's error.\<close>

definition armor_decode ::
  "nom_lib \<Rightarrow> (string \<Rightarrow> string) \<Rightarrow> base64_lib \<Rightarrow> string \<Rightarrow> asc_error + block_type \<times> headers \<times> byte list" where
  "armor_decode nl nom_msg bl i =
     (case armor_header nl i of
        Parsed remaining (t, hs) \<Rightarrow>
          let content = skip_blank_line remaining
          in (case find_footer_start content of
                None \<Rightarrow> Inl (Asc_other ''armor footer not found'')
              | Some n \<Rightarrow>
                  (case bl_decode bl (filter (\<lambda>c. \<not> blank c) (take n content)) of
                     Inl e \<Rightarrow> Inl (Asc_other (''base64 decode error: '' @ e))
                   | Inr bs \<Rightarrow> Inr (t, hs, bs)))
      | _ \<Rightarrow> Inl (Nom_error (nom_msg i)))"

subsection \<open>The writer\<close>

text \<open>Writing to memory does not fail: the result is what is appended.\<close>

definition write_header :: "block_type \<Rightarrow> headers option \<Rightarrow> string" where
  "write_header t hs =
     ''-----BEGIN '' @ block_type_text t @ ''-----'' @ lf
     @ concat (map (\<lambda>(k, vs). concat (map (\<lambda>v. k @ '': '' @ v @ lf) vs)) (unwrap_or [] hs))
     @ lf"

definition write_body :: "base64_lib \<Rightarrow> byte list \<Rightarrow> string" where
  "write_body bl source = concat (map (\<lambda>chunk. chunk @ lf) (chunks 64 (bl_encode bl source)))"

definition crc_bytes :: "u64 \<Rightarrow> byte list" where
  "crc_bytes crc = [ucast (drop_bit 16 (ucast crc :: u32)), ucast (drop_bit 8 (ucast crc :: u32)), ucast (ucast crc :: u32)]"

definition write_footer :: "base64_lib \<Rightarrow> block_type \<Rightarrow> u64 option \<Rightarrow> string" where
  "write_footer bl t crc =
     (case crc of None \<Rightarrow> [] | Some n \<Rightarrow> ''='' @ bl_encode bl (crc_bytes n) @ lf)
     @ ''-----END '' @ block_type_text t @ ''-----'' @ lf"

text \<open>\<open>crc24\<close> is the hash of a source.\<close>

definition armor_write ::
  "base64_lib \<Rightarrow> (byte list \<Rightarrow> u64) \<Rightarrow> byte list \<Rightarrow> block_type \<Rightarrow> headers option \<Rightarrow> bool \<Rightarrow> string" where
  "armor_write bl crc24 source t hs include_checksum =
     write_header t hs @ write_body bl source
     @ write_footer bl t (if include_checksum then Some (crc24 source) else None)"

subsection \<open>The documented behaviour of the libraries\<close>

text \<open>The recognisers of \<open>nom\<close>'s streaming modules, on the inputs where their documentation fixes
  what they give.\<close>

definition alnum_dash :: "char \<Rightarrow> bool" where
  "alnum_dash c \<longleftrightarrow> c \<in> set ''0123456789ABCDEFGHIJKLMNOPQRSTUVWXYZabcdefghijklmnopqrstuvwxyz-''"

definition tag_documented :: "nom_lib \<Rightarrow> bool" where
  "tag_documented nl \<longleftrightarrow>
     (\<forall>t i. nl_tag nl t i = (if prefix t i then Parsed (drop (length t) i) t else if prefix i t then Incomplete else Refused))"

definition lines_documented :: "nom_lib \<Rightarrow> bool" where
  "lines_documented nl \<longleftrightarrow>
     (\<forall>r. nl_line_ending nl (lf @ r) = Parsed r lf) \<and>
     (\<forall>v r. CHR 0x0A \<notin> set v \<and> CHR 0x0D \<notin> set v \<longrightarrow> nl_not_line_ending nl (v @ lf @ r) = Parsed (lf @ r) v)"

definition runs_documented :: "nom_lib \<Rightarrow> bool" where
  "runs_documented nl \<longleftrightarrow>
     (\<forall>v c r. v \<noteq> [] \<and> set v \<subseteq> decimal_digits \<and> c \<notin> decimal_digits \<longrightarrow> nl_digit1 nl (v @ c # r) = Parsed (c # r) v) \<and>
     (\<forall>v c r. v \<noteq> [] \<and> list_all alnum_dash v \<and> \<not> alnum_dash c \<longrightarrow> nl_alnum_dash1 nl (v @ c # r) = Parsed (c # r) v)"

definition until_documented :: "nom_lib \<Rightarrow> bool" where
  "until_documented nl \<longleftrightarrow>
     (\<forall>t i. \<not> sublist t i \<longrightarrow> nl_take_until1 nl t i = Incomplete) \<and>
     (\<forall>t v r. t \<noteq> [] \<and> v \<noteq> [] \<and> hd t \<notin> set v \<longrightarrow> nl_take_until1 nl t (v @ t @ r) = Parsed (t @ r) v)"

definition nom_documented :: "nom_lib \<Rightarrow> bool" where
  "nom_documented nl \<longleftrightarrow>
     tag_documented nl \<and> lines_documented nl \<and> runs_documented nl \<and> until_documented nl"

text \<open>Base64 with the standard alphabet, which pads to a multiple of four and refuses other lengths.\<close>

definition base64_alphabet :: string where
  "base64_alphabet = ''ABCDEFGHIJKLMNOPQRSTUVWXYZabcdefghijklmnopqrstuvwxyz0123456789+/''"

definition base64_documented :: "base64_lib \<Rightarrow> bool" where
  "base64_documented bl \<longleftrightarrow>
     (\<forall>bs. bl_decode bl (bl_encode bl bs) = Inr bs) \<and>
     (\<forall>bs. \<exists>body. set body \<subseteq> set base64_alphabet
        \<and> bl_encode bl bs = body @ replicate ((3 - length bs mod 3) mod 3) CHR ''=''
        \<and> length (bl_encode bl bs) = 4 * ((length bs + 2) div 3)) \<and>
     (\<forall>s. length s mod 4 \<noteq> 0 \<longrightarrow> (\<exists>e. bl_decode bl s = Inl e))"

lemma nom_tag: "nom_documented nl \<Longrightarrow>
    nl_tag nl t i = (if prefix t i then Parsed (drop (length t) i) t else if prefix i t then Incomplete else Refused)"
  by (simp add: nom_documented_def tag_documented_def)

lemma nom_line_ending: "nom_documented nl \<Longrightarrow> nl_line_ending nl (CHR 0x0A # r) = Parsed r lf"
  by (auto simp: nom_documented_def lines_documented_def lf_def)

lemma nom_until:
  "nom_documented nl \<Longrightarrow> t \<noteq> [] \<Longrightarrow> v \<noteq> [] \<Longrightarrow> hd t \<notin> set v \<Longrightarrow> nl_take_until1 nl t (v @ t @ r) = Parsed (t @ r) v"
  by (simp add: nom_documented_def until_documented_def)

subsection \<open>The header line\<close>

lemmas parser_simps = p_bind_def p_return_def p_value_def p_opt_def p_map_res_def

lemma from_utf8_ascii:
  assumes "ascii s"
  shows "from_utf8 (length s) (map of_char s) = Some s"
proof -
  have byte: "unat (of_char c :: byte) = of_char c" for c
  proof -
    have "unat (of_nat (of_char c) :: byte) = of_char c"
      using nat_of_char_less_256 [of c] by (simp add: unsigned_of_nat take_bit_nat_eq_self)
    then show ?thesis by (simp only: of_nat_of_char)
  qed
  then have tail: "utf8_tail (of_char c :: byte) = Some []" if "(of_char c :: nat) < 128" for c
    using that by (simp add: utf8_tail_def Let_def word_less_nat_alt)
  show ?thesis using assms
    by (induction s) (simp_all add: ascii_def tail byte byte_char_def)
qed

lemma utf8_str_ascii: "ascii s \<Longrightarrow> utf8_str s = Some s"
  by (simp add: utf8_str_def from_utf8_ascii)

lemma digits_ascii: "set s \<subseteq> decimal_digits \<Longrightarrow> ascii s"
  by (auto simp: ascii_def decimal_digits_def)

lemma parse_digit_text [simp]: "parse_digit (to_string w) = Some w"
  using set_dec_string [of "unat w"]
  by (simp add: parse_digit_def utf8_str_ascii digits_ascii to_string_def from_str_radix_to_string
      flip: to_string_def)

lemma header_type_read:
  assumes "nom_documented nl"
  shows "armor_header_type nl (block_type_text t @ ''-----'' @ r) = Parsed (''-----'' @ r) t"
proof (cases t)
  case (MultiPartMessage x y)
  have digit: "nl_digit1 nl (to_string w @ c # s) = Parsed (c # s) (to_string w)"
    if "c \<notin> decimal_digits" for w :: u64 and c s
    using assms set_dec_string [of "unat w"] that
    by (simp add: nom_documented_def runs_documented_def to_string_def)
  have "CHR ''/'' \<notin> decimal_digits" "CHR ''-'' \<notin> decimal_digits" by (simp_all add: decimal_digits_def)
  then show ?thesis
    by (simp add: MultiPartMessage armor_header_type_def multi_part_def parser_simps nom_tag [OF assms] digit)
next
  case (PublicKeyPKCS1 p)
  then show ?thesis by (cases p) (simp_all add: armor_header_type_def multi_part_def parser_simps nom_tag [OF assms])
next
  case (PrivateKeyPKCS1 p)
  then show ?thesis by (cases p) (simp_all add: armor_header_type_def multi_part_def parser_simps nom_tag [OF assms])
qed (simp_all add: armor_header_type_def multi_part_def parser_simps nom_tag [OF assms])

lemma header_line_read:
  assumes "nom_documented nl"
  shows "armor_header_line nl (''-----BEGIN '' @ block_type_text t @ ''-----'' @ lf @ r) = Parsed r t"
  using header_type_read [OF assms, of t "lf @ r"]
  by (simp add: armor_header_line_def armor_header_sep_def parser_simps nom_tag [OF assms] lf_def nom_line_ending [OF assms])

subsection \<open>The footer\<close>

text \<open>Behind whole lines without a dash, neither a sign nor an end marker is taken for the footer.\<close>

lemma no_checksum_before:
  assumes "cs \<noteq> []" "last cs = CHR 0x0A" "CHR ''-'' \<notin> set cs" "CHR 0x0D \<notin> set cs" "rest \<noteq> []" "hd rest \<noteq> CHR ''-''"
  shows "\<not> checksum_line n (cs @ rest)"
  using assms
proof (induction n "cs @ rest" arbitrary: cs rule: checksum_line.induct)
  case (3 n d ds)
  then obtain es where cs: "cs = d # es" "ds = es @ rest" by (cases cs) auto
  show ?case
  proof (cases "d = CHR 0x0A")
    case True
    have "hd (es @ rest) \<noteq> CHR ''-''" using 3 cs by (cases es) auto
    then have "\<not> prefix (lf @ end_marker) (CHR 0x0A # es @ rest)"
      by (cases "es @ rest") (auto simp: lf_def end_marker_def)
    with True cs show ?thesis by (simp add: crlf_def)
  next
    case False
    with 3 cs show ?thesis by (cases es) auto
  qed
qed auto

lemma footer_behind_lines:
  assumes "w = [] \<or> last w = CHR 0x0A" "CHR ''-'' \<notin> set w" "CHR 0x0D \<notin> set w" "rest \<noteq> []" "hd rest \<noteq> CHR ''-''"
  shows "find_footer i (w @ rest) = find_footer (i + length w) rest"
  using assms(1-3)
proof (induction w arbitrary: i)
  case (Cons c cs)
  then have "\<not> prefix end_marker (c # cs @ rest)" by (simp add: end_marker_def)
  moreover have "\<not> checksum_line 9 (cs @ rest)" if "c = CHR ''=''"
    using Cons.prems that assms(4,5) by (intro no_checksum_before) (auto split: if_splits)
  ultimately show ?case using Cons by (auto split: if_splits)
qed simp

lemma footer_behind_text:
  assumes "CHR ''-'' \<notin> set w" "CHR ''='' \<notin> set w"
  shows "find_footer i (w @ rest) = find_footer (i + length w) rest"
  using assms by (induction w arbitrary: i) (auto simp: end_marker_def)

lemma checksum_found:
  assumes "length crc = 4" "CHR 0x0A \<notin> set crc" "CHR 0x0D \<notin> set crc"
  shows "find_footer i (''='' @ crc @ lf @ end_marker @ r) = Some i"
proof -
  have "checksum_line n (ds @ lf @ end_marker @ r)"
    if "length ds < n" "CHR 0x0A \<notin> set ds" "CHR 0x0D \<notin> set ds" for n ds
    using that
  proof (induction ds arbitrary: n)
    case Nil
    then show ?case by (cases n) (simp_all add: lf_def)
  next
    case (Cons d ds)
    then show ?case by (cases n) auto
  qed
  from this [of crc 9] have "checksum_line 9 (crc @ lf @ end_marker @ r)" using assms by simp
  then show ?thesis by (simp add: end_marker_def)
qed

lemma padding_found:
  "find_footer i (CHR ''='' # lf @ end_marker @ r) = Some i"
  "find_footer i (CHR ''='' # CHR ''='' # lf @ end_marker @ r) = Some i"
proof -
  have "checksum_line (Suc n) (lf @ end_marker @ r)" for n by (simp add: lf_def)
  from this [of 8] this [of 7]
  have "checksum_line 9 (lf @ end_marker @ r)" "checksum_line 9 (CHR ''='' # lf @ end_marker @ r)"
    by (simp_all add: eval_nat_numeral)
  then show "find_footer i (CHR ''='' # lf @ end_marker @ r) = Some i"
    "find_footer i (CHR ''='' # CHR ''='' # lf @ end_marker @ r) = Some i"
    by (simp_all add: end_marker_def)
qed

lemma padding_footer:
  assumes "pad = [CHR ''=''] \<or> pad = [CHR ''='', CHR ''='']"
  shows "find_footer i (pad @ lf @ end_marker @ r) = Some i"
  using assms by (elim disjE) (simp_all only: append_Cons append_Nil padding_found)

text \<open>The padding is at the end of a line.\<close>

lemma padded_lines:
  assumes "length (xs @ pad) mod 4 = 0" "pad \<noteq> []" "length pad \<le> 2" "set xs \<subseteq> A"
  shows "\<exists>V. concat (map (\<lambda>chunk. chunk @ lf) (chunks 64 (xs @ pad))) = V @ pad @ lf
    \<and> filter (\<lambda>c. c \<noteq> CHR 0x0A) V = filter (\<lambda>c. c \<noteq> CHR 0x0A) xs \<and> set V \<subseteq> A \<union> {CHR 0x0A}"
  using assms
proof (induction "length xs" arbitrary: xs rule: less_induct)
  case less
  show ?case
  proof (cases "length (xs @ pad) \<le> 64")
    case True
    then have "chunks 64 (xs @ pad) = [xs @ pad]" using less.prems(2) by (subst chunks.simps) simp
    then show ?thesis using less.prems(4) by (intro exI [of _ xs]) auto
  next
    case False
    with less.prems(1,3) have long: "64 \<le> length xs" by simp presburger
    then have lines: "chunks 64 (xs @ pad) = take 64 xs # chunks 64 (drop 64 xs @ pad)"
      using less.prems(2) by (subst chunks.simps) simp
    have shorter: "length (drop 64 xs) < length xs" using long by simp
    have rest: "set (drop 64 xs) \<subseteq> A" using less.prems(4) by (auto dest: in_set_dropD)
    have "length (drop 64 xs @ pad) mod 4 = 0" using less.prems(1) long
      by (simp add: mod_diff_eq) presburger
    from less.hyps [OF shorter this less.prems(2,3) rest] obtain V where "concat (map (\<lambda>chunk. chunk @ lf) (chunks 64 (drop 64 xs @ pad))) = V @ pad @ lf"
        "filter (\<lambda>c. c \<noteq> CHR 0x0A) V = filter (\<lambda>c. c \<noteq> CHR 0x0A) (drop 64 xs)" "set V \<subseteq> A \<union> {CHR 0x0A}"
      by (elim exE conjE)
    moreover note lines
    moreover have "filter P xs = filter P (take 64 xs) @ filter P (drop 64 xs)" for P
      by (metis append_take_drop_id filter_append)
    ultimately show ?thesis using less.prems(4)
      by (intro exI [of _ "take 64 xs @ lf @ V"]) (auto simp: lf_def dest: in_set_takeD)
  qed
qed

subsection \<open>The headers\<close>

definition key_readable :: "string \<Rightarrow> bool" where
  "key_readable k \<longleftrightarrow>
     k \<noteq> [] \<and> ascii k \<and> CHR '':'' \<notin> set k \<and> CHR 0x0A \<notin> set k \<and> CHR 0x0D \<notin> set k"

definition value_readable :: "string \<Rightarrow> bool" where
  "value_readable v \<longleftrightarrow>
     ascii v \<and> CHR 0x0A \<notin> set v \<and> CHR 0x0D \<notin> set v \<and> (v = [] \<or> last v \<noteq> CHR '':'')"

definition pair_line :: "string \<times> string \<Rightarrow> string" where
  "pair_line kv = fst kv @ '': '' @ snd kv @ lf"

text \<open>A text in which no line ends with a colon.\<close>

definition no_colon_end :: "char \<Rightarrow> char \<Rightarrow> bool" where
  "no_colon_end x y \<longleftrightarrow> x \<noteq> CHR '':'' \<or> y \<noteq> CHR 0x0A"

definition quiet :: "string \<Rightarrow> bool" where
  "quiet s \<longleftrightarrow> CHR 0x0D \<notin> set s \<and> successively no_colon_end s"

lemma no_colon_endI [simp]: "x \<noteq> CHR '':'' \<Longrightarrow> no_colon_end x y" "y \<noteq> CHR 0x0A \<Longrightarrow> no_colon_end x y"
  by (simp_all add: no_colon_end_def)

lemma quiet_no_ends:
  assumes "quiet s"
  shows "\<not> sublist ('':'' @ crlf) s" "\<not> sublist ('':'' @ lf) s"
proof -
  show "\<not> sublist ('':'' @ crlf) s"
    using assms by (auto simp: quiet_def crlf_def dest!: set_mono_sublist)
  show "\<not> sublist ('':'' @ lf) s"
  proof
    assume "sublist ('':'' @ lf) s"
    then obtain a b where "s = a @ [CHR '':'', CHR 0x0A] @ b" by (auto simp: sublist_def lf_def)
    with assms show False by (simp add: quiet_def successively_append_iff no_colon_end_def)
  qed
qed

lemma quiet_plain: "CHR '':'' \<notin> set s \<Longrightarrow> CHR 0x0D \<notin> set s \<Longrightarrow> quiet s"
  unfolding quiet_def by (induction s) (auto simp: successively_Cons no_colon_end_def)

lemma one_line: "CHR 0x0A \<notin> set s \<Longrightarrow> successively no_colon_end s"
proof (induction s)
  case (Cons c s)
  then show ?case by (cases s) (auto simp: no_colon_end_def)
qed simp

lemma quiet_value:
  assumes "value_readable v" "quiet s"
  shows "quiet ('' '' @ v @ lf @ s)"
proof -
  have v: "successively no_colon_end v" "CHR 0x0D \<notin> set v" "v = [] \<or> last v \<noteq> CHR '':''"
    using assms(1) one_line [of v] by (auto simp: value_readable_def)
  have s: "successively no_colon_end s" "CHR 0x0D \<notin> set s" using assms(2) by (simp_all add: quiet_def)
  have "successively no_colon_end (lf @ s)" using s(1) by (simp add: lf_def successively_Cons)
  then have "successively no_colon_end (v @ lf @ s)" using v
    by (auto simp: successively_append_iff lf_def)
  then have "successively no_colon_end ('' '' @ v @ lf @ s)" by (simp add: successively_Cons)
  then show ?thesis using s(2) v(2) by (simp add: quiet_def lf_def)
qed

lemma quiet_line:
  assumes "key_readable (fst kv)" "value_readable (snd kv)" "quiet s"
  shows "quiet (pair_line kv @ s)"
proof -
  have "quiet ('' '' @ snd kv @ lf @ s)" using assms(2,3) by (rule quiet_value)
  then have tail: "successively no_colon_end ('' '' @ snd kv @ lf @ s)" "CHR 0x0D \<notin> set (snd kv @ lf @ s)"
    by (simp_all add: quiet_def)
  have key: "successively no_colon_end (fst kv)" "CHR 0x0D \<notin> set (fst kv)" "last (fst kv) \<noteq> CHR '':''"
    using assms(1) one_line [of "fst kv"] by (auto simp: key_readable_def dest: last_in_set)
  have "successively no_colon_end (CHR '':'' # '' '' @ snd kv @ lf @ s)" using tail(1) by (simp add: successively_Cons)
  then have "successively no_colon_end (fst kv @ CHR '':'' # '' '' @ snd kv @ lf @ s)"
    using key by (simp add: successively_append_iff)
  then show ?thesis using key(2) tail(2) by (simp add: quiet_def pair_line_def)
qed

lemma key_value_read:
  assumes nl: "nom_documented nl" and ok: "key_readable (fst kv)" "value_readable (snd kv)" and rest: "quiet s"
  shows "key_value_pair nl (pair_line kv @ s) = Parsed s kv"
proof -
  obtain k v where kv: "kv = (k, v)" by force
  let ?t = "k @ '': '' @ v @ lf @ s"
  have "quiet ?t" using quiet_line [OF ok rest] by (simp add: kv pair_line_def)
  then have absent: "nl_take_until1 nl ('':'' @ crlf) ?t = Incomplete" "nl_take_until1 nl ('':'' @ lf) ?t = Incomplete"
    using nl quiet_no_ends by (simp_all add: nom_documented_def until_documented_def)
  have "nl_take_until1 nl '': '' (k @ '': '' @ r) = Parsed ('': '' @ r) k" for r
    by (rule nom_until [OF nl]) (use ok(1) in \<open>simp_all add: key_readable_def kv\<close>)
  then have until: "nl_take_until1 nl '': '' ?t = Parsed ('': '' @ v @ lf @ s) k" .
  have "nl_not_line_ending nl (v @ lf @ s) = Parsed (lf @ s) v"
    using nl ok(2) by (simp add: nom_documented_def lines_documented_def value_readable_def kv)
  moreover have "utf8_str k = Some k" "utf8_str v = Some v"
    using ok by (simp_all add: key_readable_def value_readable_def utf8_str_ascii kv)
  moreover have "nl_line_ending nl (lf @ s) = Parsed s lf"
    using nl by (simp add: nom_documented_def lines_documented_def)
  ultimately show ?thesis using absent until
    by (simp add: key_value_pair_def parser_simps p_complete_def nom_tag [OF nl] kv pair_line_def)
qed

lemma key_value_refused:
  assumes "nom_documented nl" "CHR '':'' \<notin> set s"
  shows "key_value_pair nl s = Refused"
proof -
  have "\<not> sublist (CHR '':'' # t) s" for t using assms(2) by (auto dest: set_mono_sublist)
  then show ?thesis using assms(1)
    by (simp add: key_value_pair_def parser_simps p_complete_def nom_documented_def until_documented_def)
qed

lemma p_many0_stop: "p i = Refused \<Longrightarrow> p_many0 p i = Parsed i []"
  by (simp add: p_many0.simps)

lemma p_many0_step:
  "p i = Parsed r x \<Longrightarrow> length r < length i \<Longrightarrow> p_many0 p r = Parsed r' xs \<Longrightarrow> p_many0 p i = Parsed r' (x # xs)"
  by (simp add: p_many0.simps [of p i])

lemma p_complete_Parsed: "p i = Parsed r x \<Longrightarrow> p_complete p i = Parsed r x"
  by (simp add: p_complete_def)

lemma pairs_read:
  assumes nl: "nom_documented nl"
    and ok: "\<forall>kv \<in> set ps. key_readable (fst kv) \<and> value_readable (snd kv)"
    and rest: "CHR '':'' \<notin> set s" "CHR 0x0D \<notin> set s"
  shows "p_many0 (p_complete (key_value_pair nl)) (concat (map pair_line ps) @ s) = Parsed s ps
    \<and> quiet (concat (map pair_line ps) @ s)"
  using ok
proof (induction ps)
  case Nil
  then show ?case using key_value_refused [OF nl rest(1)] quiet_plain [OF rest]
    by (subst p_many0.simps) (simp add: p_complete_def)
next
  case (Cons kv ps)
  let ?s = "concat (map pair_line ps) @ s"
  have IH: "p_many0 (p_complete (key_value_pair nl)) ?s = Parsed s ps" "quiet ?s" using Cons by simp_all
  have "key_value_pair nl (pair_line kv @ ?s) = Parsed ?s kv"
    using Cons.prems IH(2) by (intro key_value_read [OF nl]) simp_all
  moreover have "length ?s < length (pair_line kv @ ?s)" by (simp add: pair_line_def)
  ultimately have "p_many0 (p_complete (key_value_pair nl)) (pair_line kv @ ?s) = Parsed s (kv # ps)"
    using IH(1) by (subst p_many0.simps) (simp add: p_complete_def)
  moreover have "quiet (pair_line kv @ ?s)" using Cons.prems IH(2) by (intro quiet_line) simp_all
  ultimately show ?case by simp
qed

text \<open>The tree map is rebuilt from its lines.\<close>

definition header_pairs :: "headers \<Rightarrow> (string \<times> string) list" where
  "header_pairs h = concat (map (\<lambda>(k, vs). map (Pair k) vs) h)"

lemma str_less_irrefl: "\<not> str_less s s"
  by (induction s) auto

lemma str_less_asym: "str_less s t \<Longrightarrow> \<not> str_less t s"
  by (induction s t rule: str_less.induct) auto

lemma push_header_behind:
  assumes "\<forall>k' \<in> fst ` set h. str_less k' k"
  shows "push_header k v (h @ [(k, vs)]) = h @ [(k, vs @ [v])]" and "push_header k v h = h @ [(k, [v])]"
  using assms by (induction h) (auto simp: str_less_irrefl dest: str_less_asym)

lemma push_values:
  assumes "\<forall>k' \<in> fst ` set h. str_less k' k"
  shows "foldl (\<lambda>hs (k, v). push_header k v hs) (h @ [(k, vs)]) (map (Pair k) ws) = h @ [(k, vs @ ws)]"
  using assms by (induction ws arbitrary: vs) (simp_all add: push_header_behind)

lemma headers_rebuilt:
  assumes "sorted_wrt str_less (map fst (h @ hs))" "\<forall>kv \<in> set hs. snd kv \<noteq> []"
  shows "foldl (\<lambda>hs (k, v). push_header k v hs) h (header_pairs hs) = h @ hs"
  using assms
proof (induction hs arbitrary: h)
  case (Cons kv hs)
  obtain k v vs where kv: "kv = (k, v # vs)" using Cons.prems(2) by (cases kv; cases "snd kv") auto
  have "\<forall>k' \<in> fst ` set h. str_less k' k"
    using Cons.prems(1) by (auto simp: sorted_wrt_append kv)
  then have "foldl (\<lambda>hs (k, v). push_header k v hs) h (map (Pair k) (v # vs)) = h @ [kv]"
    using push_values [of h k "[v]" vs] by (simp add: push_header_behind kv)
  moreover have "foldl (\<lambda>hs (k, v). push_header k v hs) (h @ [kv]) (header_pairs hs) = h @ kv # hs"
    using Cons.IH [of "h @ [kv]"] Cons.prems by simp
  ultimately show ?case by (simp add: header_pairs_def kv)
qed (simp add: header_pairs_def)

text \<open>The lines of hash names.\<close>

lemma alnum_ascii: "list_all alnum_dash v \<Longrightarrow> ascii v"
  by (induction v) (auto simp: ascii_def alnum_dash_def)

lemma hash_line_read:
  assumes nl: "nom_documented nl" and v: "v \<noteq> []" "list_all alnum_dash v"
  shows "hash_header_line nl (''Hash: '' @ v @ lf @ s) = Parsed s [v]"
proof -
  have "\<not> alnum_dash (CHR 0x0A)" by (simp add: alnum_dash_def)
  then have run: "nl_alnum_dash1 nl (v @ CHR 0x0A # s) = Parsed (CHR 0x0A # s) v"
    using nl v by (simp add: nom_documented_def runs_documented_def)
  then have "p_many0 (p_map_res utf8_str (p_bind (nl_alnum_dash1 nl) (\<lambda>v. p_bind (nl_tag nl '','') (\<lambda>_. p_return v))))
      (v @ CHR 0x0A # s) = Parsed (v @ CHR 0x0A # s) []"
    by (subst p_many0.simps) (simp add: parser_simps nom_tag [OF nl])
  with run show ?thesis
    by (simp add: hash_header_line_def terminated_value_def p_bind_def p_return_def p_map_res_def nom_tag [OF nl]
        lf_def nom_line_ending [OF nl] utf8_str_ascii alnum_ascii v)
qed

lemma hash_lines_read:
  assumes nl: "nom_documented nl" and vs: "\<forall>v \<in> set vs. v \<noteq> [] \<and> list_all alnum_dash v"
  shows "p_many0 (p_complete (hash_header_line nl)) (concat (map (\<lambda>v. ''Hash: '' @ v @ lf) vs) @ lf @ s)
    = Parsed (lf @ s) (map (\<lambda>v. [v]) vs)"
  using vs
proof (induction vs)
  case Nil
  show ?case
    by (subst p_many0.simps) (simp add: p_complete_def hash_header_line_def p_bind_def nom_tag [OF nl] lf_def)
next
  case (Cons v vs)
  let ?s = "concat (map (\<lambda>v. ''Hash: '' @ v @ lf) vs) @ lf @ s"
  have "hash_header_line nl (''Hash: '' @ v @ lf @ ?s) = Parsed ?s [v]"
    using Cons.prems by (intro hash_line_read [OF nl]) simp_all
  then have "p_many0 (p_complete (hash_header_line nl)) (''Hash: '' @ v @ lf @ ?s)
      = Parsed (lf @ s) ([v] # map (\<lambda>v. [v]) vs)"
    using Cons by (intro p_many0_step [OF p_complete_Parsed]) simp_all
  then show ?case by simp
qed

text \<open>Headers that the reader gives back, and what it gives.\<close>

definition readable_headers :: "block_type \<Rightarrow> headers \<Rightarrow> bool" where
  "readable_headers t h \<longleftrightarrow>
     (if t = CleartextMessage
      then h = [] \<or> (\<exists>vs. h = [(''Hash'', vs)] \<and> (\<forall>v \<in> set vs. v \<noteq> [] \<and> list_all alnum_dash v))
      else sorted_wrt str_less (map fst h)
        \<and> (\<forall>kv \<in> set h. key_readable (fst kv) \<and> snd kv \<noteq> [] \<and> list_all value_readable (snd kv)))"

definition headers_read :: "block_type \<Rightarrow> headers \<Rightarrow> headers" where
  "headers_read t h = (if t = CleartextMessage \<and> h = [] then [(''Hash'', [])] else h)"

lemma armor_header_step:
  "armor_header_line nl i = Parsed r t \<Longrightarrow>
   (if t = CleartextMessage then armor_headers_hash nl else armor_headers nl) r = Parsed r' hs \<Longrightarrow>
   armor_header nl i = Parsed r' (t, hs)"
  by (simp add: armor_header_def p_bind_def p_return_def)

lemma header_read:
  assumes nl: "nom_documented nl" and h: "readable_headers t (unwrap_or [] hs)"
    and s: "CHR '':'' \<notin> set s" "CHR 0x0D \<notin> set s"
  shows "armor_header nl (write_header t hs @ s) = Parsed (lf @ s) (t, headers_read t (unwrap_or [] hs))"
proof -
  define h' where "h' = unwrap_or [] hs"
  have "concat (map (\<lambda>(k, vs). concat (map (\<lambda>v. k @ '': '' @ v @ lf) vs)) h') = concat (map pair_line (header_pairs h'))"
    by (induction h') (auto simp: header_pairs_def pair_line_def map_concat o_def)
  then have written: "write_header t hs @ s
      = ''-----BEGIN '' @ block_type_text t @ ''-----'' @ lf @ concat (map pair_line (header_pairs h')) @ lf @ s"
    by (simp add: write_header_def flip: h'_def)
  show ?thesis
  proof (cases "t = CleartextMessage")
    case True
    then obtain vs where vs: "header_pairs h' = map (Pair ''Hash'') vs" "\<forall>v \<in> set vs. v \<noteq> [] \<and> list_all alnum_dash v"
        "headers_read t h' = [(''Hash'', vs)]"
      using h by (force simp: readable_headers_def header_pairs_def headers_read_def simp flip: h'_def)
    then have "concat (map pair_line (header_pairs h')) = concat (map (\<lambda>v. ''Hash: '' @ v @ lf) vs)"
      by (simp add: pair_line_def o_def)
    moreover have "armor_headers_hash nl (concat (map (\<lambda>v. ''Hash: '' @ v @ lf) vs) @ lf @ s) = Parsed (lf @ s) [(''Hash'', vs)]"
      using hash_lines_read [OF nl vs(2)] by (simp add: armor_headers_hash_def p_bind_def p_return_def)
    ultimately have "armor_headers_hash nl (concat (map pair_line (header_pairs h')) @ lf @ s) = Parsed (lf @ s) (headers_read t h')"
      using vs(3) by (simp only:)
    then show ?thesis unfolding written h'_def [symmetric]
      by (intro armor_header_step [OF header_line_read [OF nl]]) (simp add: True)
  next
    case False
    have ok: "sorted_wrt str_less (map fst h')" "\<forall>kv \<in> set h'. snd kv \<noteq> []"
        "\<forall>kv \<in> set (header_pairs h'). key_readable (fst kv) \<and> value_readable (snd kv)"
      using h False by (force simp: readable_headers_def header_pairs_def list_all_iff simp flip: h'_def)+
    have "key_value_pairs nl (concat (map pair_line (header_pairs h')) @ lf @ s) = Parsed (lf @ s) (header_pairs h')"
      using pairs_read [OF nl ok(3), of "lf @ s"] s by (simp add: key_value_pairs_def lf_def)
    then have "armor_headers nl (concat (map pair_line (header_pairs h')) @ lf @ s) = Parsed (lf @ s) h'"
      using headers_rebuilt [of "[]" h'] ok by (simp add: armor_headers_def p_bind_def p_return_def)
    then show ?thesis unfolding written h'_def [symmetric]
      by (intro armor_header_step [OF header_line_read [OF nl]]) (simp add: False headers_read_def)
  qed
qed

subsection \<open>The armor is read back\<close>

definition body_chars :: "char set" where
  "body_chars = set base64_alphabet \<union> {CHR ''='', CHR 0x0A}"

lemma body_chars_plain:
  "CHR ''-'' \<notin> body_chars" "CHR '':'' \<notin> body_chars" "CHR 0x0D \<notin> body_chars"
  by (simp_all add: body_chars_def base64_alphabet_def)

lemma alphabet_plain:
  "CHR ''='' \<notin> set base64_alphabet" "CHR 0x0A \<notin> set base64_alphabet" "c \<in> set base64_alphabet \<Longrightarrow> \<not> blank c"
  by (auto simp: base64_alphabet_def blank_def)

text \<open>The lines of the body and the text that is behind them.\<close>

lemma body_lines:
  assumes "set e \<subseteq> set base64_alphabet \<union> {CHR ''=''}"
  defines "w \<equiv> concat (map (\<lambda>chunk. chunk @ lf) (chunks 64 e))"
  shows "set w \<subseteq> body_chars" "w = [] \<or> last w = CHR 0x0A" "filter (\<lambda>c. \<not> blank c) w = e" "set w \<subseteq> set e \<union> {CHR 0x0A}"
proof -
  have lines: "set (concat (map (\<lambda>chunk. chunk @ lf) cs)) \<subseteq> set (concat cs) \<union> {CHR 0x0A}
      \<and> (concat (map (\<lambda>chunk. chunk @ lf) cs) = [] \<or> last (concat (map (\<lambda>chunk. chunk @ lf) cs)) = CHR 0x0A)
      \<and> filter (\<lambda>c. \<not> blank c) (concat (map (\<lambda>chunk. chunk @ lf) cs)) = filter (\<lambda>c. \<not> blank c) (concat cs)" for cs
    by (induction cs) (auto simp: lf_def blank_def)
  have "concat (chunks 64 e) = e" by (simp add: concat_chunks)
  moreover have "filter (\<lambda>c. \<not> blank c) e = e"
    using assms(1) alphabet_plain(3) by (auto simp: filter_id_conv blank_def)
  ultimately show "set w \<subseteq> set e \<union> {CHR 0x0A}" "w = [] \<or> last w = CHR 0x0A" "filter (\<lambda>c. \<not> blank c) w = e"
    using lines [of "chunks 64 e"] by (simp_all add: w_def)
  with assms(1) show "set w \<subseteq> body_chars" by (auto simp: body_chars_def)
qed

lemma block_type_plain: "CHR '':'' \<notin> set (block_type_text t)" "CHR 0x0D \<notin> set (block_type_text t)"
proof -
  have "CHR '':'' \<notin> set (to_string w) \<and> CHR 0x0D \<notin> set (to_string w)" for w :: u64
    using set_dec_string [of "unat w"] by (auto simp: to_string_def decimal_digits_def)
  moreover have "CHR '':'' \<notin> set (pkcs1_text p) \<and> CHR 0x0D \<notin> set (pkcs1_text p)" for p by (cases p) simp_all
  ultimately show "CHR '':'' \<notin> set (block_type_text t)" "CHR 0x0D \<notin> set (block_type_text t)" by (cases t; simp)+
qed

lemma decode_at_footer:
  assumes nl: "nom_documented nl" and h: "readable_headers t (unwrap_or [] hs)"
    and s: "CHR '':'' \<notin> set s" "CHR 0x0D \<notin> set s" and "find_footer 0 s = Some n"
  shows "armor_decode nl msg bl (write_header t hs @ s)
    = (case bl_decode bl (filter (\<lambda>c. \<not> blank c) (take n s)) of
         Inl e \<Rightarrow> Inl (Asc_other (''base64 decode error: '' @ e))
       | Inr bs \<Rightarrow> Inr (t, headers_read t (unwrap_or [] hs), bs))"
proof -
  have "skip_blank_line (lf @ s) = s" by (simp add: skip_blank_line_def strip_prefix_def crlf_def lf_def)
  then show ?thesis
    using assms(5) by (simp add: armor_decode_def header_read [OF nl h s] find_footer_start_def Let_def)
qed

lemma base64_facts:
  assumes "base64_documented bl"
  obtains body where "bl_encode bl bs = body @ replicate ((3 - length bs mod 3) mod 3) CHR ''=''"
    "set body \<subseteq> set base64_alphabet" "length (bl_encode bl bs) = 4 * ((length bs + 2) div 3)"
    "bl_decode bl (bl_encode bl bs) = Inr bs"
  using assms unfolding base64_documented_def by metis

lemma checksum_read:
  assumes nl: "nom_documented nl" and bl: "base64_documented bl" and h: "readable_headers t (unwrap_or [] hs)"
  shows "armor_decode nl msg bl (armor_write bl crc24 source t hs True) = Inr (t, headers_read t (unwrap_or [] hs), source)"
proof -
  obtain body where e: "bl_encode bl source = body @ replicate ((3 - length source mod 3) mod 3) CHR ''=''"
      "set body \<subseteq> set base64_alphabet" "bl_decode bl (bl_encode bl source) = Inr source"
    using base64_facts [OF bl, of source] by blast
  then have set_e: "set (bl_encode bl source) \<subseteq> set base64_alphabet \<union> {CHR ''=''}" by auto
  note lines = body_lines [OF set_e, folded write_body_def]
  define crc where "crc = bl_encode bl (crc_bytes (crc24 source))"
  obtain c where "crc = c @ replicate ((3 - length (crc_bytes (crc24 source)) mod 3) mod 3) CHR ''=''"
      "set c \<subseteq> set base64_alphabet" "length crc = 4 * ((length (crc_bytes (crc24 source)) + 2) div 3)"
    using base64_facts [OF bl, of "crc_bytes (crc24 source)"] unfolding crc_def by blast
  then have crc: "length crc = 4" "set crc \<subseteq> set base64_alphabet" by (simp_all add: crc_bytes_def)
  let ?footer = "end_marker @ '' '' @ block_type_text t @ ''-----'' @ lf"
  let ?s = "write_body bl source @ ''='' @ crc @ lf @ ?footer"
  have written: "armor_write bl crc24 source t hs True = write_header t hs @ ?s"
    by (simp add: armor_write_def write_footer_def crc_def end_marker_def)
  have "CHR 0x0D \<notin> set base64_alphabet" "CHR '':'' \<notin> set base64_alphabet" by (simp_all add: base64_alphabet_def)
  then have plain: "CHR '':'' \<notin> set ?s" "CHR 0x0D \<notin> set ?s"
    using lines(1) body_chars_plain crc(2) block_type_plain [of t] by (auto simp: end_marker_def lf_def)
  have "find_footer 0 ?s = find_footer (length (write_body bl source)) (''='' @ crc @ lf @ ?footer)"
    using lines(1,2) body_chars_plain
    by (subst footer_behind_lines) (auto simp del: find_footer.simps)
  moreover have "CHR 0x0A \<notin> set crc" "CHR 0x0D \<notin> set crc"
    using crc(2) alphabet_plain(2) \<open>CHR 0x0D \<notin> set base64_alphabet\<close> by blast+
  then have "find_footer i (''='' @ crc @ lf @ ?footer) = Some i" for i
    using crc(1) by (rule checksum_found [rotated])
  ultimately have "find_footer 0 ?s = Some (length (write_body bl source))" by simp
  from decode_at_footer [OF nl h plain this, of msg bl] show ?thesis
    unfolding written by (simp add: lines(3) e(3))
qed

lemma unchecked_read:
  assumes nl: "nom_documented nl" and bl: "base64_documented bl" and h: "readable_headers t (unwrap_or [] hs)"
  shows "if 3 dvd length source
    then armor_decode nl msg bl (armor_write bl crc24 source t hs False) = Inr (t, headers_read t (unwrap_or [] hs), source)
    else \<exists>e. armor_decode nl msg bl (armor_write bl crc24 source t hs False) = Inl (Asc_other (''base64 decode error: '' @ e))"
proof -
  define pad where "pad = replicate ((3 - length source mod 3) mod 3) CHR ''=''"
  obtain body where e: "bl_encode bl source = body @ pad" "set body \<subseteq> set base64_alphabet"
      "bl_decode bl (body @ pad) = Inr source" "length (body @ pad) = 4 * ((length source + 2) div 3)"
    using base64_facts [OF bl, of source] unfolding pad_def by metis
  then have set_e: "set (bl_encode bl source) \<subseteq> set base64_alphabet \<union> {CHR ''=''}" by (auto simp: pad_def)
  note lines = body_lines [OF set_e, folded write_body_def]
  let ?footer = "end_marker @ '' '' @ block_type_text t @ ''-----'' @ lf"
  let ?s = "write_body bl source @ ?footer"
  have written: "armor_write bl crc24 source t hs False = write_header t hs @ ?s"
    by (simp add: armor_write_def write_footer_def end_marker_def)
  have plain: "CHR '':'' \<notin> set ?s" "CHR 0x0D \<notin> set ?s"
    using lines(1) body_chars_plain block_type_plain [of t] by (auto simp: end_marker_def lf_def)
  note decode = decode_at_footer [OF nl h plain, of _ msg bl, folded written]
  have at_end: "find_footer i ?footer = Some i" for i by (simp add: end_marker_def)
  show ?thesis
  proof (cases "3 dvd length source")
    case True
    then have "pad = []" by (simp add: pad_def)
    then have "CHR ''='' \<notin> set (write_body bl source)"
      using lines(4) e(1,2) alphabet_plain(1) by auto
    moreover have "CHR ''-'' \<notin> set (write_body bl source)" using lines(1) body_chars_plain by blast
    ultimately have "find_footer 0 ?s = Some (length (write_body bl source))"
      using at_end by (subst footer_behind_text) simp_all
    from decode [OF this] True show ?thesis using e(1,3) lines(3) by simp
  next
    case False
    then have "length source mod 3 = 1 \<or> length source mod 3 = 2" by presburger
    then have shape: "pad = [CHR ''=''] \<or> pad = [CHR ''='', CHR ''='']"
    proof -
      have "replicate 2 CHR ''='' = [CHR ''='', CHR ''='']" by (simp add: numeral_2_eq_2)
      moreover have "replicate 1 CHR ''='' = [CHR ''='']" by simp
      moreover have "(3 - length source mod 3) mod 3 = 2 \<or> (3 - length source mod 3) mod 3 = 1"
        using \<open>length source mod 3 = 1 \<or> length source mod 3 = 2\<close> by auto
      ultimately show ?thesis unfolding pad_def by metis
    qed
    then have pad: "pad \<noteq> []" "length pad \<le> 2" by auto
    moreover have "length (body @ pad) mod 4 = 0" using e(4) by simp
    ultimately obtain V where V: "write_body bl source = V @ pad @ lf"
        "filter (\<lambda>c. c \<noteq> CHR 0x0A) V = filter (\<lambda>c. c \<noteq> CHR 0x0A) body" "set V \<subseteq> set base64_alphabet \<union> {CHR 0x0A}"
      using padded_lines [of body pad "set base64_alphabet"] e(1,2) unfolding write_body_def by auto
    have "CHR ''='' \<notin> set V" "CHR ''-'' \<notin> set V"
      using V(3) alphabet_plain(1) body_chars_plain(1) by (auto simp: body_chars_def)
    then have "find_footer 0 (V @ pad @ lf @ ?footer) = find_footer (length V) (pad @ lf @ ?footer)"
      by (subst footer_behind_text) simp_all
    moreover have "find_footer i (pad @ lf @ ?footer) = Some i" for i using shape by (rule padding_footer)
    ultimately have found: "find_footer 0 ?s = Some (length V)" by (simp add: V(1))
    have "filter (\<lambda>c. \<not> blank c) V = filter (\<lambda>c. c \<noteq> CHR 0x0A) V"
      using V(3) alphabet_plain(3) by (intro filter_cong) (auto simp: blank_def)
    also have "\<dots> = body" using V(2) e(2) alphabet_plain(2) by (auto simp: filter_id_conv)
    finally have "filter (\<lambda>c. \<not> blank c) (take (length V) ?s) = body" by (simp add: V(1))
    moreover have "length body mod 4 \<noteq> 0"
    proof -
      have "length pad = 1 \<or> length pad = 2" using shape by auto
      with \<open>length (body @ pad) mod 4 = 0\<close> show ?thesis unfolding length_append by presburger
    qed
    then obtain msg' where "bl_decode bl body = Inl msg'" using bl unfolding base64_documented_def by blast
    ultimately show ?thesis using decode [OF found] False by simp
  qed
qed

text \<open>
  C36: What the writer writes with a checksum is read back: the block type, the headers (a message
  without headers in the clear gets an empty \<open>Hash\<close>) and the content, for every block type and
  every content.  Without a checksum this is so for a content whose length is a multiple of three;
  any other content cannot be read, since its padding is taken for the checksum.
\<close>

theorem armor_round_trip:
  assumes "nom_documented nl" and "base64_documented bl" and "readable_headers t (unwrap_or [] hs)"
  shows "armor_decode nl msg bl (armor_write bl crc24 source t hs True) = Inr (t, headers_read t (unwrap_or [] hs), source)
    \<and> (if 3 dvd length source
        then armor_decode nl msg bl (armor_write bl crc24 source t hs False)
          = Inr (t, headers_read t (unwrap_or [] hs), source)
        else \<exists>e. armor_decode nl msg bl (armor_write bl crc24 source t hs False)
          = Inl (Asc_other (''base64 decode error: '' @ e)))"
  using checksum_read [OF assms] unchecked_read [OF assms] by blast

subsection \<open>Recognisers and an encoding with the documented behaviour\<close>

definition run_while1 :: "(char \<Rightarrow> bool) \<Rightarrow> string parser" where
  "run_while1 P i =
     (if dropWhile P i = [] then Incomplete
      else if takeWhile P i = [] then Refused
      else Parsed (dropWhile P i) (takeWhile P i))"

fun until_text :: "string \<Rightarrow> string \<Rightarrow> string \<Rightarrow> string outcome" where
  "until_text t v [] = Incomplete"
| "until_text t v (c # cs) =
     (if prefix t (c # cs) then (if v = [] then Refused else Parsed (c # cs) v)
      else until_text t (v @ [c]) cs)"

definition line_break :: "string parser" where
  "line_break i =
     (if prefix lf i then Parsed (drop 1 i) lf else if prefix crlf i then Parsed (drop 2 i) crlf
      else if prefix i crlf then Incomplete else Refused)"

definition until_line_break :: "string parser" where
  "until_line_break i =
     (let ends = (\<lambda>c. c \<noteq> CHR 0x0A \<and> c \<noteq> CHR 0x0D); rest = dropWhile ends i
      in if rest = [] \<or> rest = [CHR 0x0D] then Incomplete
         else if prefix lf rest \<or> prefix crlf rest then Parsed rest (takeWhile ends i) else Refused)"

definition example_nom :: nom_lib where
  "example_nom =
     \<lparr>nl_tag = (\<lambda>t i. if prefix t i then Parsed (drop (length t) i) t else if prefix i t then Incomplete else Refused),
      nl_take_until1 = (\<lambda>t i. until_text t [] i),
      nl_digit1 = run_while1 (\<lambda>c. c \<in> decimal_digits),
      nl_line_ending = line_break,
      nl_not_line_ending = until_line_break,
      nl_alnum_dash1 = run_while1 alnum_dash\<rparr>"

lemma run_while1_Parsed: "v \<noteq> [] \<Longrightarrow> list_all P v \<Longrightarrow> \<not> P c \<Longrightarrow> run_while1 P (v @ c # r) = Parsed (c # r) v"
  by (simp add: run_while1_def list_all_iff)

lemma until_text_absent: "\<not> sublist t i \<Longrightarrow> until_text t v i = Incomplete"
proof (induction i arbitrary: v)
  case (Cons c i)
  then have "\<not> prefix t (c # i)" "\<not> sublist t i" by (simp_all add: sublist_Cons_right)
  with Cons show ?case by simp
qed simp

lemma until_text_found:
  "t \<noteq> [] \<Longrightarrow> u @ v \<noteq> [] \<Longrightarrow> hd t \<notin> set v \<Longrightarrow> until_text t u (v @ t @ r) = Parsed (t @ r) (u @ v)"
proof (induction v arbitrary: u)
  case Nil
  then show ?case by (cases t) simp_all
next
  case (Cons c v)
  then have "\<not> prefix t (c # v @ t @ r)" by (cases t) auto
  with Cons show ?case by simp
qed

lemma example_nom_documented: "nom_documented example_nom"
proof -
  have "run_while1 (\<lambda>c. c \<in> decimal_digits) (v @ c # r) = Parsed (c # r) v"
    if "v \<noteq> []" "set v \<subseteq> decimal_digits" "c \<notin> decimal_digits" for v c r
    using that by (intro run_while1_Parsed) (auto simp: list_all_iff)
  moreover have "until_line_break (v @ lf @ r) = Parsed (lf @ r) v"
    if "CHR 0x0A \<notin> set v" "CHR 0x0D \<notin> set v" for v r
  proof -
    have "dropWhile (\<lambda>c. c \<noteq> CHR 0x0A \<and> c \<noteq> CHR 0x0D) (v @ lf @ r) = lf @ r"
      "takeWhile (\<lambda>c. c \<noteq> CHR 0x0A \<and> c \<noteq> CHR 0x0D) (v @ lf @ r) = v"
      using that by (auto simp: dropWhile_append takeWhile_append lf_def)
    then show ?thesis by (simp add: until_line_break_def Let_def lf_def)
  qed
  moreover have "until_text t [] (v @ t @ r) = Parsed (t @ r) v" if "t \<noteq> []" "v \<noteq> []" "hd t \<notin> set v" for t v r
    using until_text_found [of t "[]" v r] that by simp
  ultimately show ?thesis
    by (simp add: nom_documented_def tag_documented_def lines_documented_def runs_documented_def until_documented_def
        example_nom_def run_while1_Parsed until_text_absent) (simp add: line_break_def lf_def)
qed

text \<open>Base64, three bytes as four digits.\<close>

definition digit64 :: "nat \<Rightarrow> char" where
  "digit64 n = base64_alphabet ! n"

definition value64 :: "char \<Rightarrow> nat option" where
  "value64 c = (if c \<in> set base64_alphabet then Some (length (takeWhile ((\<noteq>) c) base64_alphabet)) else None)"

fun text64 :: "byte list \<Rightarrow> string" where
  "text64 [] = []"
| "text64 [a] = [digit64 (unat a div 4), digit64 (unat a mod 4 * 16), CHR ''='', CHR ''='']"
| "text64 [a, b] =
     [digit64 (unat a div 4), digit64 (unat a mod 4 * 16 + unat b div 16), digit64 (unat b mod 16 * 4), CHR ''='']"
| "text64 (a # b # c # bs) =
     digit64 (unat a div 4) # digit64 (unat a mod 4 * 16 + unat b div 16)
     # digit64 (unat b mod 16 * 4 + unat c div 64) # digit64 (unat c mod 64) # text64 bs"

definition bytes64 :: "nat list \<Rightarrow> byte list" where
  "bytes64 ds =
     map of_nat (case ds of
        [p, q] \<Rightarrow> [p * 4 + q div 16]
      | [p, q, r] \<Rightarrow> [p * 4 + q div 16, q mod 16 * 16 + r div 4]
      | [p, q, r, s] \<Rightarrow> [p * 4 + q div 16, q mod 16 * 16 + r div 4, r mod 4 * 64 + s]
      | _ \<Rightarrow> [])"

fun values64 :: "string \<Rightarrow> nat list option" where
  "values64 [] = Some []"
| "values64 (c # cs) = (case (value64 c, values64 cs) of (Some d, Some ds) \<Rightarrow> Some (d # ds) | _ \<Rightarrow> None)"

fun read64 :: "string \<Rightarrow> byte list option" where
  "read64 [] = Some []"
| "read64 (p # q # r # s # cs) =
     (if cs = [] \<and> s = CHR ''='' \<and> r = CHR ''='' then map_option bytes64 (values64 [p, q])
      else if cs = [] \<and> s = CHR ''='' then map_option bytes64 (values64 [p, q, r])
      else case (values64 [p, q, r, s], read64 cs) of
             (Some ds, Some bs) \<Rightarrow> Some (bytes64 ds @ bs)
           | _ \<Rightarrow> None)"
| "read64 _ = None"

definition example_base64 :: base64_lib where
  "example_base64 =
     \<lparr>bl_encode = text64,
      bl_decode = (\<lambda>s. case read64 s of Some bs \<Rightarrow> Inr bs | None \<Rightarrow> Inl ''Invalid input'')\<rparr>"

lemma digits64:
  assumes "n < 64"
  shows "value64 (digit64 n) = Some n" "digit64 n \<in> set base64_alphabet" "digit64 n \<noteq> CHR ''=''"
proof -
  have "\<forall>n \<in> set [0..<64]. value64 (digit64 n) = Some n \<and> digit64 n \<in> set base64_alphabet"
    by code_simp
  moreover have "n \<in> set [0..<64]" using assms by simp
  ultimately show "value64 (digit64 n) = Some n" "digit64 n \<in> set base64_alphabet" by blast+
  then show "digit64 n \<noteq> CHR ''=''" using alphabet_plain(1) by metis
qed

lemma byte_parts:
  fixes a b c :: byte
  shows "unat a div 4 < 64" "unat b div 16 < 16" "unat c div 64 < 4"
proof -
  have "unat x < 256" for x :: byte using unsigned_less [of x] by simp
  then show "unat a div 4 < 64" "unat b div 16 < 16" "unat c div 64 < 4" by (simp_all add: less_mult_imp_div_less)
qed

lemma sextets:
  fixes a b c :: byte
  shows "unat a div 4 < 64" "unat a mod 4 * 16 < 64" "unat a mod 4 * 16 + unat b div 16 < 64"
    "unat b mod 16 * 4 < 64" "unat b mod 16 * 4 + unat c div 64 < 64" "unat c mod 64 < 64"
proof -
  have "unat a mod 4 \<le> 3" "unat b mod 16 \<le> 15" by (simp_all flip: less_Suc_eq_le)
  then show "unat a mod 4 * 16 < 64" "unat a mod 4 * 16 + unat b div 16 < 64"
    "unat b mod 16 * 4 < 64" "unat b mod 16 * 4 + unat c div 64 < 64"
    using byte_parts(2) [of b] byte_parts(3) [of c] by linarith+
qed (simp_all add: byte_parts)

lemma parts_joined:
  fixes x y k :: nat
  assumes "y < k"
  shows "(x * k + y) div k = x" "(x * k + y) mod k = y" "x * k div k = x"
  using assms by simp_all

lemma octets:
  fixes a b c :: byte
  shows "of_nat (unat a div 4 * 4 + unat a mod 4 * 16 div 16) = a"
    "of_nat (unat a div 4 * 4 + (unat a mod 4 * 16 + unat b div 16) div 16) = a"
    "of_nat ((unat a mod 4 * 16 + unat b div 16) mod 16 * 16 + unat b mod 16 * 4 div 4) = b"
    "of_nat ((unat a mod 4 * 16 + unat b div 16) mod 16 * 16 + (unat b mod 16 * 4 + unat c div 64) div 4) = b"
    "of_nat ((unat b mod 16 * 4 + unat c div 64) mod 4 * 64 + unat c mod 64) = c"
  by (simp_all only: parts_joined [OF byte_parts(2)] parts_joined [OF byte_parts(3)]
      parts_joined(3) [of 0 16] parts_joined(3) [of 0 4] zero_less_numeral div_mult_mod_eq) simp_all

lemma bytes64_sextets:
  "bytes64 [unat a div 4, unat a mod 4 * 16] = [a]"
  "bytes64 [unat a div 4, unat a mod 4 * 16 + unat b div 16, unat b mod 16 * 4] = [a, b]"
  "bytes64 [unat a div 4, unat a mod 4 * 16 + unat b div 16, unat b mod 16 * 4 + unat c div 64, unat c mod 64] = [a, b, c]"
  unfolding bytes64_def list.case list.map octets by (rule refl)+

lemma read64_text64: "read64 (text64 bs) = Some bs"
  by (induction bs rule: text64.induct) (simp_all add: digits64 sextets bytes64_sextets)

lemma text64_shape:
  "\<exists>body. set body \<subseteq> set base64_alphabet \<and> text64 bs = body @ replicate ((3 - length bs mod 3) mod 3) CHR ''=''
     \<and> length (text64 bs) = 4 * ((length bs + 2) div 3)"
proof (induction bs rule: text64.induct)
  case (2 a)
  show ?case by (intro exI [of _ "take 2 (text64 [a])"]) (simp add: digits64 sextets numeral_2_eq_2)
next
  case (3 a b)
  show ?case by (intro exI [of _ "take 3 (text64 [a, b])"]) (simp add: digits64 sextets)
next
  case (4 a b c bs)
  then obtain body where body: "set body \<subseteq> set base64_alphabet"
      "text64 bs = body @ replicate ((3 - length bs mod 3) mod 3) CHR ''=''"
      "length (text64 bs) = 4 * ((length bs + 2) div 3)" by blast
  have "length (a # b # c # bs) mod 3 = length bs mod 3" "(length (a # b # c # bs) + 2) div 3 = (length bs + 2) div 3 + 1"
    by simp_all
  with body show ?case
    by (intro exI [of _ "take 4 (text64 (a # b # c # bs)) @ body"]) (simp add: digits64 sextets)
qed simp

lemma read64_length: "length s mod 4 \<noteq> 0 \<Longrightarrow> read64 s = None"
proof (induction s rule: read64.induct)
  case (2 p q r s cs)
  then have "cs \<noteq> []" "length cs mod 4 \<noteq> 0" by auto
  with 2 show ?case by (auto split: option.splits)
qed simp_all

lemma example_base64_documented: "base64_documented example_base64"
  unfolding base64_documented_def
proof (intro conjI allI)
  show "\<exists>body. set body \<subseteq> set base64_alphabet
      \<and> bl_encode example_base64 bs = body @ replicate ((3 - length bs mod 3) mod 3) CHR ''=''
      \<and> length (bl_encode example_base64 bs) = 4 * ((length bs + 2) div 3)" for bs
    using text64_shape [of bs] by (simp only: example_base64_def base64_lib.simps)
qed (simp_all add: example_base64_def read64_text64 read64_length)

lemma armor_round_trip_witness:
  "armor_decode example_nom id example_base64
     (armor_write example_base64 (\<lambda>_. 7) [1, 2, 3, 4] EncryptedMnemonic (Some [(''Version'', [''1'', ''two words''])]) True)
     = Inr (EncryptedMnemonic, [(''Version'', [''1'', ''two words''])], [1, 2, 3, 4])"
proof -
  have "readable_headers EncryptedMnemonic (unwrap_or [] (Some [(''Version'', [''1'', ''two words''])]))"
    by (simp add: readable_headers_def key_readable_def value_readable_def ascii_def)
  from armor_round_trip [OF example_nom_documented example_base64_documented this, THEN conjunct1]
  show ?thesis by (simp add: headers_read_def)
qed

text \<open>A value that ends with a colon is read as part of the key.\<close>

lemma colon_value_misread:
  "armor_headers example_nom (''A: b:'' @ lf @ lf @ lf) = Parsed (lf @ lf) [(''A: b'', [[]])]"
  by code_simp

end
