(* ===== verification/Keystore.thy ===== *)
theory Keystore
  imports Armor Wallet Alkanes_Trace
begin

text \<open>
  The wallet's secrets: \<open>crypto.rs\<close>, the keystore and the decryption of its mnemonic (\<open>keystore.rs\<close>),
  and the states of the provider's wallet (\<open>provider.rs\<close>).  PBKDF2, AES-GCM, BIP-39, BIP-32 and the
  JSON form of a keystore are parameters; salt, nonce, clock and a fresh mnemonic are arguments.  The
  hash is given its 32 bytes, so that \<open>new_from_slice\<close> does not fail, and the armor is ASCII, so that
  its conversion to a string does not.  A panic is \<open>Abort\<close>.
\<close>

subsection \<open>Results that may be a panic\<close>

fun fbind :: "dfault + 'a \<Rightarrow> ('a \<Rightarrow> dfault + 'b) \<Rightarrow> dfault + 'b" where
  "fbind (Inl e) f = Inl e"
| "fbind (Inr x) f = f x"

fun_cases fbind_InrE: "fbind r f = Inr y"

lemma fbind_Inr: "fbind r f = Inr y \<longleftrightarrow> (\<exists>x. r = Inr x \<and> f x = Inr y)"
  by (cases r) simp_all

fun failing :: "'a dres \<Rightarrow> dfault + 'a" where
  "failing (Inl e) = Inl (Failure e)"
| "failing (Inr x) = Inr x"

lemma failing_Inr [simp]: "failing r = Inr y \<longleftrightarrow> r = Inr y"
  by (cases r) simp_all

subsection \<open>Encryption\<close>

record crypto_libs =
  derive_key :: "string \<Rightarrow> byte list \<Rightarrow> nat \<Rightarrow> byte list"
  seal :: "byte list \<Rightarrow> byte list \<Rightarrow> byte list \<Rightarrow> string + byte list"
  unseal :: "byte list \<Rightarrow> byte list \<Rightarrow> byte list \<Rightarrow> string + byte list"

definition pbkdf_iterations :: nat where
  "pbkdf_iterations = 600000"

definition encrypt ::
  "crypto_libs \<Rightarrow> byte list \<Rightarrow> byte list \<Rightarrow> byte list \<Rightarrow> string \<Rightarrow> (byte list \<times> byte list \<times> byte list) dres" where
  "encrypt cl salt nonce data passphrase =
     (case seal cl (derive_key cl passphrase salt pbkdf_iterations) nonce data of
        Inl e \<Rightarrow> Inl (Crypto e)
      | Inr c \<Rightarrow> Inr (c, salt, nonce))"

text \<open>\<open>Nonce::from_slice\<close> asserts the length of its argument.\<close>

definition decrypt ::
  "crypto_libs \<Rightarrow> byte list \<Rightarrow> string \<Rightarrow> byte list \<Rightarrow> byte list \<Rightarrow> dfault + byte list" where
  "decrypt cl data passphrase salt nonce =
     (if length nonce \<noteq> 12 then Inl (Abort ''assertion failed: slice.len() == N'')
      else case unseal cl (derive_key cl passphrase salt pbkdf_iterations) nonce data of
             Inl e \<Rightarrow> Inl (Failure (Crypto e))
           | Inr bs \<Rightarrow> Inr bs)"

subsection \<open>The keystore\<close>

record pbkdf_params =
  pp_salt :: string
  pp_nonce :: "string option"
  pp_iterations :: u32
  pp_algorithm :: "string option"

record wallet_keystore = keystore +
  wk_encrypted :: string
  wk_fingerprint :: string
  wk_created_at :: u64
  wk_version :: string
  wk_pbkdf2 :: pbkdf_params
  wk_hd_paths :: "(string \<times> string) list"

text \<open>The tree map of the paths is the list of its entries in the order of the keys.\<close>

fun tree_insert :: "string \<Rightarrow> 'v \<Rightarrow> (string \<times> 'v) list \<Rightarrow> (string \<times> 'v) list" where
  "tree_insert k v [] = [(k, v)]"
| "tree_insert k v ((k', v') # t) =
     (if k = k' then (k, v) # t
      else if str_less k k' then (k, v) # (k', v') # t
      else (k', v') # tree_insert k v t)"

definition tree_of :: "(string \<times> 'v) list \<Rightarrow> (string \<times> 'v) list" where
  "tree_of kvs = foldl (\<lambda>t (k, v). tree_insert k v t) [] kvs"

text \<open>The derived writer and reader.  \<open>#[serde(default)]\<close> allows a missing field, not a \<open>null\<close>.\<close>

definition pbkdf_json :: "pbkdf_params \<Rightarrow> json" where
  "pbkdf_json p =
     JObj [(''salt'', JStr (pp_salt p)), (''nonce'', write_option JStr (pp_nonce p)),
       (''iterations'', JNum (PosInt (ucast (pp_iterations p)))), (''algorithm'', write_option JStr (pp_algorithm p))]"

definition pbkdf_of_json :: "json \<Rightarrow> pbkdf_params option" where
  "pbkdf_of_json v =
     (case struct_fields [''salt'', ''nonce'', ''iterations'', ''algorithm''] v of
        Some [s, n, i, a] \<Rightarrow>
          Option.bind (Option.bind s as_str) (\<lambda>salt.
          Option.bind (optional as_str n) (\<lambda>nonce.
          Option.bind (Option.bind i as_u32) (\<lambda>iterations.
          Option.bind (optional as_str a) (\<lambda>algorithm.
            Some \<lparr>pp_salt = salt, pp_nonce = nonce, pp_iterations = iterations, pp_algorithm = algorithm\<rparr>))))
      | _ \<Rightarrow> None)"

definition keystore_json :: "wallet_keystore \<Rightarrow> json" where
  "keystore_json ks =
     JObj [(''encrypted_mnemonic'', JStr (wk_encrypted ks)), (''master_fingerprint'', JStr (wk_fingerprint ks)),
       (''created_at'', JNum (PosInt (wk_created_at ks))), (''version'', JStr (wk_version ks)),
       (''pbkdf2_params'', pbkdf_json (wk_pbkdf2 ks)), (''account_xpub'', JStr (ks_xpub ks)),
       (''hd_paths'', JObj (map (\<lambda>(k, v). (k, JStr v)) (wk_hd_paths ks)))]"

definition string_map :: "json \<Rightarrow> (string \<times> string) list option" where
  "string_map v =
     Option.bind (as_object v) (\<lambda>kvs.
       map_option tree_of (option_map (\<lambda>(k, w). map_option (Pair k) (as_str w)) kvs))"

definition defaulted :: "'a \<Rightarrow> (json \<Rightarrow> 'a option) \<Rightarrow> json option \<Rightarrow> 'a option" where
  "defaulted d f x = (case x of None \<Rightarrow> Some d | Some v \<Rightarrow> f v)"

definition keystore_of_json :: "json \<Rightarrow> wallet_keystore option" where
  "keystore_of_json v =
     (case struct_fields [''encrypted_mnemonic'', ''master_fingerprint'', ''created_at'', ''version'', ''pbkdf2_params'',
         ''account_xpub'', ''hd_paths''] v of
        Some [e, f, c, r, p, x, h] \<Rightarrow>
          Option.bind (Option.bind e as_str) (\<lambda>encrypted.
          Option.bind (Option.bind f as_str) (\<lambda>fingerprint.
          Option.bind (Option.bind c as_u64) (\<lambda>created_at.
          Option.bind (Option.bind r as_str) (\<lambda>version.
          Option.bind (Option.bind p pbkdf_of_json) (\<lambda>pbkdf2.
          Option.bind (defaulted [] as_str x) (\<lambda>xpub.
          Option.bind (defaulted [] string_map h) (\<lambda>hd_paths.
            Some \<lparr>ks_xpub = xpub, wk_encrypted = encrypted, wk_fingerprint = fingerprint, wk_created_at = created_at,
              wk_version = version, wk_pbkdf2 = pbkdf2, wk_hd_paths = hd_paths\<rparr>)))))))
      | _ \<Rightarrow> None)"

text \<open>
  \<open>mnemonic_of\<close> is \<open>Mnemonic::from_phrase\<close>, which gives the normalised phrase or the text of its error
  (its \<open>Debug\<close> form is \<open>phrase_debug\<close>);
  \<open>master_of\<close>, \<open>derive_priv\<close> and \<open>path_of\<close> fail with converted errors; \<open>hex_of\<close> is \<open>hex::encode\<close>,
  \<open>serde_message\<close> the text of the error for a document that is not a keystore.
\<close>

record ('k, 'x) key_libs =
  mnemonic_of :: "string \<Rightarrow> string + string"
  phrase_debug :: "string \<Rightarrow> string"
  seed_of :: "string \<Rightarrow> byte list"
  master_of :: "network \<Rightarrow> byte list \<Rightarrow> 'k dres"
  path_of :: "string \<Rightarrow> u32 list dres"
  derive_priv :: "'k \<Rightarrow> u32 list \<Rightarrow> 'k dres"
  pub_of :: "'k \<Rightarrow> 'x"
  xpub_text :: "'x \<Rightarrow> string"
  fingerprint_of :: "'k \<Rightarrow> string"
  hex_of :: "byte list \<Rightarrow> string"
  utf8_message :: "byte list \<Rightarrow> string"
  serde_message :: "json \<Rightarrow> string"

record armor_libs =
  al_nom :: nom_lib
  al_message :: "string \<Rightarrow> string"
  al_base64 :: base64_lib
  al_crc24 :: "byte list \<Rightarrow> u64"

record entropy =
  en_salt :: "byte list"
  en_nonce :: "byte list"
  en_secs :: u64
  en_version :: string

text \<open>The path \<open>m/purpose'/0'/0'\<close>.\<close>

definition account_path :: "string \<Rightarrow> string" where
  "account_path purpose = ''m/'' @ purpose @ [CHR 0x27] @ ''/0'' @ [CHR 0x27] @ ''/0'' @ [CHR 0x27]"

definition standard_paths :: "(string \<times> string) list" where
  "standard_paths = tree_of
     [(''p2tr'', account_path ''86''), (''p2wpkh'', account_path ''84''),
      (''p2sh-p2wpkh'', account_path ''49''), (''p2pkh'', account_path ''44'')]"

definition keystore_new ::
  "('k, 'x) key_libs \<Rightarrow> crypto_libs \<Rightarrow> armor_libs \<Rightarrow> entropy \<Rightarrow> string \<Rightarrow> network \<Rightarrow> string \<Rightarrow> string option
   \<Rightarrow> wallet_keystore dres" where
  "keystore_new kl cl al en phrase network passphrase hd_path =
     dbind (encrypt cl (en_salt en) (en_nonce en) (map of_char phrase) passphrase) (\<lambda>(encrypted, salt, nonce).
     dbind (master_of kl network (seed_of kl phrase)) (\<lambda>root.
     dbind (path_of kl (unwrap_or (account_path ''86'') hd_path)) (\<lambda>path.
     dbind (derive_priv kl root path) (\<lambda>account.
       Inr \<lparr>ks_xpub = xpub_text kl (pub_of kl account),
            wk_encrypted = armor_write (al_base64 al) (al_crc24 al) encrypted EncryptedMnemonic None True,
            wk_fingerprint = fingerprint_of kl root,
            wk_created_at = en_secs en, wk_version = en_version en,
            wk_pbkdf2 = \<lparr>pp_salt = hex_of kl salt, pp_nonce = Some (hex_of kl nonce),
              pp_iterations = 600000, pp_algorithm = Some ''aes-256-gcm''\<rparr>,
            wk_hd_paths = standard_paths\<rparr>))))"

fun asc_error_text :: "asc_error \<Rightarrow> string" where
  "asc_error_text (Nom_error e) = ''Nom parser error: '' @ e"
| "asc_error_text (Asc_other e) = e"

text \<open>\<open>String::from_utf8\<close> and the check of the phrase.\<close>

definition checked_phrase :: "('k, 'x) key_libs \<Rightarrow> byte list \<Rightarrow> dfault + string" where
  "checked_phrase kl bs =
     (case from_utf8 (length bs) bs of
        None \<Rightarrow> Inl (Failure (Wallet (''Failed to convert decrypted data to string: '' @ utf8_message kl bs)))
      | Some s \<Rightarrow>
          (case mnemonic_of kl s of
             Inl e \<Rightarrow> Inl (Failure (Wallet (''Decrypted data is not a valid mnemonic: '' @ e)))
           | Inr m \<Rightarrow> Inr s))"

definition decrypt_mnemonic ::
  "'w wallet_libs \<Rightarrow> ('k, 'x) key_libs \<Rightarrow> crypto_libs \<Rightarrow> armor_libs \<Rightarrow> wallet_keystore \<Rightarrow> string \<Rightarrow> dfault + string" where
  "decrypt_mnemonic wl kl cl al ks passphrase =
     (case armor_decode (al_nom al) (al_message al) (al_base64 al) (wk_encrypted ks) of
        Inl e \<Rightarrow> Inl (Failure (Crypto (''Failed to dearmor mnemonic: '' @ asc_error_text e)))
      | Inr (t, hs, encrypted) \<Rightarrow>
          fbind (failing (unhex wl (pp_salt (wk_pbkdf2 ks)))) (\<lambda>salt.
          fbind (failing (case pp_nonce (wk_pbkdf2 ks) of Some n \<Rightarrow> unhex wl n | None \<Rightarrow> Inr [])) (\<lambda>nonce.
          fbind (decrypt cl encrypted passphrase salt nonce) (checked_phrase kl))))"

subsection \<open>Files\<close>

text \<open>A file is the JSON document it holds, or the text of the error that its parser reports.\<close>

record disk =
  dk_files :: "string \<rightharpoonup> string + json"
  dk_read_message :: "string \<Rightarrow> string"
  dk_write_error :: "string \<Rightarrow> string option"

definition from_file :: "('k, 'x) key_libs \<Rightarrow> disk \<Rightarrow> string \<Rightarrow> wallet_keystore dres" where
  "from_file kl d path =
     (case dk_files d path of
        None \<Rightarrow> Inl (Wallet (''Failed to read keystore file: '' @ dk_read_message d path))
      | Some (Inl e) \<Rightarrow> Inl (Wallet (''Failed to parse keystore: '' @ e))
      | Some (Inr v) \<Rightarrow>
          (case keystore_of_json v of
             None \<Rightarrow> Inl (Wallet (''Failed to parse keystore: '' @ serde_message kl v))
           | Some ks \<Rightarrow> Inr ks))"

definition save_to_file :: "disk \<Rightarrow> wallet_keystore \<Rightarrow> string \<Rightarrow> disk dres" where
  "save_to_file d ks path =
     (case dk_write_error d path of
        Some e \<Rightarrow> Inl (Io e)
      | None \<Rightarrow> Inr (d\<lparr>dk_files := (dk_files d)(path \<mapsto> Inr (keystore_json ks))\<rparr>))"

subsection \<open>The states of the wallet\<close>

datatype wallet_state = No_wallet | Locked wallet_keystore | Unlocked wallet_keystore string

record wallet_provider =
  wp_state :: wallet_state
  wp_passphrase :: "string option"
  wp_path :: "string option"

record wallet_info =
  wi_address :: string
  wi_network :: network
  wi_mnemonic :: "string option"

text \<open>The part of \<open>ConcreteProvider::new\<close> that looks for a wallet.\<close>

definition wallet_opened :: "('k, 'x) key_libs \<Rightarrow> disk \<Rightarrow> string option \<Rightarrow> wallet_provider" where
  "wallet_opened kl d path =
     \<lparr>wp_state =
        (case path of
           None \<Rightarrow> No_wallet
         | Some p \<Rightarrow>
             (if dk_files d p = None then No_wallet
              else case from_file kl d p of Inr ks \<Rightarrow> Locked ks | Inl e \<Rightarrow> No_wallet)),
      wp_passphrase = None, wp_path = path\<rparr>"

definition get_keystore :: "wallet_provider \<Rightarrow> wallet_keystore option" where
  "get_keystore wp =
     (case wp_state wp of No_wallet \<Rightarrow> None | Locked ks \<Rightarrow> Some ks | Unlocked ks m \<Rightarrow> Some ks)"

definition get_mnemonic :: "wallet_provider \<Rightarrow> string option" where
  "get_mnemonic wp = (case wp_state wp of Unlocked ks m \<Rightarrow> Some m | _ \<Rightarrow> None)"

definition unlock_wallet ::
  "'w wallet_libs \<Rightarrow> ('k, 'x) key_libs \<Rightarrow> crypto_libs \<Rightarrow> armor_libs \<Rightarrow> wallet_provider \<Rightarrow> string
   \<Rightarrow> (dfault + unit) \<times> wallet_provider" where
  "unlock_wallet wl kl cl al wp passphrase =
     (case wp_state wp of
        Locked ks \<Rightarrow>
          (case decrypt_mnemonic wl kl cl al ks passphrase of
             Inl e \<Rightarrow> (Inl e, wp)
           | Inr m \<Rightarrow> (Inr (), wp\<lparr>wp_state := Unlocked ks m, wp_passphrase := Some passphrase\<rparr>))
      | Unlocked ks m \<Rightarrow> (Inr (), wp)
      | No_wallet \<Rightarrow> (Inl (Failure (Wallet ''Wallet is not in a locked state'')), wp))"

definition primary_address :: "'w wallet_libs \<Rightarrow> wallet_keystore \<Rightarrow> network \<Rightarrow> string dres" where
  "primary_address wl ks network =
     dbind (keystore_addresses wl (keystore.truncate ks) network ''p2tr'' 0 0 1) (\<lambda>addresses.
       Inr (case addresses of a # _ \<Rightarrow> ai_address a | [] \<Rightarrow> []))"

text \<open>\<open>fresh\<close> is the phrase of \<open>Mnemonic::new\<close>.\<close>

definition new_wallet ::
  "('k, 'x) key_libs \<Rightarrow> crypto_libs \<Rightarrow> armor_libs \<Rightarrow> entropy \<Rightarrow> string \<Rightarrow> network \<Rightarrow> string option \<Rightarrow> string option
   \<Rightarrow> (string \<times> wallet_keystore) dres" where
  "new_wallet kl cl al en fresh network mnemonic passphrase =
     dbind (case mnemonic of
              None \<Rightarrow> Inr fresh
            | Some s \<Rightarrow> (case mnemonic_of kl s of Inl e \<Rightarrow> Inl (Wallet (''Invalid mnemonic: '' @ e)) | Inr m \<Rightarrow> Inr m)) (\<lambda>m.
     dbind (keystore_new kl cl al en m network (unwrap_or [] passphrase) None) (\<lambda>ks. Inr (m, ks)))"

definition create_wallet ::
  "'w wallet_libs \<Rightarrow> ('k, 'x) key_libs \<Rightarrow> crypto_libs \<Rightarrow> armor_libs \<Rightarrow> entropy \<Rightarrow> string \<Rightarrow> disk \<Rightarrow> wallet_provider
   \<Rightarrow> network \<Rightarrow> string option \<Rightarrow> string option \<Rightarrow> wallet_info dres \<times> wallet_provider \<times> disk" where
  "create_wallet wl kl cl al en fresh d wp network mnemonic passphrase =
     (case new_wallet kl cl al en fresh network mnemonic passphrase of
        Inl e \<Rightarrow> (Inl e, wp, d)
      | Inr (m, ks) \<Rightarrow>
          (case (case wp_path wp of Some path \<Rightarrow> save_to_file d ks path | None \<Rightarrow> Inr d) of
             Inl e \<Rightarrow> (Inl e, wp, d)
           | Inr d' \<Rightarrow>
               (case primary_address wl ks network of
                  Inl e \<Rightarrow> (Inl e, wp, d')
                | Inr address \<Rightarrow>
                    (Inr \<lparr>wi_address = address, wi_network = network, wi_mnemonic = Some m\<rparr>,
                     wp\<lparr>wp_state := Unlocked ks m, wp_passphrase := passphrase\<rparr>, d'))))"

definition load_wallet ::
  "'w wallet_libs \<Rightarrow> ('k, 'x) key_libs \<Rightarrow> crypto_libs \<Rightarrow> armor_libs \<Rightarrow> disk \<Rightarrow> wallet_provider
   \<Rightarrow> network \<Rightarrow> string \<Rightarrow> string option \<Rightarrow> (dfault + wallet_info) \<times> wallet_provider" where
  "load_wallet wl kl cl al d wp network path passphrase =
     (case fbind (failing (from_file kl d path)) (\<lambda>ks.
           fbind (case passphrase of Some p \<Rightarrow> Inr p
                  | None \<Rightarrow> Inl (Failure (Wallet ''Passphrase required to load wallet''))) (\<lambda>p.
           fbind (decrypt_mnemonic wl kl cl al ks p) (\<lambda>m.
           fbind (failing (primary_address wl ks network)) (\<lambda>address. Inr (ks, m, address))))) of
        Inl e \<Rightarrow> (Inl e, wp)
      | Inr (ks, m, address) \<Rightarrow>
          (Inr \<lparr>wi_address = address, wi_network = network, wi_mnemonic = Some m\<rparr>,
           wp\<lparr>wp_state := Unlocked ks m, wp_passphrase := passphrase\<rparr>))"

subsection \<open>The file of a keystore is read back\<close>

lemma tree_insert_behind: "\<forall>k' \<in> fst ` set t. str_less k' k \<Longrightarrow> tree_insert k v t = t @ [(k, v)]"
  by (induction t) (auto simp: str_less_irrefl dest: str_less_asym)

lemma tree_of_sorted:
  assumes "sorted_wrt str_less (map fst kvs)"
  shows "tree_of kvs = kvs"
proof -
  have "foldl (\<lambda>t (k, v). tree_insert k v t) t kvs = t @ kvs" if "sorted_wrt str_less (map fst (t @ kvs))" for t
    using that
  proof (induction kvs arbitrary: t)
    case (Cons kv kvs)
    then have "tree_insert (fst kv) (snd kv) t = t @ [kv]"
      by (subst tree_insert_behind) (auto simp: sorted_wrt_append)
    then show ?case using Cons.IH [of "t @ [kv]"] Cons.prems by (simp add: case_prod_unfold)
  qed simp
  from this [of "[]"] assms show ?thesis by (simp add: tree_of_def)
qed

lemma standard_paths_sorted: "sorted_wrt str_less (map fst standard_paths)"
  by (simp add: standard_paths_def tree_of_def)

lemma pbkdf_json_read [simp]: "pbkdf_of_json (pbkdf_json p) = Some p"
  by (simp add: pbkdf_of_json_def pbkdf_json_def)

lemma keystore_json_read:
  assumes "sorted_wrt str_less (map fst (wk_hd_paths ks))"
  shows "keystore_of_json (keystore_json ks) = Some ks"
proof -
  have "option_map (\<lambda>(k, w). map_option (Pair k) (as_str w)) (map (\<lambda>(k, v). (k, JStr v)) (wk_hd_paths ks)) = Some (wk_hd_paths ks)"
    by (rule option_map_map) auto
  then have "string_map (JObj (map (\<lambda>(k, v). (k, JStr v)) (wk_hd_paths ks))) = Some (wk_hd_paths ks)"
    by (simp only: string_map_def as_object.simps option.map Option.bind.simps tree_of_sorted [OF assms])
  then show ?thesis
    by (simp add: keystore_of_json_def keystore_json_def defaulted_def)
qed

subsection \<open>A keystore opens with its passphrase\<close>

text \<open>What the libraries promise: the armor's, reading hex back, authenticated decryption, and
  that a normalised phrase is ASCII and stays as it is.\<close>

definition secrets_documented ::
  "'w wallet_libs \<Rightarrow> ('k, 'x) key_libs \<Rightarrow> crypto_libs \<Rightarrow> armor_libs \<Rightarrow> bool" where
  "secrets_documented wl kl cl al \<longleftrightarrow>
     nom_documented (al_nom al) \<and> base64_documented (al_base64 al)
     \<and> (\<forall>bs. unhex wl (hex_of kl bs) = Inr bs)
     \<and> (\<forall>k n d c. seal cl k n d = Inr c \<longrightarrow> unseal cl k n c = Inr d)
     \<and> (\<forall>s m. mnemonic_of kl s = Inr m \<longrightarrow> ascii m \<and> mnemonic_of kl m = Inr m)"

lemma ascii_phrase_read:
  assumes "mnemonic_of kl m = Inr m" "ascii m"
  shows "checked_phrase kl (map of_char m) = Inr m"
  using assms(1) from_utf8_ascii [OF assms(2)] by (simp add: checked_phrase_def)

lemma keystore_parts:
  assumes "keystore_new kl cl al en m network passphrase hd_path = Inr ks"
  obtains encrypted where
    "seal cl (derive_key cl passphrase (en_salt en) pbkdf_iterations) (en_nonce en) (map of_char m) = Inr encrypted"
    "wk_encrypted ks = armor_write (al_base64 al) (al_crc24 al) encrypted EncryptedMnemonic None True"
    "wk_pbkdf2 ks = \<lparr>pp_salt = hex_of kl (en_salt en), pp_nonce = Some (hex_of kl (en_nonce en)),
       pp_iterations = 600000, pp_algorithm = Some ''aes-256-gcm''\<rparr>"
  using assms by (auto simp: keystore_new_def encrypt_def dbind_Inr split: sum.splits)

lemma opened_keystore:
  assumes lib: "secrets_documented wl kl cl al" and nonce: "length (en_nonce en) = 12"
    and new: "keystore_new kl cl al en m network passphrase hd_path = Inr ks"
  obtains encrypted where
    "seal cl (derive_key cl passphrase (en_salt en) pbkdf_iterations) (en_nonce en) (map of_char m) = Inr encrypted"
    "\<And>other. decrypt_mnemonic wl kl cl al ks other
      = (case unseal cl (derive_key cl other (en_salt en) pbkdf_iterations) (en_nonce en) encrypted of
           Inl e \<Rightarrow> Inl (Failure (Crypto e))
         | Inr bs \<Rightarrow> checked_phrase kl bs)"
proof -
  obtain encrypted where ks:
      "seal cl (derive_key cl passphrase (en_salt en) pbkdf_iterations) (en_nonce en) (map of_char m) = Inr encrypted"
      "wk_encrypted ks = armor_write (al_base64 al) (al_crc24 al) encrypted EncryptedMnemonic None True"
      "wk_pbkdf2 ks = \<lparr>pp_salt = hex_of kl (en_salt en), pp_nonce = Some (hex_of kl (en_nonce en)),
         pp_iterations = 600000, pp_algorithm = Some ''aes-256-gcm''\<rparr>"
    using keystore_parts [OF new] by blast
  have "readable_headers EncryptedMnemonic (unwrap_or [] None)" by (simp add: readable_headers_def)
  then have "armor_decode (al_nom al) (al_message al) (al_base64 al) (wk_encrypted ks) = Inr (EncryptedMnemonic, [], encrypted)"
    using lib unfolding ks(2) secrets_documented_def by (subst checksum_read) (simp_all add: headers_read_def)
  then have "decrypt_mnemonic wl kl cl al ks other
      = (case unseal cl (derive_key cl other (en_salt en) pbkdf_iterations) (en_nonce en) encrypted of
           Inl e \<Rightarrow> Inl (Failure (Crypto e))
         | Inr bs \<Rightarrow> checked_phrase kl bs)" for other
    using lib nonce
    by (simp add: decrypt_mnemonic_def decrypt_def ks(3) secrets_documented_def split: sum.split)
  with ks(1) show ?thesis by (rule that)
qed

lemma keystore_opens:
  assumes lib: "secrets_documented wl kl cl al" and nonce: "length (en_nonce en) = 12"
    and m: "mnemonic_of kl m = Inr m" and new: "keystore_new kl cl al en m network passphrase hd_path = Inr ks"
  shows "decrypt_mnemonic wl kl cl al ks passphrase = Inr m"
proof -
  obtain encrypted where
      "seal cl (derive_key cl passphrase (en_salt en) pbkdf_iterations) (en_nonce en) (map of_char m) = Inr encrypted"
      "\<And>other. decrypt_mnemonic wl kl cl al ks other
        = (case unseal cl (derive_key cl other (en_salt en) pbkdf_iterations) (en_nonce en) encrypted of
             Inl e \<Rightarrow> Inl (Failure (Crypto e))
           | Inr bs \<Rightarrow> checked_phrase kl bs)"
    using opened_keystore [OF lib nonce new] by blast
  moreover have "ascii m" using lib m by (simp add: secrets_documented_def)
  ultimately show ?thesis using lib ascii_phrase_read [OF m] by (simp add: secrets_documented_def)
qed

text \<open>A keystore of the old format, which has no nonce, makes the decryption panic.\<close>

theorem old_keystore_aborts:
  assumes "armor_decode (al_nom al) (al_message al) (al_base64 al) (wk_encrypted ks) = Inr (t, hs, encrypted)"
    and "unhex wl (pp_salt (wk_pbkdf2 ks)) = Inr salt" and "pp_nonce (wk_pbkdf2 ks) = None"
  shows "\<exists>p. decrypt_mnemonic wl kl cl al ks passphrase = Inl (Abort p)"
  using assms by (simp add: decrypt_mnemonic_def decrypt_def)

text \<open>The number of iterations and the algorithm that a keystore names are not used.\<close>

lemma iterations_ignored:
  "decrypt_mnemonic wl kl cl al (ks\<lparr>wk_pbkdf2 := (wk_pbkdf2 ks)\<lparr>pp_iterations := n, pp_algorithm := a\<rparr>\<rparr>) passphrase
    = decrypt_mnemonic wl kl cl al ks passphrase"
  by (simp add: decrypt_mnemonic_def split: sum.split prod.split)

subsection \<open>The states in the course of operations\<close>

text \<open>An unlocked wallet has the mnemonic of its keystore, and the passphrase that opens it.\<close>

definition wallet_consistent ::
  "'w wallet_libs \<Rightarrow> ('k, 'x) key_libs \<Rightarrow> crypto_libs \<Rightarrow> armor_libs \<Rightarrow> wallet_provider \<Rightarrow> bool" where
  "wallet_consistent wl kl cl al wp \<longleftrightarrow>
     (case wp_state wp of
        Unlocked ks m \<Rightarrow> decrypt_mnemonic wl kl cl al ks (unwrap_or [] (wp_passphrase wp)) = Inr m
      | _ \<Rightarrow> True)"

inductive wallet_step ::
  "'w wallet_libs \<Rightarrow> ('k, 'x) key_libs \<Rightarrow> crypto_libs \<Rightarrow> armor_libs \<Rightarrow> wallet_provider \<times> disk \<Rightarrow> wallet_provider \<times> disk \<Rightarrow> bool"
  for wl kl cl al where
  created: "create_wallet wl kl cl al en fresh d wp network mnemonic passphrase = (r, wp', d') \<Longrightarrow>
     length (en_nonce en) = 12 \<Longrightarrow> mnemonic_of kl fresh = Inr fresh \<Longrightarrow>
     wallet_step wl kl cl al (wp, d) (wp', d')"
| loaded: "load_wallet wl kl cl al d wp network path passphrase = (r, wp') \<Longrightarrow> wallet_step wl kl cl al (wp, d) (wp', d)"
| unlocked: "unlock_wallet wl kl cl al wp passphrase = (r, wp') \<Longrightarrow> wallet_step wl kl cl al (wp, d) (wp', d)"
| other_program: "wallet_step wl kl cl al (wp, d) (wp, d')"

lemma new_wallet_phrase:
  assumes "new_wallet kl cl al en fresh network mnemonic passphrase = Inr (m, ks)"
    and "secrets_documented wl kl cl al" "mnemonic_of kl fresh = Inr fresh"
  shows "mnemonic_of kl m = Inr m" "keystore_new kl cl al en m network (unwrap_or [] passphrase) None = Inr ks"
proof -
  show "keystore_new kl cl al en m network (unwrap_or [] passphrase) None = Inr ks"
    using assms(1) by (auto simp: new_wallet_def dbind_Inr)
  have "mnemonic_of kl s = Inr m \<Longrightarrow> mnemonic_of kl m = Inr m" for s
    using assms(2) by (simp add: secrets_documented_def)
  then show "mnemonic_of kl m = Inr m"
    using assms(1,3) by (auto simp: new_wallet_def dbind_Inr split: option.splits sum.splits)
qed

lemma create_wallet_cases:
  assumes "create_wallet wl kl cl al en fresh d wp network mnemonic passphrase = (r, wp', d')"
  obtains "wp' = wp" "\<exists>e. r = Inl e"
  | m ks address where
    "new_wallet kl cl al en fresh network mnemonic passphrase = Inr (m, ks)"
    "(case wp_path wp of Some path \<Rightarrow> save_to_file d ks path | None \<Rightarrow> Inr d) = Inr d'"
    "r = Inr \<lparr>wi_address = address, wi_network = network, wi_mnemonic = Some m\<rparr>"
    "wp' = wp\<lparr>wp_state := Unlocked ks m, wp_passphrase := passphrase\<rparr>"
proof (cases "new_wallet kl cl al en fresh network mnemonic passphrase")
  case (Inl e)
  then have "r = Inl e" "wp' = wp" using assms by (simp_all add: create_wallet_def)
  then show ?thesis using that(1) by blast
next
  case (Inr mk)
  obtain m ks where new: "new_wallet kl cl al en fresh network mnemonic passphrase = Inr (m, ks)"
    using Inr by (cases mk) simp
  let ?saved = "case wp_path wp of Some path \<Rightarrow> save_to_file d ks path | None \<Rightarrow> Inr d"
  show ?thesis
  proof (cases ?saved)
    case (Inl e)
    then have "r = Inl e" "wp' = wp" using assms new by (simp_all add: create_wallet_def)
    then show ?thesis using that(1) by blast
  next
    case saved: (Inr d2)
    show ?thesis
    proof (cases "primary_address wl ks network")
      case (Inl e)
      then have "r = Inl e" "wp' = wp" using assms new saved by (simp_all add: create_wallet_def)
      then show ?thesis using that(1) by blast
    next
      case (Inr address)
      then have "r = Inr \<lparr>wi_address = address, wi_network = network, wi_mnemonic = Some m\<rparr>"
        "wp' = wp\<lparr>wp_state := Unlocked ks m, wp_passphrase := passphrase\<rparr>" "d2 = d'"
        using assms new saved by (simp_all add: create_wallet_def)
      then show ?thesis using that(2) [OF new] saved by blast
    qed
  qed
qed

lemma wallet_step_consistent:
  assumes "wallet_step wl kl cl al s s'" "secrets_documented wl kl cl al" "wallet_consistent wl kl cl al (fst s)"
  shows "wallet_consistent wl kl cl al (fst s')"
  using assms(1,3)
proof (induction rule: wallet_step.induct)
  case (created en fresh d wp network mnemonic passphrase r wp' d')
  from created(1) show ?case
  proof (cases rule: create_wallet_cases)
    case (2 m ks address)
    note phrase = new_wallet_phrase [OF 2(1) assms(2) created(3)]
    from keystore_opens [OF assms(2) created(2) phrase] show ?thesis
      by (simp add: wallet_consistent_def 2(4))
  qed (use created(4) in simp)
next
  case (loaded d wp network path passphrase r wp')
  then show ?case
    by (auto simp: load_wallet_def wallet_consistent_def fbind_Inr split: sum.splits option.splits)
next
  case (unlocked wp passphrase r wp' d)
  then show ?case
    by (auto simp: unlock_wallet_def wallet_consistent_def split: sum.splits wallet_state.splits)
qed simp

text \<open>
  C37: A wallet that was created opens again: from the file that was written the wallet is locked and
  shows the same keystore, it unlocks with the passphrase it was created with (the empty one when
  there was none) and then has the same mnemonic.  With any other passphrase it unlocks exactly if the
  cipher accepts the key derived from it for the file's content and what comes out is the text of a
  valid mnemonic, which the wallet then has; otherwise it reports that error and stays as it was.
\<close>

theorem wallet_reopened:
  assumes lib: "secrets_documented wl kl cl al" and nonce: "length (en_nonce en) = 12" and fresh: "mnemonic_of kl fresh = Inr fresh"
    and create: "create_wallet wl kl cl al en fresh d wp network mnemonic passphrase = (Inr info, wp', d')"
    and path: "wp_path wp = Some path"
  shows "\<exists>ks m encrypted. wp_state wp' = Unlocked ks m \<and> wi_mnemonic info = Some m
    \<and> wp_state (wallet_opened kl d' (Some path)) = Locked ks
    \<and> unlock_wallet wl kl cl al (wallet_opened kl d' (Some path)) (unwrap_or [] passphrase)
        = (Inr (), \<lparr>wp_state = Unlocked ks m, wp_passphrase = Some (unwrap_or [] passphrase), wp_path = Some path\<rparr>)
    \<and> seal cl (derive_key cl (unwrap_or [] passphrase) (en_salt en) pbkdf_iterations) (en_nonce en) (map of_char m) = Inr encrypted
    \<and> (\<forall>other. unlock_wallet wl kl cl al (wallet_opened kl d' (Some path)) other
        = (case unseal cl (derive_key cl other (en_salt en) pbkdf_iterations) (en_nonce en) encrypted of
             Inl e \<Rightarrow> (Inl (Failure (Crypto e)), wallet_opened kl d' (Some path))
           | Inr bs \<Rightarrow> (case checked_phrase kl bs of
               Inl e \<Rightarrow> (Inl e, wallet_opened kl d' (Some path))
             | Inr m' \<Rightarrow> (Inr (), \<lparr>wp_state = Unlocked ks m', wp_passphrase = Some other, wp_path = Some path\<rparr>))))"
  using create
proof (cases rule: create_wallet_cases)
  case (2 m ks address)
  note phrase = new_wallet_phrase [OF 2(1) lib fresh]
  have "wk_hd_paths ks = standard_paths" using phrase(2) by (auto simp: keystore_new_def dbind_Inr)
  then have read: "keystore_of_json (keystore_json ks) = Some ks"
    by (intro keystore_json_read) (simp add: standard_paths_sorted)
  have "save_to_file d ks path = Inr d'" using 2(2) path by simp
  then have "dk_files d' path = Some (Inr (keystore_json ks))"
    by (auto simp: save_to_file_def split: option.splits)
  then have opened: "wallet_opened kl d' (Some path) = \<lparr>wp_state = Locked ks, wp_passphrase = None, wp_path = Some path\<rparr>"
    by (simp add: wallet_opened_def from_file_def read)
  obtain encrypted where encrypted:
      "seal cl (derive_key cl (unwrap_or [] passphrase) (en_salt en) pbkdf_iterations) (en_nonce en) (map of_char m) = Inr encrypted"
      "\<And>other. decrypt_mnemonic wl kl cl al ks other
        = (case unseal cl (derive_key cl other (en_salt en) pbkdf_iterations) (en_nonce en) encrypted of
             Inl e \<Rightarrow> Inl (Failure (Crypto e))
           | Inr bs \<Rightarrow> checked_phrase kl bs)"
    using opened_keystore [OF lib nonce phrase(2)] by blast
  have "decrypt_mnemonic wl kl cl al ks (unwrap_or [] passphrase) = Inr m"
    by (rule keystore_opens [OF lib nonce phrase])
  then show ?thesis using 2(3,4) encrypted(1)
    by (intro exI [of _ ks] exI [of _ m] exI [of _ encrypted])
      (auto simp: opened unlock_wallet_def encrypted(2) split: sum.splits)
qed simp

text \<open>
  C38: Whatever is created, loaded and unlocked in whatever order, also with files that other programs
  write in between, an unlocked wallet has the mnemonic that its keystore decrypts to with the
  passphrase it remembers.
\<close>

theorem wallet_always_consistent:
  assumes "(wallet_step wl kl cl al)\<^sup>*\<^sup>* (wallet_opened kl d path, d) (wp, d')" "secrets_documented wl kl cl al"
  shows "wallet_consistent wl kl cl al wp"
proof -
  have "wallet_consistent wl kl cl al (wallet_opened kl d path)"
    by (simp add: wallet_consistent_def wallet_opened_def split: option.splits sum.splits)
  with assms(1) have "wallet_consistent wl kl cl al (fst (wp, d'))"
    using wallet_step_consistent [OF _ assms(2)] by (induction "(wp, d')" arbitrary: wp d' rule: rtranclp_induct) auto
  then show ?thesis by simp
qed

subsection \<open>Libraries with the documented behaviour\<close>

text \<open>A cipher that puts nonce and key before the data, and keys that are seed and path; a public key is the private one.\<close>

definition example_crypto :: crypto_libs where
  "example_crypto =
     \<lparr>derive_key = (\<lambda>p salt n. map of_char p @ salt),
      seal = (\<lambda>k n d. Inr (n @ k @ d)),
      unseal = (\<lambda>k n c. if prefix (n @ k) c then Inr (drop (length (n @ k)) c) else Inl ''aead::Error'')\<rparr>"

definition example_keys :: "(byte list, byte list) key_libs" where
  "example_keys =
     \<lparr>mnemonic_of = (\<lambda>s. if s \<noteq> [] \<and> ascii s then Inr s else Inl ''invalid phrase''),
      phrase_debug = (\<lambda>s. ''InvalidPhrase''),
      seed_of = map of_char,
      master_of = (\<lambda>n seed. Inr seed),
      path_of = (\<lambda>s. Inr (map of_char s)),
      derive_priv = (\<lambda>k p. Inr (k @ map ucast p)),
      pub_of = id,
      xpub_text = hex_text,
      fingerprint_of = (\<lambda>k. hex_text (take 4 k)),
      hex_of = hex_text,
      utf8_message = (\<lambda>bs. ''invalid utf-8''),
      serde_message = (\<lambda>v. ''missing field'')\<rparr>"

definition example_armor :: armor_libs where
  "example_armor = \<lparr>al_nom = example_nom, al_message = id, al_base64 = example_base64, al_crc24 = (\<lambda>bs. 0)\<rparr>"

definition unhex_text :: "string \<Rightarrow> byte list dres" where
  "unhex_text s = (case hex_bytes s of Some bs \<Rightarrow> Inr bs | None \<Rightarrow> Inl (Hex ''InvalidHexCharacter''))"

definition example_wallet :: "byte list wallet_libs" where
  "example_wallet =
     \<lparr>xpub_of = unhex_text, p2tr_of = (\<lambda>x n p. Inr (hex_text (x @ map ucast (map of_char (''/'' @ p) :: u32 list)))),
      script_of = (\<lambda>n s. unhex_text s),
      outpoint_of = (\<lambda>s. Inr (s, 0)), txid_of = Inr, unhex = unhex_text, serialize_hex = (\<lambda>t. [])\<rparr>"

lemma unhex_text_hex [simp]: "unhex_text (hex_text bs) = Inr bs"
  by (simp add: unhex_text_def)

lemma example_secrets_documented: "secrets_documented example_wallet example_keys example_crypto example_armor"
  by (simp add: secrets_documented_def example_armor_def example_nom_documented example_base64_documented
      example_wallet_def example_keys_def example_crypto_def)

definition example_entropy :: entropy where
  "example_entropy = \<lparr>en_salt = replicate 16 1, en_nonce = replicate 12 2, en_secs = 0, en_version = ''0.1.0''\<rparr>"

definition example_disk :: disk where
  "example_disk = \<lparr>dk_files = Map.empty, dk_read_message = (\<lambda>p. ''No such file''), dk_write_error = (\<lambda>p. None)\<rparr>"

lemma example_xpub:
  assumes "keystore_new example_keys cl al en m network passphrase hd_path = Inr ks"
  obtains x where "ks_xpub ks = hex_text x"
  using assms by (auto simp: keystore_new_def dbind_Inr example_keys_def simp del: hex_text_append)

lemma example_created:
  "\<exists>info ks d'. create_wallet example_wallet example_keys example_crypto example_armor example_entropy ''about'' example_disk
      (wallet_opened example_keys example_disk (Some ''w.json'')) Regtest None (Some ''pass'')
      = (Inr info, \<lparr>wp_state = Unlocked ks ''about'', wp_passphrase = Some ''pass'', wp_path = Some ''w.json''\<rparr>, d')"
proof -
  obtain ks where ks: "keystore_new example_keys example_crypto example_armor example_entropy ''about'' Regtest ''pass'' None = Inr ks"
    by (simp add: keystore_new_def encrypt_def example_crypto_def example_keys_def)
  then obtain x where x: "ks_xpub ks = hex_text x" by (rule example_xpub)
  from ks have new: "new_wallet example_keys example_crypto example_armor example_entropy ''about'' Regtest None (Some ''pass'') = Inr (''about'', ks)"
    by (simp add: new_wallet_def)
  obtain d' where save: "save_to_file example_disk ks ''w.json'' = Inr d'"
    by (simp add: save_to_file_def example_disk_def)
  obtain a where a: "primary_address example_wallet ks Regtest = Inr a"
    by (simp add: primary_address_def keystore_addresses_def example_wallet_def keystore.truncate_def x)
  have "wallet_opened example_keys example_disk (Some ''w.json'')
      = \<lparr>wp_state = No_wallet, wp_passphrase = None, wp_path = Some ''w.json''\<rparr>"
    by (simp add: wallet_opened_def example_disk_def)
  then show ?thesis by (simp add: create_wallet_def new save a)
qed

lemma example_nonce: "length (en_nonce example_entropy) = 12"
  by (simp add: example_entropy_def)

lemma example_phrase: "mnemonic_of example_keys ''about'' = Inr ''about''"
  by (simp add: example_keys_def ascii_def)

lemma wallet_reopened_witness:
  "\<exists>info wp' d' ks. create_wallet example_wallet example_keys example_crypto example_armor example_entropy ''about'' example_disk
      (wallet_opened example_keys example_disk (Some ''w.json'')) Regtest None (Some ''pass'') = (Inr info, wp', d')
    \<and> wp_state wp' = Unlocked ks ''about''
    \<and> unlock_wallet example_wallet example_keys example_crypto example_armor
        (wallet_opened example_keys d' (Some ''w.json'')) ''pass''
      = (Inr (), \<lparr>wp_state = Unlocked ks ''about'', wp_passphrase = Some ''pass'', wp_path = Some ''w.json''\<rparr>)"
proof -
  obtain info ks d' where create: "create_wallet example_wallet example_keys example_crypto example_armor example_entropy ''about'' example_disk
      (wallet_opened example_keys example_disk (Some ''w.json'')) Regtest None (Some ''pass'')
      = (Inr info, \<lparr>wp_state = Unlocked ks ''about'', wp_passphrase = Some ''pass'', wp_path = Some ''w.json''\<rparr>, d')"
    using example_created by blast
  have "wp_path (wallet_opened example_keys example_disk (Some ''w.json'')) = Some ''w.json''" by (simp add: wallet_opened_def)
  from wallet_reopened [OF example_secrets_documented example_nonce example_phrase create this]
  have "unlock_wallet example_wallet example_keys example_crypto example_armor
        (wallet_opened example_keys d' (Some ''w.json'')) ''pass''
      = (Inr (), \<lparr>wp_state = Unlocked ks ''about'', wp_passphrase = Some ''pass'', wp_path = Some ''w.json''\<rparr>)"
    by auto
  with create show ?thesis by (intro exI conjI) (assumption, simp_all)
qed

lemma wallet_always_consistent_witness:
  "\<exists>ks d'. (wallet_step example_wallet example_keys example_crypto example_armor)\<^sup>*\<^sup>*
      (wallet_opened example_keys example_disk (Some ''w.json''), example_disk)
      (\<lparr>wp_state = Unlocked ks ''about'', wp_passphrase = Some ''pass'', wp_path = Some ''w.json''\<rparr>, d')
    \<and> decrypt_mnemonic example_wallet example_keys example_crypto example_armor ks ''pass'' = Inr ''about''"
proof -
  obtain info ks d' where create: "create_wallet example_wallet example_keys example_crypto example_armor example_entropy ''about'' example_disk
      (wallet_opened example_keys example_disk (Some ''w.json'')) Regtest None (Some ''pass'')
      = (Inr info, \<lparr>wp_state = Unlocked ks ''about'', wp_passphrase = Some ''pass'', wp_path = Some ''w.json''\<rparr>, d')"
    using example_created by blast
  have run: "(wallet_step example_wallet example_keys example_crypto example_armor)\<^sup>*\<^sup>*
      (wallet_opened example_keys example_disk (Some ''w.json''), example_disk)
      (\<lparr>wp_state = Unlocked ks ''about'', wp_passphrase = Some ''pass'', wp_path = Some ''w.json''\<rparr>, d')"
    using wallet_step.created [OF create example_nonce example_phrase] by (rule r_into_rtranclp)
  from wallet_always_consistent [OF run example_secrets_documented] show ?thesis
    using run by (auto simp: wallet_consistent_def)
qed

end
