(* ===== verification/Signing.thy ===== *)
theory Signing
  imports Keystore
begin

text \<open>
  Signing with the unlocked wallet (\<open>provider.rs\<close>): the search for the path of an address, the
  signatures of a transaction and of a PSBT, and the keys of the commit and reveal transactions.
  Serialisation, script addresses, signature hashes and Schnorr signatures are parameters; \<open>rng i\<close> is
  the randomness of the signature of input \<open>i\<close>.
\<close>

subsection \<open>Transactions with witnesses\<close>

record raw_input =
  ri_outpoint :: outpoint
  ri_script_sig :: script
  ri_sequence :: u32
  ri_witness :: "byte list list"

record raw_tx =
  rt_version :: i32
  rt_lock_time :: u32
  rt_inputs :: "raw_input list"
  rt_outputs :: "tx_out list"

definition set_witness :: "nat \<Rightarrow> byte list list \<Rightarrow> raw_tx \<Rightarrow> raw_tx" where
  "set_witness i w tx = tx\<lparr>rt_inputs := (rt_inputs tx)[i := (rt_inputs tx ! i)\<lparr>ri_witness := w\<rparr>]\<rparr>"

text \<open>A leaf is a script with its version; an origin has the fingerprint and the path of a key.\<close>

type_synonym tap_leaf = "script \<times> byte"

record psbt_input =
  pi_tap_scripts :: "(byte list \<times> tap_leaf) list"
  pi_key_origins :: "(string \<times> string \<times> u32 list) list"
  pi_key_sig :: "byte list option"
  pi_final_witness :: "byte list list option"

record psbt_doc =
  pd_tx :: raw_tx
  pd_inputs :: "psbt_input list"

text \<open>
  \<open>sl_address\<close> is \<open>Address::from_script\<close> with the text of its error, \<open>sl_p2tr\<close> the address of a key,
  \<open>sl_internal\<close> its x-only public key, \<open>sl_sign_tweaked\<close> a signature with the key tweaked without a
  script tree, \<open>sl_sign_plain\<close> one with the key itself.
\<close>

record 'k sign_libs =
  sl_deserialize :: "byte list \<Rightarrow> raw_tx dres"
  sl_serialize :: "raw_tx \<Rightarrow> string"
  sl_extract :: "psbt_doc \<Rightarrow> string + raw_tx"
  sl_address :: "network \<Rightarrow> script \<Rightarrow> string + string"
  sl_xpub_message :: "string \<Rightarrow> string"
  sl_fingerprint :: "string \<Rightarrow> string dres"
  sl_key_sighash :: "raw_tx \<Rightarrow> nat \<Rightarrow> tx_out list \<Rightarrow> byte list dres"
  sl_script_sighash :: "raw_tx \<Rightarrow> nat \<Rightarrow> tx_out list \<Rightarrow> tap_leaf \<Rightarrow> byte list dres"
  sl_sign_tweaked :: "'k \<Rightarrow> byte list \<Rightarrow> nat \<Rightarrow> byte list"
  sl_sign_plain :: "'k \<Rightarrow> byte list \<Rightarrow> nat \<Rightarrow> byte list"
  sl_p2tr :: "network \<Rightarrow> 'k \<Rightarrow> string"
  sl_internal :: "'k \<Rightarrow> string"

subsection \<open>The path of an address\<close>

record found_address =
  fa_path :: string
  fa_address :: string
  fa_type :: string

definition candidate_paths :: "string list" where
  "candidate_paths =
     concat (map (\<lambda>branch. map (\<lambda>i. dec_string branch @ ''/'' @ dec_string i) [0..<101]) [0..<2])"

fun search_path ::
  "'x wallet_libs \<Rightarrow> 'x \<Rightarrow> network \<Rightarrow> string \<Rightarrow> string list \<Rightarrow> string dres" where
  "search_path wl xpub network address [] =
     Inl (Wallet (''Address '' @ address @ '' not found in keystore and could not be derived within the gap limit''))"
| "search_path wl xpub network address (p # ps) =
     dbind (p2tr_of wl xpub network p) (\<lambda>derived.
       if derived = address then Inr p else search_path wl xpub network address ps)"

definition base_path :: "wallet_keystore \<Rightarrow> string" where
  "base_path ks =
     (let base = unwrap_or (account_path ''86'') (map_of (wk_hd_paths ks) ''p2tr'')
      in if suffix ''/'' base then butlast base else base)"

definition find_address_info ::
  "'x wallet_libs \<Rightarrow> 'k sign_libs \<Rightarrow> wallet_keystore \<Rightarrow> string \<Rightarrow> network \<Rightarrow> found_address dres" where
  "find_address_info wl sl ks address network =
     (case xpub_of wl (ks_xpub ks) of
        Inl e \<Rightarrow> Inl (Wallet (''Invalid account xpub in keystore: '' @ sl_xpub_message sl (ks_xpub ks)))
      | Inr xpub \<Rightarrow>
          dbind (search_path wl xpub network address candidate_paths) (\<lambda>p.
            Inr \<lparr>fa_path = base_path ks @ ''/'' @ p, fa_address = address, fa_type = ''p2tr''\<rparr>))"

subsection \<open>Keys\<close>

definition root_key :: "('k, 'x) key_libs \<Rightarrow> network \<Rightarrow> string \<Rightarrow> 'k dres" where
  "root_key kl network mnemonic =
     (case mnemonic_of kl mnemonic of
        Inl e \<Rightarrow> Inl (Wallet (''BIP39 error: '' @ phrase_debug kl mnemonic))
      | Inr m \<Rightarrow> master_of kl network (seed_of kl m))"

text \<open>The key that signs for an output.\<close>

definition signing_key ::
  "'x wallet_libs \<Rightarrow> ('k, 'x) key_libs \<Rightarrow> 'k sign_libs \<Rightarrow> wallet_keystore \<Rightarrow> string \<Rightarrow> network \<Rightarrow> tx_out \<Rightarrow> 'k dres" where
  "signing_key wl kl sl ks mnemonic network prevout =
     (case sl_address sl network (to_script_pubkey prevout) of
        Inl e \<Rightarrow> Inl (Wallet (''Failed to parse address from script: '' @ e))
      | Inr address \<Rightarrow>
          dbind (find_address_info wl sl ks address network) (\<lambda>info.
          dbind (path_of kl (fa_path info)) (\<lambda>path.
          dbind (root_key kl network mnemonic) (\<lambda>root. derive_priv kl root path))))"

definition get_internal_key ::
  "('k, 'x) key_libs \<Rightarrow> 'k sign_libs \<Rightarrow> concrete_provider \<Rightarrow> wallet_provider \<Rightarrow> (string \<times> string \<times> u32 list) dres" where
  "get_internal_key kl sl p wp =
     (case wp_state wp of
        Unlocked ks m \<Rightarrow>
          dbind (root_key kl (get_network p) m) (\<lambda>root.
          dbind (path_of kl (''m/86'' @ [CHR 0x27] @ ''/1'' @ [CHR 0x27] @ ''/0'' @ [CHR 0x27])) (\<lambda>path.
          dbind (derive_priv kl root path) (\<lambda>key.
          dbind (sl_fingerprint sl (wk_fingerprint ks)) (\<lambda>fingerprint.
            Inr (sl_internal sl key, fingerprint, path)))))
      | _ \<Rightarrow> Inl (Wallet ''Wallet must be unlocked to get internal key''))"

definition get_keypair :: "('k, 'x) key_libs \<Rightarrow> concrete_provider \<Rightarrow> wallet_provider \<Rightarrow> 'k dres" where
  "get_keypair kl p wp =
     (case get_mnemonic wp of
        None \<Rightarrow> Inl (Wallet ''Wallet must be unlocked to get keypair'')
      | Some m \<Rightarrow> root_key kl (get_network p) m)"

definition sign_taproot_script_spend ::
  "('k, 'x) key_libs \<Rightarrow> 'k sign_libs \<Rightarrow> concrete_provider \<Rightarrow> wallet_provider \<Rightarrow> nat \<Rightarrow> byte list \<Rightarrow> byte list dres" where
  "sign_taproot_script_spend kl sl p wp r sighash =
     dbind (get_keypair kl p wp) (\<lambda>key. Inr (sl_sign_plain sl key sighash r))"

subsection \<open>Signing a transaction\<close>

text \<open>The lookup of an output is the code of \<open>get_utxo\<close>, which always finds one or fails.\<close>

definition prevout_of :: "'x wallet_libs \<Rightarrow> backend \<Rightarrow> concrete_provider \<Rightarrow> raw_input \<Rightarrow> tx_out dact" where
  "prevout_of wl b p input =
     dact_bind (get_utxo wl b p (ri_outpoint input)) (\<lambda>u.
       case u of
         Some out \<Rightarrow> dact_return out
       | None \<Rightarrow> dact_fault (Failure (Wallet (''UTXO not found: '' @ fst (ri_outpoint input) @ '':'' @ to_string (snd (ri_outpoint input))))))"

fun sign_inputs ::
  "(tx_out \<Rightarrow> 'k dres) \<Rightarrow> 'k sign_libs \<Rightarrow> (nat \<Rightarrow> nat) \<Rightarrow> tx_out list \<Rightarrow> nat list \<Rightarrow> raw_tx \<Rightarrow> raw_tx dres" where
  "sign_inputs key_for sl rng prevouts [] tx = Inr tx"
| "sign_inputs key_for sl rng prevouts (i # is) tx =
     dbind (key_for (prevouts ! i)) (\<lambda>key.
     dbind (sl_key_sighash sl tx i prevouts) (\<lambda>sighash.
       sign_inputs key_for sl rng prevouts is (set_witness i [sl_sign_tweaked sl key sighash (rng i)] tx)))"

definition must_unlock :: "deezel_error" where
  "must_unlock = Wallet ''Wallet must be unlocked to sign transactions''"

definition sign_transaction ::
  "'x wallet_libs \<Rightarrow> ('k, 'x) key_libs \<Rightarrow> 'k sign_libs \<Rightarrow> backend \<Rightarrow> concrete_provider \<Rightarrow> wallet_provider \<Rightarrow> (nat \<Rightarrow> nat)
   \<Rightarrow> string \<Rightarrow> string dact" where
  "sign_transaction wl kl sl b p wp rng tx_hex =
     dact_bind (dact_lift (dbind (unhex wl tx_hex) (sl_deserialize sl))) (\<lambda>tx.
     dact_bind (dact_map (prevout_of wl b p) (rt_inputs tx)) (\<lambda>prevouts.
       dact_lift
         (case wp_state wp of
            Unlocked ks m \<Rightarrow>
              dbind (sign_inputs (signing_key wl kl sl ks m (get_network p)) sl rng prevouts [0..<length prevouts] tx) (\<lambda>signed.
                Inr (sl_serialize sl signed))
          | _ \<Rightarrow> Inl must_unlock)))"

text \<open>\<open>send\<close>: build, sign and broadcast.\<close>

definition wallet_send ::
  "'x wallet_libs \<Rightarrow> ('k, 'x) key_libs \<Rightarrow> 'k sign_libs \<Rightarrow> (json \<Rightarrow> string) \<Rightarrow> backend \<Rightarrow> concrete_provider \<Rightarrow> wallet_provider \<Rightarrow>
   (nat \<Rightarrow> nat) \<Rightarrow> send_params \<Rightarrow> string dact" where
  "wallet_send wl kl sl show_debug b p wp rng params =
     dact_bind (create_transaction wl b p (map_option keystore.truncate (get_keystore wp)) params) (\<lambda>tx_hex.
     dact_bind (sign_transaction wl kl sl b p wp rng tx_hex) (\<lambda>signed.
       request (\<lambda>n. send_raw_transaction show_debug b p n signed)))"

subsection \<open>Signing a PSBT\<close>

text \<open>The script-path spend of an input with tap scripts: its first leaf and its first origin.\<close>

definition script_witness ::
  "('k, 'x) key_libs \<Rightarrow> 'k sign_libs \<Rightarrow> wallet_keystore \<Rightarrow> string \<Rightarrow> network \<Rightarrow> (nat \<Rightarrow> nat) \<Rightarrow> raw_tx \<Rightarrow> tx_out list \<Rightarrow> nat
   \<Rightarrow> byte list \<times> tap_leaf \<Rightarrow> psbt_input \<Rightarrow> byte list list dres" where
  "script_witness kl sl ks m network rng tx prevouts i entry input =
     (case entry of (control_block, leaf) \<Rightarrow>
        dbind (sl_script_sighash sl tx i prevouts leaf) (\<lambda>sighash.
          case pi_key_origins input of
            [] \<Rightarrow> Inl (Wallet ''tap_key_origins is empty for script spend'')
          | (internal_pk, fingerprint, path) # _ \<Rightarrow>
              dbind (sl_fingerprint sl (wk_fingerprint ks)) (\<lambda>own.
                if fingerprint \<noteq> own then Inl (Wallet ''Master fingerprint mismatch in tap_key_origins'')
                else
                  dbind (root_key kl network m) (\<lambda>root.
                  dbind (derive_priv kl root path) (\<lambda>key.
                    if sl_internal sl key \<noteq> internal_pk
                    then Inl (Wallet ''Derived key does not match internal public key in PSBT'')
                    else Inr [sl_sign_plain sl key sighash (rng i), fst leaf, control_block])))))"

definition sign_psbt_input ::
  "'x wallet_libs \<Rightarrow> ('k, 'x) key_libs \<Rightarrow> 'k sign_libs \<Rightarrow> wallet_keystore \<Rightarrow> string \<Rightarrow> network \<Rightarrow> (nat \<Rightarrow> nat) \<Rightarrow> raw_tx \<Rightarrow> tx_out list
   \<Rightarrow> nat \<Rightarrow> psbt_input \<Rightarrow> psbt_input dres" where
  "sign_psbt_input wl kl sl ks m network rng tx prevouts i input =
     (case pi_tap_scripts input of
        entry # _ \<Rightarrow>
          dbind (script_witness kl sl ks m network rng tx prevouts i entry input) (\<lambda>w.
            Inr (input\<lparr>pi_final_witness := Some w\<rparr>))
      | [] \<Rightarrow>
          dbind (signing_key wl kl sl ks m network (prevouts ! i)) (\<lambda>key.
          dbind (sl_key_sighash sl tx i prevouts) (\<lambda>sighash.
            Inr (input\<lparr>pi_key_sig := Some (sl_sign_tweaked sl key sighash (rng i))\<rparr>))))"

text \<open>An input of the PSBT without one of the transaction indexes out of bounds.\<close>

fun sign_psbt_inputs ::
  "(nat \<Rightarrow> psbt_input \<Rightarrow> psbt_input dres) \<Rightarrow> tx_out list \<Rightarrow> nat \<Rightarrow> psbt_input list \<Rightarrow> dfault + psbt_input list" where
  "sign_psbt_inputs f prevouts i [] = Inr []"
| "sign_psbt_inputs f prevouts i (input # inputs) =
     (if length prevouts \<le> i then Inl (Abort ''index out of bounds'')
      else fbind (failing (f i input)) (\<lambda>signed.
           fbind (sign_psbt_inputs f prevouts (Suc i) inputs) (\<lambda>rest. Inr (signed # rest))))"

definition sign_psbt ::
  "'x wallet_libs \<Rightarrow> ('k, 'x) key_libs \<Rightarrow> 'k sign_libs \<Rightarrow> backend \<Rightarrow> concrete_provider \<Rightarrow> wallet_provider \<Rightarrow> (nat \<Rightarrow> nat)
   \<Rightarrow> psbt_doc \<Rightarrow> psbt_doc dact" where
  "sign_psbt wl kl sl b p wp rng psbt =
     dact_bind (dact_lift (case sl_extract sl psbt of Inl e \<Rightarrow> Inl (Other e) | Inr tx \<Rightarrow> Inr tx)) (\<lambda>tx.
     dact_bind (dact_map (prevout_of wl b p) (rt_inputs tx)) (\<lambda>prevouts n.
       (case wp_state wp of
          Unlocked ks m \<Rightarrow>
            fbind (sign_psbt_inputs (sign_psbt_input wl kl sl ks m (get_network p) rng tx prevouts) prevouts 0 (pd_inputs psbt))
              (\<lambda>inputs. Inr (psbt\<lparr>pd_inputs := inputs\<rparr>))
        | _ \<Rightarrow> Inl (Failure must_unlock), n)))"

subsection \<open>Whose keys sign\<close>

text \<open>
  BIP-32: for a path of the account and a path below it without hardened steps, deriving the public
  key and deriving the private key give the same address.  The hash of a signature does not depend on
  the witnesses.
\<close>

definition bip32_documented ::
  "'x wallet_libs \<Rightarrow> ('k, 'x) key_libs \<Rightarrow> 'k sign_libs \<Rightarrow> bool" where
  "bip32_documented wl kl sl \<longleftrightarrow>
     (\<forall>x. xpub_of wl (xpub_text kl x) = Inr x) \<and>
     (\<forall>root base path account rel path' key network a.
        path_of kl base = Inr path \<and> derive_priv kl root path = Inr account \<and> rel \<in> set candidate_paths
        \<and> path_of kl (base @ ''/'' @ rel) = Inr path' \<and> derive_priv kl root path' = Inr key
        \<and> p2tr_of wl (pub_of kl account) network rel = Inr a \<longrightarrow> sl_p2tr sl network key = a)"

definition sighash_documented :: "'k sign_libs \<Rightarrow> bool" where
  "sighash_documented sl \<longleftrightarrow>
     (\<forall>tx i j w prevouts. sl_key_sighash sl (set_witness j w tx) i prevouts = sl_key_sighash sl tx i prevouts)"

text \<open>A keystore of the mnemonic: its account is the one at its base path.\<close>

definition own_keystore :: "('k, 'x) key_libs \<Rightarrow> wallet_keystore \<Rightarrow> string \<Rightarrow> network \<Rightarrow> bool" where
  "own_keystore kl ks m network \<longleftrightarrow>
     (\<exists>root path account. root_key kl network m = Inr root \<and> path_of kl (base_path ks) = Inr path
        \<and> derive_priv kl root path = Inr account \<and> ks_xpub ks = xpub_text kl (pub_of kl account))"

lemma search_path_found:
  "search_path wl xpub network address ps = Inr p \<Longrightarrow> p \<in> set ps \<and> p2tr_of wl xpub network p = Inr address"
  by (induction ps) (auto simp: dbind_Inr split: if_splits)

lemma signing_key_owns:
  assumes lib: "bip32_documented wl kl sl" and own: "own_keystore kl ks m network"
    and key: "signing_key wl kl sl ks m network prevout = Inr key"
  shows "sl_address sl network (to_script_pubkey prevout) = Inr (sl_p2tr sl network key)"
proof -
  obtain root path account where account: "root_key kl network m = Inr root" "path_of kl (base_path ks) = Inr path"
      "derive_priv kl root path = Inr account" "ks_xpub ks = xpub_text kl (pub_of kl account)"
    using own by (auto simp: own_keystore_def)
  have xpub: "xpub_of wl (ks_xpub ks) = Inr (pub_of kl account)"
    using lib account(4) by (simp add: bip32_documented_def)
  obtain address rel path' where found: "sl_address sl network (to_script_pubkey prevout) = Inr address"
      "search_path wl (pub_of kl account) network address candidate_paths = Inr rel"
      "path_of kl (base_path ks @ ''/'' @ rel) = Inr path'" "derive_priv kl root path' = Inr key"
    using key by (auto simp: signing_key_def find_address_info_def xpub account(1) dbind_Inr split: sum.splits)
  have "sl_p2tr sl network key = address"
    using lib account(2,3) found(3,4) search_path_found [OF found(2)] unfolding bip32_documented_def by blast
  with found(1) show ?thesis by simp
qed

text \<open>A keystore that was created for a network is a keystore of its mnemonic there.\<close>

lemma created_keystore_owned:
  assumes "keystore_new kl cl al en m network passphrase None = Inr ks" "mnemonic_of kl m = Inr m"
  shows "own_keystore kl ks m network"
proof -
  have "map_of standard_paths ''p2tr'' = Some (account_path ''86'')"
    by (simp add: standard_paths_def tree_of_def)
  moreover have "\<not> suffix ''/'' (account_path ''86'')" by (simp add: account_path_def suffix_def)
  moreover have "wk_hd_paths ks = standard_paths" using assms(1) by (auto simp: keystore_new_def dbind_Inr)
  ultimately have base: "base_path ks = account_path ''86''" by (simp add: base_path_def Let_def)
  show ?thesis using assms unfolding own_keystore_def base
    by (auto simp: keystore_new_def dbind_Inr root_key_def)
qed

text \<open>Two transactions that differ in the witnesses only.\<close>

definition same_but_witnesses :: "raw_tx \<Rightarrow> raw_tx \<Rightarrow> bool" where
  "same_but_witnesses tx tx' \<longleftrightarrow>
     rt_version tx' = rt_version tx \<and> rt_lock_time tx' = rt_lock_time tx \<and> rt_outputs tx' = rt_outputs tx
     \<and> map (\<lambda>input. (ri_outpoint input, ri_script_sig input, ri_sequence input)) (rt_inputs tx')
       = map (\<lambda>input. (ri_outpoint input, ri_script_sig input, ri_sequence input)) (rt_inputs tx)"

lemma set_witness_same: "i < length (rt_inputs tx) \<Longrightarrow> same_but_witnesses tx (set_witness i w tx)"
  by (auto simp: same_but_witnesses_def set_witness_def intro!: nth_equalityI simp: nth_list_update)

lemma same_but_witnesses_trans:
  "same_but_witnesses tx tx' \<Longrightarrow> same_but_witnesses tx' tx'' \<Longrightarrow> same_but_witnesses tx tx''"
  by (simp add: same_but_witnesses_def)

lemma same_but_witnesses_length: "same_but_witnesses tx tx' \<Longrightarrow> length (rt_inputs tx') = length (rt_inputs tx)"
  unfolding same_but_witnesses_def by (elim conjE) (rule map_eq_imp_length_eq)

lemma sign_inputs_effect:
  assumes "sighash_documented sl" "sign_inputs key_for sl rng prevouts js tx = Inr tx2"
    "distinct js" "\<forall>i \<in> set js. i < length (rt_inputs tx)"
  shows "same_but_witnesses tx tx2
    \<and> (\<forall>i < length (rt_inputs tx). i \<notin> set js \<longrightarrow> rt_inputs tx2 ! i = rt_inputs tx ! i)
    \<and> (\<forall>i \<in> set js. \<exists>key h. key_for (prevouts ! i) = Inr key \<and> sl_key_sighash sl tx i prevouts = Inr h
        \<and> ri_witness (rt_inputs tx2 ! i) = [sl_sign_tweaked sl key h (rng i)])"
  using assms(2-)
proof (induction js arbitrary: tx)
  case (Cons i js)
  then obtain key h where key: "key_for (prevouts ! i) = Inr key" "sl_key_sighash sl tx i prevouts = Inr h"
      "sign_inputs key_for sl rng prevouts js (set_witness i [sl_sign_tweaked sl key h (rng i)] tx) = Inr tx2"
    by (auto simp: dbind_Inr)
  define tx' where "tx' = set_witness i [sl_sign_tweaked sl key h (rng i)] tx"
  have i: "i < length (rt_inputs tx)" using Cons.prems(3) by simp
  then have same: "same_but_witnesses tx tx'" unfolding tx'_def by (rule set_witness_same)
  have length: "length (rt_inputs tx') = length (rt_inputs tx)" using same by (rule same_but_witnesses_length)
  have inputs: "rt_inputs tx' ! i = (rt_inputs tx ! i)\<lparr>ri_witness := [sl_sign_tweaked sl key h (rng i)]\<rparr>"
    "\<And>j. j \<noteq> i \<Longrightarrow> rt_inputs tx' ! j = rt_inputs tx ! j"
    using i by (simp_all add: tx'_def set_witness_def)
  have sighash: "sl_key_sighash sl tx' j prevouts = sl_key_sighash sl tx j prevouts" for j
    using assms(1) by (simp add: sighash_documented_def tx'_def)
  have "sign_inputs key_for sl rng prevouts js tx' = Inr tx2" using key(3) by (simp add: tx'_def)
  from Cons.IH [OF this] Cons.prems(2,3)
  have IH: "same_but_witnesses tx' tx2"
    "\<forall>j < length (rt_inputs tx). j \<notin> set js \<longrightarrow> rt_inputs tx2 ! j = rt_inputs tx' ! j"
    "\<forall>j \<in> set js. \<exists>key h. key_for (prevouts ! j) = Inr key \<and> sl_key_sighash sl tx j prevouts = Inr h
        \<and> ri_witness (rt_inputs tx2 ! j) = [sl_sign_tweaked sl key h (rng j)]"
    by (simp_all add: length sighash)
  have "rt_inputs tx2 ! i = rt_inputs tx' ! i" using IH(2) i Cons.prems(2) by simp
  with inputs(1) key(1,2)
  have "\<exists>key h. key_for (prevouts ! i) = Inr key \<and> sl_key_sighash sl tx i prevouts = Inr h
        \<and> ri_witness (rt_inputs tx2 ! i) = [sl_sign_tweaked sl key h (rng i)]" by simp
  moreover have "\<forall>j < length (rt_inputs tx). j \<notin> set (i # js) \<longrightarrow> rt_inputs tx2 ! j = rt_inputs tx ! j"
    using IH(2) inputs(2) by simp
  ultimately show ?case using IH(3) same_but_witnesses_trans [OF same IH(1)] by simp
qed (simp add: same_but_witnesses_def)

lemma prevouts_found:
  "dact_map (prevout_of wl b p) inputs n = (Inr prevouts, n') \<Longrightarrow>
   list_all2 (\<lambda>input out. \<exists>k k'. get_utxo wl b p (ri_outpoint input) k = (Inr (Some out), k')) inputs prevouts"
proof -
  assume "dact_map (prevout_of wl b p) inputs n = (Inr prevouts, n')"
  then have "list_all2 (\<lambda>x y. \<exists>k k'. prevout_of wl b p x k = (Inr y, k')) inputs prevouts" by (rule dact_map_Inr)
  then show ?thesis
  proof (rule list_all2_mono)
    show "\<exists>k k'. get_utxo wl b p (ri_outpoint x) k = (Inr (Some y), k')"
      if "\<exists>k k'. prevout_of wl b p x k = (Inr y, k')" for x y
      using that by (fastforce simp: prevout_of_def dact_bind_Inr split: option.splits)
  qed
qed

text \<open>
  C39: A transaction is signed input by input, and nothing but its witnesses changes: every input gets
  the signature of the key whose address the output it spends is locked to, over the hash for this
  input and the outputs that were looked up.  A wallet that is not unlocked signs nothing.
\<close>

theorem transaction_signed_by_owner:
  assumes lib: "bip32_documented wl kl sl" "sighash_documented sl"
    and signed: "sign_transaction wl kl sl b p wp rng tx_hex n = (Inr hex, n')"
    and own: "\<And>ks m. wp_state wp = Unlocked ks m \<Longrightarrow> own_keystore kl ks m (get_network p)"
  shows "\<exists>ks m bs tx tx' prevouts. wp_state wp = Unlocked ks m
    \<and> unhex wl tx_hex = Inr bs \<and> sl_deserialize sl bs = Inr tx \<and> hex = sl_serialize sl tx'
    \<and> same_but_witnesses tx tx'
    \<and> list_all2 (\<lambda>input out. \<exists>k k'. get_utxo wl b p (ri_outpoint input) k = (Inr (Some out), k')) (rt_inputs tx) prevouts
    \<and> (\<forall>i < length (rt_inputs tx). \<exists>key h. sl_key_sighash sl tx i prevouts = Inr h
        \<and> ri_witness (rt_inputs tx' ! i) = [sl_sign_tweaked sl key h (rng i)]
        \<and> sl_address sl (get_network p) (to_script_pubkey (prevouts ! i)) = Inr (sl_p2tr sl (get_network p) key))"
proof -
  obtain ks m where state: "wp_state wp = Unlocked ks m"
    using signed by (cases "wp_state wp") (auto simp: sign_transaction_def dact_bind_Inr)
  then obtain bs tx prevouts tx' k where run: "unhex wl tx_hex = Inr bs" "sl_deserialize sl bs = Inr tx"
      "dact_map (prevout_of wl b p) (rt_inputs tx) n = (Inr prevouts, k)"
      "sign_inputs (signing_key wl kl sl ks m (get_network p)) sl rng prevouts [0..<length prevouts] tx = Inr tx'"
      "hex = sl_serialize sl tx'"
    using signed by (auto simp: sign_transaction_def dact_bind_Inr dbind_Inr)
  have found: "list_all2 (\<lambda>input out. \<exists>k k'. get_utxo wl b p (ri_outpoint input) k = (Inr (Some out), k')) (rt_inputs tx) prevouts"
    using run(3) by (rule prevouts_found)
  then have length: "length prevouts = length (rt_inputs tx)" by (simp add: list_all2_lengthD)
  have effect: "same_but_witnesses tx tx'"
    "\<forall>i \<in> set [0..<length prevouts]. \<exists>key h. signing_key wl kl sl ks m (get_network p) (prevouts ! i) = Inr key
        \<and> sl_key_sighash sl tx i prevouts = Inr h \<and> ri_witness (rt_inputs tx' ! i) = [sl_sign_tweaked sl key h (rng i)]"
    using sign_inputs_effect [OF lib(2) run(4)] by (simp_all add: length)
  moreover have "\<exists>key h. sl_key_sighash sl tx i prevouts = Inr h
        \<and> ri_witness (rt_inputs tx' ! i) = [sl_sign_tweaked sl key h (rng i)]
        \<and> sl_address sl (get_network p) (to_script_pubkey (prevouts ! i)) = Inr (sl_p2tr sl (get_network p) key)"
    if "i < length (rt_inputs tx)" for i
    using effect(2) that signing_key_owns [OF lib(1) own [OF state]] by (fastforce simp: length)
  ultimately show ?thesis using run state found by blast
qed

subsection \<open>The PSBT of a commit or a reveal\<close>

lemma sign_psbt_inputs_effect:
  "sign_psbt_inputs f prevouts i inputs = Inr inputs' \<Longrightarrow>
   length inputs' = length inputs \<and> i + length inputs \<le> max i (length prevouts)
   \<and> (\<forall>j < length inputs. f (i + j) (inputs ! j) = Inr (inputs' ! j))"
proof (induction inputs arbitrary: i inputs')
  case (Cons input inputs)
  then obtain first rest where head: "i < length prevouts" "f i input = Inr first"
      "sign_psbt_inputs f prevouts (Suc i) inputs = Inr rest" "inputs' = first # rest"
    by (auto simp: fbind_Inr split: if_splits)
  from Cons.IH [OF head(3)] have IH: "length rest = length inputs" "Suc i + length inputs \<le> max (Suc i) (length prevouts)"
    "\<forall>j < length inputs. f (Suc i + j) (inputs ! j) = Inr (rest ! j)" by simp_all
  have "f (i + j) ((input # inputs) ! j) = Inr ((first # rest) ! j)" if "j < length (input # inputs)" for j
    using that head(2) IH(3) by (cases j) simp_all
  with IH(1,2) head(1,4) show ?case by auto
qed simp

text \<open>The signature of an input: by the owner of its output, or through the first leaf of its tree.\<close>

definition input_signed ::
  "('k, 'x) key_libs \<Rightarrow> 'k sign_libs \<Rightarrow> wallet_keystore \<Rightarrow> string \<Rightarrow> network \<Rightarrow> (nat \<Rightarrow> nat) \<Rightarrow> raw_tx \<Rightarrow> tx_out list \<Rightarrow> nat
   \<Rightarrow> psbt_input \<Rightarrow> psbt_input \<Rightarrow> bool" where
  "input_signed kl sl ks m network rng tx prevouts i input input' \<longleftrightarrow>
     (case pi_tap_scripts input of
        [] \<Rightarrow> (\<exists>key h. sl_key_sighash sl tx i prevouts = Inr h
          \<and> input' = input\<lparr>pi_key_sig := Some (sl_sign_tweaked sl key h (rng i))\<rparr>
          \<and> sl_address sl network (to_script_pubkey (prevouts ! i)) = Inr (sl_p2tr sl network key))
      | (control_block, leaf) # _ \<Rightarrow> (\<exists>pk fingerprint path origins root key h.
          pi_key_origins input = (pk, fingerprint, path) # origins
          \<and> sl_fingerprint sl (wk_fingerprint ks) = Inr fingerprint
          \<and> root_key kl network m = Inr root \<and> derive_priv kl root path = Inr key \<and> sl_internal sl key = pk
          \<and> sl_script_sighash sl tx i prevouts leaf = Inr h
          \<and> input' = input\<lparr>pi_final_witness := Some [sl_sign_plain sl key h (rng i), fst leaf, control_block]\<rparr>))"

lemma sign_psbt_input_signed:
  assumes "bip32_documented wl kl sl" "own_keystore kl ks m network"
    and signed: "sign_psbt_input wl kl sl ks m network rng tx prevouts i input = Inr input'"
  shows "input_signed kl sl ks m network rng tx prevouts i input input'"
proof (cases "pi_tap_scripts input")
  case Nil
  then show ?thesis using signed signing_key_owns [OF assms(1,2)]
    by (auto simp: sign_psbt_input_def input_signed_def dbind_Inr)
next
  case (Cons entry entries)
  obtain control_block leaf where entry: "entry = (control_block, leaf)" by (cases entry)
  show ?thesis
  proof (cases "pi_key_origins input")
    case Nil
    then show ?thesis using signed Cons
      by (auto simp: sign_psbt_input_def script_witness_def entry dbind_Inr)
  next
    case origins: (Cons origin origins)
    obtain pk fingerprint path where origin: "origin = (pk, fingerprint, path)" by (cases origin)
    show ?thesis using signed Cons origins
      by (auto simp: sign_psbt_input_def script_witness_def input_signed_def entry origin dbind_Inr split: if_splits)
  qed
qed

text \<open>
  C40: A PSBT is signed input by input with its transaction unchanged: an input without tap scripts by
  the owner of the output it spends; an input with tap scripts through its first leaf, by the key at
  the path of its first origin, only when the origin names the wallet's fingerprint and that key.
\<close>

theorem psbt_signed:
  assumes lib: "bip32_documented wl kl sl"
    and run: "sign_psbt wl kl sl b p wp rng psbt n = (Inr psbt', n')"
    and own: "\<And>ks m. wp_state wp = Unlocked ks m \<Longrightarrow> own_keystore kl ks m (get_network p)"
  shows "\<exists>ks m tx prevouts. wp_state wp = Unlocked ks m \<and> sl_extract sl psbt = Inr tx
    \<and> list_all2 (\<lambda>input out. \<exists>k k'. get_utxo wl b p (ri_outpoint input) k = (Inr (Some out), k')) (rt_inputs tx) prevouts
    \<and> pd_tx psbt' = pd_tx psbt \<and> length (pd_inputs psbt') = length (pd_inputs psbt)
    \<and> length (pd_inputs psbt) \<le> length (rt_inputs tx)
    \<and> (\<forall>i < length (pd_inputs psbt).
        input_signed kl sl ks m (get_network p) rng tx prevouts i (pd_inputs psbt ! i) (pd_inputs psbt' ! i))"
proof -
  obtain ks m where state: "wp_state wp = Unlocked ks m"
    using run by (cases "wp_state wp") (auto simp: sign_psbt_def dact_bind_Inr)
  then obtain tx prevouts k inputs where parts: "sl_extract sl psbt = Inr tx"
      "dact_map (prevout_of wl b p) (rt_inputs tx) n = (Inr prevouts, k)"
      "sign_psbt_inputs (sign_psbt_input wl kl sl ks m (get_network p) rng tx prevouts) prevouts 0 (pd_inputs psbt) = Inr inputs"
      "psbt' = psbt\<lparr>pd_inputs := inputs\<rparr>"
    using run by (auto simp: sign_psbt_def dact_bind_Inr fbind_Inr split: sum.splits)
  note found = prevouts_found [OF parts(2)]
  note effect = sign_psbt_inputs_effect [OF parts(3)]
  have "\<forall>i < length (pd_inputs psbt). input_signed kl sl ks m (get_network p) rng tx prevouts i (pd_inputs psbt ! i) (inputs ! i)"
    using effect sign_psbt_input_signed [OF lib own [OF state]] by simp
  with effect parts(1,4) state found list_all2_lengthD [OF found] show ?thesis by auto
qed

text \<open>
  The key that signs script spends outside a PSBT is the root itself, not the internal key that the
  wallet gives out, which is the one at \<open>m/86'/1'/0'\<close>.
\<close>

lemma script_spend_key:
  assumes "get_internal_key kl sl p wp = Inr (pk, fingerprint, path)" "sign_taproot_script_spend kl sl p wp r h = Inr sig"
  shows "\<exists>m root key. root_key kl (get_network p) m = Inr root \<and> derive_priv kl root path = Inr key
    \<and> pk = sl_internal sl key \<and> sig = sl_sign_plain sl root h r"
  using assms
  by (auto simp: get_internal_key_def sign_taproot_script_spend_def get_keypair_def get_mnemonic_def dbind_Inr
      split: wallet_state.splits)

subsection \<open>A wallet that signs\<close>

text \<open>Over the example keys, the script of a key is the key; a signature is the key, the hash and the
  randomness.\<close>

definition example_signing :: "byte list sign_libs" where
  "example_signing =
     \<lparr>sl_deserialize = (\<lambda>bs. Inr \<lparr>rt_version = 2, rt_lock_time = 0,
        rt_inputs = [\<lparr>ri_outpoint = (''ab'', 0), ri_script_sig = [], ri_sequence = 0, ri_witness = []\<rparr>],
        rt_outputs = [\<lparr>to_amount = 900, to_script_pubkey = bs\<rparr>]\<rparr>),
      sl_serialize = (\<lambda>tx. hex_text (concat (concat (map ri_witness (rt_inputs tx))))),
      sl_extract = (\<lambda>psbt. Inr (pd_tx psbt)),
      sl_address = (\<lambda>n s. Inr (hex_text s)),
      sl_xpub_message = (\<lambda>s. ''invalid xpub''),
      sl_fingerprint = Inr,
      sl_key_sighash = (\<lambda>tx i prevouts. Inr (concat (map to_script_pubkey (rt_outputs tx)))),
      sl_script_sighash = (\<lambda>tx i prevouts leaf. Inr (fst leaf)),
      sl_sign_tweaked = (\<lambda>k h r. k @ h @ [of_nat r]),
      sl_sign_plain = (\<lambda>k h r. k @ h @ [of_nat r]),
      sl_p2tr = (\<lambda>n k. hex_text k),
      sl_internal = hex_text\<rparr>"

lemma example_key_sighash: "sl_key_sighash example_signing tx i prevouts = Inr (concat (map to_script_pubkey (rt_outputs tx)))"
  by (simp add: example_signing_def)

lemma example_bip32_documented: "bip32_documented example_wallet example_keys example_signing"
  by (auto simp: bip32_documented_def example_wallet_def example_keys_def example_signing_def)

lemma example_sighash_documented: "sighash_documented example_signing"
  by (simp add: sighash_documented_def example_signing_def set_witness_def)

definition account_key :: "byte list" where
  "account_key = map of_char ''about'' @ map ucast (map of_char (account_path ''86'') :: u32 list)"

definition example_keystore :: wallet_keystore where
  "example_keystore =
     \<lparr>ks_xpub = hex_text account_key,
      wk_encrypted = [], wk_fingerprint = ''61626f75'', wk_created_at = 0, wk_version = ''0.1.0'',
      wk_pbkdf2 = \<lparr>pp_salt = [], pp_nonce = None, pp_iterations = 600000, pp_algorithm = None\<rparr>,
      wk_hd_paths = standard_paths\<rparr>"

lemma example_base_path: "base_path example_keystore = account_path ''86''"
  by (simp add: base_path_def example_keystore_def standard_paths_def tree_of_def account_path_def suffix_def Let_def)

lemma example_owned: "own_keystore example_keys example_keystore ''about'' network"
  unfolding own_keystore_def example_base_path
  by (simp add: example_keystore_def account_key_def root_key_def example_keys_def ascii_def del: hex_text_append)

text \<open>The key of the first address, its script, and a server that has a coin there.\<close>

definition first_key :: "byte list" where
  "first_key = account_key @ map ucast (map of_char (''/'' @ ''0/0'') :: u32 list)"

definition first_coin_backend :: backend where
  "first_coin_backend = \<lparr>http_post = (\<lambda>n url rpc_method params. Inl ''refused''), http_get = (\<lambda>n url. Inr []),
     in_time = (\<lambda>n. True),
     parse_json = (\<lambda>s. Some (JObj [(''vout'', JArr [JObj [(''value'', JNum (PosInt 1000)),
       (''scriptpubkey'', JStr (hex_text first_key))]])])),
     show_json = (\<lambda>v. []), body_error = (\<lambda>s. []), http_get_bytes = (\<lambda>n url. Inl ''refused''),
     http_post_text = (\<lambda>n url body. Inl ''refused'')\<rparr>"

definition first_coin_provider :: concrete_provider where
  "first_coin_provider = build_provider None ''url'' (Some ''esplora'') ''mainnet''"

definition unlocked_example :: wallet_provider where
  "unlocked_example = \<lparr>wp_state = Unlocked example_keystore ''about'', wp_passphrase = None, wp_path = None\<rparr>"

lemma first_coin_found:
  "prevout_of example_wallet first_coin_backend first_coin_provider
     \<lparr>ri_outpoint = (''ab'', 0), ri_script_sig = [], ri_sequence = 0, ri_witness = w\<rparr> n
   = (Inr \<lparr>to_amount = 1000, to_script_pubkey = first_key\<rparr>, Suc n)"
  by (simp add: prevout_of_def get_utxo_def dact_bind_def dact_lift_def dact_return_def request_def get_tx_def
      esplora_json_def first_coin_provider_def build_provider_def concrete_provider_new_def first_coin_backend_def
      jstr_def example_wallet_def)

lemma first_candidate: "candidate_paths = ''0/0'' # tl candidate_paths"
  by (simp add: candidate_paths_def upt_rec [of 0 101] upt_rec [of 0 2] dec_string.simps digit_char_def)

lemma first_address_found:
  "find_address_info example_wallet example_signing example_keystore (hex_text first_key) network
   = Inr \<lparr>fa_path = account_path ''86'' @ ''/'' @ ''0/0'', fa_address = hex_text first_key, fa_type = ''p2tr''\<rparr>"
proof -
  have "p2tr_of example_wallet account_key network ''0/0'' = Inr (hex_text first_key)"
    by (simp only: example_wallet_def first_key_def wallet_libs.simps)
  then have "search_path example_wallet account_key network (hex_text first_key) (''0/0'' # ps) = Inr ''0/0''" for ps
    by (simp only: search_path.simps dbind.simps simp_thms if_True)
  then have "search_path example_wallet account_key network (hex_text first_key) candidate_paths = Inr ''0/0''"
    by (subst first_candidate)
  moreover have "xpub_of example_wallet (ks_xpub example_keystore) = Inr account_key"
    by (simp only: example_wallet_def example_keystore_def wallet_libs.simps wallet_keystore.simps keystore.simps unhex_text_hex)
  ultimately show ?thesis
    by (simp only: find_address_info_def example_base_path sum.case dbind.simps)
qed

lemma first_key_path: "map of_char ''about'' @ map ucast (map of_char (account_path ''86'' @ ''/'' @ ''0/0'') :: u32 list) = first_key"
  by (simp only: first_key_def account_key_def map_append append_assoc)

lemma first_key_signs:
  "signing_key example_wallet example_keys example_signing example_keystore ''about'' network
     \<lparr>to_amount = v, to_script_pubkey = first_key\<rparr> = Inr first_key"
proof -
  have "root_key example_keys network ''about'' = Inr (map of_char ''about'')"
    by (simp add: root_key_def example_keys_def ascii_def)
  moreover have "sl_address example_signing network first_key = Inr (hex_text first_key)"
    by (simp add: example_signing_def)
  moreover have "path_of example_keys = (\<lambda>s. Inr (map of_char s))" "derive_priv example_keys = (\<lambda>k p. Inr (k @ map ucast p))"
    by (simp_all add: example_keys_def)
  ultimately show ?thesis
    by (simp only: signing_key_def tx_out.simps sum.case dbind.simps first_address_found found_address.simps first_key_path)
qed

definition first_tx :: raw_tx where
  "first_tx = \<lparr>rt_version = 2, rt_lock_time = 0,
     rt_inputs = [\<lparr>ri_outpoint = (''ab'', 0), ri_script_sig = [], ri_sequence = 0, ri_witness = []\<rparr>],
     rt_outputs = [\<lparr>to_amount = 900, to_script_pubkey = [81]\<rparr>]\<rparr>"

definition first_coin :: tx_out where
  "first_coin = \<lparr>to_amount = 1000, to_script_pubkey = first_key\<rparr>"

lemma first_coin_listed:
  "dact_map (prevout_of example_wallet first_coin_backend first_coin_provider) (rt_inputs first_tx) n = (Inr [first_coin], Suc n)"
  by (simp add: first_tx_def first_coin_def dact_bind_def dact_return_def first_coin_found)

lemma first_coin_spent:
  "\<exists>hex. sign_transaction example_wallet example_keys example_signing first_coin_backend first_coin_provider unlocked_example
      id (hex_text [81]) 0 = (Inr hex, 1)"
proof -
  have "dbind (unhex example_wallet (hex_text [81])) (sl_deserialize example_signing) = Inr first_tx"
    by (simp add: example_wallet_def example_signing_def first_tx_def)
  moreover have "\<exists>tx'. dbind (sign_inputs (signing_key example_wallet example_keys example_signing example_keystore ''about'' network)
      example_signing id [first_coin] [0..<1] first_tx) (\<lambda>signed. Inr (sl_serialize example_signing signed)) = Inr tx'" for network
    by (simp add: first_coin_def first_key_signs example_key_sighash)
  ultimately show ?thesis
    by (simp add: sign_transaction_def dact_bind_def dact_lift_def dact_return_def first_coin_listed unlocked_example_def
        split: sum.splits) (metis sum.distinct(1) sum.inject(2))
qed

lemma transaction_signed_by_owner_witness:
  "\<exists>hex tx' prevouts key h. sign_transaction example_wallet example_keys example_signing first_coin_backend first_coin_provider
      unlocked_example id (hex_text [81]) 0 = (Inr hex, 1)
    \<and> hex = sl_serialize example_signing tx' \<and> same_but_witnesses first_tx tx'
    \<and> sl_key_sighash example_signing first_tx 0 prevouts = Inr h
    \<and> ri_witness (rt_inputs tx' ! 0) = [sl_sign_tweaked example_signing key h 0]
    \<and> sl_address example_signing (get_network first_coin_provider) (to_script_pubkey (prevouts ! 0))
      = Inr (sl_p2tr example_signing (get_network first_coin_provider) key)"
proof -
  obtain hex where run: "sign_transaction example_wallet example_keys example_signing first_coin_backend first_coin_provider
      unlocked_example id (hex_text [81]) 0 = (Inr hex, 1)"
    using first_coin_spent by blast
  have "own_keystore example_keys ks m (get_network first_coin_provider)" if "wp_state unlocked_example = Unlocked ks m" for ks m
    using that example_owned by (simp add: unlocked_example_def)
  from transaction_signed_by_owner [OF example_bip32_documented example_sighash_documented run this]
  obtain bs tx tx' prevouts where parts: "unhex example_wallet (hex_text [81]) = Inr bs" "sl_deserialize example_signing bs = Inr tx"
      "hex = sl_serialize example_signing tx'" "same_but_witnesses tx tx'"
      "\<forall>i < length (rt_inputs tx). \<exists>key h. sl_key_sighash example_signing tx i prevouts = Inr h
        \<and> ri_witness (rt_inputs tx' ! i) = [sl_sign_tweaked example_signing key h (id i)]
        \<and> sl_address example_signing (get_network first_coin_provider) (to_script_pubkey (prevouts ! i))
          = Inr (sl_p2tr example_signing (get_network first_coin_provider) key)"
    by blast
  have "bs = [81]" using parts(1) by (simp add: example_wallet_def)
  then have "tx = first_tx" using parts(2) by (simp add: example_signing_def first_tx_def)
  moreover have "0 < length (rt_inputs first_tx)" by (simp add: first_tx_def)
  ultimately show ?thesis using run parts(3-5) by (fastforce simp: id_def)
qed

definition first_psbt :: psbt_doc where
  "first_psbt = \<lparr>pd_tx = first_tx,
     pd_inputs = [\<lparr>pi_tap_scripts = [], pi_key_origins = [], pi_key_sig = None, pi_final_witness = None\<rparr>]\<rparr>"

lemma first_psbt_signed:
  "\<exists>psbt'. sign_psbt example_wallet example_keys example_signing first_coin_backend first_coin_provider unlocked_example
      id first_psbt 0 = (Inr psbt', 1)"
proof -
  have "sl_extract example_signing first_psbt = Inr first_tx" by (simp add: example_signing_def first_psbt_def)
  moreover have "\<exists>inputs. sign_psbt_inputs (sign_psbt_input example_wallet example_keys example_signing example_keystore ''about''
      network id first_tx [first_coin]) [first_coin] 0 (pd_inputs first_psbt) = Inr inputs" for network
    by (simp add: first_psbt_def sign_psbt_input_def first_coin_def first_key_signs example_key_sighash)
  then obtain inputs where "sign_psbt_inputs (sign_psbt_input example_wallet example_keys example_signing example_keystore ''about''
      (get_network first_coin_provider) id first_tx [first_coin]) [first_coin] 0 (pd_inputs first_psbt) = Inr inputs" by blast
  ultimately show ?thesis
    by (simp add: sign_psbt_def dact_bind_def dact_lift_def dact_return_def first_coin_listed unlocked_example_def)
qed

lemma psbt_signed_witness:
  "\<exists>psbt' tx prevouts. sign_psbt example_wallet example_keys example_signing first_coin_backend first_coin_provider
      unlocked_example id first_psbt 0 = (Inr psbt', 1)
    \<and> pd_tx psbt' = first_tx
    \<and> input_signed example_keys example_signing example_keystore ''about'' (get_network first_coin_provider) id tx prevouts 0
        (pd_inputs first_psbt ! 0) (pd_inputs psbt' ! 0)"
proof -
  obtain psbt' where run: "sign_psbt example_wallet example_keys example_signing first_coin_backend first_coin_provider
      unlocked_example id first_psbt 0 = (Inr psbt', 1)"
    using first_psbt_signed by blast
  have "own_keystore example_keys ks m (get_network first_coin_provider)" if "wp_state unlocked_example = Unlocked ks m" for ks m
    using that example_owned by (simp add: unlocked_example_def)
  from psbt_signed [OF example_bip32_documented run this]
  obtain ks m tx prevouts where parts: "wp_state unlocked_example = Unlocked ks m" "pd_tx psbt' = pd_tx first_psbt"
      "\<forall>i < length (pd_inputs first_psbt). input_signed example_keys example_signing ks m (get_network first_coin_provider) id
         tx prevouts i (pd_inputs first_psbt ! i) (pd_inputs psbt' ! i)"
    by blast
  have "ks = example_keystore" "m = ''about''" using parts(1) by (simp_all add: unlocked_example_def)
  moreover have "0 < length (pd_inputs first_psbt)" "pd_tx first_psbt = first_tx" by (simp_all add: first_psbt_def)
  ultimately show ?thesis using run parts(2,3) by metis
qed

end
