(* ===== verification/Spec2Isabelle.thy ===== *)
theory Spec2Isabelle
  imports Service_Loops Tools Schema Inspect Ledger Deezel
    Deployment Transactions Addresses Address_Ids Block_Monitor Simulation
    Alkane_Inspector Rune_Manager Signing
begin

text \<open>
  A verification development for the Alkanes contract indexer: the crate in \<open>src/src\<close>, and of the
  library deezel that it is built on the client side: what the indexer uses, and the wallet, the
  executor of Alkanes transactions and the tools around them, from the copy in
  \<open>src/reference/deezel\<close> (Cargo takes the library from git).  Paths below are relative to \<open>src/src/\<close>
  or, for the library, to \<open>src/reference/deezel/crates/deezel-common/src/\<close>.

  The program.  A service (\<open>main.rs\<close>) runs two tasks over one Postgres database: the tip poller
  (\<open>poller.rs\<close>) asks for the height of the chain tip, refreshes the pools of the AMM factory
  (\<open>helpers/pools.rs\<close>) and processes every new block; the catch-up (\<open>coordinator.rs\<close>) processes
  the blocks from a configured height and records its progress (\<open>progress.rs\<close>).  Both hand a height
  to \<open>pipeline.rs\<close>, which fetches the block (\<open>helpers/block.rs\<close>), traces the protostones of its
  \<open>OP_RETURN\<close> transactions (\<open>helpers/protostone.rs\<close>), stores the traces (\<open>db/transactions.rs\<close>),
  derives swaps, pool creations, mints, burns, wraps and unwraps from them (\<open>helpers/poolswap.rs\<close>,
  \<open>poolcreate.rs\<close>, \<open>poolmint.rs\<close>, \<open>poolburn.rs\<close>, \<open>subfrost.rs\<close>), marks the block as processed
  (\<open>db/blocks.rs\<close>) and publishes it (\<open>helpers/notify.rs\<close>).  Requests go through the retry loop and
  the circuit breaker of \<open>helpers/rpc.rs\<close>.  The tools in \<open>bin/\<close> manage the schema, reset the
  progress, purge, re-index or inspect.

  The theories, each over the ones before it.

  \<open>Prelude\<close>: machine integers, results with anyhow's context chain and panics, radix parsing and
  decimal printing, chunks, the stable sort.  \<open>Json\<close>, \<open>Token_Amounts\<close>: \<open>serde_json\<close> values and the
  readers of amounts.  \<open>Scan\<close>: the interfaces \<open>key_comparator\<close> and \<open>best_match\<close> of the loops that
  the indexers share, interpreted in \<open>Trace_Events\<close> and \<open>Pool_Events\<close>.  \<open>Trace_Events\<close>: the events
  that the indexers are given, their order and the matching of returns.

  \<open>Tables\<close>: the database as a record of tables with the constraints of \<open>schema.rs\<close>
  (\<open>schema_ok\<close>), statements as functions of it that fail as a whole, and the database calls of an
  action, any of which an outage may hit.  \<open>Db_Transactions\<close>, \<open>Db_Pools\<close>: the statements.
  \<open>Db_Transactions\<close> has the interface \<open>row_store\<close> (delete the rows of some transactions, insert
  others in chunks), interpreted on the seven tables that are written that way.

  \<open>Pool_Events\<close>, \<open>Pool_Swap\<close>, \<open>Pool_Create\<close>, \<open>Pool_Mint\<close>, \<open>Pool_Burn\<close>, \<open>Subfrost\<close>: one theory per
  indexer, with \<open>.._row_at\<close> for what one invoke gives, \<open>.._rows\<close> for a block and
  \<open>index_.._for_block\<close> for the whole function; the lemmas say when there is a row, when it is
  successful and which amounts it has.

  \<open>World\<close>: the environment, the clock, the breaker, redis and the third-party code as oracles, whose
  successive answers are numbered.  \<open>Rpc\<close>, \<open>Block\<close>, \<open>Protostone\<close>, \<open>Pools\<close>, \<open>Notify\<close>: the helpers of
  the same names.  \<open>Pipeline\<close>: one block from the request for its hash to the publication, and the
  refresh of the pools.  \<open>Ledger\<close>: the abstract specification of the six event tables, a map from
  transactions to their events, and the refinement of one step of it by \<open>index_block\<close>.

  \<open>Config\<close>: the configuration.  \<open>Block_Loop\<close>: the interface \<open>block_loop\<close> through which the two tasks
  use the pipeline, with the law of the loop that stops at the first failure; interpreted in
  \<open>Poller\<close> (one iteration of the tip loop) and \<open>Coordinator\<close> (one pass of the catch-up).
  \<open>Block_Steps\<close>: the processing of a block and the refresh call by call, as resumptions, which run
  alone are the actions of \<open>Pipeline\<close>, and what each call guarantees whatever runs between them.
  \<open>Service\<close>: the step relation of the two tasks, with restarts, and its invariant.
  \<open>Service_Loops\<close>: the loops are runs of it, and the properties of every run.

  \<open>Tools\<close>: \<open>dbctl reset-progress\<close>, \<open>dbctl purge-block\<close>, \<open>swaps\<close> and \<open>reprocess\<close>.  \<open>Schema\<close>: the
  statements of \<open>schema.rs\<close> on the catalog, and \<open>dbctl push\<close>, \<open>drop\<close> and \<open>reset\<close>.  \<open>Inspect\<close>: the
  tool \<open>inspect\<close>, compared with the indexers.

  The library.  \<open>Bytes\<close>: bytes, little endian numbers, slices of strings, lossy UTF-8 and hex.
  \<open>Deezel_Client\<close>: \<open>provider.rs\<close>, its errors, its construction, one JSON-RPC call with the reading of
  the response, and the calls that the indexer makes, over a transport that is a parameter.  \<open>Amm\<close>:
  \<open>alkanes/amm.rs\<close>, the decoders of the simulated answers and the quotes.  \<open>Varint\<close> and \<open>Runestone\<close>:
  \<open>runestone_enhanced.rs\<close>, the formatter that the indexer calls and the decoder by hand.
  \<open>Alkanes_Trace\<close>: \<open>alkanes/trace.rs\<close>, the structured traces as serde reads and writes them.
  \<open>Deezel\<close>: the oracles of \<open>World\<close> built from these models, and what the indexer's operations do on
  them.

  The library's wallet side.  \<open>Text_Ops\<close>: splitting, trimming and reading numbers as Rust's strings
  do it.  \<open>Float_Bits\<close>: the IEEE arithmetic of fee rates.  \<open>Esplora_Client\<close>: the calls of
  \<open>provider.rs\<close> to esplora, bitcoind and Metashrew.  \<open>Metashrew_Views\<close>: traces, bytecode and balances
  through the views of Metashrew, whose protobuf messages are records.  \<open>Wallet\<close>: the operations of
  \<open>provider.rs\<close> on addresses, balances, coins, fees and transactions, and the two scans \<open>sync\<close> and
  \<open>get_last_used_address_index\<close>; its actions count the requests they make and may fail or panic.
  \<open>Spec_Parsing\<close>: the texts of inputs and protostones (\<open>alkanes/parsing.rs\<close>), with a printer and the
  round trips.  \<open>Envelope\<close>: the reveal script and its witness.  \<open>Execute\<close>: the executor
  (\<open>alkanes/execute.rs\<close>), its validation, the selection of coins, the transactions and the states of
  an execution.  \<open>Deployment\<close>: the commit and reveal of a deployment, and what becomes of a text of
  protostones.  \<open>Amm_Operations\<close>: the operations of \<open>alkanes/amm.rs\<close> that send transactions.
  \<open>Simulation\<close>: \<open>rpc.rs\<close> and \<open>alkanes/simulation.rs\<close>.  \<open>Transactions\<close>: \<open>transaction.rs\<close> and the
  fee checks of \<open>alkanes/fee_validation.rs\<close>.  \<open>Networks\<close>, \<open>Addresses\<close>, \<open>Address_Ids\<close>: network
  parameters and their JSON, addresses, identifiers of wallet addresses.  \<open>Block_Monitor\<close>:
  \<open>monitor.rs\<close>.  \<open>Alkane_Host\<close>: the runtime of the bytecode inspector
  (\<open>alkanes/inspector/types.rs\<close>, \<open>runtime.rs\<close>): the functions a contract can call, over a linear
  memory whose documented behaviour is a hypothesis, the runs of a contract as a step relation, and
  the readers of its response and metadata.  \<open>Alkane_Inspector\<close>: \<open>analysis.rs\<close> and \<open>mod.rs\<close>, the
  batch execution of opcodes, the filter of undefined ones and the inspection.  \<open>Ord_Types\<close>:
  \<open>vendored_ord/runes.rs\<close> and \<open>inscription_id.rs\<close>, names and ids and which of them are read back.
  \<open>Rune_Manager\<close>: \<open>runestone.rs\<close>, the manager over a provider, its displays and the utilities for
  amounts.  \<open>Armor\<close>: the ASCII armor of the crate \<open>deezel-asc\<close> beside the library
  (\<open>armor/reader.rs\<close>, \<open>writer.rs\<close>), in which keystores and messages are exported.  \<open>Keystore\<close>:
  \<open>crypto.rs\<close>, \<open>keystore.rs\<close> and the states of the provider's wallet, which is created, loaded and
  unlocked with a passphrase; the states are a step relation with an invariant, and a wallet that was
  created opens again from its file.  \<open>Signing\<close>: the signing operations of \<open>provider.rs\<close>, with whose
  key each input is signed.

  Names.  A definition has the name of the function it models; a part of a function has the name of
  what it computes, followed by \<open>_at\<close>, \<open>_rows\<close> or \<open>_steps\<close>.  The fields of the rows carry the
  table's prefix (\<open>sw_\<close> for \<open>PoolSwap\<close>, \<open>cr_\<close>, \<open>lq_\<close> for mints and burns, \<open>fr_\<close> for wraps and
  unwraps, \<open>pb_\<close> for \<open>ProcessedBlocks\<close> and so on).  The result of an action is \<open>Inr\<close>, \<open>Inl (Error ..)\<close>
  or, for a panic, \<open>Inl (Panic ..)\<close>.

  Bounds and termination.  Integers have their widths; \<open>as\<close> casts truncate, saturating and checked
  operations are written out.  The only fuel is that of \<open>run_batches\<close>: a concurrent batch takes one
  transaction per turn, so one more than the number of transactions is enough, and
  \<open>decode_and_trace_complete\<close> shows that none is left over.  The retry loop of \<open>Rpc\<close> terminates by
  its measure, the number of attempts that are left.  The scan for used addresses need not end: it is
  a partial function, and \<open>last_used_index_scan\<close> says when it returns.
  The reader of strict UTF-8 (\<open>from_utf8\<close>) counts down from the number of bytes, and every character
  takes at least one.  The service's loops do not end; they are a
  step relation, and properties of them hold in every reachable state.

  Interleaving.  Within a task, what runs concurrently in the code (the requests for transactions,
  the tracing batches) is run in the order in which the environment lets it complete.  Between
  the two tasks the steps are single calls: a request with its retries, a query, or a transaction,
  which is taken to be isolated and is seen by other tasks when it commits.  The database's default
  isolation is weaker: \<open>overlapping_replacements\<close> in \<open>Db_Transactions\<close> shows what two overlapping
  transactions on the same block may leave behind.

  Not modelled, and why: the bitcoin, ordinals, protorune-support and hex crates, the HTTP client and
  the text of JSON (third-party, they are parameters: the oracles of \<open>World\<close>, \<open>backend\<close> and
  \<open>chain_libs\<close>, \<open>wallet_libs\<close>, \<open>exec_libs\<close>, \<open>proto_libs\<close>, \<open>address_libs\<close>), and with them the
  cryptography of the wallet (\<open>crypto_libs\<close>, \<open>key_libs\<close>, \<open>armor_libs\<close>, \<open>sign_libs\<close>); of deezel the
  ord client, which only forwards requests, the WebAssembly engine and the disassembler of the
  bytecode inspector (parameters), the mock provider, the command line, the
  keystore manager of deezel-sys, the web and WASM bindings, and \<open>alkanes/contract.rs\<close> and
  \<open>alkanes/token.rs\<close>, which no module includes; opening connections (\<open>db.rs\<close>), reading the command line and the \<open>.env\<close> file,
  logging and printing (they only pass values on); the migrations of \<open>dbctl migrate\<close> (run by sqlx); the columns \<open>createdAt\<close> and
  \<open>updatedAt\<close> and the generated ids of the event tables, which no code reads; column types, defaults
  and storage parameters in \<open>Schema\<close>; the semaphore of \<open>rpc.rs\<close>, which only delays calls.
\<close>

text \<open>
  Decimal strings round-trip: reading the decimal form of any \<open>u128\<close> gives it back.
\<close>

theorem value_u128_of_decimal: "value_u128_from_json (JStr (to_string (w :: u128))) = Some w"
  by (rule value_of_dec_string)

end
